(* ===== verification/Prelude.thy ===== *)
theory Prelude
  imports Main "HOL-Library.Word"
begin

unbundle bit_operations_syntax

text \<open>
  Shared vocabulary of the development: fixed-width integers, byte buffers, the result type of
  fallible operations, checked buffer accesses, and the big-endian codecs every wire format of the
  program is written with (\<^verbatim>\<open>read_u16\<close>, \<^verbatim>\<open>write_u32\<close> and their kin, which the sources repeat
  in the anonymous namespace of each file).

  A C++ \<^verbatim>\<open>std::span\<close> or \<^verbatim>\<open>std::vector\<close> of bytes is a list of \<open>8 word\<close>. Indexing one out of
  range is undefined behaviour there; here it is the fault \<open>OutOfBounds\<close>, so that memory safety
  is a theorem (\<open>fault_free\<close>) and never an assumption. \<^verbatim>\<open>std::expected<T, std::string>\<close> is the sum
  \<open>fault + 'a\<close>. Offsets and sizes (\<^verbatim>\<open>std::size_t\<close>) are \<open>nat\<close>: each is at most the size of a
  buffer plus a few hundred kilobytes and cannot wrap at 64 bits; every subtraction of the code is
  guarded by a comparison that the model keeps.
\<close>

section \<open>Types\<close>

type_synonym u8 = "8 word"
type_synonym u16 = "16 word"
type_synonym u32 = "32 word"
type_synonym u64 = "64 word"
type_synonym bytes = "u8 list"

datatype fault = Msg string | OutOfBounds

type_synonym 'a result = "fault + 'a"

named_theorems safe \<open>introduction rules that an operation never indexes a buffer out of range\<close>
named_theorems access \<open>reads that are in range, as list accesses\<close>
named_theorems wire \<open>evaluation of buffer reads and writes on buffers given as concatenations\<close>

section \<open>Results\<close>

definition make_error :: "string \<Rightarrow> 'a result" where
  "make_error message = Inl (Msg message)"

fun bindE :: "'a result \<Rightarrow> ('a \<Rightarrow> 'b result) \<Rightarrow> 'b result" where
  "bindE (Inl e) f = Inl e"
| "bindE (Inr v) f = f v"

text \<open>The caller prefixes the callee's message and returns it (\<^verbatim>\<open>message.append(result.error())\<close>).\<close>

fun prefix_error :: "string \<Rightarrow> 'a result \<Rightarrow> 'a result" where
  "prefix_error p (Inl (Msg m)) = Inl (Msg (p @ m))"
| "prefix_error p r = r"

definition fault_free :: "'a result \<Rightarrow> bool" where
  "fault_free r \<longleftrightarrow> r \<noteq> Inl OutOfBounds"

fun ok :: "'a result \<Rightarrow> bool" where
  "ok (Inl _) = False"
| "ok (Inr _) = True"

section \<open>Checked buffer accesses\<close>

definition read_u8 :: "bytes \<Rightarrow> nat \<Rightarrow> u8 result" where
  "read_u8 data offset = (if offset < length data then Inr (data ! offset) else Inl OutOfBounds)"

definition write_u8 :: "bytes \<Rightarrow> nat \<Rightarrow> u8 \<Rightarrow> bytes result" where
  "write_u8 data offset value =
     (if offset < length data then Inr (data[offset := value]) else Inl OutOfBounds)"

definition subspan :: "bytes \<Rightarrow> nat \<Rightarrow> nat \<Rightarrow> bytes result" where
  "subspan data offset count =
     (if offset + count \<le> length data then Inr (take count (drop offset data)) else Inl OutOfBounds)"

definition be16 :: "u8 \<Rightarrow> u8 \<Rightarrow> u16" where
  "be16 a b = push_bit 8 (ucast a) OR ucast b"

definition be24 :: "u8 \<Rightarrow> u8 \<Rightarrow> u8 \<Rightarrow> u32" where
  "be24 a b c = push_bit 16 (ucast a) OR push_bit 8 (ucast b) OR ucast c"

definition be32 :: "u8 \<Rightarrow> u8 \<Rightarrow> u8 \<Rightarrow> u8 \<Rightarrow> u32" where
  "be32 a b c d = push_bit 24 (ucast a) OR push_bit 16 (ucast b) OR push_bit 8 (ucast c) OR ucast d"

definition read_u16 :: "bytes \<Rightarrow> nat \<Rightarrow> u16 result" where
  "read_u16 data offset =
     bindE (read_u8 data offset) (\<lambda>a.
     bindE (read_u8 data (offset + 1)) (\<lambda>b. Inr (be16 a b)))"

definition read_u24 :: "bytes \<Rightarrow> nat \<Rightarrow> u32 result" where
  "read_u24 data offset =
     bindE (read_u8 data offset) (\<lambda>a.
     bindE (read_u8 data (offset + 1)) (\<lambda>b.
     bindE (read_u8 data (offset + 2)) (\<lambda>c. Inr (be24 a b c))))"

definition read_u32 :: "bytes \<Rightarrow> nat \<Rightarrow> u32 result" where
  "read_u32 data offset =
     bindE (read_u8 data offset) (\<lambda>a.
     bindE (read_u8 data (offset + 1)) (\<lambda>b.
     bindE (read_u8 data (offset + 2)) (\<lambda>c.
     bindE (read_u8 data (offset + 3)) (\<lambda>d. Inr (be32 a b c d)))))"

definition write_u16 :: "bytes \<Rightarrow> nat \<Rightarrow> u16 \<Rightarrow> bytes result" where
  "write_u16 data offset value =
     bindE (write_u8 data offset (ucast (drop_bit 8 value))) (\<lambda>data.
     write_u8 data (offset + 1) (ucast value))"

definition write_u24 :: "bytes \<Rightarrow> nat \<Rightarrow> u32 \<Rightarrow> bytes result" where
  "write_u24 data offset value =
     bindE (write_u8 data offset (ucast (drop_bit 16 value))) (\<lambda>data.
     bindE (write_u8 data (offset + 1) (ucast (drop_bit 8 value))) (\<lambda>data.
     write_u8 data (offset + 2) (ucast value)))"

definition write_u32 :: "bytes \<Rightarrow> nat \<Rightarrow> u32 \<Rightarrow> bytes result" where
  "write_u32 data offset value =
     bindE (write_u8 data offset (ucast (drop_bit 24 value))) (\<lambda>data.
     bindE (write_u8 data (offset + 1) (ucast (drop_bit 16 value))) (\<lambda>data.
     bindE (write_u8 data (offset + 2) (ucast (drop_bit 8 value))) (\<lambda>data.
     write_u8 data (offset + 3) (ucast value))))"

text \<open>The bytes of a big-endian field; the specification of the writers above.\<close>

definition enc_u16 :: "u16 \<Rightarrow> bytes" where
  "enc_u16 v = [ucast (drop_bit 8 v), ucast v]"

definition enc_u24 :: "u32 \<Rightarrow> bytes" where
  "enc_u24 v = [ucast (drop_bit 16 v), ucast (drop_bit 8 v), ucast v]"

definition enc_u32 :: "u32 \<Rightarrow> bytes" where
  "enc_u32 v = [ucast (drop_bit 24 v), ucast (drop_bit 16 v), ucast (drop_bit 8 v), ucast v]"

text \<open>Overwriting a run of bytes in place (\<^verbatim>\<open>std::copy\<close> into a vector).\<close>

definition write_bytes :: "bytes \<Rightarrow> nat \<Rightarrow> bytes \<Rightarrow> bytes result" where
  "write_bytes data offset bs =
     (if offset + length bs \<le> length data
      then Inr (take offset data @ bs @ drop (offset + length bs) data) else Inl OutOfBounds)"

text \<open>The half-open byte range \<open>[a, b)\<close> of a buffer, the window a parsing loop walks over.\<close>

definition window :: "'a list \<Rightarrow> nat \<Rightarrow> nat \<Rightarrow> 'a list" where
  "window d a b = take (b - a) (drop a d)"

text \<open>Integer division of C++ by a positive divisor: the quotient is rounded towards zero.\<close>

definition trunc_div :: "int \<Rightarrow> int \<Rightarrow> int" where
  "trunc_div a b = (if a \<ge> 0 then a div b else - ((- a) div b))"

section \<open>Laws of results\<close>

lemma bindE_cong [fundef_cong]:
  "x = x' \<Longrightarrow> (\<And>v. x' = Inr v \<Longrightarrow> f v = f' v) \<Longrightarrow> bindE x f = bindE x' f'"
  by (cases x') auto

lemma bindE_assoc: "bindE (bindE x f) g = bindE x (\<lambda>v. bindE (f v) g)"
  by (cases x) auto

lemma bindE_Inr_iff: "bindE x f = Inr w \<longleftrightarrow> (\<exists>v. x = Inr v \<and> f v = Inr w)"
  by (cases x) auto

lemma bindE_InrE:
  assumes "bindE x f = Inr w"
  obtains v where "x = Inr v" and "f v = Inr w"
  using assms by (cases x) auto

lemma bindE_oob_iff:
  "bindE x f = Inl OutOfBounds \<longleftrightarrow> x = Inl OutOfBounds \<or> (\<exists>v. x = Inr v \<and> f v = Inl OutOfBounds)"
  by (cases x) auto

lemma make_error_neq [simp]:
  "make_error m \<noteq> Inr v" "Inr v \<noteq> make_error m" "make_error m \<noteq> Inl OutOfBounds"
  by (simp_all add: make_error_def)

lemma make_error_inject [simp]: "make_error m = make_error m' \<longleftrightarrow> m = m'"
  by (simp add: make_error_def)

lemma bindE_make_error [simp]: "bindE (make_error m) f = make_error m"
  by (simp add: make_error_def)

lemma ok_iff: "ok r \<longleftrightarrow> (\<exists>v. r = Inr v)"
  by (cases r) auto

lemma ok_make_error [simp]: "\<not> ok (make_error m)"
  by (simp add: make_error_def)

lemma prefix_error_Inr_iff [simp]: "prefix_error p r = Inr v \<longleftrightarrow> r = Inr v"
  by (cases "(p, r)" rule: prefix_error.cases) auto

lemma prefix_error_oob_iff [simp]: "prefix_error p r = Inl OutOfBounds \<longleftrightarrow> r = Inl OutOfBounds"
  by (cases "(p, r)" rule: prefix_error.cases) auto

lemma fault_free_Inr [simp, safe]: "fault_free (Inr v)"
  by (simp add: fault_free_def)

lemma fault_free_Msg [simp, safe]: "fault_free (Inl (Msg m))"
  by (simp add: fault_free_def)

lemma fault_free_make_error [simp, safe]: "fault_free (make_error m)"
  by (simp add: fault_free_def)

lemma fault_free_bindE [safe]:
  "fault_free x \<Longrightarrow> (\<And>v. x = Inr v \<Longrightarrow> fault_free (f v)) \<Longrightarrow> fault_free (bindE x f)"
  by (cases x) (auto simp: fault_free_def)

lemma fault_free_if [safe]:
  "(b \<Longrightarrow> fault_free x) \<Longrightarrow> (\<not> b \<Longrightarrow> fault_free y) \<Longrightarrow> fault_free (if b then x else y)"
  by simp

lemma fault_free_prefix_error [simp]: "fault_free (prefix_error p r) \<longleftrightarrow> fault_free r"
  by (simp add: fault_free_def)

lemma fault_free_Inl: "fault_free r \<Longrightarrow> r = Inl e \<Longrightarrow> \<exists>m. e = Msg m"
  by (cases e) (auto simp: fault_free_def)

section \<open>Laws of buffer accesses\<close>

lemma read_u8_in [simp, access]: "i < length d \<Longrightarrow> read_u8 d i = Inr (d ! i)"
  by (simp add: read_u8_def)

lemma read_u8_first [simp, access]: "d \<noteq> [] \<Longrightarrow> read_u8 d 0 = Inr (d ! 0)"
  by (simp add: read_u8_def)

lemma read_u16_in [simp, access]: "i + 1 < length d \<Longrightarrow> read_u16 d i = Inr (be16 (d ! i) (d ! (i + 1)))"
  by (simp add: read_u16_def)

lemma read_u24_in [simp, access]:
  "i + 2 < length d \<Longrightarrow> read_u24 d i = Inr (be24 (d ! i) (d ! (i + 1)) (d ! (i + 2)))"
  by (simp add: read_u24_def)

lemma read_u32_in [simp, access]:
  "i + 3 < length d \<Longrightarrow>
     read_u32 d i = Inr (be32 (d ! i) (d ! (i + 1)) (d ! (i + 2)) (d ! (i + 3)))"
  by (simp add: read_u32_def)

lemma subspan_in [simp]: "i + n \<le> length d \<Longrightarrow> subspan d i n = Inr (take n (drop i d))"
  by (simp add: subspan_def)

lemma fault_free_read_u8 [simp, safe]: "i < length d \<Longrightarrow> fault_free (read_u8 d i)"
  by simp

lemma fault_free_read_u16 [simp, safe]: "i + 1 < length d \<Longrightarrow> fault_free (read_u16 d i)"
  by simp

lemma fault_free_read_u24 [simp, safe]: "i + 2 < length d \<Longrightarrow> fault_free (read_u24 d i)"
  by simp

lemma fault_free_read_u32 [simp, safe]: "i + 3 < length d \<Longrightarrow> fault_free (read_u32 d i)"
  by simp

lemma fault_free_subspan [simp, safe]: "i + n \<le> length d \<Longrightarrow> fault_free (subspan d i n)"
  by simp

lemma subspan_length: "subspan d i n = Inr s \<Longrightarrow> length s = n"
  by (auto simp: subspan_def split: if_splits)

lemma write_u8_length: "write_u8 d i v = Inr d' \<Longrightarrow> length d' = length d"
  by (auto simp: write_u8_def split: if_splits)

section \<open>Windows of a buffer\<close>

lemma window_empty [simp]: "b \<le> a \<Longrightarrow> window d a b = []"
  by (simp add: window_def)

lemma window_length [simp]: "b \<le> length d \<Longrightarrow> length (window d a b) = b - a"
  by (simp add: window_def)

lemma window_Cons: "a < b \<Longrightarrow> b \<le> length d \<Longrightarrow> window d a b = d ! a # window d (Suc a) b"
  by (simp add: window_def Cons_nth_drop_Suc [symmetric] Suc_diff_Suc [symmetric])

lemma window_split: "a \<le> c \<Longrightarrow> c \<le> b \<Longrightarrow> window d a b = window d a c @ window d c b"
  using take_add [of "c - a" "b - c" "drop a d"] by (simp add: window_def)

lemma window_eq_ConsD:
  assumes "window d a b = x # xs" and "b \<le> length d"
  shows "a < b" and "d ! a = x" and "window d (Suc a) b = xs"
proof -
  show "a < b" using assms(1) by (cases "a < b") auto
  with assms show "d ! a = x" and "window d (Suc a) b = xs"
    by (simp_all add: window_Cons)
qed

lemma window_eq_appendD:
  assumes "window d a b = xs @ ys" and "b \<le> length d" and "a \<le> b"
  shows "a + length xs \<le> b" and "window d (a + length xs) b = ys"
    and "window d a (a + length xs) = xs"
proof -
  have "length (window d a b) = length xs + length ys" using assms(1) by simp
  then show le: "a + length xs \<le> b" using assms(2,3) by simp
  have "window d a (a + length xs) @ window d (a + length xs) b = xs @ ys"
    using assms(1) window_split [of a "a + length xs" b d] le by simp
  moreover have "length (window d a (a + length xs)) = length xs"
    using le assms(2) by simp
  ultimately show "window d (a + length xs) b = ys" and "window d a (a + length xs) = xs"
    by simp_all
qed

lemma subspan_window: "subspan d a n = Inr s \<Longrightarrow> s = window d a (a + n) \<and> a + n \<le> length d"
  by (auto simp: subspan_def window_def split: if_splits)

lemma window_window:
  "a + c \<le> b \<Longrightarrow> b \<le> length d \<Longrightarrow> e \<le> b - a \<Longrightarrow> window (window d a b) c e = window d (a + c) (a + e)"
  by (simp add: window_def drop_take add.commute min_def)

section \<open>Big-endian codecs\<close>

lemma be16_enc: "be16 (ucast (drop_bit 8 v)) (ucast v) = v"
  unfolding be16_def
  by (rule bit_word_eqI) (auto simp: bit_simps)

lemma be32_enc:
  "be32 (ucast (drop_bit 24 v)) (ucast (drop_bit 16 v)) (ucast (drop_bit 8 v)) (ucast v) = v"
proof (rule bit_word_eqI)
  fix n assume "n < LENGTH(32)"
  then show "bit (be32 (ucast (drop_bit 24 v)) (ucast (drop_bit 16 v)) (ucast (drop_bit 8 v))
      (ucast v)) n = bit v n"
    by (cases "n < 8"; cases "n < 16"; cases "n < 24") (simp_all add: be32_def bit_simps less_diff_conv2 not_less)
qed

lemma be24_enc: "be24 (ucast (drop_bit 16 v)) (ucast (drop_bit 8 v)) (ucast v) = take_bit 24 v"
proof (rule bit_word_eqI)
  fix n assume "n < LENGTH(32)"
  then show "bit (be24 (ucast (drop_bit 16 v)) (ucast (drop_bit 8 v)) (ucast v)) n =
      bit (take_bit 24 v) n"
    by (cases "n < 8"; cases "n < 16"; cases "n < 24") (auto simp: be24_def bit_simps less_diff_conv2 not_less)
qed

lemma enc_lengths [simp]: "length (enc_u16 a) = 2" "length (enc_u24 b) = 3" "length (enc_u32 c) = 4"
  by (simp_all add: enc_u16_def enc_u24_def enc_u32_def)


text \<open>
  The contract of a fixed-width big-endian field: what its reader, its writer and its encoding
  promise to the packet builders and parsers. \<open>valid\<close> is the set of values the field can hold
  (a 24-bit field is passed around as a 32-bit integer).
\<close>

locale field_codec =
  fixes width :: nat
    and valid :: "'a \<Rightarrow> bool"
    and enc :: "'a \<Rightarrow> bytes"
    and rd :: "bytes \<Rightarrow> nat \<Rightarrow> 'a result"
    and wr :: "bytes \<Rightarrow> nat \<Rightarrow> 'a \<Rightarrow> bytes result"
  assumes enc_length: "length (enc v) = width"
    and rd_enc: "valid v \<Longrightarrow> rd (enc v @ ys) 0 = Inr v"
    and rd_skip: "rd (xs @ ys) (length xs + i) = rd ys i"
    and wr_bytes: "wr d i v = write_bytes d i (enc v)"
begin

lemma rd_append:
  assumes "length xs \<le> i"
  shows "rd (xs @ ys) i = rd ys (i - length xs)"
  using rd_skip [of xs ys "i - length xs"] assms by simp

lemma rd_Cons:
  assumes "0 < i"
  shows "rd (x # ys) i = rd ys (i - 1)"
  using rd_append [of "[x]" i ys] assms by simp

lemma rd_at: "length xs = i \<Longrightarrow> valid v \<Longrightarrow> rd (xs @ enc v @ ys) i = Inr v"
  by (simp add: rd_append rd_enc)

lemma wr_fill:
  assumes "length xs = i" and "width \<le> n"
  shows "wr (xs @ replicate n z) i v = Inr (xs @ enc v @ replicate (n - width) z)"
  using assms by (simp add: wr_bytes write_bytes_def enc_length)

lemma wr_append:
  assumes "length xs \<le> i"
  shows "wr (xs @ ys) i v = bindE (wr ys (i - length xs) v) (\<lambda>r. Inr (xs @ r))"
  using assms by (auto simp: wr_bytes write_bytes_def enc_length)

lemma wr_Cons: "0 < i \<Longrightarrow> wr (x # ys) i v = bindE (wr ys (i - 1) v) (\<lambda>r. Inr (x # r))"
  using wr_append [of "[x]" i ys v] by simp

lemma wr_zeros: "width \<le> n \<Longrightarrow> wr (replicate n z) 0 v = Inr (enc v @ replicate (n - width) z)"
  using wr_fill [of "[]" 0 n z v] by simp

lemma wr_length: "wr d i v = Inr d' \<Longrightarrow> length d' = length d"
  by (auto simp: wr_bytes write_bytes_def enc_length split: if_splits)

lemma wr_safe: "i + width \<le> length d \<Longrightarrow> fault_free (wr d i v)"
  by (simp add: wr_bytes write_bytes_def enc_length)

lemma rd_wr:
  assumes "wr d i v = Inr d'" and "valid v"
  shows "rd d' i = Inr v"
proof -
  from assms(1) have "i + width \<le> length d" and "d' = take i d @ enc v @ drop (i + width) d"
    by (auto simp: wr_bytes write_bytes_def enc_length split: if_splits)
  then show ?thesis using rd_at [of "take i d" i v] assms(2) by simp
qed

end

lemma write_bytes_Cons:
  "write_bytes d i (a # bs) = bindE (write_u8 d i a) (\<lambda>d. write_bytes d (i + 1) bs)"
proof (cases "i < length d")
  case True
  have "drop (Suc (i + length bs)) (take i d @ a # drop (Suc i) d) = drop (Suc (i + length bs)) d"
    using True by (simp add: add.commute)
  with True show ?thesis
    by (auto simp: write_bytes_def write_u8_def upd_conv_take_nth_drop)
qed (auto simp: write_bytes_def write_u8_def)

lemma write_bytes_Cons_Cons:
  "write_bytes d i (a # b # bs) = bindE (write_u8 d i a) (\<lambda>d. write_bytes d (i + 1) (b # bs))"
  by (rule write_bytes_Cons)

lemma write_bytes_one: "write_bytes d i [a] = write_u8 d i a"
  by (auto simp: write_bytes_def write_u8_def upd_conv_take_nth_drop)

lemma read_u8_skip:
  "read_u8 (xs @ ys) (length xs + i) = read_u8 ys i"
  "read_u8 (xs @ ys) (Suc (length xs + i)) = read_u8 ys (Suc i)"
  "read_u8 (xs @ ys) (Suc (Suc (length xs + i))) = read_u8 ys (Suc (Suc i))"
  "read_u8 (xs @ ys) (Suc (Suc (Suc (length xs + i)))) = read_u8 ys (Suc (Suc (Suc i)))"
  by (simp_all add: read_u8_def nth_append numeral_3_eq_3)

lemma take_bit_24_id:
  assumes "v < 2 ^ 24"
  shows "take_bit 24 v = (v :: u32)"
proof -
  have "unat (v mod 2 ^ 24) = unat v"
    using assms by (simp add: unat_mod word_less_nat_alt)
  then show ?thesis by (simp add: take_bit_eq_mod word_unat_eq_iff)
qed

lemma and_i24_less: "w AND 0xFFFFFF < (2 :: u32) ^ 24"
proof -
  have "w AND 0xFFFFFF \<le> (0xFFFFFF :: u32)" by (rule word_and_le1)
  then show ?thesis by (simp add: word_le_nat_alt word_less_nat_alt)
qed

lemma unat_of_nat_u16: "n < 2 ^ 16 \<Longrightarrow> unat (of_nat n :: u16) = n"
  by (simp add: unat_of_nat)

lemma ucast_byte16: "ucast (v AND 0xFF) = (ucast v :: u8)" for v :: u16
proof -
  have "v AND 0xFF = take_bit 8 v" by (simp add: take_bit_eq_mask mask_eq_exp_minus_1)
  then show ?thesis by (auto intro!: bit_word_eqI simp: bit_simps)
qed

lemma ucast_byte32: "ucast (v AND 0xFF) = (ucast v :: u8)" for v :: u32
proof -
  have "v AND 0xFF = take_bit 8 v" by (simp add: take_bit_eq_mask mask_eq_exp_minus_1)
  then show ?thesis by (auto intro!: bit_word_eqI simp: bit_simps)
qed

lemma enc_be: "enc_u16 (be16 a b) = [a, b]" "enc_u32 (be32 a b c d) = [a, b, c, d]"
proof -
  show "enc_u16 (be16 a b) = [a, b]"
    unfolding enc_u16_def be16_def list.inject
    by (intro conjI bit_word_eqI) (auto simp: bit_simps dest: bit_imp_le_length)
  show "enc_u32 (be32 a b c d) = [a, b, c, d]"
    unfolding enc_u32_def be32_def list.inject
    by (intro conjI bit_word_eqI) (auto simp: bit_simps dest: bit_imp_le_length)
qed

lemmas codec_defs =
  read_u16_def read_u24_def read_u32_def write_u16_def write_u24_def write_u32_def
  enc_u16_def enc_u24_def enc_u32_def be16_enc be24_enc be32_enc read_u8_skip
  write_bytes_Cons_Cons write_bytes_one numeral_3_eq_3 take_bit_24_id

interpretation u8f: field_codec 1 "\<lambda>_. True" "\<lambda>v. [v]" read_u8 write_u8
  by unfold_locales (simp_all add: codec_defs)

interpretation u16f: field_codec 2 "\<lambda>_. True" enc_u16 read_u16 write_u16
  by unfold_locales (simp_all add: codec_defs)

interpretation u24f: field_codec 3 "\<lambda>v. v < 2 ^ 24" enc_u24 read_u24 write_u24
  by unfold_locales (simp_all add: codec_defs)

interpretation u32f: field_codec 4 "\<lambda>_. True" enc_u32 read_u32 write_u32
  by unfold_locales (simp_all add: codec_defs)

lemma read_u8_head: "read_u8 (x # xs) 0 = Inr x"
  by simp

lemma write_u8_head: "write_u8 (x # xs) 0 v = Inr (v # xs)"
  by (simp add: write_u8_def)

lemmas [wire] =
  read_u8_head write_u8_head
  u8f.rd_append u16f.rd_append u24f.rd_append u32f.rd_append
  u8f.rd_Cons u16f.rd_Cons u24f.rd_Cons u32f.rd_Cons
  u16f.rd_enc u24f.rd_enc u32f.rd_enc
  u8f.wr_append u16f.wr_append u24f.wr_append u32f.wr_append
  u8f.wr_Cons u16f.wr_Cons u24f.wr_Cons u32f.wr_Cons
  u8f.wr_zeros u16f.wr_zeros u24f.wr_zeros u32f.wr_zeros

lemmas [safe] = u8f.wr_safe u16f.wr_safe u24f.wr_safe u32f.wr_safe

lemma write_bytes_append [wire]:
  assumes "length xs \<le> i"
  shows "write_bytes (xs @ ys) i bs = bindE (write_bytes ys (i - length xs) bs) (\<lambda>r. Inr (xs @ r))"
  using assms by (auto simp: write_bytes_def)

lemma write_bytes_Cons_data [wire]:
  "0 < i \<Longrightarrow> write_bytes (x # ys) i bs = bindE (write_bytes ys (i - 1) bs) (\<lambda>r. Inr (x # r))"
  using write_bytes_append [of "[x]" i ys bs] by simp

lemma write_bytes_zeros [wire]:
  "length bs \<le> n \<Longrightarrow> write_bytes (replicate n z) 0 bs = Inr (bs @ replicate (n - length bs) z)"
  by (simp add: write_bytes_def)

lemma write_bytes_safe [safe]: "i + length bs \<le> length d \<Longrightarrow> fault_free (write_bytes d i bs)"
  by (simp add: write_bytes_def)

lemma write_bytes_length: "write_bytes d i bs = Inr d' \<Longrightarrow> length d' = length d"
  by (auto simp: write_bytes_def split: if_splits)

lemmas write_lengths =
  u8f.wr_length u16f.wr_length u24f.wr_length u32f.wr_length write_bytes_length

text \<open>\<^verbatim>\<open>(size + 3U) & ~std::size_t{3U}\<close>: rounding up to a multiple of four.\<close>

definition align4 :: "nat \<Rightarrow> nat" where
  "align4 n = (n + 3) div 4 * 4"

lemma align4_bounds: "n \<le> align4 n" "align4 n < n + 4" "align4 n mod 4 = 0"
proof -
  show "n \<le> align4 n" unfolding align4_def by presburger
  show "align4 n < n + 4" unfolding align4_def by presburger
  show "align4 n mod 4 = 0" unfolding align4_def by simp
qed

end
