(* ===== verification/Rtp_Packet.thy ===== *)
theory Rtp_Packet
  imports Prelude
begin

text \<open>
  The RTP and RTCP packet header parser (\<^verbatim>\<open>src/rtp/rtp_packet.cpp\<close>): classification of a
  datagram, validation of header extensions and padding, the layout of an RTP packet, the fixed
  RTP header and the RTCP common header.
\<close>

section \<open>Data\<close>

record rtp_packet_layout =
  header_size :: nat
  media_payload_size :: nat
  padding_size :: nat
  layout_padding :: bool

record rtp_packet_header =
  marker :: bool
  payload_type :: u8
  sequence_number :: u16
  timestamp :: u32
  rtp_ssrc :: u32

record rtcp_packet_header =
  rtcp_padding :: bool
  rtcp_count :: u8
  rtcp_packet_type :: u8
  rtcp_length :: u16
  packet_size :: nat
  has_ssrc :: bool
  rtcp_ssrc :: u32

abbreviation (input) k_rtp_fixed_header_size :: nat where "k_rtp_fixed_header_size \<equiv> 12"
abbreviation (input) k_rtp_csrc_size :: nat where "k_rtp_csrc_size \<equiv> 4"
abbreviation (input) k_rtp_extension_header_size :: nat where "k_rtp_extension_header_size \<equiv> 4"
abbreviation (input) k_rtcp_common_header_size :: nat where "k_rtcp_common_header_size \<equiv> 4"
abbreviation (input) k_one_byte_extension_profile :: u16 where "k_one_byte_extension_profile \<equiv> 0xBEDE"
abbreviation (input) k_two_byte_extension_profile_mask :: u16
  where "k_two_byte_extension_profile_mask \<equiv> 0xFFF0"
abbreviation (input) k_two_byte_extension_profile_value :: u16
  where "k_two_byte_extension_profile_value \<equiv> 0x1000"
abbreviation (input) k_one_byte_extension_reserved_id :: u8 where "k_one_byte_extension_reserved_id \<equiv> 15"

definition padding_only :: "rtp_packet_layout \<Rightarrow> bool" where
  "padding_only layout \<longleftrightarrow> layout_padding layout \<and> media_payload_size layout = 0"

section \<open>Operations\<close>

definition has_rtp_version :: "bytes \<Rightarrow> bool" where
  "has_rtp_version data = (case data of [] \<Rightarrow> False | b # _ \<Rightarrow> drop_bit 6 b = 2)"

definition is_one_byte_extension_profile :: "u16 \<Rightarrow> bool" where
  "is_one_byte_extension_profile profile \<longleftrightarrow> profile = k_one_byte_extension_profile"

definition is_two_byte_extension_profile :: "u16 \<Rightarrow> bool" where
  "is_two_byte_extension_profile profile \<longleftrightarrow>
     profile AND k_two_byte_extension_profile_mask = k_two_byte_extension_profile_value"

function validate_one_byte_loop :: "bytes \<Rightarrow> nat \<Rightarrow> nat \<Rightarrow> unit result" where
  "validate_one_byte_loop packet extension_end offset =
     (if offset < extension_end then
        bindE (read_u8 packet offset) (\<lambda>value.
        if value = 0 then validate_one_byte_loop packet extension_end (offset + 1)
        else if drop_bit 4 value = k_one_byte_extension_reserved_id
        then make_error ''rtp one-byte extension id 15 is reserved''
        else let size = unat (value AND 0x0F) + 1; offset = offset + 1 in
          if offset + size > extension_end
          then make_error ''rtp one-byte extension element is truncated''
          else validate_one_byte_loop packet extension_end (offset + size))
      else Inr ())"
  by pat_completeness auto
termination
  by (relation "measure (\<lambda>(packet, extension_end, offset). extension_end - offset)") auto

definition validate_one_byte_header_extensions :: "bytes \<Rightarrow> nat \<Rightarrow> nat \<Rightarrow> unit result" where
  "validate_one_byte_header_extensions packet extension_payload_offset extension_payload_size =
     (let extension_end = extension_payload_offset + extension_payload_size in
      if extension_end > length packet
      then make_error ''rtp one-byte extension payload is truncated''
      else validate_one_byte_loop packet extension_end extension_payload_offset)"

function validate_two_byte_loop :: "bytes \<Rightarrow> nat \<Rightarrow> nat \<Rightarrow> unit result" where
  "validate_two_byte_loop packet extension_end offset =
     (if offset < extension_end then
        bindE (read_u8 packet offset) (\<lambda>id.
        let offset = offset + 1 in
        if id = 0 then validate_two_byte_loop packet extension_end offset
        else if offset \<ge> extension_end
        then make_error ''rtp two-byte extension length is truncated''
        else bindE (read_u8 packet offset) (\<lambda>size_byte.
          let size = unat size_byte; offset = offset + 1 in
          if offset + size > extension_end
          then make_error ''rtp two-byte extension element is truncated''
          else validate_two_byte_loop packet extension_end (offset + size)))
      else Inr ())"
  by pat_completeness auto
termination
  by (relation "measure (\<lambda>(packet, extension_end, offset). extension_end - offset)") auto

definition validate_two_byte_header_extensions :: "bytes \<Rightarrow> nat \<Rightarrow> nat \<Rightarrow> unit result" where
  "validate_two_byte_header_extensions packet extension_payload_offset extension_payload_size =
     (let extension_end = extension_payload_offset + extension_payload_size in
      if extension_end > length packet
      then make_error ''rtp two-byte extension payload is truncated''
      else validate_two_byte_loop packet extension_end extension_payload_offset)"

definition validate_header_extensions :: "bytes \<Rightarrow> nat \<Rightarrow> nat result" where
  "validate_header_extensions packet extension_header_offset =
     (if extension_header_offset + k_rtp_extension_header_size > length packet
      then make_error ''rtp extension header is truncated''
      else
        bindE (read_u16 packet extension_header_offset) (\<lambda>extension_profile.
        bindE (read_u16 packet (extension_header_offset + 2)) (\<lambda>extension_length_words.
        let extension_payload_offset = extension_header_offset + k_rtp_extension_header_size;
            extension_payload_size = unat extension_length_words * 4;
            extension_total_size = k_rtp_extension_header_size + extension_payload_size in
        if extension_header_offset + extension_total_size > length packet
        then make_error ''rtp extension payload is truncated''
        else
          bindE (if is_one_byte_extension_profile extension_profile
                 then validate_one_byte_header_extensions packet
                        extension_payload_offset extension_payload_size
                 else if is_two_byte_extension_profile extension_profile
                 then validate_two_byte_header_extensions packet
                        extension_payload_offset extension_payload_size
                 else Inr ())
            (\<lambda>_. Inr extension_total_size))))"

definition validate_rtp_padding :: "bytes \<Rightarrow> bool \<Rightarrow> nat \<Rightarrow> unit result" where
  "validate_rtp_padding packet padding payload_size =
     (if \<not> padding then Inr ()
      else if payload_size = 0 then make_error ''rtp padding flag set but payload is empty''
      else bindE (read_u8 packet (length packet - 1)) (\<lambda>padding_byte.
        let size = unat padding_byte in
        if size = 0 then make_error ''rtp padding size is zero''
        else if size > payload_size then make_error ''rtp padding exceeds payload size''
        else Inr ()))"

definition is_rtp_or_rtcp_packet :: "bytes \<Rightarrow> bool" where
  "is_rtp_or_rtcp_packet data = (case data of [] \<Rightarrow> False | b # _ \<Rightarrow> b \<ge> 128 \<and> b \<le> 191)"

definition is_rtcp_packet :: "bytes \<Rightarrow> bool" where
  "is_rtcp_packet data =
     (if \<not> is_rtp_or_rtcp_packet data then False
      else if length data < 2 then False
      else data ! 1 \<ge> 192 \<and> data ! 1 \<le> 223)"

definition inspect_rtp_packet_layout :: "bytes \<Rightarrow> rtp_packet_layout result" where
  "inspect_rtp_packet_layout data =
     (if length data < k_rtp_fixed_header_size
      then make_error ''rtp packet is shorter than fixed header''
      else if \<not> has_rtp_version data then make_error ''rtp version is invalid''
      else if is_rtcp_packet data then make_error ''packet is rtcp not rtp''
      else bindE (read_u8 data 0) (\<lambda>first.
        let padding = (first AND 0x20 \<noteq> 0);
            extension = (first AND 0x10 \<noteq> 0);
            csrc_count = first AND 0x0F;
            header = k_rtp_fixed_header_size + unat csrc_count * k_rtp_csrc_size in
        if header > length data then make_error ''rtp csrc list is truncated''
        else bindE (if extension
                    then bindE (validate_header_extensions data header) (\<lambda>size. Inr (header + size))
                    else Inr header) (\<lambda>header.
          if header > length data then make_error ''rtp header exceeds packet size''
          else let wire_payload_size = length data - header in
            bindE (validate_rtp_padding data padding wire_payload_size) (\<lambda>_.
            bindE (if padding then bindE (read_u8 data (length data - 1)) (\<lambda>b. Inr (unat b))
                   else Inr 0) (\<lambda>pad.
            Inr \<lparr>header_size = header, media_payload_size = wire_payload_size - pad,
                 padding_size = pad, layout_padding = padding\<rparr>)))))"

definition parse_rtp_packet_header :: "bytes \<Rightarrow> rtp_packet_header result" where
  "parse_rtp_packet_header data =
     bindE (inspect_rtp_packet_layout data) (\<lambda>layout.
     bindE (read_u8 data 1) (\<lambda>second.
     bindE (read_u16 data 2) (\<lambda>seq.
     bindE (read_u32 data 4) (\<lambda>ts.
     bindE (read_u32 data 8) (\<lambda>source.
     Inr \<lparr>marker = (second AND 0x80 \<noteq> 0), payload_type = second AND 0x7F,
          sequence_number = seq, timestamp = ts, rtp_ssrc = source\<rparr>)))))"

definition parse_rtcp_packet_header :: "bytes \<Rightarrow> rtcp_packet_header result" where
  "parse_rtcp_packet_header data =
     (if length data < k_rtcp_common_header_size
      then make_error ''rtcp packet is shorter than fixed header''
      else if \<not> has_rtp_version data then make_error ''rtcp version is invalid''
      else if \<not> is_rtcp_packet data then make_error ''packet is not rtcp''
      else
        bindE (read_u8 data 0) (\<lambda>first.
        bindE (read_u8 data 1) (\<lambda>type.
        bindE (read_u16 data 2) (\<lambda>len.
        let padding = (first AND 0x20 \<noteq> 0); size = (unat len + 1) * 4 in
        if size > length data then make_error ''rtcp packet is truncated''
        else bindE (if padding then
                      if size \<le> k_rtcp_common_header_size
                      then make_error ''rtcp padding packet is too short''
                      else bindE (read_u8 data (size - 1)) (\<lambda>padding_byte.
                        let pad = unat padding_byte in
                        if pad = 0 then make_error ''rtcp padding size is zero''
                        else if pad > size - k_rtcp_common_header_size
                        then make_error ''rtcp padding exceeds packet size''
                        else Inr ())
                    else Inr ()) (\<lambda>_.
          bindE (if size \<ge> 8 then bindE (read_u32 data 4) (\<lambda>v. Inr (True, v)) else Inr (False, 0))
            (\<lambda>(has, source).
          Inr \<lparr>rtcp_padding = padding, rtcp_count = first AND 0x1F, rtcp_packet_type = type,
               rtcp_length = len, packet_size = size, has_ssrc = has, rtcp_ssrc = source\<rparr>))))))"

definition rtcp_packet_type_to_string :: "u8 \<Rightarrow> string" where
  "rtcp_packet_type_to_string t =
     (if t = 192 then ''fir'' else if t = 193 then ''nack'' else if t = 200 then ''sr''
      else if t = 201 then ''rr'' else if t = 202 then ''sdes'' else if t = 203 then ''bye''
      else if t = 204 then ''app'' else if t = 205 then ''rtpfb'' else if t = 206 then ''psfb''
      else if t = 207 then ''xr'' else ''unknown'')"

text \<open>
  Specification of the RTP fixed header (RFC 3550, section 5.1): the bytes of a packet without
  header extension and without padding.
\<close>

definition rtp_wire :: "rtp_packet_header \<Rightarrow> u32 list \<Rightarrow> bytes \<Rightarrow> bytes" where
  "rtp_wire h csrcs payload =
     [0x80 OR of_nat (length csrcs), (if marker h then 0x80 else 0) OR payload_type h]
     @ enc_u16 (sequence_number h) @ enc_u32 (timestamp h) @ enc_u32 (rtp_ssrc h)
     @ concat (map enc_u32 csrcs) @ payload"

text \<open>The end of the content of an RTCP packet, its padding cut off.\<close>

definition content_end :: "rtcp_packet_header \<Rightarrow> bytes \<Rightarrow> nat" where
  "content_end h data =
     packet_size h - (if rtcp_padding h then unat (data ! (packet_size h - 1)) else 0)"

text \<open>
  Specification of the two header-extension encodings (RFC 8285): the wire bytes of a list of
  \<open>(id, value)\<close> elements, with padding bytes anywhere between them.
\<close>

inductive one_byte_elements :: "(u8 \<times> bytes) list \<Rightarrow> bytes \<Rightarrow> bool" where
  one_end: "one_byte_elements [] []"
| one_pad: "one_byte_elements es xs \<Longrightarrow> one_byte_elements es (0 # xs)"
| one_elem: "b \<noteq> 0 \<Longrightarrow> drop_bit 4 b \<noteq> k_one_byte_extension_reserved_id \<Longrightarrow>
    length v = unat (b AND 0x0F) + 1 \<Longrightarrow> one_byte_elements es xs \<Longrightarrow>
    one_byte_elements ((drop_bit 4 b, v) # es) (b # v @ xs)"

inductive two_byte_elements :: "(u8 \<times> bytes) list \<Rightarrow> bytes \<Rightarrow> bool" where
  two_end: "two_byte_elements [] []"
| two_pad: "two_byte_elements es xs \<Longrightarrow> two_byte_elements es (0 # xs)"
| two_elem: "i \<noteq> 0 \<Longrightarrow> length v = unat n \<Longrightarrow> two_byte_elements es xs \<Longrightarrow>
    two_byte_elements ((i, v) # es) (i # n # v @ xs)"

declare validate_one_byte_loop.simps [simp del] validate_two_byte_loop.simps [simp del]

section \<open>Memory safety\<close>

lemma has_rtp_version_nonempty: "has_rtp_version data \<Longrightarrow> data \<noteq> []"
  by (auto simp: has_rtp_version_def)

lemma validate_one_byte_loop_safe:
  "extension_end \<le> length packet \<Longrightarrow> fault_free (validate_one_byte_loop packet extension_end offset)"
proof (induction packet extension_end offset rule: validate_one_byte_loop.induct)
  case (1 packet extension_end offset)
  then show ?case
    by (subst validate_one_byte_loop.simps) (auto simp: Let_def)
qed

lemma validate_two_byte_loop_safe:
  "extension_end \<le> length packet \<Longrightarrow> fault_free (validate_two_byte_loop packet extension_end offset)"
proof (induction packet extension_end offset rule: validate_two_byte_loop.induct)
  case (1 packet extension_end offset)
  then show ?case
    by (subst validate_two_byte_loop.simps) (auto simp: Let_def)
qed

lemma validate_header_extensions_safe [safe]:
  "fault_free (validate_header_extensions packet offset)"
  by (auto simp: validate_header_extensions_def validate_one_byte_header_extensions_def
      validate_two_byte_header_extensions_def Let_def
      intro!: fault_free_bindE validate_one_byte_loop_safe validate_two_byte_loop_safe)

lemma inspect_rtp_packet_layout_safe [safe]: "fault_free (inspect_rtp_packet_layout data)"
  by (auto simp: inspect_rtp_packet_layout_def validate_rtp_padding_def Let_def
      dest: has_rtp_version_nonempty
      intro!: fault_free_bindE validate_header_extensions_safe)

section \<open>Header extensions\<close>

lemma validate_one_byte_loop_sound:
  assumes "validate_one_byte_loop packet e offset = Inr ()" and "e \<le> length packet"
  shows "\<exists>es. one_byte_elements es (window packet offset e)"
  using assms
proof (induction packet e offset rule: validate_one_byte_loop.induct)
  case (1 packet e offset)
  let ?b = "packet ! offset"
  let ?next = "offset + 1 + (unat (?b AND 0x0F) + 1)"
  show ?case
  proof (cases "offset < e")
    case False
    then show ?thesis by (auto intro: one_end)
  next
    case True
    with "1.prems" have rd: "read_u8 packet offset = Inr ?b" by simp
    have cons: "window packet offset e = ?b # window packet (Suc offset) e"
      using True "1.prems"(2) by (rule window_Cons)
    show ?thesis
    proof (cases "?b = 0")
      case zero: True
      from "1.prems"(1) have "validate_one_byte_loop packet e (offset + 1) = Inr ()"
        using True rd zero by (subst (asm) validate_one_byte_loop.simps) simp
      then obtain es where "one_byte_elements es (window packet (offset + 1) e)"
        using "1.IH"(1) [OF True rd zero] "1.prems"(2) by blast
      then show ?thesis using cons zero by (auto intro: one_pad)
    next
      case nonzero: False
      from "1.prems"(1) have id: "drop_bit 4 ?b \<noteq> 15" and le: "?next \<le> e"
        and rest: "validate_one_byte_loop packet e ?next = Inr ()"
        using True rd nonzero by (subst (asm) validate_one_byte_loop.simps;
            auto simp: Let_def split: if_splits)+
      obtain es where es: "one_byte_elements es (window packet ?next e)"
        using "1.IH"(2) [OF True rd nonzero id refl refl] le rest "1.prems"(2) by auto
      have "window packet (Suc offset) e = window packet (Suc offset) ?next @ window packet ?next e"
        using le by (intro window_split) auto
      then show ?thesis
        using cons es nonzero id le "1.prems"(2)
          one_elem [of ?b "window packet (Suc offset) ?next" es "window packet ?next e"]
        by auto
    qed
  qed
qed

lemma validate_one_byte_loop_complete:
  assumes "one_byte_elements es (window packet offset e)" and "e \<le> length packet"
  shows "validate_one_byte_loop packet e offset = Inr ()"
  using assms
proof (induction es "window packet offset e" arbitrary: offset rule: one_byte_elements.induct)
  case one_end
  then have "\<not> offset < e" by (metis window_Cons list.distinct(1))
  then show ?case by (subst validate_one_byte_loop.simps) simp
next
  case (one_pad es xs)
  note d = window_eq_ConsD [OF one_pad.hyps(3) [symmetric] one_pad.prems]
  then show ?case
    using one_pad d by (subst validate_one_byte_loop.simps) simp
next
  case (one_elem b v es xs)
  note d = window_eq_ConsD [OF one_elem.hyps(6) [symmetric] one_elem.prems]
  note a = window_eq_appendD [OF d(3) one_elem.prems]
  from d(1) a have "validate_one_byte_loop packet e (Suc offset + length v) = Inr ()"
    using one_elem.hyps(5) one_elem.prems by simp
  then show ?case
    using one_elem.hyps one_elem.prems d(1,2) a(1)
    by (subst validate_one_byte_loop.simps) (simp add: Let_def)
qed

lemma validate_two_byte_loop_sound:
  assumes "validate_two_byte_loop packet e offset = Inr ()" and "e \<le> length packet"
  shows "\<exists>es. two_byte_elements es (window packet offset e)"
  using assms
proof (induction packet e offset rule: validate_two_byte_loop.induct)
  case (1 packet e offset)
  let ?i = "packet ! offset" and ?n = "packet ! (offset + 1)"
  let ?next = "offset + 1 + 1 + unat ?n"
  show ?case
  proof (cases "offset < e")
    case False
    then show ?thesis by (auto intro: two_end)
  next
    case True
    with "1.prems" have rd: "read_u8 packet offset = Inr ?i" by simp
    have cons: "window packet offset e = ?i # window packet (offset + 1) e"
      using window_Cons [OF True "1.prems"(2)] by simp
    show ?thesis
    proof (cases "?i = 0")
      case zero: True
      from "1.prems"(1) have "validate_two_byte_loop packet e (offset + 1) = Inr ()"
        using True rd zero by (subst (asm) validate_two_byte_loop.simps) (simp add: Let_def)
      then obtain es where "two_byte_elements es (window packet (offset + 1) e)"
        using "1.IH"(1) [OF True rd refl zero] "1.prems"(2) by blast
      then show ?thesis using cons zero by (auto intro: two_pad)
    next
      case nonzero: False
      from "1.prems"(1) have len: "\<not> e \<le> offset + 1"
        using True rd nonzero
        by (subst (asm) validate_two_byte_loop.simps) (auto simp: Let_def split: if_splits)
      with "1.prems"(2) have rd': "read_u8 packet (offset + 1) = Inr ?n" by simp
      from "1.prems"(1) have le: "?next \<le> e"
        and rest: "validate_two_byte_loop packet e ?next = Inr ()"
        using True rd nonzero len rd'
        by (subst (asm) validate_two_byte_loop.simps; simp add: Let_def split: if_splits)+
      obtain es where es: "two_byte_elements es (window packet ?next e)"
        using "1.IH"(2) [OF True rd refl nonzero len rd' refl refl] le rest "1.prems"(2) by auto
      have "window packet (offset + 1) e = ?n # window packet (offset + 1 + 1) e"
        using window_Cons [of "offset + 1" e packet] len "1.prems"(2) by simp
      also have "window packet (offset + 1 + 1) e =
          window packet (offset + 1 + 1) ?next @ window packet ?next e"
        using le by (intro window_split) auto
      finally show ?thesis
        using cons es nonzero le "1.prems"(2)
          two_elem [of ?i "window packet (offset + 1 + 1) ?next" ?n es "window packet ?next e"]
        by auto
    qed
  qed
qed

lemma validate_two_byte_loop_complete:
  assumes "two_byte_elements es (window packet offset e)" and "e \<le> length packet"
  shows "validate_two_byte_loop packet e offset = Inr ()"
  using assms
proof (induction es "window packet offset e" arbitrary: offset rule: two_byte_elements.induct)
  case two_end
  then have "\<not> offset < e" by (metis window_Cons list.distinct(1))
  then show ?case by (subst validate_two_byte_loop.simps) simp
next
  case (two_pad es xs)
  note d = window_eq_ConsD [OF two_pad.hyps(3) [symmetric] two_pad.prems]
  then show ?case
    using two_pad d by (subst validate_two_byte_loop.simps) (simp add: Let_def)
next
  case (two_elem i v n es xs)
  note d = window_eq_ConsD [OF two_elem.hyps(5) [symmetric] two_elem.prems]
  note d' = window_eq_ConsD [OF d(3) two_elem.prems]
  note a = window_eq_appendD [OF d'(3) two_elem.prems]
  from d'(1) a have "validate_two_byte_loop packet e (Suc (Suc offset) + length v) = Inr ()"
    using two_elem.hyps(4) two_elem.prems by simp
  then show ?case
    using two_elem.hyps two_elem.prems d(1,2) d'(1,2) a(1)
    by (subst validate_two_byte_loop.simps) (simp add: Let_def)
qed

section \<open>Layout\<close>

lemma inspect_rtp_packet_layoutE:
  assumes "inspect_rtp_packet_layout data = Inr l"
  obtains "12 \<le> length data" and "has_rtp_version data" and "\<not> is_rtcp_packet data"
    and "header_size l \<ge> 12 + unat (data ! 0 AND 0x0F) * 4"
    and "data ! 0 AND 0x10 \<noteq> 0 \<Longrightarrow>
      validate_header_extensions data (12 + unat (data ! 0 AND 0x0F) * 4) =
      Inr (header_size l - (12 + unat (data ! 0 AND 0x0F) * 4))"
    and "data ! 0 AND 0x10 = 0 \<Longrightarrow> header_size l = 12 + unat (data ! 0 AND 0x0F) * 4"
    and "layout_padding l \<longleftrightarrow> data ! 0 AND 0x20 \<noteq> 0"
    and "header_size l + media_payload_size l + padding_size l = length data"
    and "layout_padding l \<Longrightarrow> 0 < padding_size l \<and> padding_size l = unat (last data)"
    and "\<not> layout_padding l \<Longrightarrow> padding_size l = 0"
proof -
  from assms have "has_rtp_version data"
    by (auto simp: inspect_rtp_packet_layout_def split: if_splits)
  then have "data \<noteq> []" by (rule has_rtp_version_nonempty)
  with assms show thesis
    by (intro that)
      (auto simp: inspect_rtp_packet_layout_def validate_rtp_padding_def Let_def bindE_Inr_iff
        last_conv_nth split: if_splits)
qed

lemma parse_rtp_packet_header_safe [safe]: "fault_free (parse_rtp_packet_header data)"
  unfolding parse_rtp_packet_header_def
  by (intro safe) (auto elim: inspect_rtp_packet_layoutE)

section \<open>RTCP common header\<close>

lemma parse_rtcp_packet_header_safe [safe]: "fault_free (parse_rtcp_packet_header data)"
  by (auto simp: parse_rtcp_packet_header_def Let_def dest: has_rtp_version_nonempty)

lemma parse_rtcp_packet_headerE:
  assumes "parse_rtcp_packet_header data = Inr h"
  obtains "4 \<le> packet_size h" and "packet_size h \<le> length data" and "packet_size h mod 4 = 0"
    and "packet_size h = (unat (rtcp_length h) + 1) * 4"
    and "rtcp_packet_type h = data ! 1" and "rtcp_count h = data ! 0 AND 0x1F"
    and "rtcp_padding h \<longleftrightarrow> data ! 0 AND 0x20 \<noteq> 0"
    and "rtcp_padding h \<Longrightarrow> 0 < unat (data ! (packet_size h - 1)) \<and>
      unat (data ! (packet_size h - 1)) \<le> packet_size h - 4"
proof -
  from assms have "has_rtp_version data"
    by (auto simp: parse_rtcp_packet_header_def split: if_splits)
  then have "data \<noteq> []" by (rule has_rtp_version_nonempty)
  with assms show thesis
    by (intro that)
      (auto simp: parse_rtcp_packet_header_def Let_def bindE_Inr_iff split: if_splits)
qed

text \<open>
  The body parsers each recompute where the content of a packet ends
  (\<^verbatim>\<open>rtcp_payload_end\<close>, \<^verbatim>\<open>rtcp_report_payload_end\<close>, \<^verbatim>\<open>rtcp_feedback_payload_end\<close>). What they
  promise on a packet whose common header was accepted:
\<close>

locale rtcp_payload_bounds =
  fixes payload_end :: "rtcp_packet_header \<Rightarrow> bytes \<Rightarrow> nat result"
  assumes payload_end_value: "parse_rtcp_packet_header data = Inr h \<Longrightarrow>
      payload_end h data = Inr n \<Longrightarrow> n = content_end h data"
    and payload_end_safe: "parse_rtcp_packet_header data = Inr h \<Longrightarrow>
      fault_free (payload_end h data)"
begin

lemma payload_end_bounds:
  assumes "parse_rtcp_packet_header data = Inr h" and "payload_end h data = Inr n"
  shows "4 \<le> n" and "n \<le> packet_size h" and "n \<le> length data"
proof -
  have n: "n = content_end h data" using assms by (rule payload_end_value)
  from assms(1) show "4 \<le> n" "n \<le> packet_size h" "n \<le> length data"
    unfolding n content_end_def by (auto elim!: parse_rtcp_packet_headerE)
qed

end

section \<open>Properties\<close>

text \<open>
  The layout of an accepted RTP packet partitions it: header, media payload and padding add
  up to the datagram, the header covers the fixed header, the CSRC list and the extension block,
  and the padding size is the non-zero last byte exactly when the padding bit is set.
\<close>

theorem rtp_layout_partitions_packet:
  assumes "inspect_rtp_packet_layout data = Inr l"
  shows "header_size l + media_payload_size l + padding_size l = length data
    \<and> 12 + unat (data ! 0 AND 0x0F) * 4 \<le> header_size l
    \<and> (layout_padding l \<longleftrightarrow> data ! 0 AND 0x20 \<noteq> 0)
    \<and> padding_size l = (if layout_padding l then unat (last data) else 0)
    \<and> (layout_padding l \<longleftrightarrow> 0 < padding_size l)"
  using assms by (auto elim!: inspect_rtp_packet_layoutE)

theorem rtp_layout_partitions_packet_witness:
  "\<exists>l. inspect_rtp_packet_layout
      [0xB0, 96, 0, 1, 0, 0, 0, 0, 0, 0, 0, 1, 0xBE, 0xDE, 0, 1, 0x10, 0xFF, 0, 0, 7, 0, 2] = Inr l
    \<and> header_size l + media_payload_size l + padding_size l = 23"
proof -
  have "inspect_rtp_packet_layout
      [0xB0, 96, 0, 1, 0, 0, 0, 0, 0, 0, 0, 1, 0xBE, 0xDE, 0, 1, 0x10, 0xFF, 0, 0, 7, 0, 2] =
    Inr \<lparr>header_size = 20, media_payload_size = 1, padding_size = 2, layout_padding = True\<rparr>"
    by code_simp
  from this rtp_layout_partitions_packet [OF this] show ?thesis by simp
qed

lemma csrc_byte:
  assumes "n < 16"
  shows "drop_bit 6 (0x80 OR of_nat n :: u8) = 2" and "(0x80 OR of_nat n :: u8) AND 0x20 = 0"
    and "(0x80 OR of_nat n :: u8) AND 0x10 = 0" and "unat ((0x80 OR of_nat n :: u8) AND 0x0F) = n"
    and "128 \<le> (0x80 OR of_nat n :: u8)" and "(0x80 OR of_nat n :: u8) \<le> 191"
proof -
  have "\<forall>n < 16. drop_bit 6 (0x80 OR of_nat n :: u8) = 2 \<and> (0x80 OR of_nat n :: u8) AND 0x20 = 0
    \<and> (0x80 OR of_nat n :: u8) AND 0x10 = 0 \<and> unat ((0x80 OR of_nat n :: u8) AND 0x0F) = n
    \<and> 128 \<le> (0x80 OR of_nat n :: u8) \<and> (0x80 OR of_nat n :: u8) \<le> 191"
    by code_simp
  with assms show "drop_bit 6 (0x80 OR of_nat n :: u8) = 2" "(0x80 OR of_nat n :: u8) AND 0x20 = 0"
    "(0x80 OR of_nat n :: u8) AND 0x10 = 0" "unat ((0x80 OR of_nat n :: u8) AND 0x0F) = n"
    "128 \<le> (0x80 OR of_nat n :: u8)" "(0x80 OR of_nat n :: u8) \<le> 191"
    by blast+
qed

lemma marker_byte:
  assumes "t < 128"
  shows "((if m then 0x80 else 0) OR t :: u8) AND 0x80 \<noteq> 0 \<longleftrightarrow> m"
    and "((if m then 0x80 else 0) OR t :: u8) AND 0x7F = t"
    and "m \<Longrightarrow> unat (0x80 OR t) = 128 + unat t"
proof -
  have "\<forall>n < 128. ((0x80 OR of_nat n :: u8) AND 0x80 \<noteq> 0) \<and> (of_nat n :: u8) AND 0x80 = 0
    \<and> (0x80 OR of_nat n :: u8) AND 0x7F = of_nat n \<and> (of_nat n :: u8) AND 0x7F = of_nat n
    \<and> unat (0x80 OR of_nat n :: u8) = 128 + n"
    by code_simp
  moreover have "unat t < 128" using assms by (simp add: word_less_nat_alt)
  ultimately have bits: "(0x80 OR of_nat (unat t) :: u8) AND 0x80 \<noteq> 0"
    "(of_nat (unat t) :: u8) AND 0x80 = 0" "(0x80 OR of_nat (unat t) :: u8) AND 0x7F = of_nat (unat t)"
    "(of_nat (unat t) :: u8) AND 0x7F = of_nat (unat t)"
    "unat (0x80 OR of_nat (unat t) :: u8) = 128 + unat t"
    by blast+
  note bits = bits [unfolded of_nat_unat ucast_id]
  show "((if m then 0x80 else 0) OR t :: u8) AND 0x80 \<noteq> 0 \<longleftrightarrow> m"
    "((if m then 0x80 else 0) OR t :: u8) AND 0x7F = t"
    "m \<Longrightarrow> unat (0x80 OR t) = 128 + unat t"
    using bits by (cases m; simp)+
qed

text \<open>
  The fixed header of an RTP packet (no extension, no padding, up to fifteen CSRCs) is read
  back field by field. The payload types 64 to 95 with the marker bit set are excluded: their
  second byte is that of an RTCP packet, and the parser takes them for RTCP.
\<close>

theorem rtp_header_round_trip:
  assumes "payload_type h < 128" and "\<not> (marker h \<and> 64 \<le> payload_type h \<and> payload_type h \<le> 95)"
    and "length csrcs < 16"
  shows "parse_rtp_packet_header (rtp_wire h csrcs payload) = Inr h"
proof -
  define b0 where "b0 = (0x80 OR of_nat (length csrcs) :: u8)"
  define b1 where "b1 = (if marker h then 0x80 else 0) OR payload_type h"
  define rest where "rest = enc_u16 (sequence_number h) @ enc_u32 (timestamp h) @ enc_u32 (rtp_ssrc h)
      @ concat (map enc_u32 csrcs) @ payload"
  have data: "rtp_wire h csrcs payload = b0 # b1 # rest"
    by (simp add: rtp_wire_def b0_def b1_def rest_def)
  have "length (concat (map enc_u32 csrcs)) = length csrcs * 4" by (induction csrcs) auto
  then have len: "length rest = 10 + length csrcs * 4 + length payload" by (simp add: rest_def)
  note b0 = csrc_byte [OF assms(3), folded b0_def]
  note b1 = marker_byte [OF assms(1), of "marker h", folded b1_def]
  have "\<not> (192 \<le> b1 \<and> b1 \<le> 223)"
    using assms(1,2) b1(3) by (cases "marker h") (auto simp: b1_def word_le_nat_alt word_less_nat_alt)
  then have rtp: "\<not> is_rtcp_packet (b0 # b1 # rest)"
    by (auto simp: is_rtcp_packet_def)
  have "ok (inspect_rtp_packet_layout (b0 # b1 # rest))"
    using b0 rtp len
    by (simp add: inspect_rtp_packet_layout_def has_rtp_version_def validate_rtp_padding_def Let_def)
  moreover have "read_u16 (b0 # b1 # rest) 2 = Inr (sequence_number h)"
    "read_u32 (b0 # b1 # rest) 4 = Inr (timestamp h)" "read_u32 (b0 # b1 # rest) 8 = Inr (rtp_ssrc h)"
    by (simp_all add: rest_def wire del: access)
  ultimately show ?thesis
    unfolding data parse_rtp_packet_header_def using b1 by (auto simp: ok_iff)
qed

theorem rtp_header_round_trip_witness:
  "parse_rtp_packet_header (rtp_wire \<lparr>marker = True, payload_type = 111, sequence_number = 65535,
      timestamp = 5, rtp_ssrc = 9\<rparr> [3, 4] [1, 2, 3]) =
    Inr \<lparr>marker = True, payload_type = 111, sequence_number = 65535, timestamp = 5, rtp_ssrc = 9\<rparr>"
  by (rule rtp_header_round_trip) simp_all

text \<open>
  The validator of header extensions accepts exactly the byte strings of the two RFC 8285
  encodings: a sequence of padding bytes and complete elements that fills the extension payload.
\<close>

theorem extension_validation_is_grammar:
  "(validate_one_byte_header_extensions packet off n = Inr () \<longleftrightarrow>
     off + n \<le> length packet \<and> (\<exists>es. one_byte_elements es (window packet off (off + n))))
   \<and> (validate_two_byte_header_extensions packet off n = Inr () \<longleftrightarrow>
     off + n \<le> length packet \<and> (\<exists>es. two_byte_elements es (window packet off (off + n))))"
  by (auto simp: validate_one_byte_header_extensions_def validate_two_byte_header_extensions_def
      Let_def intro: validate_one_byte_loop_complete validate_two_byte_loop_complete
      dest: validate_one_byte_loop_sound validate_two_byte_loop_sound)

text \<open>
  No datagram is both an RTP and an RTCP packet, so the order in which the transports try the
  two parsers does not matter.
\<close>

theorem rtp_rtcp_exclusive:
  "\<not> (ok (parse_rtp_packet_header data) \<and> ok (parse_rtcp_packet_header data))"
  by (auto simp: ok_iff parse_rtp_packet_header_def inspect_rtp_packet_layout_def
      parse_rtcp_packet_header_def bindE_Inr_iff split: if_splits)

end
