(* ===== verification/Rtp_Header_Extension.thy ===== *)
theory Rtp_Header_Extension
  imports Rtp_Packet
begin

text \<open>
  Lookup of one RTP header extension by its negotiated id
  (\<^verbatim>\<open>src/rtp/rtp_header_extension.cpp\<close>). The lookup walks the same wire format as the validator
  of \<open>Rtp_Packet\<close>; the locale \<open>extension_format\<close> states what the two walks share.

  The code returns a span into the packet. A span is modelled by its position and its bytes, so that
  a caller may write through it; \<open>find_rtp_header_extension\<close> is what a caller reads there.
\<close>

section \<open>Operations\<close>

function find_one_byte_loop :: "bytes \<Rightarrow> u8 \<Rightarrow> nat \<Rightarrow> (nat \<times> bytes) option result" where
  "find_one_byte_loop payload extension_id offset =
     (if offset < length payload then
        bindE (read_u8 payload offset) (\<lambda>value.
        let offset = offset + 1 in
        if value = 0 then find_one_byte_loop payload extension_id offset
        else let id = drop_bit 4 value in
          if id = k_one_byte_extension_reserved_id
          then make_error ''rtp one-byte extension id 15 is reserved''
          else let size = unat (value AND 0x0F) + 1 in
            if offset + size > length payload
            then make_error ''rtp one-byte extension element is truncated''
            else if id = extension_id
            then bindE (subspan payload offset size) (\<lambda>v. Inr (Some (offset, v)))
            else find_one_byte_loop payload extension_id (offset + size))
      else Inr None)"
  by pat_completeness auto
termination
  by (relation "measure (\<lambda>(payload, extension_id, offset). length payload - offset)") auto

definition find_one_byte_extension :: "bytes \<Rightarrow> u8 \<Rightarrow> bytes option result" where
  "find_one_byte_extension payload extension_id =
     bindE (find_one_byte_loop payload extension_id 0) (\<lambda>span. Inr (map_option snd span))"

function find_two_byte_loop :: "bytes \<Rightarrow> u8 \<Rightarrow> nat \<Rightarrow> (nat \<times> bytes) option result" where
  "find_two_byte_loop payload extension_id offset =
     (if offset < length payload then
        bindE (read_u8 payload offset) (\<lambda>id.
        let offset = offset + 1 in
        if id = 0 then find_two_byte_loop payload extension_id offset
        else if offset \<ge> length payload
        then make_error ''rtp two-byte extension length is truncated''
        else bindE (read_u8 payload offset) (\<lambda>size_byte.
          let size = unat size_byte; offset = offset + 1 in
          if offset + size > length payload
          then make_error ''rtp two-byte extension element is truncated''
          else if id = extension_id
          then bindE (subspan payload offset size) (\<lambda>v. Inr (Some (offset, v)))
          else find_two_byte_loop payload extension_id (offset + size)))
      else Inr None)"
  by pat_completeness auto
termination
  by (relation "measure (\<lambda>(payload, extension_id, offset). length payload - offset)") auto

definition find_two_byte_extension :: "bytes \<Rightarrow> u8 \<Rightarrow> bytes option result" where
  "find_two_byte_extension payload extension_id =
     bindE (find_two_byte_loop payload extension_id 0) (\<lambda>span. Inr (map_option snd span))"

definition shift_span :: "nat \<Rightarrow> (nat \<times> bytes) option \<Rightarrow> (nat \<times> bytes) option result" where
  "shift_span start span = Inr (map_option (\<lambda>(offset, v). (start + offset, v)) span)"

definition find_rtp_header_extension_span :: "bytes \<Rightarrow> u8 \<Rightarrow> (nat \<times> bytes) option result" where
  "find_rtp_header_extension_span packet extension_id =
     (if extension_id = 0 then make_error ''rtp header extension id is zero''
      else if length packet < k_rtp_fixed_header_size
      then make_error ''rtp packet is shorter than fixed header''
      else bindE (read_u8 packet 0) (\<lambda>first.
        if drop_bit 6 first \<noteq> 2 then make_error ''rtp version is invalid''
        else if first AND 0x10 = 0 then Inr None
        else let csrc_count = first AND 0x0F;
                 extension_header_offset =
                   k_rtp_fixed_header_size + unat csrc_count * k_rtp_csrc_size in
          if extension_header_offset + k_rtp_extension_header_size > length packet
          then make_error ''rtp extension header is truncated''
          else
            bindE (read_u16 packet extension_header_offset) (\<lambda>profile.
            bindE (read_u16 packet (extension_header_offset + 2)) (\<lambda>length_words.
            let payload_offset = extension_header_offset + k_rtp_extension_header_size;
                payload_size = unat length_words * 4 in
            if payload_offset + payload_size > length packet
            then make_error ''rtp extension payload is truncated''
            else bindE (subspan packet payload_offset payload_size) (\<lambda>payload.
              if profile = k_one_byte_extension_profile then
                if extension_id \<ge> k_one_byte_extension_reserved_id then Inr None
                else bindE (find_one_byte_loop payload extension_id 0) (shift_span payload_offset)
              else if profile AND k_two_byte_extension_profile_mask =
                     k_two_byte_extension_profile_value
              then bindE (find_two_byte_loop payload extension_id 0) (shift_span payload_offset)
              else Inr None)))))"

definition find_rtp_header_extension :: "bytes \<Rightarrow> u8 \<Rightarrow> bytes option result" where
  "find_rtp_header_extension packet extension_id =
     bindE (find_rtp_header_extension_span packet extension_id) (\<lambda>span. Inr (map_option snd span))"

declare find_one_byte_loop.simps [simp del] find_two_byte_loop.simps [simp del]

section \<open>The contract shared by a validator and its lookup\<close>

locale extension_format =
  fixes elements :: "(u8 \<times> bytes) list \<Rightarrow> bytes \<Rightarrow> bool"
    and validate :: "bytes \<Rightarrow> nat \<Rightarrow> nat \<Rightarrow> unit result"
    and find :: "bytes \<Rightarrow> u8 \<Rightarrow> bytes option result"
  assumes validate_sound:
      "validate packet off n = Inr () \<Longrightarrow> \<exists>es. elements es (window packet off (off + n))"
    and find_elements: "elements es payload \<Longrightarrow> find payload i = Inr (map_of es i)"
    and find_safe: "fault_free (find payload i)"
begin

lemma elements_unique:
  assumes "elements es payload" and "elements es' payload"
  shows "map_of es = map_of es'"
proof
  fix i
  show "map_of es i = map_of es' i"
    using find_elements [OF assms(1), of i] find_elements [OF assms(2), of i] by simp
qed

lemma find_validated:
  assumes "validate packet off n = Inr ()"
  shows "\<exists>es. elements es (window packet off (off + n)) \<and>
    (\<forall>i. find (window packet off (off + n)) i = Inr (map_of es i))"
  using validate_sound [OF assms] find_elements by blast

end

section \<open>Both encodings meet the contract\<close>

lemma find_one_byte_loop_elements:
  assumes "one_byte_elements es (window payload offset (length payload))"
  shows "bindE (find_one_byte_loop payload i offset) (\<lambda>span. Inr (map_option snd span)) = Inr (map_of es i)"
  using assms
proof (induction es "window payload offset (length payload)" arbitrary: offset
    rule: one_byte_elements.induct)
  case one_end
  then have "\<not> offset < length payload" by (metis window_Cons list.distinct(1) order_refl)
  then show ?case by (subst find_one_byte_loop.simps) simp
next
  case (one_pad es xs)
  note d = window_eq_ConsD [OF one_pad.hyps(3) [symmetric] order_refl]
  then show ?case
    using one_pad by (subst find_one_byte_loop.simps) (simp add: Let_def)
next
  case (one_elem b v es xs)
  note d = window_eq_ConsD [OF one_elem.hyps(6) [symmetric] order_refl]
  note a = window_eq_appendD [OF d(3) order_refl]
  from d(1) a have rest: "bindE (find_one_byte_loop payload i (Suc offset + length v)) (\<lambda>span. Inr (map_option snd span)) = Inr (map_of es i)"
    using one_elem.hyps(5) by simp
  have "take (length v) (drop (Suc offset) payload) = v"
    using a(3) d(1) by (simp add: window_def)
  then show ?case
    using one_elem.hyps rest d(1,2) a(1)
    by (subst find_one_byte_loop.simps) (simp add: Let_def)
qed

lemma find_two_byte_loop_elements:
  assumes "two_byte_elements es (window payload offset (length payload))"
  shows "bindE (find_two_byte_loop payload i offset) (\<lambda>span. Inr (map_option snd span)) = Inr (map_of es i)"
  using assms
proof (induction es "window payload offset (length payload)" arbitrary: offset
    rule: two_byte_elements.induct)
  case two_end
  then have "\<not> offset < length payload" by (metis window_Cons list.distinct(1) order_refl)
  then show ?case by (subst find_two_byte_loop.simps) simp
next
  case (two_pad es xs)
  note d = window_eq_ConsD [OF two_pad.hyps(3) [symmetric] order_refl]
  then show ?case
    using two_pad by (subst find_two_byte_loop.simps) (simp add: Let_def)
next
  case (two_elem k v n es xs)
  note d = window_eq_ConsD [OF two_elem.hyps(5) [symmetric] order_refl]
  note d' = window_eq_ConsD [OF d(3) order_refl]
  note a = window_eq_appendD [OF d'(3) order_refl]
  from d'(1) a have rest:
    "bindE (find_two_byte_loop payload i (Suc (Suc offset) + length v)) (\<lambda>span. Inr (map_option snd span)) = Inr (map_of es i)"
    using two_elem.hyps(4) by simp
  have "take (length v) (drop (Suc (Suc offset)) payload) = v"
    using a(3) d'(1) by (simp add: window_def)
  then show ?case
    using two_elem.hyps rest d(1,2) d'(1,2) a(1)
    by (subst find_two_byte_loop.simps) (simp add: Let_def)
qed

lemma find_one_byte_loop_safe: "fault_free (find_one_byte_loop payload i offset)"
proof (induction payload i offset rule: find_one_byte_loop.induct)
  case (1 payload i offset)
  then show ?case by (subst find_one_byte_loop.simps) (auto simp: Let_def)
qed

lemma find_two_byte_loop_safe: "fault_free (find_two_byte_loop payload i offset)"
proof (induction payload i offset rule: find_two_byte_loop.induct)
  case (1 payload i offset)
  then show ?case by (subst find_two_byte_loop.simps) (auto simp: Let_def)
qed

lemma window_whole [simp]: "window d 0 (length d) = d"
  by (simp add: window_def)

interpretation one_byte: extension_format one_byte_elements
  validate_one_byte_header_extensions find_one_byte_extension
proof
  show "\<exists>es. one_byte_elements es (window packet off (off + n))"
    if "validate_one_byte_header_extensions packet off n = Inr ()" for packet off n
    using that validate_one_byte_loop_sound
    by (auto simp: validate_one_byte_header_extensions_def Let_def split: if_splits)
qed (auto simp: find_one_byte_extension_def find_one_byte_loop_elements intro!: fault_free_bindE find_one_byte_loop_safe)

interpretation two_byte: extension_format two_byte_elements
  validate_two_byte_header_extensions find_two_byte_extension
proof
  show "\<exists>es. two_byte_elements es (window packet off (off + n))"
    if "validate_two_byte_header_extensions packet off n = Inr ()" for packet off n
    using that validate_two_byte_loop_sound
    by (auto simp: validate_two_byte_header_extensions_def Let_def split: if_splits)
qed (auto simp: find_two_byte_extension_def find_two_byte_loop_elements intro!: fault_free_bindE find_two_byte_loop_safe)

section \<open>The whole lookup\<close>

lemma shift_span_bytes: "bindE (shift_span start span) (\<lambda>span. Inr (map_option snd span)) = Inr (map_option snd span)"
  by (simp add: shift_span_def option.map_comp comp_def case_prod_unfold)

lemma find_rtp_header_extension_eq:
  "find_rtp_header_extension packet extension_id =
     (if extension_id = 0 then make_error ''rtp header extension id is zero''
      else if length packet < k_rtp_fixed_header_size
      then make_error ''rtp packet is shorter than fixed header''
      else bindE (read_u8 packet 0) (\<lambda>first.
        if drop_bit 6 first \<noteq> 2 then make_error ''rtp version is invalid''
        else if first AND 0x10 = 0 then Inr None
        else let csrc_count = first AND 0x0F;
                 extension_header_offset =
                   k_rtp_fixed_header_size + unat csrc_count * k_rtp_csrc_size in
          if extension_header_offset + k_rtp_extension_header_size > length packet
          then make_error ''rtp extension header is truncated''
          else
            bindE (read_u16 packet extension_header_offset) (\<lambda>profile.
            bindE (read_u16 packet (extension_header_offset + 2)) (\<lambda>length_words.
            let payload_offset = extension_header_offset + k_rtp_extension_header_size;
                payload_size = unat length_words * 4 in
            if payload_offset + payload_size > length packet
            then make_error ''rtp extension payload is truncated''
            else bindE (subspan packet payload_offset payload_size) (\<lambda>payload.
              if profile = k_one_byte_extension_profile then
                if extension_id \<ge> k_one_byte_extension_reserved_id then Inr None
                else find_one_byte_extension payload extension_id
              else if profile AND k_two_byte_extension_profile_mask =
                     k_two_byte_extension_profile_value
              then find_two_byte_extension payload extension_id
              else Inr None)))))"
  unfolding find_rtp_header_extension_def find_rtp_header_extension_span_def Let_def
    find_one_byte_extension_def find_two_byte_extension_def
  by (auto simp: bindE_assoc shift_span_bytes if_distrib [of "\<lambda>r. bindE r _"] cong: if_cong)

lemma find_rtp_header_extension_safe [safe]: "fault_free (find_rtp_header_extension packet i)"
  by (cases packet)
    (auto simp: find_rtp_header_extension_eq Let_def one_byte.find_safe two_byte.find_safe
      intro!: fault_free_bindE)

section \<open>Writing through a found span\<close>

text \<open>
  Where the search finds an element, the element's bytes can be replaced by as many others: the
  payload then encodes the same list with that one value changed.
\<close>

definition replaceable :: "((u8 \<times> bytes) list \<Rightarrow> bytes \<Rightarrow> bool) \<Rightarrow> (u8 \<times> bytes) list \<Rightarrow> bytes \<Rightarrow> u8 \<Rightarrow> nat \<Rightarrow> bytes \<Rightarrow> bool" where
  "replaceable elements es xs i start v \<longleftrightarrow> (\<exists>es1 es2 xs1 xs2. es = es1 @ (i, v) # es2 \<and> i \<notin> fst ` set es1
     \<and> xs = xs1 @ v @ xs2 \<and> start = length xs1
     \<and> (\<forall>v'. length v' = length v \<longrightarrow> elements (es1 @ (i, v') # es2) (xs1 @ v' @ xs2)))"

lemma replaceable_skip:
  assumes "replaceable elements es xs i start v"
    and "\<And>es xs. elements es xs \<Longrightarrow> elements es (zs @ xs)"
  shows "replaceable elements es (zs @ xs) i (length zs + start) v"
proof -
  from assms(1) obtain es1 es2 xs1 xs2 where "es = es1 @ (i, v) # es2 \<and> i \<notin> fst ` set es1
     \<and> xs = xs1 @ v @ xs2 \<and> start = length xs1
     \<and> (\<forall>v'. length v' = length v \<longrightarrow> elements (es1 @ (i, v') # es2) (xs1 @ v' @ xs2))"
    unfolding replaceable_def by blast
  then show ?thesis unfolding replaceable_def using assms(2)
    by (intro exI [of _ es1] exI [of _ es2] exI [of _ "zs @ xs1"] exI [of _ xs2]) auto
qed

lemma replaceable_Cons:
  assumes "replaceable elements es xs i start v" and "j \<noteq> i"
    and "\<And>es xs. elements es xs \<Longrightarrow> elements ((j, w) # es) (zs @ xs)"
  shows "replaceable elements ((j, w) # es) (zs @ xs) i (length zs + start) v"
proof -
  from assms(1) obtain es1 es2 xs1 xs2 where "es = es1 @ (i, v) # es2 \<and> i \<notin> fst ` set es1
     \<and> xs = xs1 @ v @ xs2 \<and> start = length xs1
     \<and> (\<forall>v'. length v' = length v \<longrightarrow> elements (es1 @ (i, v') # es2) (xs1 @ v' @ xs2))"
    unfolding replaceable_def by blast
  then show ?thesis unfolding replaceable_def using assms(2,3)
    by (intro exI [of _ "(j, w) # es1"] exI [of _ es2] exI [of _ "zs @ xs1"] exI [of _ xs2]) auto
qed

lemma replaceable_here:
  assumes "\<And>v'. length v' = length v \<Longrightarrow> elements ((i, v') # es) (zs @ v' @ xs)"
  shows "replaceable elements ((i, v) # es) (zs @ v @ xs) i (length zs) v"
  unfolding replaceable_def using assms
  by (intro exI [of _ "[]"] exI [of _ es] exI [of _ zs] exI [of _ xs]) auto

lemma find_one_byte_loop_replaceable:
  assumes "one_byte_elements es xs" and "find_one_byte_loop (ys @ xs) i (length ys) = Inr (Some (start, v))"
  shows "\<exists>k. start = length ys + k \<and> replaceable one_byte_elements es xs i k v"
  using assms
proof (induction es xs arbitrary: ys rule: one_byte_elements.induct)
  case one_end
  then show ?case by (subst (asm) find_one_byte_loop.simps) simp
next
  case (one_pad es xs)
  have "find_one_byte_loop ((ys @ [0]) @ xs) i (length (ys @ [0])) = Inr (Some (start, v))"
    using one_pad.prems by (subst (asm) find_one_byte_loop.simps) (simp add: Let_def)
  from one_pad.IH [OF this] obtain k where "start = length ys + (1 + k)" "replaceable one_byte_elements es xs i k v" by auto
  then show ?case using replaceable_skip [of one_byte_elements es xs i k v "[0]"] one_byte_elements.one_pad by auto
next
  case (one_elem b w es xs)
  show ?case
  proof (cases "drop_bit 4 b = i")
    case True
    then have "start = length ys + 1" "v = w"
      using one_elem.prems one_elem.hyps by (subst (asm) find_one_byte_loop.simps; simp add: Let_def)+
    then show ?thesis using replaceable_here [of w one_byte_elements i es "[b]" xs] one_elem.hyps True
      one_byte_elements.one_elem by auto
  next
    case False
    have "find_one_byte_loop ((ys @ b # w) @ xs) i (length (ys @ b # w)) = Inr (Some (start, v))"
      using one_elem.prems one_elem.hyps False by (subst (asm) find_one_byte_loop.simps) (simp add: Let_def)
    from one_elem.IH [OF this] obtain k where "start = length ys + (length (b # w) + k)" "replaceable one_byte_elements es xs i k v" by auto
    then show ?thesis
      using replaceable_Cons [of one_byte_elements es xs i k v "drop_bit 4 b" w "b # w"] False one_elem.hyps
        one_byte_elements.one_elem by auto
  qed
qed

lemma find_two_byte_loop_replaceable:
  assumes "two_byte_elements es xs" and "find_two_byte_loop (ys @ xs) i (length ys) = Inr (Some (start, v))"
  shows "\<exists>k. start = length ys + k \<and> replaceable two_byte_elements es xs i k v"
  using assms
proof (induction es xs arbitrary: ys rule: two_byte_elements.induct)
  case two_end
  then show ?case by (subst (asm) find_two_byte_loop.simps) simp
next
  case (two_pad es xs)
  have "find_two_byte_loop ((ys @ [0]) @ xs) i (length (ys @ [0])) = Inr (Some (start, v))"
    using two_pad.prems by (subst (asm) find_two_byte_loop.simps) (simp add: Let_def)
  from two_pad.IH [OF this] obtain k where "start = length ys + (1 + k)" "replaceable two_byte_elements es xs i k v" by auto
  then show ?case using replaceable_skip [of two_byte_elements es xs i k v "[0]"] two_byte_elements.two_pad by auto
next
  case (two_elem j w n es xs)
  show ?case
  proof (cases "j = i")
    case True
    then have "start = length ys + 2" "v = w"
      using two_elem.prems two_elem.hyps by (subst (asm) find_two_byte_loop.simps; simp add: Let_def nth_append)+
    then show ?thesis using replaceable_here [of w two_byte_elements i es "[j, n]" xs] two_elem.hyps True
      two_byte_elements.two_elem by (auto simp: numeral_2_eq_2)
  next
    case False
    have "find_two_byte_loop ((ys @ j # n # w) @ xs) i (length (ys @ j # n # w)) = Inr (Some (start, v))"
      using two_elem.prems two_elem.hyps False by (subst (asm) find_two_byte_loop.simps) (simp add: Let_def nth_append)
    from two_elem.IH [OF this] obtain k where "start = length ys + (length (j # n # w) + k)" "replaceable two_byte_elements es xs i k v" by auto
    then show ?thesis
      using replaceable_Cons [of two_byte_elements es xs i k v j w "j # n # w"] False two_elem.hyps
        two_byte_elements.two_elem by auto
  qed
qed

lemma validate_header_extensionsE:
  assumes "validate_header_extensions packet off = Inr sz"
  obtains words where "off + 4 \<le> length packet"
    and "words = unat (be16 (packet ! (off + 2)) (packet ! (off + 3)))"
    and "sz = 4 + words * 4" and "off + sz \<le> length packet"
    and "be16 (packet ! off) (packet ! (off + 1)) = 0xBEDE \<Longrightarrow>
      validate_one_byte_header_extensions packet (off + 4) (words * 4) = Inr ()"
    and "be16 (packet ! off) (packet ! (off + 1)) \<noteq> 0xBEDE \<Longrightarrow>
      is_two_byte_extension_profile (be16 (packet ! off) (packet ! (off + 1))) \<Longrightarrow>
      validate_two_byte_header_extensions packet (off + 4) (words * 4) = Inr ()"
  using assms
  by (intro that)
    (auto simp: validate_header_extensions_def Let_def bindE_Inr_iff is_one_byte_extension_profile_def
      eval_nat_numeral split: if_splits)

lemma one_byte_ids: "one_byte_elements es xs \<Longrightarrow> (i, v) \<in> set es \<Longrightarrow> i < 15"
proof (induction es xs rule: one_byte_elements.induct)
  case (one_elem b v' es xs)
  have "unat (drop_bit 4 b) < 16"
    using unsigned_less [of b, where ?'a = nat] by (simp add: drop_bit_eq_div unat_div)
  then have "drop_bit 4 b < 15"
    using one_elem.hyps(2) by (auto simp: word_less_nat_alt word_unat_eq_iff)
  then show ?case using one_elem by auto
qed auto

text \<open>
  On a packet whose layout was accepted, the lookup is a finite map: one list of elements, read
  off the extension payload by one of the two encodings (or empty), answers the lookup of every
  non-zero id, and no lookup fails.
\<close>

theorem lookup_is_element_map:
  assumes "inspect_rtp_packet_layout packet = Inr l"
  defines "payload \<equiv> window packet (12 + unat (packet ! 0 AND 0x0F) * 4 + 4) (header_size l)"
  shows "\<exists>es. (es = [] \<or> one_byte_elements es payload \<or> two_byte_elements es payload)
    \<and> (\<forall>i. i \<noteq> 0 \<longrightarrow> find_rtp_header_extension packet i = Inr (map_of es i))"
proof (cases "packet ! 0 AND 0x10 = 0")
  case True
  with assms(1) have "find_rtp_header_extension packet i = Inr (map_of [] i)" if "i \<noteq> 0" for i
    using that by (auto elim!: inspect_rtp_packet_layoutE simp: find_rtp_header_extension_eq Let_def
        has_rtp_version_def split: list.splits)
  then show ?thesis by blast
next
  case False
  let ?off = "12 + unat (packet ! 0 AND 0x0F) * 4"
  from assms(1) False have len: "12 \<le> length packet" and ver: "has_rtp_version packet"
    and ext: "validate_header_extensions packet ?off = Inr (header_size l - ?off)"
    by (auto elim: inspect_rtp_packet_layoutE)
  from ver have v: "packet \<noteq> []" "drop_bit 6 (packet ! 0) = 2"
    by (auto simp: has_rtp_version_def split: list.splits)
  let ?p = "be16 (packet ! ?off) (packet ! (?off + 1))"
  from ext obtain words where le: "?off + 4 \<le> length packet"
    and w: "words = unat (be16 (packet ! (?off + 2)) (packet ! (?off + 3)))"
    and sz: "header_size l - ?off = 4 + words * 4"
    and fit: "?off + (header_size l - ?off) \<le> length packet"
    and one: "?p = 0xBEDE \<Longrightarrow> validate_one_byte_header_extensions packet (?off + 4) (words * 4) = Inr ()"
    and two: "?p \<noteq> 0xBEDE \<Longrightarrow> is_two_byte_extension_profile ?p \<Longrightarrow>
      validate_two_byte_header_extensions packet (?off + 4) (words * 4) = Inr ()"
    by (rule validate_header_extensionsE) (rule that)
  have payload: "payload = window packet (?off + 4) (?off + 4 + words * 4)"
  proof -
    have "header_size l = ?off + 4 + words * 4" using sz by arith
    then show ?thesis by (simp add: payload_def)
  qed
  have find: "find_rtp_header_extension packet i =
      (if ?p = 0xBEDE then if 15 \<le> i then Inr None else find_one_byte_extension payload i
       else if ?p AND 0xFFF0 = 0x1000 then find_two_byte_extension payload i else Inr None)"
    if "i \<noteq> 0" for i
    using le w sz fit len v False that unfolding payload
    by (simp add: find_rtp_header_extension_eq Let_def window_def eval_nat_numeral)
  consider "?p = 0xBEDE" | "?p \<noteq> 0xBEDE" "?p AND 0xFFF0 = 0x1000" | "?p \<noteq> 0xBEDE" "?p AND 0xFFF0 \<noteq> 0x1000"
    by blast
  then show ?thesis
  proof cases
    case 1
    then obtain es where es: "one_byte_elements es payload"
      and lookup: "find_one_byte_extension payload i = Inr (map_of es i)" for i
      using one_byte.find_validated [OF one] payload by auto
    have "map_of es i = None" if "15 \<le> i" for i
      using one_byte_ids [OF es] that by (fastforce simp: map_of_eq_None_iff)
    then show ?thesis using find lookup es 1 by auto
  next
    case 2
    then show ?thesis
      using two_byte.find_validated [OF two] find payload
      by (auto simp: is_two_byte_extension_profile_def)
  next
    case 3
    then have "find_rtp_header_extension packet i = Inr (map_of [] i)" if "i \<noteq> 0" for i
      using find [OF that] by simp
    then show ?thesis by blast
  qed
qed

theorem lookup_is_element_map_witness:
  "\<exists>es. \<forall>i. i \<noteq> 0 \<longrightarrow> find_rtp_header_extension
      [0x90, 96, 0, 1, 0, 0, 0, 0, 0, 0, 0, 1, 0xBE, 0xDE, 0, 1, 0x10, 0xFF, 0, 0, 7] i = Inr (map_of es i)"
proof -
  have "inspect_rtp_packet_layout
      [0x90, 96, 0, 1, 0, 0, 0, 0, 0, 0, 0, 1, 0xBE, 0xDE, 0, 1, 0x10, 0xFF, 0, 0, 7] =
    Inr \<lparr>header_size = 20, media_payload_size = 1, padding_size = 0, layout_padding = False\<rparr>"
    by code_simp
  from lookup_is_element_map [OF this] show ?thesis by blast
qed

end
