(* ===== verification/Rtcp_Report.thy ===== *)
theory Rtcp_Report
  imports Rtp_Packet
begin

text \<open>
  Sender and receiver reports (\<^verbatim>\<open>src/rtp/rtcp_report.cpp\<close>). The signed 24-bit loss counter is
  kept as the two's complement \<^verbatim>\<open>int32_t\<close> of the source, a \<open>32 word\<close> read with \<open>sint\<close>.
\<close>

section \<open>Data\<close>

record rtcp_sender_info =
  ntp_timestamp_msw :: u32
  ntp_timestamp_lsw :: u32
  info_rtp_timestamp :: u32
  info_sender_packet_count :: u32
  info_sender_octet_count :: u32

record rtcp_report_block =
  source_ssrc :: u32
  fraction_lost :: u8
  cumulative_lost :: u32
  extended_highest_sequence_number :: u32
  jitter :: u32
  last_sender_report :: u32
  delay_since_last_sender_report :: u32

record rtcp_report_packet =
  report_packet_type :: u8
  report_sender_ssrc :: u32
  sender_info :: "rtcp_sender_info option"
  report_blocks :: "rtcp_report_block list"

abbreviation (input) k_rtcp_packet_type_sender_report :: u8
  where "k_rtcp_packet_type_sender_report \<equiv> 200"
abbreviation (input) k_rtcp_packet_type_receiver_report :: u8
  where "k_rtcp_packet_type_receiver_report \<equiv> 201"
abbreviation (input) k_rtcp_sender_ssrc_size :: nat where "k_rtcp_sender_ssrc_size \<equiv> 4"
abbreviation (input) k_rtcp_sender_info_size :: nat where "k_rtcp_sender_info_size \<equiv> 20"
abbreviation (input) k_rtcp_report_block_size :: nat where "k_rtcp_report_block_size \<equiv> 24"

section \<open>Operations\<close>

definition read_i24 :: "bytes \<Rightarrow> nat \<Rightarrow> u32 result" where
  "read_i24 data offset =
     bindE (read_u24 data offset) (\<lambda>value.
     Inr (if value AND 0x800000 \<noteq> 0 then value OR 0xFF000000 else value))"

definition is_report_packet_type :: "u8 \<Rightarrow> bool" where
  "is_report_packet_type packet_type \<longleftrightarrow>
     packet_type = k_rtcp_packet_type_sender_report \<or>
     packet_type = k_rtcp_packet_type_receiver_report"

definition parse_sender_info :: "bytes \<Rightarrow> nat \<Rightarrow> rtcp_sender_info result" where
  "parse_sender_info data offset =
     bindE (read_u32 data offset) (\<lambda>msw.
     bindE (read_u32 data (offset + 4)) (\<lambda>lsw.
     bindE (read_u32 data (offset + 8)) (\<lambda>ts.
     bindE (read_u32 data (offset + 12)) (\<lambda>packets.
     bindE (read_u32 data (offset + 16)) (\<lambda>octets.
     Inr \<lparr>ntp_timestamp_msw = msw, ntp_timestamp_lsw = lsw, info_rtp_timestamp = ts,
          info_sender_packet_count = packets, info_sender_octet_count = octets\<rparr>)))))"

definition parse_report_block :: "bytes \<Rightarrow> nat \<Rightarrow> rtcp_report_block result" where
  "parse_report_block data offset =
     bindE (read_u32 data offset) (\<lambda>source.
     bindE (read_u8 data (offset + 4)) (\<lambda>fraction.
     bindE (read_i24 data (offset + 5)) (\<lambda>lost.
     bindE (read_u32 data (offset + 8)) (\<lambda>highest.
     bindE (read_u32 data (offset + 12)) (\<lambda>jit.
     bindE (read_u32 data (offset + 16)) (\<lambda>lsr.
     bindE (read_u32 data (offset + 20)) (\<lambda>dlsr.
     Inr \<lparr>source_ssrc = source, fraction_lost = fraction, cumulative_lost = lost,
          extended_highest_sequence_number = highest, jitter = jit, last_sender_report = lsr,
          delay_since_last_sender_report = dlsr\<rparr>)))))))"

definition rtcp_report_payload_end :: "rtcp_packet_header \<Rightarrow> bytes \<Rightarrow> nat result" where
  "rtcp_report_payload_end header data =
     (if packet_size header > length data
      then make_error ''rtcp report packet exceeds buffer size''
      else let payload_end = packet_size header in
        if \<not> rtcp_padding header then Inr payload_end
        else if payload_end \<le> k_rtcp_common_header_size
        then make_error ''rtcp report padding packet is too short''
        else bindE (read_u8 data (payload_end - 1)) (\<lambda>padding_byte.
          let pad = unat padding_byte in
          if pad = 0 then make_error ''rtcp report padding size is zero''
          else if pad > payload_end - k_rtcp_common_header_size
          then make_error ''rtcp report padding exceeds packet size''
          else Inr (payload_end - pad)))"

definition is_rtcp_report_packet :: "bytes \<Rightarrow> bool" where
  "is_rtcp_report_packet data =
     (case parse_rtcp_packet_header data of
        Inl _ \<Rightarrow> False
      | Inr header \<Rightarrow> is_report_packet_type (rtcp_packet_type header))"

text \<open>The loop over the report blocks, \<open>i\<close> counting up to the report count.\<close>

fun parse_report_blocks :: "bytes \<Rightarrow> nat \<Rightarrow> nat \<Rightarrow> nat \<Rightarrow> rtcp_report_block list result" where
  "parse_report_blocks data report_block_offset i 0 = Inr []"
| "parse_report_blocks data report_block_offset i (Suc remaining) =
     bindE (parse_report_block data (report_block_offset + i * k_rtcp_report_block_size)) (\<lambda>block.
     bindE (parse_report_blocks data report_block_offset (i + 1) remaining) (\<lambda>blocks.
     Inr (block # blocks)))"

definition parse_rtcp_report_packet :: "bytes \<Rightarrow> rtcp_report_packet result" where
  "parse_rtcp_report_packet data =
     bindE (parse_rtcp_packet_header data) (\<lambda>header.
     if \<not> is_report_packet_type (rtcp_packet_type header)
     then make_error ''rtcp packet is not report''
     else bindE (rtcp_report_payload_end header data) (\<lambda>payload_end.
       if payload_end < k_rtcp_common_header_size + k_rtcp_sender_ssrc_size
       then make_error ''rtcp report packet is too short''
       else bindE (read_u32 data k_rtcp_common_header_size) (\<lambda>sender.
         let report_block_offset = k_rtcp_common_header_size + k_rtcp_sender_ssrc_size in
         bindE (if rtcp_packet_type header = k_rtcp_packet_type_sender_report
                then if payload_end < report_block_offset + k_rtcp_sender_info_size
                  then make_error ''rtcp sender report sender info is truncated''
                  else bindE (parse_sender_info data report_block_offset) (\<lambda>info.
                    Inr (Some info, report_block_offset + k_rtcp_sender_info_size))
                else Inr (None, report_block_offset)) (\<lambda>(info, report_block_offset).
         let report_count = unat (rtcp_count header);
             report_block_end = report_block_offset + report_count * k_rtcp_report_block_size in
         if report_block_end > payload_end
         then make_error ''rtcp report block list is truncated''
         else if report_block_end \<noteq> payload_end
         then make_error ''rtcp report packet has trailing payload bytes''
         else bindE (parse_report_blocks data report_block_offset 0 report_count) (\<lambda>blocks.
           Inr \<lparr>report_packet_type = rtcp_packet_type header, report_sender_ssrc = sender,
                sender_info = info, report_blocks = blocks\<rparr>)))))"

text \<open>Specification of the wire form of a report block; the loss counter takes 24 bits.\<close>

definition enc_report_block :: "rtcp_report_block \<Rightarrow> bytes" where
  "enc_report_block b =
     enc_u32 (source_ssrc b) @ [fraction_lost b] @ enc_u24 (cumulative_lost b AND 0xFFFFFF)
     @ enc_u32 (extended_highest_sequence_number b) @ enc_u32 (jitter b)
     @ enc_u32 (last_sender_report b) @ enc_u32 (delay_since_last_sender_report b)"

definition enc_sender_info :: "rtcp_sender_info \<Rightarrow> bytes" where
  "enc_sender_info s =
     enc_u32 (ntp_timestamp_msw s) @ enc_u32 (ntp_timestamp_lsw s) @ enc_u32 (info_rtp_timestamp s)
     @ enc_u32 (info_sender_packet_count s) @ enc_u32 (info_sender_octet_count s)"

text \<open>The values a signed 24-bit field can hold.\<close>

definition fits_i24 :: "u32 \<Rightarrow> bool" where
  "fits_i24 w \<longleftrightarrow> -8388608 \<le> sint w \<and> sint w \<le> 8388607"

section \<open>Bounds and memory safety\<close>

interpretation report_end: rtcp_payload_bounds rtcp_report_payload_end
  by unfold_locales
    (auto simp: rtcp_report_payload_end_def content_end_def Let_def elim!: parse_rtcp_packet_headerE
      split: if_splits)

lemma parse_sender_info_safe [safe]:
  "offset + 20 \<le> length data \<Longrightarrow> fault_free (parse_sender_info data offset)"
  by (simp add: parse_sender_info_def)

lemma parse_report_block_safe [safe]:
  "offset + 24 \<le> length data \<Longrightarrow> fault_free (parse_report_block data offset)"
  by (simp add: parse_report_block_def read_i24_def)

lemma parse_report_blocks_safe:
  "base + (i + n) * 24 \<le> length data \<Longrightarrow> fault_free (parse_report_blocks data base i n)"
  by (induction data base i n rule: parse_report_blocks.induct)
    (auto intro!: safe)

lemma parse_report_blocks_length:
  "parse_report_blocks data base i n = Inr bs \<Longrightarrow> length bs = n"
  by (induction data base i n arbitrary: bs rule: parse_report_blocks.induct)
    (auto simp: bindE_Inr_iff)

lemma parse_rtcp_report_packet_safe [safe]: "fault_free (parse_rtcp_report_packet data)"
  unfolding parse_rtcp_report_packet_def Let_def
  by (intro fault_free_bindE parse_rtcp_packet_header_safe)
    (auto dest: report_end.payload_end_bounds(3) intro!: safe parse_report_blocks_safe
      report_end.payload_end_safe
      split: prod.splits if_splits simp: bindE_Inr_iff)

section \<open>Round trip of the report block\<close>

lemma enc_report_block_length [simp]: "length (enc_report_block b) = 24"
  by (simp add: enc_report_block_def)

lemma enc_sender_info_length [simp]: "length (enc_sender_info s) = 20"
  by (simp add: enc_sender_info_def)

text \<open>A value of the signed 24-bit range repeats its sign bit from bit 23 upwards.\<close>

lemma fits_i24_bits:
  assumes "fits_i24 w" and "n < 32"
  shows "bit w n = bit w (min 23 n)"
proof -
  have "signed_take_bit 23 (sint w) = sint w"
    using assms(1) by (simp add: fits_i24_def signed_take_bit_int_eq_self)
  moreover have bit_sint: "bit (sint w) k = bit w k" if "k < 32" for k
    using that by (cases "k = 31") (auto simp: bit_simps min_def)
  ultimately have "bit w n = bit (signed_take_bit 23 (sint w)) n"
    using assms(2) by simp
  also have "\<dots> = bit w (min 23 n)"
    using assms(2) by (simp add: bit_signed_take_bit_iff bit_sint)
  finally show ?thesis .
qed

lemma sign_extend_i24:
  assumes "fits_i24 w"
  shows "(if (w AND 0xFFFFFF) AND 0x800000 \<noteq> 0 then (w AND 0xFFFFFF) OR 0xFF000000
          else w AND 0xFFFFFF) = w"
proof -
  have low: "(0xFFFFFF :: u32) = mask 24" and high: "(0xFF000000 :: u32) = push_bit 24 (mask 8)"
    by (simp_all add: mask_eq_exp_minus_1 push_bit_eq_mult)
  have sign: "(w AND 0xFFFFFF) AND 0x800000 \<noteq> 0 \<longleftrightarrow> bit w 23"
    using and_exp_eq_0_iff_not_bit [of "w AND 0xFFFFFF" 23] unfolding low by (simp add: bit_simps)
  have upper: "bit w n = bit w 23" if "24 \<le> n" "n < 32" for n
    using fits_i24_bits [OF assms that(2)] that(1) by simp
  show ?thesis
  proof (cases "bit w 23")
    case True
    have "(w AND mask 24) OR push_bit 24 (mask 8) = w"
    proof (rule bit_word_eqI)
      fix n assume "n < LENGTH(32)"
      then show "bit ((w AND mask 24) OR push_bit 24 (mask 8)) n = bit w n"
        using upper [of n] True by (cases "n < 24") (auto simp: bit_simps)
    qed
    with True sign show ?thesis by (simp add: low high)
  next
    case False
    have "w AND mask 24 = w"
    proof (rule bit_word_eqI)
      fix n assume "n < LENGTH(32)"
      then show "bit (w AND mask 24) n = bit w n"
        using upper [of n] False by (cases "n < 24") (auto simp: bit_simps)
    qed
    with False sign show ?thesis by (simp add: low)
  qed
qed

lemma read_i24_enc [wire]:
  assumes "fits_i24 w"
  shows "read_i24 (enc_u24 (w AND 0xFFFFFF) @ ys) 0 = Inr w"
  using sign_extend_i24 [OF assms] and_i24_less [of w] by (simp add: read_i24_def wire del: access)

lemma read_i24_append [wire]:
  "length xs \<le> i \<Longrightarrow> read_i24 (xs @ ys) i = read_i24 ys (i - length xs)"
  by (simp add: read_i24_def wire del: access)

lemma read_i24_Cons [wire]: "0 < i \<Longrightarrow> read_i24 (x # ys) i = read_i24 ys (i - 1)"
  by (simp add: read_i24_def wire del: access)

lemma parse_report_block_enc:
  assumes "fits_i24 (cumulative_lost b)" and "length xs = i"
  shows "parse_report_block (xs @ enc_report_block b @ ys) i = Inr b"
  using assms by (simp add: parse_report_block_def enc_report_block_def wire del: access)

lemma parse_report_blocks_enc:
  assumes "\<forall>b \<in> set bs. fits_i24 (cumulative_lost b)" and "length xs = base + i * 24"
  shows "parse_report_blocks (xs @ concat (map enc_report_block bs) @ ys) base i (length bs) = Inr bs"
  using assms
proof (induction bs arbitrary: xs i)
  case Nil
  then show ?case by simp
next
  case (Cons b bs)
  have "parse_report_blocks ((xs @ enc_report_block b) @ concat (map enc_report_block bs) @ ys)
      base (i + 1) (length bs) = Inr bs"
    by (rule Cons.IH) (use Cons.prems in auto)
  then show ?case
    using Cons.prems parse_report_block_enc [of b xs "base + i * 24"] by simp
qed

lemma parse_sender_info_enc:
  "length xs = i \<Longrightarrow> parse_sender_info (xs @ enc_sender_info s @ ys) i = Inr s"
  by (simp add: parse_sender_info_def enc_sender_info_def wire del: access)

end
