(* ===== verification/Rtcp_Packet_Builder.thy ===== *)
theory Rtcp_Packet_Builder
  imports Rtcp_Report
begin

text \<open>
  Construction of outgoing RTCP packets and datagrams (\<^verbatim>\<open>src/rtp/rtcp_packet_builder.cpp\<close>).
  A builder allocates a zeroed buffer and writes its fields in place; every write is a checked
  access, so that a builder that wrote past its buffer would return \<open>OutOfBounds\<close>. CNAMEs and BYE
  reasons (\<^verbatim>\<open>std::string_view\<close>) are byte sequences.
\<close>

section \<open>Data\<close>

record rtcp_sender_report_data =
  sr_sender_ssrc :: u32
  sr_ntp_timestamp :: u64
  sr_rtp_timestamp :: u32
  sr_sender_packet_count :: u32
  sr_sender_octet_count :: u32
  sr_report_blocks :: "rtcp_report_block list"

record rtcp_receiver_report_data =
  rr_sender_ssrc :: u32
  rr_report_blocks :: "rtcp_report_block list"

record rtcp_fir_request =
  fir_media_ssrc :: u32
  fir_sequence_number :: u8

abbreviation (input) k_rtcp_packet_type_sdes :: u8 where "k_rtcp_packet_type_sdes \<equiv> 202"
abbreviation (input) k_rtcp_packet_type_bye :: u8 where "k_rtcp_packet_type_bye \<equiv> 203"
abbreviation (input) k_rtcp_packet_type_transport_feedback :: u8
  where "k_rtcp_packet_type_transport_feedback \<equiv> 205"
abbreviation (input) k_rtcp_packet_type_payload_feedback :: u8
  where "k_rtcp_packet_type_payload_feedback \<equiv> 206"
abbreviation (input) k_rtcp_payload_feedback_pli :: u8 where "k_rtcp_payload_feedback_pli \<equiv> 1"
abbreviation (input) k_rtcp_payload_feedback_fir :: u8 where "k_rtcp_payload_feedback_fir \<equiv> 4"
abbreviation (input) k_rtcp_sdes_item_cname :: u8 where "k_rtcp_sdes_item_cname \<equiv> 1"
abbreviation (input) k_rtcp_feedback_header_size :: nat where "k_rtcp_feedback_header_size \<equiv> 12"
abbreviation (input) k_rtcp_fir_entry_size :: nat where "k_rtcp_fir_entry_size \<equiv> 8"
abbreviation (input) k_rtcp_max_count :: nat where "k_rtcp_max_count \<equiv> 31"
abbreviation (input) uint8_max :: nat where "uint8_max \<equiv> 255"
abbreviation (input) uint16_max :: nat where "uint16_max \<equiv> 65535"
abbreviation (input) size_max :: nat where "size_max \<equiv> 2 ^ 64 - 1"

section \<open>Operations\<close>

definition write_common_header :: "bytes \<Rightarrow> u8 \<Rightarrow> u8 \<Rightarrow> bytes result" where
  "write_common_header packet count packet_type =
     (if length packet < k_rtcp_common_header_size \<or> length packet mod 4 \<noteq> 0
      then make_error ''rtcp packet size is invalid''
      else if unat count > k_rtcp_max_count
      then make_error ''rtcp packet count exceeds five-bit field''
      else let length_words = length packet div 4 - 1 in
        if length_words > uint16_max
        then make_error ''rtcp packet length exceeds sixteen-bit field''
        else
          bindE (write_u8 packet 0 (push_bit 6 2 OR count)) (\<lambda>packet.
          bindE (write_u8 packet 1 packet_type) (\<lambda>packet.
          write_u16 packet 2 (of_nat length_words))))"

fun write_report_blocks :: "bytes \<Rightarrow> nat \<Rightarrow> rtcp_report_block list \<Rightarrow> bytes result" where
  "write_report_blocks packet offset [] = Inr packet"
| "write_report_blocks packet offset (block # blocks) =
     (if sint (cumulative_lost block) < -8388608 \<or> sint (cumulative_lost block) > 8388607
      then make_error ''rtcp cumulative lost exceeds signed 24-bit field''
      else if offset + k_rtcp_report_block_size > length packet
      then make_error ''rtcp report block output is truncated''
      else
        bindE (write_u32 packet offset (source_ssrc block)) (\<lambda>packet.
        bindE (write_u8 packet (offset + 4) (fraction_lost block)) (\<lambda>packet.
        bindE (write_u24 packet (offset + 5) (cumulative_lost block AND 0x00FFFFFF)) (\<lambda>packet.
        bindE (write_u32 packet (offset + 8) (extended_highest_sequence_number block)) (\<lambda>packet.
        bindE (write_u32 packet (offset + 12) (jitter block)) (\<lambda>packet.
        bindE (write_u32 packet (offset + 16) (last_sender_report block)) (\<lambda>packet.
        bindE (write_u32 packet (offset + 20) (delay_since_last_sender_report block)) (\<lambda>packet.
        write_report_blocks packet (offset + k_rtcp_report_block_size) blocks))))))))"

definition validate_report :: "nat \<Rightarrow> u32 \<Rightarrow> u8 result" where
  "validate_report report_count sender_ssrc =
     (if sender_ssrc = 0 then make_error ''rtcp report sender ssrc is zero''
      else if report_count > k_rtcp_max_count
      then make_error ''rtcp report block count exceeds five-bit field''
      else Inr (of_nat report_count))"

definition validate_rtcp_packet :: "bytes \<Rightarrow> u8 result" where
  "validate_rtcp_packet packet =
     (if length packet < k_rtcp_common_header_size \<or> length packet mod 4 \<noteq> 0
      then make_error ''rtcp compound member size is invalid''
      else bindE (read_u8 packet 0) (\<lambda>first.
        if drop_bit 6 first \<noteq> 2 then make_error ''rtcp compound member version is invalid''
        else bindE (read_u16 packet 2) (\<lambda>len.
          if (unat len + 1) * 4 \<noteq> length packet
          then make_error ''rtcp compound member length does not match buffer''
          else read_u8 packet 1)))"

definition build_rtcp_sender_report :: "rtcp_sender_report_data \<Rightarrow> bytes result" where
  "build_rtcp_sender_report report =
     bindE (validate_report (length (sr_report_blocks report)) (sr_sender_ssrc report)) (\<lambda>report_count.
     let packet_size = k_rtcp_common_header_size + 4 + k_rtcp_sender_info_size
           + length (sr_report_blocks report) * k_rtcp_report_block_size;
         packet = replicate packet_size 0 in
     bindE (write_common_header packet report_count k_rtcp_packet_type_sender_report) (\<lambda>packet.
     bindE (write_u32 packet 4 (sr_sender_ssrc report)) (\<lambda>packet.
     bindE (write_u32 packet 8 (ucast (drop_bit 32 (sr_ntp_timestamp report)))) (\<lambda>packet.
     bindE (write_u32 packet 12 (ucast (sr_ntp_timestamp report))) (\<lambda>packet.
     bindE (write_u32 packet 16 (sr_rtp_timestamp report)) (\<lambda>packet.
     bindE (write_u32 packet 20 (sr_sender_packet_count report)) (\<lambda>packet.
     bindE (write_u32 packet 24 (sr_sender_octet_count report)) (\<lambda>packet.
     write_report_blocks packet 28 (sr_report_blocks report)))))))))"

definition build_rtcp_receiver_report :: "rtcp_receiver_report_data \<Rightarrow> bytes result" where
  "build_rtcp_receiver_report report =
     bindE (validate_report (length (rr_report_blocks report)) (rr_sender_ssrc report)) (\<lambda>report_count.
     let packet_size = k_rtcp_common_header_size + 4
           + length (rr_report_blocks report) * k_rtcp_report_block_size;
         packet = replicate packet_size 0 in
     bindE (write_common_header packet report_count k_rtcp_packet_type_receiver_report) (\<lambda>packet.
     bindE (write_u32 packet 4 (rr_sender_ssrc report)) (\<lambda>packet.
     write_report_blocks packet 8 (rr_report_blocks report))))"

definition build_rtcp_sdes_cname :: "u32 \<Rightarrow> bytes \<Rightarrow> bytes result" where
  "build_rtcp_sdes_cname ssrc cname =
     (if ssrc = 0 then make_error ''rtcp sdes ssrc is zero''
      else if cname = [] then make_error ''rtcp sdes cname is empty''
      else if length cname > uint8_max
      then make_error ''rtcp sdes cname exceeds eight-bit length field''
      else let unaligned_size = k_rtcp_common_header_size + 4 + 2 + length cname + 1;
               packet_size = align4 unaligned_size;
               packet = replicate packet_size 0 in
        bindE (write_common_header packet 1 k_rtcp_packet_type_sdes) (\<lambda>packet.
        bindE (write_u32 packet 4 ssrc) (\<lambda>packet.
        bindE (write_u8 packet 8 k_rtcp_sdes_item_cname) (\<lambda>packet.
        bindE (write_u8 packet 9 (of_nat (length cname))) (\<lambda>packet.
        bindE (write_bytes packet 10 cname) (\<lambda>packet.
        write_u8 packet (10 + length cname) 0))))))"

definition build_rtcp_picture_loss_indication :: "u32 \<Rightarrow> u32 \<Rightarrow> bytes result" where
  "build_rtcp_picture_loss_indication sender_ssrc media_ssrc =
     (if sender_ssrc = 0 then make_error ''rtcp pli sender ssrc is zero''
      else if media_ssrc = 0 then make_error ''rtcp pli media ssrc is zero''
      else
        bindE (write_common_header (replicate k_rtcp_feedback_header_size 0)
                 k_rtcp_payload_feedback_pli k_rtcp_packet_type_payload_feedback) (\<lambda>packet.
        bindE (write_u32 packet 4 sender_ssrc) (\<lambda>packet.
        write_u32 packet 8 media_ssrc)))"

fun write_fir_entries :: "bytes \<Rightarrow> nat \<Rightarrow> rtcp_fir_request list \<Rightarrow> bytes result" where
  "write_fir_entries packet offset [] = Inr packet"
| "write_fir_entries packet offset (request # requests) =
     (if fir_media_ssrc request = 0 then make_error ''rtcp fir media ssrc is zero''
      else
        bindE (write_u32 packet offset (fir_media_ssrc request)) (\<lambda>packet.
        bindE (write_u8 packet (offset + 4) (fir_sequence_number request)) (\<lambda>packet.
        write_fir_entries packet (offset + k_rtcp_fir_entry_size) requests)))"

definition build_rtcp_full_intra_request :: "u32 \<Rightarrow> rtcp_fir_request list \<Rightarrow> bytes result" where
  "build_rtcp_full_intra_request sender_ssrc requests =
     (if sender_ssrc = 0 then make_error ''rtcp fir sender ssrc is zero''
      else if requests = [] then make_error ''rtcp fir request list is empty''
      else if length requests > (size_max - k_rtcp_feedback_header_size) div k_rtcp_fir_entry_size
      then make_error ''rtcp fir request list is too large''
      else let packet_size =
             k_rtcp_feedback_header_size + length requests * k_rtcp_fir_entry_size in
        bindE (write_common_header (replicate packet_size 0)
                 k_rtcp_payload_feedback_fir k_rtcp_packet_type_payload_feedback) (\<lambda>packet.
        bindE (write_u32 packet 4 sender_ssrc) (\<lambda>packet.
        bindE (write_u32 packet 8 0) (\<lambda>packet.
        write_fir_entries packet k_rtcp_feedback_header_size requests))))"

text \<open>The loop over the members; \<open>index\<close>, \<open>total_size\<close> and \<open>has_sdes\<close> are its state.\<close>

fun check_compound_members ::
  "bytes list \<Rightarrow> nat \<Rightarrow> nat \<Rightarrow> nat \<Rightarrow> bool \<Rightarrow> bool result" where
  "check_compound_members [] maximum_size index total_size has_sdes = Inr has_sdes"
| "check_compound_members (packet # packets) maximum_size index total_size has_sdes =
     bindE (validate_rtcp_packet packet) (\<lambda>packet_type.
     if index = 0 \<and> packet_type \<noteq> k_rtcp_packet_type_sender_report
        \<and> packet_type \<noteq> k_rtcp_packet_type_receiver_report
     then make_error ''rtcp compound packet must begin with sender or receiver report''
     else bindE (read_u8 packet 0) (\<lambda>first.
       if first AND 0x20 \<noteq> 0 \<and> packets \<noteq> []
       then make_error ''rtcp compound padding is only allowed on final member''
       else let has_sdes = (has_sdes \<or> packet_type = k_rtcp_packet_type_sdes) in
         if total_size > maximum_size \<or> length packet > maximum_size - total_size
         then make_error ''rtcp compound packet exceeds maximum size''
         else check_compound_members packets maximum_size (index + 1)
                (total_size + length packet) has_sdes))"

definition build_rtcp_compound_packet :: "bytes list \<Rightarrow> nat \<Rightarrow> bytes result" where
  "build_rtcp_compound_packet packets maximum_size =
     (if packets = [] then make_error ''rtcp compound packet list is empty''
      else if maximum_size < k_rtcp_common_header_size
      then make_error ''rtcp compound maximum size is too small''
      else bindE (check_compound_members packets maximum_size 0 0 False) (\<lambda>has_sdes.
        if \<not> has_sdes then make_error ''rtcp compound packet is missing sdes''
        else Inr (concat packets)))"

definition build_rtcp_feedback_datagram ::
  "bytes \<Rightarrow> u32 \<Rightarrow> bytes \<Rightarrow> bool \<Rightarrow> nat \<Rightarrow> bytes result" where
  "build_rtcp_feedback_datagram feedback_packet sender_ssrc cname reduced_size maximum_size =
     (if sender_ssrc = 0 then make_error ''rtcp feedback sender ssrc is zero''
      else bindE (validate_rtcp_packet feedback_packet) (\<lambda>packet_type.
        if packet_type \<noteq> k_rtcp_packet_type_transport_feedback
           \<and> packet_type \<noteq> k_rtcp_packet_type_payload_feedback
        then make_error ''rtcp feedback datagram member is not a feedback packet''
        else bindE (if length feedback_packet < k_rtcp_feedback_header_size then Inr True
                    else bindE (read_u32 feedback_packet 4) (\<lambda>s. Inr (s \<noteq> sender_ssrc))) (\<lambda>mismatch.
          if mismatch
          then make_error ''rtcp feedback sender ssrc does not match datagram sender''
          else if reduced_size then
            if length feedback_packet > maximum_size
            then make_error ''rtcp reduced-size feedback exceeds maximum size''
            else Inr feedback_packet
          else
            bindE (build_rtcp_receiver_report
                     \<lparr>rr_sender_ssrc = sender_ssrc, rr_report_blocks = []\<rparr>) (\<lambda>receiver_report.
            bindE (build_rtcp_sdes_cname sender_ssrc cname) (\<lambda>sdes.
            build_rtcp_compound_packet [receiver_report, sdes, feedback_packet] maximum_size)))))"

fun write_bye_ssrcs :: "bytes \<Rightarrow> nat \<Rightarrow> u32 list \<Rightarrow> (bytes \<times> nat) result" where
  "write_bye_ssrcs packet offset [] = Inr (packet, offset)"
| "write_bye_ssrcs packet offset (ssrc # ssrcs) =
     bindE (write_u32 packet offset ssrc) (\<lambda>packet.
     write_bye_ssrcs packet (offset + 4) ssrcs)"

definition build_rtcp_bye :: "u32 list \<Rightarrow> bytes \<Rightarrow> bytes result" where
  "build_rtcp_bye ssrcs reason =
     (if ssrcs = [] then make_error ''rtcp bye ssrc list is empty''
      else if length ssrcs > k_rtcp_max_count
      then make_error ''rtcp bye ssrc count exceeds five-bit field''
      else if length reason > uint8_max
      then make_error ''rtcp bye reason exceeds eight-bit length field''
      else if 0 \<in> set ssrcs then make_error ''rtcp bye ssrc is zero''
      else let unaligned_size = k_rtcp_common_header_size + length ssrcs * 4
                 + (if reason \<noteq> [] then 1 + length reason else 0);
               packet_size = align4 unaligned_size in
        bindE (write_common_header (replicate packet_size 0) (of_nat (length ssrcs))
                 k_rtcp_packet_type_bye) (\<lambda>packet.
        bindE (write_bye_ssrcs packet k_rtcp_common_header_size ssrcs) (\<lambda>(packet, offset).
        if reason \<noteq> [] then
          bindE (write_u8 packet offset (of_nat (length reason))) (\<lambda>packet.
          write_bytes packet (offset + 1) reason)
        else Inr packet)))"

definition build_rtcp_bye_datagram ::
  "bytes \<Rightarrow> u32 \<Rightarrow> bytes \<Rightarrow> u32 list \<Rightarrow> bytes \<Rightarrow> nat \<Rightarrow> bytes result" where
  "build_rtcp_bye_datagram report_packet participant_ssrc cname bye_ssrcs reason maximum_size =
     (if participant_ssrc = 0 then make_error ''rtcp bye participant ssrc is zero''
      else if cname = [] then make_error ''rtcp bye cname is empty''
      else bindE (validate_rtcp_packet report_packet) (\<lambda>packet_type.
        bindE (if (packet_type \<noteq> k_rtcp_packet_type_sender_report
                   \<and> packet_type \<noteq> k_rtcp_packet_type_receiver_report)
                  \<or> length report_packet < 8 then Inr True
               else bindE (read_u32 report_packet 4) (\<lambda>s. Inr (s \<noteq> participant_ssrc))) (\<lambda>mismatch.
        if mismatch then make_error ''rtcp bye report sender does not match participant''
        else
          bindE (build_rtcp_sdes_cname participant_ssrc cname) (\<lambda>sdes.
          bindE (build_rtcp_bye bye_ssrcs reason) (\<lambda>bye.
          build_rtcp_compound_packet [report_packet, sdes, bye] maximum_size)))))"

text \<open>Specification: the common header of an unpadded packet of \<open>n\<close> bytes.\<close>

definition rtcp_header_bytes :: "u8 \<Rightarrow> u8 \<Rightarrow> nat \<Rightarrow> bytes" where
  "rtcp_header_bytes count packet_type n =
     [0x80 OR count, packet_type] @ enc_u16 (of_nat (n div 4 - 1))"

text \<open>
  Specification: the wire form of each packet a builder produces, and of the arguments for which
  it produces one.
\<close>

definition sender_report_bytes :: "rtcp_sender_report_data \<Rightarrow> bytes" where
  "sender_report_bytes r =
     rtcp_header_bytes (of_nat (length (sr_report_blocks r))) 200 (28 + length (sr_report_blocks r) * 24)
     @ enc_u32 (sr_sender_ssrc r)
     @ enc_sender_info \<lparr>ntp_timestamp_msw = ucast (drop_bit 32 (sr_ntp_timestamp r)),
         ntp_timestamp_lsw = ucast (sr_ntp_timestamp r), info_rtp_timestamp = sr_rtp_timestamp r,
         info_sender_packet_count = sr_sender_packet_count r,
         info_sender_octet_count = sr_sender_octet_count r\<rparr>
     @ concat (map enc_report_block (sr_report_blocks r))"

definition receiver_report_bytes :: "rtcp_receiver_report_data \<Rightarrow> bytes" where
  "receiver_report_bytes r =
     rtcp_header_bytes (of_nat (length (rr_report_blocks r))) 201 (8 + length (rr_report_blocks r) * 24)
     @ enc_u32 (rr_sender_ssrc r) @ concat (map enc_report_block (rr_report_blocks r))"

definition reportable :: "u32 \<Rightarrow> rtcp_report_block list \<Rightarrow> bool" where
  "reportable ssrc blocks \<longleftrightarrow>
     ssrc \<noteq> 0 \<and> length blocks \<le> 31 \<and> list_all (\<lambda>b. fits_i24 (cumulative_lost b)) blocks"

definition sdes_cname_bytes :: "u32 \<Rightarrow> bytes \<Rightarrow> bytes" where
  "sdes_cname_bytes ssrc cname =
     (let n = align4 (11 + length cname) in
      rtcp_header_bytes 1 202 n @ enc_u32 ssrc @ [1, of_nat (length cname)] @ cname
      @ replicate (n - 10 - length cname) 0)"

definition bye_bytes :: "u32 list \<Rightarrow> bytes \<Rightarrow> bytes" where
  "bye_bytes ssrcs reason =
     (let tail = (if reason = [] then [] else of_nat (length reason) # reason);
          n = align4 (4 + length ssrcs * 4 + length tail) in
      rtcp_header_bytes (of_nat (length ssrcs)) 203 n @ concat (map enc_u32 ssrcs) @ tail
      @ replicate (n - (4 + length ssrcs * 4 + length tail)) 0)"

definition enc_fir_request :: "rtcp_fir_request \<Rightarrow> bytes" where
  "enc_fir_request f = enc_u32 (fir_media_ssrc f) @ [fir_sequence_number f, 0, 0, 0]"

definition fir_bytes :: "u32 \<Rightarrow> rtcp_fir_request list \<Rightarrow> bytes" where
  "fir_bytes sender_ssrc requests =
     rtcp_header_bytes 4 206 (12 + length requests * 8) @ enc_u32 sender_ssrc @ enc_u32 0
     @ concat (map enc_fir_request requests)"

definition pli_bytes :: "u32 \<Rightarrow> u32 \<Rightarrow> bytes" where
  "pli_bytes sender_ssrc media_ssrc =
     rtcp_header_bytes 1 206 12 @ enc_u32 sender_ssrc @ enc_u32 media_ssrc"

section \<open>The common header\<close>

lemma rtcp_header_bytes_length [simp]: "length (rtcp_header_bytes c t n) = 4"
  by (simp add: rtcp_header_bytes_def)

lemma write_common_header_zeros:
  assumes "4 \<le> n" and "n mod 4 = 0" and "unat count \<le> 31" and "n div 4 \<le> 65536"
  shows "write_common_header (replicate n 0) count t =
    Inr (rtcp_header_bytes count t n @ replicate (n - 4) 0)"
  using assms
  by (simp add: write_common_header_def rtcp_header_bytes_def Let_def wire) arith

lemma first_byte_bits:
  assumes "unat (c :: u8) \<le> 31"
  shows "drop_bit 6 (0x80 OR c) = 2" and "(0x80 OR c) AND 0x20 = 0" and "(0x80 OR c) AND 0x1F = c"
    and "128 \<le> 0x80 OR c" and "0x80 OR c \<le> 191"
proof -
  define k where "k = unat c"
  have c: "c = of_nat k" and "k \<in> set [0..<32]" using assms by (auto simp: k_def)
  then show "drop_bit 6 (0x80 OR c) = 2" "(0x80 OR c) AND 0x20 = 0" "(0x80 OR c) AND 0x1F = c"
    "128 \<le> 0x80 OR c" "0x80 OR c \<le> 191"
    unfolding c by (auto simp: upt_rec)
qed

lemma unat_words:
  assumes "4 \<le> n" and "n mod 4 = 0" and "n div 4 \<le> 65536"
  shows "(unat (of_nat (n div 4 - 1) :: u16) + 1) * 4 = n"
proof -
  have "unat (of_nat (n div 4 - 1) :: u16) = n div 4 - 1"
    using assms(3) by (simp add: unat_of_nat)
  then show ?thesis using assms(1,2) by presburger
qed

lemma parse_rtcp_packet_header_built:
  assumes "8 \<le> n" and "n mod 4 = 0" and "n div 4 \<le> 65536" and "unat c \<le> 31"
    and "192 \<le> t" and "t \<le> 223" and "n \<le> 8 + length xs"
  shows "parse_rtcp_packet_header (rtcp_header_bytes c t n @ enc_u32 s @ xs) =
    Inr \<lparr>rtcp_padding = False, rtcp_count = c, rtcp_packet_type = t,
         rtcp_length = of_nat (n div 4 - 1), packet_size = n, has_ssrc = True, rtcp_ssrc = s\<rparr>"
proof -
  note b = first_byte_bits [OF assms(4)]
  have "(unat (of_nat (n div 4 - 1) :: u16) + 1) * 4 = n"
    using assms by (intro unat_words) auto
  then show ?thesis
    using assms b
    by (simp add: parse_rtcp_packet_header_def rtcp_header_bytes_def has_rtp_version_def
        is_rtcp_packet_def is_rtp_or_rtcp_packet_def Let_def wire del: access)
qed

section \<open>Sender and receiver reports\<close>

lemma write_report_blocks_zeros:
  assumes "\<forall>b \<in> set bs. fits_i24 (cumulative_lost b)" and "length xs = off"
    and "length bs * 24 \<le> n"
  shows "write_report_blocks (xs @ replicate n 0) off bs =
    Inr (xs @ concat (map enc_report_block bs) @ replicate (n - length bs * 24) 0)"
  using assms
proof (induction bs arbitrary: xs off n)
  case Nil
  then show ?case by simp
next
  case (Cons b bs)
  have "write_report_blocks ((xs @ enc_report_block b) @ replicate (n - 24) 0) (off + 24) bs =
    Inr ((xs @ enc_report_block b) @ concat (map enc_report_block bs)
      @ replicate (n - 24 - length bs * 24) 0)"
    by (rule Cons.IH) (use Cons.prems in auto)
  then show ?case
    using Cons.prems by (simp add: enc_report_block_def [of b] fits_i24_def wire)
qed

lemma write_report_blocks_rejects:
  assumes "b \<in> set bs" and "\<not> fits_i24 (cumulative_lost b)"
  shows "\<not> ok (write_report_blocks packet off bs)"
  using assms
  by (induction packet off bs rule: write_report_blocks.induct)
    (auto simp: fits_i24_def ok_iff bindE_Inr_iff not_le)

lemma unat_small: "n \<le> 31 \<Longrightarrow> unat (of_nat n :: u8) = n"
  by (simp add: unat_of_nat)

lemma build_rtcp_receiver_report_eq:
  assumes "reportable (rr_sender_ssrc r) (rr_report_blocks r)"
  shows "build_rtcp_receiver_report r = Inr (receiver_report_bytes r)"
proof -
  let ?n = "length (rr_report_blocks r)"
  from assms have n: "?n \<le> 31" and "rr_sender_ssrc r \<noteq> 0"
    and fit: "\<forall>b \<in> set (rr_report_blocks r). fits_i24 (cumulative_lost b)"
    by (auto simp: reportable_def list_all_iff)
  have h: "write_common_header (replicate (8 + ?n * 24) 0) (of_nat ?n) 201 =
      Inr (rtcp_header_bytes (of_nat ?n) 201 (8 + ?n * 24) @ replicate (4 + ?n * 24) 0)"
    using n by (subst write_common_header_zeros) (auto simp: unat_small mod_mult_right_eq)
  have "write_report_blocks ((rtcp_header_bytes (of_nat ?n) 201 (8 + ?n * 24)
      @ enc_u32 (rr_sender_ssrc r)) @ replicate (?n * 24) 0) 8 (rr_report_blocks r) =
      Inr (receiver_report_bytes r)"
    by (subst write_report_blocks_zeros) (use fit in \<open>auto simp: receiver_report_bytes_def\<close>)
  then show ?thesis
    using assms h
    by (simp add: build_rtcp_receiver_report_def validate_report_def reportable_def Let_def wire
        add.commute)
qed

lemma build_rtcp_sender_report_eq:
  assumes "reportable (sr_sender_ssrc r) (sr_report_blocks r)"
  shows "build_rtcp_sender_report r = Inr (sender_report_bytes r)"
proof -
  let ?n = "length (sr_report_blocks r)"
  from assms have n: "?n \<le> 31"
    and fit: "\<forall>b \<in> set (sr_report_blocks r). fits_i24 (cumulative_lost b)"
    by (auto simp: reportable_def list_all_iff)
  have h: "write_common_header (replicate (28 + ?n * 24) 0) (of_nat ?n) 200 =
      Inr (rtcp_header_bytes (of_nat ?n) 200 (28 + ?n * 24) @ replicate (24 + ?n * 24) 0)"
    using n by (subst write_common_header_zeros) (auto simp: unat_small mod_mult_right_eq)
  have "write_report_blocks ((rtcp_header_bytes (of_nat ?n) 200 (28 + ?n * 24)
      @ enc_u32 (sr_sender_ssrc r) @ enc_u32 (ucast (drop_bit 32 (sr_ntp_timestamp r)))
      @ enc_u32 (ucast (sr_ntp_timestamp r)) @ enc_u32 (sr_rtp_timestamp r)
      @ enc_u32 (sr_sender_packet_count r) @ enc_u32 (sr_sender_octet_count r))
      @ replicate (?n * 24) 0) 28 (sr_report_blocks r) = Inr (sender_report_bytes r)"
    by (subst write_report_blocks_zeros)
      (use fit in \<open>auto simp: sender_report_bytes_def enc_sender_info_def\<close>)
  then show ?thesis
    using assms h
    by (simp add: build_rtcp_sender_report_def validate_report_def reportable_def Let_def wire
        add.commute)
qed

lemma concat_enc_report_block_length [simp]:
  "length (concat (map enc_report_block bs)) = length bs * 24"
  by (induction bs) auto

lemma parse_receiver_report_bytes:
  assumes "reportable (rr_sender_ssrc r) (rr_report_blocks r)"
  shows "parse_rtcp_report_packet (receiver_report_bytes r) =
    Inr \<lparr>report_packet_type = 201, report_sender_ssrc = rr_sender_ssrc r,
         sender_info = None, report_blocks = rr_report_blocks r\<rparr>"
proof -
  let ?n = "length (rr_report_blocks r)"
  from assms have n: "?n \<le> 31"
    and fit: "\<forall>b \<in> set (rr_report_blocks r). fits_i24 (cumulative_lost b)"
    by (auto simp: reportable_def list_all_iff)
  let ?h = "rtcp_header_bytes (of_nat ?n) 201 (8 + ?n * 24)"
  have "parse_report_blocks ((?h @ enc_u32 (rr_sender_ssrc r))
      @ concat (map enc_report_block (rr_report_blocks r)) @ []) 8 0 ?n = Inr (rr_report_blocks r)"
    by (rule parse_report_blocks_enc) (use fit in auto)
  then show ?thesis
    using n
    by (simp add: parse_rtcp_report_packet_def receiver_report_bytes_def
        parse_rtcp_packet_header_built is_report_packet_type_def rtcp_report_payload_end_def
        unat_small mod_mult_right_eq Let_def wire del: access)
qed

lemma parse_sender_report_bytes:
  assumes "reportable (sr_sender_ssrc r) (sr_report_blocks r)"
  shows "parse_rtcp_report_packet (sender_report_bytes r) =
    Inr \<lparr>report_packet_type = 200, report_sender_ssrc = sr_sender_ssrc r,
         sender_info = Some \<lparr>ntp_timestamp_msw = ucast (drop_bit 32 (sr_ntp_timestamp r)),
           ntp_timestamp_lsw = ucast (sr_ntp_timestamp r), info_rtp_timestamp = sr_rtp_timestamp r,
           info_sender_packet_count = sr_sender_packet_count r,
           info_sender_octet_count = sr_sender_octet_count r\<rparr>,
         report_blocks = sr_report_blocks r\<rparr>"
proof -
  let ?n = "length (sr_report_blocks r)"
  from assms have n: "?n \<le> 31"
    and fit: "\<forall>b \<in> set (sr_report_blocks r). fits_i24 (cumulative_lost b)"
    by (auto simp: reportable_def list_all_iff)
  let ?h = "rtcp_header_bytes (of_nat ?n) 200 (28 + ?n * 24)"
  let ?info = "\<lparr>ntp_timestamp_msw = ucast (drop_bit 32 (sr_ntp_timestamp r)),
    ntp_timestamp_lsw = ucast (sr_ntp_timestamp r), info_rtp_timestamp = sr_rtp_timestamp r,
    info_sender_packet_count = sr_sender_packet_count r,
    info_sender_octet_count = sr_sender_octet_count r\<rparr>"
  let ?blocks = "concat (map enc_report_block (sr_report_blocks r))"
  have blocks: "parse_report_blocks ((?h @ enc_u32 (sr_sender_ssrc r) @ enc_sender_info ?info)
      @ ?blocks @ []) 28 0 ?n = Inr (sr_report_blocks r)"
    by (rule parse_report_blocks_enc) (use fit in auto)
  have info: "parse_sender_info ((?h @ enc_u32 (sr_sender_ssrc r)) @ enc_sender_info ?info @ ?blocks) 8 =
      Inr ?info"
    by (rule parse_sender_info_enc) simp
  have mod: "(28 + ?n * 24) mod 4 = 0" by presburger
  show ?thesis
    using n blocks info mod
    by (simp add: parse_rtcp_report_packet_def sender_report_bytes_def
        parse_rtcp_packet_header_built is_report_packet_type_def rtcp_report_payload_end_def
        unat_small Let_def wire del: access)
qed

section \<open>SDES, BYE, PLI and FIR\<close>

lemma build_rtcp_sdes_cname_eq:
  assumes "ssrc \<noteq> 0" and "cname \<noteq> []" and "length cname \<le> 255"
  shows "build_rtcp_sdes_cname ssrc cname = Inr (sdes_cname_bytes ssrc cname)"
proof -
  define n where "n = align4 (11 + length cname)"
  have n: "11 + length cname \<le> n" "n < 15 + length cname" "n mod 4 = 0"
    using align4_bounds [of "11 + length cname"] by (simp_all add: n_def)
  then obtain k where k: "n - 10 - length cname = Suc k" by (cases "n - 10 - length cname") auto
  have "write_common_header (replicate n 0) 1 202 =
      Inr (rtcp_header_bytes 1 202 n @ replicate (n - 4) 0)"
    using n assms(3) by (intro write_common_header_zeros) auto
  then show ?thesis
    using assms n k
    by (simp add: build_rtcp_sdes_cname_def sdes_cname_bytes_def Let_def wire flip: n_def)
qed

lemma concat_enc_u32_length [simp]: "length (concat (map enc_u32 ss)) = length ss * 4"
  by (induction ss) auto

lemma write_bye_ssrcs_zeros:
  assumes "length xs = off" and "length ss * 4 \<le> n"
  shows "write_bye_ssrcs (xs @ replicate n 0) off ss =
    Inr (xs @ concat (map enc_u32 ss) @ replicate (n - length ss * 4) 0, off + length ss * 4)"
  using assms
proof (induction ss arbitrary: xs off n)
  case Nil
  then show ?case by simp
next
  case (Cons a ss)
  have "write_bye_ssrcs ((xs @ enc_u32 a) @ replicate (n - 4) 0) (off + 4) ss =
    Inr ((xs @ enc_u32 a) @ concat (map enc_u32 ss) @ replicate (n - 4 - length ss * 4) 0,
      off + 4 + length ss * 4)"
    by (rule Cons.IH) (use Cons.prems in auto)
  then show ?case using Cons.prems by (simp add: wire)
qed

lemma build_rtcp_bye_eq:
  assumes "ssrcs \<noteq> []" and "length ssrcs \<le> 31" and "length reason \<le> 255" and "0 \<notin> set ssrcs"
  shows "build_rtcp_bye ssrcs reason = Inr (bye_bytes ssrcs reason)"
proof -
  define tail where "tail = (if reason = [] then [] else of_nat (length reason) # reason)"
  define n where "n = align4 (4 + length ssrcs * 4 + length tail)"
  have n: "4 + length ssrcs * 4 + length tail \<le> n" "n < 8 + length ssrcs * 4 + length tail"
    "n mod 4 = 0"
    using align4_bounds [of "4 + length ssrcs * 4 + length tail"] by (simp_all add: n_def)
  have tail: "length tail \<le> 256" using assms(3) by (simp add: tail_def)
  have size: "4 + length ssrcs * 4 + (if reason \<noteq> [] then 1 + length reason else 0) =
      4 + length ssrcs * 4 + length tail"
    by (simp add: tail_def)
  have "write_common_header (replicate n 0) (of_nat (length ssrcs)) 203 =
      Inr (rtcp_header_bytes (of_nat (length ssrcs)) 203 n @ replicate (n - 4) 0)"
    using n tail assms(2) by (intro write_common_header_zeros) (auto simp: unat_small)
  moreover have "write_bye_ssrcs (rtcp_header_bytes (of_nat (length ssrcs)) 203 n
      @ replicate (n - 4) 0) 4 ssrcs =
      Inr (rtcp_header_bytes (of_nat (length ssrcs)) 203 n @ concat (map enc_u32 ssrcs)
        @ replicate (n - 4 - length ssrcs * 4) 0, 4 + length ssrcs * 4)"
    using n by (intro write_bye_ssrcs_zeros) auto
  ultimately show ?thesis
    using assms n unfolding build_rtcp_bye_def bye_bytes_def Let_def size
    by (simp flip: tail_def n_def) (auto simp: tail_def wire)
qed

lemma build_rtcp_picture_loss_indication_eq:
  assumes "sender \<noteq> 0" and "media \<noteq> 0"
  shows "build_rtcp_picture_loss_indication sender media = Inr (pli_bytes sender media)"
  using assms write_common_header_zeros [of 12 1 206]
  by (simp add: build_rtcp_picture_loss_indication_def pli_bytes_def wire)

lemma enc_fir_request_length [simp]: "length (enc_fir_request f) = 8"
  by (simp add: enc_fir_request_def)

lemma write_fir_entries_zeros:
  assumes "list_all (\<lambda>f. fir_media_ssrc f \<noteq> 0) fs" and "length xs = off" and "length fs * 8 \<le> n"
  shows "write_fir_entries (xs @ replicate n 0) off fs =
    Inr (xs @ concat (map enc_fir_request fs) @ replicate (n - length fs * 8) 0)"
  using assms
proof (induction fs arbitrary: xs off n)
  case Nil
  then show ?case by simp
next
  case (Cons f fs)
  then obtain m where m: "n = 8 + m" by (auto simp: nat_le_iff_add)
  have "replicate (3 + m) (0 :: u8) = [0, 0, 0] @ replicate m 0"
    by (simp add: numeral_3_eq_3)
  moreover have "write_fir_entries ((xs @ enc_fir_request f) @ replicate m 0) (off + 8) fs =
    Inr ((xs @ enc_fir_request f) @ concat (map enc_fir_request fs)
      @ replicate (m - length fs * 8) 0)"
    by (rule Cons.IH) (use Cons.prems m in auto)
  ultimately show ?case
    using Cons.prems m by (simp add: wire enc_fir_request_def [of f])
qed

lemma build_rtcp_full_intra_request_eq:
  assumes "sender \<noteq> 0" and "fs \<noteq> []" and "length fs \<le> 32766"
    and "list_all (\<lambda>f. fir_media_ssrc f \<noteq> 0) fs"
  shows "build_rtcp_full_intra_request sender fs = Inr (fir_bytes sender fs)"
proof -
  let ?n = "12 + length fs * 8"
  have mod: "?n mod 4 = 0" by presburger
  have "write_common_header (replicate ?n 0) 4 206 =
      Inr (rtcp_header_bytes 4 206 ?n @ replicate (?n - 4) 0)"
    using assms(3) mod by (intro write_common_header_zeros) auto
  moreover have "write_fir_entries ((rtcp_header_bytes 4 206 ?n @ enc_u32 sender @ enc_u32 0)
      @ replicate (length fs * 8) 0) 12 fs = Inr (fir_bytes sender fs)"
    by (subst write_fir_entries_zeros) (use assms in \<open>auto simp: fir_bytes_def\<close>)
  ultimately show ?thesis
    using assms by (simp add: build_rtcp_full_intra_request_def Let_def wire)
qed

section \<open>Compound packets\<close>

lemma validate_rtcp_packet_safe [safe]: "fault_free (validate_rtcp_packet p)"
  by (cases p) (auto simp: validate_rtcp_packet_def)

lemma validate_rtcp_packetE:
  assumes "validate_rtcp_packet p = Inr t"
  obtains "4 \<le> length p" and "t = p ! 1" and "drop_bit 6 (p ! 0) = 2"
    and "(unat (be16 (p ! 2) (p ! 3)) + 1) * 4 = length p"
  using assms
  by (intro that; cases p)
    (auto simp: validate_rtcp_packet_def bindE_Inr_iff numeral_2_eq_2 numeral_3_eq_3 split: if_splits)

lemma check_compound_members_iff:
  assumes "acc \<le> bound"
  shows "check_compound_members ps bound idx acc sdes = Inr r \<longleftrightarrow>
    list_all (\<lambda>p. ok (validate_rtcp_packet p)) ps
    \<and> (idx = 0 \<and> ps \<noteq> [] \<longrightarrow> hd ps ! 1 = 200 \<or> hd ps ! 1 = 201)
    \<and> list_all (\<lambda>p. p ! 0 AND 0x20 = 0) (butlast ps)
    \<and> acc + length (concat ps) \<le> bound
    \<and> r = (sdes \<or> list_ex (\<lambda>p. p ! 1 = 202) ps)"
  using assms
proof (induction ps bound idx acc sdes rule: check_compound_members.induct)
  case (1 bound idx acc sdes)
  then show ?case by auto
next
  case (2 p ps bound idx acc sdes)
  show ?case
  proof (cases "validate_rtcp_packet p")
    case (Inl e)
    then show ?thesis by simp
  next
    case (Inr t)
    then have t: "t = p ! 1" and p0: "read_u8 p 0 = Inr (p ! 0)"
      by (auto elim!: validate_rtcp_packetE simp: Suc_le_eq intro!: read_u8_first)
    let ?start = "idx = 0 \<and> t \<noteq> 200 \<and> t \<noteq> 201"
    let ?pad = "p ! 0 AND 0x20 \<noteq> 0 \<and> ps \<noteq> []"
    let ?big = "acc > bound \<or> length p > bound - acc"
    have rejects: "\<not> ok (check_compound_members (p # ps) bound idx acc sdes)"
      if "?start \<or> ?pad \<or> ?big"
      using that Inr p0 by (auto simp: Let_def)
    show ?thesis
    proof (cases "?start \<or> ?pad \<or> ?big")
      case True
      with rejects have "check_compound_members (p # ps) bound idx acc sdes \<noteq> Inr r"
        by (auto simp: ok_iff)
      with True t "2.prems" show ?thesis by (cases "ps = []") auto
    next
      case False
      then have "acc + length p \<le> bound" by auto
      with False have IH: "check_compound_members ps bound (idx + 1) (acc + length p)
          (sdes \<or> t = 202) = Inr r \<longleftrightarrow>
        list_all (\<lambda>p. ok (validate_rtcp_packet p)) ps
        \<and> list_all (\<lambda>p. p ! 0 AND 0x20 = 0) (butlast ps)
        \<and> acc + length p + length (concat ps) \<le> bound
        \<and> r = ((sdes \<or> t = 202) \<or> list_ex (\<lambda>p. p ! 1 = 202) ps)"
        using "2.IH" [OF Inr _ p0] by simp
      have step: "check_compound_members (p # ps) bound idx acc sdes =
          check_compound_members ps bound (idx + 1) (acc + length p) (sdes \<or> t = 202)"
        using False Inr p0 by (auto simp: Let_def)
      show ?thesis
        unfolding step IH using False Inr t by (cases "ps = []") (auto simp: add.assoc)
    qed
  qed
qed

lemma build_rtcp_compound_packet_iff:
  "build_rtcp_compound_packet ps bound = Inr c \<longleftrightarrow>
    c = concat ps \<and> ps \<noteq> [] \<and> 4 \<le> bound \<and> length c \<le> bound
    \<and> list_all (\<lambda>p. ok (validate_rtcp_packet p)) ps
    \<and> (hd ps ! 1 = 200 \<or> hd ps ! 1 = 201)
    \<and> list_all (\<lambda>p. p ! 0 AND 0x20 = 0) (butlast ps)
    \<and> list_ex (\<lambda>p. p ! 1 = 202) ps"
  by (auto simp: build_rtcp_compound_packet_def bindE_Inr_iff check_compound_members_iff
      split: if_splits)

lemma check_compound_members_safe: "fault_free (check_compound_members ps bound idx acc sdes)"
proof (induction ps bound idx acc sdes rule: check_compound_members.induct)
  case (2 p ps bound idx acc sdes)
  show ?case
    unfolding check_compound_members.simps Let_def
    by (intro fault_free_bindE fault_free_if safe "2.IH")
      (auto elim!: validate_rtcp_packetE)
qed simp

section \<open>Memory safety of the builders\<close>

lemma write_common_header_safe [safe]: "fault_free (write_common_header p c t)"
  by (cases "length p < 4") (auto simp: write_common_header_def Let_def dest!: write_lengths
      intro!: safe)

lemma write_common_header_length: "write_common_header p c t = Inr q \<Longrightarrow> length q = length p"
  by (auto simp: write_common_header_def Let_def bindE_Inr_iff dest!: write_lengths split: if_splits)

lemmas builder_lengths = write_lengths write_common_header_length

lemma write_report_blocks_safe [safe]: "fault_free (write_report_blocks p off bs)"
proof (induction p off bs rule: write_report_blocks.induct)
  case (2 p off b bs)
  show ?case
    unfolding write_report_blocks.simps
    by (intro fault_free_bindE fault_free_if safe "2.IH") (auto dest!: write_lengths)
qed simp

lemma build_rtcp_sender_report_safe [safe]: "fault_free (build_rtcp_sender_report r)"
  unfolding build_rtcp_sender_report_def Let_def
  by (intro fault_free_bindE write_report_blocks_safe write_common_header_safe u32f.wr_safe)
    (auto simp: validate_report_def dest!: builder_lengths)

lemma build_rtcp_receiver_report_safe [safe]: "fault_free (build_rtcp_receiver_report r)"
  unfolding build_rtcp_receiver_report_def Let_def
  by (intro fault_free_bindE write_report_blocks_safe write_common_header_safe u32f.wr_safe)
    (auto simp: validate_report_def dest!: builder_lengths)

lemma build_rtcp_sdes_cname_safe [safe]: "fault_free (build_rtcp_sdes_cname ssrc cname)"
proof (cases "ssrc \<noteq> 0 \<and> cname \<noteq> [] \<and> length cname \<le> 255")
  case True
  then show ?thesis using build_rtcp_sdes_cname_eq [of ssrc cname] by simp
qed (auto simp: build_rtcp_sdes_cname_def)

lemma build_rtcp_bye_safe [safe]: "fault_free (build_rtcp_bye ssrcs reason)"
proof (cases "ssrcs \<noteq> [] \<and> length ssrcs \<le> 31 \<and> length reason \<le> 255 \<and> 0 \<notin> set ssrcs")
  case True
  then show ?thesis using build_rtcp_bye_eq [of ssrcs reason] by simp
qed (auto simp: build_rtcp_bye_def)

lemma build_rtcp_pli_safe [safe]: "fault_free (build_rtcp_picture_loss_indication s m)"
proof (cases "s \<noteq> 0 \<and> m \<noteq> 0")
  case True
  then show ?thesis using build_rtcp_picture_loss_indication_eq [of s m] by simp
qed (auto simp: build_rtcp_picture_loss_indication_def)

lemma write_fir_entries_safe:
  "off + length fs * 8 \<le> length p \<Longrightarrow> fault_free (write_fir_entries p off fs)"
proof (induction p off fs rule: write_fir_entries.induct)
  case (2 p off f fs)
  show ?case
    unfolding write_fir_entries.simps
    by (intro fault_free_bindE fault_free_if safe "2.IH")
      (use "2.prems" in \<open>auto dest!: write_lengths\<close>)
qed simp

lemma build_rtcp_fir_safe [safe]: "fault_free (build_rtcp_full_intra_request s fs)"
  unfolding build_rtcp_full_intra_request_def Let_def
  by (intro fault_free_if fault_free_bindE write_fir_entries_safe write_common_header_safe
      u32f.wr_safe) (auto dest!: builder_lengths)

lemma build_rtcp_compound_packet_safe [safe]: "fault_free (build_rtcp_compound_packet ps bound)"
  by (auto simp: build_rtcp_compound_packet_def intro!: fault_free_bindE check_compound_members_safe)

lemma build_rtcp_feedback_datagram_safe [safe]:
  "fault_free (build_rtcp_feedback_datagram p s cname reduced bound)"
  unfolding build_rtcp_feedback_datagram_def Let_def
  by (intro fault_free_if fault_free_bindE safe) auto

lemma build_rtcp_bye_datagram_safe [safe]:
  "fault_free (build_rtcp_bye_datagram p s cname ssrcs reason bound)"
  unfolding build_rtcp_bye_datagram_def Let_def
  by (intro fault_free_if fault_free_bindE safe) auto

section \<open>Properties\<close>

text \<open>
  A sender report is read back exactly as it was built: all fields, the 64-bit NTP timestamp
  in its two halves and every report block with its signed 24-bit loss counter.
\<close>

theorem sender_report_round_trip:
  assumes "reportable (sr_sender_ssrc r) (sr_report_blocks r)"
  shows "bindE (build_rtcp_sender_report r) parse_rtcp_report_packet =
    Inr \<lparr>report_packet_type = 200, report_sender_ssrc = sr_sender_ssrc r,
         sender_info = Some \<lparr>ntp_timestamp_msw = ucast (drop_bit 32 (sr_ntp_timestamp r)),
           ntp_timestamp_lsw = ucast (sr_ntp_timestamp r), info_rtp_timestamp = sr_rtp_timestamp r,
           info_sender_packet_count = sr_sender_packet_count r,
           info_sender_octet_count = sr_sender_octet_count r\<rparr>,
         report_blocks = sr_report_blocks r\<rparr>"
  by (simp add: build_rtcp_sender_report_eq [OF assms] parse_sender_report_bytes [OF assms])

theorem sender_report_round_trip_witness:
  "ok (bindE (build_rtcp_sender_report \<lparr>sr_sender_ssrc = 7, sr_ntp_timestamp = 0x1122334455667788,
      sr_rtp_timestamp = 90000, sr_sender_packet_count = 3, sr_sender_octet_count = 4,
      sr_report_blocks = [\<lparr>source_ssrc = 9, fraction_lost = 12, cumulative_lost = -5,
        extended_highest_sequence_number = 77, jitter = 2, last_sender_report = 3,
        delay_since_last_sender_report = 4\<rparr>]\<rparr>) parse_rtcp_report_packet)"
  by (subst sender_report_round_trip) (simp_all add: reportable_def fits_i24_def)

text \<open>
  A receiver report is read back exactly as it was built, and the builder accepts exactly the
  reports that fit the wire format: a non-zero sender, at most 31 blocks, and loss counters in
  the signed 24-bit range.
\<close>

theorem receiver_report_round_trip:
  "bindE (build_rtcp_receiver_report r) parse_rtcp_report_packet =
     Inr \<lparr>report_packet_type = 201, report_sender_ssrc = rr_sender_ssrc r, sender_info = None,
          report_blocks = rr_report_blocks r\<rparr>
   \<longleftrightarrow> reportable (rr_sender_ssrc r) (rr_report_blocks r)"
proof
  assume "reportable (rr_sender_ssrc r) (rr_report_blocks r)"
  then show "bindE (build_rtcp_receiver_report r) parse_rtcp_report_packet =
     Inr \<lparr>report_packet_type = 201, report_sender_ssrc = rr_sender_ssrc r, sender_info = None,
          report_blocks = rr_report_blocks r\<rparr>"
    by (simp add: build_rtcp_receiver_report_eq parse_receiver_report_bytes)
next
  assume "bindE (build_rtcp_receiver_report r) parse_rtcp_report_packet =
     Inr \<lparr>report_packet_type = 201, report_sender_ssrc = rr_sender_ssrc r, sender_info = None,
          report_blocks = rr_report_blocks r\<rparr>"
  then have built: "ok (build_rtcp_receiver_report r)" by (auto simp: bindE_Inr_iff ok_iff)
  then have "rr_sender_ssrc r \<noteq> 0" "length (rr_report_blocks r) \<le> 31"
    by (auto simp: build_rtcp_receiver_report_def validate_report_def ok_iff bindE_Inr_iff
        split: if_splits)
  moreover have "fits_i24 (cumulative_lost b)" if "b \<in> set (rr_report_blocks r)" for b
  proof (rule ccontr)
    assume "\<not> fits_i24 (cumulative_lost b)"
    with that have "\<not> ok (write_report_blocks packet off (rr_report_blocks r))" for packet off
      by (rule write_report_blocks_rejects)
    with built show False
      by (auto simp: build_rtcp_receiver_report_def ok_iff bindE_Inr_iff split: if_splits)
  qed
  ultimately show "reportable (rr_sender_ssrc r) (rr_report_blocks r)"
    by (simp add: reportable_def list_all_iff)
qed

text \<open>
  The compound builder returns the concatenation of its members exactly when RFC 3550 allows
  it: every member is a complete RTCP packet, the first is a sender or receiver report, padding
  appears on the last member only, an SDES packet is present, and the size bound is respected.
\<close>

theorem compound_builder_accepts_iff:
  "build_rtcp_compound_packet ps bound = Inr c \<longleftrightarrow>
     c = concat ps \<and> ps \<noteq> [] \<and> 4 \<le> bound \<and> length c \<le> bound
     \<and> list_all (\<lambda>p. ok (validate_rtcp_packet p)) ps
     \<and> (hd ps ! 1 = 200 \<or> hd ps ! 1 = 201)
     \<and> list_all (\<lambda>p. p ! 0 AND 0x20 = 0) (butlast ps)
     \<and> list_ex (\<lambda>p. p ! 1 = 202) ps"
  by (rule build_rtcp_compound_packet_iff)

end
