(* ===== verification/Rtcp_Transport_Feedback.thy ===== *)
theory Rtcp_Transport_Feedback
  imports Rtp_Packet
begin

text \<open>
  The wire format of transport-wide congestion control feedback, the codec half of
  \<^verbatim>\<open>src/rtp/rtcp_transport_feedback.cpp\<close>: packet status symbols packed into run-length, one-bit and
  two-bit chunks, receive deltas, and the parser of incoming feedback. A receive delta
  (\<^verbatim>\<open>int16_t\<close>) is a \<open>16 word\<close> read with \<open>sint\<close>. The loop of the encoder that indexes
  \<^verbatim>\<open>symbols[offset + i]\<close> recurses on the symbols that are left.
\<close>

section \<open>Data\<close>

record rtcp_transport_feedback_status =
  status_sequence_number :: u16
  received :: bool
  delta_ticks :: "u16 option"

record parsed_rtcp_transport_feedback =
  feedback_sender_ssrc :: u32
  feedback_media_ssrc :: u32
  base_sequence_number :: u16
  packet_status_count :: u16
  reference_time :: u32
  feedback_packet_count :: u8
  statuses :: "rtcp_transport_feedback_status list"

abbreviation (input) k_rtcp_transport_feedback_fmt :: u8 where "k_rtcp_transport_feedback_fmt \<equiv> 15"
abbreviation (input) k_rtcp_transport_feedback_packet_type :: u8
  where "k_rtcp_transport_feedback_packet_type \<equiv> 205"
abbreviation (input) k_rtcp_transport_feedback_header_size :: nat
  where "k_rtcp_transport_feedback_header_size \<equiv> 20"
abbreviation (input) k_statuses_per_two_bit_chunk :: nat where "k_statuses_per_two_bit_chunk \<equiv> 7"
abbreviation (input) k_maximum_parsed_statuses_per_feedback :: nat
  where "k_maximum_parsed_statuses_per_feedback \<equiv> 8192"

section \<open>Encoding\<close>

text \<open>The inner loop that counts how often the first symbol repeats, \<open>run_length\<close> times so far.\<close>

fun count_run :: "u8 \<Rightarrow> u8 list \<Rightarrow> nat \<Rightarrow> nat" where
  "count_run symbol [] run_length = run_length"
| "count_run symbol (x # xs) run_length =
     (if x = symbol \<and> run_length < 0x1FFF then count_run symbol xs (run_length + 1)
      else run_length)"

fun pack_one_bit :: "u16 \<Rightarrow> nat \<Rightarrow> u8 list \<Rightarrow> u16" where
  "pack_one_bit chunk index [] = chunk"
| "pack_one_bit chunk index (s # ss) =
     pack_one_bit (chunk OR push_bit (13 - index) (ucast s)) (index + 1) ss"

fun pack_two_bit :: "u16 \<Rightarrow> nat \<Rightarrow> u8 list \<Rightarrow> u16" where
  "pack_two_bit chunk index [] = chunk"
| "pack_two_bit chunk index (s # ss) =
     pack_two_bit (chunk OR push_bit (2 * (k_statuses_per_two_bit_chunk - 1 - index)) (ucast s))
       (index + 1) ss"

lemma count_run_ge: "n \<le> count_run symbol xs n"
  by (induction symbol xs n rule: count_run.induct) auto

function encode_status_chunks :: "u8 list \<Rightarrow> u16 list" where
  "encode_status_chunks [] = []"
| "encode_status_chunks (symbol # rest) =
     (let symbols = symbol # rest; run_length = count_run symbol rest 1 in
      if run_length \<ge> k_statuses_per_two_bit_chunk
      then (push_bit 13 (ucast symbol) OR of_nat run_length)
             # encode_status_chunks (drop run_length symbols)
      else let one_bit_count = min 14 (length symbols) in
        if list_all (\<lambda>s. s \<le> 1) (take one_bit_count symbols)
        then pack_one_bit 0x8000 0 (take one_bit_count symbols)
               # encode_status_chunks (drop one_bit_count symbols)
        else let two_bit_count = min k_statuses_per_two_bit_chunk (length symbols) in
          pack_two_bit 0xC000 0 (take two_bit_count symbols)
            # encode_status_chunks (drop two_bit_count symbols))"
  by pat_completeness auto
termination
  by (relation "measure length") (auto simp: count_run_ge)

definition unpadded_size :: "u8 list \<Rightarrow> nat" where
  "unpadded_size delta_sizes =
     k_rtcp_transport_feedback_header_size + length (encode_status_chunks delta_sizes) * 2
     + sum_list (map unat delta_sizes)"

definition encoded_packet_size :: "u8 list \<Rightarrow> nat" where
  "encoded_packet_size delta_sizes = align4 (unpadded_size delta_sizes)"

fun write_chunks :: "bytes \<Rightarrow> nat \<Rightarrow> u16 list \<Rightarrow> (bytes \<times> nat) result" where
  "write_chunks packet offset [] = Inr (packet, offset)"
| "write_chunks packet offset (chunk # chunks) =
     bindE (write_u16 packet offset chunk) (\<lambda>packet. write_chunks packet (offset + 2) chunks)"

fun write_deltas :: "bytes \<Rightarrow> nat \<Rightarrow> u8 list \<Rightarrow> u16 list \<Rightarrow> bytes result" where
  "write_deltas packet offset [] deltas = Inr packet"
| "write_deltas packet offset (delta_size # delta_sizes) deltas =
     (if delta_size = 0 then write_deltas packet offset delta_sizes deltas
      else case deltas of
        [] \<Rightarrow> Inl OutOfBounds
      | delta # deltas \<Rightarrow>
          if delta_size = 1
          then bindE (write_u8 packet offset (ucast delta)) (\<lambda>packet.
            write_deltas packet (offset + 1) delta_sizes deltas)
          else bindE (write_u16 packet offset delta) (\<lambda>packet.
            write_deltas packet (offset + 2) delta_sizes deltas))"

definition encode_transport_feedback_packet ::
  "u32 \<Rightarrow> u32 \<Rightarrow> u16 \<Rightarrow> u32 \<Rightarrow> u8 \<Rightarrow> u8 list \<Rightarrow> u16 list \<Rightarrow> bytes result" where
  "encode_transport_feedback_packet sender_ssrc media_ssrc base_sequence reference
     feedback_count delta_sizes deltas =
     (let packet_size = encoded_packet_size delta_sizes;
          packet = replicate packet_size 0;
          chunks = encode_status_chunks delta_sizes;
          padding_size = packet_size - unpadded_size delta_sizes in
      bindE (write_u8 packet 0
               (push_bit 6 2 OR (if padding_size \<noteq> 0 then 0x20 else 0)
                OR k_rtcp_transport_feedback_fmt)) (\<lambda>packet.
      bindE (write_u8 packet 1 k_rtcp_transport_feedback_packet_type) (\<lambda>packet.
      bindE (write_u16 packet 2 (of_nat (packet_size div 4 - 1))) (\<lambda>packet.
      bindE (write_u32 packet 4 sender_ssrc) (\<lambda>packet.
      bindE (write_u32 packet 8 media_ssrc) (\<lambda>packet.
      bindE (write_u16 packet 12 base_sequence) (\<lambda>packet.
      bindE (write_u16 packet 14 (of_nat (length delta_sizes))) (\<lambda>packet.
      bindE (write_u24 packet 16 (reference AND 0x00FFFFFF)) (\<lambda>packet.
      bindE (write_u8 packet 19 feedback_count) (\<lambda>packet.
      bindE (write_chunks packet k_rtcp_transport_feedback_header_size chunks) (\<lambda>(packet, offset).
      bindE (write_deltas packet offset delta_sizes deltas) (\<lambda>packet.
      if padding_size \<noteq> 0
      then write_u8 packet (length packet - 1) (of_nat padding_size)
      else Inr packet))))))))))))"

section \<open>Parsing\<close>

definition trailing_bytes_are_zero :: "bytes \<Rightarrow> nat \<Rightarrow> nat \<Rightarrow> bool result" where
  "trailing_bytes_are_zero data offset end_offset =
     (if offset \<le> end_offset \<and> end_offset - offset \<le> 3
      then bindE (subspan data offset (end_offset - offset)) (\<lambda>tail.
        Inr (list_all (\<lambda>value. value = 0) tail))
      else Inr False)"

definition unpack_one_bit :: "u16 \<Rightarrow> nat \<Rightarrow> u8 list" where
  "unpack_one_bit chunk count = map (\<lambda>index. ucast (drop_bit (13 - index) chunk AND 1)) [0..<count]"

definition unpack_two_bit :: "u16 \<Rightarrow> nat \<Rightarrow> u8 list" where
  "unpack_two_bit chunk count =
     map (\<lambda>index. ucast (drop_bit (2 * (k_statuses_per_two_bit_chunk - 1 - index)) chunk AND 3))
       [0..<count]"

function parse_status_chunks ::
  "bytes \<Rightarrow> nat \<Rightarrow> nat \<Rightarrow> nat \<Rightarrow> u8 list \<Rightarrow> (nat \<times> u8 list) result" where
  "parse_status_chunks data effective_size status_count offset delta_sizes =
     (if length delta_sizes < status_count then
        if offset + 2 > effective_size
        then make_error ''rtcp transport feedback status chunk is truncated''
        else bindE (read_u16 data offset) (\<lambda>chunk.
          let offset = offset + 2; remaining = status_count - length delta_sizes in
          if chunk AND 0x8000 = 0 then
            let symbol = (ucast (drop_bit 13 chunk AND 3) :: u8);
                run_length = unat (chunk AND 0x1FFF) in
            if run_length = 0 \<or> symbol = 3
            then make_error ''rtcp transport feedback run-length chunk is invalid''
            else parse_status_chunks data effective_size status_count offset
                   (delta_sizes @ replicate (min run_length remaining) symbol)
          else if chunk AND 0x4000 = 0 then
            parse_status_chunks data effective_size status_count offset
              (delta_sizes @ unpack_one_bit chunk (min 14 remaining))
          else let symbols = unpack_two_bit chunk (min 7 remaining) in
            if 3 \<in> set symbols
            then make_error ''rtcp transport feedback status symbol is reserved''
            else parse_status_chunks data effective_size status_count offset (delta_sizes @ symbols))
      else Inr (offset, delta_sizes))"
  by pat_completeness auto
termination
  by (relation "measure (\<lambda>(data, effective_size, status_count, offset, delta_sizes).
        status_count - length delta_sizes)")
    (auto simp: unpack_one_bit_def unpack_two_bit_def)

fun parse_deltas ::
  "bytes \<Rightarrow> nat \<Rightarrow> u16 \<Rightarrow> nat \<Rightarrow> u8 list \<Rightarrow> (rtcp_transport_feedback_status list \<times> nat) result" where
  "parse_deltas data effective_size sequence offset [] = Inr ([], offset)"
| "parse_deltas data effective_size sequence offset (delta_size # delta_sizes) =
     bindE (if delta_size = 1 then
              if offset + 1 > effective_size
              then make_error ''rtcp transport feedback small delta is truncated''
              else bindE (read_u8 data offset) (\<lambda>b. Inr (Some (ucast b), offset + 1))
            else if delta_size = 2 then
              if offset + 2 > effective_size
              then make_error ''rtcp transport feedback large delta is truncated''
              else bindE (read_u16 data offset) (\<lambda>w. Inr (Some w, offset + 2))
            else Inr (None, offset)) (\<lambda>(ticks, offset).
     bindE (parse_deltas data effective_size (sequence + 1) offset delta_sizes) (\<lambda>(rest, offset).
     Inr (\<lparr>status_sequence_number = sequence, received = (delta_size \<noteq> 0),
           delta_ticks = ticks\<rparr> # rest, offset)))"

definition parse_rtcp_transport_feedback :: "bytes \<Rightarrow> parsed_rtcp_transport_feedback result" where
  "parse_rtcp_transport_feedback data =
     (if length data < k_rtcp_transport_feedback_header_size \<or> length data mod 4 \<noteq> 0
      then make_error ''rtcp transport feedback packet size is invalid''
      else
        bindE (read_u8 data 0) (\<lambda>first.
        bindE (read_u8 data 1) (\<lambda>second.
        if drop_bit 6 first \<noteq> 2 \<or> first AND 0x1F \<noteq> k_rtcp_transport_feedback_fmt
           \<or> second \<noteq> k_rtcp_transport_feedback_packet_type
        then make_error ''rtcp transport feedback header is invalid''
        else bindE (read_u16 data 2) (\<lambda>len.
          if (unat len + 1) * 4 \<noteq> length data
          then make_error ''rtcp transport feedback declared size does not match buffer''
          else bindE (if first AND 0x20 \<noteq> 0 then
                        bindE (read_u8 data (length data - 1)) (\<lambda>padding_byte.
                        let padding_size = unat padding_byte in
                        if padding_size = 0
                           \<or> padding_size > length data - k_rtcp_transport_feedback_header_size
                        then make_error ''rtcp transport feedback padding is invalid''
                        else Inr (length data - padding_size))
                      else Inr (length data)) (\<lambda>effective_size.
            bindE (read_u32 data 4) (\<lambda>sender.
            bindE (read_u32 data 8) (\<lambda>media.
            bindE (read_u16 data 12) (\<lambda>base.
            bindE (read_u16 data 14) (\<lambda>count.
            bindE (read_u24 data 16) (\<lambda>reference.
            bindE (read_u8 data 19) (\<lambda>feedback_count.
            if unat count > k_maximum_parsed_statuses_per_feedback
            then make_error ''rtcp transport feedback packet status count exceeds limit''
            else
              bindE (parse_status_chunks data effective_size (unat count)
                       k_rtcp_transport_feedback_header_size []) (\<lambda>(offset, delta_sizes).
              bindE (parse_deltas data effective_size base offset delta_sizes) (\<lambda>(sts, offset).
              bindE (trailing_bytes_are_zero data offset effective_size) (\<lambda>zero.
              if \<not> zero then make_error ''rtcp transport feedback packet has trailing data''
              else Inr \<lparr>feedback_sender_ssrc = sender, feedback_media_ssrc = media,
                        base_sequence_number = base, packet_status_count = count,
                        reference_time = reference, feedback_packet_count = feedback_count,
                        statuses = sts\<rparr>)))))))))))))) "

section \<open>Specification of the feedback packet\<close>

text \<open>
  The bytes of a feedback packet as concatenations: what the encoder is to write and the parser to
  read. \<open>deltas_fit\<close> is what the generator establishes: one delta per received packet, and a
  small delta where the symbol is 1.
\<close>

fun enc_deltas :: "u8 list \<Rightarrow> u16 list \<Rightarrow> bytes" where
  "enc_deltas [] deltas = []"
| "enc_deltas (z # zs) deltas =
     (if z = 0 then enc_deltas zs deltas
      else case deltas of [] \<Rightarrow> []
      | d # deltas \<Rightarrow> (if z = 1 then [ucast d] else enc_u16 d) @ enc_deltas zs deltas)"

fun deltas_fit :: "u8 list \<Rightarrow> u16 list \<Rightarrow> bool" where
  "deltas_fit [] deltas \<longleftrightarrow> deltas = []"
| "deltas_fit (z # zs) deltas \<longleftrightarrow> z \<le> 2 \<and>
     (if z = 0 then deltas_fit zs deltas
      else case deltas of [] \<Rightarrow> False
      | d # deltas \<Rightarrow> (z = 1 \<longrightarrow> d < 256) \<and> deltas_fit zs deltas)"

fun feedback_statuses :: "u16 \<Rightarrow> u8 list \<Rightarrow> u16 list \<Rightarrow> rtcp_transport_feedback_status list" where
  "feedback_statuses sequence [] deltas = []"
| "feedback_statuses sequence (z # zs) deltas =
     (if z = 0
      then \<lparr>status_sequence_number = sequence, received = False, delta_ticks = None\<rparr>
             # feedback_statuses (sequence + 1) zs deltas
      else \<lparr>status_sequence_number = sequence, received = True, delta_ticks = Some (hd deltas)\<rparr>
             # feedback_statuses (sequence + 1) zs (tl deltas))"

definition feedback_padding :: "nat \<Rightarrow> bytes" where
  "feedback_padding n = (if n = 0 then [] else replicate (n - 1) 0 @ [of_nat n])"

definition feedback_bytes :: "u32 \<Rightarrow> u32 \<Rightarrow> u16 \<Rightarrow> u32 \<Rightarrow> u8 \<Rightarrow> u8 list \<Rightarrow> u16 list \<Rightarrow> bytes" where
  "feedback_bytes sender media base reference count zs deltas =
     (let size = encoded_packet_size zs; padding = size - unpadded_size zs in
      [if padding = 0 then 0x8F else 0xAF, k_rtcp_transport_feedback_packet_type]
      @ enc_u16 (of_nat (size div 4 - 1)) @ enc_u32 sender @ enc_u32 media @ enc_u16 base
      @ enc_u16 (of_nat (length zs)) @ enc_u24 (reference AND 0x00FFFFFF) @ [count]
      @ concat (map enc_u16 (encode_status_chunks zs)) @ enc_deltas zs deltas
      @ feedback_padding padding)"

declare encode_status_chunks.simps(2) [simp del] parse_status_chunks.simps [simp del]

section \<open>Memory safety of the parser\<close>

lemma parse_status_chunks_safe:
  "effective_size \<le> length data \<Longrightarrow>
     fault_free (parse_status_chunks data effective_size n offset delta_sizes)"
proof (induction data effective_size n offset delta_sizes rule: parse_status_chunks.induct)
  case (1 data effective_size n offset delta_sizes)
  then show ?case by (subst parse_status_chunks.simps) (auto simp: Let_def)
qed

lemma parse_status_chunks_step:
  assumes "parse_status_chunks data effective_size n offset ds = Inr r" and "length ds < n"
  shows "\<exists>ext. 0 < length ext \<and> length ext \<le> n - length ds \<and> offset + 2 \<le> effective_size
    \<and> parse_status_chunks data effective_size n (offset + 2) (ds @ ext) = Inr r"
proof -
  from assms obtain chunk where "read_u16 data offset = Inr chunk" and le: "offset + 2 \<le> effective_size"
    by (subst (asm) parse_status_chunks.simps) (auto simp: bindE_Inr_iff split: if_splits)
  define ext where "ext =
    (if chunk AND 0x8000 = 0
     then replicate (min (unat (chunk AND 0x1FFF)) (n - length ds)) (ucast (drop_bit 13 chunk AND 3))
     else if chunk AND 0x4000 = 0 then unpack_one_bit chunk (min 14 (n - length ds))
     else unpack_two_bit chunk (min 7 (n - length ds)))"
  from assms \<open>read_u16 data offset = Inr chunk\<close> le
  have "parse_status_chunks data effective_size n (offset + 2) (ds @ ext) = Inr r"
    and "0 < length ext" and "length ext \<le> n - length ds"
    by (subst (asm) parse_status_chunks.simps;
        auto simp: ext_def Let_def unpack_one_bit_def unpack_two_bit_def split: if_splits)+
  with le show ?thesis by blast
qed

lemma parse_status_chunks_result:
  assumes "parse_status_chunks data effective_size n offset ds = Inr (offset', ds')"
    and "length ds \<le> n" and "offset \<le> effective_size"
  shows "length ds' = n \<and> offset' \<le> effective_size"
  using assms
proof (induction "n - length ds" arbitrary: ds offset rule: less_induct)
  case less
  show ?case
  proof (cases "length ds < n")
    case True
    from parse_status_chunks_step [OF less.prems(1) True] obtain ext where
      "0 < length ext" "length ext \<le> n - length ds" "offset + 2 \<le> effective_size"
      and "parse_status_chunks data effective_size n (offset + 2) (ds @ ext) = Inr (offset', ds')"
      by blast
    then show ?thesis using True by (intro less.hyps [of "ds @ ext"]) (auto intro: diff_less_mono2)
  next
    case False
    with less.prems show ?thesis by (subst (asm) parse_status_chunks.simps) auto
  qed
qed

lemma parse_deltas_safe:
  "effective_size \<le> length data \<Longrightarrow> fault_free (parse_deltas data effective_size s offset ds)"
  by (induction data effective_size s offset ds rule: parse_deltas.induct)
    (auto intro!: fault_free_bindE split: prod.splits)

lemma parse_deltas_offset:
  "parse_deltas data effective_size s offset ds = Inr (sts, offset') \<Longrightarrow>
     offset \<le> effective_size \<Longrightarrow> offset' \<le> effective_size"
  by (induction data effective_size s offset ds arbitrary: sts rule: parse_deltas.induct)
    (auto simp: bindE_Inr_iff split: if_splits prod.splits)

lemma parse_deltas_length:
  "parse_deltas data effective_size s offset ds = Inr (sts, offset') \<Longrightarrow> length sts = length ds"
  by (induction data effective_size s offset ds arbitrary: sts rule: parse_deltas.induct)
    (auto simp: bindE_Inr_iff split: if_splits prod.splits)

lemma trailing_bytes_are_zero_safe:
  "end_offset \<le> length data \<Longrightarrow> fault_free (trailing_bytes_are_zero data offset end_offset)"
  by (auto simp: trailing_bytes_are_zero_def intro!: fault_free_bindE)

lemma parse_rtcp_transport_feedback_safe [safe]: "fault_free (parse_rtcp_transport_feedback data)"
  unfolding parse_rtcp_transport_feedback_def
  by (cases data)
    (auto simp: Let_def bindE_Inr_iff split: prod.splits if_splits
      intro!: fault_free_bindE parse_status_chunks_safe parse_deltas_safe
        trailing_bytes_are_zero_safe)

section \<open>Status chunks round trip\<close>

lemma small_u8_cases: "s \<le> 2 \<Longrightarrow> s = 0 \<or> s = 1 \<or> s = (2 :: u8)"
  by (auto simp: word_le_nat_alt word_unat_eq_iff)

lemma bit_symbol:
  assumes "s \<le> (2 :: u8)"
  shows "bit s n \<longleftrightarrow> n = 0 \<and> s = 1 \<or> n = 1 \<and> s = 2"
  using small_u8_cases [OF assms] by (cases n) (auto simp: bit_simps bit_1_iff)

lemma bit_shifted_symbol:
  assumes "s \<le> (2 :: u8)" and "m \<le> 14"
  shows "bit (push_bit m (ucast s) :: u16) k \<longleftrightarrow> k = m \<and> s = 1 \<or> k = Suc m \<and> s = 2"
proof (cases "m \<le> k \<and> k < 16")
  case True
  then have "bit (push_bit m (ucast s) :: u16) k \<longleftrightarrow> bit s (k - m)"
    using bit_symbol [OF assms(1), of "k - m"] by (auto simp: bit_simps)
  also have "\<dots> \<longleftrightarrow> k = m \<and> s = 1 \<or> k = Suc m \<and> s = 2"
    using True bit_symbol [OF assms(1), of "k - m"] by auto
  finally show ?thesis .
next
  case False
  then show ?thesis using assms(2) by (auto simp: bit_simps)
qed

lemma le_one_le_two: "s \<le> 1 \<Longrightarrow> s \<le> (2 :: u8)"
  by (simp add: word_le_nat_alt)

lemma count_run_bounds:
  "count_run s xs n \<le> n + length xs" "n \<le> 0x1FFF \<Longrightarrow> count_run s xs n \<le> 0x1FFF"
  by (induction s xs n rule: count_run.induct) auto

lemma count_run_take: "take (count_run s xs n - n) xs = replicate (count_run s xs n - n) s"
proof (induction s xs n rule: count_run.induct)
  case (2 s x xs n)
  show ?case
  proof (cases "x = s \<and> n < 0x1FFF")
    case True
    then have "count_run s (x # xs) n - n = Suc (count_run s xs (n + 1) - (n + 1))"
      using count_run_ge [of "n + 1" s xs] by simp
    then show ?thesis using 2 True by simp
  qed auto
qed simp

lemma bit_of_nat_small: "r < 2 ^ 13 \<Longrightarrow> bit (of_nat r :: u16) k \<Longrightarrow> k < 13"
proof -
  assume "r < 2 ^ 13" and k: "bit (of_nat r :: u16) k"
  then have "take_bit 13 (of_nat r :: u16) = of_nat r"
    by (simp flip: of_nat_take_bit add: take_bit_nat_eq_self)
  with k show "k < 13" by (metis bit_take_bit_iff)
qed

lemma run_chunk:
  assumes "s \<le> (2 :: u8)" and "r \<le> 0x1FFF"
  defines "c \<equiv> push_bit 13 (ucast s) OR (of_nat r :: u16)"
  shows "c AND 0x8000 = 0" and "ucast (drop_bit 13 c AND 3) = s" and "unat (c AND 0x1FFF) = r"
proof -
  have r: "bit (of_nat r :: u16) k \<Longrightarrow> k < 13" for k
    using bit_of_nat_small [of r k] assms(2) by simp
  have bits: "bit c k \<longleftrightarrow> bit (of_nat r :: u16) k \<or> k = 13 \<and> s = 1 \<or> k = 14 \<and> s = 2" for k
    unfolding c_def using bit_shifted_symbol [OF assms(1), of 13 k] by (simp add: bit_or_iff; blast)
  have "\<not> bit c 15" using r [of 15] by (auto simp: bits)
  then show "c AND 0x8000 = 0" using and_exp_eq_0_iff_not_bit [of c 15] by simp
  have "ucast (drop_bit 13 c AND mask 2) = s"
  proof (rule bit_word_eqI)
    fix n assume "n < LENGTH(8)"
    show "bit (ucast (drop_bit 13 c AND mask 2) :: u8) n = bit s n"
      using r [of "13 + n"] \<open>n < LENGTH(8)\<close> bit_symbol [OF assms(1), of n]
      by (auto simp: bit_simps bits)
  qed
  then show "ucast (drop_bit 13 c AND 3) = s" by (simp add: mask_eq_exp_minus_1)
  have "c AND mask 13 = of_nat r"
    by (rule bit_word_eqI) (use r in \<open>auto simp: bit_simps bits\<close>)
  then have "c AND 0x1FFF = of_nat r" by (simp add: mask_eq_exp_minus_1)
  then show "unat (c AND 0x1FFF) = r" using assms(2) by (simp add: unat_of_nat)
qed

lemma Ex_less_Suc_shift: "(\<exists>k < Suc n. P k) \<longleftrightarrow> P 0 \<or> (\<exists>k < n. P (Suc k))"
  using less_Suc_eq_0_disj by auto

lemma bit_pack_one_bit:
  assumes "list_all (\<lambda>s. s \<le> 1) ss" and "i + length ss \<le> 14"
  shows "bit (pack_one_bit c i ss) n \<longleftrightarrow>
    bit c n \<or> (\<exists>k < length ss. n = 13 - (i + k) \<and> ss ! k = 1)"
  using assms
proof (induction c i ss rule: pack_one_bit.induct)
  case (2 c i s ss)
  have "s \<le> 2" "s \<noteq> 2" using "2.prems" by (auto simp: le_one_le_two word_le_nat_alt)
  then have "bit (c OR push_bit (13 - i) (ucast s)) n \<longleftrightarrow> bit c n \<or> n = 13 - i \<and> s = 1"
    using bit_shifted_symbol [of s "13 - i" n] by (simp add: bit_or_iff)
  then show ?case using "2.IH" "2.prems" by (auto simp: Ex_less_Suc_shift)
qed simp

lemma bit_pack_two_bit:
  assumes "list_all (\<lambda>s. s \<le> 2) ss" and "i + length ss \<le> 7"
  shows "bit (pack_two_bit c i ss) n \<longleftrightarrow>
    bit c n \<or> (\<exists>k < length ss. n = 2 * (6 - (i + k)) \<and> ss ! k = 1
      \<or> n = Suc (2 * (6 - (i + k))) \<and> ss ! k = 2)"
  using assms
proof (induction c i ss rule: pack_two_bit.induct)
  case (2 c i s ss)
  then have "bit (c OR push_bit (2 * (6 - i)) (ucast s)) n \<longleftrightarrow>
      bit c n \<or> n = 2 * (6 - i) \<and> s = 1 \<or> n = Suc (2 * (6 - i)) \<and> s = 2"
    using bit_shifted_symbol [of s "2 * (6 - i)" n] by (simp add: bit_or_iff)
  then show ?case using "2.IH" "2.prems" by (auto simp: Ex_less_Suc_shift)
qed simp

lemma bit_0x8000: "bit (0x8000 :: u16) n \<longleftrightarrow> n = 15"
  using bit_exp_iff [where 'a = "16 word", of 15 n] by auto

lemma bit_0xC000: "bit (0xC000 :: u16) n \<longleftrightarrow> n = 15 \<or> n = 14"
proof -
  have "(0xC000 :: u16) = 0x8000 OR 2 ^ 14" by simp
  then show ?thesis by (auto simp only: bit_or_iff bit_0x8000 bit_exp_iff possible_bit_word) auto
qed

lemma map_upt_eqI: "(\<And>k. k < length ss \<Longrightarrow> f k = ss ! k) \<Longrightarrow> map f [0..<length ss] = ss"
  by (rule nth_equalityI) auto

lemma two_bit_shift: "(7 :: nat) - 1 - k = 6 - k" "mask 2 = (3 :: u16)"
  by (simp_all add: mask_eq_exp_minus_1)

lemma one_bit_field: "(ucast (drop_bit m (c :: u16) AND 1) :: u8) = of_bool (bit c m)"
  by (simp add: and_one_eq mod_2_eq_odd bit_iff_odd_drop_bit)

lemma bit_two_bit_field:
  "n < 8 \<Longrightarrow> bit (ucast (drop_bit m (c :: u16) AND mask 2) :: u8) n \<longleftrightarrow> n < 2 \<and> bit c (m + n)"
  by (auto simp: bit_simps)

lemma one_bit_chunk:
  assumes "list_all (\<lambda>s. s \<le> 1) ss" and "length ss \<le> 14"
  defines "c \<equiv> pack_one_bit 0x8000 0 ss"
  shows "c AND 0x8000 \<noteq> 0" and "c AND 0x4000 = 0" and "unpack_one_bit c (length ss) = ss"
proof -
  have bits: "bit c n \<longleftrightarrow> n = 15 \<or> (\<exists>k < length ss. n = 13 - k \<and> ss ! k = 1)" for n
    using bit_pack_one_bit [OF assms(1), of 0 "0x8000" n, unfolded bit_0x8000] assms(2)
    by (simp add: c_def)
  have "bit c 15" by (simp add: bits)
  then show "c AND 0x8000 \<noteq> 0" using and_exp_eq_0_iff_not_bit [of c 15] by simp
  have "\<not> bit c 14" by (auto simp: bits)
  then show "c AND 0x4000 = 0" using and_exp_eq_0_iff_not_bit [of c 14] by simp
  have "ucast (drop_bit (13 - k) c AND 1) = ss ! k" if "k < length ss" for k
  proof -
    have "ss ! k \<le> 1" using assms(1) that by (simp add: list_all_length)
    then have "ss ! k = 0 \<or> ss ! k = 1" using small_u8_cases [of "ss ! k"] le_one_le_two
      by (auto simp: word_le_nat_alt)
    moreover have "bit c (13 - k) \<longleftrightarrow> ss ! k = 1"
    proof -
      have "13 - k = 13 - j \<longleftrightarrow> j = k" if "j < length ss" for j
        using that \<open>k < length ss\<close> assms(2) by auto
      then show ?thesis using that assms(2) by (auto simp: bits)
    qed
    ultimately show ?thesis by (elim disjE) (simp_all only: one_bit_field of_bool_def zero_neq_one if_True if_False simp_thms)
  qed
  then show "unpack_one_bit c (length ss) = ss"
    unfolding unpack_one_bit_def by (rule map_upt_eqI)
qed

lemma two_bit_chunk:
  assumes "list_all (\<lambda>s. s \<le> 2) ss" and "length ss \<le> 7"
  defines "c \<equiv> pack_two_bit 0xC000 0 ss"
  shows "c AND 0x8000 \<noteq> 0" and "c AND 0x4000 \<noteq> 0" and "unpack_two_bit c (length ss) = ss"
proof -
  have bits: "bit c n \<longleftrightarrow> n = 15 \<or> n = 14 \<or>
      (\<exists>k < length ss. n = 2 * (6 - k) \<and> ss ! k = 1 \<or> n = Suc (2 * (6 - k)) \<and> ss ! k = 2)" for n
    using bit_pack_two_bit [OF assms(1), of 0 "0xC000" n, unfolded bit_0xC000] assms(2)
    by (simp add: c_def)
  have "bit c 15" "bit c 14" by (simp_all add: bits)
  then show "c AND 0x8000 \<noteq> 0" and "c AND 0x4000 \<noteq> 0"
    using and_exp_eq_0_iff_not_bit [of c 15] and_exp_eq_0_iff_not_bit [of c 14] by simp_all
  have "ucast (drop_bit (2 * (6 - k)) c AND mask 2) = ss ! k" if k: "k < length ss" for k
  proof (rule bit_word_eqI)
    fix n assume "n < LENGTH(8)"
    have sym: "ss ! k \<le> 2" using assms(1) k by (simp add: list_all_length)
    have same: "2 * (6 - k) = 2 * (6 - j) \<longleftrightarrow> j = k" "2 * (6 - k) \<noteq> Suc (2 * (6 - j))"
      "Suc (2 * (6 - k)) \<noteq> 2 * (6 - j)" "2 * (6 - k) \<noteq> 15" "Suc (2 * (6 - k)) \<noteq> 15"
      "2 * (6 - k) \<noteq> 14" "Suc (2 * (6 - k)) \<noteq> 14"
      if "j < length ss" for j
      using that k assms(2) by (auto; presburger)+
    have "bit c (2 * (6 - k)) \<longleftrightarrow> ss ! k = 1" "bit c (Suc (2 * (6 - k))) \<longleftrightarrow> ss ! k = 2"
      using same k by (auto simp: bits)
    then have fields: "bit c (2 * (6 - k) + n) \<longleftrightarrow> bit (ss ! k) n" if "n < 2"
      using bit_symbol [OF sym, of n] that by (cases n) auto
    have high: "\<not> bit (ss ! k) n" if "\<not> n < 2" using bit_symbol [OF sym, of n] that by auto
    show "bit (ucast (drop_bit (2 * (6 - k)) c AND mask 2) :: u8) n = bit (ss ! k) n"
      unfolding bit_two_bit_field [of n "2 * (6 - k)" c, OF \<open>n < LENGTH(8)\<close> [simplified]]
      using fields high by blast
  qed
  then show "unpack_two_bit c (length ss) = ss"
    unfolding unpack_two_bit_def two_bit_shift by (rule map_upt_eqI)
qed

text \<open>What the parser does with the chunk that the encoder emits for the symbols that are left.\<close>

lemma read_chunk:
  "length pre = offset \<Longrightarrow> read_u16 (pre @ enc_u16 c @ post) offset = Inr c"
  by (rule u16f.rd_at) simp_all

lemma parse_run_chunk:
  assumes "s \<le> 2" and "0 < r" and "r \<le> 0x1FFF" and "r \<le> n - length ds"
    and "read_u16 data offset = Inr (push_bit 13 (ucast s) OR of_nat r)"
    and "offset + 2 \<le> effective_size"
  shows "parse_status_chunks data effective_size n offset ds =
    parse_status_chunks data effective_size n (offset + 2) (ds @ replicate r s)"
proof -
  have "length ds < n" "s \<noteq> 3" using assms by (auto simp: word_le_nat_alt)
  then show ?thesis using assms run_chunk [OF assms(1,3)]
    by (subst parse_status_chunks.simps) (simp add: Let_def min_absorb1)
qed

lemma parse_one_bit_chunk:
  assumes "list_all (\<lambda>s. s \<le> 1) ss" and "ss \<noteq> []" and "length ss = min 14 (n - length ds)"
    and "read_u16 data offset = Inr (pack_one_bit 0x8000 0 ss)"
    and "offset + 2 \<le> effective_size"
  shows "parse_status_chunks data effective_size n offset ds =
    parse_status_chunks data effective_size n (offset + 2) (ds @ ss)"
proof -
  have "length ds < n" using assms(2,3) by (cases "length ds < n") auto
  moreover have "length ss \<le> 14" using assms(3) by simp
  ultimately show ?thesis using assms(4,5) one_bit_chunk [OF assms(1)]
    by (subst parse_status_chunks.simps) (simp add: Let_def flip: assms(3))
qed

lemma parse_two_bit_chunk:
  assumes "list_all (\<lambda>s. s \<le> 2) ss" and "ss \<noteq> []" and "length ss = min 7 (n - length ds)"
    and "read_u16 data offset = Inr (pack_two_bit 0xC000 0 ss)"
    and "offset + 2 \<le> effective_size"
  shows "parse_status_chunks data effective_size n offset ds =
    parse_status_chunks data effective_size n (offset + 2) (ds @ ss)"
proof -
  have "length ds < n" using assms(2,3) by (cases "length ds < n") auto
  moreover have "length ss \<le> 7" using assms(3) by simp
  moreover have "3 \<notin> set ss" using assms(1) by (auto simp: list_all_iff word_le_nat_alt)
  ultimately show ?thesis using assms(4,5) two_bit_chunk [OF assms(1)]
    by (subst parse_status_chunks.simps) (simp add: Let_def flip: assms(3))
qed

lemma list_all_split:
  "list_all P xs \<Longrightarrow> list_all P (take n xs)" "list_all P xs \<Longrightarrow> list_all P (drop n xs)"
  by (auto simp: list_all_iff dest: in_set_takeD in_set_dropD)

lemma encoded_chunk_step:
  assumes "list_all (\<lambda>s. s \<le> 2) symbols" and "symbols \<noteq> []" and "length ds + length symbols = n"
    and "offset + 2 \<le> effective_size"
  obtains c m where "0 < m" and "m \<le> length symbols"
    and "encode_status_chunks symbols = c # encode_status_chunks (drop m symbols)"
    and "\<And>data. read_u16 data offset = Inr c \<Longrightarrow>
      parse_status_chunks data effective_size n offset ds =
      parse_status_chunks data effective_size n (offset + 2) (ds @ take m symbols)"
proof -
  obtain symbol rest where symbols: "symbols = symbol # rest" using assms(2) by (cases symbols) auto
  define r where "r = count_run symbol rest 1"
  define m1 where "m1 = min 14 (length symbols)"
  define m2 where "m2 = min 7 (length symbols)"
  have remaining: "n - length ds = length symbols" using assms(3) by simp
  have chunks: "encode_status_chunks symbols =
      (if 7 \<le> r then (push_bit 13 (ucast symbol) OR of_nat r) # encode_status_chunks (drop r symbols)
       else if list_all (\<lambda>s. s \<le> 1) (take m1 symbols)
       then pack_one_bit 0x8000 0 (take m1 symbols) # encode_status_chunks (drop m1 symbols)
       else pack_two_bit 0xC000 0 (take m2 symbols) # encode_status_chunks (drop m2 symbols))"
    unfolding symbols encode_status_chunks.simps(2) r_def m1_def m2_def Let_def ..
  consider (run) "7 \<le> r" | (one) "\<not> 7 \<le> r" "list_all (\<lambda>s. s \<le> 1) (take m1 symbols)"
    | (two) "\<not> 7 \<le> r" "\<not> list_all (\<lambda>s. s \<le> 1) (take m1 symbols)"
    by blast
  then show ?thesis
  proof cases
    case run
    have r: "r \<le> length symbols" "r \<le> 0x1FFF" "take r symbols = replicate r symbol"
      using count_run_bounds(1) [of symbol rest 1] count_run_bounds(2) [of 1 symbol rest]
        count_run_take [of symbol rest 1] run
      by (auto simp: symbols r_def take_Cons' replicate_Suc [symmetric] simp del: replicate_Suc)
    have "parse_status_chunks data effective_size n offset ds =
        parse_status_chunks data effective_size n (offset + 2) (ds @ take r symbols)"
      if "read_u16 data offset = Inr (push_bit 13 (ucast symbol) OR of_nat r)" for data
      unfolding r(3) using that run r remaining assms(1,4) symbols by (intro parse_run_chunk) auto
    with run r(1) chunks show ?thesis
      by (intro that [of r "push_bit 13 (ucast symbol) OR of_nat r"]) simp_all
  next
    case one
    have "take m1 symbols \<noteq> []" "length (take m1 symbols) = min 14 (n - length ds)"
      using symbols remaining by (simp_all add: m1_def)
    then show ?thesis
      by (intro that [of m1 "pack_one_bit 0x8000 0 (take m1 symbols)"] parse_one_bit_chunk)
        (use one chunks assms(4) symbols in \<open>simp_all add: m1_def\<close>)
  next
    case two
    have "take m2 symbols \<noteq> []" "length (take m2 symbols) = min 7 (n - length ds)"
      using symbols remaining by (simp_all add: m2_def)
    then show ?thesis
      by (intro that [of m2 "pack_two_bit 0xC000 0 (take m2 symbols)"] parse_two_bit_chunk)
        (use two chunks assms(4) list_all_split(1) [OF assms(1)] symbols in \<open>simp_all add: m2_def\<close>)
  qed
qed

lemma encode_status_chunks_Cons: "encode_status_chunks (symbol # rest) \<noteq> []"
  by (subst encode_status_chunks.simps) (simp only: Let_def split: if_split, blast)

lemma parse_encoded_chunks:
  assumes "list_all (\<lambda>s. s \<le> 2) symbols" and "length ds + length symbols = n"
    and "length pre = offset"
    and "offset + 2 * length (encode_status_chunks symbols) \<le> effective_size"
  shows "parse_status_chunks (pre @ concat (map enc_u16 (encode_status_chunks symbols)) @ post)
      effective_size n offset ds =
    Inr (offset + 2 * length (encode_status_chunks symbols), ds @ symbols)"
  using assms
proof (induction "length symbols" arbitrary: symbols pre offset ds rule: less_induct)
  case less
  show ?case
  proof (cases "symbols = []")
    case True
    then show ?thesis using less.prems by (subst parse_status_chunks.simps) simp
  next
    case False
    have "encode_status_chunks symbols \<noteq> []"
      using False encode_status_chunks_Cons by (cases symbols) simp_all
    then have fits: "offset + 2 \<le> effective_size"
      using less.prems(4) by (cases "encode_status_chunks symbols") auto
    obtain c m where m: "0 < m" "m \<le> length symbols"
      and chunks: "encode_status_chunks symbols = c # encode_status_chunks (drop m symbols)"
      and step: "\<And>data. read_u16 data offset = Inr c \<Longrightarrow>
        parse_status_chunks data effective_size n offset ds =
        parse_status_chunks data effective_size n (offset + 2) (ds @ take m symbols)"
      by (rule encoded_chunk_step [OF less.prems(1) False less.prems(2) fits]) (rule that)
    define tail where "tail = concat (map enc_u16 (encode_status_chunks (drop m symbols))) @ post"
    have "parse_status_chunks ((pre @ enc_u16 c) @ tail) effective_size n (offset + 2)
          (ds @ take m symbols) =
      Inr (offset + 2 + 2 * length (encode_status_chunks (drop m symbols)),
           (ds @ take m symbols) @ drop m symbols)"
      unfolding tail_def
    proof (rule less.hyps)
      show "list_all (\<lambda>s. s \<le> 2) (drop m symbols)" by (rule list_all_split(2) [OF less.prems(1)])
      show "offset + 2 + 2 * length (encode_status_chunks (drop m symbols)) \<le> effective_size"
        using less.prems(4) unfolding chunks by simp
    qed (use m less.prems(2,3) in simp_all)
    moreover have "parse_status_chunks (pre @ enc_u16 c @ tail) effective_size n offset ds =
        parse_status_chunks (pre @ enc_u16 c @ tail) effective_size n (offset + 2) (ds @ take m symbols)"
      by (rule step [OF read_chunk [OF less.prems(3)]])
    ultimately show ?thesis unfolding chunks by (simp add: tail_def)
  qed
qed

section \<open>The encoder writes the specified bytes\<close>

lemma write_chunks_eq:
  "2 * length cs \<le> k \<Longrightarrow> length pre = offset \<Longrightarrow>
     write_chunks (pre @ replicate k 0) offset cs =
     Inr (pre @ concat (map enc_u16 cs) @ replicate (k - 2 * length cs) 0, offset + 2 * length cs)"
proof (induction cs arbitrary: pre k offset)
  case (Cons c cs)
  have "write_u16 (pre @ replicate k 0) offset c = Inr ((pre @ enc_u16 c) @ replicate (k - 2) 0)"
    using u16f.wr_fill [of pre offset k 0 c] Cons.prems by simp
  moreover have "k - 2 - 2 * length cs = k - (2 + 2 * length cs)" by simp
  ultimately show ?case using Cons.IH [of "k - 2" "pre @ enc_u16 c" "offset + 2"] Cons.prems
    by simp
qed simp

lemma deltas_fit_small: "deltas_fit zs deltas \<Longrightarrow> list_all (\<lambda>z. z \<le> 2) zs"
  by (induction zs deltas rule: deltas_fit.induct) (auto split: if_splits list.splits)

lemma enc_deltas_length: "deltas_fit zs deltas \<Longrightarrow> length (enc_deltas zs deltas) = sum_list (map unat zs)"
proof (induction zs deltas rule: deltas_fit.induct)
  case (2 z zs deltas)
  then show ?case using small_u8_cases [of z] by (auto split: if_splits list.splits)
qed simp

lemma write_deltas_eq:
  "deltas_fit zs deltas \<Longrightarrow> length (enc_deltas zs deltas) \<le> k \<Longrightarrow> length pre = offset \<Longrightarrow>
     write_deltas (pre @ replicate k 0) offset zs deltas =
     Inr (pre @ enc_deltas zs deltas @ replicate (k - length (enc_deltas zs deltas)) 0)"
proof (induction zs deltas arbitrary: pre k offset rule: deltas_fit.induct)
  case (2 z zs deltas)
  show ?case
  proof (cases "z = 0")
    case True
    then show ?thesis using 2 by simp
  next
    case False
    with "2.prems" obtain d ds where [simp]: "deltas = d # ds" by (cases deltas) auto
    define b where "b = (if z = 1 then [ucast d] else enc_u16 d)"
    have "write_deltas (pre @ replicate k 0) offset (z # zs) deltas =
        write_deltas ((pre @ b) @ replicate (k - length b) 0) (offset + length b) zs ds"
      using "2.prems" False u16f.wr_fill [of pre offset k 0 d]
        u8f.wr_fill [of pre offset k 0 "ucast d"]
      by (auto simp: b_def)
    then show ?thesis
      using "2.IH"(2) [OF False, of d ds "k - length b" "pre @ b" "offset + length b"]
        "2.prems" False
      by (simp add: b_def split: if_splits)
  qed
qed simp

lemma encode_status_chunks_length: "length (encode_status_chunks symbols) \<le> length symbols"
proof (induction "length symbols" arbitrary: symbols rule: less_induct)
  case less
  show ?case
  proof (cases symbols)
    case (Cons symbol rest)
    have le: "length (encode_status_chunks (drop m symbols)) \<le> length rest" if "0 < m" for m
      using less [of "drop m symbols"] Cons that by simp
    have "0 < count_run symbol rest 1" using count_run_ge [of 1 symbol rest] by simp
    then show ?thesis
      using le [of "count_run symbol rest 1"] le [of "min 14 (length symbols)"]
        le [of "min 7 (length symbols)"] Cons
      by (subst Cons, subst encode_status_chunks.simps) (auto simp: Let_def)
  qed simp
qed

lemma sum_symbols_le: "list_all (\<lambda>z. z \<le> (2 :: u8)) zs \<Longrightarrow> sum_list (map unat zs) \<le> 2 * length zs"
  by (induction zs) (auto simp: word_le_nat_alt)

lemma encoded_packet_size_bound:
  assumes "deltas_fit zs deltas" and "length zs \<le> 8192"
  shows "encoded_packet_size zs \<le> 65536"
  using align4_bounds(2) [of "unpadded_size zs"] encode_status_chunks_length [of zs]
    sum_symbols_le [OF deltas_fit_small [OF assms(1)]] assms(2)
  by (simp add: encoded_packet_size_def unpadded_size_def)

lemma write_padding:
  assumes "0 < n"
  shows "write_u8 (pre @ replicate n 0) (length pre + n - 1) (of_nat n) =
    Inr (pre @ feedback_padding n)"
proof -
  obtain m where m: "n = Suc m" using assms by (cases n) auto
  have "replicate n (0 :: u8) = replicate m 0 @ [0]" by (simp add: m replicate_append_same)
  then show ?thesis
    by (simp add: m write_u8_def feedback_padding_def list_update_append del: replicate_Suc)
qed

lemma write_feedback_header:
  assumes "20 \<le> n"
  shows "bindE (write_u8 (replicate n 0) 0 b) (\<lambda>packet.
      bindE (write_u8 packet 1 t) (\<lambda>packet.
      bindE (write_u16 packet 2 w) (\<lambda>packet.
      bindE (write_u32 packet 4 sender) (\<lambda>packet.
      bindE (write_u32 packet 8 media) (\<lambda>packet.
      bindE (write_u16 packet 12 base) (\<lambda>packet.
      bindE (write_u16 packet 14 st) (\<lambda>packet.
      bindE (write_u24 packet 16 reference) (\<lambda>packet.
      bindE (write_u8 packet 19 count) f)))))))) =
    f (([b, t] @ enc_u16 w @ enc_u32 sender @ enc_u32 media @ enc_u16 base @ enc_u16 st
        @ enc_u24 reference @ [count]) @ replicate (n - 20) 0)"
  using assms by (simp add: wire)

lemma encode_transport_feedback_packet_eq:
  assumes "deltas_fit zs deltas"
  shows "encode_transport_feedback_packet sender media base reference count zs deltas =
    Inr (feedback_bytes sender media base reference count zs deltas)"
proof -
  define cs where "cs = encode_status_chunks zs"
  define size where "size = encoded_packet_size zs"
  define padding where "padding = size - unpadded_size zs"
  have fit: "size = 20 + (2 * length cs + (length (enc_deltas zs deltas) + padding))"
    using align4_bounds(1) [of "unpadded_size zs"] enc_deltas_length [OF assms]
    by (simp add: size_def encoded_packet_size_def padding_def unpadded_size_def cs_def)
  define header where "header =
      [if padding = 0 then 0x8F else 0xAF :: u8, 205] @ enc_u16 (of_nat (size div 4 - 1))
      @ enc_u32 sender @ enc_u32 media @ enc_u16 base @ enc_u16 (of_nat (length zs))
      @ enc_u24 (reference AND 0x00FFFFFF) @ [count]"
  have [simp]: "length header = 20" by (simp add: header_def)
  have size: "20 \<le> size" using fit by simp
  have first: "push_bit 6 2 OR (if padding \<noteq> 0 then 0x20 else 0) OR 15 =
      (if padding = 0 then 0x8F else 0xAF :: u8)"
    by simp
  have chunks: "write_chunks (header @ replicate (size - 20) 0) 20 cs =
      Inr (header @ concat (map enc_u16 cs)
        @ replicate (length (enc_deltas zs deltas) + padding) 0, 20 + 2 * length cs)"
    using write_chunks_eq [of cs "size - 20" header 20] by (simp add: fit)
  have "length (header @ concat (map enc_u16 cs)) = 20 + 2 * length cs"
    by (induction cs) simp_all
  then have deltas: "write_deltas (header @ concat (map enc_u16 cs)
        @ replicate (length (enc_deltas zs deltas) + padding) 0) (20 + 2 * length cs) zs deltas =
      Inr (header @ concat (map enc_u16 cs) @ enc_deltas zs deltas @ replicate padding 0)"
    using write_deltas_eq [OF assms, of "length (enc_deltas zs deltas) + padding"
        "header @ concat (map enc_u16 cs)"] by simp
  have last: "(if padding \<noteq> 0
        then write_u8 (header @ concat (map enc_u16 cs) @ enc_deltas zs deltas @ replicate padding 0)
          (length (header @ concat (map enc_u16 cs) @ enc_deltas zs deltas @ replicate padding 0) - 1)
          (of_nat padding)
        else Inr (header @ concat (map enc_u16 cs) @ enc_deltas zs deltas @ replicate padding 0)) =
      Inr (header @ concat (map enc_u16 cs) @ enc_deltas zs deltas @ feedback_padding padding)"
    using write_padding [of padding "header @ concat (map enc_u16 cs) @ enc_deltas zs deltas"]
    by (auto simp: feedback_padding_def)
  show ?thesis
    unfolding encode_transport_feedback_packet_def feedback_bytes_def Let_def
      size_def [symmetric] cs_def [symmetric] padding_def [symmetric]
      first write_feedback_header [OF size] header_def [symmetric] chunks bindE.simps prod.case
      deltas last
    by (simp add: header_def)
qed

section \<open>The parser reads the specified bytes\<close>

lemma small_delta:
  assumes "d < 256"
  shows "ucast (ucast (d :: u16) :: u8) = d"
proof -
  have "unat (d mod 2 ^ 8) = unat d"
    using assms by (simp add: unat_mod word_less_nat_alt)
  then have "take_bit 8 d = d" by (simp add: take_bit_eq_mod word_unat_eq_iff)
  then show ?thesis by (simp add: unsigned_ucast_eq word_eq_iff_unsigned)
qed

lemma parse_deltas_enc:
  assumes "deltas_fit zs deltas" and "length pre = offset"
    and "offset + length (enc_deltas zs deltas) \<le> effective_size"
  shows "parse_deltas (pre @ enc_deltas zs deltas @ post) effective_size sequence offset zs =
    Inr (feedback_statuses sequence zs deltas, offset + length (enc_deltas zs deltas))"
  using assms
proof (induction zs deltas arbitrary: pre offset sequence rule: deltas_fit.induct)
  case (2 z zs deltas)
  show ?case
  proof (cases "z = 0")
    case True
    then show ?thesis using 2 by simp
  next
    case False
    with "2.prems" obtain d ds where [simp]: "deltas = d # ds" by (cases deltas) auto
    define b where "b = (if z = 1 then [ucast d] else enc_u16 d)"
    have IH: "parse_deltas ((pre @ b) @ enc_deltas zs ds @ post) effective_size (sequence + 1)
        (offset + length b) zs =
      Inr (feedback_statuses (sequence + 1) zs ds, offset + length b + length (enc_deltas zs ds))"
      by (rule "2.IH"(2) [OF False]) (use "2.prems" False in \<open>auto simp: b_def\<close>)
    have z: "z = 1 \<or> z = 2" using small_u8_cases [of z] False "2.prems"(1) by auto
    have "read_u8 (pre @ [ucast d] @ enc_deltas zs ds @ post) offset = Inr (ucast d)"
      "read_u16 (pre @ enc_u16 d @ enc_deltas zs ds @ post) offset = Inr d"
      using "2.prems"(2) u8f.rd_at [of pre offset "ucast d"] u16f.rd_at [of pre offset d]
      by simp_all
    then show ?thesis using IH z "2.prems" by (auto simp: b_def small_delta)
  qed
qed simp

lemma feedback_padding_props:
  assumes "n \<le> 3"
  shows "length (feedback_padding n) = n"
    and "0 < n \<Longrightarrow> read_u8 (pre @ feedback_padding n) (length pre + n - 1) = Inr (of_nat n)"
  using assms by (auto simp: feedback_padding_def read_u8_def nth_append)

lemma parse_feedback_bytes:
  assumes fit: "deltas_fit zs deltas" and "length zs \<le> 8192"
  shows "parse_rtcp_transport_feedback
      (feedback_bytes sender media base reference count zs deltas) =
    Inr \<lparr>feedback_sender_ssrc = sender, feedback_media_ssrc = media, base_sequence_number = base,
         packet_status_count = of_nat (length zs), reference_time = reference AND 0x00FFFFFF,
         feedback_packet_count = count, statuses = feedback_statuses base zs deltas\<rparr>"
proof -
  define cs where "cs = encode_status_chunks zs"
  define size where "size = encoded_packet_size zs"
  define padding where "padding = size - unpadded_size zs"
  define effective where "effective = unpadded_size zs"
  define chunk_bytes where "chunk_bytes = concat (map enc_u16 cs)"
  define delta_bytes where "delta_bytes = enc_deltas zs deltas"
  define header where "header =
      [if padding = 0 then 0x8F else 0xAF :: u8, 205] @ enc_u16 (of_nat (size div 4 - 1))
      @ enc_u32 sender @ enc_u32 media @ enc_u16 base @ enc_u16 (of_nat (length zs))
      @ enc_u24 (reference AND 0x00FFFFFF) @ [count]"
  define data where "data = header @ chunk_bytes @ delta_bytes @ feedback_padding padding"
  have bytes: "feedback_bytes sender media base reference count zs deltas = data"
    unfolding feedback_bytes_def Let_def size_def [symmetric] padding_def [symmetric]
    by (simp add: data_def header_def chunk_bytes_def delta_bytes_def cs_def)
  have header_length: "length header = 20" by (simp add: header_def)
  have chunk_length: "length chunk_bytes = 2 * length cs"
    unfolding chunk_bytes_def by (induction cs) simp_all
  have delta_length: "effective = 20 + length chunk_bytes + length delta_bytes"
    using enc_deltas_length [OF fit]
    by (simp add: chunk_length delta_bytes_def effective_def unpadded_size_def cs_def)
  have padding: "padding \<le> 3" "size = effective + padding" "size mod 4 = 0" "size \<le> 65536"
    using align4_bounds [of effective] encoded_packet_size_bound [OF assms]
    by (simp_all add: padding_def size_def effective_def encoded_packet_size_def)
  have data_length: "length data = size"
    using padding by (simp add: data_def header_length delta_length feedback_padding_props)
  have chunks: "parse_status_chunks data effective (length zs) 20 [] =
      Inr (20 + 2 * length cs, zs)"
    using parse_encoded_chunks [OF deltas_fit_small [OF fit], of "[]" "length zs" header 20 effective
        "delta_bytes @ feedback_padding padding"]
    unfolding cs_def [symmetric] chunk_bytes_def [symmetric]
    by (simp add: data_def delta_length header_length chunk_length)
  have deltas: "parse_deltas data effective base (20 + 2 * length cs) zs =
      Inr (feedback_statuses base zs deltas, effective)"
    using parse_deltas_enc [OF fit, of "header @ chunk_bytes" "20 + 2 * length cs" effective
        "feedback_padding padding" base]
    by (simp add: data_def delta_bytes_def delta_length header_length chunk_length)
  define w :: u16 where "w = of_nat (size div 4 - 1)"
  define n :: u16 where "n = of_nat (length zs)"
  have reads: "read_u8 data 0 = Inr (if padding = 0 then 0x8F else 0xAF)" "read_u8 data 1 = Inr 205"
    "read_u16 data 2 = Inr w" "read_u32 data 4 = Inr sender"
    "read_u32 data 8 = Inr media" "read_u16 data 12 = Inr base"
    "read_u16 data 14 = Inr n"
    "read_u24 data 16 = Inr (reference AND 0x00FFFFFF)" "read_u8 data 19 = Inr count"
    by (simp_all add: w_def n_def data_def header_def wire u24f.rd_enc [OF and_i24_less] del: access)
  have size_word: "(unat w + 1) * 4 = size"
  proof -
    have "size div 4 - 1 < 2 ^ 16" "20 \<le> size" using padding(2,4) delta_length by simp_all
    then have "unat w = size div 4 - 1"
      unfolding w_def by (intro unat_of_nat_u16)
    then show ?thesis using padding(3) \<open>20 \<le> size\<close> by presburger
  qed
  have last: "read_u8 data (size - Suc 0) = Inr (of_nat padding)" if "0 < padding"
    using feedback_padding_props(2) [OF padding(1) that, of "header @ chunk_bytes @ delta_bytes"]
      padding(2) delta_length header_length by (simp add: data_def)
  have count: "unat n = length zs" "\<not> 8192 < length zs"
    using assms(2) by (simp_all add: n_def unat_of_nat)
  have "unat (of_nat padding :: u8) = padding" using padding(1) by (simp add: unat_of_nat)
  moreover have "trailing_bytes_are_zero data effective effective = Inr True"
    using padding(2) by (simp add: trailing_bytes_are_zero_def data_length)
  moreover have "\<not> (size < 20 \<or> size mod 4 \<noteq> 0)" "\<not> size - 20 < padding" "size - padding = effective"
    "padding = 0 \<Longrightarrow> size = effective"
    using padding(2,3) delta_length by simp_all
  ultimately show ?thesis
    unfolding n_def [symmetric] bytes parse_rtcp_transport_feedback_def data_length reads bindE.simps Let_def size_word
    by (cases "padding = 0") (simp_all add: size_word last count chunks deltas)
qed

section \<open>Properties\<close>

text \<open>
  C24. Transport-wide feedback survives the wire: whatever mixture of run-length, one-bit and
  two-bit chunks the encoder chooses, and whatever padding it adds, the parser returns one status
  per packet of the range, received or lost as encoded, with its receive delta.
\<close>

theorem transport_feedback_round_trip:
  assumes "deltas_fit zs deltas" and "length zs \<le> 8192"
  shows "bindE (encode_transport_feedback_packet sender media base reference count zs deltas)
      parse_rtcp_transport_feedback =
    Inr \<lparr>feedback_sender_ssrc = sender, feedback_media_ssrc = media, base_sequence_number = base,
         packet_status_count = of_nat (length zs), reference_time = reference AND 0x00FFFFFF,
         feedback_packet_count = count, statuses = feedback_statuses base zs deltas\<rparr>"
  by (simp add: encode_transport_feedback_packet_eq [OF assms(1)] parse_feedback_bytes [OF assms])

theorem transport_feedback_round_trip_witness:
  "bindE (encode_transport_feedback_packet 1 2 65535 3 4 [1, 0, 2] [7, 1000])
      parse_rtcp_transport_feedback =
    Inr \<lparr>feedback_sender_ssrc = 1, feedback_media_ssrc = 2, base_sequence_number = 65535,
         packet_status_count = 3, reference_time = 3, feedback_packet_count = 4,
         statuses = [\<lparr>status_sequence_number = 65535, received = True, delta_ticks = Some 7\<rparr>,
           \<lparr>status_sequence_number = 0, received = False, delta_ticks = None\<rparr>,
           \<lparr>status_sequence_number = 1, received = True, delta_ticks = Some 1000\<rparr>]\<rparr>"
  by (subst transport_feedback_round_trip) simp_all

end
