(* ===== verification/Rtcp_Feedback.thy ===== *)
theory Rtcp_Feedback
  imports Rtcp_Packet_Builder Rtcp_Transport_Feedback
begin

text \<open>
  Parsing of RTCP feedback (\<^verbatim>\<open>src/rtp/rtcp_feedback.cpp\<close>): generic NACK, picture loss
  indication, full intra request, receiver estimated maximum bitrate, and the dispatch to the
  transport-wide congestion control parser. The packet that the source's helpers fill through a
  reference is passed to them and returned.
\<close>

section \<open>Data\<close>

record rtcp_nack_entry =
  packet_id :: u16
  bitmask :: u16

record rtcp_fir_entry =
  entry_media_ssrc :: u32
  entry_sequence_number :: u8

record rtcp_feedback_packet =
  fb_format :: u8
  fb_packet_type :: u8
  fb_sender_ssrc :: u32
  fb_media_ssrc :: u32
  fb_nack_count :: nat
  fb_fir_count :: nat
  fb_has_generic_nack :: bool
  fb_has_keyframe_request :: bool
  fb_transport_feedback :: "parsed_rtcp_transport_feedback option"
  fb_nack_entries :: "rtcp_nack_entry list"
  fb_nack_sequence_numbers :: "u16 list"
  fb_keyframe_request_media_ssrcs :: "u32 list"
  fb_fir_entries :: "rtcp_fir_entry list"
  fb_remb_bitrate_bps :: "u64 option"

abbreviation (input) k_rtcp_feedback_header_size :: nat where "k_rtcp_feedback_header_size \<equiv> 12"

section \<open>Operations\<close>

definition rtcp_feedback_payload_end :: "rtcp_packet_header \<Rightarrow> bytes \<Rightarrow> nat result" where
  "rtcp_feedback_payload_end header data =
     (if packet_size header > length data
      then make_error ''rtcp feedback packet exceeds buffer size''
      else let payload_end = packet_size header in
        if \<not> rtcp_padding header then Inr payload_end
        else if payload_end \<le> k_rtcp_common_header_size
        then make_error ''rtcp feedback padding packet is too short''
        else bindE (read_u8 data (payload_end - 1)) (\<lambda>padding_byte.
          let padding_size = unat padding_byte in
          if padding_size = 0 then make_error ''rtcp feedback padding size is zero''
          else if padding_size > payload_end - k_rtcp_common_header_size
          then make_error ''rtcp feedback padding exceeds packet size''
          else let payload_end = payload_end - padding_size in
            if payload_end < k_rtcp_feedback_header_size
            then make_error ''rtcp feedback payload is shorter than feedback header''
            else Inr payload_end))"

definition is_feedback_packet_type :: "u8 \<Rightarrow> bool" where
  "is_feedback_packet_type packet_type \<longleftrightarrow>
     packet_type = k_rtcp_packet_type_transport_feedback \<or>
     packet_type = k_rtcp_packet_type_payload_feedback"

definition is_remb_fci :: "bytes \<Rightarrow> nat \<Rightarrow> nat \<Rightarrow> bool result" where
  "is_remb_fci data offset end_offset =
     (if offset + 4 > end_offset then Inr False
      else
        bindE (read_u8 data offset) (\<lambda>a.
        bindE (read_u8 data (offset + 1)) (\<lambda>b.
        bindE (read_u8 data (offset + 2)) (\<lambda>c.
        bindE (read_u8 data (offset + 3)) (\<lambda>d.
        Inr (a = 82 \<and> b = 69 \<and> c = 77 \<and> d = 66))))))"

text \<open>The sequence numbers one NACK entry asks for: the packet id, then one per set bit.\<close>

definition expand_nack_entry :: "u16 \<Rightarrow> u16 \<Rightarrow> u16 list" where
  "expand_nack_entry pid blp =
     pid # map (\<lambda>b. pid + of_nat (b + 1)) (filter (\<lambda>b. blp AND push_bit b 1 \<noteq> 0) [0..<16])"

function parse_nack_loop ::
  "bytes \<Rightarrow> nat \<Rightarrow> nat \<Rightarrow> rtcp_feedback_packet \<Rightarrow> rtcp_feedback_packet result" where
  "parse_nack_loop data current end_offset packet =
     (if current < end_offset then
        bindE (read_u16 data current) (\<lambda>pid.
        bindE (read_u16 data (current + 2)) (\<lambda>blp.
        parse_nack_loop data (current + 4) end_offset
          (packet\<lparr>fb_nack_entries :=
                    fb_nack_entries packet @ [\<lparr>packet_id = pid, bitmask = blp\<rparr>],
                  fb_nack_sequence_numbers :=
                    fb_nack_sequence_numbers packet @ expand_nack_entry pid blp\<rparr>)))
      else Inr packet)"
  by pat_completeness auto
termination
  by (relation "measure (\<lambda>(data, current, end_offset, packet). end_offset - current)") auto

definition parse_generic_nack ::
  "bytes \<Rightarrow> nat \<Rightarrow> nat \<Rightarrow> rtcp_feedback_packet \<Rightarrow> rtcp_feedback_packet result" where
  "parse_generic_nack data offset end_offset packet =
     (let fci_size = end_offset - offset in
      if fci_size mod 4 \<noteq> 0 then make_error ''rtcp nack fci size is invalid''
      else parse_nack_loop data offset end_offset
             (packet\<lparr>fb_has_generic_nack := True, fb_nack_count := fci_size div 4\<rparr>))"

definition parse_pli :: "nat \<Rightarrow> nat \<Rightarrow> rtcp_feedback_packet \<Rightarrow> rtcp_feedback_packet result" where
  "parse_pli offset end_offset packet =
     (if offset \<noteq> end_offset then make_error ''rtcp pli fci must be empty''
      else let packet = packet\<lparr>fb_has_keyframe_request := True\<rparr> in
        if fb_media_ssrc packet \<noteq> 0
        then Inr (packet\<lparr>fb_keyframe_request_media_ssrcs :=
               fb_keyframe_request_media_ssrcs packet @ [fb_media_ssrc packet]\<rparr>)
        else Inr packet)"

function parse_fir_loop ::
  "bytes \<Rightarrow> nat \<Rightarrow> nat \<Rightarrow> rtcp_feedback_packet \<Rightarrow> rtcp_feedback_packet result" where
  "parse_fir_loop data current end_offset packet =
     (if current < end_offset then
        bindE (read_u32 data current) (\<lambda>media.
        bindE (read_u8 data (current + 4)) (\<lambda>seq.
        let packet = packet\<lparr>fb_fir_entries := fb_fir_entries packet @
              [\<lparr>entry_media_ssrc = media, entry_sequence_number = seq\<rparr>]\<rparr> in
        parse_fir_loop data (current + 8) end_offset
          (if media \<noteq> 0
           then packet\<lparr>fb_keyframe_request_media_ssrcs :=
                  fb_keyframe_request_media_ssrcs packet @ [media]\<rparr>
           else packet)))
      else Inr packet)"
  by pat_completeness auto
termination
  by (relation "measure (\<lambda>(data, current, end_offset, packet). end_offset - current)") auto

definition parse_fir ::
  "bytes \<Rightarrow> nat \<Rightarrow> nat \<Rightarrow> rtcp_feedback_packet \<Rightarrow> rtcp_feedback_packet result" where
  "parse_fir data offset end_offset packet =
     (let fci_size = end_offset - offset in
      if fci_size mod 8 \<noteq> 0 then make_error ''rtcp fir fci size is invalid''
      else parse_fir_loop data offset end_offset
             (packet\<lparr>fb_has_keyframe_request := True, fb_fir_count := fci_size div 8\<rparr>))"

text \<open>\<^verbatim>\<open>static_cast<uint64_t>(bitrate_mantissa) << bitrate_exponent\<close>, at 64 bits.\<close>

definition remb_bitrate :: "u8 \<Rightarrow> u8 \<Rightarrow> u8 \<Rightarrow> u64" where
  "remb_bitrate b5 b6 b7 =
     (let bitrate_exponent = drop_bit 2 b5;
          bitrate_mantissa = be24 (b5 AND 0x03) b6 b7 in
      push_bit (unat bitrate_exponent) (ucast bitrate_mantissa))"

definition parse_remb ::
  "bytes \<Rightarrow> nat \<Rightarrow> nat \<Rightarrow> rtcp_feedback_packet \<Rightarrow> rtcp_feedback_packet result" where
  "parse_remb data offset end_offset packet =
     bindE (is_remb_fci data offset end_offset) (\<lambda>is_remb.
     if \<not> is_remb then Inr packet
     else if offset + 8 > end_offset then make_error ''rtcp remb fci is truncated''
     else
       bindE (read_u8 data (offset + 4)) (\<lambda>ssrc_count.
       bindE (read_u8 data (offset + 5)) (\<lambda>b5.
       bindE (read_u8 data (offset + 6)) (\<lambda>b6.
       bindE (read_u8 data (offset + 7)) (\<lambda>b7.
       let ssrc_offset = offset + 8; required_size = ssrc_offset + unat ssrc_count * 4 in
       if required_size > end_offset then make_error ''rtcp remb ssrc list is truncated''
       else Inr (packet\<lparr>fb_remb_bitrate_bps := Some (remb_bitrate b5 b6 b7)\<rparr>))))))"

definition parse_transport_feedback ::
  "bytes \<Rightarrow> nat \<Rightarrow> nat \<Rightarrow> rtcp_feedback_packet \<Rightarrow> rtcp_feedback_packet result" where
  "parse_transport_feedback data offset end_offset packet =
     (if fb_format packet = 1 then parse_generic_nack data offset end_offset packet
      else if fb_format packet = 15
      then bindE (parse_rtcp_transport_feedback data) (\<lambda>feedback.
        Inr (packet\<lparr>fb_transport_feedback := Some feedback\<rparr>))
      else Inr packet)"

definition parse_payload_feedback ::
  "bytes \<Rightarrow> nat \<Rightarrow> nat \<Rightarrow> rtcp_feedback_packet \<Rightarrow> rtcp_feedback_packet result" where
  "parse_payload_feedback data offset end_offset packet =
     (if fb_format packet = 1 then parse_pli offset end_offset packet
      else if fb_format packet = 4 then parse_fir data offset end_offset packet
      else if fb_format packet = 15 then parse_remb data offset end_offset packet
      else Inr packet)"

definition is_rtcp_feedback_packet :: "bytes \<Rightarrow> bool" where
  "is_rtcp_feedback_packet data =
     (case parse_rtcp_packet_header data of
        Inl _ \<Rightarrow> False
      | Inr header \<Rightarrow> is_feedback_packet_type (rtcp_packet_type header))"

definition empty_feedback :: "u8 \<Rightarrow> u8 \<Rightarrow> u32 \<Rightarrow> u32 \<Rightarrow> rtcp_feedback_packet" where
  "empty_feedback fmt packet_type sender media =
     \<lparr>fb_format = fmt, fb_packet_type = packet_type, fb_sender_ssrc = sender,
      fb_media_ssrc = media, fb_nack_count = 0, fb_fir_count = 0, fb_has_generic_nack = False,
      fb_has_keyframe_request = False, fb_transport_feedback = None, fb_nack_entries = [],
      fb_nack_sequence_numbers = [], fb_keyframe_request_media_ssrcs = [], fb_fir_entries = [],
      fb_remb_bitrate_bps = None\<rparr>"

definition parse_rtcp_feedback_packet :: "bytes \<Rightarrow> rtcp_feedback_packet result" where
  "parse_rtcp_feedback_packet data =
     bindE (parse_rtcp_packet_header data) (\<lambda>header.
     if \<not> is_feedback_packet_type (rtcp_packet_type header)
     then make_error ''rtcp packet is not feedback''
     else if packet_size header < k_rtcp_feedback_header_size
     then make_error ''rtcp feedback packet is shorter than feedback header''
     else bindE (rtcp_feedback_payload_end header data) (\<lambda>payload_end.
       bindE (read_u32 data 4) (\<lambda>sender.
       bindE (read_u32 data 8) (\<lambda>media.
       let packet = empty_feedback (rtcp_count header) (rtcp_packet_type header) sender media in
       if fb_packet_type packet = k_rtcp_packet_type_transport_feedback
       then parse_transport_feedback data k_rtcp_feedback_header_size payload_end packet
       else parse_payload_feedback data k_rtcp_feedback_header_size payload_end packet))))"

definition rtcp_feedback_format_to_string :: "u8 \<Rightarrow> u8 \<Rightarrow> string" where
  "rtcp_feedback_format_to_string packet_type fmt =
     (if packet_type = k_rtcp_packet_type_transport_feedback then
        if fmt = 1 then ''generic_nack'' else if fmt = 3 then ''tmmbr''
        else if fmt = 4 then ''tmmbn'' else if fmt = 15 then ''transport_cc''
        else ''transport_feedback_unknown''
      else if packet_type = k_rtcp_packet_type_payload_feedback then
        if fmt = 1 then ''pli'' else if fmt = 2 then ''sli'' else if fmt = 3 then ''rpsi''
        else if fmt = 4 then ''fir'' else if fmt = 15 then ''afb''
        else ''payload_feedback_unknown''
      else ''unknown'')"

section \<open>Specification of a NACK packet\<close>

text \<open>
  A generic NACK with its entries (RFC 4585, section 6.2.1), and the set of sequence numbers that
  an entry reports lost.
\<close>

definition enc_nack_entry :: "rtcp_nack_entry \<Rightarrow> bytes" where
  "enc_nack_entry e = enc_u16 (packet_id e) @ enc_u16 (bitmask e)"

definition nack_bytes :: "u32 \<Rightarrow> u32 \<Rightarrow> rtcp_nack_entry list \<Rightarrow> bytes" where
  "nack_bytes sender media es =
     rtcp_header_bytes 1 205 (12 + length es * 4) @ enc_u32 sender @ enc_u32 media
     @ concat (map enc_nack_entry es)"

definition lost_packets :: "rtcp_nack_entry \<Rightarrow> u16 set" where
  "lost_packets e = {packet_id e} \<union> {packet_id e + of_nat (i + 1) | i. i < 16 \<and> bit (bitmask e) i}"

declare parse_nack_loop.simps [simp del] parse_fir_loop.simps [simp del]

section \<open>Memory safety\<close>

interpretation feedback_end: rtcp_payload_bounds rtcp_feedback_payload_end
  by unfold_locales
    (auto simp: rtcp_feedback_payload_end_def content_end_def Let_def
      elim!: parse_rtcp_packet_headerE split: if_splits)

lemma feedback_payload_end_header:
  "rtcp_feedback_payload_end header data = Inr n \<Longrightarrow> 12 \<le> packet_size header \<Longrightarrow> 12 \<le> n"
  by (auto simp: rtcp_feedback_payload_end_def Let_def bindE_Inr_iff split: if_splits)

lemma parse_nack_loop_safe:
  assumes "end_offset \<le> length data" and "(end_offset - current) mod 4 = 0"
  shows "fault_free (parse_nack_loop data current end_offset packet)"
  using assms
proof (induction data current end_offset packet rule: parse_nack_loop.induct)
  case (1 data current end_offset packet)
  show ?case
  proof (cases "current < end_offset")
    case True
    then have room: "current + 4 \<le> end_offset" "(end_offset - (current + 4)) mod 4 = 0"
      using "1.prems"(2) by presburger+
    then show ?thesis
      using 1 True by (subst parse_nack_loop.simps) (auto intro!: fault_free_bindE)
  qed (subst parse_nack_loop.simps, simp)
qed

lemma parse_fir_loop_safe:
  assumes "end_offset \<le> length data" and "(end_offset - current) mod 8 = 0"
  shows "fault_free (parse_fir_loop data current end_offset packet)"
  using assms
proof (induction data current end_offset packet rule: parse_fir_loop.induct)
  case (1 data current end_offset packet)
  show ?case
  proof (cases "current < end_offset")
    case True
    then have room: "current + 8 \<le> end_offset" "(end_offset - (current + 8)) mod 8 = 0"
      using "1.prems"(2) by presburger+
    then show ?thesis
      using 1 True by (subst parse_fir_loop.simps) (auto simp: Let_def intro!: fault_free_bindE)
  qed (subst parse_fir_loop.simps, simp)
qed

lemma parse_remb_safe:
  "end_offset \<le> length data \<Longrightarrow> fault_free (parse_remb data offset end_offset packet)"
  by (auto simp: parse_remb_def is_remb_fci_def Let_def intro!: fault_free_bindE)

lemma parse_rtcp_feedback_packet_safe [safe]: "fault_free (parse_rtcp_feedback_packet data)"
proof (cases "parse_rtcp_packet_header data")
  case (Inl e)
  then show ?thesis using parse_rtcp_packet_header_safe [of data]
    by (simp add: parse_rtcp_feedback_packet_def fault_free_def)
next
  case (Inr header)
  have "fault_free (parse_transport_feedback data 12 n packet)"
    "fault_free (parse_payload_feedback data 12 n packet)"
    if "n \<le> length data" for n packet
    using that parse_rtcp_transport_feedback_safe [of data]
    by (auto simp: parse_transport_feedback_def parse_payload_feedback_def parse_generic_nack_def
        parse_fir_def parse_pli_def Let_def
        intro!: fault_free_bindE parse_nack_loop_safe parse_fir_loop_safe parse_remb_safe)
  moreover have "12 \<le> packet_size header \<Longrightarrow> 12 \<le> length data"
    using Inr by (auto elim: parse_rtcp_packet_headerE)
  ultimately show ?thesis
    using Inr feedback_end.payload_end_bounds(3) [OF Inr] feedback_end.payload_end_safe [OF Inr]
    by (auto simp: parse_rtcp_feedback_packet_def Let_def intro!: fault_free_bindE)
qed

section \<open>Loops on encoded entries\<close>

lemma enc_nack_entry_length [simp]: "length (enc_nack_entry e) = 4"
  by (simp add: enc_nack_entry_def)

lemma concat_enc_nack_length [simp]: "length (concat (map enc_nack_entry es)) = length es * 4"
  by (induction es) auto

lemma concat_enc_fir_length [simp]: "length (concat (map enc_fir_request fs)) = length fs * 8"
  by (induction fs) auto

lemma nack_entry_eta [simp]: "\<lparr>packet_id = packet_id e, bitmask = bitmask e\<rparr> = e"
  by (cases e) simp

lemma parse_nack_loop_enc:
  assumes "length pre = current" and "end_offset = current + length es * 4"
  shows "parse_nack_loop (pre @ concat (map enc_nack_entry es) @ post) current end_offset packet =
    Inr (packet\<lparr>fb_nack_entries := fb_nack_entries packet @ es,
      fb_nack_sequence_numbers := fb_nack_sequence_numbers packet
        @ concat (map (\<lambda>e. expand_nack_entry (packet_id e) (bitmask e)) es)\<rparr>)"
  using assms
proof (induction es arbitrary: pre current packet)
  case Nil
  then show ?case by (subst parse_nack_loop.simps) simp
next
  case (Cons e es)
  let ?packet = "packet\<lparr>fb_nack_entries := fb_nack_entries packet @ [e],
      fb_nack_sequence_numbers := fb_nack_sequence_numbers packet
        @ expand_nack_entry (packet_id e) (bitmask e)\<rparr>"
  have "parse_nack_loop ((pre @ enc_nack_entry e) @ concat (map enc_nack_entry es) @ post)
      (current + 4) end_offset ?packet =
    Inr (?packet\<lparr>fb_nack_entries := fb_nack_entries ?packet @ es,
      fb_nack_sequence_numbers := fb_nack_sequence_numbers ?packet
        @ concat (map (\<lambda>e. expand_nack_entry (packet_id e) (bitmask e)) es)\<rparr>)"
    by (rule Cons.IH) (use Cons.prems in auto)
  moreover have "read_u16 (pre @ enc_nack_entry e @ xs) current = Inr (packet_id e)"
    "read_u16 (pre @ enc_nack_entry e @ xs) (current + 2) = Inr (bitmask e)" for xs
    using Cons.prems(1) by (simp_all add: enc_nack_entry_def wire del: access)
  ultimately show ?case using Cons.prems by (subst parse_nack_loop.simps) simp
qed

lemma parse_fir_loop_enc:
  assumes "length pre = current" and "end_offset = current + length fs * 8"
    and "list_all (\<lambda>f. fir_media_ssrc f \<noteq> 0) fs"
  shows "parse_fir_loop (pre @ concat (map enc_fir_request fs) @ post) current end_offset packet =
    Inr (packet\<lparr>fb_fir_entries := fb_fir_entries packet
        @ map (\<lambda>f. \<lparr>entry_media_ssrc = fir_media_ssrc f,
                    entry_sequence_number = fir_sequence_number f\<rparr>) fs,
      fb_keyframe_request_media_ssrcs :=
        fb_keyframe_request_media_ssrcs packet @ map fir_media_ssrc fs\<rparr>)"
  using assms
proof (induction fs arbitrary: pre current packet)
  case Nil
  then show ?case by (subst parse_fir_loop.simps) simp
next
  case (Cons f fs)
  let ?packet = "packet\<lparr>fb_fir_entries := fb_fir_entries packet
        @ [\<lparr>entry_media_ssrc = fir_media_ssrc f, entry_sequence_number = fir_sequence_number f\<rparr>],
      fb_keyframe_request_media_ssrcs :=
        fb_keyframe_request_media_ssrcs packet @ [fir_media_ssrc f]\<rparr>"
  have "parse_fir_loop ((pre @ enc_fir_request f) @ concat (map enc_fir_request fs) @ post)
      (current + 8) end_offset ?packet =
    Inr (?packet\<lparr>fb_fir_entries := fb_fir_entries ?packet
        @ map (\<lambda>f. \<lparr>entry_media_ssrc = fir_media_ssrc f,
                    entry_sequence_number = fir_sequence_number f\<rparr>) fs,
      fb_keyframe_request_media_ssrcs :=
        fb_keyframe_request_media_ssrcs ?packet @ map fir_media_ssrc fs\<rparr>)"
    by (rule Cons.IH) (use Cons.prems in auto)
  moreover have "read_u32 (pre @ enc_fir_request f @ xs) current = Inr (fir_media_ssrc f)"
    "read_u8 (pre @ enc_fir_request f @ xs) (current + 4) = Inr (fir_sequence_number f)" for xs
    using Cons.prems(1) by (simp_all add: enc_fir_request_def wire del: access)
  ultimately show ?case using Cons.prems by (subst parse_fir_loop.simps) (simp add: Let_def)
qed

lemma set_expand_nack_entry: "set (expand_nack_entry (packet_id e) (bitmask e)) = lost_packets e"
  by (auto simp: expand_nack_entry_def lost_packets_def push_bit_eq_mult and_exp_eq_0_iff_not_bit)

section \<open>Properties\<close>

lemma built_feedback_header:
  assumes "n = 12 + length xs" and "n mod 4 = 0" and "n div 4 \<le> 65536" and "unat c \<le> 31"
    and "t = 205 \<or> t = 206"
  shows "parse_rtcp_feedback_packet (rtcp_header_bytes c t n @ enc_u32 sender @ enc_u32 media @ xs) =
    (if t = 205
     then parse_transport_feedback (rtcp_header_bytes c t n @ enc_u32 sender @ enc_u32 media @ xs)
       12 n (empty_feedback c t sender media)
     else parse_payload_feedback (rtcp_header_bytes c t n @ enc_u32 sender @ enc_u32 media @ xs)
       12 n (empty_feedback c t sender media))"
proof -
  let ?data = "rtcp_header_bytes c t n @ enc_u32 sender @ enc_u32 media @ xs"
  have "parse_rtcp_packet_header ?data =
      Inr \<lparr>rtcp_padding = False, rtcp_count = c, rtcp_packet_type = t,
        rtcp_length = of_nat (n div 4 - 1), packet_size = n, has_ssrc = True, rtcp_ssrc = sender\<rparr>"
    using assms by (intro parse_rtcp_packet_header_built) auto
  moreover have "read_u32 ?data 4 = Inr sender" "read_u32 ?data 8 = Inr media"
    by (simp_all add: wire del: access)
  ultimately show ?thesis using assms
    by (auto simp: parse_rtcp_feedback_packet_def rtcp_feedback_payload_end_def Let_def
        is_feedback_packet_type_def empty_feedback_def)
qed

text \<open>
  A generic NACK is read back entry by entry, and the sequence numbers the sender is asked to
  retransmit are exactly those the entries report lost.
\<close>

theorem parse_generic_nack_packet:
  assumes "length es \<le> 65533"
  shows "\<exists>packet. parse_rtcp_feedback_packet (nack_bytes sender media es) = Inr packet
    \<and> fb_has_generic_nack packet \<and> fb_nack_count packet = length es
    \<and> fb_sender_ssrc packet = sender \<and> fb_media_ssrc packet = media
    \<and> fb_nack_entries packet = es
    \<and> set (fb_nack_sequence_numbers packet) = (\<Union>e \<in> set es. lost_packets e)"
proof -
  let ?pre = "rtcp_header_bytes 1 205 (12 + length es * 4) @ enc_u32 sender @ enc_u32 media"
  have "parse_nack_loop (?pre @ concat (map enc_nack_entry es) @ []) 12 (12 + length es * 4) packet =
    Inr (packet\<lparr>fb_nack_entries := fb_nack_entries packet @ es,
      fb_nack_sequence_numbers := fb_nack_sequence_numbers packet
        @ concat (map (\<lambda>e. expand_nack_entry (packet_id e) (bitmask e)) es)\<rparr>)" for packet
    by (rule parse_nack_loop_enc) simp_all
  then show ?thesis
    using assms built_feedback_header [of "12 + length es * 4" "concat (map enc_nack_entry es)" 1 205
        sender media]
    by (simp add: nack_bytes_def parse_transport_feedback_def parse_generic_nack_def Let_def
        empty_feedback_def set_expand_nack_entry mod_mult_self2_is_0)
qed

theorem parse_generic_nack_packet_witness:
  "\<exists>packet. parse_rtcp_feedback_packet (nack_bytes 1 2 [\<lparr>packet_id = 65535, bitmask = 5\<rparr>]) = Inr packet
    \<and> fb_nack_entries packet = [\<lparr>packet_id = 65535, bitmask = 5\<rparr>]"
  using parse_generic_nack_packet [of "[\<lparr>packet_id = 65535, bitmask = 5\<rparr>]" 1 2] by auto

text \<open>
  A full intra request built by this program is read back with its entries: every requested
  source is reported as a keyframe request, in order.
\<close>

theorem fir_round_trip:
  assumes "sender \<noteq> 0" and "fs \<noteq> []" and "length fs \<le> 32766"
    and "list_all (\<lambda>f. fir_media_ssrc f \<noteq> 0) fs"
  shows "bindE (build_rtcp_full_intra_request sender fs) parse_rtcp_feedback_packet =
    Inr ((empty_feedback 4 206 sender 0)\<lparr>fb_has_keyframe_request := True,
      fb_fir_count := length fs,
      fb_keyframe_request_media_ssrcs := map fir_media_ssrc fs,
      fb_fir_entries := map (\<lambda>f. \<lparr>entry_media_ssrc = fir_media_ssrc f,
        entry_sequence_number = fir_sequence_number f\<rparr>) fs\<rparr>)"
proof -
  let ?pre = "rtcp_header_bytes 4 206 (12 + length fs * 8) @ enc_u32 sender @ enc_u32 0"
  have "parse_fir_loop (?pre @ concat (map enc_fir_request fs) @ []) 12 (12 + length fs * 8) packet =
    Inr (packet\<lparr>fb_fir_entries := fb_fir_entries packet
        @ map (\<lambda>f. \<lparr>entry_media_ssrc = fir_media_ssrc f,
                    entry_sequence_number = fir_sequence_number f\<rparr>) fs,
      fb_keyframe_request_media_ssrcs :=
        fb_keyframe_request_media_ssrcs packet @ map fir_media_ssrc fs\<rparr>)" for packet
    by (rule parse_fir_loop_enc) (simp_all add: assms(4))
  moreover have "(12 + length fs * 8) mod 4 = 0" by presburger
  ultimately show ?thesis
    using assms built_feedback_header [of "12 + length fs * 8" "concat (map enc_fir_request fs)" 4 206
        sender 0]
    by (simp add: build_rtcp_full_intra_request_eq fir_bytes_def parse_payload_feedback_def
        parse_fir_def Let_def empty_feedback_def)
qed

theorem fir_round_trip_witness:
  "ok (bindE (build_rtcp_full_intra_request 1 [\<lparr>fir_media_ssrc = 7, fir_sequence_number = 3\<rparr>])
    parse_rtcp_feedback_packet)"
  by (subst fir_round_trip) simp_all

text \<open>
  A picture loss indication built by this program is read back as a keyframe request for the
  media source it names.
\<close>

theorem pli_round_trip:
  assumes "sender \<noteq> 0" and "media \<noteq> 0"
  shows "bindE (build_rtcp_picture_loss_indication sender media) parse_rtcp_feedback_packet =
    Inr ((empty_feedback 1 206 sender media)\<lparr>fb_has_keyframe_request := True,
      fb_keyframe_request_media_ssrcs := [media]\<rparr>)"
  using assms built_feedback_header [of 12 "[]" 1 206 sender media]
  by (simp add: build_rtcp_picture_loss_indication_eq pli_bytes_def parse_payload_feedback_def
      parse_pli_def Let_def empty_feedback_def)

theorem pli_round_trip_witness:
  "ok (bindE (build_rtcp_picture_loss_indication 1 2) parse_rtcp_feedback_packet)"
  by (subst pli_round_trip) simp_all

text \<open>
  The bitrate of a REMB message is mantissa times two to the exponent, reduced modulo
  \<open>2 ^ 64\<close>: the shift of the source silently drops high bits for the exponents above 46.
\<close>

theorem remb_bitrate_value:
  "unat (remb_bitrate b5 b6 b7) =
     (unat (be24 (b5 AND 0x03) b6 b7) * 2 ^ unat (drop_bit 2 b5)) mod 2 ^ 64"
proof -
  have "unat (ucast m :: u64) = unat m" for m :: u32
    using unsigned_less [of m, where ?'a = nat]
    by (simp add: unsigned_ucast_eq unsigned_take_bit_eq take_bit_nat_eq_self less_trans)
  then show ?thesis
    unfolding remb_bitrate_def Let_def unsigned_push_bit_eq
    by (simp add: push_bit_eq_mult take_bit_eq_mod)
qed

end
