(* ===== verification/Rtcp_Compound_Packet.thy ===== *)
theory Rtcp_Compound_Packet
  imports Rtcp_Feedback
begin

text \<open>
  Parsing of incoming RTCP datagrams (\<^verbatim>\<open>src/rtp/rtcp_compound_packet.cpp\<close>): source description
  and goodbye packets, and the loop that cuts a datagram into its packets, parses each and
  aggregates what the session transports ask for. CNAMEs and reasons are byte sequences.
\<close>

section \<open>Data\<close>

record rtcp_sdes_item =
  item_type :: u8
  item_value :: bytes

record rtcp_sdes_chunk =
  chunk_ssrc :: u32
  chunk_cname :: bytes
  chunk_items :: "rtcp_sdes_item list"

record rtcp_bye_packet =
  bye_ssrcs :: "u32 list"
  bye_reason :: bytes

record rtcp_compound_block =
  block_count :: u8
  block_packet_type :: u8
  block_length :: u16
  block_has_ssrc :: bool
  block_ssrc :: u32
  packet_type_name :: string
  is_feedback :: bool
  is_report :: bool
  is_sdes :: bool
  is_bye :: bool
  is_unknown :: bool
  feedback_name :: string
  block_sender_ssrc :: u32
  block_media_ssrc :: u32
  block_nack_count :: nat
  block_fir_count :: nat
  block_has_generic_nack :: bool
  block_has_keyframe_request :: bool
  block_transport_feedback :: "parsed_rtcp_transport_feedback option"
  block_nack_entries :: "rtcp_nack_entry list"
  block_nack_sequence_numbers :: "u16 list"
  block_keyframe_request_media_ssrcs :: "u32 list"
  block_fir_entries :: "rtcp_fir_entry list"
  block_has_remb :: bool
  block_remb_bitrate_bps :: u64

record rtcp_compound_packet =
  blocks :: "rtcp_compound_block list"
  feedback_block_count :: nat
  pli_count :: nat
  fir_block_count :: nat
  nack_count :: nat
  fir_count :: nat
  generic_nack_block_count :: nat
  transport_cc_block_count :: nat
  remb_block_count :: nat
  other_feedback_block_count :: nat
  has_feedback :: bool
  has_generic_nack :: bool
  has_keyframe_request :: bool
  nack_entries :: "rtcp_nack_entry list"
  nack_sequence_numbers :: "u16 list"
  keyframe_request_media_ssrcs :: "u32 list"
  fir_entries :: "rtcp_fir_entry list"
  has_remb :: bool
  remb_bitrate_bps :: u64
  report_packet_count :: nat
  sender_report_count :: nat
  receiver_report_count :: nat
  report_block_count :: nat
  report_packets :: "rtcp_report_packet list"
  sdes_packet_count :: nat
  sdes_chunks :: "rtcp_sdes_chunk list"
  bye_packets :: "rtcp_bye_packet list"
  has_bye :: bool
  unknown_block_count :: nat

abbreviation (input) k_rtcp_sdes_item_end :: u8 where "k_rtcp_sdes_item_end \<equiv> 0"
abbreviation (input) k_rtcp_sdes_item_cname :: u8 where "k_rtcp_sdes_item_cname \<equiv> 1"
abbreviation (input) k_rtcp_ssrc_size :: nat where "k_rtcp_ssrc_size \<equiv> 4"

section \<open>Source descriptions and goodbyes\<close>

function zero_range :: "bytes \<Rightarrow> nat \<Rightarrow> nat \<Rightarrow> bool result" where
  "zero_range data offset end_offset =
     (if offset < end_offset then
        bindE (read_u8 data offset) (\<lambda>b.
        if b \<noteq> 0 then Inr False else zero_range data (offset + 1) end_offset)
      else Inr True)"
  by pat_completeness auto
termination
  by (relation "measure (\<lambda>(data, offset, end_offset). end_offset - offset)") auto

definition compound_trailing_bytes_are_zero :: "bytes \<Rightarrow> nat \<Rightarrow> nat \<Rightarrow> bool result" where
  "compound_trailing_bytes_are_zero data offset end_offset =
     (if offset > end_offset \<or> end_offset > length data then Inr False
      else zero_range data offset end_offset)"

definition rtcp_payload_end :: "string \<Rightarrow> rtcp_packet_header \<Rightarrow> bytes \<Rightarrow> nat result" where
  "rtcp_payload_end packet_name header data =
     (if packet_size header > length data
      then make_error (''rtcp '' @ packet_name @ '' packet exceeds buffer size'')
      else let payload_end = packet_size header in
        if \<not> rtcp_padding header then Inr payload_end
        else if payload_end \<le> k_rtcp_common_header_size
        then make_error (''rtcp '' @ packet_name @ '' padding packet is too short'')
        else bindE (read_u8 data (payload_end - 1)) (\<lambda>padding_byte.
          let padding_size = unat padding_byte in
          if padding_size = 0
          then make_error (''rtcp '' @ packet_name @ '' padding size is zero'')
          else if padding_size > payload_end - k_rtcp_common_header_size
          then make_error (''rtcp '' @ packet_name @ '' padding exceeds packet size'')
          else Inr (payload_end - padding_size)))"

text \<open>The loop over the items of one chunk; it ends at the end item or at the end of the payload.\<close>

function parse_sdes_items :: "bytes \<Rightarrow> nat \<Rightarrow> nat \<Rightarrow> rtcp_sdes_chunk \<Rightarrow> (rtcp_sdes_chunk \<times> nat) result" where
  "parse_sdes_items data payload_end offset chunk =
     (if offset < payload_end then
        bindE (read_u8 data offset) (\<lambda>type.
        let offset = offset + 1 in
        if type = k_rtcp_sdes_item_end then
          let aligned_offset = align4 offset in
          if aligned_offset > payload_end
          then make_error ''rtcp sdes chunk padding is truncated''
          else bindE (compound_trailing_bytes_are_zero data offset aligned_offset) (\<lambda>zero.
            if \<not> zero then make_error ''rtcp sdes chunk padding is not zero''
            else Inr (chunk, aligned_offset))
        else if offset \<ge> payload_end
        then make_error ''rtcp sdes item length is truncated''
        else bindE (read_u8 data offset) (\<lambda>size_byte.
          let item_size = unat size_byte; offset = offset + 1 in
          if offset + item_size > payload_end
          then make_error ''rtcp sdes item value is truncated''
          else bindE (subspan data offset item_size) (\<lambda>val.
            let chunk = (if type = k_rtcp_sdes_item_cname \<and> chunk_cname chunk = []
                         then chunk\<lparr>chunk_cname := val\<rparr> else chunk) in
            parse_sdes_items data payload_end (offset + item_size)
              (chunk\<lparr>chunk_items := chunk_items chunk
                 @ [\<lparr>item_type = type, item_value = val\<rparr>]\<rparr>))))
      else make_error ''rtcp sdes chunk end item is missing'')"
  by pat_completeness auto
termination
  by (relation "measure (\<lambda>(data, payload_end, offset, chunk). payload_end - offset)") auto

fun parse_sdes_chunks :: "bytes \<Rightarrow> nat \<Rightarrow> nat \<Rightarrow> nat \<Rightarrow> (rtcp_sdes_chunk list \<times> nat) result" where
  "parse_sdes_chunks data payload_end offset 0 = Inr ([], offset)"
| "parse_sdes_chunks data payload_end offset (Suc remaining) =
     (if offset + k_rtcp_ssrc_size > payload_end
      then make_error ''rtcp sdes chunk ssrc is truncated''
      else
        bindE (read_u32 data offset) (\<lambda>ssrc.
        bindE (parse_sdes_items data payload_end (offset + k_rtcp_ssrc_size)
                 \<lparr>chunk_ssrc = ssrc, chunk_cname = [], chunk_items = []\<rparr>) (\<lambda>(chunk, offset).
        bindE (parse_sdes_chunks data payload_end offset remaining) (\<lambda>(chunks, offset).
        Inr (chunk # chunks, offset)))))"

definition parse_rtcp_sdes_packet :: "bytes \<Rightarrow> rtcp_sdes_chunk list result" where
  "parse_rtcp_sdes_packet data =
     bindE (parse_rtcp_packet_header data) (\<lambda>header.
     if rtcp_packet_type header \<noteq> k_rtcp_packet_type_sdes
     then make_error ''rtcp packet is not sdes''
     else bindE (rtcp_payload_end ''sdes'' header data) (\<lambda>payload_end.
       bindE (parse_sdes_chunks data payload_end k_rtcp_common_header_size
                (unat (rtcp_count header))) (\<lambda>(chunks, offset).
       if offset \<noteq> payload_end
       then make_error ''rtcp sdes packet has trailing payload bytes''
       else Inr chunks)))"

fun parse_bye_ssrcs :: "bytes \<Rightarrow> nat \<Rightarrow> nat \<Rightarrow> nat \<Rightarrow> (u32 list \<times> nat) result" where
  "parse_bye_ssrcs data payload_end offset 0 = Inr ([], offset)"
| "parse_bye_ssrcs data payload_end offset (Suc remaining) =
     (if offset + k_rtcp_ssrc_size > payload_end
      then make_error ''rtcp bye ssrc list is truncated''
      else
        bindE (read_u32 data offset) (\<lambda>ssrc.
        bindE (parse_bye_ssrcs data payload_end (offset + k_rtcp_ssrc_size) remaining)
          (\<lambda>(ssrcs, offset). Inr (ssrc # ssrcs, offset))))"

definition parse_rtcp_bye_packet :: "bytes \<Rightarrow> rtcp_bye_packet result" where
  "parse_rtcp_bye_packet data =
     bindE (parse_rtcp_packet_header data) (\<lambda>header.
     if rtcp_packet_type header \<noteq> k_rtcp_packet_type_bye
     then make_error ''rtcp packet is not bye''
     else bindE (rtcp_payload_end ''bye'' header data) (\<lambda>payload_end.
       bindE (parse_bye_ssrcs data payload_end k_rtcp_common_header_size
                (unat (rtcp_count header))) (\<lambda>(ssrcs, offset).
       if offset = payload_end then Inr \<lparr>bye_ssrcs = ssrcs, bye_reason = []\<rparr>
       else bindE (read_u8 data offset) (\<lambda>size_byte.
         let reason_size = unat size_byte; offset = offset + 1 in
         if offset + reason_size > payload_end
         then make_error ''rtcp bye reason is truncated''
         else
           bindE (subspan data offset reason_size) (\<lambda>reason.
           bindE (compound_trailing_bytes_are_zero data (offset + reason_size) payload_end) (\<lambda>zero.
           if \<not> zero then make_error ''rtcp bye reason padding is not zero''
           else Inr \<lparr>bye_ssrcs = ssrcs, bye_reason = reason\<rparr>))))))"

section \<open>Aggregation\<close>

definition make_block_from_header :: "rtcp_packet_header \<Rightarrow> rtcp_compound_block" where
  "make_block_from_header header =
     \<lparr>block_count = rtcp_count header, block_packet_type = rtcp_packet_type header,
      block_length = rtcp_length header, block_has_ssrc = has_ssrc header,
      block_ssrc = rtcp_ssrc header,
      packet_type_name = rtcp_packet_type_to_string (rtcp_packet_type header),
      is_feedback = False, is_report = False, is_sdes = False, is_bye = False, is_unknown = False,
      feedback_name = [], block_sender_ssrc = 0, block_media_ssrc = 0, block_nack_count = 0,
      block_fir_count = 0, block_has_generic_nack = False, block_has_keyframe_request = False,
      block_transport_feedback = None, block_nack_entries = [], block_nack_sequence_numbers = [],
      block_keyframe_request_media_ssrcs = [], block_fir_entries = [], block_has_remb = False,
      block_remb_bitrate_bps = 0\<rparr>"

definition fill_feedback_block :: "rtcp_feedback_packet \<Rightarrow> rtcp_compound_block \<Rightarrow> rtcp_compound_block" where
  "fill_feedback_block feedback block =
     block\<lparr>is_feedback := True,
       feedback_name :=
         (if fb_remb_bitrate_bps feedback \<noteq> None then ''remb''
          else rtcp_feedback_format_to_string (fb_packet_type feedback) (fb_format feedback)),
       block_sender_ssrc := fb_sender_ssrc feedback,
       block_media_ssrc := fb_media_ssrc feedback,
       block_nack_count := fb_nack_count feedback,
       block_fir_count := fb_fir_count feedback,
       block_has_generic_nack := fb_has_generic_nack feedback,
       block_has_keyframe_request := fb_has_keyframe_request feedback,
       block_transport_feedback := fb_transport_feedback feedback,
       block_nack_entries := fb_nack_entries feedback,
       block_nack_sequence_numbers := fb_nack_sequence_numbers feedback,
       block_keyframe_request_media_ssrcs := fb_keyframe_request_media_ssrcs feedback,
       block_fir_entries := fb_fir_entries feedback,
       block_has_remb := (fb_remb_bitrate_bps feedback \<noteq> None),
       block_remb_bitrate_bps :=
         (case fb_remb_bitrate_bps feedback of None \<Rightarrow> 0 | Some v \<Rightarrow> v)\<rparr>"

text \<open>The loop that adds each requested source once.\<close>

fun add_keyframe_sources :: "u32 list \<Rightarrow> u32 list \<Rightarrow> u32 list" where
  "add_keyframe_sources known [] = known"
| "add_keyframe_sources known (s # ss) =
     add_keyframe_sources (if s \<in> set known then known else known @ [s]) ss"

definition aggregate_feedback_block :: "rtcp_compound_block \<Rightarrow> rtcp_compound_packet \<Rightarrow> rtcp_compound_packet" where
  "aggregate_feedback_block block packet =
     (if \<not> is_feedback block then packet
      else packet\<lparr>
        has_feedback := True,
        feedback_block_count := feedback_block_count packet + 1,
        pli_count := pli_count packet + (if feedback_name block = ''pli'' then 1 else 0),
        fir_block_count := fir_block_count packet
          + (if feedback_name block \<noteq> ''pli'' \<and> feedback_name block = ''fir'' then 1 else 0),
        nack_count := nack_count packet + block_nack_count block,
        fir_count := fir_count packet + block_fir_count block,
        generic_nack_block_count := generic_nack_block_count packet
          + (if block_has_generic_nack block then 1 else 0),
        transport_cc_block_count := transport_cc_block_count packet
          + (if block_transport_feedback block \<noteq> None then 1 else 0),
        remb_block_count := remb_block_count packet + (if block_has_remb block then 1 else 0),
        other_feedback_block_count := other_feedback_block_count packet
          + (if feedback_name block = ''pli'' \<or> feedback_name block = ''fir''
                \<or> block_has_generic_nack block \<or> block_transport_feedback block \<noteq> None
                \<or> block_has_remb block then 0 else 1),
        has_generic_nack := has_generic_nack packet \<or> block_has_generic_nack block,
        has_keyframe_request := has_keyframe_request packet \<or> block_has_keyframe_request block,
        nack_entries := nack_entries packet @ block_nack_entries block,
        nack_sequence_numbers := nack_sequence_numbers packet @ block_nack_sequence_numbers block,
        keyframe_request_media_ssrcs :=
          add_keyframe_sources (keyframe_request_media_ssrcs packet)
            (block_keyframe_request_media_ssrcs block),
        fir_entries := fir_entries packet @ block_fir_entries block,
        has_remb := has_remb packet \<or> block_has_remb block,
        remb_bitrate_bps := max (remb_bitrate_bps packet) (block_remb_bitrate_bps block)\<rparr>)"

definition aggregate_report_packet :: "rtcp_report_packet \<Rightarrow> rtcp_compound_packet \<Rightarrow> rtcp_compound_packet" where
  "aggregate_report_packet report packet =
     packet\<lparr>
       report_packet_count := report_packet_count packet + 1,
       sender_report_count := sender_report_count packet + (if sender_info report \<noteq> None then 1 else 0),
       receiver_report_count := receiver_report_count packet
         + (if sender_info report \<noteq> None then 0 else 1),
       report_block_count := report_block_count packet + length (report_blocks report),
       report_packets := report_packets packet @ [report]\<rparr>"

section \<open>The compound loop\<close>

definition empty_compound :: rtcp_compound_packet where
  "empty_compound =
     \<lparr>blocks = [], feedback_block_count = 0, pli_count = 0, fir_block_count = 0, nack_count = 0,
      fir_count = 0, generic_nack_block_count = 0, transport_cc_block_count = 0,
      remb_block_count = 0, other_feedback_block_count = 0, has_feedback = False,
      has_generic_nack = False, has_keyframe_request = False, nack_entries = [],
      nack_sequence_numbers = [], keyframe_request_media_ssrcs = [], fir_entries = [],
      has_remb = False, remb_bitrate_bps = 0, report_packet_count = 0, sender_report_count = 0,
      receiver_report_count = 0, report_block_count = 0, report_packets = [],
      sdes_packet_count = 0, sdes_chunks = [], bye_packets = [], has_bye = False,
      unknown_block_count = 0\<rparr>"

text \<open>The body of the loop for one packet of the datagram, whose header was accepted.\<close>

definition parse_compound_block ::
  "rtcp_packet_header \<Rightarrow> bytes \<Rightarrow> rtcp_compound_packet \<Rightarrow> rtcp_compound_packet result" where
  "parse_compound_block header block_data packet =
     (let block = make_block_from_header header;
          push = (\<lambda>block (packet :: rtcp_compound_packet).
            Inr (packet\<lparr>blocks := blocks packet @ [block]\<rparr>)) in
      if is_rtcp_feedback_packet block_data then
        bindE (prefix_error ''rtcp compound feedback parse failed: ''
                 (parse_rtcp_feedback_packet block_data)) (\<lambda>feedback.
        let block = fill_feedback_block feedback block in
        push block (aggregate_feedback_block block packet))
      else if is_rtcp_report_packet block_data then
        bindE (prefix_error ''rtcp compound report parse failed: ''
                 (parse_rtcp_report_packet block_data)) (\<lambda>report.
        push (block\<lparr>is_report := True\<rparr>) (aggregate_report_packet report packet))
      else if rtcp_packet_type header = k_rtcp_packet_type_sdes then
        bindE (prefix_error ''rtcp compound sdes parse failed: ''
                 (parse_rtcp_sdes_packet block_data)) (\<lambda>chunks.
        push (block\<lparr>is_sdes := True\<rparr>)
          (packet\<lparr>sdes_packet_count := sdes_packet_count packet + 1,
                  sdes_chunks := sdes_chunks packet @ chunks\<rparr>))
      else if rtcp_packet_type header = k_rtcp_packet_type_bye then
        bindE (prefix_error ''rtcp compound bye parse failed: ''
                 (parse_rtcp_bye_packet block_data)) (\<lambda>bye.
        push (block\<lparr>is_bye := True\<rparr>)
          (packet\<lparr>has_bye := True, bye_packets := bye_packets packet @ [bye]\<rparr>))
      else push (block\<lparr>is_unknown := True\<rparr>)
             (packet\<lparr>unknown_block_count := unknown_block_count packet + 1\<rparr>))"

text \<open>
  The loop. A header that parsed has a packet size of at least four, so the source's test for a
  size of zero is never true; the model keeps it, and termination rests on it.
\<close>

function parse_compound_loop :: "bytes \<Rightarrow> nat \<Rightarrow> rtcp_compound_packet \<Rightarrow> rtcp_compound_packet result" where
  "parse_compound_loop data offset packet =
     (if offset < length data then
        if length data - offset < k_rtcp_common_header_size
        then make_error ''rtcp compound trailing bytes are invalid''
        else let remaining = drop offset data in
          bindE (prefix_error ''rtcp compound block parse failed: ''
                   (parse_rtcp_packet_header remaining)) (\<lambda>header.
          if packet_size header = 0 then make_error ''rtcp compound block size is zero''
          else if packet_size header > length remaining
          then make_error ''rtcp compound block exceeds remaining size''
          else let is_last_block = (offset + packet_size header = length data) in
            if rtcp_padding header \<and> \<not> is_last_block
            then make_error ''rtcp compound padding is only allowed on the last block''
            else
              bindE (subspan data offset (packet_size header)) (\<lambda>block_data.
              bindE (parse_compound_block header block_data packet) (\<lambda>packet.
              parse_compound_loop data (offset + packet_size header) packet)))
      else Inr packet)"
  by pat_completeness auto
termination
  by (relation "measure (\<lambda>(data, offset, packet). length data - offset)") auto

definition parse_rtcp_compound_packet :: "bytes \<Rightarrow> rtcp_compound_packet result" where
  "parse_rtcp_compound_packet data =
     (if data = [] then make_error ''rtcp compound packet is empty''
      else bindE (parse_compound_loop data 0 empty_compound) (\<lambda>packet.
        if blocks packet = [] then make_error ''rtcp compound packet has no blocks''
        else Inr packet))"

definition rtcp_compound_feedback_summary_to_string :: "rtcp_compound_packet \<Rightarrow> string" where
  "rtcp_compound_feedback_summary_to_string packet =
     (if has_bye packet then ''bye''
      else if \<not> has_feedback packet then ''none''
      else if has_remb packet then ''remb''
      else if has_keyframe_request packet then ''keyframe_request''
      else if has_generic_nack packet then ''generic_nack''
      else if transport_cc_block_count packet \<noteq> 0 then ''transport_cc''
      else ''feedback'')"

section \<open>Specification of the aggregate\<close>

text \<open>
  What the counters and flags of the aggregate mean, in terms of the blocks it lists. The session
  transports read the counters and never the blocks.
\<close>

definition block_size :: "rtcp_compound_block \<Rightarrow> nat" where
  "block_size b = (unat (block_length b) + 1) * 4"

definition count_blocks :: "(rtcp_compound_block \<Rightarrow> bool) \<Rightarrow> rtcp_compound_packet \<Rightarrow> nat" where
  "count_blocks P packet = length (filter P (blocks packet))"

definition compound_wf :: "rtcp_compound_packet \<Rightarrow> bool" where
  "compound_wf packet \<longleftrightarrow>
     feedback_block_count packet = count_blocks is_feedback packet
     \<and> report_packet_count packet = count_blocks is_report packet
     \<and> sdes_packet_count packet = count_blocks is_sdes packet
     \<and> length (bye_packets packet) = count_blocks is_bye packet
     \<and> unknown_block_count packet = count_blocks is_unknown packet
     \<and> sender_report_count packet + receiver_report_count packet = report_packet_count packet
     \<and> length (report_packets packet) = report_packet_count packet
     \<and> report_block_count packet = sum_list (map (\<lambda>r. length (report_blocks r)) (report_packets packet))
     \<and> (has_feedback packet \<longleftrightarrow> 0 < feedback_block_count packet)
     \<and> (has_bye packet \<longleftrightarrow> bye_packets packet \<noteq> [])
     \<and> nack_entries packet = concat (map block_nack_entries (blocks packet))
     \<and> nack_sequence_numbers packet = concat (map block_nack_sequence_numbers (blocks packet))
     \<and> fir_entries packet = concat (map block_fir_entries (blocks packet))
     \<and> set (keyframe_request_media_ssrcs packet) =
         (\<Union>b \<in> set (blocks packet). set (block_keyframe_request_media_ssrcs b))
     \<and> distinct (keyframe_request_media_ssrcs packet)
     \<and> list_all (\<lambda>b. length (filter id [is_feedback b, is_report b, is_sdes b, is_bye b,
         is_unknown b]) = 1) (blocks packet)"

text \<open>Parsing the members of a datagram one by one, each given as a buffer of its own.\<close>

fun parse_members :: "bytes list \<Rightarrow> rtcp_compound_packet \<Rightarrow> rtcp_compound_packet result" where
  "parse_members [] packet = Inr packet"
| "parse_members (p # ps) packet =
     bindE (parse_rtcp_packet_header p) (\<lambda>header.
     bindE (parse_compound_block header p packet) (parse_members ps))"

declare zero_range.simps [simp del] parse_sdes_items.simps [simp del]
  parse_compound_loop.simps [simp del]

section \<open>Memory safety\<close>

lemma sdes_bye_bounds: "rtcp_payload_bounds (rtcp_payload_end name)"
  by unfold_locales
    (auto simp: rtcp_payload_end_def content_end_def Let_def
      elim!: parse_rtcp_packet_headerE split: if_splits)

interpretation sdes_end: rtcp_payload_bounds "rtcp_payload_end ''sdes''"
  by (rule sdes_bye_bounds)

interpretation bye_end: rtcp_payload_bounds "rtcp_payload_end ''bye''"
  by (rule sdes_bye_bounds)

lemma zero_range_safe: "end_offset \<le> length data \<Longrightarrow> fault_free (zero_range data offset end_offset)"
proof (induction data offset end_offset rule: zero_range.induct)
  case (1 data offset end_offset)
  then show ?case by (subst zero_range.simps) auto
qed

lemma compound_trailing_safe [safe]:
  "fault_free (compound_trailing_bytes_are_zero data offset end_offset)"
  by (simp add: compound_trailing_bytes_are_zero_def zero_range_safe)

lemma parse_sdes_items_safe:
  "payload_end \<le> length data \<Longrightarrow> fault_free (parse_sdes_items data payload_end offset chunk)"
proof (induction data payload_end offset chunk rule: parse_sdes_items.induct)
  case (1 data payload_end offset chunk)
  then show ?case
    by (subst parse_sdes_items.simps) (auto simp: Let_def intro!: fault_free_bindE compound_trailing_safe)
qed

lemma parse_sdes_chunks_safe:
  "payload_end \<le> length data \<Longrightarrow> fault_free (parse_sdes_chunks data payload_end offset n)"
  by (induction data payload_end offset n rule: parse_sdes_chunks.induct)
    (auto intro!: fault_free_bindE parse_sdes_items_safe split: prod.splits)

lemma parse_rtcp_sdes_packet_safe [safe]: "fault_free (parse_rtcp_sdes_packet data)"
  by (auto simp: parse_rtcp_sdes_packet_def dest: sdes_end.payload_end_bounds(3)
      intro!: fault_free_bindE parse_rtcp_packet_header_safe parse_sdes_chunks_safe
        sdes_end.payload_end_safe split: prod.splits)

lemma parse_bye_ssrcs_safe:
  "payload_end \<le> length data \<Longrightarrow> fault_free (parse_bye_ssrcs data payload_end offset n)"
  by (induction data payload_end offset n rule: parse_bye_ssrcs.induct)
    (auto intro!: fault_free_bindE split: prod.splits)

lemma parse_bye_ssrcs_offset:
  "parse_bye_ssrcs data payload_end offset n = Inr (ss, offset') \<Longrightarrow> offset \<le> payload_end \<Longrightarrow>
     offset' \<le> payload_end"
  by (induction data payload_end offset n arbitrary: ss rule: parse_bye_ssrcs.induct)
    (auto simp: bindE_Inr_iff split: if_splits prod.splits)

lemma parse_rtcp_bye_packet_safe [safe]: "fault_free (parse_rtcp_bye_packet data)"
proof (cases "parse_rtcp_packet_header data")
  case (Inl e)
  then show ?thesis using parse_rtcp_packet_header_safe [of data]
    by (simp add: parse_rtcp_bye_packet_def fault_free_def)
next
  case (Inr header)
  note bounds = bye_end.payload_end_bounds [OF Inr]
  have "fault_free (parse_bye_ssrcs data n 4 k)" if "rtcp_payload_end ''bye'' header data = Inr n" for n k
    using bounds(3) [OF that] by (rule parse_bye_ssrcs_safe)
  moreover have "offset \<le> n" "n \<le> length data"
    if "rtcp_payload_end ''bye'' header data = Inr n" "parse_bye_ssrcs data n 4 k = Inr (ss, offset)"
    for n k ss offset
    using bounds [OF that(1)] parse_bye_ssrcs_offset [OF that(2)] by simp_all
  ultimately show ?thesis
    using Inr bye_end.payload_end_safe [OF Inr]
    by (fastforce simp: parse_rtcp_bye_packet_def Let_def
        intro!: fault_free_bindE compound_trailing_safe split: prod.splits)
qed

lemma parse_compound_block_safe [safe]: "fault_free (parse_compound_block header data packet)"
  unfolding parse_compound_block_def Let_def
  by (intro fault_free_if fault_free_bindE fault_free_Inr)
    (simp_all add: parse_rtcp_feedback_packet_safe parse_rtcp_report_packet_safe
      parse_rtcp_sdes_packet_safe parse_rtcp_bye_packet_safe)

lemma parse_compound_loop_safe [safe]: "fault_free (parse_compound_loop data offset packet)"
proof (induction data offset packet rule: parse_compound_loop.induct)
  case (1 data offset packet)
  show ?case
    by (subst parse_compound_loop.simps)
      (auto simp: Let_def intro!: fault_free_bindE parse_rtcp_packet_header_safe
        parse_compound_block_safe 1)
qed

lemma parse_rtcp_compound_packet_safe [safe]: "fault_free (parse_rtcp_compound_packet data)"
  by (auto simp: parse_rtcp_compound_packet_def intro!: fault_free_bindE parse_compound_loop_safe)

section \<open>The aggregate describes the blocks\<close>

lemma add_keyframe_sources:
  "set (add_keyframe_sources known ss) = set known \<union> set ss"
  "distinct known \<Longrightarrow> distinct (add_keyframe_sources known ss)"
  by (induction known ss rule: add_keyframe_sources.induct) auto

lemma compound_wf_empty: "compound_wf empty_compound"
  by (simp add: compound_wf_def empty_compound_def count_blocks_def)

lemma parse_compound_block_blocks:
  assumes "parse_compound_block header data packet = Inr packet'"
  shows "\<exists>b. blocks packet' = blocks packet @ [b] \<and> block_length b = rtcp_length header"
  using assms
  by (auto simp: parse_compound_block_def Let_def bindE_Inr_iff aggregate_feedback_block_def
      aggregate_report_packet_def fill_feedback_block_def make_block_from_header_def
      split: if_splits)

lemma aggregate_feedback_wf:
  assumes "compound_wf packet" and b: "b = fill_feedback_block feedback (make_block_from_header header)"
  shows "compound_wf ((aggregate_feedback_block b packet)
    \<lparr>blocks := blocks (aggregate_feedback_block b packet) @ [b]\<rparr>)"
  using assms(1)
  by (simp add: compound_wf_def count_blocks_def b aggregate_feedback_block_def
      fill_feedback_block_def make_block_from_header_def add_keyframe_sources Un_commute)

lemma parse_compound_block_wf:
  assumes "parse_compound_block header data packet = Inr packet'" and "compound_wf packet"
  shows "compound_wf packet'"
proof -
  note wf = compound_wf_def count_blocks_def make_block_from_header_def
  consider (feedback) "is_rtcp_feedback_packet data"
    | (report) "\<not> is_rtcp_feedback_packet data" "is_rtcp_report_packet data"
    | (sdes) "\<not> is_rtcp_feedback_packet data" "\<not> is_rtcp_report_packet data" "rtcp_packet_type header = 202"
    | (bye) "\<not> is_rtcp_feedback_packet data" "\<not> is_rtcp_report_packet data" "rtcp_packet_type header = 203"
    | (unknown) "\<not> is_rtcp_feedback_packet data" "\<not> is_rtcp_report_packet data"
        "rtcp_packet_type header \<noteq> 202" "rtcp_packet_type header \<noteq> 203"
    by blast
  then show ?thesis
  proof cases
    case feedback
    with assms(1) obtain f b where b: "b = fill_feedback_block f (make_block_from_header header)"
      and "packet' = (aggregate_feedback_block b packet)
        \<lparr>blocks := blocks (aggregate_feedback_block b packet) @ [b]\<rparr>"
      by (auto simp only: parse_compound_block_def Let_def if_True bindE_Inr_iff sum.inject)
    with aggregate_feedback_wf [OF assms(2) b] show ?thesis by simp
  next
    case report
    with assms(1) obtain r where "packet' = (aggregate_report_packet r packet)
        \<lparr>blocks := blocks (aggregate_report_packet r packet)
          @ [(make_block_from_header header)\<lparr>is_report := True\<rparr>]\<rparr>"
      by (auto simp only: parse_compound_block_def Let_def if_True if_False bindE_Inr_iff sum.inject)
    with assms(2) show ?thesis by (simp add: wf aggregate_report_packet_def)
  next
    case sdes
    with assms(1) obtain c where "packet' = packet\<lparr>sdes_packet_count := sdes_packet_count packet + 1,
        sdes_chunks := sdes_chunks packet @ c,
        blocks := blocks packet @ [(make_block_from_header header)\<lparr>is_sdes := True\<rparr>]\<rparr>"
      by (auto simp add: parse_compound_block_def Let_def bindE_Inr_iff)
    with assms(2) show ?thesis by (simp add: wf)
  next
    case bye
    with assms(1) obtain y where "packet' = packet\<lparr>has_bye := True,
        bye_packets := bye_packets packet @ [y],
        blocks := blocks packet @ [(make_block_from_header header)\<lparr>is_bye := True\<rparr>]\<rparr>"
      by (auto simp add: parse_compound_block_def Let_def bindE_Inr_iff)
    with assms(2) show ?thesis by (simp add: wf)
  next
    case unknown
    with assms(1) have "packet' = packet\<lparr>unknown_block_count := unknown_block_count packet + 1,
        blocks := blocks packet @ [(make_block_from_header header)\<lparr>is_unknown := True\<rparr>]\<rparr>"
      by (auto simp add: parse_compound_block_def Let_def)
    with assms(2) show ?thesis by (simp add: wf)
  qed
qed

lemma parse_compound_loop_step:
  assumes "parse_compound_loop data offset packet = Inr packet'" and "offset < length data"
  obtains header packet1 where "parse_rtcp_packet_header (drop offset data) = Inr header"
    and "packet_size header \<le> length data - offset"
    and "rtcp_padding header \<Longrightarrow> offset + packet_size header = length data"
    and "parse_compound_block header (take (packet_size header) (drop offset data)) packet = Inr packet1"
    and "parse_compound_loop data (offset + packet_size header) packet1 = Inr packet'"
proof -
  note loop = assms(1) [unfolded parse_compound_loop.simps [of data offset packet] Let_def]
  from loop obtain header where header: "parse_rtcp_packet_header (drop offset data) = Inr header"
    using assms(2) by (auto simp: bindE_Inr_iff split: if_splits)
  from loop assms(2) header obtain packet1 where
    "parse_compound_block header (take (packet_size header) (drop offset data)) packet = Inr packet1"
    "parse_compound_loop data (offset + packet_size header) packet1 = Inr packet'"
    by (auto simp: bindE_Inr_iff subspan_def split: if_splits)
  moreover from loop assms(2) header have "packet_size header \<le> length data - offset"
    "rtcp_padding header \<Longrightarrow> offset + packet_size header = length data"
    by (auto split: if_splits)
  ultimately show thesis using header by (intro that)
qed

lemma parse_compound_loop_result:
  assumes "parse_compound_loop data offset packet = Inr packet'" and "offset \<le> length data"
    and "compound_wf packet"
  shows "compound_wf packet' \<and> (\<exists>bs. blocks packet' = blocks packet @ bs
    \<and> offset + sum_list (map block_size bs) = length data)"
  using assms
proof (induction "length data - offset" arbitrary: offset packet rule: less_induct)
  case less
  show ?case
  proof (cases "offset < length data")
    case False
    then have "packet' = packet" using less.prems(1) by (subst (asm) parse_compound_loop.simps) simp
    then show ?thesis using False less.prems by simp
  next
    case True
    with less.prems(1) obtain header packet1 where
      header: "parse_rtcp_packet_header (drop offset data) = Inr header"
      and size: "packet_size header \<le> length data - offset"
      and block: "parse_compound_block header (take (packet_size header) (drop offset data)) packet = Inr packet1"
      and rest: "parse_compound_loop data (offset + packet_size header) packet1 = Inr packet'"
      by (rule parse_compound_loop_step)
    obtain b where b: "blocks packet1 = blocks packet @ [b]" "block_length b = rtcp_length header"
      using parse_compound_block_blocks [OF block] by blast
    have len: "packet_size header = block_size b" "4 \<le> packet_size header"
      using header b(2) by (auto simp: block_size_def elim!: parse_rtcp_packet_headerE)
    have "compound_wf packet' \<and> (\<exists>bs. blocks packet' = blocks packet1 @ bs
        \<and> offset + packet_size header + sum_list (map block_size bs) = length data)"
      using less.hyps [OF _ rest] True size len(2)
        parse_compound_block_wf [OF block less.prems(3)] by simp
    then show ?thesis using b(1) len(1) by auto
  qed
qed



section \<open>Built packets are read back\<close>

lemma zero_range_zeros:
  assumes "\<forall>i. offset \<le> i \<and> i < end_offset \<longrightarrow> data ! i = 0" and "end_offset \<le> length data"
  shows "zero_range data offset end_offset = Inr True"
  using assms
proof (induction data offset end_offset rule: zero_range.induct)
  case (1 data offset end_offset)
  show ?case
  proof (cases "offset < end_offset")
    case True
    then show ?thesis using 1 by (subst zero_range.simps) simp
  qed (subst zero_range.simps, simp)
qed

lemma trailing_zeros:
  assumes "length pre \<le> offset" and "offset \<le> length pre + k"
  shows "compound_trailing_bytes_are_zero (pre @ replicate k 0) offset (length pre + k) = Inr True"
  using assms
  by (auto simp: compound_trailing_bytes_are_zero_def nth_append intro!: zero_range_zeros)

lemma subspan_at: "length pre = i \<Longrightarrow> subspan (pre @ xs @ post) i (length xs) = Inr xs"
  by (simp add: subspan_def)

lemma payload_end_unpadded:
  "\<not> rtcp_padding h \<Longrightarrow> packet_size h \<le> length data \<Longrightarrow>
     rtcp_payload_end name h data = Inr (packet_size h)"
  by (simp add: rtcp_payload_end_def Let_def)

lemma parse_sdes_cname_bytes:
  assumes "cname \<noteq> []" and "length cname \<le> 255"
  shows "parse_rtcp_sdes_packet (sdes_cname_bytes ssrc cname) =
    Inr [\<lparr>chunk_ssrc = ssrc, chunk_cname = cname,
          chunk_items = [\<lparr>item_type = 1, item_value = cname\<rparr>]\<rparr>]"
proof -
  define n where "n = align4 (11 + length cname)"
  have n: "11 + length cname \<le> n" "n < 15 + length cname" "n mod 4 = 0"
    using align4_bounds [of "11 + length cname"] by (simp_all add: n_def)
  define pre where "pre = rtcp_header_bytes 1 202 n @ enc_u32 ssrc @ [1, of_nat (length cname)]"
  define data where "data = pre @ cname @ replicate (n - 10 - length cname) 0"
  have data: "sdes_cname_bytes ssrc cname = data"
    by (simp add: sdes_cname_bytes_def data_def pre_def Let_def flip: n_def)
  have [simp]: "length pre = 10" "length data = n" using n by (simp_all add: pre_def data_def)
  have header: "parse_rtcp_packet_header data =
      Inr \<lparr>rtcp_padding = False, rtcp_count = 1, rtcp_packet_type = 202,
        rtcp_length = of_nat (n div 4 - 1), packet_size = n, has_ssrc = True, rtcp_ssrc = ssrc\<rparr>"
    unfolding data_def pre_def append_assoc
    using n assms(2) by (intro parse_rtcp_packet_header_built) auto
  have reads: "read_u32 data 4 = Inr ssrc" "read_u8 data 8 = Inr 1"
    "read_u8 data 9 = Inr (of_nat (length cname))"
    by (simp_all add: data_def pre_def wire del: access)
  have zero: "read_u8 data (10 + length cname) = Inr 0"
    using n by (simp add: data_def nth_append)
  have sub: "subspan data 10 (length cname) = Inr cname"
    unfolding data_def by (rule subspan_at) simp
  have tail: "compound_trailing_bytes_are_zero data (11 + length cname) n = Inr True"
    using trailing_zeros [of "pre @ cname" "11 + length cname" "n - 10 - length cname"] n
    by (simp add: data_def)
  have size: "unat (of_nat (length cname) :: u8) = length cname"
    using assms(2) by (simp add: unat_of_nat)
  have items: "parse_sdes_items data n 8 c =
      parse_sdes_items data n (10 + length cname)
        (c\<lparr>chunk_cname := (if chunk_cname c = [] then cname else chunk_cname c),
           chunk_items := chunk_items c @ [\<lparr>item_type = 1, item_value = cname\<rparr>]\<rparr>)" for c
    using n by (subst parse_sdes_items.simps) (simp add: reads size sub Let_def)
  have last: "parse_sdes_items data n (10 + length cname) c = Inr (c, n)" for c
    using n by (subst parse_sdes_items.simps) (simp add: zero tail Let_def flip: n_def)
  show ?thesis
    unfolding data parse_rtcp_sdes_packet_def header
    using n by (simp add: payload_end_unpadded reads items last)
qed

lemma parse_bye_ssrcs_enc:
  assumes "length pre = offset" and "offset + length ss * 4 \<le> payload_end"
  shows "parse_bye_ssrcs (pre @ concat (map enc_u32 ss) @ post) payload_end offset (length ss) =
    Inr (ss, offset + length ss * 4)"
  using assms
proof (induction ss arbitrary: pre offset)
  case (Cons s ss)
  have "parse_bye_ssrcs ((pre @ enc_u32 s) @ concat (map enc_u32 ss) @ post) payload_end (offset + 4)
      (length ss) = Inr (ss, offset + 4 + length ss * 4)"
    by (rule Cons.IH) (use Cons.prems in auto)
  moreover have "read_u32 (pre @ enc_u32 s @ xs) offset = Inr s" for xs
    using Cons.prems(1) by (rule u32f.rd_at) simp
  ultimately show ?case using Cons.prems by simp
qed simp

lemma parse_bye_bytes:
  assumes "ssrcs \<noteq> []" and "length ssrcs \<le> 31" and "length reason \<le> 255"
  shows "parse_rtcp_bye_packet (bye_bytes ssrcs reason) =
    Inr \<lparr>bye_ssrcs = ssrcs, bye_reason = reason\<rparr>"
proof -
  define tail where "tail = (if reason = [] then [] else of_nat (length reason) # reason)"
  define k where "k = 4 + length ssrcs * 4"
  define n where "n = align4 (k + length tail)"
  have n: "k + length tail \<le> n" "n mod 4 = 0" "n < k + length tail + 4"
    using align4_bounds [of "k + length tail"] by (simp_all add: n_def)
  have tail: "length tail \<le> 256" using assms(3) by (simp add: tail_def)
  define pre where "pre = rtcp_header_bytes (of_nat (length ssrcs)) 203 n @ concat (map enc_u32 ssrcs)"
  define data where "data = pre @ tail @ replicate (n - (k + length tail)) 0"
  have data: "bye_bytes ssrcs reason = data"
    by (simp add: bye_bytes_def data_def pre_def Let_def k_def n_def tail_def)
  have [simp]: "length pre = k" "length data = n" using n by (simp_all add: pre_def data_def k_def)
  have count: "unat (of_nat (length ssrcs) :: u8) = length ssrcs"
    using assms(2) by (simp add: unat_of_nat)
  obtain s ss where ss: "ssrcs = s # ss" using assms(1) by (cases ssrcs) auto
  have "parse_rtcp_packet_header (rtcp_header_bytes (of_nat (length ssrcs)) 203 n @ enc_u32 s
        @ concat (map enc_u32 ss) @ tail @ replicate (n - (k + length tail)) 0) =
      Inr \<lparr>rtcp_padding = False, rtcp_count = of_nat (length ssrcs), rtcp_packet_type = 203,
        rtcp_length = of_nat (n div 4 - 1), packet_size = n, has_ssrc = True, rtcp_ssrc = s\<rparr>"
    using n tail assms(2) count by (intro parse_rtcp_packet_header_built) (auto simp: k_def ss)
  then have header: "parse_rtcp_packet_header data =
      Inr \<lparr>rtcp_padding = False, rtcp_count = of_nat (length ssrcs), rtcp_packet_type = 203,
        rtcp_length = of_nat (n div 4 - 1), packet_size = n, has_ssrc = True, rtcp_ssrc = s\<rparr>"
    by (simp add: data_def pre_def ss)
  have ssrcs: "parse_bye_ssrcs data n 4 (length ssrcs) = Inr (ssrcs, k)"
    using parse_bye_ssrcs_enc [of "rtcp_header_bytes (of_nat (length ssrcs)) 203 n" 4 ssrcs n] n
    by (simp add: data_def pre_def k_def)
  have whole: "parse_rtcp_bye_packet data =
      (if k = n then Inr \<lparr>bye_ssrcs = ssrcs, bye_reason = []\<rparr>
       else bindE (read_u8 data k) (\<lambda>size_byte.
         if Suc k + unat size_byte > n then make_error ''rtcp bye reason is truncated''
         else
           bindE (subspan data (Suc k) (unat size_byte)) (\<lambda>reason.
           bindE (compound_trailing_bytes_are_zero data (Suc k + unat size_byte) n) (\<lambda>zero.
           if \<not> zero then make_error ''rtcp bye reason padding is not zero''
           else Inr \<lparr>bye_ssrcs = ssrcs, bye_reason = reason\<rparr>))))"
    unfolding parse_rtcp_bye_packet_def header by (simp add: payload_end_unpadded count ssrcs Let_def)
  show ?thesis
  proof (cases "reason = []")
    case True
    then have "n = k" by (simp add: n_def tail_def align4_def k_def)
    then show ?thesis unfolding data whole using True by simp
  next
    case False
    have size: "unat (of_nat (length reason) :: u8) = length reason"
      using assms(3) by (simp add: unat_of_nat)
    have "read_u8 data k = Inr (of_nat (length reason))"
      using False by (simp add: data_def tail_def wire del: access)
    moreover have "subspan data (k + 1) (length reason) = Inr reason"
      using subspan_at [of "pre @ [of_nat (length reason)]" "k + 1" reason] False
      by (simp add: data_def tail_def)
    moreover have "compound_trailing_bytes_are_zero data (k + 1 + length reason) n = Inr True"
      using trailing_zeros [of "pre @ tail" "k + 1 + length reason" "n - (k + length tail)"] n False
      by (simp add: data_def tail_def)
    ultimately show ?thesis
      unfolding data whole using n False size by (simp add: tail_def)
  qed
qed

lemma reads_append:
  "i < length p \<Longrightarrow> read_u8 (p @ r) i = read_u8 p i"
  "i + 1 < length p \<Longrightarrow> read_u16 (p @ r) i = read_u16 p i"
  "i + 3 < length p \<Longrightarrow> read_u32 (p @ r) i = read_u32 p i"
  by (simp_all add: nth_append)

lemma header_length_field:
  "parse_rtcp_packet_header p = Inr h \<Longrightarrow> read_u16 p 2 = Inr (rtcp_length h)"
  by (auto simp: parse_rtcp_packet_header_def Let_def bindE_Inr_iff split: if_splits simp del: access)

lemma parse_rtcp_packet_header_append:
  assumes "parse_rtcp_packet_header p = Inr h"
  shows "parse_rtcp_packet_header (p @ rest) = Inr h"
proof -
  from assms have len: "4 \<le> length p" and size: "packet_size h \<le> length p"
    and words: "packet_size h = (unat (rtcp_length h) + 1) * 4"
    by (auto elim: parse_rtcp_packet_headerE)
  have prefix: "has_rtp_version (p @ rest) = has_rtp_version p"
    "is_rtcp_packet (p @ rest) = is_rtcp_packet p"
    using len by (cases p; auto simp: has_rtp_version_def is_rtcp_packet_def
        is_rtp_or_rtcp_packet_def nth_append)+
  have "p \<noteq> []" using len by auto
  from assms have "read_u16 p 2 = Inr (rtcp_length h)" by (rule header_length_field)
  then have same: "parse_rtcp_packet_header (p @ rest) = parse_rtcp_packet_header p"
    unfolding parse_rtcp_packet_header_def Let_def prefix
    using len size words \<open>p \<noteq> []\<close> by (simp add: reads_append del: access cong: if_cong)
  with assms show ?thesis by simp
qed

text \<open>One round of the loop, on the packet that stands at the offset.\<close>

lemma parse_compound_loop_member:
  assumes "parse_rtcp_packet_header p = Inr h" and "packet_size h = length p"
    and "\<not> rtcp_padding h \<or> rest = []"
    and "parse_compound_block h p packet = Inr packet1" and "length pre = offset"
  shows "parse_compound_loop (pre @ p @ rest) offset packet =
    parse_compound_loop ((pre @ p) @ rest) (offset + length p) packet1"
proof -
  have "4 \<le> length p" using assms(1,2) by (auto elim: parse_rtcp_packet_headerE)
  moreover have "subspan (pre @ p @ rest) offset (length p) = Inr p"
    by (rule subspan_at [OF assms(5)])
  moreover have "drop offset (pre @ p @ rest) = p @ rest" using assms(5) by simp
  ultimately show ?thesis
    using assms parse_rtcp_packet_header_append [OF assms(1), of rest]
    by (subst parse_compound_loop.simps) (auto simp: Let_def)
qed

lemma parse_compound_loop_end: "parse_compound_loop data (length data) packet = Inr packet"
  by (subst parse_compound_loop.simps) simp

text \<open>What the builder's check of a member says about the header the parser reads.\<close>

lemma validated_member:
  assumes "parse_rtcp_packet_header p = Inr h" and "ok (validate_rtcp_packet p)"
  shows "packet_size h = length p" and "rtcp_packet_type h = p ! 1"
    and "rtcp_padding h \<longleftrightarrow> p ! 0 AND 0x20 \<noteq> 0"
proof -
  from assms(2) obtain t where t: "validate_rtcp_packet p = Inr t" by (auto simp: ok_iff)
  then have "4 \<le> length p" "(unat (be16 (p ! 2) (p ! 3)) + 1) * 4 = length p"
    by (auto elim: validate_rtcp_packetE)
  moreover from this header_length_field [OF assms(1)] have "rtcp_length h = be16 (p ! 2) (p ! 3)"
    by (simp add: numeral_2_eq_2 numeral_3_eq_3)
  ultimately show "packet_size h = length p" using assms(1) by (auto elim!: parse_rtcp_packet_headerE)
  from assms(1) show "rtcp_packet_type h = p ! 1" "rtcp_padding h \<longleftrightarrow> p ! 0 AND 0x20 \<noteq> 0"
    by (auto elim: parse_rtcp_packet_headerE)
qed

lemma parse_compound_block_report:
  assumes "parse_rtcp_packet_header p = Inr h" and "parse_rtcp_report_packet p = Inr r"
  shows "\<exists>b. parse_compound_block h p packet =
    Inr ((aggregate_report_packet r packet)\<lparr>blocks := blocks packet @ [b]\<rparr>)"
  using assms
  by (auto simp: parse_compound_block_def is_rtcp_feedback_packet_def is_rtcp_report_packet_def
      is_feedback_packet_type_def is_report_packet_type_def Let_def parse_rtcp_report_packet_def
      aggregate_report_packet_def bindE_Inr_iff split: if_splits)

lemma parse_compound_block_sdes:
  assumes "parse_rtcp_packet_header p = Inr h" and "parse_rtcp_sdes_packet p = Inr cs"
  shows "\<exists>b. parse_compound_block h p packet =
    Inr (packet\<lparr>sdes_packet_count := sdes_packet_count packet + 1,
      sdes_chunks := sdes_chunks packet @ cs, blocks := blocks packet @ [b]\<rparr>)"
proof -
  have "rtcp_packet_type h = 202"
    using assms by (auto simp: parse_rtcp_sdes_packet_def split: if_splits)
  then show ?thesis using assms
    by (simp add: parse_compound_block_def is_rtcp_feedback_packet_def is_rtcp_report_packet_def
      is_feedback_packet_type_def is_report_packet_type_def Let_def) blast
qed

lemma parse_compound_block_bye:
  assumes "parse_rtcp_packet_header p = Inr h" and "parse_rtcp_bye_packet p = Inr y"
  shows "\<exists>b. parse_compound_block h p packet =
    Inr (packet\<lparr>has_bye := True, bye_packets := bye_packets packet @ [y],
      blocks := blocks packet @ [b]\<rparr>)"
proof -
  have "rtcp_packet_type h = 203"
    using assms by (auto simp: parse_rtcp_bye_packet_def split: if_splits)
  then show ?thesis using assms
    by (simp add: parse_compound_block_def is_rtcp_feedback_packet_def is_rtcp_report_packet_def
      is_feedback_packet_type_def is_report_packet_type_def Let_def) blast
qed

lemma parse_compound_block_feedback:
  assumes "parse_rtcp_packet_header p = Inr h" and "parse_rtcp_feedback_packet p = Inr f"
  shows "parse_compound_block h p packet =
    (let b = fill_feedback_block f (make_block_from_header h) in
     Inr ((aggregate_feedback_block b packet)\<lparr>blocks := blocks packet @ [b]\<rparr>))"
proof -
  have "is_feedback_packet_type (rtcp_packet_type h)"
    using assms by (auto simp: parse_rtcp_feedback_packet_def split: if_splits)
  then show ?thesis using assms
    by (simp add: parse_compound_block_def is_rtcp_feedback_packet_def Let_def
        aggregate_feedback_block_def)
qed

lemma parse_compound_loop_members:
  assumes "parse_members ps packet = Inr packet'" and "list_all (\<lambda>p. ok (validate_rtcp_packet p)) ps"
    and "list_all (\<lambda>p. p ! 0 AND 0x20 = 0) (butlast ps)" and "length pre = offset"
  shows "parse_compound_loop (pre @ concat ps) offset packet = Inr packet'"
  using assms
proof (induction ps arbitrary: pre offset packet)
  case Nil
  then show ?case using parse_compound_loop_end [of pre packet] by simp
next
  case (Cons p ps)
  from Cons.prems(1) obtain h packet1 where h: "parse_rtcp_packet_header p = Inr h"
    and block: "parse_compound_block h p packet = Inr packet1"
    and rest: "parse_members ps packet1 = Inr packet'"
    by (auto simp: bindE_Inr_iff)
  note v = validated_member [OF h]
  have unpadded: "\<not> rtcp_padding h \<or> concat ps = []"
    using Cons.prems(2,3) v by (cases ps) auto
  have "parse_compound_loop ((pre @ p) @ concat ps) (offset + length p) packet1 = Inr packet'"
    by (rule Cons.IH [OF rest]) (use Cons.prems in \<open>cases ps; auto\<close>)+
  moreover have "parse_compound_loop (pre @ p @ concat ps) offset packet =
      parse_compound_loop ((pre @ p) @ concat ps) (offset + length p) packet1"
    using Cons.prems(2,4) v by (intro parse_compound_loop_member [OF h _ unpadded block]) auto
  ultimately show ?case by simp
qed

lemma parse_members_blocks:
  assumes "parse_members ps packet = Inr packet'"
  shows "length (blocks packet') = length (blocks packet) + length ps"
  using assms
proof (induction ps arbitrary: packet)
  case (Cons p ps)
  from Cons.prems obtain h packet1 where block: "parse_compound_block h p packet = Inr packet1"
    and rest: "parse_members ps packet1 = Inr packet'"
    by (auto simp: bindE_Inr_iff)
  have "length (blocks packet1) = Suc (length (blocks packet))"
    using parse_compound_block_blocks [OF block] by auto
  with Cons.IH [OF rest] show ?case by simp
qed simp

text \<open>A datagram the builder assembled is parsed as its members are parsed one by one.\<close>

lemma parse_built_compound:
  assumes "build_rtcp_compound_packet ps bound = Inr datagram"
    and "parse_members ps empty_compound = Inr packet"
  shows "parse_rtcp_compound_packet datagram = Inr packet"
proof -
  from assms(1) have ps: "datagram = concat ps" "ps \<noteq> []" "list_all (\<lambda>p. ok (validate_rtcp_packet p)) ps"
      "list_all (\<lambda>p. p ! 0 AND 0x20 = 0) (butlast ps)"
    by (simp_all add: build_rtcp_compound_packet_iff)
  have "blocks packet \<noteq> []" using parse_members_blocks [OF assms(2)] ps(2) by (cases ps) auto
  moreover have "parse_compound_loop datagram 0 empty_compound = Inr packet"
    using parse_compound_loop_members [OF assms(2) ps(3,4), of "[]" 0] ps(1) by simp
  moreover have "datagram \<noteq> []"
    using ps by (cases ps) (auto simp: validate_rtcp_packet_def)
  ultimately show ?thesis by (simp add: parse_rtcp_compound_packet_def)
qed

lemma header_of_parsed:
  "parse_rtcp_report_packet p = Inr r \<Longrightarrow> \<exists>h. parse_rtcp_packet_header p = Inr h"
  "parse_rtcp_sdes_packet p = Inr cs \<Longrightarrow> \<exists>h. parse_rtcp_packet_header p = Inr h"
  "parse_rtcp_bye_packet p = Inr y \<Longrightarrow> \<exists>h. parse_rtcp_packet_header p = Inr h"
  "parse_rtcp_feedback_packet p = Inr f \<Longrightarrow> \<exists>h. parse_rtcp_packet_header p = Inr h"
  by (auto simp: parse_rtcp_report_packet_def parse_rtcp_sdes_packet_def parse_rtcp_bye_packet_def
      parse_rtcp_feedback_packet_def bindE_Inr_iff)

lemma parse_members_report:
  assumes "parse_rtcp_report_packet p = Inr r"
  shows "\<exists>b. parse_members (p # ps) packet =
    parse_members ps ((aggregate_report_packet r packet)\<lparr>blocks := blocks packet @ [b]\<rparr>)"
  using header_of_parsed(1) [OF assms] parse_compound_block_report [OF _ assms, of _ packet] by fastforce

lemma parse_members_sdes:
  assumes "parse_rtcp_sdes_packet p = Inr cs"
  shows "\<exists>b. parse_members (p # ps) packet =
    parse_members ps (packet\<lparr>sdes_packet_count := sdes_packet_count packet + 1,
      sdes_chunks := sdes_chunks packet @ cs, blocks := blocks packet @ [b]\<rparr>)"
  using header_of_parsed(2) [OF assms] parse_compound_block_sdes [OF _ assms, of _ packet] by fastforce

lemma parse_members_bye:
  assumes "parse_rtcp_bye_packet p = Inr y"
  shows "\<exists>b. parse_members (p # ps) packet =
    parse_members ps (packet\<lparr>has_bye := True, bye_packets := bye_packets packet @ [y],
      blocks := blocks packet @ [b]\<rparr>)"
  using header_of_parsed(3) [OF assms] parse_compound_block_bye [OF _ assms, of _ packet] by fastforce

text \<open>
  C25. The goodbye datagram that the sessions send on shutdown (a report, the CNAME, the BYE) is
  accepted by the parser as a datagram with that report, that CNAME and that BYE: no source and no
  byte of the reason is lost, whatever the alignment.
\<close>

theorem bye_datagram_round_trip:
  assumes build: "build_rtcp_bye_datagram report participant cname ssrcs reason bound = Inr datagram"
    and report: "parse_rtcp_report_packet report = Inr r"
  shows "\<exists>packet. parse_rtcp_compound_packet datagram = Inr packet
    \<and> has_bye packet \<and> bye_packets packet = [\<lparr>bye_ssrcs = ssrcs, bye_reason = reason\<rparr>]
    \<and> map (\<lambda>c. (chunk_ssrc c, chunk_cname c)) (sdes_chunks packet) = [(participant, cname)]
    \<and> report_packets packet = [r] \<and> \<not> has_feedback packet \<and> length (blocks packet) = 3"
proof -
  from build obtain sdes bye where sdes: "build_rtcp_sdes_cname participant cname = Inr sdes"
    and bye: "build_rtcp_bye ssrcs reason = Inr bye"
    and compound: "build_rtcp_compound_packet [report, sdes, bye] bound = Inr datagram"
    unfolding build_rtcp_bye_datagram_def by (auto simp: bindE_Inr_iff split: if_splits)
  from sdes have s: "participant \<noteq> 0" "cname \<noteq> []" "length cname \<le> 255"
    by (auto simp: build_rtcp_sdes_cname_def split: if_splits)
  from bye have y: "ssrcs \<noteq> []" "length ssrcs \<le> 31" "length reason \<le> 255" "0 \<notin> set ssrcs"
    by (auto simp: build_rtcp_bye_def split: if_splits)
  have sdes_parse: "parse_rtcp_sdes_packet sdes = Inr [\<lparr>chunk_ssrc = participant, chunk_cname = cname,
      chunk_items = [\<lparr>item_type = 1, item_value = cname\<rparr>]\<rparr>]"
    using sdes build_rtcp_sdes_cname_eq [OF s] parse_sdes_cname_bytes [OF s(2,3), of participant] by simp
  have bye_parse: "parse_rtcp_bye_packet bye = Inr \<lparr>bye_ssrcs = ssrcs, bye_reason = reason\<rparr>"
    using bye build_rtcp_bye_eq [OF y] parse_bye_bytes [OF y(1-3)] by simp
  obtain b1 where p1: "parse_members [report, sdes, bye] empty_compound = parse_members [sdes, bye]
      ((aggregate_report_packet r empty_compound)\<lparr>blocks := blocks empty_compound @ [b1]\<rparr>)"
    (is "_ = parse_members _ ?p1")
    using parse_members_report [OF report] by blast
  obtain b2 where p2: "parse_members [sdes, bye] ?p1 = parse_members [bye]
      (?p1\<lparr>sdes_packet_count := sdes_packet_count ?p1 + 1, sdes_chunks := sdes_chunks ?p1 @
        [\<lparr>chunk_ssrc = participant, chunk_cname = cname,
          chunk_items = [\<lparr>item_type = 1, item_value = cname\<rparr>]\<rparr>], blocks := blocks ?p1 @ [b2]\<rparr>)"
    (is "_ = parse_members _ ?p2")
    using parse_members_sdes [OF sdes_parse] by blast
  obtain b3 where p3: "parse_members [bye] ?p2 = parse_members []
      (?p2\<lparr>has_bye := True, bye_packets := bye_packets ?p2 @ [\<lparr>bye_ssrcs = ssrcs, bye_reason = reason\<rparr>],
        blocks := blocks ?p2 @ [b3]\<rparr>)"
    (is "_ = parse_members _ ?p3")
    using parse_members_bye [OF bye_parse] by blast
  have "parse_rtcp_compound_packet datagram = Inr ?p3"
    by (rule parse_built_compound [OF compound]) (simp only: p1 p2 p3 parse_members.simps(1))
  then show ?thesis by (simp add: empty_compound_def aggregate_report_packet_def)
qed

theorem bye_datagram_round_trip_witness:
  "\<exists>datagram packet. build_rtcp_bye_datagram [0x80, 201, 0, 1, 0, 0, 0, 9] 9 [97] [9, 10] [98, 99] 64 =
      Inr datagram
    \<and> parse_rtcp_compound_packet datagram = Inr packet \<and> has_bye packet"
proof -
  have "\<exists>d. build_rtcp_compound_packet
      [[0x80, 201, 0, 1, 0, 0, 0, 9], sdes_cname_bytes 9 [97], bye_bytes [9, 10] [98, 99]] 64 = Inr d"
    by (auto simp add: build_rtcp_compound_packet_iff validate_rtcp_packet_def sdes_cname_bytes_def
        bye_bytes_def rtcp_header_bytes_def align4_def enc_u16_def enc_u32_def be16_def)
  then have "ok (build_rtcp_bye_datagram [0x80, 201, 0, 1, 0, 0, 0, 9] 9 [97] [9, 10] [98, 99] 64)"
    by (auto simp: build_rtcp_bye_datagram_def validate_rtcp_packet_def be16_def be32_def
        build_rtcp_sdes_cname_eq build_rtcp_bye_eq)
  moreover have "ok (parse_rtcp_report_packet [0x80, 201, 0, 1, 0, 0, 0, 9])"
    by code_simp
  ultimately obtain datagram r where
    "build_rtcp_bye_datagram [0x80, 201, 0, 1, 0, 0, 0, 9] 9 [97] [9, 10] [98, 99] 64 = Inr datagram"
    and "parse_rtcp_report_packet [0x80, 201, 0, 1, 0, 0, 0, 9] = Inr r"
    by (auto simp only: ok_iff)
  with bye_datagram_round_trip [OF this] show ?thesis by blast
qed

end
