(* ===== verification/Transport_Feedback_History.thy ===== *)
theory Transport_Feedback_History
  imports Rtcp_Transport_Feedback
begin

text \<open>
  The send side of transport-wide congestion control, the class
  \<^verbatim>\<open>transport_feedback_send_history\<close> of \<^verbatim>\<open>src/rtp/rtcp_transport_feedback.cpp\<close>: packets sent
  are remembered under consecutive extended sequence numbers, and incoming feedback is attributed
  to them by the low sixteen bits. A \<^verbatim>\<open>steady_clock::time_point\<close> is an \<open>int\<close> of nanoseconds, a
  duration in milliseconds an \<open>int\<close> of milliseconds; 64-bit counters, which grow by the size of
  what was sent, are \<open>nat\<close>. The deque \<^verbatim>\<open>history_\<close> is a list, its front first.
\<close>

section \<open>Data\<close>

record transport_feedback_sent_packet =
  sent_packet_size :: nat
  retransmission :: bool
  sent_at :: int

record sent_record =
  extended_sequence_number :: nat
  sent_packet :: transport_feedback_sent_packet

record transport_feedback_send_observation =
  ob_packet_status_count :: nat
  ob_lookup_hit :: nat
  ob_lookup_miss :: nat
  ob_received :: nat
  ob_not_received :: nat
  ob_received_bytes :: nat
  ob_not_received_bytes :: nat
  ob_received_retransmissions :: nat
  ob_not_received_retransmissions :: nat
  ob_maximum_feedback_delay_ms :: nat

record transport_feedback_send_history_snapshot =
  history_packets :: nat
  sent_packets :: nat
  sent_bytes :: nat
  sent_retransmissions :: nat
  sent_retransmission_bytes :: nat
  feedback_packets :: nat
  stat_feedback_statuses :: nat
  lookup_hit :: nat
  lookup_miss :: nat
  stat_received :: nat
  not_received :: nat
  received_bytes :: nat
  not_received_bytes :: nat
  received_retransmissions :: nat
  not_received_retransmissions :: nat
  feedback_duplicates :: nat
  feedback_gaps :: nat
  feedback_reordered :: nat
  evicted_age :: nat
  evicted_capacity :: nat
  maximum_feedback_delay_ms :: nat

record transport_feedback_send_history =
  maximum_history_age :: int
  maximum_history_packets :: nat
  next_extended_sequence :: nat
  history :: "sent_record list"
  last_feedback_packet_count :: "u8 option"
  stats :: transport_feedback_send_history_snapshot

abbreviation (input) k_sequence_modulus :: int where "k_sequence_modulus \<equiv> 65536"
abbreviation (input) k_sequence_half_range :: int where "k_sequence_half_range \<equiv> 32768"
abbreviation (input) milliseconds :: "int \<Rightarrow> int" where "milliseconds ms \<equiv> ms * 1000000"

section \<open>Operations\<close>

definition empty_snapshot :: transport_feedback_send_history_snapshot where
  "empty_snapshot =
     \<lparr>history_packets = 0, sent_packets = 0, sent_bytes = 0, sent_retransmissions = 0,
      sent_retransmission_bytes = 0, feedback_packets = 0, stat_feedback_statuses = 0,
      lookup_hit = 0, lookup_miss = 0, stat_received = 0, not_received = 0, received_bytes = 0,
      not_received_bytes = 0, received_retransmissions = 0, not_received_retransmissions = 0,
      feedback_duplicates = 0, feedback_gaps = 0, feedback_reordered = 0, evicted_age = 0,
      evicted_capacity = 0, maximum_feedback_delay_ms = 0\<rparr>"

definition make_send_history :: "int \<Rightarrow> nat \<Rightarrow> transport_feedback_send_history" where
  "make_send_history age packets =
     \<lparr>maximum_history_age = age, maximum_history_packets = packets, next_extended_sequence = 0,
      history = [], last_feedback_packet_count = None, stats = empty_snapshot\<rparr>"

definition next_sequence_number :: "transport_feedback_send_history \<Rightarrow> u16" where
  "next_sequence_number h = of_nat (next_extended_sequence h)"

text \<open>The two loops of \<^verbatim>\<open>evict_old\<close>: how many records each pops from the front.\<close>

fun drop_expired :: "int \<Rightarrow> int \<Rightarrow> sent_record list \<Rightarrow> sent_record list \<times> nat" where
  "drop_expired now age [] = ([], 0)"
| "drop_expired now age (r # rs) =
     (if now - sent_at (sent_packet r) > milliseconds age
      then (let (rest, n) = drop_expired now age rs in (rest, n + 1))
      else (r # rs, 0))"

fun drop_surplus :: "nat \<Rightarrow> sent_record list \<Rightarrow> sent_record list \<times> nat" where
  "drop_surplus bound [] = ([], 0)"
| "drop_surplus bound (r # rs) =
     (if length (r # rs) > bound
      then (let (rest, n) = drop_surplus bound rs in (rest, n + 1))
      else (r # rs, 0))"

definition send_evict_old :: "int \<Rightarrow> transport_feedback_send_history \<Rightarrow> transport_feedback_send_history" where
  "send_evict_old now h =
     (let (rs, expired) = drop_expired now (maximum_history_age h) (history h);
          (rs, surplus) = drop_surplus (maximum_history_packets h) rs in
      h\<lparr>history := rs,
        stats := (stats h)\<lparr>evicted_age := evicted_age (stats h) + expired,
                          evicted_capacity := evicted_capacity (stats h) + surplus\<rparr>\<rparr>)"

definition remember_sent ::
  "transport_feedback_sent_packet \<Rightarrow> transport_feedback_send_history \<Rightarrow> transport_feedback_send_history" where
  "remember_sent packet h =
     (let s = stats h;
          s = s\<lparr>sent_packets := sent_packets s + 1, sent_bytes := sent_bytes s + sent_packet_size packet\<rparr>;
          s = (if retransmission packet
               then s\<lparr>sent_retransmissions := sent_retransmissions s + 1,
                      sent_retransmission_bytes := sent_retransmission_bytes s + sent_packet_size packet\<rparr>
               else s) in
      send_evict_old (sent_at packet)
        (h\<lparr>history := history h
             @ [\<lparr>extended_sequence_number = next_extended_sequence h, sent_packet = packet\<rparr>],
           next_extended_sequence := next_extended_sequence h + 1, stats := s\<rparr>))"

definition find_extended_sequence :: "u16 \<Rightarrow> transport_feedback_send_history \<Rightarrow> nat option" where
  "find_extended_sequence sequence h =
     (if history h = [] then None
      else let newest = int (extended_sequence_number (last (history h)));
               candidate = (newest AND NOT (k_sequence_modulus - 1)) + uint sequence;
               candidate =
                 (if candidate - newest > k_sequence_half_range then candidate - k_sequence_modulus
                  else if newest - candidate > k_sequence_half_range then candidate + k_sequence_modulus
                  else candidate) in
        if candidate < 0 \<or> candidate < int (extended_sequence_number (hd (history h)))
           \<or> candidate > newest
        then None else Some (nat candidate))"

definition observe_feedback_packet_count ::
  "u8 \<Rightarrow> transport_feedback_send_history \<Rightarrow> transport_feedback_send_history" where
  "observe_feedback_packet_count count h =
     (case last_feedback_packet_count h of
        None \<Rightarrow> h\<lparr>last_feedback_packet_count := Some count\<rparr>
      | Some last_count \<Rightarrow>
          let difference = count - last_count; s = stats h in
          if difference = 0
          then h\<lparr>stats := s\<lparr>feedback_duplicates := feedback_duplicates s + 1\<rparr>\<rparr>
          else if difference < 128
          then h\<lparr>stats := s\<lparr>feedback_gaps := feedback_gaps s + (unat difference - 1)\<rparr>,
                 last_feedback_packet_count := Some count\<rparr>
          else h\<lparr>stats := s\<lparr>feedback_reordered := feedback_reordered s + 1\<rparr>\<rparr>)"

text \<open>
  The body of the loop over the statuses. The record is fetched with \<^verbatim>\<open>history_[i]\<close>, a checked
  access here. \<^verbatim>\<open>duration_cast\<close> to milliseconds rounds towards zero, on a non-negative duration.
\<close>

definition observe_status ::
  "transport_feedback_send_history \<Rightarrow> int \<Rightarrow> rtcp_transport_feedback_status \<Rightarrow>
     transport_feedback_send_observation \<Rightarrow> transport_feedback_send_observation result" where
  "observe_status h now status ob =
     (case find_extended_sequence (status_sequence_number status) h of
        None \<Rightarrow> Inr (ob\<lparr>ob_lookup_miss := ob_lookup_miss ob + 1\<rparr>)
      | Some e \<Rightarrow>
          let index = e - extended_sequence_number (hd (history h)) in
          if index \<ge> length (history h) then Inl OutOfBounds
          else
            let packet = sent_packet (history h ! index);
                delay = (if now \<ge> sent_at packet then nat ((now - sent_at packet) div 1000000) else 0);
                resent = (if retransmission packet then 1 else 0);
                ob = ob\<lparr>ob_lookup_hit := ob_lookup_hit ob + 1,
                       ob_maximum_feedback_delay_ms := max (ob_maximum_feedback_delay_ms ob) delay\<rparr> in
            if received status
            then Inr (ob\<lparr>ob_received := ob_received ob + 1,
                   ob_received_bytes := ob_received_bytes ob + sent_packet_size packet,
                   ob_received_retransmissions := ob_received_retransmissions ob + resent\<rparr>)
            else Inr (ob\<lparr>ob_not_received := ob_not_received ob + 1,
                   ob_not_received_bytes := ob_not_received_bytes ob + sent_packet_size packet,
                   ob_not_received_retransmissions := ob_not_received_retransmissions ob + resent\<rparr>))"

fun observe_statuses ::
  "transport_feedback_send_history \<Rightarrow> int \<Rightarrow> rtcp_transport_feedback_status list \<Rightarrow>
     transport_feedback_send_observation \<Rightarrow> transport_feedback_send_observation result" where
  "observe_statuses h now [] ob = Inr ob"
| "observe_statuses h now (status # rest) ob =
     bindE (observe_status h now status ob) (observe_statuses h now rest)"

definition send_observe ::
  "parsed_rtcp_transport_feedback \<Rightarrow> int \<Rightarrow> transport_feedback_send_history \<Rightarrow>
     (transport_feedback_send_observation \<times> transport_feedback_send_history) result" where
  "send_observe feedback now h =
     (let h = send_evict_old now h;
          h = observe_feedback_packet_count (feedback_packet_count feedback) h;
          ob = \<lparr>ob_packet_status_count = length (statuses feedback), ob_lookup_hit = 0,
                ob_lookup_miss = 0, ob_received = 0, ob_not_received = 0, ob_received_bytes = 0,
                ob_not_received_bytes = 0, ob_received_retransmissions = 0,
                ob_not_received_retransmissions = 0, ob_maximum_feedback_delay_ms = 0\<rparr>;
          s = stats h;
          h = h\<lparr>stats := s\<lparr>feedback_packets := feedback_packets s + 1,
                stat_feedback_statuses := stat_feedback_statuses s + length (statuses feedback)\<rparr>\<rparr> in
      bindE (observe_statuses h now (statuses feedback) ob) (\<lambda>ob.
      let s = stats h in
      Inr (ob, h\<lparr>stats := s\<lparr>
        lookup_hit := lookup_hit s + ob_lookup_hit ob,
        lookup_miss := lookup_miss s + ob_lookup_miss ob,
        stat_received := stat_received s + ob_received ob,
        not_received := not_received s + ob_not_received ob,
        received_bytes := received_bytes s + ob_received_bytes ob,
        not_received_bytes := not_received_bytes s + ob_not_received_bytes ob,
        received_retransmissions := received_retransmissions s + ob_received_retransmissions ob,
        not_received_retransmissions :=
          not_received_retransmissions s + ob_not_received_retransmissions ob,
        maximum_feedback_delay_ms :=
          max (maximum_feedback_delay_ms s) (ob_maximum_feedback_delay_ms ob)\<rparr>\<rparr>)))"

definition send_expire :: "int \<Rightarrow> transport_feedback_send_history \<Rightarrow> transport_feedback_send_history" where
  "send_expire now h = send_evict_old now h"

definition send_snapshot :: "transport_feedback_send_history \<Rightarrow> transport_feedback_send_history_snapshot" where
  "send_snapshot h = (stats h)\<lparr>history_packets := length (history h)\<rparr>"

definition send_reset :: "transport_feedback_send_history \<Rightarrow> transport_feedback_send_history" where
  "send_reset h =
     h\<lparr>next_extended_sequence := 0, history := [], last_feedback_packet_count := None,
       stats := empty_snapshot\<rparr>"

section \<open>Specification\<close>

text \<open>
  The invariant: the history is the run of extended sequence numbers that ends right before the
  next one, no longer than its capacity.
\<close>

definition send_history_wf :: "transport_feedback_send_history \<Rightarrow> bool" where
  "send_history_wf h \<longleftrightarrow>
     map extended_sequence_number (history h) =
       [next_extended_sequence h - length (history h) ..< next_extended_sequence h]
     \<and> length (history h) \<le> next_extended_sequence h
     \<and> length (history h) \<le> maximum_history_packets h"

text \<open>
  The packet that was sent with a given 16-bit sequence number, by search; and what the statuses
  of a feedback packet say about the packets sent.
\<close>

definition packet_sent_as :: "u16 \<Rightarrow> transport_feedback_send_history \<Rightarrow> transport_feedback_sent_packet option" where
  "packet_sent_as s h =
     map_option sent_packet (find (\<lambda>r. of_nat (extended_sequence_number r) = s) (history h))"

definition attributed ::
  "transport_feedback_send_history \<Rightarrow> (rtcp_transport_feedback_status \<Rightarrow> bool) \<Rightarrow>
     rtcp_transport_feedback_status list \<Rightarrow> transport_feedback_sent_packet list" where
  "attributed h P sts = List.map_filter (\<lambda>st. packet_sent_as (status_sequence_number st) h) (filter P sts)"

text \<open>The reachable states of the object, under any sequence of its public operations.\<close>

inductive send_history_step :: "transport_feedback_send_history \<Rightarrow> transport_feedback_send_history \<Rightarrow> bool" where
  step_remember: "send_history_step h (remember_sent packet h)"
| step_observe: "send_observe feedback now h = Inr (ob, h') \<Longrightarrow> send_history_step h h'"
| step_expire: "send_history_step h (send_expire now h)"
| step_reset: "send_history_step h (send_reset h)"

section \<open>Eviction\<close>

lemma drop_expired_drop:
  "drop_expired now age rs = (rest, n) \<Longrightarrow> rest = drop n rs \<and> n \<le> length rs"
  by (induction now age rs arbitrary: rest n rule: drop_expired.induct) (auto split: if_splits prod.splits)

lemma drop_surplus_drop: "drop_surplus bound rs = (drop (length rs - bound) rs, length rs - bound)"
  by (induction bound rs rule: drop_surplus.induct) (auto simp: Suc_diff_le)

lemma send_evict_old_fields [simp]:
  "next_extended_sequence (send_evict_old now h) = next_extended_sequence h"
  "maximum_history_packets (send_evict_old now h) = maximum_history_packets h"
  "maximum_history_age (send_evict_old now h) = maximum_history_age h"
  by (simp_all add: send_evict_old_def split: prod.splits)

lemma send_evict_old_history:
  "\<exists>n \<le> length (history h). history (send_evict_old now h) = drop n (history h)
     \<and> length (history (send_evict_old now h)) \<le> maximum_history_packets h"
proof -
  obtain rs n where e: "drop_expired now (maximum_history_age h) (history h) = (rs, n)"
    by (cases "drop_expired now (maximum_history_age h) (history h)")
  then have rs: "rs = drop n (history h)" "n \<le> length (history h)"
    using drop_expired_drop by blast+
  let ?k = "length rs - maximum_history_packets h"
  have "history (send_evict_old now h) = drop (?k + n) (history h)"
    by (simp add: send_evict_old_def e drop_surplus_drop rs(1))
  moreover have "?k + n \<le> length (history h)" using rs by simp
  ultimately show ?thesis using rs(1)
    by (intro exI [of _ "?k + n"]) (auto simp: send_evict_old_def e drop_surplus_drop)
qed

lemma contiguous_drop:
  assumes "map extended_sequence_number rs = [n - length rs ..< n]" and "length rs \<le> n"
  shows "map extended_sequence_number (drop k rs) = [n - length (drop k rs) ..< n]"
proof (cases "k \<le> length rs")
  case True
  have "map extended_sequence_number (drop k rs) = drop k [n - length rs ..< n]"
    by (simp add: drop_map [symmetric] assms(1))
  also have "\<dots> = [n - length rs + k ..< n]" by (rule drop_upt)
  finally show ?thesis using True assms(2) by simp
qed simp

lemma send_evict_old_wf:
  assumes "map extended_sequence_number (history h) =
      [next_extended_sequence h - length (history h) ..< next_extended_sequence h]"
    and "length (history h) \<le> next_extended_sequence h"
  shows "send_history_wf (send_evict_old now h)"
proof -
  obtain n where n: "history (send_evict_old now h) = drop n (history h)"
    "length (history (send_evict_old now h)) \<le> maximum_history_packets h"
    using send_evict_old_history [of h now] by blast
  show ?thesis
    using contiguous_drop [OF assms, of n] n assms(2) by (simp add: send_history_wf_def)
qed

section \<open>Every operation keeps the invariant\<close>

lemma make_send_history_wf: "send_history_wf (make_send_history age packets)"
  by (simp add: make_send_history_def send_history_wf_def)

lemma remember_sent_wf:
  assumes "send_history_wf h"
  shows "send_history_wf (remember_sent packet h)"
  unfolding remember_sent_def Let_def
  by (rule send_evict_old_wf)
    (use assms in \<open>auto simp: send_history_wf_def Suc_diff_le\<close>)

lemma observe_feedback_packet_count_fields [simp]:
  "history (observe_feedback_packet_count c h) = history h"
  "next_extended_sequence (observe_feedback_packet_count c h) = next_extended_sequence h"
  "maximum_history_packets (observe_feedback_packet_count c h) = maximum_history_packets h"
  by (simp_all add: observe_feedback_packet_count_def Let_def split: option.splits)

lemma send_observe_state:
  assumes "send_observe feedback now h = Inr (ob, h')"
  shows "history h' = history (send_evict_old now h)"
    and "next_extended_sequence h' = next_extended_sequence h"
    and "maximum_history_packets h' = maximum_history_packets h"
  using assms by (auto simp: send_observe_def Let_def bindE_Inr_iff)

lemma send_observe_wf:
  assumes "send_history_wf h" and "send_observe feedback now h = Inr (ob, h')"
  shows "send_history_wf h'"
  using send_evict_old_wf [of h now] assms(1) send_observe_state [OF assms(2)]
  by (simp add: send_history_wf_def)

lemma send_history_step_wf: "send_history_step h h' \<Longrightarrow> send_history_wf h \<Longrightarrow> send_history_wf h'"
proof (induction rule: send_history_step.induct)
  case (step_expire h now)
  then show ?case using send_evict_old_wf [of h now] by (simp add: send_history_wf_def send_expire_def)
next
  case (step_reset h)
  then show ?case by (simp add: send_reset_def send_history_wf_def)
qed (simp_all add: remember_sent_wf send_observe_wf)

section \<open>Attribution by sequence number\<close>

lemma clear_low_bits: "(n :: int) AND NOT (65536 - 1) = n - n mod 65536"
proof -
  have "n AND NOT (mask 16) = push_bit 16 (drop_bit 16 n)"
    by (rule bit_eqI) (auto simp: bit_simps)
  moreover have "push_bit 16 (drop_bit 16 n) + take_bit 16 n = n" by (rule bits_ident)
  ultimately have "n AND NOT (mask 16) = n - take_bit 16 n" by simp
  then show ?thesis by (simp add: take_bit_eq_mod mask_eq_exp_minus_1)
qed

text \<open>The nearest number to \<open>newest\<close> with given low sixteen bits, ties to the side the code takes.\<close>

lemma nearest_candidate:
  fixes newest s :: int
  assumes "0 \<le> s" and "s < 65536"
  defines "c0 \<equiv> newest - newest mod 65536 + s"
  defines "c \<equiv> (if c0 - newest > 32768 then c0 - 65536
                else if newest - c0 > 32768 then c0 + 65536 else c0)"
  shows "c mod 65536 = s" and "\<bar>c - newest\<bar> \<le> 32768"
proof -
  have "c0 mod 65536 = s" using assms(1,2) by (simp add: c0_def mod_simps flip: minus_mult_div_eq_mod)
  then show "c mod 65536 = s" by (simp add: c_def mod_diff_eq flip: mod_add_right_eq)
  define m where "m = newest mod 65536"
  have "0 \<le> m" "m < 65536" by (simp_all add: m_def)
  then show "\<bar>c - newest\<bar> \<le> 32768"
    using assms(1,2) unfolding c_def c0_def m_def [symmetric] by auto
qed

lemma same_residue:
  assumes "(a :: int) mod 65536 = b mod 65536" and "\<bar>a - b\<bar> < 65536"
  shows "a = b"
proof -
  have "65536 dvd a - b" using assms(1) by (simp add: mod_eq_dvd_iff)
  then show ?thesis using assms(2) zdvd_imp_le [of 65536 "\<bar>a - b\<bar>"] by auto
qed

lemma of_nat_eq_u16_iff: "(of_nat e :: u16) = s \<longleftrightarrow> int e mod 65536 = uint s"
proof -
  have "(of_nat e :: u16) = s \<longleftrightarrow> uint (of_nat e :: u16) = uint s" by (rule word_uint_eq_iff)
  also have "uint (of_nat e :: u16) = int e mod 65536" by (simp add: unsigned_of_nat take_bit_eq_mod zmod_int)
  finally show ?thesis .
qed

lemma wf_history_bounds:
  assumes "send_history_wf h" and "history h \<noteq> []"
  shows "extended_sequence_number (last (history h)) = next_extended_sequence h - 1"
    and "extended_sequence_number (hd (history h)) = next_extended_sequence h - length (history h)"
    and "extended_sequence_number ` set (history h) =
      {next_extended_sequence h - length (history h) ..< next_extended_sequence h}"
proof -
  let ?l = "[next_extended_sequence h - length (history h) ..< next_extended_sequence h]"
  have l: "map extended_sequence_number (history h) = ?l" using assms(1) by (simp add: send_history_wf_def)
  have ne: "?l \<noteq> []" using l assms(2) by (metis map_is_Nil_conv)
  show "extended_sequence_number (last (history h)) = next_extended_sequence h - 1"
    using last_map [OF assms(2), of extended_sequence_number] l ne by simp
  show "extended_sequence_number (hd (history h)) = next_extended_sequence h - length (history h)"
    using hd_map [OF assms(2), of extended_sequence_number] l ne by simp
  show "extended_sequence_number ` set (history h) =
      {next_extended_sequence h - length (history h) ..< next_extended_sequence h}"
    using arg_cong [OF l, of set] by simp
qed

lemma find_extended_sequence_iff:
  assumes "send_history_wf h" and "maximum_history_packets h \<le> 32768"
  shows "find_extended_sequence s h = Some e \<longleftrightarrow>
    e \<in> extended_sequence_number ` set (history h) \<and> of_nat e = s"
proof (cases "history h = []")
  case True
  then show ?thesis by (simp add: find_extended_sequence_def)
next
  case False
  note bounds = wf_history_bounds [OF assms(1) False]
  let ?n = "next_extended_sequence h" and ?l = "length (history h)"
  have l: "0 < ?l" "?l \<le> ?n" "?l \<le> 32768"
    using False assms by (auto simp: send_history_wf_def)
  define newest where "newest = int (?n - 1)"
  define c0 where "c0 = newest - newest mod 65536 + uint s"
  define c where "c = (if c0 - newest > 32768 then c0 - 65536
      else if newest - c0 > 32768 then c0 + 65536 else c0)"
  have newest: "newest = int ?n - 1" using l(1,2) unfolding newest_def by linarith
  have s: "0 \<le> uint s" "uint s < 65536" using unsigned_less [of s, where ?'a = int] by simp_all
  have c: "c mod 65536 = uint s" "\<bar>c - newest\<bar> \<le> 32768"
    using nearest_candidate [OF s, of newest] unfolding c_def c0_def by blast+
  have find: "find_extended_sequence s h =
      (if c < 0 \<or> c < int (?n - ?l) \<or> c > newest then None else Some (nat c))"
    using False
    unfolding find_extended_sequence_def Let_def bounds newest_def [symmetric] clear_low_bits
      c0_def [symmetric] c_def [symmetric]
    by (simp only: if_False)
  show ?thesis
  proof
    assume "find_extended_sequence s h = Some e"
    then have "int (?n - ?l) \<le> c" "c \<le> newest" "0 \<le> c" "e = nat c"
      by (auto simp: find split: if_splits)
    then show "e \<in> extended_sequence_number ` set (history h) \<and> of_nat e = s"
      unfolding bounds(3) of_nat_eq_u16_iff using c(1) l by (auto simp: newest_def)
  next
    assume e: "e \<in> extended_sequence_number ` set (history h) \<and> of_nat e = s"
    then have range: "?n - ?l \<le> e" "e < ?n" and "int e mod 65536 = c mod 65536"
      unfolding bounds(3) of_nat_eq_u16_iff using c(1) by auto
    moreover have "\<bar>int e - c\<bar> < 65536" using range(1,2) c(2) l newest by linarith
    ultimately have "int e = c" by (blast intro: same_residue)
    then show "find_extended_sequence s h = Some e"
      using range(1,2) newest unfolding find by auto
  qed
qed

lemma nth_history:
  assumes "send_history_wf h" and "i < length (history h)"
  shows "extended_sequence_number (history h ! i) = next_extended_sequence h - length (history h) + i"
proof -
  have "extended_sequence_number (history h ! i) = map extended_sequence_number (history h) ! i"
    using assms(2) by simp
  also have "\<dots> = [next_extended_sequence h - length (history h) ..< next_extended_sequence h] ! i"
    using assms(1) by (simp add: send_history_wf_def)
  also have "\<dots> = next_extended_sequence h - length (history h) + i"
    using assms by (intro nth_upt) (auto simp: send_history_wf_def)
  finally show ?thesis .
qed

lemma find_unique:
  assumes "x \<in> set xs" and "P x" and "\<And>y. y \<in> set xs \<Longrightarrow> P y \<Longrightarrow> y = x"
  shows "find P xs = Some x"
proof -
  obtain y where y: "find P xs = Some y"
    using assms(1,2) by (cases "find P xs") (auto simp: find_None_iff)
  then have "y \<in> set xs" "P y" by (auto simp: find_Some_iff)
  then show ?thesis using assms(3) y by blast
qed

lemma packet_sent_as_None:
  assumes "send_history_wf h" and "maximum_history_packets h \<le> 32768"
    and "find_extended_sequence s h = None"
  shows "packet_sent_as s h = None"
proof -
  have "of_nat (extended_sequence_number r) \<noteq> s" if "r \<in> set (history h)" for r
    using find_extended_sequence_iff [OF assms(1,2), of s "extended_sequence_number r"] assms(3) that
    by auto
  then show ?thesis by (auto simp: packet_sent_as_def find_None_iff)
qed

lemma packet_sent_as_Some:
  assumes "send_history_wf h" and "maximum_history_packets h \<le> 32768"
    and "find_extended_sequence s h = Some e"
  defines "i \<equiv> e - extended_sequence_number (hd (history h))"
  shows "i < length (history h)" and "packet_sent_as s h = Some (sent_packet (history h ! i))"
proof -
  note iff = find_extended_sequence_iff [OF assms(1,2)]
  have e: "e \<in> extended_sequence_number ` set (history h)" "of_nat e = s" using iff assms(3) by auto
  then have ne: "history h \<noteq> []" by auto
  note bounds = wf_history_bounds [OF assms(1) ne]
  have le: "length (history h) \<le> next_extended_sequence h" using assms(1) by (simp add: send_history_wf_def)
  show i: "i < length (history h)" using e(1) le unfolding bounds(3) by (auto simp: i_def bounds(2))
  have ext: "extended_sequence_number (history h ! i) = e"
    using nth_history [OF assms(1) i] e(1) unfolding bounds(3) by (auto simp: i_def bounds(2))
  have "find (\<lambda>r. of_nat (extended_sequence_number r) = s) (history h) = Some (history h ! i)"
  proof (rule find_unique)
    fix r assume r: "r \<in> set (history h)" "of_nat (extended_sequence_number r) = s"
    then have "find_extended_sequence s h = Some (extended_sequence_number r)" using iff by auto
    then have same: "extended_sequence_number r = e" using assms(3) by simp
    obtain j where j: "j < length (history h)" "r = history h ! j" using r(1) by (auto simp: in_set_conv_nth)
    show "r = history h ! i" using nth_history [OF assms(1) j(1)] nth_history [OF assms(1) i] same ext j(2)
      by simp
  qed (use i ext e(2) in auto)
  then show "packet_sent_as s h = Some (sent_packet (history h ! i))" by (simp add: packet_sent_as_def)
qed

lemma observe_status_eq:
  assumes "send_history_wf h" and "maximum_history_packets h \<le> 32768"
  shows "observe_status h now status ob =
    (case packet_sent_as (status_sequence_number status) h of
       None \<Rightarrow> Inr (ob\<lparr>ob_lookup_miss := ob_lookup_miss ob + 1\<rparr>)
     | Some packet \<Rightarrow>
         let delay = (if now \<ge> sent_at packet then nat ((now - sent_at packet) div 1000000) else 0);
             resent = (if retransmission packet then 1 else 0);
             ob = ob\<lparr>ob_lookup_hit := ob_lookup_hit ob + 1,
                    ob_maximum_feedback_delay_ms := max (ob_maximum_feedback_delay_ms ob) delay\<rparr> in
         if received status
         then Inr (ob\<lparr>ob_received := ob_received ob + 1,
                ob_received_bytes := ob_received_bytes ob + sent_packet_size packet,
                ob_received_retransmissions := ob_received_retransmissions ob + resent\<rparr>)
         else Inr (ob\<lparr>ob_not_received := ob_not_received ob + 1,
                ob_not_received_bytes := ob_not_received_bytes ob + sent_packet_size packet,
                ob_not_received_retransmissions := ob_not_received_retransmissions ob + resent\<rparr>))"
proof (cases "find_extended_sequence (status_sequence_number status) h")
  case None
  then show ?thesis by (simp add: observe_status_def packet_sent_as_None [OF assms])
next
  case (Some e)
  with packet_sent_as_Some [OF assms Some] show ?thesis
    by (simp add: observe_status_def Let_def)
qed

lemma observe_statuses_eq:
  assumes "send_history_wf h" and "maximum_history_packets h \<le> 32768"
  shows "\<exists>ob'. observe_statuses h now sts ob = Inr ob'
    \<and> ob_packet_status_count ob' = ob_packet_status_count ob
    \<and> ob_lookup_hit ob' + ob_lookup_miss ob' = ob_lookup_hit ob + ob_lookup_miss ob + length sts
    \<and> ob_received ob' = ob_received ob + length (attributed h received sts)
    \<and> ob_not_received ob' = ob_not_received ob + length (attributed h (\<lambda>st. \<not> received st) sts)
    \<and> ob_lookup_hit ob' + ob_received ob + ob_not_received ob =
        ob_lookup_hit ob + ob_received ob' + ob_not_received ob'
    \<and> ob_received_bytes ob' = ob_received_bytes ob
        + sum_list (map sent_packet_size (attributed h received sts))
    \<and> ob_not_received_bytes ob' = ob_not_received_bytes ob
        + sum_list (map sent_packet_size (attributed h (\<lambda>st. \<not> received st) sts))"
proof (induction sts arbitrary: ob)
  case Nil
  then show ?case by (simp add: attributed_def map_filter_simps)
next
  case (Cons st sts)
  note step = observe_status_eq [OF assms, of now st ob]
  show ?case
  proof (cases "packet_sent_as (status_sequence_number st) h")
    case None
    then show ?thesis using step Cons.IH [of "ob\<lparr>ob_lookup_miss := ob_lookup_miss ob + 1\<rparr>"]
      by (auto simp: attributed_def map_filter_simps)
  next
    case (Some p)
    then obtain ob1 where ob1: "observe_status h now st ob = Inr ob1"
        "ob_packet_status_count ob1 = ob_packet_status_count ob"
        "ob_lookup_hit ob1 = ob_lookup_hit ob + 1" "ob_lookup_miss ob1 = ob_lookup_miss ob"
        "ob_received ob1 = ob_received ob + of_bool (received st)"
        "ob_not_received ob1 = ob_not_received ob + of_bool (\<not> received st)"
        "ob_received_bytes ob1 = ob_received_bytes ob + of_bool (received st) * sent_packet_size p"
        "ob_not_received_bytes ob1 =
          ob_not_received_bytes ob + of_bool (\<not> received st) * sent_packet_size p"
      using step by (cases "received st") (simp_all add: Let_def)
    show ?thesis
      using Cons.IH [of ob1] ob1 Some
      by (cases "received st") (auto simp: attributed_def map_filter_simps)
  qed
qed

lemma packet_sent_as_member:
  assumes "send_history_wf h" and "maximum_history_packets h \<le> 32768" and "r \<in> set (history h)"
  shows "packet_sent_as (of_nat (extended_sequence_number r)) h = Some (sent_packet r)"
proof -
  obtain j where j: "j < length (history h)" "r = history h ! j" using assms(3) by (auto simp: in_set_conv_nth)
  have "find_extended_sequence (of_nat (extended_sequence_number r)) h = Some (extended_sequence_number r)"
    using find_extended_sequence_iff [OF assms(1,2)] assms(3) by auto
  from packet_sent_as_Some(2) [OF assms(1,2) this] show ?thesis
    using nth_history [OF assms(1) j(1)] wf_history_bounds(2) [OF assms(1)] j by fastforce
qed

text \<open>The newest record survives the eviction that its own time triggers.\<close>

lemma drop_expired_keeps:
  "now - sent_at (sent_packet (last rs)) \<le> milliseconds age \<Longrightarrow> rs \<noteq> [] \<Longrightarrow>
     drop_expired now age rs = (rest, n) \<Longrightarrow> n < length rs"
  by (induction now age rs arbitrary: rest n rule: drop_expired.induct)
    (auto split: if_splits prod.splits list.splits)

lemma send_evict_old_keeps_last:
  assumes "now - sent_at (sent_packet (last (history h))) \<le> milliseconds (maximum_history_age h)"
    and "history h \<noteq> []" and "0 < maximum_history_packets h"
  shows "last (history h) \<in> set (history (send_evict_old now h))"
proof -
  obtain rs n where e: "drop_expired now (maximum_history_age h) (history h) = (rs, n)"
    by (cases "drop_expired now (maximum_history_age h) (history h)")
  have n: "n < length (history h)" by (rule drop_expired_keeps [OF assms(1,2) e])
  have rs: "rs = drop n (history h)" using drop_expired_drop [OF e] by simp
  let ?k = "length rs - maximum_history_packets h + n"
  have k: "?k < length (history h)" using n rs assms(3) by auto
  have "last (drop ?k (history h)) \<in> set (drop ?k (history h))" using k by (intro last_in_set) simp
  then show ?thesis using k rs by (simp add: send_evict_old_def e drop_surplus_drop)
qed

section \<open>Properties\<close>

lemma send_history_step_bound:
  "send_history_step h h' \<Longrightarrow> maximum_history_packets h' = maximum_history_packets h"
  by (induction rule: send_history_step.induct)
    (auto simp: remember_sent_def Let_def send_expire_def send_reset_def dest: send_observe_state(3))

lemma reachable_send_history:
  "send_history_step\<^sup>*\<^sup>* (make_send_history age packets) h \<Longrightarrow>
     send_history_wf h \<and> maximum_history_packets h = packets"
proof (induction rule: rtranclp_induct)
  case base
  then show ?case using make_send_history_wf by (simp add: make_send_history_def)
qed (simp add: send_history_step_wf send_history_step_bound)



text \<open>
  A packet is found under the sequence number it was stamped with
  (\<^verbatim>\<open>next_sequence_number\<close> before it is remembered), however often the 16-bit counter wrapped.
\<close>

theorem remembered_packet_is_found:
  assumes "send_history_wf h" and "0 < maximum_history_packets h" and "maximum_history_packets h \<le> 32768"
    and "0 \<le> maximum_history_age h"
  shows "packet_sent_as (next_sequence_number h) (remember_sent packet h) = Some packet"
proof -
  define r where "r = \<lparr>extended_sequence_number = next_extended_sequence h, sent_packet = packet\<rparr>"
  obtain h1 where h1: "remember_sent packet h = send_evict_old (sent_at packet) h1"
    "history h1 = history h @ [r]" "maximum_history_age h1 = maximum_history_age h"
    "maximum_history_packets h1 = maximum_history_packets h"
    by (simp add: remember_sent_def Let_def r_def)
  have "r \<in> set (history (remember_sent packet h))"
    using send_evict_old_keeps_last [of "sent_at packet" h1] h1 assms(2,4) by (simp add: r_def)
  with packet_sent_as_member [OF remember_sent_wf [OF assms(1)] _ this] h1 assms(3) show ?thesis
    by (simp add: next_sequence_number_def r_def)
qed

theorem remembered_packet_is_found_witness:
  "packet_sent_as 0 (remember_sent \<lparr>sent_packet_size = 100, retransmission = True, sent_at = 5\<rparr>
      (make_send_history 2000 4)) =
    Some \<lparr>sent_packet_size = 100, retransmission = True, sent_at = 5\<rparr>"
  using remembered_packet_is_found [OF make_send_history_wf [of 2000 4], of
      "\<lparr>sent_packet_size = 100, retransmission = True, sent_at = 5\<rparr>"]
  by (simp add: make_send_history_def next_sequence_number_def)

text \<open>
  Observing feedback never indexes the history out of range, and its accounting is complete:
  every status is a hit or a miss, every hit is received or not, and the byte counts are those of
  the packets sent with these sequence numbers.
\<close>

theorem send_observe_accounting:
  assumes "send_history_wf h" and "maximum_history_packets h \<le> 32768"
  shows "\<exists>ob h'. send_observe feedback now h = Inr (ob, h')
    \<and> ob_lookup_hit ob + ob_lookup_miss ob = length (statuses feedback)
    \<and> ob_lookup_hit ob = ob_received ob + ob_not_received ob
    \<and> ob_received_bytes ob =
        sum_list (map sent_packet_size (attributed h' received (statuses feedback)))
    \<and> ob_not_received_bytes ob =
        sum_list (map sent_packet_size (attributed h' (\<lambda>st. \<not> received st) (statuses feedback)))"
proof -
  define h1 where "h1 = observe_feedback_packet_count (feedback_packet_count feedback) (send_evict_old now h)"
  define h2 where "h2 = h1\<lparr>stats := (stats h1)\<lparr>feedback_packets := feedback_packets (stats h1) + 1,
      stat_feedback_statuses := stat_feedback_statuses (stats h1) + length (statuses feedback)\<rparr>\<rparr>"
  have "send_history_wf (send_evict_old now h)"
    using assms(1) by (intro send_evict_old_wf) (simp_all add: send_history_wf_def)
  then have h2: "send_history_wf h2" "maximum_history_packets h2 \<le> 32768"
    using assms(2) by (simp_all add: h2_def h1_def send_history_wf_def)
  have same: "attributed (h2\<lparr>stats := s\<rparr>) P = attributed h2 P" for s P
    by (simp add: attributed_def packet_sent_as_def fun_eq_iff)
  show ?thesis
    using observe_statuses_eq [OF h2, of now "statuses feedback"
        "\<lparr>ob_packet_status_count = length (statuses feedback), ob_lookup_hit = 0,
          ob_lookup_miss = 0, ob_received = 0, ob_not_received = 0, ob_received_bytes = 0,
          ob_not_received_bytes = 0, ob_received_retransmissions = 0,
          ob_not_received_retransmissions = 0, ob_maximum_feedback_delay_ms = 0\<rparr>"]
    unfolding send_observe_def Let_def h1_def [symmetric] h2_def [symmetric]
    by (auto simp: same)
qed

theorem send_observe_accounting_witness:
  "\<exists>ob h'. send_observe \<lparr>feedback_sender_ssrc = 1, feedback_media_ssrc = 2, base_sequence_number = 0,
      packet_status_count = 1, reference_time = 3, feedback_packet_count = 4,
      statuses = [\<lparr>status_sequence_number = 0, received = False, delta_ticks = None\<rparr>]\<rparr> 7
      (make_send_history 2000 4) = Inr (ob, h') \<and> ob_lookup_hit ob + ob_lookup_miss ob = 1"
  using send_observe_accounting [OF make_send_history_wf [of 2000 4], of "\<lparr>feedback_sender_ssrc = 1,
      feedback_media_ssrc = 2, base_sequence_number = 0, packet_status_count = 1, reference_time = 3,
      feedback_packet_count = 4,
      statuses = [\<lparr>status_sequence_number = 0, received = False, delta_ticks = None\<rparr>]\<rparr>" 7]
  by (auto simp: make_send_history_def)

end
