(* ===== verification/Transport_Feedback_Generator.thy ===== *)
theory Transport_Feedback_Generator
  imports Transport_Feedback_History
begin

text \<open>
  The receive side of transport-wide congestion control, the class
  \<^verbatim>\<open>transport_feedback_generator\<close> of \<^verbatim>\<open>src/rtp/rtcp_transport_feedback.cpp\<close>: arrivals are
  recorded under unwrapped sequence numbers, and feedback over the pending window is previewed and
  then committed. The \<^verbatim>\<open>std::map\<close> of arrivals is an association list with increasing keys, a
  \<^verbatim>\<open>time_point\<close> an \<open>int\<close> of nanoseconds.
\<close>

section \<open>Data\<close>

record transport_feedback_generator_snapshot =
  gen_history_packets :: nat
  gen_pending_packets :: nat
  observed_packets :: nat
  duplicate_packets :: nat
  sequence_discontinuities :: nat
  feedback_packets_built :: nat
  packet_statuses_built :: nat

record transport_feedback_generator =
  gen_maximum_history_age :: int
  gen_maximum_history_packets :: nat
  newest_extended_sequence :: "int option"
  feedback_window_start :: "int option"
  arrivals :: "(int \<times> int) list"
  gen_media_ssrc :: u32
  gen_feedback_packet_count :: u8
  gen_stats :: transport_feedback_generator_snapshot

record transport_feedback_observe_result =
  inserted :: bool
  duplicate :: bool
  sequence_discontinuity :: bool
  observed_extended_sequence :: int

record built_rtcp_transport_feedback =
  built_packet :: bytes
  built_base_sequence_number :: u16
  built_packet_status_count :: u16
  built_media_ssrc :: u32
  built_feedback_packet_count :: u8
  received_packet_count :: nat
  lost_packet_count :: nat
  begin_extended_sequence :: int
  end_extended_sequence :: int

abbreviation (input) k_delta_tick_microseconds :: int where "k_delta_tick_microseconds \<equiv> 250"
abbreviation (input) k_reference_time_microseconds :: int where "k_reference_time_microseconds \<equiv> 64000"
abbreviation (input) k_maximum_sequence_jump :: int where "k_maximum_sequence_jump \<equiv> 4096"
abbreviation (input) k_maximum_statuses_per_feedback :: int where "k_maximum_statuses_per_feedback \<equiv> 4096"

section \<open>Time and sequence arithmetic\<close>

definition arrival_time_microseconds :: "int \<Rightarrow> int" where
  "arrival_time_microseconds time = trunc_div time 1000"

definition floor_reference_time :: "int \<Rightarrow> int" where
  "floor_reference_time arrival_microseconds =
     (if arrival_microseconds \<ge> 0
      then trunc_div arrival_microseconds k_reference_time_microseconds
      else - trunc_div (- arrival_microseconds + k_reference_time_microseconds - 1)
               k_reference_time_microseconds)"

definition round_delta_ticks :: "int \<Rightarrow> int" where
  "round_delta_ticks delta_microseconds =
     (if delta_microseconds \<ge> 0
      then trunc_div (delta_microseconds + trunc_div k_delta_tick_microseconds 2) k_delta_tick_microseconds
      else trunc_div (delta_microseconds - trunc_div k_delta_tick_microseconds 2) k_delta_tick_microseconds)"

text \<open>Returns the extended sequence number and whether a discontinuity was seen.\<close>

definition unwrap_sequence ::
  "u16 \<Rightarrow> transport_feedback_generator \<Rightarrow> int \<times> bool \<times> transport_feedback_generator" where
  "unwrap_sequence sequence g =
     (case newest_extended_sequence g of
        None \<Rightarrow> (uint sequence, False, g\<lparr>newest_extended_sequence := Some (uint sequence)\<rparr>)
      | Some newest \<Rightarrow>
          let candidate = (newest AND NOT (k_sequence_modulus - 1)) OR uint sequence;
              candidate =
                (if candidate - newest > k_sequence_half_range then candidate - k_sequence_modulus
                 else if newest - candidate > k_sequence_half_range then candidate + k_sequence_modulus
                 else candidate);
              sequence_distance =
                (if candidate \<ge> newest then candidate - newest else newest - candidate) in
          if sequence_distance > k_maximum_sequence_jump
          then (candidate, True,
                g\<lparr>arrivals := [], feedback_window_start := Some candidate,
                  newest_extended_sequence := Some candidate\<rparr>)
          else if candidate > newest
          then (candidate, False, g\<lparr>newest_extended_sequence := Some candidate\<rparr>)
          else (candidate, False, g))"

definition has_pending_feedback :: "transport_feedback_generator \<Rightarrow> bool" where
  "has_pending_feedback g =
     (case (feedback_window_start g, newest_extended_sequence g) of
        (Some start, Some newest) \<Rightarrow> start \<le> newest
      | _ \<Rightarrow> False)"

definition pending_status_count :: "transport_feedback_generator \<Rightarrow> nat" where
  "pending_status_count g =
     (if \<not> has_pending_feedback g then 0
      else nat (the (newest_extended_sequence g) - the (feedback_window_start g) + 1))"

section \<open>Arrivals\<close>

text \<open>\<^verbatim>\<open>std::map::try_emplace\<close>: a new key goes to its place in the order, a known one stays.\<close>

fun try_emplace :: "int \<Rightarrow> int \<Rightarrow> (int \<times> int) list \<Rightarrow> (int \<times> int) list" where
  "try_emplace k v [] = [(k, v)]"
| "try_emplace k v ((k', v') # rest) =
     (if k < k' then (k, v) # (k', v') # rest
      else if k = k' then (k', v') # rest
      else (k', v') # try_emplace k v rest)"

definition lower_bound :: "int \<Rightarrow> (int \<times> int) list \<Rightarrow> (int \<times> int) option" where
  "lower_bound k as = find (\<lambda>(k', v). k \<le> k') as"

text \<open>
  Eviction: the loop over all arrivals erases the expired ones, the second loop erases from the
  front until the capacity is met, and the window start follows.
\<close>

definition gen_evict_old :: "int \<Rightarrow> transport_feedback_generator \<Rightarrow> transport_feedback_generator" where
  "gen_evict_old now g =
     (let as = filter (\<lambda>(k, time). \<not> now - time > milliseconds (gen_maximum_history_age g)) (arrivals g);
          as = drop (length as - gen_maximum_history_packets g) as in
      g\<lparr>arrivals := as,
        feedback_window_start :=
          (case feedback_window_start g of
             None \<Rightarrow> None
           | Some start \<Rightarrow>
               (case as of
                  [] \<Rightarrow> (case newest_extended_sequence g of Some newest \<Rightarrow> Some (newest + 1) | None \<Rightarrow> None)
                | (earliest_received, _) # _ \<Rightarrow>
                    let earliest_encodable = earliest_received - (k_maximum_statuses_per_feedback - 1) in
                    if start < earliest_encodable then Some earliest_encodable else Some start))\<rparr>)"

definition refresh_stats :: "transport_feedback_generator \<Rightarrow> transport_feedback_generator" where
  "refresh_stats g =
     g\<lparr>gen_stats := (gen_stats g)\<lparr>gen_history_packets := length (arrivals g),
                                 gen_pending_packets := pending_status_count g\<rparr>\<rparr>"

definition gen_observe ::
  "u16 \<Rightarrow> int \<Rightarrow> u32 \<Rightarrow> transport_feedback_generator \<Rightarrow>
     transport_feedback_observe_result \<times> transport_feedback_generator" where
  "gen_observe sequence arrival_time media g =
     (let (extended, discontinuity, g) = unwrap_sequence sequence g;
          known = (map_of (arrivals g) extended \<noteq> None);
          g = g\<lparr>arrivals := try_emplace extended arrival_time (arrivals g), gen_media_ssrc := media\<rparr> in
      if known then
        (\<lparr>inserted = False, duplicate = True, sequence_discontinuity = discontinuity,
          observed_extended_sequence = extended\<rparr>,
         refresh_stats (gen_evict_old arrival_time
           (g\<lparr>gen_stats := (gen_stats g)\<lparr>duplicate_packets := duplicate_packets (gen_stats g) + 1\<rparr>\<rparr>)))
      else
        let g = (case feedback_window_start g of
                   None \<Rightarrow> g\<lparr>feedback_window_start := Some extended\<rparr>
                 | Some start \<Rightarrow>
                     if extended < start then g\<lparr>feedback_window_start := Some extended\<rparr> else g);
            s = (gen_stats g)\<lparr>observed_packets := observed_packets (gen_stats g) + 1\<rparr>;
            s = (if discontinuity
                 then s\<lparr>sequence_discontinuities := sequence_discontinuities s + 1\<rparr> else s) in
        (\<lparr>inserted = True, duplicate = False, sequence_discontinuity = discontinuity,
          observed_extended_sequence = extended\<rparr>,
         refresh_stats (gen_evict_old arrival_time (g\<lparr>gen_stats := s\<rparr>))))"

section \<open>Building feedback\<close>

record preview_state =
  pv_delta_sizes :: "u8 list"
  pv_deltas :: "u16 list"
  pv_received :: nat
  pv_lost :: nat
  pv_last_arrival_us :: int
  pv_actual_end :: int

function preview_loop ::
  "(int \<times> int) list \<Rightarrow> int \<Rightarrow> int \<Rightarrow> nat \<Rightarrow> int \<Rightarrow> preview_state \<Rightarrow> preview_state result" where
  "preview_loop as base maximum_sequence maximum_packet_size sequence st =
     (if sequence \<le> maximum_sequence then
        case map_of as sequence of
          Some arrival \<Rightarrow>
            let ticks = round_delta_ticks (arrival_time_microseconds arrival - pv_last_arrival_us st) in
            if ticks < - 32768 \<or> ticks > 32767 then
              if sequence = base
              then make_error ''rtcp transport feedback first receive delta exceeds signed sixteen-bit field''
              else Inr st
            else
              let delta = (of_int ticks :: u16);
                  sizes = pv_delta_sizes st @ [if ticks \<ge> 0 \<and> ticks \<le> 255 then 1 else 2] in
              if encoded_packet_size sizes > maximum_packet_size then Inr st
              else preview_loop as base maximum_sequence maximum_packet_size (sequence + 1)
                     (st\<lparr>pv_delta_sizes := sizes, pv_deltas := pv_deltas st @ [delta],
                         pv_actual_end := sequence, pv_received := pv_received st + 1,
                         pv_last_arrival_us :=
                           pv_last_arrival_us st + sint delta * k_delta_tick_microseconds\<rparr>)
        | None \<Rightarrow>
            let sizes = pv_delta_sizes st @ [0] in
            if encoded_packet_size sizes > maximum_packet_size then Inr st
            else preview_loop as base maximum_sequence maximum_packet_size (sequence + 1)
                   (st\<lparr>pv_delta_sizes := sizes, pv_actual_end := sequence, pv_lost := pv_lost st + 1\<rparr>)
      else Inr st)"
  by pat_completeness auto
termination
  by (relation "measure (\<lambda>(as, base, maximum_sequence, maximum_packet_size, sequence, st).
        nat (maximum_sequence + 1 - sequence))") auto

definition preview_feedback ::
  "u32 \<Rightarrow> nat \<Rightarrow> transport_feedback_generator \<Rightarrow> built_rtcp_transport_feedback option result" where
  "preview_feedback sender maximum_packet_size g =
     (if sender = 0 then make_error ''rtcp transport feedback sender ssrc is zero''
      else if maximum_packet_size < k_rtcp_transport_feedback_header_size + 4
      then make_error ''rtcp transport feedback maximum packet size is too small''
      else if \<not> has_pending_feedback g then Inr None
      else
        let base = the (feedback_window_start g);
            maximum_sequence =
              min (the (newest_extended_sequence g)) (base + (k_maximum_statuses_per_feedback - 1)) in
        case lower_bound base (arrivals g) of
          None \<Rightarrow> make_error ''rtcp transport feedback pending range has no received packet''
        | Some (first, first_arrival) \<Rightarrow>
            if first > maximum_sequence
            then make_error ''rtcp transport feedback pending range has no received packet''
            else
              let reference_time_full = floor_reference_time (arrival_time_microseconds first_arrival) in
              bindE (preview_loop (arrivals g) base maximum_sequence maximum_packet_size base
                       \<lparr>pv_delta_sizes = [], pv_deltas = [], pv_received = 0, pv_lost = 0,
                        pv_last_arrival_us = reference_time_full * k_reference_time_microseconds,
                        pv_actual_end = base - 1\<rparr>) (\<lambda>st.
              if pv_delta_sizes st = [] \<or> pv_actual_end st < base
              then make_error ''rtcp transport feedback packet cannot encode any status''
              else
                bindE (encode_transport_feedback_packet sender (gen_media_ssrc g)
                         (of_int (base AND 0xFFFF)) (of_int reference_time_full AND 0x00FFFFFF)
                         (gen_feedback_packet_count g) (pv_delta_sizes st) (pv_deltas st)) (\<lambda>packet.
                Inr (Some \<lparr>built_packet = packet,
                  built_base_sequence_number = of_int (base AND 0xFFFF),
                  built_packet_status_count = of_nat (length (pv_delta_sizes st)),
                  built_media_ssrc = gen_media_ssrc g,
                  built_feedback_packet_count = gen_feedback_packet_count g,
                  received_packet_count = pv_received st, lost_packet_count = pv_lost st,
                  begin_extended_sequence = base, end_extended_sequence = pv_actual_end st\<rparr>))))"

definition commit_feedback ::
  "built_rtcp_transport_feedback \<Rightarrow> transport_feedback_generator \<Rightarrow> transport_feedback_generator" where
  "commit_feedback feedback g =
     (case feedback_window_start g of
        None \<Rightarrow> g
      | Some start \<Rightarrow>
          if begin_extended_sequence feedback \<noteq> start
             \<or> end_extended_sequence feedback < begin_extended_sequence feedback
             \<or> built_feedback_packet_count feedback \<noteq> gen_feedback_packet_count g
          then g
          else
            let s = gen_stats g in
            refresh_stats (g\<lparr>feedback_window_start := Some (end_extended_sequence feedback + 1),
              gen_feedback_packet_count := gen_feedback_packet_count g + 1,
              gen_stats := s\<lparr>feedback_packets_built := feedback_packets_built s + 1,
                packet_statuses_built :=
                  packet_statuses_built s + unat (built_packet_status_count feedback)\<rparr>\<rparr>))"

definition gen_expire :: "int \<Rightarrow> transport_feedback_generator \<Rightarrow> transport_feedback_generator" where
  "gen_expire now g = refresh_stats (gen_evict_old now g)"

definition gen_snapshot :: "transport_feedback_generator \<Rightarrow> transport_feedback_generator_snapshot" where
  "gen_snapshot g = gen_stats (refresh_stats g)"

definition empty_gen_snapshot :: transport_feedback_generator_snapshot where
  "empty_gen_snapshot =
     \<lparr>gen_history_packets = 0, gen_pending_packets = 0, observed_packets = 0, duplicate_packets = 0,
      sequence_discontinuities = 0, feedback_packets_built = 0, packet_statuses_built = 0\<rparr>"

definition gen_reset :: "transport_feedback_generator \<Rightarrow> transport_feedback_generator" where
  "gen_reset g =
     g\<lparr>newest_extended_sequence := None, feedback_window_start := None, arrivals := [],
       gen_media_ssrc := 0, gen_feedback_packet_count := 0, gen_stats := empty_gen_snapshot\<rparr>"

definition make_generator :: "int \<Rightarrow> nat \<Rightarrow> transport_feedback_generator" where
  "make_generator age packets =
     \<lparr>gen_maximum_history_age = age, gen_maximum_history_packets = packets,
      newest_extended_sequence = None, feedback_window_start = None, arrivals = [],
      gen_media_ssrc = 0, gen_feedback_packet_count = 0, gen_stats = empty_gen_snapshot\<rparr>"

section \<open>Specification\<close>

text \<open>
  The arrival times that a receiver of the feedback reconstructs: the running sum of the deltas, in
  microseconds, from the reference time.
\<close>

fun arrival_times :: "int \<Rightarrow> rtcp_transport_feedback_status list \<Rightarrow> int option list" where
  "arrival_times t [] = []"
| "arrival_times t (st # sts) =
     (case delta_ticks st of
        None \<Rightarrow> None # arrival_times t sts
      | Some d \<Rightarrow> let t = t + k_delta_tick_microseconds * sint d in Some t # arrival_times t sts)"

text \<open>The time after the last delta, and the feedback being built as it will be received.\<close>

definition last_time :: "int \<Rightarrow> u16 list \<Rightarrow> int" where
  "last_time t deltas = t + k_delta_tick_microseconds * sum_list (map sint deltas)"

text \<open>A reconstructed time matches an arrival when it is within half a tick of it.\<close>

definition matches_arrival :: "(int \<times> int) list \<Rightarrow> int \<Rightarrow> int option \<Rightarrow> bool" where
  "matches_arrival as sequence time =
     (case (map_of as sequence, time) of
        (None, None) \<Rightarrow> True
      | (Some a, Some t) \<Rightarrow> \<bar>arrival_time_microseconds a - t\<bar> \<le> 125
      | _ \<Rightarrow> False)"

text \<open>The invariant of the generator: ordered arrivals, none newer than the newest, in capacity.\<close>

definition generator_wf :: "transport_feedback_generator \<Rightarrow> bool" where
  "generator_wf g \<longleftrightarrow>
     sorted_wrt (<) (map fst (arrivals g))
     \<and> length (arrivals g) \<le> gen_maximum_history_packets g
     \<and> (case newest_extended_sequence g of
          None \<Rightarrow> arrivals g = [] \<and> feedback_window_start g = None
        | Some newest \<Rightarrow> (\<forall>k \<in> fst ` set (arrivals g). k \<le> newest)
            \<and> (\<exists>start. feedback_window_start g = Some start \<and> start \<le> newest + 1))"

text \<open>The reachable states: packets arrive, time passes, and feedback is built and committed.\<close>

inductive generator_step :: "transport_feedback_generator \<Rightarrow> transport_feedback_generator \<Rightarrow> bool" where
  gstep_observe: "generator_step g (snd (gen_observe sequence arrival_time media g))"
| gstep_commit: "preview_feedback sender bound g = Inr (Some b) \<Longrightarrow> generator_step g (commit_feedback b g)"
| gstep_expire: "generator_step g (gen_expire now g)"
| gstep_reset: "generator_step g (gen_reset g)"

text \<open>What the loop of \<^verbatim>\<open>preview_feedback\<close> maintains.\<close>

definition preview_inv :: "(int \<times> int) list \<Rightarrow> int \<Rightarrow> int \<Rightarrow> int \<Rightarrow> preview_state \<Rightarrow> bool" where
  "preview_inv as base t0 sequence st \<longleftrightarrow>
     deltas_fit (pv_delta_sizes st) (pv_deltas st)
     \<and> int (length (pv_delta_sizes st)) = sequence - base
     \<and> pv_actual_end st = sequence - 1
     \<and> pv_received st + pv_lost st = length (pv_delta_sizes st)
     \<and> pv_received st = length (pv_deltas st)
     \<and> pv_last_arrival_us st = last_time t0 (pv_deltas st)
     \<and> (\<forall>i < length (pv_delta_sizes st).
          matches_arrival as (base + int i)
            (arrival_times t0 (feedback_statuses 0 (pv_delta_sizes st) (pv_deltas st)) ! i))"

declare preview_loop.simps [simp del]

section \<open>Rounding\<close>

lemma round_delta_ticks_error: "\<bar>d - 250 * round_delta_ticks d\<bar> \<le> 125"
proof (cases "0 \<le> d")
  case True
  have "(d + 125) div 250 * 250 + (d + 125) mod 250 = d + 125" by (rule div_mult_mod_eq)
  moreover have "0 \<le> (d + 125) mod 250" "(d + 125) mod 250 < 250" by simp_all
  ultimately show ?thesis using True unfolding round_delta_ticks_def trunc_div_def by simp
next
  case False
  have "(125 - d) div 250 * 250 + (125 - d) mod 250 = 125 - d" by (rule div_mult_mod_eq)
  moreover have "0 \<le> (125 - d) mod 250" "(125 - d) mod 250 < 250" by simp_all
  ultimately show ?thesis using False unfolding round_delta_ticks_def trunc_div_def by simp
qed

lemma sint_of_int_u16:
  assumes "- 32768 \<le> k" and "k \<le> 32767"
  shows "sint (of_int k :: u16) = k"
  using assms signed_take_bit_int_eq_self [of 15 k] by (simp add: signed_of_int)

section \<open>Feedback statuses, one more at the end\<close>

lemma deltas_fit_lost: "deltas_fit zs ds \<Longrightarrow> deltas_fit (zs @ [0]) ds"
  by (induction zs ds rule: deltas_fit.induct) (auto split: list.splits if_splits)

lemma deltas_fit_received:
  "deltas_fit zs ds \<Longrightarrow> z = 1 \<and> d < 256 \<or> z = 2 \<Longrightarrow> deltas_fit (zs @ [z]) (ds @ [d])"
  by (induction zs ds rule: deltas_fit.induct) (auto split: list.splits if_splits simp: word_le_nat_alt)

lemma arrival_times_sequence:
  "arrival_times t (feedback_statuses s zs ds) = arrival_times t (feedback_statuses s' zs ds)"
proof (induction zs arbitrary: t s s' ds)
  case (Cons z zs)
  then show ?case using Cons.IH [of _ "s + 1" _ "s' + 1"] by (simp add: Let_def)
qed simp

lemma arrival_times_lost:
  "deltas_fit zs ds \<Longrightarrow> arrival_times t (feedback_statuses s (zs @ [0]) ds) =
     arrival_times t (feedback_statuses s zs ds) @ [None]"
  by (induction zs ds arbitrary: t s rule: deltas_fit.induct)
    (auto simp: Let_def split: list.splits if_splits)

lemma arrival_times_received:
  "deltas_fit zs ds \<Longrightarrow> z \<noteq> 0 \<Longrightarrow> arrival_times t (feedback_statuses s (zs @ [z]) (ds @ [d])) =
     arrival_times t (feedback_statuses s zs ds) @ [Some (last_time t ds + 250 * sint d)]"
  by (induction zs ds arbitrary: t s rule: deltas_fit.induct)
    (auto simp: Let_def last_time_def algebra_simps split: list.splits if_splits)

lemma arrival_times_length [simp]: "length (arrival_times t sts) = length sts"
  by (induction t sts rule: arrival_times.induct) (auto simp: Let_def split: option.splits)

lemma feedback_statuses_length [simp]: "length (feedback_statuses s zs ds) = length zs"
  by (induction s zs ds rule: feedback_statuses.induct) auto

lemma feedback_statuses_sequence:
  "i < length zs \<Longrightarrow> status_sequence_number (feedback_statuses s zs ds ! i) = s + of_nat i"
proof (induction zs arbitrary: s ds i)
  case (Cons z zs)
  then show ?case by (cases i) (auto simp: algebra_simps)
qed simp

lemma feedback_bytes_length:
  assumes "deltas_fit zs ds"
  shows "length (feedback_bytes sender media base reference count zs ds) = encoded_packet_size zs"
proof -
  have chunks: "length (concat (map enc_u16 cs)) = 2 * length cs" for cs by (induction cs) auto
  show ?thesis
    using align4_bounds(1,2) [of "unpadded_size zs"] enc_deltas_length [OF assms]
    by (simp add: feedback_bytes_def Let_def chunks feedback_padding_props(1) encoded_packet_size_def)
      (simp add: unpadded_size_def)
qed

section \<open>The loop\<close>

lemma preview_inv_init:
  "preview_inv as base t0 base \<lparr>pv_delta_sizes = [], pv_deltas = [], pv_received = 0, pv_lost = 0,
     pv_last_arrival_us = t0, pv_actual_end = base - 1\<rparr>"
  by (simp add: preview_inv_def last_time_def)

lemma preview_inv_lost:
  assumes "preview_inv as base t0 sequence st" and "map_of as sequence = None"
  shows "preview_inv as base t0 (sequence + 1)
    (st\<lparr>pv_delta_sizes := pv_delta_sizes st @ [0], pv_actual_end := sequence, pv_lost := pv_lost st + 1\<rparr>)"
proof -
  have fit: "deltas_fit (pv_delta_sizes st) (pv_deltas st)"
    and pos: "base + int (length (pv_delta_sizes st)) = sequence"
    using assms(1) by (auto simp: preview_inv_def)
  show ?thesis
    using assms pos deltas_fit_lost [OF fit]
    by (auto simp: preview_inv_def arrival_times_lost [OF fit] matches_arrival_def nth_append less_Suc_eq)
qed

lemma preview_inv_received:
  assumes "preview_inv as base t0 sequence st" and "map_of as sequence = Some a"
    and ticks: "ticks = round_delta_ticks (arrival_time_microseconds a - pv_last_arrival_us st)"
    and range: "- 32768 \<le> ticks" "ticks \<le> 32767"
  shows "preview_inv as base t0 (sequence + 1)
    (st\<lparr>pv_delta_sizes := pv_delta_sizes st @ [if ticks \<ge> 0 \<and> ticks \<le> 255 then 1 else 2],
        pv_deltas := pv_deltas st @ [of_int ticks], pv_actual_end := sequence,
        pv_received := pv_received st + 1,
        pv_last_arrival_us := pv_last_arrival_us st + sint (of_int ticks :: u16) * 250\<rparr>)"
proof -
  let ?z = "if ticks \<ge> 0 \<and> ticks \<le> 255 then 1 else 2 :: u8"
  let ?t = "last_time t0 (pv_deltas st) + 250 * ticks"
  have fit: "deltas_fit (pv_delta_sizes st) (pv_deltas st)"
    and pos: "base + int (length (pv_delta_sizes st)) = sequence"
    and last: "pv_last_arrival_us st = last_time t0 (pv_deltas st)"
    using assms(1) by (auto simp: preview_inv_def)
  note sint = sint_of_int_u16 [OF range]
  have "of_int ticks < (256 :: u16)" if "0 \<le> ticks" "ticks \<le> 255"
    using that by (simp add: word_less_alt uint_word_of_int_eq take_bit_int_eq_self)
  then have z: "?z = 1 \<and> of_int ticks < (256 :: u16) \<or> ?z = 2" by auto
  have close: "\<bar>arrival_time_microseconds a - ?t\<bar> \<le> 125"
    using round_delta_ticks_error [of "arrival_time_microseconds a - pv_last_arrival_us st"]
    by (simp add: ticks last algebra_simps)
  have times: "arrival_times t0 (feedback_statuses 0 (pv_delta_sizes st @ [?z]) (pv_deltas st @ [of_int ticks])) =
      arrival_times t0 (feedback_statuses 0 (pv_delta_sizes st) (pv_deltas st)) @ [Some ?t]"
    using arrival_times_received [OF fit, of ?z t0 0 "of_int ticks"] sint by auto
  show ?thesis
    using assms(1,2) pos deltas_fit_received [OF fit z] close last
    unfolding preview_inv_def
    by (auto simp: times sint matches_arrival_def nth_append less_Suc_eq last_time_def)
qed

lemma preview_loop_inv:
  assumes "preview_loop as base maxi bound sequence st = Inr st'"
    and "preview_inv as base t0 sequence st" and "sequence \<le> maxi + 1"
    and "pv_delta_sizes st = [] \<or> encoded_packet_size (pv_delta_sizes st) \<le> bound"
  shows "\<exists>sequence' \<le> maxi + 1. preview_inv as base t0 sequence' st'
    \<and> (pv_delta_sizes st' = [] \<or> encoded_packet_size (pv_delta_sizes st') \<le> bound)"
  using assms
proof (induction as base maxi bound sequence st rule: preview_loop.induct)
  case (1 as base maxi bound sequence st)
  note loop = "1.prems"(1) [unfolded preview_loop.simps [of as base maxi bound sequence st] Let_def]
  have stay: "\<exists>sequence' \<le> maxi + 1. preview_inv as base t0 sequence' st
      \<and> (pv_delta_sizes st = [] \<or> encoded_packet_size (pv_delta_sizes st) \<le> bound)"
    using "1.prems"(2-4) by blast
  show ?case
  proof (cases "sequence \<le> maxi")
    case False
    then have "st' = st" using loop by simp
    then show ?thesis using stay by simp
  next
    case True
    show ?thesis
    proof (cases "map_of as sequence")
      case None
      show ?thesis
      proof (cases "encoded_packet_size (pv_delta_sizes st @ [0]) > bound")
        case True
        then have "st' = st" using loop None \<open>sequence \<le> maxi\<close> by simp
        then show ?thesis using stay by simp
      next
        case False
        show ?thesis
          using "1.IH"(1) [OF True None refl False] loop None True False
            preview_inv_lost [OF "1.prems"(2) None] by simp
      qed
    next
      case (Some a)
      let ?ticks = "round_delta_ticks (arrival_time_microseconds a - pv_last_arrival_us st)"
      let ?sizes = "pv_delta_sizes st @ [if ?ticks \<ge> 0 \<and> ?ticks \<le> 255 then 1 else 2]"
      show ?thesis
      proof (cases "?ticks < - 32768 \<or> ?ticks > 32767 \<or> encoded_packet_size ?sizes > bound")
        case stop: True
        then have "st' = st" using loop Some True by (auto split: if_splits)
        then show ?thesis using stay by simp
      next
        case go: False
        then have range: "\<not> (?ticks < - 32768 \<or> ?ticks > 32767)" and small: "\<not> encoded_packet_size ?sizes > bound"
          by blast+
        show ?thesis
          using "1.IH"(2) [OF True Some refl range refl refl small] loop Some True range small
            preview_inv_received [OF "1.prems"(2) Some refl] by simp
      qed
    qed
  qed
qed

section \<open>Properties of the feedback\<close>

lemma of_int_low_bits: "(of_int (base AND 0xFFFF) :: u16) = of_int base"
proof -
  have "base AND 0xFFFF = take_bit 16 base" by (simp add: take_bit_eq_mask mask_eq_exp_minus_1)
  then show ?thesis by (simp add: word_of_int_eq_iff)
qed

lemma preview_feedbackE:
  assumes "preview_feedback sender bound g = Inr (Some b)"
  obtains reference st newest where "feedback_window_start g = Some (begin_extended_sequence b)"
    and "newest_extended_sequence g = Some newest" and "end_extended_sequence b \<le> newest"
    and "begin_extended_sequence b \<le> end_extended_sequence b"
    and "preview_inv (arrivals g) (begin_extended_sequence b) (reference * 64000)
      (end_extended_sequence b + 1) st"
    and "pv_delta_sizes st \<noteq> []" and "encoded_packet_size (pv_delta_sizes st) \<le> bound"
    and "length (pv_delta_sizes st) \<le> 4096"
    and "built_packet b = feedback_bytes sender (gen_media_ssrc g)
      (of_int (begin_extended_sequence b)) (of_int reference AND 0x00FFFFFF)
      (gen_feedback_packet_count g) (pv_delta_sizes st) (pv_deltas st)"
    and "received_packet_count b = pv_received st" and "lost_packet_count b = pv_lost st"
    and "built_feedback_packet_count b = gen_feedback_packet_count g"
    and "built_packet_status_count b = of_nat (length (pv_delta_sizes st))"
proof -
  from assms have "has_pending_feedback g"
    by (auto simp: preview_feedback_def split: if_splits)
  then obtain base newest where start: "feedback_window_start g = Some base"
      "newest_extended_sequence g = Some newest"
    by (auto simp: has_pending_feedback_def split: option.splits)
  define maxi where "maxi = min newest (base + 4095)"
  from assms obtain first first_arrival where
    first: "lower_bound base (arrivals g) = Some (first, first_arrival)" "\<not> first > maxi"
    using start by (auto simp: preview_feedback_def Let_def maxi_def split: if_splits option.splits)
  define reference where "reference = floor_reference_time (arrival_time_microseconds first_arrival)"
  let ?init = "\<lparr>pv_delta_sizes = [], pv_deltas = [], pv_received = 0, pv_lost = 0,
      pv_last_arrival_us = reference * 64000, pv_actual_end = base - 1\<rparr>"
  from assms obtain st packet where st: "preview_loop (arrivals g) base maxi bound base ?init = Inr st"
      "pv_delta_sizes st \<noteq> []"
    and packet: "encode_transport_feedback_packet sender (gen_media_ssrc g) (of_int (base AND 0xFFFF))
        (of_int reference AND 0x00FFFFFF) (gen_feedback_packet_count g) (pv_delta_sizes st)
        (pv_deltas st) = Inr packet"
    and b: "b = \<lparr>built_packet = packet, built_base_sequence_number = of_int (base AND 0xFFFF),
        built_packet_status_count = of_nat (length (pv_delta_sizes st)),
        built_media_ssrc = gen_media_ssrc g,
        built_feedback_packet_count = gen_feedback_packet_count g,
        received_packet_count = pv_received st, lost_packet_count = pv_lost st,
        begin_extended_sequence = base, end_extended_sequence = pv_actual_end st\<rparr>"
    using start first
    by (auto simp: preview_feedback_def Let_def maxi_def reference_def bindE_Inr_iff split: if_splits)
  have "base \<le> maxi + 1" using \<open>has_pending_feedback g\<close> start
    by (simp add: has_pending_feedback_def maxi_def)
  with preview_loop_inv [OF st(1) preview_inv_init] st(2) obtain sequence' where
    inv: "preview_inv (arrivals g) base (reference * 64000) sequence' st" and "sequence' \<le> maxi + 1"
    and size: "encoded_packet_size (pv_delta_sizes st) \<le> bound"
    by auto
  then have "length (pv_delta_sizes st) \<le> 4096" "sequence' = pv_actual_end st + 1"
      "pv_actual_end st \<le> newest"
    by (auto simp: preview_inv_def maxi_def)
  moreover have "base \<le> pv_actual_end st"
  proof -
    have "0 < length (pv_delta_sizes st)" using st(2) by blast
    moreover have "int (length (pv_delta_sizes st)) = sequence' - base" "pv_actual_end st = sequence' - 1"
      using inv by (simp_all add: preview_inv_def)
    ultimately show ?thesis by linarith
  qed
  moreover have "packet = feedback_bytes sender (gen_media_ssrc g) (of_int base)
      (of_int reference AND 0x00FFFFFF) (gen_feedback_packet_count g) (pv_delta_sizes st) (pv_deltas st)"
    using packet encode_transport_feedback_packet_eq [of "pv_delta_sizes st" "pv_deltas st"] inv
    by (simp add: preview_inv_def of_int_low_bits)
  ultimately show thesis using start inv st(2) size b by (intro that [of newest]) simp_all
qed

text \<open>
  Feedback that the generator previews is what the peer decodes: a valid packet within the
  size bound that covers the window from its start, lists every sequence number once, marks as
  received exactly those with a recorded arrival, and lets the peer reconstruct each arrival time
  within half a 250 microsecond tick, so that rounding errors do not add up.
\<close>

theorem preview_feedback_reports_arrivals:
  assumes "preview_feedback sender bound g = Inr (Some b)"
  shows "\<exists>f reference. parse_rtcp_transport_feedback (built_packet b) = Inr f
    \<and> length (built_packet b) \<le> bound
    \<and> feedback_sender_ssrc f = sender \<and> feedback_media_ssrc f = gen_media_ssrc g
    \<and> feedback_packet_count f = gen_feedback_packet_count g
    \<and> reference_time f = of_int reference AND 0x00FFFFFF
    \<and> feedback_window_start g = Some (begin_extended_sequence b)
    \<and> int (length (statuses f)) = end_extended_sequence b - begin_extended_sequence b + 1
    \<and> 0 < length (statuses f)
    \<and> received_packet_count b + lost_packet_count b = length (statuses f)
    \<and> (\<forall>i < length (statuses f).
        status_sequence_number (statuses f ! i) = of_int (begin_extended_sequence b + int i)
        \<and> matches_arrival (arrivals g) (begin_extended_sequence b + int i)
            (arrival_times (reference * 64000) (statuses f) ! i))"
proof -
  from assms obtain reference st where start: "feedback_window_start g = Some (begin_extended_sequence b)"
    and inv: "preview_inv (arrivals g) (begin_extended_sequence b) (reference * 64000)
      (end_extended_sequence b + 1) st"
    and st: "pv_delta_sizes st \<noteq> []" "encoded_packet_size (pv_delta_sizes st) \<le> bound"
      "length (pv_delta_sizes st) \<le> 4096"
    and packet: "built_packet b = feedback_bytes sender (gen_media_ssrc g)
      (of_int (begin_extended_sequence b)) (of_int reference AND 0x00FFFFFF)
      (gen_feedback_packet_count g) (pv_delta_sizes st) (pv_deltas st)"
    and counts: "received_packet_count b = pv_received st" "lost_packet_count b = pv_lost st"
    by (rule preview_feedbackE)
  have fit: "deltas_fit (pv_delta_sizes st) (pv_deltas st)" using inv by (simp add: preview_inv_def)
  let ?sts = "feedback_statuses (of_int (begin_extended_sequence b)) (pv_delta_sizes st) (pv_deltas st)"
  have times: "arrival_times (reference * 64000) ?sts =
      arrival_times (reference * 64000) (feedback_statuses 0 (pv_delta_sizes st) (pv_deltas st))"
    by (rule arrival_times_sequence)
  have parse: "parse_rtcp_transport_feedback (built_packet b) =
      Inr \<lparr>feedback_sender_ssrc = sender, feedback_media_ssrc = gen_media_ssrc g,
        base_sequence_number = of_int (begin_extended_sequence b),
        packet_status_count = of_nat (length (pv_delta_sizes st)),
        reference_time = (of_int reference AND 0x00FFFFFF) AND 0x00FFFFFF,
        feedback_packet_count = gen_feedback_packet_count g, statuses = ?sts\<rparr>"
    using parse_feedback_bytes [OF fit] st(3) by (simp add: packet)
  have "0 < length (pv_delta_sizes st)" using st(1) by simp
  with inv have body: "int (length ?sts) = end_extended_sequence b - begin_extended_sequence b + 1"
    "0 < length ?sts" "received_packet_count b + lost_packet_count b = length ?sts"
    "\<forall>i < length ?sts. status_sequence_number (?sts ! i) = of_int (begin_extended_sequence b + int i)
        \<and> matches_arrival (arrivals g) (begin_extended_sequence b + int i)
            (arrival_times (reference * 64000) ?sts ! i)"
    unfolding times by (simp_all add: preview_inv_def counts feedback_statuses_sequence)
  have "length (built_packet b) \<le> bound"
    using st(2) by (simp add: packet feedback_bytes_length [OF fit])
  with body start parse show ?thesis
    by (intro exI [of _ reference] exI [of _ "\<lparr>feedback_sender_ssrc = sender,
        feedback_media_ssrc = gen_media_ssrc g,
        base_sequence_number = of_int (begin_extended_sequence b),
        packet_status_count = of_nat (length (pv_delta_sizes st)),
        reference_time = (of_int reference AND 0x00FFFFFF) AND 0x00FFFFFF,
        feedback_packet_count = gen_feedback_packet_count g, statuses = ?sts\<rparr>"]) (simp add: and.assoc)
qed

section \<open>The invariant\<close>

lemma try_emplace_keys: "fst ` set (try_emplace k v as) = insert k (fst ` set as)"
  by (induction k v as rule: try_emplace.induct) auto

lemma try_emplace_sorted:
  "sorted_wrt (<) (map fst as) \<Longrightarrow> sorted_wrt (<) (map fst (try_emplace k v as))"
proof (induction k v as rule: try_emplace.induct)
  case (2 k v k' v' rest)
  have "set (map fst (try_emplace k v rest)) = insert k (set (map fst rest))"
    using try_emplace_keys [of k v rest] by simp
  then show ?case using 2 by auto
qed simp

lemma sorted_map_filter: "sorted_wrt P (map f xs) \<Longrightarrow> sorted_wrt P (map f (filter Q xs))"
  by (induction xs) auto

lemma gen_evict_old_wf:
  assumes "sorted_wrt (<) (map fst (arrivals g))" and "newest_extended_sequence g = Some newest"
    and "\<forall>k \<in> fst ` set (arrivals g). k \<le> newest"
    and "feedback_window_start g = Some start" and "start \<le> newest + 1"
  shows "generator_wf (gen_evict_old now g)"
proof -
  define as where "as = filter (\<lambda>(k, time). \<not> now - time > milliseconds (gen_maximum_history_age g)) (arrivals g)"
  define bs where "bs = drop (length as - gen_maximum_history_packets g) as"
  have "sorted_wrt (<) (map fst bs)"
    using sorted_map_filter [OF assms(1)] by (simp add: bs_def as_def drop_map [symmetric] sorted_wrt_drop)
  moreover have "set bs \<subseteq> set (arrivals g)"
    by (auto simp: bs_def as_def dest: in_set_dropD)
  moreover have "length bs \<le> gen_maximum_history_packets g" by (simp add: bs_def)
  ultimately show ?thesis
    using assms(2-5)
    unfolding gen_evict_old_def Let_def as_def [symmetric] bs_def [symmetric] generator_wf_def
    by (cases bs) auto
qed

lemma refresh_stats_fields [simp]:
  "arrivals (refresh_stats g) = arrivals g"
  "feedback_window_start (refresh_stats g) = feedback_window_start g"
  "newest_extended_sequence (refresh_stats g) = newest_extended_sequence g"
  "gen_maximum_history_packets (refresh_stats g) = gen_maximum_history_packets g"
  "gen_feedback_packet_count (refresh_stats g) = gen_feedback_packet_count g"
  by (simp_all add: refresh_stats_def)

lemma refresh_stats_wf [simp]: "generator_wf (refresh_stats g) = generator_wf g"
  by (simp add: generator_wf_def split: option.split)

lemma low_bits_or:
  assumes "0 \<le> (s :: int)" and "s < 65536"
  shows "(n AND NOT (65536 - 1)) OR s = n - n mod 65536 + s"
proof -
  have s: "s = take_bit 16 s" using assms by (simp add: take_bit_int_eq_self)
  have "(n AND NOT (mask 16)) AND take_bit 16 s = 0" by (auto simp: bit_eq_iff bit_simps)
  then have "(n AND NOT (mask 16)) + take_bit 16 s = (n AND NOT (mask 16)) OR take_bit 16 s"
    by (rule disjunctive_add_eq_or)
  then have "(n AND NOT (65536 - 1)) OR s = (n AND NOT (65536 - 1)) + s"
    unfolding s [symmetric] by (simp add: mask_eq_exp_minus_1)
  then show ?thesis by (simp only: clear_low_bits)
qed

lemma unwrap_sequence_result:
  assumes "unwrap_sequence s g = (e, discontinuity, g')"
  shows "of_int e = s
    \<and> (case newest_extended_sequence g of
         None \<Rightarrow> \<not> discontinuity \<and> newest_extended_sequence g' = Some e
       | Some newest \<Rightarrow> \<bar>e - newest\<bar> \<le> 32768 \<and> (discontinuity \<longleftrightarrow> \<bar>e - newest\<bar> > 4096)
           \<and> newest_extended_sequence g' = Some (if discontinuity then e else max newest e)
           \<and> (discontinuity \<longrightarrow> arrivals g' = [] \<and> feedback_window_start g' = Some e)
           \<and> (\<not> discontinuity \<longrightarrow> arrivals g' = arrivals g
               \<and> feedback_window_start g' = feedback_window_start g))"
proof (cases "newest_extended_sequence g")
  case None
  then show ?thesis using assms by (auto simp: unwrap_sequence_def)
next
  case (Some newest)
  define c0 where "c0 = newest - newest mod 65536 + uint s"
  define c where "c = (if c0 - newest > 32768 then c0 - 65536
      else if newest - c0 > 32768 then c0 + 65536 else c0)"
  have s: "0 \<le> uint s" "uint s < 65536" using unsigned_less [of s, where ?'a = int] by simp_all
  have c: "c mod 65536 = uint s" "\<bar>c - newest\<bar> \<le> 32768"
    using nearest_candidate [OF s, of newest] unfolding c_def c0_def by blast+
  have "of_int c = s" using c(1) by (simp add: word_uint_eq_iff unsigned_of_int take_bit_eq_mod)
  moreover have "unwrap_sequence s g =
      (if (if c \<ge> newest then c - newest else newest - c) > 4096
       then (c, True, g\<lparr>arrivals := [], feedback_window_start := Some c, newest_extended_sequence := Some c\<rparr>)
       else if c > newest then (c, False, g\<lparr>newest_extended_sequence := Some c\<rparr>)
       else (c, False, g))"
    unfolding unwrap_sequence_def Some option.case Let_def low_bits_or [OF s] c0_def [symmetric]
      c_def [symmetric] ..
  ultimately show ?thesis using assms c(2) Some by (auto split: if_splits)
qed

text \<open>
  Unwrapping keeps the low sixteen bits and stays within half the sequence space of the newest
  number; a jump of more than 4096 is a discontinuity that restarts the window there, and otherwise
  the newest number never goes backwards.
\<close>

theorem unwrap_sequence_nearest:
  assumes "unwrap_sequence s g = (e, discontinuity, g')"
  shows "of_int e = s
    \<and> (case newest_extended_sequence g of
         None \<Rightarrow> \<not> discontinuity \<and> newest_extended_sequence g' = Some e
       | Some newest \<Rightarrow> \<bar>e - newest\<bar> \<le> 32768 \<and> (discontinuity \<longleftrightarrow> \<bar>e - newest\<bar> > 4096)
           \<and> newest_extended_sequence g' = Some (if discontinuity then e else max newest e)
           \<and> (discontinuity \<longrightarrow> arrivals g' = [] \<and> feedback_window_start g' = Some e)
           \<and> (\<not> discontinuity \<longrightarrow> arrivals g' = arrivals g
               \<and> feedback_window_start g' = feedback_window_start g))"
  using assms by (rule unwrap_sequence_result)

theorem unwrap_sequence_nearest_witness:
  "\<exists>g'. unwrap_sequence 3 ((make_generator 2000 4)\<lparr>newest_extended_sequence := Some 65534\<rparr>) = (65539, False, g')
    \<and> newest_extended_sequence g' = Some 65539"
proof -
  let ?g = "(make_generator 2000 4)\<lparr>newest_extended_sequence := Some 65534\<rparr>"
  have "unwrap_sequence 3 ?g = (65539, False, ?g\<lparr>newest_extended_sequence := Some 65539\<rparr>)"
    by (simp add: unwrap_sequence_def make_generator_def)
  from this unwrap_sequence_nearest [OF this] show ?thesis by simp
qed

lemma gen_evict_old_stats [simp]:
  "newest_extended_sequence (gen_evict_old now g) = newest_extended_sequence g"
  "gen_maximum_history_packets (gen_evict_old now g) = gen_maximum_history_packets g"
  by (simp_all add: gen_evict_old_def Let_def)

lemma gen_observe_wf:
  assumes "generator_wf g"
  shows "generator_wf (snd (gen_observe sequence t media g))"
proof -
  obtain e disc g1 where u: "unwrap_sequence sequence g = (e, disc, g1)"
    by (cases "unwrap_sequence sequence g")
  note r = unwrap_sequence_result [OF u]
  obtain newest where newest: "newest_extended_sequence g1 = Some newest" "e \<le> newest"
    and old: "sorted_wrt (<) (map fst (arrivals g1))" "\<forall>k \<in> fst ` set (arrivals g1). k \<le> newest"
    and win: "feedback_window_start g1 = None \<or>
      (\<exists>start. feedback_window_start g1 = Some start \<and> start \<le> newest + 1)"
  proof (cases "newest_extended_sequence g")
    case None
    then show ?thesis using r assms u
      by (intro that [of e]) (auto simp: generator_wf_def unwrap_sequence_def)
  next
    case (Some n)
    then show ?thesis using r assms
      by (intro that [of "if disc then e else max n e"]) (auto simp: generator_wf_def)
  qed
  have ins: "sorted_wrt (<) (map fst (try_emplace e t (arrivals g1)))"
    "\<forall>k \<in> fst ` set (try_emplace e t (arrivals g1)). k \<le> newest"
    using old newest(2) try_emplace_sorted try_emplace_keys [of e t "arrivals g1"] by auto
  have evict: "generator_wf (gen_evict_old t h)"
    if "arrivals h = try_emplace e t (arrivals g1)" "newest_extended_sequence h = Some newest"
      "\<exists>start. feedback_window_start h = Some start \<and> start \<le> newest + 1" for h
  proof -
    from that(3) obtain start where "feedback_window_start h = Some start" "start \<le> newest + 1" by blast
    then show ?thesis using that(1,2) ins by (intro gen_evict_old_wf) simp_all
  qed
  have known: "feedback_window_start g1 \<noteq> None" if "map_of (arrivals g1) e \<noteq> None"
    using that r assms u
    by (auto simp: generator_wf_def unwrap_sequence_def split: option.splits)
  show ?thesis
    using newest win known
    by (auto simp: gen_observe_def u Let_def intro!: evict split: option.splits)
qed

lemma commit_feedback_previewed:
  assumes "preview_feedback sender bound g = Inr (Some b)"
  shows "\<exists>s. commit_feedback b g = refresh_stats
    (g\<lparr>feedback_window_start := Some (end_extended_sequence b + 1),
      gen_feedback_packet_count := gen_feedback_packet_count g + 1, gen_stats := s\<rparr>)"
proof -
  from assms show ?thesis
    by (rule preview_feedbackE) (auto simp: commit_feedback_def Let_def)
qed

text \<open>
  Committing previewed feedback moves the window right behind what was reported, counts the
  feedback packet and keeps the arrivals; committing the same feedback again has no effect.
\<close>

theorem commit_advances_window_once:
  assumes "preview_feedback sender bound g = Inr (Some b)"
  defines "g' \<equiv> commit_feedback b g"
  shows "feedback_window_start g' = Some (end_extended_sequence b + 1)
    \<and> gen_feedback_packet_count g' = gen_feedback_packet_count g + 1
    \<and> arrivals g' = arrivals g \<and> commit_feedback b g' = g'"
proof -
  obtain s where g': "g' = refresh_stats
      (g\<lparr>feedback_window_start := Some (end_extended_sequence b + 1),
        gen_feedback_packet_count := gen_feedback_packet_count g + 1, gen_stats := s\<rparr>)"
    using commit_feedback_previewed [OF assms(1)] by (auto simp: g'_def)
  have "begin_extended_sequence b \<noteq> end_extended_sequence b + 1"
    using assms(1) by (rule preview_feedbackE) simp
  then show ?thesis by (simp add: g' commit_feedback_def refresh_stats_def)
qed

lemma commit_feedback_wf:
  assumes "generator_wf g" and "preview_feedback sender bound g = Inr (Some b)"
  shows "generator_wf (commit_feedback b g)"
proof -
  obtain s where g': "commit_feedback b g = refresh_stats
      (g\<lparr>feedback_window_start := Some (end_extended_sequence b + 1),
        gen_feedback_packet_count := gen_feedback_packet_count g + 1, gen_stats := s\<rparr>)"
    using commit_feedback_previewed [OF assms(2)] by auto
  from assms(2) obtain newest where "newest_extended_sequence g = Some newest"
    "end_extended_sequence b \<le> newest" by (rule preview_feedbackE)
  then show ?thesis using assms(1) by (simp add: g' generator_wf_def)
qed

lemma gen_expire_wf: "generator_wf g \<Longrightarrow> generator_wf (gen_expire now g)"
proof (cases "newest_extended_sequence g")
  case None
  assume "generator_wf g"
  then show ?thesis using None by (simp add: gen_expire_def gen_evict_old_def generator_wf_def)
next
  case (Some newest)
  assume "generator_wf g"
  then obtain start where "sorted_wrt (<) (map fst (arrivals g))"
    "\<forall>k \<in> fst ` set (arrivals g). k \<le> newest" "feedback_window_start g = Some start" "start \<le> newest + 1"
    using Some by (auto simp: generator_wf_def)
  from gen_evict_old_wf [OF this(1) Some this(2-4)] show ?thesis by (simp add: gen_expire_def)
qed

lemma generator_step_wf: "generator_step g g' \<Longrightarrow> generator_wf g \<Longrightarrow> generator_wf g'"
  by (induction rule: generator_step.induct)
    (auto simp: gen_observe_wf commit_feedback_wf gen_expire_wf, simp add: gen_reset_def generator_wf_def)

text \<open>
  In every reachable state of the generator the arrivals are strictly ordered and within
  capacity, none is newer than the newest sequence number, and the feedback window starts at most
  one past it.
\<close>

theorem generator_reachable_wf:
  assumes "generator_step\<^sup>*\<^sup>* (make_generator age packets) g"
  shows "generator_wf g"
  using assms
proof (induction rule: rtranclp_induct)
  case base
  then show ?case by (simp add: make_generator_def generator_wf_def)
qed (rule generator_step_wf)

theorem generator_reachable_wf_witness:
  "generator_wf (snd (gen_observe 65535 1000000 7 (make_generator 2000 4)))"
  by (rule generator_reachable_wf [of 2000 4]) (blast intro: gstep_observe)

text \<open>A concrete state with an arrival and its feedback, for the examples below.\<close>

lemma preview_example:
  "preview_feedback 1 24 (snd (gen_observe 3 1000000 7 (make_generator 2000 4))) =
    Inr (Some \<lparr>built_packet = [0xAF, 205, 0, 5, 0, 0, 0, 1, 0, 0, 0, 7, 0, 3, 0, 1, 0, 0, 0, 0, 0xA0, 0, 4, 1],
      built_base_sequence_number = 3, built_packet_status_count = 1, built_media_ssrc = 7,
      built_feedback_packet_count = 0, received_packet_count = 1, lost_packet_count = 0,
      begin_extended_sequence = 3, end_extended_sequence = 3\<rparr>)"
  by code_simp

theorem preview_feedback_reports_arrivals_witness:
  "\<exists>f. parse_rtcp_transport_feedback
      [0xAF, 205, 0, 5, 0, 0, 0, 1, 0, 0, 0, 7, 0, 3, 0, 1, 0, 0, 0, 0, 0xA0, 0, 4, 1] = Inr f
    \<and> length (statuses f) = 1"
  using preview_feedback_reports_arrivals [OF preview_example] by auto

theorem commit_advances_window_once_witness:
  "\<exists>b. feedback_window_start (commit_feedback b
      (snd (gen_observe 3 1000000 7 (make_generator 2000 4)))) = Some 4"
  using commit_advances_window_once [OF preview_example] by auto

end
