(* ===== verification/Retransmission_Cache.thy ===== *)
theory Retransmission_Cache
  imports Prelude "HOL-Library.AList"
begin

text \<open>
  The cache of sent RTP packets that answers NACKs (\<^verbatim>\<open>src/rtp/rtp_retransmission_cache.cpp\<close>). The
  \<^verbatim>\<open>std::unordered_map\<close> of entries is an association list with distinct keys, the deque of
  insertion order a list, its front first. Time points are \<open>int\<close> nanoseconds, durations \<open>int\<close>
  milliseconds, sizes and 64-bit counters \<open>nat\<close>; that the byte counter, which the code decrements,
  never drops below zero is part of the invariant.
\<close>

section \<open>Data\<close>

record rtp_retransmission_cache_config =
  max_age :: int
  max_packets :: nat
  max_bytes :: nat
  minimum_retransmit_interval :: int

record rtp_retransmission_cache_packet =
  cached_packet :: bytes
  target_ssrc :: u32
  target_payload_type :: u8
  target_sequence_number :: u16
  target_timestamp :: u32
  payload_size :: nat
  source_generation :: nat
  stored_at :: int

datatype rtp_retransmission_cache_lookup_state = hit | miss | suppressed

record rtp_retransmission_cache_lookup =
  lookup_state :: rtp_retransmission_cache_lookup_state
  lookup_packet :: "rtp_retransmission_cache_packet option"

record rtp_retransmission_cache_snapshot =
  snap_packet_count :: nat
  snap_byte_count :: nat
  snap_inserted :: nat
  snap_replaced :: nat
  snap_evicted_age :: nat
  snap_evicted_capacity :: nat

record entry =
  entry_packet :: rtp_retransmission_cache_packet
  serial :: nat
  last_retransmitted_at :: "int option"

record order_entry =
  order_key :: u64
  order_serial :: nat

record rtp_retransmission_cache =
  config :: rtp_retransmission_cache_config
  entries :: "(u64 \<times> entry) list"
  order :: "order_entry list"
  byte_count :: nat
  next_serial :: nat
  cache_inserted :: nat
  cache_replaced :: nat
  cache_evicted_age :: nat
  cache_evicted_capacity :: nat

section \<open>Operations\<close>

definition normalize_config :: "rtp_retransmission_cache_config \<Rightarrow> rtp_retransmission_cache_config" where
  "normalize_config c =
     (let c = (if max_age c \<le> 0 then c\<lparr>max_age := 2000\<rparr> else c);
          c = (if max_packets c = 0 then c\<lparr>max_packets := 4096\<rparr> else c);
          c = (if max_bytes c = 0 then c\<lparr>max_bytes := 8 * 1024 * 1024\<rparr> else c) in
      if minimum_retransmit_interval c < 0 then c\<lparr>minimum_retransmit_interval := 0\<rparr> else c)"

definition make_cache :: "rtp_retransmission_cache_config \<Rightarrow> rtp_retransmission_cache" where
  "make_cache c =
     \<lparr>config = normalize_config c, entries = [], order = [], byte_count = 0, next_serial = 1,
      cache_inserted = 0, cache_replaced = 0, cache_evicted_age = 0, cache_evicted_capacity = 0\<rparr>"

definition make_key :: "u32 \<Rightarrow> u16 \<Rightarrow> u64" where
  "make_key ssrc sequence = push_bit 16 (ucast ssrc) OR ucast sequence"

definition entry_size :: "entry \<Rightarrow> nat" where
  "entry_size e = length (cached_packet (entry_packet e))"

definition erase_entry :: "u64 \<Rightarrow> bool \<Rightarrow> rtp_retransmission_cache \<Rightarrow> rtp_retransmission_cache" where
  "erase_entry key age_eviction c =
     (case map_of (entries c) key of
        None \<Rightarrow> c
      | Some e \<Rightarrow>
          let c = c\<lparr>byte_count := byte_count c - entry_size e, entries := AList.delete key (entries c)\<rparr> in
          if age_eviction then c\<lparr>cache_evicted_age := cache_evicted_age c + 1\<rparr>
          else c\<lparr>cache_evicted_capacity := cache_evicted_capacity c + 1\<rparr>)"

text \<open>The order entry still stands for a cached packet: same key, same serial.\<close>

definition live :: "order_entry \<Rightarrow> rtp_retransmission_cache \<Rightarrow> entry option" where
  "live oldest c =
     (case map_of (entries c) (order_key oldest) of
        None \<Rightarrow> None
      | Some e \<Rightarrow> if serial e \<noteq> order_serial oldest then None else Some e)"

text \<open>The first loop of \<^verbatim>\<open>prune\<close>, over the order list.\<close>

fun prune_age :: "int \<Rightarrow> order_entry list \<Rightarrow> rtp_retransmission_cache \<Rightarrow> rtp_retransmission_cache" where
  "prune_age now [] c = c\<lparr>order := []\<rparr>"
| "prune_age now (oldest # rest) c =
     (case live oldest c of
        None \<Rightarrow> prune_age now rest c
      | Some e \<Rightarrow>
          if now - stored_at (entry_packet e) \<le> max_age (config c) * 1000000
          then c\<lparr>order := oldest # rest\<rparr>
          else prune_age now rest (erase_entry (order_key oldest) True c))"

text \<open>The second loop of \<^verbatim>\<open>prune\<close>: oldest packets go until both capacities are met.\<close>

fun prune_capacity :: "order_entry list \<Rightarrow> rtp_retransmission_cache \<Rightarrow> rtp_retransmission_cache" where
  "prune_capacity [] c = c\<lparr>order := []\<rparr>"
| "prune_capacity (oldest # rest) c =
     (if length (entries c) > max_packets (config c) \<or> byte_count c > max_bytes (config c)
      then case live oldest c of
        None \<Rightarrow> prune_capacity rest c
      | Some e \<Rightarrow> prune_capacity rest (erase_entry (order_key oldest) False c)
      else c\<lparr>order := oldest # rest\<rparr>)"

definition prune :: "int \<Rightarrow> rtp_retransmission_cache \<Rightarrow> rtp_retransmission_cache" where
  "prune now c = (let c = prune_age now (order c) c in prune_capacity (order c) c)"

definition remember ::
  "rtp_retransmission_cache_packet \<Rightarrow> int \<Rightarrow> rtp_retransmission_cache \<Rightarrow> rtp_retransmission_cache" where
  "remember packet now c =
     (if cached_packet packet = [] \<or> target_ssrc packet = 0 then c
      else
        let c = prune now c;
            packet = packet\<lparr>stored_at := now\<rparr>;
            key = make_key (target_ssrc packet) (target_sequence_number packet);
            c = (case map_of (entries c) key of
                   Some e \<Rightarrow> c\<lparr>byte_count := byte_count c - entry_size e,
                              cache_replaced := cache_replaced c + 1\<rparr>
                 | None \<Rightarrow> c\<lparr>cache_inserted := cache_inserted c + 1\<rparr>);
            next_entry = \<lparr>entry_packet = packet, serial = next_serial c, last_retransmitted_at = None\<rparr>;
            c = c\<lparr>next_serial := next_serial c + 1, byte_count := byte_count c + entry_size next_entry,
                  entries := AList.update key next_entry (entries c)\<rparr>;
            c = c\<lparr>order := order c @ [\<lparr>order_key = key, order_serial = serial next_entry\<rparr>]\<rparr> in
        prune now c)"

definition lookup_for_retransmission ::
  "u32 \<Rightarrow> u16 \<Rightarrow> int \<Rightarrow> rtp_retransmission_cache \<Rightarrow>
     rtp_retransmission_cache_lookup \<times> rtp_retransmission_cache" where
  "lookup_for_retransmission ssrc sequence now c =
     (let c = prune now c; key = make_key ssrc sequence in
      case map_of (entries c) key of
        None \<Rightarrow> (\<lparr>lookup_state = miss, lookup_packet = None\<rparr>, c)
      | Some cached \<Rightarrow>
          if (case last_retransmitted_at cached of
                None \<Rightarrow> False
              | Some t \<Rightarrow> now - t < minimum_retransmit_interval (config c) * 1000000)
          then (\<lparr>lookup_state = suppressed, lookup_packet = None\<rparr>, c)
          else (\<lparr>lookup_state = hit, lookup_packet = Some (entry_packet cached)\<rparr>,
                c\<lparr>entries := AList.update key (cached\<lparr>last_retransmitted_at := Some now\<rparr>) (entries c)\<rparr>))"

definition cache_clear :: "rtp_retransmission_cache \<Rightarrow> rtp_retransmission_cache" where
  "cache_clear c =
     c\<lparr>entries := [], order := [], byte_count := 0, next_serial := 1, cache_inserted := 0,
       cache_replaced := 0, cache_evicted_age := 0, cache_evicted_capacity := 0\<rparr>"

definition cache_snapshot ::
  "int \<Rightarrow> rtp_retransmission_cache \<Rightarrow> rtp_retransmission_cache_snapshot \<times> rtp_retransmission_cache" where
  "cache_snapshot now c =
     (let c = prune now c in
      (\<lparr>snap_packet_count = length (entries c), snap_byte_count = byte_count c,
        snap_inserted = cache_inserted c, snap_replaced = cache_replaced c,
        snap_evicted_age = cache_evicted_age c, snap_evicted_capacity = cache_evicted_capacity c\<rparr>, c))"

section \<open>Specification\<close>

text \<open>
  The invariant, with the time \<open>now\<close> of the latest operation: keys are distinct and those of the
  packets, the byte counter is the sum of the sizes, every cached packet still has its place in
  the order, serials grow along the order, and later serials were stored later.
\<close>

definition cache_wf :: "int \<Rightarrow> order_entry list \<Rightarrow> rtp_retransmission_cache \<Rightarrow> bool" where
  "cache_wf now ord c \<longleftrightarrow>
     distinct (map fst (entries c))
     \<and> byte_count c = sum_list (map (\<lambda>(k, e). entry_size e) (entries c))
     \<and> (\<forall>(k, e) \<in> set (entries c). \<lparr>order_key = k, order_serial = serial e\<rparr> \<in> set ord
          \<and> k = make_key (target_ssrc (entry_packet e)) (target_sequence_number (entry_packet e))
          \<and> stored_at (entry_packet e) \<le> now)
     \<and> sorted_wrt (<) (map order_serial ord)
     \<and> (\<forall>r \<in> set ord. order_serial r < next_serial c)
     \<and> (\<forall>(k, e) \<in> set (entries c). \<forall>(k', e') \<in> set (entries c). serial e < serial e' \<longrightarrow>
          stored_at (entry_packet e) \<le> stored_at (entry_packet e'))
     \<and> 0 < max_packets (config c)"

definition within_limits :: "rtp_retransmission_cache \<Rightarrow> bool" where
  "within_limits c \<longleftrightarrow>
     length (entries c) \<le> max_packets (config c) \<and> byte_count c \<le> max_bytes (config c)"

text \<open>The reachable states, at times that never go backwards.\<close>

inductive cache_reachable :: "rtp_retransmission_cache_config \<Rightarrow> int \<Rightarrow> rtp_retransmission_cache \<Rightarrow> bool" where
  reach_init: "cache_reachable cfg now (make_cache cfg)"
| reach_remember: "cache_reachable cfg t c \<Longrightarrow> t \<le> now \<Longrightarrow> cache_reachable cfg now (remember packet now c)"
| reach_lookup: "cache_reachable cfg t c \<Longrightarrow> t \<le> now \<Longrightarrow>
    cache_reachable cfg now (snd (lookup_for_retransmission ssrc sequence now c))"
| reach_snapshot: "cache_reachable cfg t c \<Longrightarrow> t \<le> now \<Longrightarrow>
    cache_reachable cfg now (snd (cache_snapshot now c))"
| reach_clear: "cache_reachable cfg t c \<Longrightarrow> t \<le> now \<Longrightarrow> cache_reachable cfg now (cache_clear c)"

section \<open>Association lists with distinct keys\<close>

lemma delete_absent: "k \<notin> fst ` set al \<Longrightarrow> AList.delete k al = al"
  by (force simp: AList.delete_eq filter_id_conv)

lemma total_delete:
  fixes f :: "'v \<Rightarrow> nat"
  assumes "distinct (map fst al)" and "map_of al k = Some v"
  shows "sum_list (map (\<lambda>(k, v). f v) al) = f v + sum_list (map (\<lambda>(k, v). f v) (AList.delete k al))"
  using assms
proof (induction al)
  case (Cons p al)
  obtain k' v' where p: "p = (k', v')" by (cases p)
  show ?case
  proof (cases "k' = k")
    case True
    then have "AList.delete k al = al" using Cons.prems p by (intro delete_absent) auto
    then show ?thesis using True Cons.prems p by simp
  next
    case False
    then show ?thesis using Cons p by simp
  qed
qed simp

lemma set_delete: "set (AList.delete k al) = {p \<in> set al. fst p \<noteq> k}"
  by (auto simp: AList.delete_eq)

lemma set_update:
  "distinct (map fst al) \<Longrightarrow> set (AList.update k v al) = insert (k, v) {p \<in> set al. fst p \<noteq> k}"
  by (induction al) (auto simp: image_iff)

lemma total_update:
  fixes f :: "'v \<Rightarrow> nat"
  assumes "distinct (map fst al)"
  shows "sum_list (map (\<lambda>(k, v). f v) (AList.update k v al)) =
    f v + sum_list (map (\<lambda>(k, v). f v) (AList.delete k al))"
  using assms
proof (induction al)
  case (Cons p al)
  obtain k' v' where p: "p = (k', v')" by (cases p)
  show ?case
  proof (cases "k' = k")
    case True
    then have "AList.delete k al = al" using Cons.prems p by (intro delete_absent) auto
    then show ?thesis using True p by simp
  next
    case False
    then show ?thesis using Cons p by simp
  qed
qed simp

lemma length_delete:
  "distinct (map fst al) \<Longrightarrow> map_of al k = Some v \<Longrightarrow> length al = Suc (length (AList.delete k al))"
  using total_delete [of al k v "\<lambda>_. 1"] by (simp add: case_prod_beta' sum_list_triv)

lemma map_of_distinct_iff:
  "distinct (map fst al) \<Longrightarrow> map_of al k = Some v \<longleftrightarrow> (k, v) \<in> set al"
  by (simp add: map_of_eq_Some_iff)

section \<open>Pruning\<close>

lemma live_Some:
  "live r c = Some e \<longleftrightarrow> map_of (entries c) (order_key r) = Some e \<and> serial e = order_serial r"
  by (auto simp: live_def split: option.splits)

lemma cache_wf_skip:
  assumes "cache_wf now (r # rest) c" and "live r c = None"
  shows "cache_wf now rest c"
proof -
  have d: "distinct (map fst (entries c))" using assms(1) by (simp add: cache_wf_def)
  have "\<lparr>order_key = k, order_serial = serial e\<rparr> \<noteq> r" if "(k, e) \<in> set (entries c)" for k e
    using that assms(2) map_of_distinct_iff [OF d, of k e] by (auto simp: live_def)
  then show ?thesis using assms(1) by (fastforce simp: cache_wf_def)
qed

lemma erase_entry_fields:
  assumes "map_of (entries c) k = Some e"
  shows "entries (erase_entry k b c) = AList.delete k (entries c)"
    and "byte_count (erase_entry k b c) = byte_count c - entry_size e"
    and "config (erase_entry k b c) = config c" and "next_serial (erase_entry k b c) = next_serial c"
  using assms by (simp_all add: erase_entry_def Let_def)

lemma cache_wf_erase:
  assumes "cache_wf now (r # rest) c" and "live r c = Some e"
  shows "cache_wf now rest (erase_entry (order_key r) b c)"
proof -
  have d: "distinct (map fst (entries c))" using assms(1) by (simp add: cache_wf_def)
  have m: "map_of (entries c) (order_key r) = Some e" using assms(2) by (simp add: live_Some)
  note f = erase_entry_fields [OF m, of b]
  have "\<lparr>order_key = k, order_serial = serial e'\<rparr> \<in> set rest"
    if "(k, e') \<in> set (entries c)" "k \<noteq> order_key r" for k e'
    using assms(1) that by (fastforce simp: cache_wf_def)
  moreover have "byte_count c = entry_size e +
      sum_list (map (\<lambda>(k, e). entry_size e) (AList.delete (order_key r) (entries c)))"
    using total_delete [OF d m, of entry_size] assms(1) by (simp add: cache_wf_def)
  ultimately show ?thesis
    using assms(1) d unfolding cache_wf_def f by (fastforce simp: set_delete AList.distinct_delete)
qed

lemma cache_wf_order [simp]: "cache_wf now ord (c\<lparr>order := x\<rparr>) = cache_wf now ord c"
  by (simp add: cache_wf_def)

lemma prune_age_wf: "cache_wf now ord c \<Longrightarrow> cache_wf now (order (prune_age t ord c)) (prune_age t ord c)"
  by (induction t ord c rule: prune_age.induct)
    (auto simp: cache_wf_erase dest: cache_wf_skip split: option.splits)

lemma prune_capacity_wf:
  "cache_wf now ord c \<Longrightarrow> cache_wf now (order (prune_capacity ord c)) (prune_capacity ord c)"
  by (induction ord c rule: prune_capacity.induct)
    (auto simp: cache_wf_erase dest: cache_wf_skip split: option.splits)

lemma erase_entry_config [simp]: "config (erase_entry k b c) = config c"
  by (simp add: erase_entry_def Let_def split: option.splits)

lemma prune_age_config [simp]: "config (prune_age now ord c) = config c"
  by (induction now ord c rule: prune_age.induct) (simp_all split: option.splits)

lemma prune_capacity_config [simp]: "config (prune_capacity ord c) = config c"
  by (induction ord c rule: prune_capacity.induct) (simp_all split: option.splits)

lemma prune_capacity_limits:
  assumes "cache_wf now ord c"
  shows "within_limits (prune_capacity ord c)"
  using assms
proof (induction ord c rule: prune_capacity.induct)
  case (1 c)
  then have "entries c = []" by (cases "entries c") (auto simp: cache_wf_def)
  then show ?case using 1 by (simp add: within_limits_def cache_wf_def)
next
  case (2 r rest c)
  show ?case
    using 2 cache_wf_skip [OF "2.prems"] cache_wf_erase [OF "2.prems"]
    by (auto simp: within_limits_def split: option.splits)
qed

text \<open>After the first loop no cached packet is older than the maximum age.\<close>

lemma prune_age_fresh:
  assumes "cache_wf now ord c" and "(k, e) \<in> set (entries (prune_age t ord c))"
  shows "t - stored_at (entry_packet e) \<le> max_age (config c) * 1000000"
  using assms
proof (induction t ord c rule: prune_age.induct)
  case (1 t c)
  then show ?case by (auto simp: cache_wf_def)
next
  case (2 t r rest c)
  show ?case
  proof (cases "live r c")
    case None
    then show ?thesis using 2 cache_wf_skip [OF "2.prems"(1)] by simp
  next
    case (Some e0)
    show ?thesis
    proof (cases "t - stored_at (entry_packet e0) \<le> max_age (config c) * 1000000")
      case False
      then show ?thesis using 2 Some cache_wf_erase [OF "2.prems"(1) Some] by simp
    next
      case True
      have d: "distinct (map fst (entries c))" using "2.prems"(1) by (simp add: cache_wf_def)
      have e0: "(order_key r, e0) \<in> set (entries c)" "serial e0 = order_serial r"
        using Some map_of_distinct_iff [OF d] by (auto simp: live_Some)
      have e: "(k, e) \<in> set (entries c)" using "2.prems"(2) Some True by simp
      then have "\<lparr>order_key = k, order_serial = serial e\<rparr> \<in> set (r # rest)"
        using "2.prems"(1) by (auto simp: cache_wf_def)
      then consider "k = order_key r" | "order_serial r < serial e"
        using "2.prems"(1) by (auto simp: cache_wf_def)
      then show ?thesis
      proof cases
        case 1
        then have "e = e0" using e e0(1) map_of_distinct_iff [OF d] by (metis option.inject)
        then show ?thesis using True by simp
      next
        case 2
        then have "stored_at (entry_packet e0) \<le> stored_at (entry_packet e)"
          using e e0 "2.prems"(1) by (fastforce simp: cache_wf_def)
        then show ?thesis using True by simp
      qed
    qed
  qed
qed

lemma prune_capacity_subset: "set (entries (prune_capacity ord c)) \<subseteq> set (entries c)"
  by (induction ord c rule: prune_capacity.induct)
    (auto simp: live_Some erase_entry_fields set_delete split: option.splits)

lemma cache_wf_later: "cache_wf t ord c \<Longrightarrow> t \<le> now \<Longrightarrow> cache_wf now ord c"
  by (fastforce simp: cache_wf_def)

lemma prune_config [simp]: "config (prune now c) = config c"
  by (simp add: prune_def Let_def)

lemma prune_result:
  assumes "cache_wf now (order c) c"
  shows "cache_wf now (order (prune t c)) (prune t c)" and "within_limits (prune t c)"
    and "\<forall>(k, e) \<in> set (entries (prune t c)). t - stored_at (entry_packet e) \<le> max_age (config c) * 1000000"
proof -
  let ?c = "prune_age t (order c) c"
  have wf: "cache_wf now (order ?c) ?c" by (rule prune_age_wf [OF assms])
  show "cache_wf now (order (prune t c)) (prune t c)"
    using prune_capacity_wf [OF wf] by (simp add: prune_def Let_def)
  show "within_limits (prune t c)"
    using prune_capacity_limits [OF wf] by (simp add: prune_def Let_def)
  show "\<forall>(k, e) \<in> set (entries (prune t c)). t - stored_at (entry_packet e) \<le> max_age (config c) * 1000000"
    using prune_age_fresh [OF assms] prune_capacity_subset [of "order ?c" ?c]
    by (auto simp: prune_def Let_def)
qed

section \<open>Every operation keeps the invariant\<close>

lemma insert_wf:
  assumes wf: "cache_wf now (order c) c"
    and e: "entry_packet e = p" "serial e = next_serial c" "stored_at p = now"
    and k: "k = make_key (target_ssrc p) (target_sequence_number p)"
  shows "cache_wf now (order c @ [\<lparr>order_key = k, order_serial = serial e\<rparr>])
    (c\<lparr>next_serial := next_serial c + 1,
       byte_count := sum_list (map (\<lambda>(k, e). entry_size e) (AList.delete k (entries c))) + entry_size e,
       entries := AList.update k e (entries c)\<rparr>)"
proof -
  have d: "distinct (map fst (entries c))" using wf by (simp add: cache_wf_def)
  have old: "serial e' < next_serial c \<and> stored_at (entry_packet e') \<le> now"
    if "(k', e') \<in> set (entries c)" for k' e'
    using wf that by (fastforce simp: cache_wf_def)
  show ?thesis
    using wf e k old unfolding cache_wf_def
    by (fastforce simp: set_update [OF d] total_update [OF d] AList.distinct_update sorted_wrt_append)
qed

lemma cache_wf_cong:
  "entries c = entries c' \<Longrightarrow> byte_count c = byte_count c' \<Longrightarrow> next_serial c = next_serial c' \<Longrightarrow>
     config c = config c' \<Longrightarrow> cache_wf now ord c = cache_wf now ord c'"
  by (simp add: cache_wf_def)

text \<open>A packet that is stored: the state between the insertion and the final pruning.\<close>

lemma remember_insertion:
  assumes "cache_wf now (order c) c" and "cached_packet packet \<noteq> []" and "target_ssrc packet \<noteq> 0"
  obtains c2 e where "remember packet now c = prune now c2"
    and "cache_wf now (order c2) c2" and "config c2 = config c"
    and "order c2 = order (prune now c)
      @ [\<lparr>order_key = make_key (target_ssrc packet) (target_sequence_number packet), order_serial = serial e\<rparr>]"
    and "live (last (order c2)) c2 = Some e"
    and "entry_packet e = packet\<lparr>stored_at := now\<rparr>" and "last_retransmitted_at e = None"
proof -
  let ?c = "prune now c" and ?p = "packet\<lparr>stored_at := now\<rparr>"
  let ?k = "make_key (target_ssrc packet) (target_sequence_number packet)"
  have wf: "cache_wf now (order ?c) ?c" by (rule prune_result [OF assms(1)])
  then have d: "distinct (map fst (entries ?c))"
    and total: "byte_count ?c = sum_list (map (\<lambda>(k, e). entry_size e) (entries ?c))"
    by (simp_all add: cache_wf_def)
  define e where "e = \<lparr>entry_packet = ?p, serial = next_serial ?c, last_retransmitted_at = None\<rparr>"
  define c1 where "c1 = (case map_of (entries ?c) ?k of
      Some e \<Rightarrow> ?c\<lparr>byte_count := byte_count ?c - entry_size e, cache_replaced := cache_replaced ?c + 1\<rparr>
    | None \<Rightarrow> ?c\<lparr>cache_inserted := cache_inserted ?c + 1\<rparr>)"
  have c1: "entries c1 = entries ?c" "next_serial c1 = next_serial ?c" "config c1 = config c"
      "order c1 = order ?c"
      "byte_count c1 = sum_list (map (\<lambda>(k, e). entry_size e) (AList.delete ?k (entries ?c)))"
    using total total_delete [OF d, of ?k _ entry_size] delete_absent [of ?k "entries ?c"]
    by (auto simp: c1_def map_of_eq_None_iff split: option.splits)
  define c2 where "c2 = c1\<lparr>next_serial := next_serial c1 + 1, byte_count := byte_count c1 + entry_size e,
      entries := AList.update ?k e (entries c1),
      order := order c1 @ [\<lparr>order_key = ?k, order_serial = serial e\<rparr>]\<rparr>"
  have "remember packet now c = prune now c2"
    using assms(2,3) by (simp add: remember_def Let_def c2_def e_def c1 flip: c1_def)
  moreover have "cache_wf now (order c2) c2"
    using insert_wf [OF wf, of e ?p ?k] c1
    by (simp add: c2_def e_def cache_wf_def)
  moreover have "live (last (order c2)) c2 = Some e"
    by (simp add: live_Some c2_def c1 AList.update_conv')
  ultimately show thesis using c1 by (intro that [of c2 e]) (simp_all add: c2_def e_def)
qed

lemma remember_wf:
  assumes "cache_wf t (order c) c" and "t \<le> now"
  shows "cache_wf now (order (remember packet now c)) (remember packet now c)
    \<and> config (remember packet now c) = config c"
proof (cases "cached_packet packet = [] \<or> target_ssrc packet = 0")
  case True
  then show ?thesis using cache_wf_later [OF assms] by (auto simp: remember_def)
next
  case False
  with cache_wf_later [OF assms] obtain c2 where "remember packet now c = prune now c2"
    "cache_wf now (order c2) c2" "config c2 = config c"
    by (rule_tac remember_insertion) auto
  then show ?thesis using prune_result(1) by simp
qed

text \<open>Marking an entry as retransmitted changes neither its packet nor its serial.\<close>

lemma touch_same:
  assumes "map_of al k = Some e" and "entry_packet e' = entry_packet e" and "serial e' = serial e"
  shows "map (\<lambda>(k, e). (k, entry_packet e, serial e)) (AList.update k e' al) =
    map (\<lambda>(k, e). (k, entry_packet e, serial e)) al"
  using assms by (induction al) (auto split: if_splits)

lemma cache_wf_same:
  assumes same: "map (\<lambda>(k, e). (k, entry_packet e, serial e)) (entries c') =
      map (\<lambda>(k, e). (k, entry_packet e, serial e)) (entries c)"
    and rest: "byte_count c' = byte_count c" "next_serial c' = next_serial c" "config c' = config c"
    and wf: "cache_wf now ord c"
  shows "cache_wf now ord c'"
proof -
  have keys: "map fst (entries c') = map fst (entries c)"
    using arg_cong [OF same, of "map fst"] by (simp add: case_prod_beta' comp_def)
  have sizes: "map (\<lambda>(k, e). entry_size e) (entries c') = map (\<lambda>(k, e). entry_size e) (entries c)"
    using arg_cong [OF same, of "map (\<lambda>(k, p, s). length (cached_packet p))"]
    by (simp add: case_prod_beta' comp_def entry_size_def)
  have old: "\<exists>x. (k, x) \<in> set (entries c) \<and> entry_packet x = entry_packet e \<and> serial x = serial e"
    if "(k, e) \<in> set (entries c')" for k e
  proof -
    have "(k, entry_packet e, serial e) \<in>
        set (map (\<lambda>(k, e). (k, entry_packet e, serial e)) (entries c'))"
      using that by force
    then show ?thesis unfolding same by auto
  qed
  have "\<lparr>order_key = k, order_serial = serial e\<rparr> \<in> set ord
      \<and> k = make_key (target_ssrc (entry_packet e)) (target_sequence_number (entry_packet e))
      \<and> stored_at (entry_packet e) \<le> now"
    if "(k, e) \<in> set (entries c')" for k e
    using old [OF that] wf by (fastforce simp: cache_wf_def)
  moreover have "stored_at (entry_packet e) \<le> stored_at (entry_packet e')"
    if ab: "(k, e) \<in> set (entries c')" "(k', e') \<in> set (entries c')" "serial e < serial e'" for k e k' e'
  proof -
    obtain x x' where "(k, x) \<in> set (entries c)" "(k', x') \<in> set (entries c)"
      "entry_packet x = entry_packet e" "entry_packet x' = entry_packet e'" "serial x < serial x'"
      using old [OF ab(1)] old [OF ab(2)] ab(3) by auto
    then show ?thesis using wf unfolding cache_wf_def by fastforce
  qed
  ultimately show ?thesis using wf rest keys sizes by (auto simp: cache_wf_def)
qed

lemma lookup_wf:
  assumes "cache_wf t (order c) c" and "t \<le> now"
  shows "cache_wf now (order (snd (lookup_for_retransmission ssrc sequence now c)))
      (snd (lookup_for_retransmission ssrc sequence now c))
    \<and> config (snd (lookup_for_retransmission ssrc sequence now c)) = config c"
proof -
  let ?c = "prune now c" and ?k = "make_key ssrc sequence"
  have wf: "cache_wf now (order ?c) ?c" using prune_result(1) cache_wf_later [OF assms] by blast
  have "cache_wf now (order ?c) (?c\<lparr>entries :=
      AList.update ?k (e\<lparr>last_retransmitted_at := Some now\<rparr>) (entries ?c)\<rparr>)"
    if "map_of (entries ?c) ?k = Some e" for e
    by (rule cache_wf_same [OF _ _ _ _ wf]) (simp_all add: touch_same [OF that])
  then show ?thesis using wf by (auto simp: lookup_for_retransmission_def Let_def split: option.splits)
qed

section \<open>The newest packet survives\<close>

lemma erase_entry_other:
  assumes "k \<noteq> order_key r"
  shows "live r (erase_entry k b c) = live r c"
proof -
  have "map_of (entries (erase_entry k b c)) (order_key r) = map_of (entries c) (order_key r)"
    using assms by (cases "map_of (entries c) k") (simp_all add: erase_entry_def Let_def AList.delete_conv')
  then show ?thesis by (simp add: live_def)
qed

lemma live_keys_differ:
  assumes "cache_wf now (r' # xs @ [r]) c" and "live r' c = Some e'" and "live r c = Some e"
  shows "order_key r' \<noteq> order_key r"
proof
  assume "order_key r' = order_key r"
  then have "order_serial r' = order_serial r" using assms(2,3) unfolding live_Some by simp
  then show False using assms(1) by (simp add: cache_wf_def)
qed

lemma prune_age_keeps_last:
  assumes "cache_wf now (xs @ [r]) c" and "live r c = Some e"
    and "t - stored_at (entry_packet e) \<le> max_age (config c) * 1000000"
  shows "\<exists>ys. order (prune_age t (xs @ [r]) c) = ys @ [r] \<and> live r (prune_age t (xs @ [r]) c) = Some e"
  using assms
proof (induction xs arbitrary: c)
  case Nil
  then show ?case by (auto simp: live_def)
next
  case (Cons r' xs)
  show ?case
  proof (cases "live r' c")
    case None
    then show ?thesis using Cons cache_wf_skip [of now r' "xs @ [r]" c] by simp
  next
    case (Some e')
    have keys: "order_key r' \<noteq> order_key r"
      using live_keys_differ [of now r' xs r c] Cons.prems(1,2) Some by simp
    show ?thesis
      using Cons.IH [of "erase_entry (order_key r') True c"] Cons.prems Some keys
        cache_wf_erase [of now r' "xs @ [r]" c e'] erase_entry_other [OF keys]
      by (auto simp: live_def)
  qed
qed

lemma prune_capacity_keeps_last:
  assumes "cache_wf now (xs @ [r]) c" and "live r c = Some e" and "entry_size e \<le> max_bytes (config c)"
  shows "\<exists>ys. order (prune_capacity (xs @ [r]) c) = ys @ [r] \<and> live r (prune_capacity (xs @ [r]) c) = Some e"
  using assms
proof (induction xs arbitrary: c)
  case Nil
  have d: "distinct (map fst (entries c))" using Nil.prems(1) by (simp add: cache_wf_def)
  have "k = order_key r" if "(k, e') \<in> set (entries c)" for k e'
    using Nil.prems(1) that by (auto simp: cache_wf_def)
  then have "set (map fst (entries c)) \<subseteq> {order_key r}" by auto
  then have "length (entries c) \<le> 1"
    using distinct_card [OF d] card_mono [of "{order_key r}" "set (map fst (entries c))"] by simp
  moreover have "(order_key r, e) \<in> set (entries c)"
    using Nil.prems(2) map_of_distinct_iff [OF d] by (auto simp: live_Some)
  ultimately have "entries c = [(order_key r, e)]"
    by (cases "entries c") auto
  then show ?case using Nil by (auto simp: cache_wf_def live_def)
next
  case (Cons r' xs)
  show ?case
  proof (cases "live r' c")
    case None
    then show ?thesis
      using Cons cache_wf_skip [of now r' "xs @ [r]" c] by (auto simp: live_def)
  next
    case (Some e')
    have keys: "order_key r' \<noteq> order_key r"
      using live_keys_differ [of now r' xs r c] Cons.prems(1,2) Some by simp
    show ?thesis
      using Cons.IH [of "erase_entry (order_key r') False c"] Cons.prems Some keys
        cache_wf_erase [of now r' "xs @ [r]" c e'] erase_entry_other [OF keys]
      by (auto simp: live_def)
  qed
qed

lemma prune_keeps_last:
  assumes "cache_wf now (order c) c" and "order c = xs @ [r]" and "live r c = Some e"
    and "t - stored_at (entry_packet e) \<le> max_age (config c) * 1000000"
    and "entry_size e \<le> max_bytes (config c)"
  shows "\<exists>ys. order (prune t c) = ys @ [r] \<and> live r (prune t c) = Some e"
proof -
  let ?c = "prune_age t (order c) c"
  obtain ys where ys: "order ?c = ys @ [r]" "live r ?c = Some e"
    using prune_age_keeps_last [of now xs r c e t] assms by auto
  have "cache_wf now (ys @ [r]) ?c" using prune_age_wf [OF assms(1), of t] ys(1) by simp
  from prune_capacity_keeps_last [OF this ys(2)] show ?thesis
    using assms(5) ys(1) by (simp add: prune_def Let_def)
qed

section \<open>Reachable states\<close>

lemma normalize_config_positive:
  "0 < max_packets (normalize_config cfg)" "0 < max_bytes (normalize_config cfg)"
  "0 < max_age (normalize_config cfg)" "0 \<le> minimum_retransmit_interval (normalize_config cfg)"
  by (simp_all add: normalize_config_def Let_def)

lemma remember_within_limits:
  assumes "cache_wf t (order c) c" and "t \<le> now" and "within_limits c"
  shows "within_limits (remember packet now c)"
proof (cases "cached_packet packet = [] \<or> target_ssrc packet = 0")
  case True
  then show ?thesis using assms(3) by (auto simp: remember_def)
next
  case False
  with cache_wf_later [OF assms(1,2)] obtain c2 where "remember packet now c = prune now c2"
    "cache_wf now (order c2) c2"
    by (rule_tac remember_insertion) auto
  then show ?thesis using prune_result(2) by metis
qed

lemma lookup_length:
  "length (entries (snd (lookup_for_retransmission ssrc sequence now c))) = length (entries (prune now c))"
proof -
  have "length (AList.update k v al) = length al" if "map_of al k = Some w" for k :: u64 and v w :: entry and al
    using that by (induction al) (auto split: if_splits)
  then show ?thesis by (auto simp: lookup_for_retransmission_def Let_def split: option.splits)
qed

lemma lookup_within_limits:
  assumes "cache_wf t (order c) c" and "t \<le> now"
  shows "within_limits (snd (lookup_for_retransmission ssrc sequence now c))"
proof -
  have "within_limits (prune now c)" using prune_result(2) cache_wf_later [OF assms] by blast
  moreover have "byte_count (snd (lookup_for_retransmission ssrc sequence now c)) = byte_count (prune now c)"
    by (auto simp: lookup_for_retransmission_def Let_def split: option.splits)
  ultimately show ?thesis
    using lookup_length [of ssrc sequence now c] lookup_wf [OF assms, of ssrc sequence]
    by (simp add: within_limits_def)
qed

lemma cache_reachable_wf:
  "cache_reachable cfg now c \<Longrightarrow>
     cache_wf now (order c) c \<and> within_limits c \<and> config c = normalize_config cfg"
proof (induction rule: cache_reachable.induct)
  case (reach_init cfg now)
  show ?case
    using normalize_config_positive [of cfg] by (simp add: cache_wf_def within_limits_def make_cache_def)
next
  case (reach_remember cfg t c now packet)
  then show ?case using remember_wf remember_within_limits by metis
next
  case (reach_lookup cfg t c now ssrc sequence)
  then show ?case using lookup_wf lookup_within_limits by metis
next
  case (reach_snapshot cfg t c now)
  then show ?case
    using prune_result(1,2) [OF cache_wf_later [of t "order c" c now]]
    by (simp add: cache_snapshot_def Let_def)
next
  case (reach_clear cfg t c now)
  then show ?case
    using normalize_config_positive [of cfg] by (simp add: cache_wf_def within_limits_def cache_clear_def)
qed

lemma make_key_inject: "make_key s q = make_key s' q' \<longleftrightarrow> s = s' \<and> q = q'"
proof
  assume eq: "make_key s q = make_key s' q'"
  have "bit s n = bit s' n" if "n < 32" for n
    using arg_cong [OF eq, of "\<lambda>w. bit w (n + 16)"] that
    by (simp add: make_key_def bit_simps) (use bit_imp_le_length in fastforce)
  moreover have "bit q n = bit q' n" if "n < 16" for n
    using arg_cong [OF eq, of "\<lambda>w. bit w n"] that by (simp add: make_key_def bit_simps)
  ultimately show "s = s' \<and> q = q'" by (auto intro!: bit_word_eqI)
qed simp

lemma prune_subset: "set (entries (prune t c)) \<subseteq> set (entries c)"
proof -
  have "set (entries (prune_age t ord c)) \<subseteq> set (entries c)" for ord
    by (induction t ord c rule: prune_age.induct)
      (auto simp: live_Some erase_entry_fields set_delete split: option.splits)
  then show ?thesis using prune_capacity_subset by (fastforce simp: prune_def Let_def)
qed

lemma lookup_hit:
  assumes "lookup_for_retransmission ssrc sequence now c = (r, c')" and "lookup_packet r = Some p"
  obtains e where "map_of (entries (prune now c)) (make_key ssrc sequence) = Some e"
    and "p = entry_packet e" and "lookup_state r = hit"
    and "c' = (prune now c)\<lparr>entries := AList.update (make_key ssrc sequence)
          (e\<lparr>last_retransmitted_at := Some now\<rparr>) (entries (prune now c))\<rparr>"
  using assms
  by (auto simp: lookup_for_retransmission_def Let_def split: option.splits if_splits)

section \<open>The properties\<close>

text \<open>A concrete cache for the witnesses: two packets that fill both capacities.\<close>

definition sample_config :: rtp_retransmission_cache_config where
  "sample_config = \<lparr>max_age = 1000, max_packets = 2, max_bytes = 5, minimum_retransmit_interval = 10\<rparr>"

definition sample_packet :: "u16 \<Rightarrow> bytes \<Rightarrow> rtp_retransmission_cache_packet" where
  "sample_packet q bs = \<lparr>cached_packet = bs, target_ssrc = 7, target_payload_type = 97,
     target_sequence_number = q, target_timestamp = 9, payload_size = 1, source_generation = 1, stored_at = 0\<rparr>"

definition sample_cache :: rtp_retransmission_cache where
  "sample_cache = remember (sample_packet 65535 [1, 2, 3]) 10
     (remember (sample_packet 65534 [4, 5]) 5 (make_cache sample_config))"

lemma sample_cache_reachable: "cache_reachable sample_config 10 sample_cache"
  unfolding sample_cache_def by (intro reach_remember [where t = 5] reach_remember [where t = 0] reach_init) simp_all

text \<open>
  C37. In every state the cache can reach its byte counter is the sum of the sizes of the packets it
  holds, and neither the number of packets nor the number of bytes exceeds the configured maximum:
  the decrements of the counter never wrap, whatever was replaced, aged out or evicted before.
\<close>

theorem retransmission_cache_bounded:
  assumes "cache_reachable cfg now c"
  shows "byte_count c = sum_list (map (\<lambda>(k, e). length (cached_packet (entry_packet e))) (entries c))
    \<and> byte_count c \<le> max_bytes (normalize_config cfg)
    \<and> length (entries c) \<le> max_packets (normalize_config cfg)"
proof -
  have wf: "cache_wf now (order c) c" "within_limits c" and cfg: "config c = normalize_config cfg"
    using cache_reachable_wf [OF assms] by blast+
  have "byte_count c = sum_list (map (\<lambda>(k, e). entry_size e) (entries c))"
    using wf(1) by (simp add: cache_wf_def)
  then have "byte_count c = sum_list (map (\<lambda>(k, e). length (cached_packet (entry_packet e))) (entries c))"
    by (simp only: entry_size_def)
  moreover have "byte_count c \<le> max_bytes (normalize_config cfg)"
    "length (entries c) \<le> max_packets (normalize_config cfg)"
    using wf(2) cfg by (simp_all add: within_limits_def)
  ultimately show ?thesis by blast
qed

theorem retransmission_cache_bounded_witness:
  "byte_count sample_cache = 5 \<and> length (entries sample_cache) = 2
    \<and> byte_count sample_cache \<le> max_bytes (normalize_config sample_config)"
proof -
  have "byte_count sample_cache = 5 \<and> length (entries sample_cache) = 2" by code_simp
  then show ?thesis using retransmission_cache_bounded [OF sample_cache_reachable] by simp
qed

text \<open>
  A packet that is remembered can be retransmitted: as long as its age does not exceed the
  maximum age and no other packet was stored since, a lookup of its SSRC and sequence number is a
  hit and returns exactly that packet, stamped with the time it was stored.
\<close>

theorem remembered_packet_is_retransmitted:
  assumes "cache_reachable cfg t c" and "t \<le> now"
    and "later - now \<le> max_age (normalize_config cfg) * 1000000"
    and "cached_packet packet \<noteq> []" and "target_ssrc packet \<noteq> 0"
    and "length (cached_packet packet) \<le> max_bytes (normalize_config cfg)"
  shows "fst (lookup_for_retransmission (target_ssrc packet) (target_sequence_number packet) later
      (remember packet now c)) = \<lparr>lookup_state = hit, lookup_packet = Some (packet\<lparr>stored_at := now\<rparr>)\<rparr>"
proof -
  have wf: "cache_wf now (order c) c" and cfg: "config c = normalize_config cfg"
    using cache_reachable_wf [OF assms(1)] cache_wf_later assms(2) by blast+
  obtain c2 e where c2: "remember packet now c = prune now c2" "cache_wf now (order c2) c2"
      "config c2 = config c"
    and ord: "order c2 = order (prune now c)
      @ [\<lparr>order_key = make_key (target_ssrc packet) (target_sequence_number packet), order_serial = serial e\<rparr>]"
    and e: "live (last (order c2)) c2 = Some e"
      "entry_packet e = packet\<lparr>stored_at := now\<rparr>" "last_retransmitted_at e = None"
    by (rule remember_insertion [OF wf assms(4,5)])
  define r where "r = last (order c2)"
  have ord2: "order c2 = order (prune now c) @ [r]" using ord by (simp add: r_def)
  have size: "entry_size e \<le> max_bytes (config c2)"
    using e(2) assms(6) c2(3) cfg by (simp add: entry_size_def)
  have young: "t - stored_at (entry_packet e) \<le> max_age (config c2) * 1000000" if "t \<in> {now, later}" for t
    using that assms(3) e(2) c2(3) cfg normalize_config_positive(3) [of cfg] by auto
  obtain ys where ys: "order (prune now c2) = ys @ [r]" "live r (prune now c2) = Some e"
    using prune_keeps_last [OF c2(2) ord2 e(1) [folded r_def] young size] by auto
  have "\<exists>ys. order (prune later (prune now c2)) = ys @ [r] \<and> live r (prune later (prune now c2)) = Some e"
    using prune_keeps_last [OF prune_result(1) [OF c2(2)] ys] young size by simp
  moreover have "order_key r = make_key (target_ssrc packet) (target_sequence_number packet)"
    using ord by (simp add: r_def)
  ultimately show ?thesis
    using c2(1) e(2,3) by (auto simp: live_Some lookup_for_retransmission_def Let_def)
qed

theorem remembered_packet_is_retransmitted_witness:
  "fst (lookup_for_retransmission 7 3 50 (remember (sample_packet 3 [9, 9]) 20 sample_cache)) =
    \<lparr>lookup_state = hit, lookup_packet = Some ((sample_packet 3 [9, 9])\<lparr>stored_at := 20\<rparr>)\<rparr>"
  using remembered_packet_is_retransmitted [OF sample_cache_reachable, of 20 50 "sample_packet 3 [9, 9]"]
  by (simp add: sample_packet_def sample_config_def normalize_config_def)

text \<open>
  What a lookup returns is what was asked for: the packet carries the requested SSRC and
  sequence number, two requests never collide on one key, and the packet is not older than the
  maximum age.
\<close>

theorem lookup_returns_requested_packet:
  assumes "cache_reachable cfg t c" and "t \<le> now"
    and "lookup_packet (fst (lookup_for_retransmission ssrc sequence now c)) = Some p"
  shows "target_ssrc p = ssrc \<and> target_sequence_number p = sequence
    \<and> now - stored_at p \<le> max_age (normalize_config cfg) * 1000000"
proof -
  have wf: "cache_wf now (order c) c" and cfg: "config c = normalize_config cfg"
    using cache_reachable_wf [OF assms(1)] cache_wf_later assms(2) by blast+
  obtain e where e: "map_of (entries (prune now c)) (make_key ssrc sequence) = Some e" "p = entry_packet e"
    using lookup_hit [OF prod.collapse [symmetric] assms(3)] by metis
  then have "(make_key ssrc sequence, e) \<in> set (entries (prune now c))" by (simp add: map_of_SomeD)
  then have "make_key ssrc sequence = make_key (target_ssrc p) (target_sequence_number p)"
    "now - stored_at p \<le> max_age (config c) * 1000000"
    using prune_result(1,3) [OF wf, of now] e(2) by (fastforce simp: cache_wf_def)+
  then show ?thesis using cfg by (simp add: make_key_inject)
qed

theorem lookup_returns_requested_packet_witness:
  "\<exists>p. lookup_packet (fst (lookup_for_retransmission 7 65535 20 sample_cache)) = Some p
    \<and> target_ssrc p = 7 \<and> target_sequence_number p = 65535"
proof -
  have "lookup_packet (fst (lookup_for_retransmission 7 65535 20 sample_cache)) \<noteq> None" by code_simp
  then show ?thesis using lookup_returns_requested_packet [OF sample_cache_reachable, of 20] by auto
qed

text \<open>
  Retransmissions of one packet are rate limited: after a hit, a further lookup of the same
  packet within the minimum interval returns nothing.
\<close>

theorem retransmission_rate_limited:
  assumes "cache_reachable cfg t c" and "t \<le> now"
    and "lookup_for_retransmission ssrc sequence now c = (r, c')" and "lookup_state r = hit"
    and "later - now < minimum_retransmit_interval (normalize_config cfg) * 1000000"
  shows "lookup_packet (fst (lookup_for_retransmission ssrc sequence later c')) = None"
proof -
  let ?k = "make_key ssrc sequence"
  obtain e where e: "map_of (entries (prune now c)) ?k = Some e"
    and c': "c' = (prune now c)\<lparr>entries := AList.update ?k (e\<lparr>last_retransmitted_at := Some now\<rparr>)
      (entries (prune now c))\<rparr>"
    using assms(3,4)
    by (auto simp: lookup_for_retransmission_def Let_def split: option.splits if_splits)
  have wf': "cache_wf now (order c') c'" and cfg: "config c' = normalize_config cfg"
    using cache_reachable_wf [OF reach_lookup [OF assms(1,2), of ssrc sequence]] assms(3) by simp_all
  have last: "last_retransmitted_at e' = Some now" if "map_of (entries (prune later c')) ?k = Some e'" for e'
  proof -
    have "(?k, e') \<in> set (entries c')" using that prune_subset map_of_SomeD by fastforce
    moreover have "distinct (map fst (entries c'))" using wf' by (simp add: cache_wf_def)
    ultimately have "map_of (entries c') ?k = Some e'" by (simp add: map_of_distinct_iff)
    then show ?thesis by (auto simp: c' AList.update_conv')
  qed
  show ?thesis
    using last assms(5) cfg
    by (auto simp: lookup_for_retransmission_def Let_def split: option.splits)
qed

theorem retransmission_rate_limited_witness:
  "lookup_state (fst (lookup_for_retransmission 7 65535 20 sample_cache)) = hit
    \<and> lookup_packet (fst (lookup_for_retransmission 7 65535 9000000
        (snd (lookup_for_retransmission 7 65535 20 sample_cache)))) = None"
proof -
  have "lookup_state (fst (lookup_for_retransmission 7 65535 20 sample_cache)) = hit" by code_simp
  moreover have "minimum_retransmit_interval (normalize_config sample_config) = 10" by code_simp
  ultimately show ?thesis
    using retransmission_rate_limited [OF sample_cache_reachable _ prod.collapse [symmetric], of 20 7 65535 9000000]
    by simp
qed

end
