(* ===== verification/Receive_Statistics.thy ===== *)
theory Receive_Statistics
  imports Rtcp_Packet_Builder "HOL-Library.Log_Nat"
begin

unbundle bit_operations_syntax

text \<open>
  Reception statistics of one RTP source (\<^verbatim>\<open>src/rtp/rtp_receive_statistics.cpp\<close>): the sequence
  number tracking of RFC 3550 appendix A.1, the interarrival jitter of appendix A.8 and the report
  block of appendix A.3. Counters keep their widths (\<open>16\<close>, \<open>32\<close> and \<open>64 word\<close>), \<^verbatim>\<open>int32_t\<close> and
  \<^verbatim>\<open>int64_t\<close> values are \<open>int\<close>, time points are \<open>int\<close> nanoseconds. A \<^verbatim>\<open>double\<close> is the rational it
  denotes; every arithmetic operation on one is followed by \<open>binary64\<close>, the rounding to nearest,
  ties to even, of IEEE 754 (subnormal numbers included; infinities are out of reach, the jitter
  being a mean of integers below \<open>2 ^ 33\<close>).
\<close>

section \<open>Binary64 arithmetic\<close>

definition pow2 :: "int \<Rightarrow> rat" where
  "pow2 k = (if 0 \<le> k then 2 ^ nat k else 1 / 2 ^ nat (- k))"

definition round_half_even :: "rat \<Rightarrow> int" where
  "round_half_even x =
     (let f = \<lfloor>x\<rfloor>; r = x - of_int f in
      if r < 1 / 2 then f else if 1 / 2 < r then f + 1 else if even f then f else f + 1)"

text \<open>The exponent \<open>k\<close> with \<open>2 ^ k \<le> \<bar>x\<bar> < 2 ^ (k + 1)\<close>, from the sizes of numerator and denominator.\<close>

definition binary_exponent :: "rat \<Rightarrow> int" where
  "binary_exponent x =
     (let (p, q) = quotient_of \<bar>x\<bar>;
          k = int (floorlog 2 (nat p)) - int (floorlog 2 (nat q)) in
      if pow2 k \<le> \<bar>x\<bar> then k else k - 1)"

definition binary64 :: "rat \<Rightarrow> rat" where
  "binary64 x =
     (if x = 0 then 0
      else let u = pow2 (max (binary_exponent x) (-1022) - 52) in of_int (round_half_even (x / u)) * u)"

section \<open>State\<close>

record rtp_receive_report_snapshot =
  snapshot_fraction_lost :: u8
  snapshot_cumulative_lost :: int
  snapshot_extended_highest :: u32
  snapshot_jitter :: u32
  snapshot_expected :: u64
  snapshot_received :: u64

record rtp_receive_statistics =
  sequence_initialized :: bool
  base_sequence_number :: u16
  maximum_sequence_number :: u16
  bad_sequence_number :: u32
  sequence_cycles :: u32
  received_packet_count :: u64
  expected_packet_count_prior :: u64
  received_packet_count_prior :: u64
  stat_clock_rate :: u32
  jitter_initialized :: bool
  arrival_anchor :: int
  rtp_timestamp_anchor :: u32
  previous_transit :: int
  stat_jitter :: rat

abbreviation (input) k_sequence_number_modulus :: u32 where "k_sequence_number_modulus \<equiv> 65536"
abbreviation (input) k_maximum_dropout :: u16 where "k_maximum_dropout \<equiv> 3000"
abbreviation (input) k_maximum_misorder :: u16 where "k_maximum_misorder \<equiv> 100"

text \<open>The default member initialisers of the class and of the snapshot.\<close>

definition new_statistics :: rtp_receive_statistics where
  "new_statistics =
     \<lparr>sequence_initialized = False, base_sequence_number = 0, maximum_sequence_number = 0,
      bad_sequence_number = 0, sequence_cycles = 0, received_packet_count = 0,
      expected_packet_count_prior = 0, received_packet_count_prior = 0, stat_clock_rate = 0,
      jitter_initialized = False, arrival_anchor = 0, rtp_timestamp_anchor = 0,
      previous_transit = 0, stat_jitter = 0\<rparr>"

definition empty_report :: rtp_receive_report_snapshot where
  "empty_report =
     \<lparr>snapshot_fraction_lost = 0, snapshot_cumulative_lost = 0, snapshot_extended_highest = 0,
      snapshot_jitter = 0, snapshot_expected = 0, snapshot_received = 0\<rparr>"

section \<open>Operations\<close>

definition wrapping_difference :: "u32 \<Rightarrow> u32 \<Rightarrow> int" where
  "wrapping_difference left right = sint (left - right)"

definition clamp_cumulative_lost :: "int \<Rightarrow> int" where
  "clamp_cumulative_lost value = min (max value (- 8388608)) 8388607"

definition stat_reset :: "rtp_receive_statistics \<Rightarrow> rtp_receive_statistics" where
  "stat_reset s = new_statistics\<lparr>bad_sequence_number := k_sequence_number_modulus + 1\<rparr>"

definition initialize_sequence :: "u16 \<Rightarrow> rtp_receive_statistics \<Rightarrow> rtp_receive_statistics" where
  "initialize_sequence sequence s =
     s\<lparr>sequence_initialized := True, base_sequence_number := sequence,
       maximum_sequence_number := sequence, bad_sequence_number := k_sequence_number_modulus + 1,
       sequence_cycles := 0, received_packet_count := 0, expected_packet_count_prior := 0,
       received_packet_count_prior := 0\<rparr>"

definition update_sequence :: "u16 \<Rightarrow> rtp_receive_statistics \<Rightarrow> bool \<times> rtp_receive_statistics" where
  "update_sequence sequence s =
     (if \<not> sequence_initialized s
      then (True, (initialize_sequence sequence s)\<lparr>received_packet_count := 1\<rparr>)
      else
        let delta = sequence - maximum_sequence_number s;
            count = (\<lambda>s. s\<lparr>received_packet_count := received_packet_count s + 1\<rparr>) in
        if delta < k_maximum_dropout then
          let s = (if sequence < maximum_sequence_number s
                   then s\<lparr>sequence_cycles := sequence_cycles s + k_sequence_number_modulus\<rparr> else s) in
          (True, count (s\<lparr>maximum_sequence_number := sequence\<rparr>))
        else if delta \<le> ucast (k_sequence_number_modulus - ucast k_maximum_misorder) then
          if ucast sequence = bad_sequence_number s
          then (True, count ((initialize_sequence sequence s)\<lparr>stat_clock_rate := 0,
                 jitter_initialized := False, arrival_anchor := 0, rtp_timestamp_anchor := 0,
                 previous_transit := 0, stat_jitter := 0\<rparr>))
          else (False, s\<lparr>bad_sequence_number := ucast (sequence + 1)\<rparr>)
        else (True, count s))"

definition elapsed_timestamp_units :: "int \<Rightarrow> rtp_receive_statistics \<Rightarrow> u64" where
  "elapsed_timestamp_units arrival_time s =
     of_int (max 0 (trunc_div (arrival_time - arrival_anchor s) 1000)) * ucast (stat_clock_rate s)
       div 1000000"

definition update_jitter ::
  "u32 \<Rightarrow> u32 \<Rightarrow> int \<Rightarrow> rtp_receive_statistics \<Rightarrow> rtp_receive_statistics" where
  "update_jitter rtp_timestamp clock_rate arrival_time s =
     (if \<not> jitter_initialized s \<or> stat_clock_rate s \<noteq> clock_rate
      then s\<lparr>stat_clock_rate := clock_rate, jitter_initialized := True, arrival_anchor := arrival_time,
             rtp_timestamp_anchor := rtp_timestamp, previous_transit := 0, stat_jitter := 0\<rparr>
      else
        let arrival_timestamp = rtp_timestamp_anchor s + ucast (elapsed_timestamp_units arrival_time s);
            transit = wrapping_difference arrival_timestamp rtp_timestamp;
            transit_delta = transit - previous_transit s;
            absolute_delta = (of_int (if transit_delta < 0 then - transit_delta else transit_delta) :: rat) in
        s\<lparr>stat_jitter := binary64 (stat_jitter s
              + binary64 (binary64 (absolute_delta - stat_jitter s) / 16)),
          previous_transit := transit\<rparr>)"

definition stat_observe ::
  "u16 \<Rightarrow> u32 \<Rightarrow> u32 \<Rightarrow> int \<Rightarrow> rtp_receive_statistics \<Rightarrow> bool \<times> rtp_receive_statistics" where
  "stat_observe sequence rtp_timestamp clock_rate arrival_time s =
     (if clock_rate = 0 then (False, s)
      else case update_sequence sequence s of
        (False, s) \<Rightarrow> (False, s)
      | (True, s) \<Rightarrow> (True, update_jitter rtp_timestamp clock_rate arrival_time s))"

definition expected_packet_count :: "rtp_receive_statistics \<Rightarrow> u64" where
  "expected_packet_count s =
     (if \<not> sequence_initialized s then 0
      else ucast (sequence_cycles s) + ucast (maximum_sequence_number s)
             - ucast (base_sequence_number s) + 1)"

definition preview_report :: "rtp_receive_statistics \<Rightarrow> rtp_receive_report_snapshot" where
  "preview_report s =
     (if \<not> sequence_initialized s then empty_report
      else
        let expected = expected_packet_count s;
            cumulative_lost = sint expected - sint (received_packet_count s);
            expected_interval = expected - expected_packet_count_prior s;
            received_interval = received_packet_count s - received_packet_count_prior s;
            lost_interval = sint expected_interval - sint received_interval;
            fraction_lost =
              (if expected_interval \<noteq> 0 \<and> lost_interval > 0
               then ucast (min (push_bit 8 (of_int lost_interval :: u64) div expected_interval) 255)
               else 0) in
        \<lparr>snapshot_fraction_lost = fraction_lost,
         snapshot_cumulative_lost = clamp_cumulative_lost cumulative_lost,
         snapshot_extended_highest = sequence_cycles s + ucast (maximum_sequence_number s),
         snapshot_jitter = of_int \<lfloor>min (max (stat_jitter s) 0) 4294967295\<rfloor>,
         snapshot_expected = expected, snapshot_received = received_packet_count s\<rparr>)"

definition commit_report :: "rtp_receive_statistics \<Rightarrow> rtp_receive_statistics" where
  "commit_report s =
     s\<lparr>expected_packet_count_prior := expected_packet_count s,
       received_packet_count_prior := received_packet_count s\<rparr>"

text \<open>The report block a WHIP session sends for a source (\<^verbatim>\<open>send_rtcp_receiver_report\<close>).\<close>

definition make_report_block ::
  "u32 \<Rightarrow> rtp_receive_report_snapshot \<Rightarrow> u32 \<Rightarrow> u32 \<Rightarrow> rtcp_report_block" where
  "make_report_block ssrc s last_sr delay =
     \<lparr>source_ssrc = ssrc, fraction_lost = snapshot_fraction_lost s,
      cumulative_lost = of_int (snapshot_cumulative_lost s),
      extended_highest_sequence_number = snapshot_extended_highest s, jitter = snapshot_jitter s,
      last_sender_report = last_sr, delay_since_last_sender_report = delay\<rparr>"

lemma binary64_tenth: "binary64 (1 / 10) = 3602879701896397 / 36028797018963968"
  by code_simp

section \<open>Specification\<close>

text \<open>
  The tracker of RFC 3550 without machine integers: extended sequence numbers are natural numbers,
  \<open>probation\<close> is the sequence number that would confirm a restart of the source.
\<close>

record sequence_tracker =
  trk_base :: nat
  trk_highest :: nat
  trk_received :: nat
  probation :: "nat option"

definition track :: "nat \<Rightarrow> sequence_tracker \<Rightarrow> bool \<times> sequence_tracker" where
  "track q t =
     (let d = (q + 65536 - trk_highest t mod 65536) mod 65536 in
      if d < 3000 then (True, t\<lparr>trk_highest := trk_highest t + d, trk_received := trk_received t + 1\<rparr>)
      else if d \<le> 65436 then
        if probation t = Some q
        then (True, \<lparr>trk_base = q, trk_highest = q, trk_received = 1, probation = None\<rparr>)
        else (False, t\<lparr>probation := Some ((q + 1) mod 65536)\<rparr>)
      else (True, t\<lparr>trk_received := trk_received t + 1\<rparr>))"

definition extended_highest :: "rtp_receive_statistics \<Rightarrow> nat" where
  "extended_highest s = unat (sequence_cycles s) + unat (maximum_sequence_number s)"

definition tracker_of :: "rtp_receive_statistics \<Rightarrow> sequence_tracker" where
  "tracker_of s =
     \<lparr>trk_base = unat (base_sequence_number s), trk_highest = extended_highest s,
      trk_received = unat (received_packet_count s),
      probation = (if bad_sequence_number s < 65536 then Some (unat (bad_sequence_number s)) else None)\<rparr>"

definition stats_wf :: "rtp_receive_statistics \<Rightarrow> bool" where
  "stats_wf s \<longleftrightarrow>
     sequence_initialized s \<and> 65536 dvd unat (sequence_cycles s)
     \<and> unat (base_sequence_number s) \<le> extended_highest s
     \<and> unat (expected_packet_count_prior s) + unat (base_sequence_number s) \<le> extended_highest s + 1
     \<and> unat (received_packet_count_prior s) \<le> unat (received_packet_count s)
     \<and> 0 \<le> stat_jitter s"

section \<open>Sequence numbers\<close>

lemma u16_bound: "unat q < 65536" for q :: u16
  using unsigned_less [of q, where ?'a = nat] by simp

lemma delta_nat:
  fixes q m :: u16
  shows "unat (q - m) = (unat q + 65536 - unat m) mod 65536"
proof -
  have "unat m < 65536" "unat q < 65536" using u16_bound [of m] u16_bound [of q] by simp_all
  then show ?thesis by (auto simp: unat_sub_if' mod_if)
qed

lemma highest_mod: "stats_wf s \<Longrightarrow> extended_highest s mod 65536 = unat (maximum_sequence_number s)"
  using u16_bound [of "maximum_sequence_number s"]
  by (auto simp: stats_wf_def extended_highest_def mod_add_left_eq [symmetric] elim!: dvdE)

lemma in_order_nat:
  fixes q m :: u16 and c :: u32
  assumes "unat (q - m) < 3000" and "unat c + unat m + 3000 < 2 ^ 32"
  shows "unat (if q < m then c + 65536 else c) + unat q = unat c + unat m + unat (q - m)"
proof -
  have b: "unat m < 65536" "unat q < 65536" using u16_bound [of m] u16_bound [of q] by simp_all
  have d: "unat (q - m) = (if unat m \<le> unat q then unat q - unat m else unat q + 65536 - unat m)"
    by (simp add: unat_sub_if')
  show ?thesis
  proof (cases "q < m")
    case True
    then have "unat c + 65536 < 2 ^ 32" using assms b d by (simp add: word_less_nat_alt split: if_splits)
    then have "unat (c + 65536) = unat c + 65536" by (simp add: unat_word_ariths)
    then show ?thesis using True d b by (simp add: word_less_nat_alt split: if_splits)
  next
    case False
    then show ?thesis using d by (simp add: word_less_nat_alt)
  qed
qed

lemma probation_eq:
  "(ucast q = bad_sequence_number s) = (probation (tracker_of s) = Some (unat q))" for q :: u16
proof -
  have "unat q < 65536" using u16_bound [of q] by simp
  then have "unat (ucast q :: u32) = unat q" by (simp add: unsigned_ucast_eq take_bit_nat_eq_self)
  then show ?thesis
    using \<open>unat q < 65536\<close>
    by (auto simp: tracker_of_def word_less_nat_alt word_unat_eq_iff)
qed

lemma restart_number: "unat (ucast (q + 1) :: u32) = (unat q + 1) mod 65536" for q :: u16
proof -
  have "unat (q + 1) = (unat q + 1) mod 65536" by (simp add: unat_word_ariths)
  then show ?thesis by (simp add: unsigned_ucast_eq take_bit_nat_eq_self)
qed

lemma update_sequence_track:
  assumes wf: "stats_wf s" and range: "extended_highest s + 3000 < 2 ^ 32"
    and count: "unat (received_packet_count s) + 1 < 2 ^ 64"
  shows "fst (update_sequence q s) = fst (track (unat q) (tracker_of s))
    \<and> tracker_of (snd (update_sequence q s)) = snd (track (unat q) (tracker_of s))"
proof -
  let ?d = "q - maximum_sequence_number s"
  have d: "(unat q + 65536 - trk_highest (tracker_of s) mod 65536) mod 65536 = unat ?d"
    by (simp add: tracker_of_def highest_mod [OF wf] delta_nat)
  note track = track_def [of "unat q" "tracker_of s", unfolded d Let_def]
  have init: "sequence_initialized s" using wf by (simp add: stats_wf_def)
  have received: "unat (received_packet_count s + 1) = unat (received_packet_count s) + 1"
    using count by (simp add: unat_word_ariths)
  have bad: "(ucast (q + 1) :: u32) < 65536" by (simp add: word_less_nat_alt restart_number)
  consider "?d < 3000" | "\<not> ?d < 3000" "?d \<le> 65436" | "\<not> ?d < 3000" "\<not> ?d \<le> 65436" by blast
  then show ?thesis
  proof cases
    case 1
    then have "unat ?d < 3000" by (simp add: word_less_nat_alt)
    then show ?thesis
      using 1 init in_order_nat [OF \<open>unat ?d < 3000\<close>, of "sequence_cycles s"] range received
      unfolding track by (auto simp: update_sequence_def Let_def tracker_of_def extended_highest_def)
  next
    case 2
    then have "\<not> unat ?d < 3000" "unat ?d \<le> 65436" by (simp_all add: word_less_nat_alt word_le_nat_alt)
    then show ?thesis
      using 2 init bad restart_number [of q] unfolding track probation_eq [symmetric]
      by (auto simp: update_sequence_def Let_def tracker_of_def extended_highest_def initialize_sequence_def)
  next
    case 3
    then have "\<not> unat ?d < 3000" "\<not> unat ?d \<le> 65436" by (simp_all add: word_less_nat_alt word_le_nat_alt)
    then show ?thesis
      using 3 init received unfolding track
      by (auto simp: update_sequence_def Let_def tracker_of_def extended_highest_def)
  qed
qed

section \<open>Rounding\<close>

lemma round_half_even_error: "\<bar>of_int (round_half_even y) - y\<bar> \<le> 1 / 2" 
  using floor_correct [of y] by (auto simp: round_half_even_def Let_def abs_le_iff)

lemma round_half_even_small: "\<bar>y\<bar> \<le> 1 / 2 \<Longrightarrow> round_half_even y = 0"
proof -
  assume y: "\<bar>y\<bar> \<le> 1 / 2"
  consider "0 \<le> y" | "y < 0" by linarith
  then show ?thesis
  proof cases
    case 1
    then have "\<lfloor>y\<rfloor> = 0" using y by (simp add: floor_eq_iff)
    then show ?thesis using y by (simp add: round_half_even_def)
  next
    case 2
    then have "\<lfloor>y\<rfloor> = - 1" using y by (simp add: floor_eq_iff)
    then show ?thesis using y 2 by (simp add: round_half_even_def Let_def)
  qed
qed

lemma round_half_even_relative: "\<bar>of_int (round_half_even y) - y\<bar> \<le> \<bar>y\<bar>"
  using round_half_even_error [of y] round_half_even_small [of y] by (cases "\<bar>y\<bar> \<le> 1 / 2") auto

lemma pow2_pos: "0 < pow2 k"
  by (simp add: pow2_def)

text \<open>Rounding keeps the sign and at most doubles the magnitude.\<close>

lemma binary64_relative: "\<bar>binary64 x - x\<bar> \<le> \<bar>x\<bar>"
proof (cases "x = 0")
  case False
  define u where "u = pow2 (max (binary_exponent x) (-1022) - 52)"
  have u: "0 < u" by (simp add: u_def pow2_pos)
  have "binary64 x = of_int (round_half_even (x / u)) * u"
    using False by (simp add: binary64_def u_def Let_def)
  then have "binary64 x - x = (of_int (round_half_even (x / u)) - x / u) * u"
    using u by (simp add: algebra_simps)
  then have "\<bar>binary64 x - x\<bar> = \<bar>of_int (round_half_even (x / u)) - x / u\<bar> * u"
    using u by (simp add: abs_mult)
  also have "\<dots> \<le> \<bar>x / u\<bar> * u" using round_half_even_relative [of "x / u"] u by (intro mult_right_mono) auto
  also have "\<dots> = \<bar>x\<bar>" using u by (simp add: abs_mult)
  finally show ?thesis .
qed (simp add: binary64_def)

lemma update_jitter_nonneg:
  assumes "0 \<le> stat_jitter s"
  shows "0 \<le> stat_jitter (update_jitter ts rate arrival s)"
proof -
  have "0 \<le> binary64 (j + binary64 (binary64 (a - j) / 16))" if "0 \<le> j" "0 \<le> a" for j a
    using that binary64_relative [of "a - j"] binary64_relative [of "binary64 (a - j) / 16"]
      binary64_relative [of "j + binary64 (binary64 (a - j) / 16)"]
    by (auto simp: abs_if split: if_splits)
  then show ?thesis using assms by (simp add: update_jitter_def Let_def)
qed

section \<open>The invariant\<close>

text \<open>Room for one more packet before the 32-bit extended sequence number wraps.\<close>

definition stats_room :: "rtp_receive_statistics \<Rightarrow> bool" where
  "stats_room s \<longleftrightarrow>
     extended_highest s + 3000 < 2 ^ 32 \<and> unat (received_packet_count s) + 1 < 2 ^ 63"

lemma expected_nat:
  assumes "stats_wf s"
  shows "unat (expected_packet_count s) + unat (base_sequence_number s) = extended_highest s + 1"
proof -
  let ?c = "sequence_cycles s" and ?m = "maximum_sequence_number s" and ?b = "base_sequence_number s"
  have "unat ?c < 2 ^ 32" using unsigned_less [of ?c, where ?'a = nat] by simp
  then have sum: "unat (ucast ?c + ucast ?m :: u64) = extended_highest s"
    using u16_bound [of ?m]
    by (simp add: unat_word_ariths unsigned_ucast_eq take_bit_nat_eq_self extended_highest_def)
  have b: "unat (ucast ?b :: u64) = unat ?b"
    using u16_bound [of ?b] by (simp add: unsigned_ucast_eq take_bit_nat_eq_self)
  have le: "unat ?b \<le> extended_highest s" using assms by (simp add: stats_wf_def)
  have "extended_highest s < 2 ^ 33" using \<open>unat ?c < 2 ^ 32\<close> u16_bound [of ?m] by (simp add: extended_highest_def)
  then have "unat (ucast ?c + ucast ?m - ucast ?b + 1 :: u64) = extended_highest s - unat ?b + 1"
    using sum b le by (simp add: unat_word_ariths unat_sub_if')
  moreover have "sequence_initialized s" using assms by (simp add: stats_wf_def)
  ultimately show ?thesis using le by (simp add: expected_packet_count_def)
qed

lemma update_jitter_sequence [simp]:
  "sequence_initialized (update_jitter ts rate arrival s) = sequence_initialized s"
  "base_sequence_number (update_jitter ts rate arrival s) = base_sequence_number s"
  "maximum_sequence_number (update_jitter ts rate arrival s) = maximum_sequence_number s"
  "bad_sequence_number (update_jitter ts rate arrival s) = bad_sequence_number s"
  "sequence_cycles (update_jitter ts rate arrival s) = sequence_cycles s"
  "received_packet_count (update_jitter ts rate arrival s) = received_packet_count s"
  "expected_packet_count_prior (update_jitter ts rate arrival s) = expected_packet_count_prior s"
  "received_packet_count_prior (update_jitter ts rate arrival s) = received_packet_count_prior s"
  by (simp_all add: update_jitter_def Let_def)

lemma first_packet_wf:
  "\<not> sequence_initialized s \<Longrightarrow> 0 \<le> stat_jitter s \<Longrightarrow> stats_wf (snd (update_sequence q s))"
  by (simp add: update_sequence_def initialize_sequence_def stats_wf_def extended_highest_def)

lemma update_sequence_wf:
  assumes wf: "stats_wf s" and room: "stats_room s"
  shows "stats_wf (snd (update_sequence q s))"
proof -
  let ?s = "snd (update_sequence q s)" and ?d = "q - maximum_sequence_number s"
  have init: "sequence_initialized s" using wf by (simp add: stats_wf_def)
  have received: "unat (received_packet_count s + 1) = unat (received_packet_count s) + 1"
    using room by (simp add: stats_room_def unat_word_ariths)
  consider "?d < 3000" | "\<not> ?d < 3000" "?d \<le> 65436" | "\<not> ?d < 3000" "\<not> ?d \<le> 65436" by blast
  then show ?thesis
  proof cases
    case 1
    then have small: "unat ?d < 3000" by (simp add: word_less_nat_alt)
    have cycles: "unat (if q < maximum_sequence_number s then sequence_cycles s + 65536 else sequence_cycles s)
        + unat q = extended_highest s + unat ?d"
      using in_order_nat [OF small, of "sequence_cycles s"] room
      by (simp add: stats_room_def extended_highest_def)
    have "65536 dvd unat (sequence_cycles s)" using wf by (simp add: stats_wf_def)
    then have dvd: "65536 dvd unat (if q < maximum_sequence_number s then sequence_cycles s + 65536 else sequence_cycles s)"
      by (auto simp: unat_word_ariths dvd_mod)
    show ?thesis
      using 1 wf cycles dvd received
      by (auto simp: update_sequence_def Let_def stats_wf_def extended_highest_def)
  next
    case 2
    then show ?thesis
      using wf by (auto simp: update_sequence_def Let_def stats_wf_def extended_highest_def initialize_sequence_def)
  next
    case 3
    then show ?thesis
      using wf received by (auto simp: update_sequence_def Let_def stats_wf_def extended_highest_def)
  qed
qed

lemma stat_observe_wf:
  assumes "stats_wf s" and "stats_room s"
  shows "stats_wf (snd (stat_observe q ts rate arrival s))"
proof -
  obtain b s' where u: "update_sequence q s = (b, s')" by (cases "update_sequence q s")
  have wf: "stats_wf s'" using update_sequence_wf [OF assms, of q] by (simp add: u)
  then have "stats_wf (update_jitter ts rate arrival s')"
    using update_jitter_nonneg [of s' ts rate arrival] by (simp add: stats_wf_def extended_highest_def)
  then show ?thesis using wf assms(1) by (cases b) (simp_all add: stat_observe_def u)
qed

lemma commit_report_wf: "stats_wf s \<Longrightarrow> stats_wf (commit_report s)"
  using expected_nat [of s] by (auto simp: stats_wf_def commit_report_def extended_highest_def)

section \<open>Reports\<close>

lemma sint_small: "sint w = int (unat w)" if "unat w < 2 ^ 63" for w :: u64
proof -
  have "int n < 2 ^ 63" if "n < 2 ^ 63" for n using that by simp
  from this [OF that] have "uint w < 2 ^ 63" by simp
  moreover have "- (2 ^ 63) \<le> uint w" by (rule order_trans [OF _ uint_ge_0]) simp
  ultimately show ?thesis by (simp add: sint_uint signed_take_bit_int_eq_self [of 63])
qed

lemma unat_of_int_small: "0 \<le> i \<Longrightarrow> i < 2 ^ 64 \<Longrightarrow> unat (of_int i :: u64) = nat i"
  by (simp add: unat_eq_nat_uint uint_word_of_int_eq take_bit_int_eq_self)

lemma fraction_value:
  fixes d :: u64 and l :: int
  assumes "0 < l" and "l \<le> int (unat d)" and "unat d < 2 ^ 40"
  shows "int (unat (ucast (min (push_bit 8 (of_int l :: u64) div d) 255) :: u8)) = min (256 * l div int (unat d)) 255"
proof -
  let ?w = "push_bit 8 (of_int l :: u64)"
  have "int n < 2 ^ 40" if "n < 2 ^ 40" for n using that by simp
  from this [OF assms(3)] have l: "l < 2 ^ 40" using assms(2) by simp
  have "unat (of_int l :: u64) = nat l" by (rule unat_of_int_small) (use assms(1) l in simp_all)
  then have "unat ?w = 256 * nat l"
    using l by (simp add: push_bit_eq_mult unat_word_ariths nat_less_iff)
  then have w: "int (unat (?w div d)) = 256 * l div int (unat d)"
    using assms(1) by (simp add: unat_div zdiv_int)
  have "int (unat (min (?w div d) 255)) = min (256 * l div int (unat d)) 255"
    using w by (auto simp: min_def word_le_def)
  moreover have "unat (ucast v :: u8) = unat v" if "v \<le> 255" for v :: u64
    using that by (simp add: unsigned_ucast_eq take_bit_nat_eq_self word_le_nat_alt)
  ultimately show ?thesis by simp
qed

text \<open>What a report says of the packets since the previous one, over unbounded integers.\<close>

definition lost_since_report :: "rtp_receive_statistics \<Rightarrow> int" where
  "lost_since_report s =
     (int (extended_highest s) + 1 - int (unat (base_sequence_number s)) - int (unat (expected_packet_count_prior s)))
     - (int (unat (received_packet_count s)) - int (unat (received_packet_count_prior s)))"

lemma preview_report_wf:
  assumes wf: "stats_wf s" and count: "unat (received_packet_count s) < 2 ^ 63"
  defines "expected \<equiv> int (extended_highest s) + 1 - int (unat (base_sequence_number s))"
  shows "int (unat (snapshot_expected (preview_report s))) = expected"
    and "snapshot_cumulative_lost (preview_report s) =
      clamp_cumulative_lost (expected - int (unat (received_packet_count s)))"
    and "int (unat (snapshot_fraction_lost (preview_report s))) =
      (if 0 < lost_since_report s
       then min (256 * lost_since_report s div (expected - int (unat (expected_packet_count_prior s)))) 255 else 0)"
proof -
  let ?E = "expected_packet_count s"
  have init: "sequence_initialized s" using wf by (simp add: stats_wf_def)
  have E: "int (unat ?E) = expected" using expected_nat [OF wf] unfolding expected_def by linarith
  have "unat (sequence_cycles s) < 2 ^ 32" using unsigned_less [of "sequence_cycles s", where ?'a = nat] by simp
  then have small: "unat ?E < 2 ^ 40"
    using expected_nat [OF wf] u16_bound [of "maximum_sequence_number s"] by (simp add: extended_highest_def)
  have prior: "unat (expected_packet_count_prior s) \<le> unat ?E"
      "unat (received_packet_count_prior s) \<le> unat (received_packet_count s)"
    using wf expected_nat [OF wf] by (simp_all add: stats_wf_def)
  define e where "e = ?E - expected_packet_count_prior s"
  define r where "r = received_packet_count s - received_packet_count_prior s"
  have e: "unat e = unat ?E - unat (expected_packet_count_prior s)"
    and r: "unat r = unat (received_packet_count s) - unat (received_packet_count_prior s)"
    using prior by (simp_all add: e_def r_def unat_sub_if')
  have se: "sint e = int (unat e)" and sr: "sint r = int (unat r)"
    using sint_small [of e] sint_small [of r] small count e r by simp_all
  have lost: "sint e - sint r = lost_since_report s"
    unfolding se sr e r lost_since_report_def using prior E
    by (simp add: of_nat_diff expected_def)
  show "int (unat (snapshot_expected (preview_report s))) = expected"
    using init E by (simp add: preview_report_def Let_def)
  show "snapshot_cumulative_lost (preview_report s) =
      clamp_cumulative_lost (expected - int (unat (received_packet_count s)))"
    using init small count E sint_small [of ?E] sint_small [of "received_packet_count s"]
    by (simp add: preview_report_def Let_def)
  have frac: "snapshot_fraction_lost (preview_report s) =
      (if e \<noteq> 0 \<and> lost_since_report s > 0
       then ucast (min (push_bit 8 (of_int (lost_since_report s) :: u64) div e) 255) else 0)"
    unfolding preview_report_def Let_def e_def [symmetric] r_def [symmetric] lost using init by simp
  have le: "lost_since_report s \<le> int (unat e)" using lost unfolding se sr by linarith
  have ne: "e \<noteq> 0" if "0 < lost_since_report s" using that le by auto
  have "int (unat e) = expected - int (unat (expected_packet_count_prior s))"
    using e prior E by (simp add: of_nat_diff)
  moreover have "unat e < 2 ^ 40" using e small by simp
  ultimately show "int (unat (snapshot_fraction_lost (preview_report s))) =
      (if 0 < lost_since_report s
       then min (256 * lost_since_report s div (expected - int (unat (expected_packet_count_prior s)))) 255 else 0)"
    unfolding frac using fraction_value [OF _ le] ne by simp
qed

lemma snapshot_fits: "fits_i24 (of_int (snapshot_cumulative_lost (preview_report s)))"
proof -
  have "sint (of_int c :: u32) = c" if "- 8388608 \<le> c" "c \<le> 8388607" for c
    using that by (simp add: sint_uint uint_word_of_int_eq signed_take_bit_take_bit signed_take_bit_int_eq_self)
  moreover have "- 8388608 \<le> snapshot_cumulative_lost (preview_report s)"
    "snapshot_cumulative_lost (preview_report s) \<le> 8388607"
    by (simp_all add: preview_report_def empty_report_def clamp_cumulative_lost_def Let_def)
  ultimately show ?thesis by (simp add: fits_i24_def)
qed

section \<open>The properties\<close>

text \<open>A source that starts at the last number before the wrap.\<close>

definition sample_statistics :: rtp_receive_statistics where
  "sample_statistics = snd (update_sequence 65535 new_statistics)"

lemma sample_statistics_wf: "stats_wf sample_statistics" "stats_room sample_statistics"
proof -
  show "stats_wf sample_statistics"
    unfolding sample_statistics_def by (rule first_packet_wf) (simp_all add: new_statistics_def)
  show "stats_room sample_statistics"
    by (simp add: sample_statistics_def stats_room_def extended_highest_def update_sequence_def
        initialize_sequence_def new_statistics_def)
qed



text \<open>
  A report counts losses exactly: for a source whose invariant holds, the expected number is
  the extent of the extended sequence numbers, the cumulative loss is expected minus received
  clamped to 24 bits, and the fraction lost is 256 times the share of packets lost since the last
  committed report, at most 255 and 0 when duplicates outweigh losses.
\<close>

theorem report_counts_losses:
  assumes "stats_wf s" and "unat (received_packet_count s) < 2 ^ 63"
  shows "int (unat (snapshot_expected (preview_report s))) =
      int (extended_highest s) + 1 - int (unat (base_sequence_number s))
    \<and> snapshot_cumulative_lost (preview_report s) =
      min (max (int (unat (snapshot_expected (preview_report s))) - int (unat (received_packet_count s))) (- 8388608)) 8388607
    \<and> int (unat (snapshot_fraction_lost (preview_report s))) =
      (if 0 < lost_since_report s
       then min (256 * lost_since_report s div
         (int (unat (snapshot_expected (preview_report s))) - int (unat (expected_packet_count_prior s)))) 255
       else 0)"
  using preview_report_wf [OF assms] by (simp only: clamp_cumulative_lost_def simp_thms)

theorem report_counts_losses_witness:
  "int (unat (snapshot_expected (preview_report (snd (update_sequence 3 sample_statistics))))) = 5
    \<and> snapshot_cumulative_lost (preview_report (snd (update_sequence 3 sample_statistics))) = 3"
proof -
  let ?s = "snd (update_sequence 3 sample_statistics)"
  have wf: "stats_wf ?s" by (rule update_sequence_wf [OF sample_statistics_wf])
  have f: "received_packet_count ?s = 2" "extended_highest ?s = 65539" "base_sequence_number ?s = 65535"
    by (simp_all add: sample_statistics_def update_sequence_def initialize_sequence_def new_statistics_def
        extended_highest_def Let_def)
  show ?thesis using report_counts_losses [OF wf] by (simp add: f)
qed

text \<open>
  What the statistics report can always be sent and is read back unchanged: a receiver report
  with one block per snapshot, at most 31 of them, is accepted by the packet builder, whose 24-bit
  range check the clamping satisfies, and the receiver of the packet parses the same loss, jitter
  and sequence number values.
\<close>

theorem statistics_report_is_sent:
  assumes "sender \<noteq> 0" and "length sources \<le> 31"
    and "blocks = map (\<lambda>(ssrc, s, last_sr, delay). make_report_block ssrc (preview_report s) last_sr delay) sources"
  shows "bindE (build_rtcp_receiver_report \<lparr>rr_sender_ssrc = sender, rr_report_blocks = blocks\<rparr>)
      parse_rtcp_report_packet =
    Inr \<lparr>report_packet_type = 201, report_sender_ssrc = sender, sender_info = None, report_blocks = blocks\<rparr>"
proof -
  let ?r = "\<lparr>rr_sender_ssrc = sender, rr_report_blocks = blocks\<rparr>"
  have "reportable (rr_sender_ssrc ?r) (rr_report_blocks ?r)"
    using assms snapshot_fits
    by (auto simp: reportable_def list_all_iff make_report_block_def split: prod.splits)
  from build_rtcp_receiver_report_eq [OF this] parse_receiver_report_bytes [OF this]
  show ?thesis by simp
qed

theorem statistics_report_is_sent_witness:
  "ok (build_rtcp_receiver_report \<lparr>rr_sender_ssrc = 7, rr_report_blocks =
     [make_report_block 5 (preview_report sample_statistics) 1 2]\<rparr>)"
  using statistics_report_is_sent [of 7 "[(5, sample_statistics, 1, 2)]"]
  by (auto simp: bindE_Inr_iff ok_iff)

section \<open>Streams longer than the 32-bit counter\<close>

text \<open>A source that sends every sequence number in order, starting at zero.\<close>

fun feed_in_order :: "(nat \<Rightarrow> u32) \<Rightarrow> u32 \<Rightarrow> (nat \<Rightarrow> int) \<Rightarrow> nat \<Rightarrow> rtp_receive_statistics" where
  "feed_in_order ts rate arrival 0 = snd (stat_observe 0 (ts 0) rate (arrival 0) new_statistics)"
| "feed_in_order ts rate arrival (Suc n) =
     snd (stat_observe (of_nat (Suc n)) (ts (Suc n)) rate (arrival (Suc n)) (feed_in_order ts rate arrival n))"

lemma stat_observe_sequence:
  assumes "rate \<noteq> 0" and "update_sequence q s = (True, s')"
  shows "snd (stat_observe q ts rate arrival s) = update_jitter ts rate arrival s'"
  using assms by (simp add: stat_observe_def)

lemma cycle_step:
  "(if (of_nat (Suc n) :: u16) < of_nat n then of_nat (n div 65536 * 65536) + 65536
    else of_nat (n div 65536 * 65536)) = (of_nat (Suc n div 65536 * 65536) :: u32)"
proof (cases "Suc n mod 65536 = 0")
  case True
  then obtain k where k: "Suc n = k * 65536" by (auto simp: mod_eq_0_iff_dvd dvd_def)
  then obtain j where "k = Suc j" by (cases k) auto
  then have "n mod 65536 = 65535" "n div 65536 = j" "Suc n div 65536 = Suc j" using k by auto
  then show ?thesis using True by (simp add: word_less_nat_alt unat_of_nat del: of_nat_Suc)
next
  case False
  then have "Suc n mod 65536 = Suc (n mod 65536)" "Suc n div 65536 = n div 65536"
    by (simp_all add: mod_Suc div_Suc split: if_split_asm)
  then show ?thesis by (simp add: word_less_nat_alt unat_of_nat del: of_nat_Suc)
qed

lemma feed_in_order_fields:
  assumes "rate \<noteq> 0"
  shows "sequence_initialized (feed_in_order ts rate arrival n)
    \<and> base_sequence_number (feed_in_order ts rate arrival n) = 0
    \<and> maximum_sequence_number (feed_in_order ts rate arrival n) = of_nat n
    \<and> sequence_cycles (feed_in_order ts rate arrival n) = of_nat (n div 65536 * 65536)
    \<and> received_packet_count (feed_in_order ts rate arrival n) = of_nat (Suc n)"
proof (induction n)
  case 0
  show ?case using assms
    by (simp add: stat_observe_def update_sequence_def initialize_sequence_def new_statistics_def)
next
  case (Suc n)
  let ?s = "feed_in_order ts rate arrival n"
  define c where "c = (if (of_nat (Suc n) :: u16) < of_nat n then sequence_cycles ?s + 65536 else sequence_cycles ?s)"
  define s' where "s' = ?s\<lparr>sequence_cycles := c, maximum_sequence_number := of_nat (Suc n),
    received_packet_count := received_packet_count ?s + 1\<rparr>"
  have delta: "(of_nat (Suc n) :: u16) - of_nat n = 1" by simp
  have u: "update_sequence (of_nat (Suc n)) ?s = (True, s')"
    using Suc.IH delta unfolding update_sequence_def Let_def s'_def c_def by (simp del: of_nat_Suc)
  have c: "c = of_nat (Suc n div 65536 * 65536)"
    unfolding cycle_step [symmetric] c_def using Suc.IH by (simp del: of_nat_Suc of_nat_mult)
  have s': "sequence_initialized s'" "base_sequence_number s' = 0" "maximum_sequence_number s' = of_nat (Suc n)"
      "sequence_cycles s' = of_nat (Suc n div 65536 * 65536)" "received_packet_count s' = of_nat (Suc (Suc n))"
    using Suc.IH by (simp_all add: s'_def c del: of_nat_mult)
  show ?case using stat_observe_sequence [OF assms u] s' by (simp del: of_nat_Suc of_nat_mult)
qed

text \<open>
  The extended sequence number is kept in 32 bits although the packet counters have 64: a
  source that has sent every one of its first \<open>2 ^ 32 + 1\<close> packets in order and lost none is
  reported with one expected packet and a cumulative loss of minus 8388608.
\<close>

theorem long_stream_resets_expected:
  assumes "rate \<noteq> 0"
  shows "snapshot_expected (preview_report (feed_in_order ts rate arrival (2 ^ 32))) = 1
    \<and> snapshot_received (preview_report (feed_in_order ts rate arrival (2 ^ 32))) = 4294967297
    \<and> snapshot_cumulative_lost (preview_report (feed_in_order ts rate arrival (2 ^ 32))) = - 8388608"
  using feed_in_order_fields [OF assms, of ts arrival "2 ^ 32"]
  by (simp add: preview_report_def expected_packet_count_def clamp_cumulative_lost_def Let_def)

theorem long_stream_resets_expected_witness:
  "snapshot_expected (preview_report (feed_in_order (\<lambda>n. of_nat n) 90000 (\<lambda>n. int n) (2 ^ 32))) = 1"
  using long_stream_resets_expected [of 90000] by simp

end
