(* ===== verification/Fir_Sequence_Tracker.thy ===== *)
theory Fir_Sequence_Tracker
  imports Prelude
begin

unbundle bit_operations_syntax

text \<open>
  Suppression of repeated full intra requests (\<^verbatim>\<open>src/rtp/rtcp_fir_sequence_tracker.cpp\<close>): the last
  command sequence number of every pair of sender and media source. The \<^verbatim>\<open>std::unordered_map\<close> is a
  partial map.
\<close>

type_synonym rtcp_fir_sequence_tracker = "u64 \<rightharpoonup> u8"

definition make_sequence_key :: "u32 \<Rightarrow> u32 \<Rightarrow> u64" where
  "make_sequence_key sender media = push_bit 32 (ucast sender) OR ucast media"

definition fir_accept ::
  "u32 \<Rightarrow> u32 \<Rightarrow> u8 \<Rightarrow> rtcp_fir_sequence_tracker \<Rightarrow> bool \<times> rtcp_fir_sequence_tracker" where
  "fir_accept sender media sequence t =
     (let key = make_sequence_key sender media in
      if t key = Some sequence then (False, t) else (True, t(key \<mapsto> sequence)))"

definition fir_clear :: "rtcp_fir_sequence_tracker \<Rightarrow> rtcp_fir_sequence_tracker" where
  "fir_clear t = Map.empty"

text \<open>The tracker after a sequence of requests, oldest first.\<close>

definition after_requests ::
  "(u32 \<times> u32 \<times> u8) list \<Rightarrow> rtcp_fir_sequence_tracker \<Rightarrow> rtcp_fir_sequence_tracker" where
  "after_requests rs t = fold (\<lambda>(sender, media, sequence) t. snd (fir_accept sender media sequence t)) rs t"

lemma make_sequence_key_inject:
  "make_sequence_key s m = make_sequence_key s' m' \<longleftrightarrow> s = s' \<and> m = m'"
proof
  assume eq: "make_sequence_key s m = make_sequence_key s' m'"
  have "bit s n = bit s' n" if "n < 32" for n
    using arg_cong [OF eq, of "\<lambda>w. bit w (n + 32)"] that
    by (simp add: make_sequence_key_def bit_simps) (use bit_imp_le_length in fastforce)
  moreover have "bit m n = bit m' n" if "n < 32" for n
    using arg_cong [OF eq, of "\<lambda>w. bit w n"] that by (simp add: make_sequence_key_def bit_simps)
  ultimately show "s = s' \<and> m = m'" by (auto intro!: bit_word_eqI)
qed simp

lemma fir_accept_lookup:
  "snd (fir_accept s m q t) (make_sequence_key s' m') =
     (if s = s' \<and> m = m' then Some q else t (make_sequence_key s' m'))"
  by (auto simp: fir_accept_def Let_def make_sequence_key_inject)

lemma after_requests_lookup:
  "after_requests rs t (make_sequence_key s m) =
     (case filter (\<lambda>(s', m', q). s' = s \<and> m' = m) rs of
        [] \<Rightarrow> t (make_sequence_key s m)
      | r # rs' \<Rightarrow> Some (snd (snd (last (r # rs')))))"
proof (induction rs rule: rev_induct)
  case (snoc r rs)
  obtain s' m' q where "r = (s', m', q)" by (cases r)
  then show ?case using snoc
    by (cases "filter (\<lambda>(s', m', q). s' = s \<and> m' = m) rs")
      (auto simp: after_requests_def fir_accept_lookup)
qed (simp add: after_requests_def)

text \<open>
  A full intra request is acted upon unless it repeats the command: after any history of
  requests, a request is rejected exactly when the latest earlier one of the same sender for the
  same media source carried the same sequence number; requests of other pairs never interfere.
\<close>

theorem fir_rejects_only_repetitions:
  "\<not> fst (fir_accept s m q (after_requests rs (fir_clear t))) \<longleftrightarrow>
     (let same = filter (\<lambda>(s', m', q). s' = s \<and> m' = m) rs in
      same \<noteq> [] \<and> snd (snd (last same)) = q)"
  using after_requests_lookup [of rs "fir_clear t" s m]
  by (auto simp: fir_accept_def fir_clear_def Let_def split: list.splits)

end
