(* ===== verification/Stun_Message.thy ===== *)
theory Stun_Message
  imports Prelude
begin

unbundle bit_operations_syntax

text \<open>
  STUN messages (\<^verbatim>\<open>src/ice/stun_message.cpp\<close>): the parser of requests, the writer of binding success
  responses, and the two integrity checks, FINGERPRINT (a CRC-32, computed here) and
  MESSAGE-INTEGRITY (an HMAC-SHA1). OpenSSL's \<^verbatim>\<open>HMAC\<close> and the system's \<^verbatim>\<open>inet_pton\<close> are parameters:
  \<open>hmac key input\<close> is \<open>None\<close> for a null result, \<open>pton4\<close> and \<open>pton6\<close> are \<open>None\<close> for a text that is no
  address of the family. The fragment that reads one attribute header, which the source repeats in
  its three attribute loops, is \<open>read_attribute\<close>.
\<close>

section \<open>Data\<close>

datatype stun_message_class = request | indication | success_response | error_response | unknown_class

datatype stun_method = unknown_method | binding

record stun_message =
  stun_method_of :: stun_method
  message_class :: stun_message_class
  transaction_id :: bytes
  username :: "string option"
  priority :: "u32 option"
  has_use_candidate :: bool
  has_ice_controlling :: bool
  has_ice_controlled :: bool
  has_message_integrity :: bool
  has_fingerprint :: bool

record parsed_ip_address =
  is_ipv6 :: bool
  address_bytes :: bytes

abbreviation (input) kStunHeaderSize :: nat where "kStunHeaderSize \<equiv> 20"
abbreviation (input) kStunTransactionIdSize :: nat where "kStunTransactionIdSize \<equiv> 12"
abbreviation (input) kStunMessageIntegritySize :: nat where "kStunMessageIntegritySize \<equiv> 20"
abbreviation (input) kStunFingerprintSize :: nat where "kStunFingerprintSize \<equiv> 4"
abbreviation (input) kStunMagicCookie :: u32 where "kStunMagicCookie \<equiv> 0x2112A442"
abbreviation (input) kStunAttributeMappedAddress :: u16 where "kStunAttributeMappedAddress \<equiv> 0x0001"
abbreviation (input) kStunAttributeUsername :: u16 where "kStunAttributeUsername \<equiv> 0x0006"
abbreviation (input) kStunAttributeMessageIntegrity :: u16 where "kStunAttributeMessageIntegrity \<equiv> 0x0008"
abbreviation (input) kStunAttributeXorMappedAddress :: u16 where "kStunAttributeXorMappedAddress \<equiv> 0x0020"
abbreviation (input) kStunAttributePriority :: u16 where "kStunAttributePriority \<equiv> 0x0024"
abbreviation (input) kStunAttributeUseCandidate :: u16 where "kStunAttributeUseCandidate \<equiv> 0x0025"
abbreviation (input) kStunAttributeFingerprint :: u16 where "kStunAttributeFingerprint \<equiv> 0x8028"
abbreviation (input) kStunAttributeIceControlled :: u16 where "kStunAttributeIceControlled \<equiv> 0x8029"
abbreviation (input) kStunAttributeIceControlling :: u16 where "kStunAttributeIceControlling \<equiv> 0x802A"
abbreviation (input) kStunBindingMethod :: u16 where "kStunBindingMethod \<equiv> 0x0001"
abbreviation (input) kStunFingerprintXorValue :: u32 where "kStunFingerprintXorValue \<equiv> 0x5354554E"
abbreviation (input) kStunMagicCookieBytes :: bytes where "kStunMagicCookieBytes \<equiv> [0x21, 0x12, 0xA4, 0x42]"

text \<open>Bytes read as characters, and back (\<^verbatim>\<open>reinterpret_cast<const char*>\<close>).\<close>

definition text_of_bytes :: "bytes \<Rightarrow> string" where
  "text_of_bytes bs = map (\<lambda>b. char_of (unat b)) bs"

definition c_str :: "string \<Rightarrow> string" where
  "c_str s = takeWhile (\<lambda>c. c \<noteq> CHR 0x00) s"

section \<open>Helpers\<close>

definition append_u16 :: "bytes \<Rightarrow> u16 \<Rightarrow> bytes" where
  "append_u16 data value = data @ [ucast (drop_bit 8 value AND 0xFF), ucast (value AND 0xFF)]"

definition append_u32 :: "bytes \<Rightarrow> u32 \<Rightarrow> bytes" where
  "append_u32 data value =
     data @ [ucast (drop_bit 24 value AND 0xFF), ucast (drop_bit 16 value AND 0xFF),
             ucast (drop_bit 8 value AND 0xFF), ucast (value AND 0xFF)]"

definition padding_size :: "nat \<Rightarrow> nat" where
  "padding_size value_length = (let remainder = value_length mod 4 in if remainder = 0 then 0 else 4 - remainder)"

definition encode_message_type :: "u16 \<Rightarrow> stun_message_class \<Rightarrow> u16" where
  "encode_message_type method cls =
     (let class_value = (case cls of
            request \<Rightarrow> 0 | indication \<Rightarrow> 1 | success_response \<Rightarrow> 2 | error_response \<Rightarrow> 3 | unknown_class \<Rightarrow> 0) in
      (method AND 0x000F) OR push_bit 1 (method AND 0x0070) OR push_bit 2 (method AND 0x0F80)
      OR push_bit 4 (class_value AND 1) OR push_bit 7 (class_value AND 2))"

definition decode_method :: "u16 \<Rightarrow> u16" where
  "decode_method raw_type =
     (raw_type AND 0x000F) OR drop_bit 1 (raw_type AND 0x00E0) OR drop_bit 2 (raw_type AND 0x3E00)"

definition make_stun_method :: "u16 \<Rightarrow> stun_method" where
  "make_stun_method raw_method = (if raw_method = kStunBindingMethod then binding else unknown_method)"

definition decode_message_class :: "u16 \<Rightarrow> stun_message_class" where
  "decode_message_class raw_type =
     (let value = drop_bit 4 (raw_type AND 0x0010) OR drop_bit 7 (raw_type AND 0x0100) in
      if value = 0 then request else if value = 1 then indication
      else if value = 2 then success_response else if value = 3 then error_response else unknown_class)"

definition crc_bit :: "u32 \<Rightarrow> u32" where
  "crc_bit crc = (if crc AND 1 \<noteq> 0 then drop_bit 1 crc XOR 0xEDB88320 else drop_bit 1 crc)"

definition crc_byte :: "u8 \<Rightarrow> u32 \<Rightarrow> u32" where
  "crc_byte byte crc = (crc_bit ^^ 8) (crc XOR ucast byte)"

definition calculate_crc32 :: "bytes \<Rightarrow> u32" where
  "calculate_crc32 data = fold crc_byte data 0xFFFFFFFF XOR 0xFFFFFFFF"

definition constant_time_equal :: "bytes \<Rightarrow> bytes \<Rightarrow> bool" where
  "constant_time_equal left right =
     (if length left \<noteq> length right then False
      else fold (\<lambda>(l, r) result. result OR (l XOR r)) (zip left right) 0 = 0)"

definition calculate_hmac_sha1 ::
  "(string \<Rightarrow> bytes \<Rightarrow> bytes option) \<Rightarrow> bytes \<Rightarrow> string \<Rightarrow> bytes result" where
  "calculate_hmac_sha1 hmac data key =
     (if key = [] then make_error ''stun message integrity key is empty''
      else if length key > 2147483647 then make_error ''stun message integrity key is too large''
      else case hmac key data of
        None \<Rightarrow> make_error ''calculate stun message integrity failed''
      | Some digest \<Rightarrow>
          if length digest \<noteq> kStunMessageIntegritySize
          then make_error ''unexpected stun message integrity size''
          else Inr digest)"

definition set_stun_message_length :: "bytes \<Rightarrow> nat \<Rightarrow> bytes result" where
  "set_stun_message_length packet message_length =
     (if length packet < kStunHeaderSize then make_error ''stun packet is shorter than header''
      else if message_length > 65535 then make_error ''stun packet is too large''
      else if message_length mod 4 \<noteq> 0 then make_error ''stun message length is not aligned''
      else write_u16 packet 2 (of_nat message_length))"

definition make_stun_header :: "u16 \<Rightarrow> bytes \<Rightarrow> bytes" where
  "make_stun_header raw_type tid =
     append_u32 (append_u16 (append_u16 [] raw_type) 0) kStunMagicCookie @ tid"

definition append_attribute :: "bytes \<Rightarrow> u16 \<Rightarrow> bytes \<Rightarrow> bytes result" where
  "append_attribute packet type value =
     (if length value > 65535 then make_error ''stun attribute is too large''
      else Inr (append_u16 (append_u16 packet type) (of_nat (length value)) @ value
                @ replicate (padding_size (length value)) 0))"

section \<open>Parsing\<close>

definition validate_address_attribute_value :: "bytes \<Rightarrow> unit result" where
  "validate_address_attribute_value value =
     (if length value < 4 then make_error ''stun address attribute is too short''
      else bindE (read_u8 value 1) (\<lambda>family.
        if family = 1 \<and> length value \<noteq> 8 then make_error ''stun ipv4 address attribute has invalid size''
        else if family = 2 \<and> length value \<noteq> 20 then make_error ''stun ipv6 address attribute has invalid size''
        else if family \<noteq> 1 \<and> family \<noteq> 2 then make_error ''stun address attribute has unsupported family''
        else Inr ()))"

definition decode_known_attribute :: "stun_message \<Rightarrow> u16 \<Rightarrow> bytes \<Rightarrow> stun_message result" where
  "decode_known_attribute message type value =
     (if type = kStunAttributeMappedAddress \<or> type = kStunAttributeXorMappedAddress then
        bindE (validate_address_attribute_value value) (\<lambda>_. Inr message)
      else if type = kStunAttributeUsername then Inr (message\<lparr>username := Some (text_of_bytes value)\<rparr>)
      else if type = kStunAttributePriority then
        if length value \<noteq> 4 then make_error ''stun priority attribute has invalid size''
        else bindE (read_u32 value 0) (\<lambda>p. Inr (message\<lparr>priority := Some p\<rparr>))
      else if type = kStunAttributeUseCandidate then
        if value \<noteq> [] then make_error ''stun use-candidate attribute must be empty''
        else Inr (message\<lparr>has_use_candidate := True\<rparr>)
      else if type = kStunAttributeIceControlling then
        if length value \<noteq> 8 then make_error ''stun ice-controlling attribute has invalid size''
        else Inr (message\<lparr>has_ice_controlling := True\<rparr>)
      else if type = kStunAttributeIceControlled then
        if length value \<noteq> 8 then make_error ''stun ice-controlled attribute has invalid size''
        else Inr (message\<lparr>has_ice_controlled := True\<rparr>)
      else if type = kStunAttributeMessageIntegrity then
        if length value \<noteq> kStunMessageIntegritySize
        then make_error ''stun message-integrity attribute has invalid size''
        else Inr (message\<lparr>has_message_integrity := True\<rparr>)
      else if type = kStunAttributeFingerprint then
        if length value \<noteq> kStunFingerprintSize
        then make_error ''stun fingerprint attribute has invalid size''
        else Inr (message\<lparr>has_fingerprint := True\<rparr>)
      else Inr message)"

text \<open>The type, the length, the offset of the value and the padded end of the attribute at an offset.\<close>

definition read_attribute :: "bytes \<Rightarrow> nat \<Rightarrow> nat \<Rightarrow> (u16 \<times> nat \<times> nat \<times> nat) result" where
  "read_attribute data total_size offset =
     (if offset + 4 > total_size then make_error ''stun attribute header is truncated''
      else bindE (read_u16 data offset) (\<lambda>type.
        bindE (read_u16 data (offset + 2)) (\<lambda>len.
        let value_offset = offset + 4;
            value_end = value_offset + unat len;
            padded_end = value_end + padding_size (unat len) in
        if value_end > total_size \<or> padded_end > total_size
        then make_error ''stun attribute value is truncated''
        else Inr (type, unat len, value_offset, padded_end))))"

lemma read_attribute_next:
  "read_attribute data total_size offset = Inr (type, len, value_offset, padded_end) \<Longrightarrow>
     value_offset = offset + 4 \<and> padded_end = value_offset + len + padding_size len \<and> padded_end \<le> total_size"
  by (auto simp: read_attribute_def bindE_Inr_iff make_error_def Let_def split: if_splits)

function parse_attributes :: "bytes \<Rightarrow> nat \<Rightarrow> nat \<Rightarrow> stun_message \<Rightarrow> stun_message result" where
  "parse_attributes data total_size offset message =
     (if offset < total_size then
        bindE (read_attribute data total_size offset) (\<lambda>(type, len, value_offset, padded_end).
        bindE (subspan data value_offset len) (\<lambda>value.
        bindE (decode_known_attribute message type value) (\<lambda>message.
        parse_attributes data total_size padded_end message)))
      else Inr message)"
  by pat_completeness auto
termination
  by (relation "measure (\<lambda>(data, total_size, offset, message). total_size - offset)")
    (auto dest!: read_attribute_next)

function find_fingerprint_loop :: "bytes \<Rightarrow> nat \<Rightarrow> nat \<Rightarrow> (nat \<times> nat \<times> u32) result" where
  "find_fingerprint_loop data total_size offset =
     (if offset < total_size then
        bindE (read_attribute data total_size offset) (\<lambda>(type, len, value_offset, padded_end).
        if type = kStunAttributeFingerprint then
          if len \<noteq> kStunFingerprintSize then make_error ''stun fingerprint attribute has invalid size''
          else if padded_end \<noteq> total_size then make_error ''stun fingerprint attribute must be last''
          else bindE (read_u32 data value_offset) (\<lambda>expected. Inr (offset, value_offset, expected))
        else find_fingerprint_loop data total_size padded_end)
      else make_error ''stun fingerprint attribute not found'')"
  by pat_completeness auto
termination
  by (relation "measure (\<lambda>(data, total_size, offset). total_size - offset)") (auto dest!: read_attribute_next)

definition find_fingerprint_attribute :: "bytes \<Rightarrow> (nat \<times> nat \<times> u32) result" where
  "find_fingerprint_attribute data =
     bindE (read_u16 data 2) (\<lambda>message_length.
     find_fingerprint_loop data (kStunHeaderSize + unat message_length) kStunHeaderSize)"

function find_message_integrity_loop :: "bytes \<Rightarrow> nat \<Rightarrow> nat \<Rightarrow> (nat \<times> nat) result" where
  "find_message_integrity_loop data total_size offset =
     (if offset < total_size then
        bindE (read_attribute data total_size offset) (\<lambda>(type, len, value_offset, padded_end).
        if type = kStunAttributeMessageIntegrity then
          if len \<noteq> kStunMessageIntegritySize
          then make_error ''stun message-integrity attribute has invalid size''
          else Inr (offset, value_offset)
        else find_message_integrity_loop data total_size padded_end)
      else make_error ''stun message-integrity attribute not found'')"
  by pat_completeness auto
termination
  by (relation "measure (\<lambda>(data, total_size, offset). total_size - offset)") (auto dest!: read_attribute_next)

definition find_message_integrity_attribute :: "bytes \<Rightarrow> (nat \<times> nat) result" where
  "find_message_integrity_attribute data =
     bindE (read_u16 data 2) (\<lambda>message_length.
     find_message_integrity_loop data (kStunHeaderSize + unat message_length) kStunHeaderSize)"

declare parse_attributes.simps [simp del] find_fingerprint_loop.simps [simp del]
  find_message_integrity_loop.simps [simp del]

definition is_stun_packet :: "bytes \<Rightarrow> bool result" where
  "is_stun_packet data =
     (if length data < kStunHeaderSize then Inr False
      else bindE (read_u8 data 0) (\<lambda>first.
        if first AND 0xC0 \<noteq> 0 then Inr False
        else bindE (read_u16 data 2) (\<lambda>message_length.
          if unat message_length mod 4 \<noteq> 0 then Inr False
          else bindE (read_u32 data 4) (\<lambda>cookie.
            if cookie \<noteq> kStunMagicCookie then Inr False
            else Inr (length data \<ge> kStunHeaderSize + unat message_length)))))"

definition validate_stun_header :: "bytes \<Rightarrow> unit result" where
  "validate_stun_header data =
     (if length data < kStunHeaderSize then make_error ''stun packet is shorter than header''
      else bindE (read_u8 data 0) (\<lambda>first.
        if first AND 0xC0 \<noteq> 0 then make_error ''stun packet first two bits must be zero''
        else bindE (read_u16 data 2) (\<lambda>message_length.
          if unat message_length mod 4 \<noteq> 0 then make_error ''stun message length is not aligned''
          else bindE (read_u32 data 4) (\<lambda>cookie.
            if cookie \<noteq> kStunMagicCookie then make_error ''stun magic cookie is invalid''
            else let total_size = kStunHeaderSize + unat message_length in
              if length data < total_size then make_error ''stun packet is truncated''
              else if length data \<noteq> total_size then make_error ''stun packet has trailing bytes''
              else Inr ()))))"

text \<open>The default member initialisers of \<^verbatim>\<open>stun_message\<close>.\<close>

definition empty_stun_message :: stun_message where
  "empty_stun_message =
     \<lparr>stun_method_of = unknown_method, message_class = unknown_class, transaction_id = replicate 12 0,
      username = None, priority = None, has_use_candidate = False, has_ice_controlling = False,
      has_ice_controlled = False, has_message_integrity = False, has_fingerprint = False\<rparr>"

definition parse_stun_message :: "bytes \<Rightarrow> stun_message result" where
  "parse_stun_message data =
     bindE (validate_stun_header data) (\<lambda>_.
     bindE (read_u16 data 0) (\<lambda>raw_type.
     bindE (subspan data 8 kStunTransactionIdSize) (\<lambda>tid.
     bindE (read_u16 data 2) (\<lambda>message_length.
     parse_attributes data (kStunHeaderSize + unat message_length) kStunHeaderSize
       (empty_stun_message\<lparr>stun_method_of := make_stun_method (decode_method raw_type),
          message_class := decode_message_class raw_type, transaction_id := tid\<rparr>)))))"

section \<open>Writing\<close>

definition parse_ip_address ::
  "(string \<Rightarrow> bytes option) \<Rightarrow> (string \<Rightarrow> bytes option) \<Rightarrow> string \<Rightarrow> parsed_ip_address result" where
  "parse_ip_address pton4 pton6 ip =
     (if ip = [] then make_error ''stun mapped address ip is empty''
      else case pton4 (c_str ip) of
        Some ipv4 \<Rightarrow> Inr \<lparr>is_ipv6 = False, address_bytes = ipv4\<rparr>
      | None \<Rightarrow> (case pton6 (c_str ip) of
          Some ipv6 \<Rightarrow> Inr \<lparr>is_ipv6 = True, address_bytes = ipv6\<rparr>
        | None \<Rightarrow> make_error ''stun mapped address ip is invalid''))"

definition make_xor_mapped_address_value ::
  "(string \<Rightarrow> bytes option) \<Rightarrow> (string \<Rightarrow> bytes option) \<Rightarrow> string \<Rightarrow> u16 \<Rightarrow> bytes \<Rightarrow> bytes result" where
  "make_xor_mapped_address_value pton4 pton6 mapped_ip mapped_port tid =
     bindE (parse_ip_address pton4 pton6 mapped_ip) (\<lambda>parsed.
     let xor_port = mapped_port XOR ucast (drop_bit 16 kStunMagicCookie);
         value = append_u16 [0, if is_ipv6 parsed then 2 else 1] xor_port in
     if \<not> is_ipv6 parsed
     then Inr (value @ map2 (XOR) (address_bytes parsed) kStunMagicCookieBytes)
     else Inr (value @ map2 (XOR) (address_bytes parsed) (kStunMagicCookieBytes @ tid)))"

definition append_message_integrity ::
  "(string \<Rightarrow> bytes \<Rightarrow> bytes option) \<Rightarrow> bytes \<Rightarrow> string \<Rightarrow> bytes result" where
  "append_message_integrity hmac packet key =
     (if key = [] then make_error ''stun message integrity key is empty''
      else
        let packet = append_u16 (append_u16 packet kStunAttributeMessageIntegrity) (of_nat kStunMessageIntegritySize);
            value_offset = length packet;
            attribute_offset = value_offset - 4;
            packet = packet @ replicate kStunMessageIntegritySize 0 in
        bindE (set_stun_message_length packet (length packet - kStunHeaderSize)) (\<lambda>packet.
        bindE (calculate_hmac_sha1 hmac (take attribute_offset packet) key) (\<lambda>digest.
        write_bytes packet value_offset digest)))"

definition append_fingerprint :: "bytes \<Rightarrow> bytes result" where
  "append_fingerprint packet =
     (let packet = append_u16 (append_u16 packet kStunAttributeFingerprint) (of_nat kStunFingerprintSize);
          value_offset = length packet;
          attribute_offset = value_offset - 4;
          packet = append_u32 packet 0 in
      bindE (set_stun_message_length packet (length packet - kStunHeaderSize)) (\<lambda>packet.
      write_u32 packet value_offset (calculate_crc32 (take attribute_offset packet) XOR kStunFingerprintXorValue)))"

definition validate_binding_request :: "stun_message \<Rightarrow> unit result" where
  "validate_binding_request req =
     (if stun_method_of req \<noteq> binding then make_error ''stun request method must be binding''
      else if message_class req \<noteq> request then make_error ''stun message class must be request''
      else Inr ())"

definition validate_binding_success_response :: "string \<Rightarrow> u16 \<Rightarrow> string \<Rightarrow> unit result" where
  "validate_binding_success_response mapped_ip mapped_port key =
     (if mapped_ip = [] then make_error ''stun mapped address ip is empty''
      else if mapped_port = 0 then make_error ''stun mapped address port is zero''
      else if key = [] then make_error ''stun message integrity key is empty''
      else Inr ())"

definition write_stun_binding_success_response ::
  "(string \<Rightarrow> bytes \<Rightarrow> bytes option) \<Rightarrow> (string \<Rightarrow> bytes option) \<Rightarrow> (string \<Rightarrow> bytes option) \<Rightarrow>
     stun_message \<Rightarrow> string \<Rightarrow> u16 \<Rightarrow> string \<Rightarrow> bytes result" where
  "write_stun_binding_success_response hmac pton4 pton6 req mapped_ip mapped_port key =
     bindE (validate_binding_request req) (\<lambda>_.
     bindE (validate_binding_success_response mapped_ip mapped_port key) (\<lambda>_.
     let packet = make_stun_header (encode_message_type kStunBindingMethod success_response) (transaction_id req) in
     bindE (make_xor_mapped_address_value pton4 pton6 mapped_ip mapped_port (transaction_id req)) (\<lambda>value.
     bindE (append_attribute packet kStunAttributeXorMappedAddress value) (\<lambda>packet.
     bindE (set_stun_message_length packet (length packet - kStunHeaderSize)) (\<lambda>packet.
     bindE (append_message_integrity hmac packet key) (\<lambda>packet.
     append_fingerprint packet))))))"

definition verify_stun_fingerprint :: "bytes \<Rightarrow> unit result" where
  "verify_stun_fingerprint data =
     bindE (validate_stun_header data) (\<lambda>_.
     bindE (find_fingerprint_attribute data) (\<lambda>(attribute_offset, value_offset, expected).
     bindE (subspan data 0 attribute_offset) (\<lambda>prefix.
     if calculate_crc32 prefix XOR kStunFingerprintXorValue \<noteq> expected
     then make_error ''stun fingerprint mismatch'' else Inr ())))"

definition verify_stun_message_integrity ::
  "(string \<Rightarrow> bytes \<Rightarrow> bytes option) \<Rightarrow> bytes \<Rightarrow> string \<Rightarrow> unit result" where
  "verify_stun_message_integrity hmac data key =
     bindE (validate_stun_header data) (\<lambda>_.
     if key = [] then make_error ''stun message integrity key is empty''
     else bindE (find_message_integrity_attribute data) (\<lambda>(attribute_offset, value_offset).
       let message_length = value_offset + kStunMessageIntegritySize - kStunHeaderSize in
       if message_length > 65535 then make_error ''stun message-integrity input is too large''
       else bindE (subspan data 0 attribute_offset) (\<lambda>prefix.
         bindE (write_u16 prefix 2 (of_nat message_length)) (\<lambda>hmac_input.
         bindE (calculate_hmac_sha1 hmac hmac_input key) (\<lambda>digest.
         bindE (subspan data value_offset kStunMessageIntegritySize) (\<lambda>expected.
         if \<not> constant_time_equal expected digest
         then make_error ''stun message-integrity mismatch'' else Inr ()))))))"

definition stun_class_to_string :: "stun_message_class \<Rightarrow> string" where
  "stun_class_to_string value =
     (case value of request \<Rightarrow> ''request'' | indication \<Rightarrow> ''indication''
      | success_response \<Rightarrow> ''success_response'' | error_response \<Rightarrow> ''error_response''
      | unknown_class \<Rightarrow> ''unknown'')"

definition stun_method_to_string :: "stun_method \<Rightarrow> string" where
  "stun_method_to_string value = (case value of binding \<Rightarrow> ''binding'' | unknown_method \<Rightarrow> ''unknown'')"

section \<open>Wire format\<close>

definition attribute_bytes :: "u16 \<Rightarrow> bytes \<Rightarrow> bytes" where
  "attribute_bytes type value =
     enc_u16 type @ enc_u16 (of_nat (length value)) @ value @ replicate (padding_size (length value)) 0"

definition stun_header_bytes :: "u16 \<Rightarrow> nat \<Rightarrow> bytes \<Rightarrow> bytes" where
  "stun_header_bytes type len tid = enc_u16 type @ enc_u16 (of_nat len) @ enc_u32 kStunMagicCookie @ tid"

lemma append_u16_enc [simp]: "append_u16 data v = data @ enc_u16 v"
  by (simp add: append_u16_def enc_u16_def ucast_byte16)

lemma append_u32_enc [simp]: "append_u32 data v = data @ enc_u32 v"
  by (simp add: append_u32_def enc_u32_def ucast_byte32)

lemma attribute_length [simp]:
  "length (attribute_bytes t v) = 4 + length v + padding_size (length v)"
  by (simp add: attribute_bytes_def)

lemma attribute_aligned: "length (attribute_bytes t v) mod 4 = 0"
  unfolding attribute_length padding_size_def Let_def by presburger

lemma stun_header_length [simp]: "length (stun_header_bytes t n tid) = 8 + length tid"
  by (simp add: stun_header_bytes_def)

lemma read_attribute_enc:
  assumes "length v \<le> 65535" and "length xs = offset" and "offset + length (attribute_bytes t v) \<le> bound"
  shows "read_attribute (xs @ attribute_bytes t v @ ys) bound offset =
    Inr (t, length v, offset + 4, offset + length (attribute_bytes t v))"
proof -
  have "unat (of_nat (length v) :: u16) = length v" using assms(1) by (simp add: unat_of_nat_u16)
  then show ?thesis
    using assms(2,3)
    by (simp add: read_attribute_def attribute_bytes_def wire Let_def del: access)
qed

lemma subspan_attribute:
  "length xs = offset \<Longrightarrow> subspan (xs @ attribute_bytes t v @ ys) (offset + 4) (length v) = Inr v"
  by (simp add: subspan_def attribute_bytes_def)

lemma parse_attributes_enc:
  assumes "length v \<le> 65535" and "length xs = offset" and "offset + length (attribute_bytes t v) \<le> bound"
  shows "parse_attributes (xs @ attribute_bytes t v @ ys) bound offset m =
    bindE (decode_known_attribute m t v)
      (parse_attributes (xs @ attribute_bytes t v @ ys) bound (offset + length (attribute_bytes t v)))"
proof -
  have "offset < bound" using assms(3) by simp
  then show ?thesis
    by (subst parse_attributes.simps)
      (simp add: read_attribute_enc [OF assms] subspan_attribute [OF assms(2)] del: attribute_length)
qed

lemma find_message_integrity_skip:
  assumes "length v \<le> 65535" and "length xs = offset" and "offset + length (attribute_bytes t v) \<le> bound"
    and "t \<noteq> kStunAttributeMessageIntegrity"
  shows "find_message_integrity_loop (xs @ attribute_bytes t v @ ys) bound offset =
    find_message_integrity_loop (xs @ attribute_bytes t v @ ys) bound (offset + length (attribute_bytes t v))"
proof -
  have "offset < bound" using assms(3) by simp
  then show ?thesis
    by (subst find_message_integrity_loop.simps)
      (simp add: read_attribute_enc [OF assms(1-3)] assms(4) del: attribute_length)
qed

lemma find_message_integrity_hit:
  assumes "length v = 20" and "length xs = offset" and "offset + 24 \<le> bound"
  shows "find_message_integrity_loop (xs @ attribute_bytes kStunAttributeMessageIntegrity v @ ys) bound offset =
    Inr (offset, offset + 4)"
proof -
  have le: "length v \<le> 65535" "offset + length (attribute_bytes 8 v) \<le> bound" "offset < bound"
    using assms by (simp_all add: padding_size_def)
  show ?thesis
    by (subst find_message_integrity_loop.simps)
      (simp add: read_attribute_enc [OF le(1) assms(2) le(2)] le(3) assms(1) del: attribute_length)
qed

lemma find_fingerprint_skip:
  assumes "length v \<le> 65535" and "length xs = offset" and "offset + length (attribute_bytes t v) \<le> bound"
    and "t \<noteq> kStunAttributeFingerprint"
  shows "find_fingerprint_loop (xs @ attribute_bytes t v @ ys) bound offset =
    find_fingerprint_loop (xs @ attribute_bytes t v @ ys) bound (offset + length (attribute_bytes t v))"
proof -
  have "offset < bound" using assms(3) by simp
  then show ?thesis
    by (subst find_fingerprint_loop.simps)
      (simp add: read_attribute_enc [OF assms(1-3)] assms(4) del: attribute_length)
qed

lemma find_fingerprint_hit:
  assumes "length xs = offset" and "offset + 8 = bound"
  shows "find_fingerprint_loop (xs @ attribute_bytes kStunAttributeFingerprint (enc_u32 f)) bound offset =
    Inr (offset, offset + 4, f)"
proof -
  let ?a = "attribute_bytes kStunAttributeFingerprint (enc_u32 f)"
  have le: "length (enc_u32 f) \<le> 65535" "offset + length ?a \<le> bound" "offset < bound"
    using assms(2) by (simp_all add: padding_size_def)
  have read: "read_attribute (xs @ ?a) bound offset = Inr (kStunAttributeFingerprint, 4, offset + 4, bound)"
    using read_attribute_enc [OF le(1) assms(1) le(2), of "[]"] assms(2) by (simp add: padding_size_def)
  have "read_u32 (xs @ ?a) (offset + 4) = Inr f"
    using assms(1) by (simp add: attribute_bytes_def wire del: access)
  then show ?thesis by (subst find_fingerprint_loop.simps) (simp add: read le(3))
qed

lemma set_length_header:
  assumes "n \<le> 65535" and "n mod 4 = 0" and "length tid = 12"
  shows "set_stun_message_length (stun_header_bytes t m tid @ rest) n = Inr (stun_header_bytes t n tid @ rest)"
  using assms
  by (simp add: set_stun_message_length_def stun_header_bytes_def wire del: access)
    (simp add: u16f.wr_bytes write_bytes_def)

lemma validate_header_enc:
  assumes "length tid = 12" and "length rest = n" and "n \<le> 65535" and "n mod 4 = 0"
    and "t AND 0xC000 = 0"
  shows "validate_stun_header (stun_header_bytes t n tid @ rest) = Inr ()"
proof -
  have "unat (of_nat n :: u16) = n" using assms(3) by (simp add: unat_of_nat_u16)
  moreover have "(ucast (drop_bit 8 t) :: u8) AND 0xC0 = 0"
  proof (rule bit_word_eqI)
    fix k assume "k < LENGTH(8)"
    then show "bit ((ucast (drop_bit 8 t) :: u8) AND 0xC0) k = bit (0 :: u8) k"
      using arg_cong [OF assms(5), of "\<lambda>w. bit w (k + 8)"]
      by (auto simp: bit_simps bit_numeral_rec less_Suc_eq numeral_eq_Suc)
  qed
  moreover have "read_u8 (stun_header_bytes t n tid @ rest) 0 = Inr (ucast (drop_bit 8 t))"
    by (simp add: stun_header_bytes_def enc_u16_def)
  ultimately show ?thesis
    using assms(1,2,4)
    by (simp add: validate_stun_header_def stun_header_bytes_def wire Let_def del: access)
qed

section \<open>Constant-time comparison\<close>

lemma xor_zero_iff: "x XOR y = 0 \<longleftrightarrow> x = y" for x y :: "'a::len word"
  by (metis xor.assoc xor.left_neutral xor.right_neutral xor_self_eq)

lemma or_fold_zero:
  "fold (\<lambda>(l, r) result. result OR (l XOR r)) ps acc = (0 :: u8) \<longleftrightarrow> acc = 0 \<and> (\<forall>(l, r) \<in> set ps. l = r)"
  by (induction ps arbitrary: acc) (auto simp: or_eq_0_iff xor_zero_iff)

lemma constant_time_equal_iff: "constant_time_equal left right \<longleftrightarrow> left = right"
proof -
  have "(\<forall>(l, r) \<in> set (zip left right). l = r) \<longleftrightarrow> left = right" if "length left = length right"
    using that by (induction left right rule: list_induct2) auto
  then show ?thesis by (auto simp: constant_time_equal_def or_fold_zero)
qed

section \<open>The response\<close>

text \<open>The datagram of a binding success response, as a function of its mapped address and its digest.\<close>

definition response_prefix :: "nat \<Rightarrow> bytes \<Rightarrow> bytes \<Rightarrow> bytes" where
  "response_prefix extra tid value =
     stun_header_bytes 0x0101 (length (attribute_bytes kStunAttributeXorMappedAddress value) + extra) tid
     @ attribute_bytes kStunAttributeXorMappedAddress value"

definition response_bytes :: "bytes \<Rightarrow> bytes \<Rightarrow> bytes \<Rightarrow> bytes" where
  "response_bytes tid value digest =
     (let signed = response_prefix 32 tid value @ attribute_bytes kStunAttributeMessageIntegrity digest in
      signed @ attribute_bytes kStunAttributeFingerprint
        (enc_u32 (calculate_crc32 signed XOR kStunFingerprintXorValue)))"

lemma success_type: "encode_message_type kStunBindingMethod success_response = 0x0101"
  by code_simp

lemma append_message_integrity_eq:
  assumes prefix: "length tid = 12" "length (attribute_bytes kStunAttributeXorMappedAddress value) \<le> 1000"
    and ok: "append_message_integrity hmac (response_prefix extra tid value) key = Inr packet"
  shows "\<exists>digest. hmac key (response_prefix 24 tid value) = Some digest \<and> length digest = 20
    \<and> packet = response_prefix 24 tid value @ attribute_bytes kStunAttributeMessageIntegrity digest"
proof -
  let ?A = "attribute_bytes kStunAttributeXorMappedAddress value"
  let ?P = "\<lambda>n. response_prefix n tid value" and ?mi = "enc_u16 kStunAttributeMessageIntegrity @ enc_u16 20"
  have mod4: "length ?A mod 4 = 0" by (rule attribute_aligned)
  have len: "length (?P extra) = 20 + length ?A" using prefix(1) by (simp add: response_prefix_def)
  have set: "set_stun_message_length (?P extra @ ?mi @ replicate 20 0) (length ?A + 24) =
      Inr (?P 24 @ ?mi @ replicate 20 0)"
    unfolding response_prefix_def append_assoc
    by (rule set_length_header [OF _ _ prefix(1)]) (use prefix(2) mod4 in \<open>linarith | presburger\<close>)+
  have take: "take (length ?A + 20) (?P 24 @ ?mi @ replicate 20 0) = ?P 24"
    using prefix(1) by (simp add: response_prefix_def)
  have pad: "padding_size 20 = 0" by (simp add: padding_size_def)
  from ok obtain digest where d: "calculate_hmac_sha1 hmac (?P 24) key = Inr digest"
    and p: "write_bytes (?P 24 @ ?mi @ replicate 20 0) (length ?A + 24) digest = Inr packet"
    using len set take
    by (auto simp: append_message_integrity_def Let_def bindE_Inr_iff make_error_def split: if_splits)
  then have "hmac key (?P 24) = Some digest" "length digest = 20"
    by (auto simp: calculate_hmac_sha1_def make_error_def split: if_splits option.splits)
  moreover from this p have "packet = ?P 24 @ ?mi @ digest"
    using prefix(1) by (simp add: write_bytes_def response_prefix_def)
  ultimately show ?thesis by (simp add: attribute_bytes_def pad)
qed

lemma append_fingerprint_eq:
  assumes "length tid = 12" and "length (attribute_bytes kStunAttributeXorMappedAddress value) \<le> 1000"
    and "length digest = 20"
  shows "append_fingerprint (response_prefix 24 tid value @ attribute_bytes kStunAttributeMessageIntegrity digest) =
    Inr (response_bytes tid value digest)"
proof -
  let ?A = "attribute_bytes kStunAttributeXorMappedAddress value"
  let ?M = "attribute_bytes kStunAttributeMessageIntegrity digest"
  let ?P = "\<lambda>n. response_prefix n tid value" and ?fp = "enc_u16 kStunAttributeFingerprint @ enc_u16 4"
  have mod4: "length ?A mod 4 = 0" by (rule attribute_aligned)
  have M: "length ?M = 24" using assms(3) by (simp add: padding_size_def)
  have len: "length (?P 24) = 20 + length ?A" using assms(1) by (simp add: response_prefix_def)
  have set: "set_stun_message_length (?P 24 @ ?M @ ?fp @ enc_u32 0) (length ?A + 32) =
      Inr (?P 32 @ ?M @ ?fp @ enc_u32 0)"
    unfolding response_prefix_def append_assoc
    by (rule set_length_header [OF _ _ assms(1)]) (use assms(2) mod4 in \<open>linarith | presburger\<close>)+
  have take: "take (length ?A + 44) (?P 32 @ ?M @ ?fp @ enc_u32 0) = ?P 32 @ ?M"
    using assms(1) M by (simp add: response_prefix_def del: attribute_length)
  have wr32: "write_u32 (?P 32 @ ?M @ ?fp @ enc_u32 0) (length ?A + 48) f = Inr (?P 32 @ ?M @ ?fp @ enc_u32 f)" for f
    using assms(1) M by (simp add: u32f.wr_bytes write_bytes_def response_prefix_def del: attribute_length)
  have "append_fingerprint (?P 24 @ ?M) =
      Inr (?P 32 @ ?M @ ?fp @ enc_u32 (calculate_crc32 (?P 32 @ ?M) XOR kStunFingerprintXorValue))"
    using len M set take wr32 by (simp add: append_fingerprint_def Let_def add.commute add.left_commute del: attribute_length)
  then show ?thesis by (simp add: response_bytes_def attribute_bytes_def padding_size_def Let_def)
qed

text \<open>\<^verbatim>\<open>inet_pton\<close> fills a four-byte or a sixteen-byte address.\<close>

definition inet_pton_sizes :: "(string \<Rightarrow> bytes option) \<Rightarrow> (string \<Rightarrow> bytes option) \<Rightarrow> bool" where
  "inet_pton_sizes pton4 pton6 \<longleftrightarrow>
     (\<forall>t a. pton4 t = Some a \<longrightarrow> length a = 4) \<and> (\<forall>t a. pton6 t = Some a \<longrightarrow> length a = 16)"

lemma make_xor_value_length:
  assumes "make_xor_mapped_address_value pton4 pton6 ip port tid = Inr value" and "length tid = 12"
    and "inet_pton_sizes pton4 pton6"
  shows "length value = 8 \<or> length value = 20"
  using assms
  by (auto simp: inet_pton_sizes_def make_xor_mapped_address_value_def parse_ip_address_def bindE_Inr_iff make_error_def Let_def
      split: if_splits option.splits)

lemma write_response_layout:
  assumes written: "write_stun_binding_success_response hmac pton4 pton6 req ip port key = Inr packet"
    and tid: "length (transaction_id req) = 12"
    and pton: "inet_pton_sizes pton4 pton6"
  obtains val digest where
    "make_xor_mapped_address_value pton4 pton6 ip port (transaction_id req) = Inr val"
    "length val = 8 \<or> length val = 20" "key \<noteq> []" "length key \<le> 2147483647"
    "hmac key (response_prefix 24 (transaction_id req) val) = Some digest" "length digest = 20"
    "packet = response_bytes (transaction_id req) val digest"
proof -
  let ?tid = "transaction_id req"
  from written obtain val p1 p2 p3 where key: "key \<noteq> []"
    and valeq: "make_xor_mapped_address_value pton4 pton6 ip port ?tid = Inr val"
    and p1: "append_attribute (make_stun_header 0x0101 ?tid) kStunAttributeXorMappedAddress val = Inr p1"
    and p2: "set_stun_message_length p1 (length p1 - 20) = Inr p2"
    and p3: "append_message_integrity hmac p2 key = Inr p3" and fin: "append_fingerprint p3 = Inr packet"
    by (auto simp: write_stun_binding_success_response_def success_type bindE_Inr_iff Let_def
        validate_binding_success_response_def make_error_def split: if_splits)
  have v: "length val = 8 \<or> length val = 20" by (rule make_xor_value_length [OF valeq tid pton])
  let ?A = "attribute_bytes kStunAttributeXorMappedAddress val"
  have A: "length ?A \<le> 1000" "length ?A \<le> 65535" using v by (auto simp: padding_size_def)
  have "p1 = stun_header_bytes 0x0101 0 ?tid @ ?A"
    using p1 v by (auto simp: append_attribute_def make_stun_header_def stun_header_bytes_def attribute_bytes_def)
  then have "p2 = stun_header_bytes 0x0101 (length ?A) ?tid @ ?A"
    using p2 tid set_length_header [OF A(2) attribute_aligned tid, where t = "0x0101" and m = 0 and rest = ?A] by (simp del: attribute_length)
  then have "p2 = response_prefix 0 ?tid val" by (simp add: response_prefix_def)
  with p3 obtain digest where d: "hmac key (response_prefix 24 ?tid val) = Some digest" "length digest = 20"
      "p3 = response_prefix 24 ?tid val @ attribute_bytes kStunAttributeMessageIntegrity digest"
    using append_message_integrity_eq [OF tid A(1)] by blast
  have "length key \<le> 2147483647"
    using p3 by (auto simp: append_message_integrity_def calculate_hmac_sha1_def bindE_Inr_iff make_error_def
        Let_def not_less split: if_splits)
  moreover have "packet = response_bytes ?tid val digest"
    using fin append_fingerprint_eq [OF tid A(1) d(2)] d(3) by simp
  ultimately show thesis using that [OF valeq v key _ d(1,2)] by blast
qed

text \<open>How the peer reads the mapped address (RFC 8489, 14.2): family, port, address.\<close>

definition xor_mapped_address :: "bytes \<Rightarrow> bytes \<Rightarrow> u8 \<times> u16 \<times> bytes" where
  "xor_mapped_address tid v =
     (v ! 1, be16 (v ! 2) (v ! 3) XOR 0x2112, map2 (XOR) (drop 4 v) (kStunMagicCookieBytes @ tid))"

lemma map2_xor_twice:
  "length xs \<le> length ks \<Longrightarrow> map2 (XOR) (map2 (XOR) xs ks) ks = (xs :: bytes)"
proof (induction xs ks rule: list_induct2')
  case (4 x xs k ks)
  then show ?case by (simp add: xor.assoc)
qed auto

lemma map2_append: "length xs \<le> length ks \<Longrightarrow> map2 f xs (ks @ ls) = map2 f xs ks"
  by (simp add: zip_append2)

lemma xor_address_decodes:
  assumes made: "make_xor_mapped_address_value pton4 pton6 ip port tid = Inr v" and tid: "length tid = 12"
    and pton: "inet_pton_sizes pton4 pton6"
  shows "\<exists>parsed. parse_ip_address pton4 pton6 ip = Inr parsed
    \<and> xor_mapped_address tid v = (if is_ipv6 parsed then 2 else 1, port, address_bytes parsed)
    \<and> validate_address_attribute_value v = Inr ()"
proof -
  from made obtain parsed where parsed: "parse_ip_address pton4 pton6 ip = Inr parsed"
    and v: "v = [0, if is_ipv6 parsed then 2 else 1] @ enc_u16 (port XOR 0x2112)
      @ map2 (XOR) (address_bytes parsed) (if is_ipv6 parsed then kStunMagicCookieBytes @ tid else kStunMagicCookieBytes)"
    by (auto simp: make_xor_mapped_address_value_def bindE_Inr_iff Let_def split: if_splits)
  have len: "length (address_bytes parsed) = (if is_ipv6 parsed then 16 else 4)"
    using parsed pton
    by (auto simp: inet_pton_sizes_def parse_ip_address_def make_error_def split: if_splits option.splits)
  have keys: "map2 (XOR) (address_bytes parsed) (if is_ipv6 parsed then kStunMagicCookieBytes @ tid else kStunMagicCookieBytes)
      = map2 (XOR) (address_bytes parsed) (kStunMagicCookieBytes @ tid)"
    using map2_append [of "address_bytes parsed" kStunMagicCookieBytes "(XOR)" tid] len by auto
  have twice: "map2 (XOR) (map2 (XOR) (address_bytes parsed) (kStunMagicCookieBytes @ tid)) (kStunMagicCookieBytes @ tid)
      = address_bytes parsed"
    by (rule map2_xor_twice) (use len tid in \<open>auto split: if_splits\<close>)
  have port: "be16 (v ! 2) (v ! 3) = port XOR 0x2112"
    unfolding v using be16_enc [of "port XOR 0x2112"] by (simp add: enc_u16_def numeral_2_eq_2 numeral_3_eq_3)
  have "drop 4 v = map2 (XOR) (address_bytes parsed) (kStunMagicCookieBytes @ tid)"
    unfolding v keys by (simp add: enc_u16_def)
  then have "xor_mapped_address tid v = (if is_ipv6 parsed then 2 else 1, port, address_bytes parsed)"
    unfolding xor_mapped_address_def port using twice v by (simp add: xor.assoc)
  moreover have "validate_address_attribute_value v = Inr ()"
    unfolding v using len tid by (simp add: validate_address_attribute_value_def read_u8_def enc_u16_def)
  ultimately show ?thesis using parsed by blast
qed

lemma response_facts:
  assumes "length tid = 12" and "length v = 8 \<or> length v = 20" and "length digest = 20"
  defines "A \<equiv> attribute_bytes kStunAttributeXorMappedAddress v"
    and "M \<equiv> attribute_bytes kStunAttributeMessageIntegrity digest"
    and "F \<equiv> attribute_bytes kStunAttributeFingerprint (enc_u32 (calculate_crc32
      (response_prefix 32 tid v @ attribute_bytes kStunAttributeMessageIntegrity digest) XOR kStunFingerprintXorValue))"
    and "H \<equiv> stun_header_bytes 0x0101 (length (attribute_bytes kStunAttributeXorMappedAddress v) + 32) tid"
  shows "response_bytes tid v digest = H @ A @ M @ F" and "response_prefix 32 tid v = H @ A"
    and "length H = 20" and "length M = 24" and "length F = 8" and "length A + 32 \<le> 65535"
    and "validate_stun_header (H @ A @ M @ F) = Inr ()"
    and "read_u16 (H @ A @ M @ F) 2 = Inr (of_nat (length A + 32))"
    and "unat (of_nat (length A + 32) :: u16) = length A + 32"
proof -
  show "response_bytes tid v digest = H @ A @ M @ F" "response_prefix 32 tid v = H @ A"
    by (simp_all add: response_bytes_def response_prefix_def A_def M_def F_def H_def Let_def)
  show lens: "length H = 20" "length M = 24" "length F = 8"
    using assms(1,3) by (simp_all add: H_def M_def F_def padding_size_def)
  show A: "length A + 32 \<le> 65535" using assms(2) by (auto simp: A_def padding_size_def)
  have "(length A + 32) mod 4 = 0" using attribute_aligned [of "0x0020" v] unfolding A_def by presburger
  then show "validate_stun_header (H @ A @ M @ F) = Inr ()"
    unfolding H_def A_def [symmetric]
    using lens A by (intro validate_header_enc [OF assms(1)]) simp_all
  show "read_u16 (H @ A @ M @ F) 2 = Inr (of_nat (length A + 32))"
    unfolding H_def A_def [symmetric] by (simp add: stun_header_bytes_def wire del: access of_nat_add)
  show "unat (of_nat (length A + 32) :: u16) = length A + 32" using A by (intro unat_of_nat_u16) simp
qed

lemma response_verifies:
  assumes tid: "length tid = 12" and v: "length v = 8 \<or> length v = 20" and d: "length digest = 20"
  shows "verify_stun_fingerprint (response_bytes tid v digest) = Inr ()"
    and "hmac key (response_prefix 24 tid v) = Some digest \<Longrightarrow> key \<noteq> [] \<Longrightarrow> length key \<le> 2147483647 \<Longrightarrow>
      verify_stun_message_integrity hmac (response_bytes tid v digest) key = Inr ()"
    and "validate_address_attribute_value v = Inr () \<Longrightarrow> parse_stun_message (response_bytes tid v digest) =
      Inr (empty_stun_message\<lparr>stun_method_of := binding, message_class := success_response,
        transaction_id := tid, has_message_integrity := True, has_fingerprint := True\<rparr>)"
proof -
  define A where "A = attribute_bytes kStunAttributeXorMappedAddress v"
  define M where "M = attribute_bytes kStunAttributeMessageIntegrity digest"
  define f where "f = calculate_crc32 (response_prefix 32 tid v @ M) XOR kStunFingerprintXorValue"
  define F where "F = attribute_bytes kStunAttributeFingerprint (enc_u32 f)"
  define H where "H = stun_header_bytes 0x0101 (length A + 32) tid"
  note facts = response_facts [OF tid v d, folded A_def M_def, folded f_def, folded F_def H_def]
  have v5: "length v \<le> 65535" "length digest \<le> 65535" using v d by auto
  let ?n = "20 + (length A + 32)"
  have fp: "find_fingerprint_loop (H @ A @ M @ F) ?n 20 = Inr (length (H @ A @ M), length (H @ A @ M) + 4, f)"
    using find_fingerprint_skip [OF v5(1), of H 20 kStunAttributeXorMappedAddress ?n "M @ F", folded A_def]
      find_fingerprint_skip [OF v5(2), of "H @ A" "20 + length A" kStunAttributeMessageIntegrity ?n F, folded M_def]
      find_fingerprint_hit [of "H @ A @ M" "20 + length A + 24" ?n f, folded F_def] facts(3-5)
    by (simp add: add.assoc)
  show "verify_stun_fingerprint (response_bytes tid v digest) = Inr ()"
    unfolding facts(1) verify_stun_fingerprint_def find_fingerprint_attribute_def
    by (simp only: facts(7-9) fp bindE.simps prod.case) (simp add: subspan_def f_def facts(2))
  have mi: "find_message_integrity_loop (H @ A @ M @ F) ?n 20 = Inr (20 + length A, 20 + length A + 4)"
    using find_message_integrity_skip [OF v5(1), of H 20 kStunAttributeXorMappedAddress ?n "M @ F", folded A_def]
      find_message_integrity_hit [OF d, of "H @ A" "20 + length A" ?n F, folded M_def] facts(3,4)
    by (simp add: add.assoc)
  have input: "write_u16 (H @ A) 2 (of_nat (24 + length A)) = Inr (response_prefix 24 tid v)"
    by (simp add: add.commute u16f.wr_bytes write_bytes_def H_def response_prefix_def stun_header_bytes_def flip: A_def)
  have digest: "subspan (H @ A @ M @ F) (20 + length A + 4) 20 = Inr digest"
    using subspan_attribute [of "H @ A" "20 + length A" _ digest F, folded M_def] facts(3) d
    by (simp add: M_def)
  show "verify_stun_message_integrity hmac (response_bytes tid v digest) key = Inr ()"
    if "hmac key (response_prefix 24 tid v) = Some digest" "key \<noteq> []" "length key \<le> 2147483647"
    unfolding facts(1) verify_stun_message_integrity_def find_message_integrity_attribute_def
    using that facts(3,6) d digest input
    by (simp only: facts(7-9) mi bindE.simps prod.case Let_def)
      (simp add: subspan_def calculate_hmac_sha1_def constant_time_equal_iff del: of_nat_add)
  show "parse_stun_message (response_bytes tid v digest) =
      Inr (empty_stun_message\<lparr>stun_method_of := binding, message_class := success_response,
        transaction_id := tid, has_message_integrity := True, has_fingerprint := True\<rparr>)"
    if "validate_address_attribute_value v = Inr ()"
  proof -
    have tid8: "subspan (H @ A @ M @ F) 8 12 = Inr tid"
      using tid by (simp add: subspan_def H_def stun_header_bytes_def)
    have type: "read_u16 (H @ A @ M @ F) 0 = Inr 0x0101"
      by (simp add: H_def stun_header_bytes_def wire del: access)
    have kind: "make_stun_method (decode_method 0x0101) = binding" "decode_message_class 0x0101 = success_response"
      by code_simp+
    have walk: "parse_attributes (H @ A @ M @ F) ?n 20 m =
        Inr (m\<lparr>has_message_integrity := True, has_fingerprint := True\<rparr>)" for m
      using parse_attributes_enc [OF v5(1), of H 20 kStunAttributeXorMappedAddress ?n "M @ F" m, folded A_def]
        parse_attributes_enc [OF v5(2), of "H @ A" "20 + length A" kStunAttributeMessageIntegrity ?n F m, folded M_def]
        parse_attributes_enc [of "enc_u32 f" "H @ A @ M" "20 + length A + 24" kStunAttributeFingerprint ?n "[]"
          "m\<lparr>has_message_integrity := True\<rparr>", folded F_def]
        parse_attributes.simps [of "H @ A @ M @ F" ?n ?n] facts(3-5) d that
      by (simp add: add.assoc decode_known_attribute_def)
    show ?thesis
      unfolding facts(1) parse_stun_message_def
      by (simp only: facts(7-9) type tid8 walk kind bindE.simps)
  qed
qed

section \<open>Memory safety\<close>

lemma padding_le: "padding_size n \<le> 3"
  unfolding padding_size_def Let_def by presburger

lemma read_attribute_safe [safe]:
  "bound \<le> length data \<Longrightarrow> fault_free (read_attribute data bound offset)"
  by (auto simp: read_attribute_def Let_def)

lemma decode_known_attribute_safe [safe]: "fault_free (decode_known_attribute m t v)"
  by (auto simp: decode_known_attribute_def validate_address_attribute_value_def)

lemma attribute_value_safe:
  assumes "read_attribute data bound offset = Inr (t, len, value_offset, padded_end)" and "bound \<le> length data"
  shows "fault_free (subspan data value_offset len)" and "len = 4 \<Longrightarrow> fault_free (read_u32 data value_offset)"
proof -
  have "value_offset + len \<le> length data" using read_attribute_next [OF assms(1)] assms(2) by linarith
  then show "fault_free (subspan data value_offset len)" "len = 4 \<Longrightarrow> fault_free (read_u32 data value_offset)"
    by (simp_all add: subspan_def)
qed

lemma parse_attributes_safe: "bound \<le> length data \<Longrightarrow> fault_free (parse_attributes data bound offset m)"
proof (induction data bound offset m rule: parse_attributes.induct)
  case (1 data bound offset m)
  have "fault_free (case r of (type, len, value_offset, padded_end) \<Rightarrow>
      bindE (subspan data value_offset len) (\<lambda>v. bindE (decode_known_attribute m type v) (\<lambda>m.
      parse_attributes data bound padded_end m)))"
    if r: "offset < bound" "read_attribute data bound offset = Inr r" for r
  proof -
    obtain t len vo pe where e: "r = (t, len, vo, pe)" by (cases r)
    show ?thesis unfolding e prod.case
      using attribute_value_safe(1) [OF r(2) [unfolded e] "1.prems"] "1.IH" [OF r(1) r(2) [unfolded e] refl refl refl _ _ "1.prems"]
      by (blast intro: fault_free_bindE decode_known_attribute_safe)
  qed
  then show ?case
    unfolding parse_attributes.simps [of data bound offset m]
    by (intro fault_free_if fault_free_bindE read_attribute_safe [OF "1.prems"]) simp_all
qed

lemma find_fingerprint_safe: "bound \<le> length data \<Longrightarrow> fault_free (find_fingerprint_loop data bound offset)"
proof (induction data bound offset rule: find_fingerprint_loop.induct)
  case (1 data bound offset)
  have "fault_free (case r of (type, len, value_offset, padded_end) \<Rightarrow>
        if type = kStunAttributeFingerprint then
          if len \<noteq> kStunFingerprintSize then make_error ''stun fingerprint attribute has invalid size''
          else if padded_end \<noteq> bound then make_error ''stun fingerprint attribute must be last''
          else bindE (read_u32 data value_offset) (\<lambda>expected. Inr (offset, value_offset, expected))
        else find_fingerprint_loop data bound padded_end)"
    if r: "offset < bound" "read_attribute data bound offset = Inr r" for r
  proof -
    obtain t len vo pe where e: "r = (t, len, vo, pe)" by (cases r)
    show ?thesis unfolding e prod.case
      using attribute_value_safe(2) [OF r(2) [unfolded e] "1.prems"] "1.IH" [OF r(1) r(2) [unfolded e] refl refl refl _ "1.prems"]
      by (auto intro!: fault_free_bindE)
  qed
  then show ?case
    unfolding find_fingerprint_loop.simps [of data bound offset]
    by (intro fault_free_if fault_free_bindE read_attribute_safe [OF "1.prems"]) simp_all
qed

lemma find_message_integrity_safe:
  "bound \<le> length data \<Longrightarrow> fault_free (find_message_integrity_loop data bound offset)"
proof (induction data bound offset rule: find_message_integrity_loop.induct)
  case (1 data bound offset)
  have "fault_free (case r of (type, len, value_offset, padded_end) \<Rightarrow>
        if type = kStunAttributeMessageIntegrity then
          if len \<noteq> kStunMessageIntegritySize
          then make_error ''stun message-integrity attribute has invalid size''
          else Inr (offset, value_offset)
        else find_message_integrity_loop data bound padded_end)"
    if r: "offset < bound" "read_attribute data bound offset = Inr r" for r
  proof -
    obtain t len vo pe where e: "r = (t, len, vo, pe)" by (cases r)
    show ?thesis unfolding e prod.case
      using "1.IH" [OF r(1) r(2) [unfolded e] refl refl refl _ "1.prems"] by auto
  qed
  then show ?case
    unfolding find_message_integrity_loop.simps [of data bound offset]
    by (intro fault_free_if fault_free_bindE read_attribute_safe [OF "1.prems"]) simp_all
qed

lemma find_fingerprint_offset: "find_fingerprint_loop data bound offset = Inr (a, b, e) \<Longrightarrow> a \<le> bound"
proof (induction data bound offset rule: find_fingerprint_loop.induct)
  case (1 data bound offset)
  from "1.prems" obtain t len vo pe where r: "offset < bound" "read_attribute data bound offset = Inr (t, len, vo, pe)"
    and rest: "if t = kStunAttributeFingerprint then a = offset else find_fingerprint_loop data bound pe = Inr (a, b, e)"
    by (subst (asm) find_fingerprint_loop.simps) (auto simp: bindE_Inr_iff make_error_def split: if_splits)
  then show ?case using "1.IH" [OF r refl refl refl] by (auto split: if_splits)
qed

lemma validate_stun_header_safe [safe]: "fault_free (validate_stun_header data)"
  unfolding validate_stun_header_def Let_def by (intro safe) auto

lemma is_stun_packet_safe [safe]: "fault_free (is_stun_packet data)"
  unfolding is_stun_packet_def by (intro safe) auto

lemma validate_stun_headerD:
  assumes "validate_stun_header data = Inr ()"
  obtains n where "20 \<le> length data" "read_u16 data 2 = Inr n" "length data = 20 + unat n"
  using assms by (auto simp: validate_stun_header_def bindE_Inr_iff make_error_def Let_def split: if_splits)

lemma parse_stun_message_safe [safe]: "fault_free (parse_stun_message data)"
  unfolding parse_stun_message_def
proof (rule fault_free_bindE [OF validate_stun_header_safe])
  fix u assume "validate_stun_header data = Inr u"
  then obtain n where n: "20 \<le> length data" "read_u16 data 2 = Inr n" "length data = 20 + unat n"
    by (auto elim: validate_stun_headerD)
  then show "fault_free (bindE (read_u16 data 0) (\<lambda>raw_type. bindE (subspan data 8 12) (\<lambda>tid.
      bindE (read_u16 data 2) (\<lambda>message_length. parse_attributes data (20 + unat message_length) 20
        (empty_stun_message\<lparr>stun_method_of := make_stun_method (decode_method raw_type),
          message_class := decode_message_class raw_type, transaction_id := tid\<rparr>)))))"
    by (auto intro!: fault_free_bindE parse_attributes_safe)
qed

lemma find_message_integrity_offsets:
  "find_message_integrity_loop data bound offset = Inr (a, b) \<Longrightarrow> b = a + 4 \<and> a + 24 \<le> bound \<and> offset \<le> a"
proof (induction data bound offset rule: find_message_integrity_loop.induct)
  case (1 data bound offset)
  from "1.prems" obtain t len vo pe where r: "offset < bound" "read_attribute data bound offset = Inr (t, len, vo, pe)"
    and rest: "if t = kStunAttributeMessageIntegrity then len = 20 \<and> a = offset \<and> b = vo
      else find_message_integrity_loop data bound pe = Inr (a, b)"
    by (subst (asm) find_message_integrity_loop.simps)
      (auto simp: bindE_Inr_iff make_error_def split: if_splits)
  note step = read_attribute_next [OF r(2)]
  show ?case
  proof (cases "t = kStunAttributeMessageIntegrity")
    case True
    then show ?thesis using rest step by auto
  next
    case False
    then have "b = a + 4 \<and> a + 24 \<le> bound \<and> pe \<le> a"
      using "1.IH" [OF r refl refl refl] rest by simp
    then show ?thesis using step by auto
  qed
qed

section \<open>What message integrity covers\<close>

text \<open>
  The bytes under the HMAC when MESSAGE-INTEGRITY starts at offset \<open>a\<close>: everything before it, with
  the length field set as if the message ended behind it.
\<close>

definition signed_part :: "bytes \<Rightarrow> nat \<Rightarrow> bytes" where
  "signed_part data a = take 2 data @ enc_u16 (of_nat (a + 4)) @ drop 4 (take a data)"

lemma write_length_signed:
  "20 \<le> a \<Longrightarrow> a \<le> length data \<Longrightarrow> write_u16 (take a data) 2 (of_nat (a + 4)) = Inr (signed_part data a)"
  by (simp add: u16f.wr_bytes write_bytes_def signed_part_def min_def del: of_nat_add)

lemma find_integrity_bounds:
  assumes "validate_stun_header data = Inr ()" and "find_message_integrity_attribute data = Inr (a, b)"
  shows "b = a + 4 \<and> a + 24 \<le> length data \<and> 20 \<le> a \<and> a + 4 \<le> 65535"
proof -
  obtain n where n: "read_u16 data 2 = Inr n" "length data = 20 + unat n"
    using assms(1) by (auto elim: validate_stun_headerD)
  have "b = a + 4 \<and> a + 24 \<le> 20 + unat n \<and> 20 \<le> a"
    using assms(2) n(1) find_message_integrity_offsets by (fastforce simp: find_message_integrity_attribute_def)
  moreover have "unat n < 65536" using unsigned_less [of n, where ?'a = nat] by simp
  ultimately show ?thesis using n(2) by auto
qed

lemma verify_integrity_iff:
  assumes header: "validate_stun_header data = Inr ()" and key: "key \<noteq> []" "length key \<le> 2147483647"
    and found: "find_message_integrity_attribute data = Inr (a, b)"
  shows "verify_stun_message_integrity hmac data key = Inr () \<longleftrightarrow>
    hmac key (signed_part data a) = Some (take 20 (drop (a + 4) data))"
proof -
  note bounds = find_integrity_bounds [OF header found]
  have prefix: "subspan data 0 a = Inr (take a data)" "subspan data (a + 4) 20 = Inr (take 20 (drop (a + 4) data))"
    using bounds by (simp_all add: subspan_def)
  have len: "length (take 20 (drop (a + 4) data)) = 20" using bounds by auto
  have ml: "b + 20 - 20 = a + 4" "\<not> a + 4 > 65535" using bounds by auto
  have "verify_stun_message_integrity hmac data key =
      bindE (calculate_hmac_sha1 hmac (signed_part data a) key) (\<lambda>digest.
        if \<not> constant_time_equal (take 20 (drop (a + 4) data)) digest
        then make_error ''stun message-integrity mismatch'' else Inr ())"
    unfolding verify_stun_message_integrity_def header found Let_def bindE.simps prod.case ml
    using key(1) prefix ml(2) write_length_signed [of a data] bounds
    by (simp only: if_False bindE.simps not_False_eq_True) simp
  then show ?thesis
    using key len
    by (auto simp: calculate_hmac_sha1_def constant_time_equal_iff make_error_def split: option.splits)
qed

lemma verify_integrityD:
  assumes "verify_stun_message_integrity hmac data key = Inr ()"
  obtains a where "validate_stun_header data = Inr ()" "find_message_integrity_attribute data = Inr (a, a + 4)"
    "20 \<le> a" "a + 24 \<le> length data" "key \<noteq> []" "length key \<le> 2147483647"
    "hmac key (signed_part data a) = Some (take 20 (drop (a + 4) data))"
proof -
  from assms have header: "validate_stun_header data = Inr ()" and key: "key \<noteq> []"
    by (auto simp: verify_stun_message_integrity_def bindE_Inr_iff make_error_def split: if_splits)
  from assms obtain a b where found: "find_message_integrity_attribute data = Inr (a, b)"
    and small: "length key \<le> 2147483647"
    by (auto simp: verify_stun_message_integrity_def calculate_hmac_sha1_def bindE_Inr_iff make_error_def Let_def
        not_less split: if_splits)
  note bounds = find_integrity_bounds [OF header found]
  show thesis
    using that [of a] header found bounds key small verify_integrity_iff [OF header key small found] assms by auto
qed

lemma verify_stun_message_integrity_safe [safe]: "fault_free (verify_stun_message_integrity hmac data key)"
proof (cases "validate_stun_header data = Inr () \<and> key \<noteq> [] \<and> (\<exists>a b. find_message_integrity_attribute data = Inr (a, b))")
  case True
  then obtain a b where h: "validate_stun_header data = Inr ()" and f: "find_message_integrity_attribute data = Inr (a, b)"
    by blast
  note bounds = find_integrity_bounds [OF h f]
  have "fault_free (calculate_hmac_sha1 hmac x key)" for x
    by (auto simp: calculate_hmac_sha1_def split: option.splits)
  then show ?thesis
    using bounds True write_length_signed [of a data] unfolding verify_stun_message_integrity_def h f
    by (auto simp: Let_def subspan_def intro!: fault_free_bindE simp del: of_nat_add)
next
  case False
  have "fault_free (find_message_integrity_attribute data)" if v: "validate_stun_header data = Inr ()"
  proof -
    obtain n where "20 \<le> length data" "read_u16 data 2 = Inr n" "length data = 20 + unat n"
      by (rule validate_stun_headerD [OF v])
    then show ?thesis by (simp add: find_message_integrity_attribute_def find_message_integrity_safe)
  qed
  then show ?thesis
    using False unfolding verify_stun_message_integrity_def
    by (auto intro!: fault_free_bindE validate_stun_header_safe)
qed

lemma verify_stun_fingerprint_safe [safe]: "fault_free (verify_stun_fingerprint data)"
proof -
  have "fault_free (find_fingerprint_attribute data)" if v: "validate_stun_header data = Inr ()"
  proof -
    obtain n where "20 \<le> length data" "read_u16 data 2 = Inr n" "length data = 20 + unat n"
      by (rule validate_stun_headerD [OF v])
    then show ?thesis by (simp add: find_fingerprint_attribute_def find_fingerprint_safe)
  qed
  moreover have "a \<le> length data"
    if v: "validate_stun_header data = Inr ()" and f: "find_fingerprint_attribute data = Inr (a, b, e)" for a b e
  proof -
    obtain n where "20 \<le> length data" "read_u16 data 2 = Inr n" "length data = 20 + unat n"
      by (rule validate_stun_headerD [OF v])
    then show ?thesis
      using f find_fingerprint_offset [of data "20 + unat n" 20 a b e] by (simp add: find_fingerprint_attribute_def)
  qed
  ultimately show ?thesis
    unfolding verify_stun_fingerprint_def
    by (auto intro!: fault_free_bindE validate_stun_header_safe)
qed

section \<open>The checksum\<close>

lemma xor_right_cancel: "x XOR k = y XOR k \<longleftrightarrow> x = y" for x y k :: "'a::len word"
proof
  assume "x XOR k = y XOR k"
  then have "(x XOR k) XOR k = (y XOR k) XOR k" by simp
  then show "x = y" by (simp add: xor.assoc)
qed simp

lemma crc_bit_inj: "inj crc_bit"
proof (rule injI)
  fix x y assume eq: "crc_bit x = crc_bit y"
  have top: "bit (crc_bit z) 31 = bit z 0" for z
  proof -
    have "bit (0xEDB88320 :: u32) 31" by code_simp
    moreover have "\<not> bit z 32" using bit_imp_le_length [of z 32] by auto
    ultimately show ?thesis by (auto simp: crc_bit_def bit_simps and_one_eq even_iff_mod_2_eq_zero bit_0 odd_iff_mod_2_eq_one)
  qed
  then have low: "bit x 0 = bit y 0" using eq by metis
  then have "(x AND 1 \<noteq> 0) = (y AND 1 \<noteq> 0)"
    by (simp add: and_one_eq bit_0 odd_iff_mod_2_eq_one even_iff_mod_2_eq_zero)
  then have "drop_bit 1 x = drop_bit 1 y"
    using eq by (auto simp: crc_bit_def xor_right_cancel split: if_splits)
  then have "bit x (Suc n) = bit y (Suc n)" for n using bit_drop_bit_eq [of 1 x] bit_drop_bit_eq [of 1 y] by (metis comp_def plus_1_eq_Suc)
  then show "x = y" using low by (metis bit_word_eqI not0_implies_Suc)
qed

lemma ucast_ucast_id_u8: "ucast (ucast b :: u32) = b" for b :: u8
  by (rule bit_word_eqI) (simp add: bit_simps)

lemma crc_byte_inj: "crc_byte b c = crc_byte b' c \<longleftrightarrow> b = b'" "crc_byte b c = crc_byte b c' \<longleftrightarrow> c = c'"
proof -
  have inj: "inj (crc_bit ^^ 8)" by (rule inj_fn [OF crc_bit_inj])
  have "(ucast b :: u32) = ucast b' \<longleftrightarrow> b = b'"
    by (metis ucast_ucast_id_u8)
  then have "(c XOR ucast b = c XOR ucast b') = (b = b')"
    by (simp add: xor.commute [of c] xor_right_cancel)
  then show "crc_byte b c = crc_byte b' c \<longleftrightarrow> b = b'" using inj by (simp add: crc_byte_def inj_eq)
  have "(c XOR ucast b = c' XOR ucast b) = (c = c')" by (rule xor_right_cancel)
  then show "crc_byte b c = crc_byte b c' \<longleftrightarrow> c = c'" using inj by (simp add: crc_byte_def inj_eq)
qed

lemma crc_fold_inj: "fold crc_byte bs c = fold crc_byte bs c' \<longleftrightarrow> c = c'"
  by (induction bs arbitrary: c c') (simp_all add: crc_byte_inj)

section \<open>The properties\<close>

text \<open>
  The checksum behind FINGERPRINT detects every corruption of a single byte: two inputs that
  differ in one byte, at any place, have different checksums.
\<close>

theorem crc32_detects_byte_error:
  "calculate_crc32 (xs @ b # ys) = calculate_crc32 (xs @ c # ys) \<longleftrightarrow> b = c"
  by (simp add: calculate_crc32_def xor_right_cancel crc_fold_inj crc_byte_inj)

text \<open>
  A binding success response that is written passes the checks of its receiver: FINGERPRINT and
  MESSAGE-INTEGRITY verify under the key, whatever the HMAC function is; the parser reads a
  binding success response with the transaction id of the request; and the XOR-MAPPED-ADDRESS it
  carries decodes to the address and port that were asked for, in IPv4 and IPv6.
\<close>

theorem stun_response_round_trip:
  assumes "write_stun_binding_success_response hmac pton4 pton6 req ip port key = Inr packet"
    and "length (transaction_id req) = 12"
    and "inet_pton_sizes pton4 pton6"
  shows "verify_stun_fingerprint packet = Inr () \<and> verify_stun_message_integrity hmac packet key = Inr ()
    \<and> parse_stun_message packet =
      Inr (empty_stun_message\<lparr>stun_method_of := binding, message_class := success_response,
        transaction_id := transaction_id req, has_message_integrity := True, has_fingerprint := True\<rparr>)
    \<and> (\<exists>parsed v rest. parse_ip_address pton4 pton6 ip = Inr parsed
        \<and> drop 20 packet = attribute_bytes kStunAttributeXorMappedAddress v @ rest
        \<and> xor_mapped_address (transaction_id req) v = (if is_ipv6 parsed then 2 else 1, port, address_bytes parsed))"
proof -
  let ?tid = "transaction_id req"
  obtain v digest where v: "make_xor_mapped_address_value pton4 pton6 ip port ?tid = Inr v"
    "length v = 8 \<or> length v = 20" and key: "key \<noteq> []" "length key \<le> 2147483647"
    and d: "hmac key (response_prefix 24 ?tid v) = Some digest" "length digest = 20"
    and p: "packet = response_bytes ?tid v digest"
    by (rule write_response_layout [OF assms])
  obtain parsed where parsed: "parse_ip_address pton4 pton6 ip = Inr parsed"
    "xor_mapped_address ?tid v = (if is_ipv6 parsed then 2 else 1, port, address_bytes parsed)"
    "validate_address_attribute_value v = Inr ()"
    using xor_address_decodes [OF v(1) assms(2,3)] by blast
  have "drop 20 packet = attribute_bytes kStunAttributeXorMappedAddress v
      @ attribute_bytes kStunAttributeMessageIntegrity digest
      @ drop (20 + length (attribute_bytes kStunAttributeXorMappedAddress v) + 24) packet"
    unfolding p response_facts(1) [OF assms(2) v(2) d(2)]
    using response_facts(3,4) [OF assms(2) v(2) d(2)] by (simp del: attribute_length)
  then show ?thesis
    using response_verifies [OF assms(2) v(2) d(2)] d(1) key parsed unfolding p by blast
qed

definition sample_request :: stun_message where
  "sample_request = empty_stun_message\<lparr>stun_method_of := binding, message_class := request,
     transaction_id := [1, 2, 3, 4, 5, 6, 7, 8, 9, 10, 11, 12]\<rparr>"

definition sample_pton4 :: "string \<Rightarrow> bytes option" where
  "sample_pton4 t = (if t = ''10.0.0.7'' then Some [10, 0, 0, 7] else None)"

definition sample_hmac :: "string \<Rightarrow> bytes \<Rightarrow> bytes option" where
  "sample_hmac key input = Some (take 20 (input @ replicate 20 0))"

theorem stun_response_round_trip_witness:
  "\<exists>packet. write_stun_binding_success_response sample_hmac sample_pton4 (\<lambda>_. None) sample_request
      ''10.0.0.7'' 5000 ''secret'' = Inr packet
    \<and> verify_stun_fingerprint packet = Inr () \<and> verify_stun_message_integrity sample_hmac packet ''secret'' = Inr ()"
proof -
  have "ok (write_stun_binding_success_response sample_hmac sample_pton4 (\<lambda>_. None) sample_request
      ''10.0.0.7'' 5000 ''secret'')"
    by (simp add: write_stun_binding_success_response_def validate_binding_request_def sample_request_def
        validate_binding_success_response_def make_xor_mapped_address_value_def parse_ip_address_def c_str_def
        sample_pton4_def append_attribute_def make_stun_header_def set_stun_message_length_def padding_size_def
        append_message_integrity_def append_fingerprint_def calculate_hmac_sha1_def sample_hmac_def Let_def
        u16f.wr_bytes u32f.wr_bytes write_bytes_def)
  then obtain packet where p: "write_stun_binding_success_response sample_hmac sample_pton4 (\<lambda>_. None) sample_request
      ''10.0.0.7'' 5000 ''secret'' = Inr packet"
    by (auto simp: ok_iff)
  have "inet_pton_sizes sample_pton4 (\<lambda>_. None)"
    by (auto simp: inet_pton_sizes_def sample_pton4_def split: if_splits)
  then show ?thesis
    using p stun_response_round_trip [OF p] by (simp add: sample_request_def)
qed

end
