(* ===== verification/Text.thy ===== *)
theory Text
  imports Prelude "HOL-Library.Char_ord"
begin

text \<open>
  Text helpers shared by the ICE, SDP and HTTP parts: \<^verbatim>\<open>std::string\<close> is a list of characters, and
  the character classes are those of \<^verbatim>\<open><cctype>\<close> in the C locale, on the byte value of a character.
\<close>

definition is_digit :: "char \<Rightarrow> bool" where
  "is_digit c \<longleftrightarrow> 48 \<le> (of_char c :: nat) \<and> (of_char c :: nat) \<le> 57"

definition is_upper :: "char \<Rightarrow> bool" where
  "is_upper c \<longleftrightarrow> 65 \<le> (of_char c :: nat) \<and> (of_char c :: nat) \<le> 90"

definition is_lower :: "char \<Rightarrow> bool" where
  "is_lower c \<longleftrightarrow> 97 \<le> (of_char c :: nat) \<and> (of_char c :: nat) \<le> 122"

definition is_alnum :: "char \<Rightarrow> bool" where
  "is_alnum c \<longleftrightarrow> is_digit c \<or> is_upper c \<or> is_lower c"

text \<open>\<^verbatim>\<open>find\<close> of a character: the text before its first occurrence and the text behind it.\<close>

definition split_first :: "char \<Rightarrow> string \<Rightarrow> (string \<times> string) option" where
  "split_first c s =
     (let before = takeWhile (\<lambda>x. x \<noteq> c) s in
      if length before = length s then None else Some (before, drop (Suc (length before)) s))"

lemma split_first_Some:
  "split_first c s = Some (a, b) \<longleftrightarrow> s = a @ c # b \<and> c \<notin> set a"
proof
  assume "split_first c s = Some (a, b)"
  then have a: "a = takeWhile (\<lambda>x. x \<noteq> c) s" and b: "b = drop (Suc (length a)) s" and ne: "length a \<noteq> length s"
    by (auto simp: split_first_def Let_def split: if_splits)
  have "s = a @ dropWhile (\<lambda>x. x \<noteq> c) s" unfolding a by simp
  moreover from this ne obtain d ds where dw: "dropWhile (\<lambda>x. x \<noteq> c) s = d # ds"
    by (cases "dropWhile (\<lambda>x. x \<noteq> c) s") auto
  moreover from dw have "d = c" by (metis (mono_tags, lifting) hd_dropWhile list.distinct(1) list.sel(1))
  ultimately have "s = a @ c # ds" by simp
  moreover have "c \<notin> set a" unfolding a using set_takeWhileD by fastforce
  ultimately show "s = a @ c # b \<and> c \<notin> set a" unfolding b by auto
next
  assume s: "s = a @ c # b \<and> c \<notin> set a"
  then have "takeWhile (\<lambda>x. x \<noteq> c) s = a" by (auto intro: takeWhile_tail takeWhile_append2 simp: takeWhile_append)
  then show "split_first c s = Some (a, b)" using s by (simp add: split_first_def)
qed

lemma split_first_None: "split_first c s = None \<longleftrightarrow> c \<notin> set s"
proof
  assume "split_first c s = None"
  then have "length (takeWhile (\<lambda>x. x \<noteq> c) s) = length s"
    by (simp add: split_first_def Let_def split: if_splits)
  then have "takeWhile (\<lambda>x. x \<noteq> c) s = s" using takeWhile_eq_take [of "\<lambda>x. x \<noteq> c" s] by simp
  then show "c \<notin> set s" by (auto simp: takeWhile_eq_all_conv)
next
  assume "c \<notin> set s"
  then have "takeWhile (\<lambda>x. x \<noteq> c) s = s" by (auto simp: takeWhile_eq_all_conv)
  then show "split_first c s = None" by (simp only: split_first_def Let_def simp_thms if_True)
qed

end
