(* ===== verification/Ice_Username.thy ===== *)
theory Ice_Username
  imports Stun_Message Text
begin

text \<open>
  ICE user names and credentials (\<^verbatim>\<open>src/ice/ice_username.cpp\<close>, \<^verbatim>\<open>src/ice/ice_credentials.cpp\<close>).
  OpenSSL's \<^verbatim>\<open>RAND_bytes\<close> is the list of its results to come: a byte, or \<open>None\<close> for a failed call.
  The rejection loop of the credential generator may draw any number of bytes, so the generator
  returns \<open>None\<close> when the list is used up before it is done.
\<close>

section \<open>User names\<close>

record ice_username_parts =
  recipient_ufrag :: string
  sender_ufrag :: string

abbreviation (input) k_max_ice_username_fragment_size :: nat where "k_max_ice_username_fragment_size \<equiv> 256"
abbreviation (input) k_max_ice_username_size :: nat where "k_max_ice_username_size \<equiv> 513"

definition make_field_error :: "string \<Rightarrow> string \<Rightarrow> 'a result" where
  "make_field_error field message = make_error (field @ '' '' @ message)"

definition is_valid_ice_username_character :: "char \<Rightarrow> bool" where
  "is_valid_ice_username_character c \<longleftrightarrow> is_alnum c \<or> c = CHR ''+'' \<or> c = CHR ''/''"

definition validate_ice_username_fragment :: "string \<Rightarrow> string \<Rightarrow> unit result" where
  "validate_ice_username_fragment fragment field_name =
     (if fragment = [] then make_field_error field_name ''is empty''
      else if length fragment > k_max_ice_username_fragment_size then make_field_error field_name ''is too large''
      else if list_ex (\<lambda>c. \<not> is_valid_ice_username_character c) fragment
      then make_field_error field_name ''contains invalid characters''
      else Inr ())"

definition parse_ice_username :: "string \<Rightarrow> ice_username_parts result" where
  "parse_ice_username name =
     (if name = [] then make_error ''ice username is empty''
      else if length name > k_max_ice_username_size then make_error ''ice username is too large''
      else case split_first (CHR '':'') name of
        None \<Rightarrow> make_error ''ice username separator is missing''
      | Some (recipient, sender) \<Rightarrow>
          if CHR '':'' \<in> set sender then make_error ''ice username contains multiple separators''
          else bindE (validate_ice_username_fragment recipient ''ice username recipient ufrag'') (\<lambda>_.
            bindE (validate_ice_username_fragment sender ''ice username sender ufrag'') (\<lambda>_.
            Inr \<lparr>recipient_ufrag = recipient, sender_ufrag = sender\<rparr>)))"

definition validate_ice_connectivity_check :: "stun_message \<Rightarrow> unit result" where
  "validate_ice_connectivity_check message =
     (case priority message of
        None \<Rightarrow> make_error ''ice connectivity check missing priority''
      | Some p \<Rightarrow>
          if p = 0 then make_error ''ice connectivity check priority is zero''
          else if \<not> has_ice_controlling message then make_error ''ice-lite connectivity check missing ice-controlling''
          else if has_ice_controlled message then make_error ''ice-lite connectivity check contains ice-controlled''
          else Inr ())"

section \<open>Credentials\<close>

record ice_credentials =
  ufrag :: string
  pwd :: string

abbreviation (input) k_ice_ufrag_length :: nat where "k_ice_ufrag_length \<equiv> 16"
abbreviation (input) k_ice_pwd_length :: nat where "k_ice_pwd_length \<equiv> 32"

definition k_ice_credential_alphabet :: string where
  "k_ice_credential_alphabet = ''abcdefghijklmnopqrstuvwxyzABCDEFGHIJKLMNOPQRSTUVWXYZ0123456789''"

fun append_random_credential_char :: "u8 option list \<Rightarrow> string \<Rightarrow> (string \<times> u8 option list) result option" where
  "append_random_credential_char [] value = None"
| "append_random_credential_char (None # draws) value =
     Some (make_error ''generate secure random bytes failed'')"
| "append_random_credential_char (Some random_byte # draws) value =
     (let n = length k_ice_credential_alphabet in
      if unat random_byte \<ge> 256 - 256 mod n then append_random_credential_char draws value
      else Some (Inr (value @ [k_ice_credential_alphabet ! (unat random_byte mod n)], draws)))"

text \<open>The loop of \<^verbatim>\<open>generate_random_text\<close>, over the number of characters still missing.\<close>

fun random_text_loop :: "nat \<Rightarrow> u8 option list \<Rightarrow> string \<Rightarrow> (string \<times> u8 option list) result option" where
  "random_text_loop 0 draws value = Some (Inr (value, draws))"
| "random_text_loop (Suc missing) draws value =
     (case append_random_credential_char draws value of
        None \<Rightarrow> None
      | Some (Inl e) \<Rightarrow> Some (Inl e)
      | Some (Inr (value, draws)) \<Rightarrow> random_text_loop missing draws value)"

definition generate_random_text :: "nat \<Rightarrow> u8 option list \<Rightarrow> (string \<times> u8 option list) result option" where
  "generate_random_text len draws =
     (if len = 0 then Some (make_error ''random text length is zero'') else random_text_loop len draws [])"

definition generate_ice_credentials :: "u8 option list \<Rightarrow> ice_credentials result option" where
  "generate_ice_credentials draws =
     (case generate_random_text k_ice_ufrag_length draws of
        None \<Rightarrow> None
      | Some (Inl e) \<Rightarrow> Some (Inl e)
      | Some (Inr (u, draws)) \<Rightarrow>
          (case generate_random_text k_ice_pwd_length draws of
             None \<Rightarrow> None
           | Some (Inl e) \<Rightarrow> Some (Inl e)
           | Some (Inr (p, draws)) \<Rightarrow> Some (Inr \<lparr>ufrag = u, pwd = p\<rparr>)))"

section \<open>Lemmas\<close>

definition valid_ufrag :: "string \<Rightarrow> bool" where
  "valid_ufrag f \<longleftrightarrow> f \<noteq> [] \<and> length f \<le> 256 \<and> list_all is_valid_ice_username_character f"

lemma validate_fragment_iff: "validate_ice_username_fragment f field = Inr () \<longleftrightarrow> valid_ufrag f"
  by (auto simp: validate_ice_username_fragment_def valid_ufrag_def make_field_error_def make_error_def
      list_all_iff list_ex_iff)

lemma colon_not_valid: "\<not> is_valid_ice_username_character (CHR '':'')"
  by code_simp

lemma valid_ufrag_no_colon: "valid_ufrag f \<Longrightarrow> CHR '':'' \<notin> set f"
  using colon_not_valid by (auto simp: valid_ufrag_def list_all_iff)

lemma parse_ice_username_iff:
  "parse_ice_username name = Inr \<lparr>recipient_ufrag = r, sender_ufrag = s\<rparr> \<longleftrightarrow>
     name = r @ '':'' @ s \<and> valid_ufrag r \<and> valid_ufrag s"
proof
  assume "parse_ice_username name = Inr \<lparr>recipient_ufrag = r, sender_ufrag = s\<rparr>"
  then show "name = r @ '':'' @ s \<and> valid_ufrag r \<and> valid_ufrag s"
    by (auto simp: parse_ice_username_def make_error_def bindE_Inr_iff validate_fragment_iff
        split_first_Some split: if_splits option.splits)
next
  assume a: "name = r @ '':'' @ s \<and> valid_ufrag r \<and> valid_ufrag s"
  then have "split_first (CHR '':'') name = Some (r, s)"
    using valid_ufrag_no_colon by (simp add: split_first_Some)
  then show "parse_ice_username name = Inr \<lparr>recipient_ufrag = r, sender_ufrag = s\<rparr>"
    using a valid_ufrag_no_colon [of s] validate_fragment_iff [of r] validate_fragment_iff [of s]
    by (auto simp: parse_ice_username_def valid_ufrag_def)
qed

lemma random_char:
  assumes "append_random_credential_char draws v = Some (Inr (v', rest))"
  shows "\<exists>c \<in> set k_ice_credential_alphabet. v' = v @ [c]"
  using assms
proof (induction draws v rule: append_random_credential_char.induct)
  case (3 b draws v)
  have "unat b mod length k_ice_credential_alphabet < length k_ice_credential_alphabet"
    by (rule mod_less_divisor) (simp add: k_ice_credential_alphabet_def)
  then show ?case using 3 by (auto simp: Let_def split: if_splits)
qed (auto simp: make_error_def)

lemma random_text:
  "random_text_loop n draws v = Some (Inr (v', rest)) \<Longrightarrow>
     \<exists>t. v' = v @ t \<and> length t = n \<and> set t \<subseteq> set k_ice_credential_alphabet"
proof (induction n draws v rule: random_text_loop.induct)
  case (2 n draws v)
  then obtain w d where w: "append_random_credential_char draws v = Some (Inr (w, d))"
    and r: "random_text_loop n d w = Some (Inr (v', rest))"
    by (auto split: option.splits sum.splits)
  obtain c where c: "c \<in> set k_ice_credential_alphabet" "w = v @ [c]" using random_char [OF w] by blast
  obtain t where "v' = w @ t" "length t = n" "set t \<subseteq> set k_ice_credential_alphabet"
    using "2.IH" [OF w refl refl r] by blast
  then show ?case using c by (intro exI [of _ "c # t"]) auto
qed auto

lemma alphabet_valid: "list_all is_valid_ice_username_character k_ice_credential_alphabet"
  by code_simp

section \<open>The properties\<close>

text \<open>
  An ICE user name is accepted exactly when it is two valid user fragments, of one to 256
  letters, digits, plus signs and slashes, joined by a colon, and it is split at that colon.
\<close>

theorem ice_username_round_trip:
  "parse_ice_username name = Inr \<lparr>recipient_ufrag = r, sender_ufrag = s\<rparr> \<longleftrightarrow>
     name = r @ '':'' @ s \<and> valid_ufrag r \<and> valid_ufrag s"
  by (rule parse_ice_username_iff)

text \<open>
  Generated credentials are usable: the user fragment has 16 and the password 32 characters of
  the alphabet, and a generated fragment with any valid remote fragment is a user name the
  parser accepts.
\<close>

theorem credentials_well_formed:
  assumes "generate_ice_credentials draws = Some (Inr credentials)" and "valid_ufrag remote"
  shows "length (ufrag credentials) = 16 \<and> length (pwd credentials) = 32
    \<and> set (ufrag credentials @ pwd credentials) \<subseteq> set k_ice_credential_alphabet
    \<and> parse_ice_username (ufrag credentials @ '':'' @ remote) =
        Inr \<lparr>recipient_ufrag = ufrag credentials, sender_ufrag = remote\<rparr>"
proof -
  from assms(1) obtain u p d d' where u: "random_text_loop 16 draws [] = Some (Inr (u, d))"
    and p: "random_text_loop 32 d [] = Some (Inr (p, d'))" and c: "credentials = \<lparr>ufrag = u, pwd = p\<rparr>"
    by (auto simp: generate_ice_credentials_def generate_random_text_def simp del: random_text_loop.simps
        split: option.splits sum.splits)
  have "length u = 16" "set u \<subseteq> set k_ice_credential_alphabet" "length p = 32" "set p \<subseteq> set k_ice_credential_alphabet"
    using random_text [OF u] random_text [OF p] by auto
  moreover from this alphabet_valid have "valid_ufrag u" by (auto simp: valid_ufrag_def list_all_iff)
  ultimately show ?thesis using assms(2) unfolding parse_ice_username_iff c by auto
qed

theorem credentials_well_formed_witness:
  "\<exists>c. generate_ice_credentials (replicate 60 (Some 255) @ replicate 48 (Some 5)) = Some (Inr c)
    \<and> length (pwd c) = 32"
proof -
  have "generate_ice_credentials (replicate 60 (Some 255) @ replicate 48 (Some 5)) =
      Some (Inr \<lparr>ufrag = replicate 16 (CHR ''f''), pwd = replicate 32 (CHR ''f'')\<rparr>)"
    by code_simp
  moreover have "valid_ufrag ''remote''" by code_simp
  ultimately show ?thesis using credentials_well_formed by blast
qed

end
