(* ===== verification/Session_Stun_Binding.thy ===== *)
theory Session_Stun_Binding
  imports Ice_Username
begin

unbundle bit_operations_syntax

text \<open>
  How a session answers STUN connectivity checks (\<^verbatim>\<open>src/session/session_stun_binding.cpp\<close>), the only
  way a remote endpoint is admitted. An endpoint is its address as text, which the system's
  \<^verbatim>\<open>inet_ntop\<close> makes and which is empty when that fails, and its port; log output is not modelled.
\<close>

section \<open>Data and operations\<close>

record udp_endpoint =
  endpoint_ip :: string
  endpoint_port :: u16

record session_udp_outbound_packet =
  outbound_data :: bytes
  outbound_remote :: udp_endpoint

record session_stun_binding_context =
  local_ice_ufrag :: string
  local_ice_pwd :: string
  remote_ice_ufrag :: string

record session_stun_binding_result =
  handled :: bool
  nominated :: bool
  binding_response :: "session_udp_outbound_packet option"

definition ice_username_matches_session :: "ice_username_parts \<Rightarrow> session_stun_binding_context \<Rightarrow> bool" where
  "ice_username_matches_session name context \<longleftrightarrow>
     recipient_ufrag name = local_ice_ufrag context \<and> sender_ufrag name = remote_ice_ufrag context"

definition make_stun_binding_response ::
  "(string \<Rightarrow> bytes \<Rightarrow> bytes option) \<Rightarrow> (string \<Rightarrow> bytes option) \<Rightarrow> (string \<Rightarrow> bytes option) \<Rightarrow>
     stun_message \<Rightarrow> udp_endpoint \<Rightarrow> session_stun_binding_context \<Rightarrow> session_udp_outbound_packet option" where
  "make_stun_binding_response hmac pton4 pton6 req remote context =
     (let remote_ip = endpoint_ip remote in
      if remote_ip = [] then None
      else case write_stun_binding_success_response hmac pton4 pton6 req remote_ip (endpoint_port remote)
                  (local_ice_pwd context) of
        Inl _ \<Rightarrow> None
      | Inr response \<Rightarrow> Some \<lparr>outbound_data = response, outbound_remote = remote\<rparr>)"

definition handle_session_stun_binding ::
  "(string \<Rightarrow> bytes \<Rightarrow> bytes option) \<Rightarrow> (string \<Rightarrow> bytes option) \<Rightarrow> (string \<Rightarrow> bytes option) \<Rightarrow>
     bytes \<Rightarrow> udp_endpoint \<Rightarrow> session_stun_binding_context \<Rightarrow> session_stun_binding_result" where
  "handle_session_stun_binding hmac pton4 pton6 data remote context =
     (let result = \<lparr>handled = False, nominated = False, binding_response = None\<rparr> in
      if is_stun_packet data \<noteq> Inr True then result
      else let result = result\<lparr>handled := True\<rparr> in
      case parse_stun_message data of
        Inl _ \<Rightarrow> result
      | Inr message \<Rightarrow>
          if stun_method_of message \<noteq> binding \<or> message_class message \<noteq> request then result
          else case username message of
            None \<Rightarrow> result
          | Some text \<Rightarrow>
              if \<not> ok (validate_ice_connectivity_check message) then result
              else case parse_ice_username text of
                Inl _ \<Rightarrow> result
              | Inr name \<Rightarrow>
                  if \<not> ice_username_matches_session name context then result
                  else if local_ice_pwd context = [] then result
                  else if \<not> has_message_integrity message then result
                  else if \<not> ok (verify_stun_message_integrity hmac data (local_ice_pwd context)) then result
                  else if has_fingerprint message \<and> \<not> ok (verify_stun_fingerprint data) then result
                  else let response = make_stun_binding_response hmac pton4 pton6 message remote context in
                    result\<lparr>binding_response := response,
                           nominated := response \<noteq> None \<and> has_use_candidate message\<rparr>)"

section \<open>Acceptance\<close>

lemma handle_accepts:
  assumes "binding_response (handle_session_stun_binding hmac pton4 pton6 data remote context) = Some packet"
  obtains m where "is_stun_packet data = Inr True" "parse_stun_message data = Inr m"
    "stun_method_of m = binding" "message_class m = request"
    "username m = Some (local_ice_ufrag context @ '':'' @ remote_ice_ufrag context)"
    "ok (validate_ice_connectivity_check m)"
    "verify_stun_message_integrity hmac data (local_ice_pwd context) = Inr ()" "has_message_integrity m"
    "has_fingerprint m \<Longrightarrow> verify_stun_fingerprint data = Inr ()"
    "make_stun_binding_response hmac pton4 pton6 m remote context = Some packet"
    "handle_session_stun_binding hmac pton4 pton6 data remote context =
       \<lparr>handled = True, nominated = has_use_candidate m, binding_response = Some packet\<rparr>"
proof -
  let ?h = "handle_session_stun_binding hmac pton4 pton6 data remote context"
  from assms obtain m un nm where m: "is_stun_packet data = Inr True" "parse_stun_message data = Inr m"
      "stun_method_of m = binding" "message_class m = request" "username m = Some un"
      "ok (validate_ice_connectivity_check m)" "parse_ice_username un = Inr nm"
      "ice_username_matches_session nm context" "local_ice_pwd context \<noteq> []" "has_message_integrity m"
      "ok (verify_stun_message_integrity hmac data (local_ice_pwd context))"
      "\<not> (has_fingerprint m \<and> \<not> ok (verify_stun_fingerprint data))"
      "make_stun_binding_response hmac pton4 pton6 m remote context = Some packet"
    unfolding handle_session_stun_binding_def Let_def
    by (simp split: if_splits sum.splits option.splits)
  obtain r s where name: "nm = \<lparr>recipient_ufrag = r, sender_ufrag = s\<rparr>" by (cases nm)
  have "un = local_ice_ufrag context @ '':'' @ remote_ice_ufrag context"
    using m(7,8) unfolding name parse_ice_username_iff by (simp add: ice_username_matches_session_def)
  moreover have "?h = \<lparr>handled = True, nominated = has_use_candidate m, binding_response = Some packet\<rparr>"
    unfolding handle_session_stun_binding_def Let_def using m by simp
  moreover have "verify_stun_message_integrity hmac data (local_ice_pwd context) = Inr ()"
    "has_fingerprint m \<Longrightarrow> verify_stun_fingerprint data = Inr ()"
    using m(11,12) by (auto simp: ok_iff)
  ultimately show thesis using that m by simp
qed

lemma handle_username:
  assumes "binding_response (handle_session_stun_binding hmac pton4 pton6 data remote context) = Some packet"
  shows "parse_ice_username (local_ice_ufrag context @ '':'' @ remote_ice_ufrag context) =
    Inr \<lparr>recipient_ufrag = local_ice_ufrag context, sender_ufrag = remote_ice_ufrag context\<rparr>"
proof -
  from assms obtain un nm where nm: "parse_ice_username un = Inr nm" "ice_username_matches_session nm context"
    unfolding handle_session_stun_binding_def Let_def
    by (auto split: if_splits sum.splits option.splits)
  moreover obtain r s where "nm = \<lparr>recipient_ufrag = r, sender_ufrag = s\<rparr>" by (cases nm)
  ultimately have "parse_ice_username un =
      Inr \<lparr>recipient_ufrag = local_ice_ufrag context, sender_ufrag = remote_ice_ufrag context\<rparr>"
    by (simp add: ice_username_matches_session_def)
  then show ?thesis by (simp add: parse_ice_username_iff)
qed

lemma parse_transaction_id:
  assumes "parse_stun_message data = Inr m"
  shows "length (transaction_id m) = 12"
proof -
  have keep: "transaction_id m' = transaction_id m" if "parse_attributes data bound offset m = Inr m'" for bound offset m m'
    using that
  proof (induction data bound offset m rule: parse_attributes.induct)
    case (1 data bound offset m)
    show ?case
    proof (cases "offset < bound")
      case True
      then obtain t len vo pe v m1 where r: "read_attribute data bound offset = Inr (t, len, vo, pe)"
        and v: "subspan data vo len = Inr v" and m1: "decode_known_attribute m t v = Inr m1"
        and rest: "parse_attributes data bound pe m1 = Inr m'"
        using "1.prems" by (subst (asm) parse_attributes.simps) (auto simp: bindE_Inr_iff)
      have "transaction_id m1 = transaction_id m"
        using m1 by (auto simp: decode_known_attribute_def bindE_Inr_iff make_error_def split: if_splits)
      then show ?thesis using "1.IH" [OF True r refl refl refl v m1 rest] by simp
    qed (use "1.prems" parse_attributes.simps [of data bound offset m] in auto)
  qed
  have "\<exists>tid. transaction_id m = tid \<and> subspan data 8 12 = Inr tid"
    using assms keep unfolding parse_stun_message_def bindE_Inr_iff by (fastforce simp del: access)
  then obtain tid where "transaction_id m = tid" "8 + 12 \<le> length data" "tid = take 12 (drop 8 data)"
    by (auto simp: subspan_def split: if_splits)
  then show ?thesis by simp
qed

lemma response_checks:
  assumes "write_stun_binding_success_response hmac pton4 pton6 req ip port key = Inr packet"
    and "length (transaction_id req) = 12" and "inet_pton_sizes pton4 pton6"
  shows "verify_stun_message_integrity hmac packet key = Inr ()
    \<and> (\<exists>reply. parse_stun_message packet = Inr reply
        \<and> message_class reply = success_response \<and> transaction_id reply = transaction_id req)"
proof -
  let ?tid = "transaction_id req"
  obtain v digest where v: "make_xor_mapped_address_value pton4 pton6 ip port ?tid = Inr v"
    "length v = 8 \<or> length v = 20" and key: "key \<noteq> []" "length key \<le> 2147483647"
    and d: "hmac key (response_prefix 24 ?tid v) = Some digest" "length digest = 20"
    and p: "packet = response_bytes ?tid v digest"
    by (rule write_response_layout [OF assms])
  have "validate_address_attribute_value v = Inr ()" using xor_address_decodes [OF v(1) assms(2,3)] by blast
  then show ?thesis
    using response_verifies(2,3) [OF assms(2) v(2) d(2)] d(1) key unfolding p by simp
qed

section \<open>An attribute behind the message integrity\<close>

text \<open>
  What anyone on the path can do to a check: append USE-CANDIDATE and adjust the length field, which
  MESSAGE-INTEGRITY does not cover.
\<close>

definition append_use_candidate :: "bytes \<Rightarrow> bytes" where
  "append_use_candidate data =
     take 2 data @ enc_u16 (of_nat (length data - 20 + 4)) @ drop 4 data
     @ attribute_bytes kStunAttributeUseCandidate []"

lemma use_candidate_length [simp]: "4 \<le> length data \<Longrightarrow> length (append_use_candidate data) = length data + 4"
  by (simp add: append_use_candidate_def padding_size_def)

lemma read_u8_appended:
  assumes "4 \<le> i" and "i < length data"
  shows "read_u8 (append_use_candidate data) i = read_u8 data i"
proof -
  define p where "p = take 2 data @ enc_u16 (of_nat (length data - 20 + 4))"
  have p: "length p = 4" using assms by (simp add: p_def)
  have "append_use_candidate data = p @ drop 4 data @ attribute_bytes kStunAttributeUseCandidate []"
    by (simp add: append_use_candidate_def p_def)
  moreover have "i - 4 < length data - 4" using assms by arith
  ultimately have "append_use_candidate data ! i = data ! i"
    using assms p by (simp add: nth_append)
  then show ?thesis using assms by (simp add: read_u8_def)
qed

lemma read_attribute_appended:
  assumes "4 \<le> offset" and "read_attribute data (length data) offset = Inr r"
  shows "read_attribute (append_use_candidate data) (length data + 4) offset = Inr r"
proof -
  have "offset + 4 \<le> length data" using assms(2) by (auto simp: read_attribute_def make_error_def split: if_splits)
  then have same: "read_u16 (append_use_candidate data) offset = read_u16 data offset"
    "read_u16 (append_use_candidate data) (offset + 2) = read_u16 data (offset + 2)"
    using assms(1) by (simp_all add: read_u16_def read_u8_appended del: access)
  from assms(2) obtain t l where "read_u16 data offset = Inr t" "read_u16 data (offset + 2) = Inr l"
    "r = (t, unat l, offset + 4, offset + 4 + unat l + padding_size (unat l))"
    "offset + 4 + unat l + padding_size (unat l) \<le> length data"
    by (auto simp: read_attribute_def bindE_Inr_iff make_error_def Let_def simp del: access split: if_splits)
  then show ?thesis using same by (simp add: read_attribute_def Let_def del: access)
qed

lemma subspan_appended:
  assumes "4 \<le> i" and "i + n \<le> length data"
  shows "subspan (append_use_candidate data) i n = subspan data i n"
proof -
  have "take n (drop i (append_use_candidate data)) = take n (drop i data)"
    using assms by (simp add: append_use_candidate_def drop_append)
  then show ?thesis using assms by (simp add: subspan_def)
qed

lemma read_appended_attribute:
  assumes "20 \<le> length data"
  shows "read_attribute (append_use_candidate data) (length data + 4) (length data) =
    Inr (kStunAttributeUseCandidate, 0, length data + 4, length data + 4)"
proof -
  have "append_use_candidate data = (take 2 data @ enc_u16 (of_nat (length data - 20 + 4)) @ drop 4 data)
      @ attribute_bytes kStunAttributeUseCandidate [] @ []"
    by (simp add: append_use_candidate_def)
  then show ?thesis
    using read_attribute_enc [of "[]" "take 2 data @ enc_u16 (of_nat (length data - 20 + 4)) @ drop 4 data"
        "length data" kStunAttributeUseCandidate "length data + 4" "[]"] assms
    by (simp add: padding_size_def del: append_assoc of_nat_add)
qed

lemma parse_attributes_appended:
  "parse_attributes data bound offset m = Inr m' \<Longrightarrow> bound = length data \<Longrightarrow> 20 \<le> offset \<Longrightarrow> offset \<le> bound \<Longrightarrow>
     parse_attributes (append_use_candidate data) (bound + 4) offset m = Inr (m'\<lparr>has_use_candidate := True\<rparr>)"
proof (induction data bound offset m rule: parse_attributes.induct)
  case (1 data bound offset m)
  let ?d = "append_use_candidate data"
  show ?case
  proof (cases "offset < bound")
    case False
    then have "m' = m" "offset = bound" using "1.prems" parse_attributes.simps [of data bound offset m] by auto
    then show ?thesis
      using read_appended_attribute [of data] "1.prems"
      by (subst parse_attributes.simps)
        (simp add: subspan_def decode_known_attribute_def parse_attributes.simps [of ?d "length data + 4" "length data + 4"])
  next
    case True
    then obtain t len vo pe v m1 where r: "read_attribute data bound offset = Inr (t, len, vo, pe)"
      and v: "subspan data vo len = Inr v" and m1: "decode_known_attribute m t v = Inr m1"
      and rest: "parse_attributes data bound pe m1 = Inr m'"
      using "1.prems"(1) by (subst (asm) parse_attributes.simps) (auto simp: bindE_Inr_iff)
    note step = read_attribute_next [OF r]
    have "subspan ?d vo len = Inr v"
      using subspan_appended [of vo len data] v step "1.prems"(2,3) by simp
    moreover have "parse_attributes ?d (bound + 4) pe m1 = Inr (m'\<lparr>has_use_candidate := True\<rparr>)"
      using "1.IH" [OF True r refl refl refl v m1 rest] step "1.prems"(2,3) by simp
    moreover have "read_attribute ?d (bound + 4) offset = Inr (t, len, vo, pe)"
      using read_attribute_appended [of offset data] r "1.prems"(2,3) by simp
    ultimately show ?thesis
      using True m1 by (subst parse_attributes.simps) simp
  qed
qed

lemma find_integrity_appended:
  "find_message_integrity_loop data bound offset = Inr r \<Longrightarrow> bound = length data \<Longrightarrow> 20 \<le> offset \<Longrightarrow>
     find_message_integrity_loop (append_use_candidate data) (bound + 4) offset = Inr r"
proof (induction data bound offset rule: find_message_integrity_loop.induct)
  case (1 data bound offset)
  from "1.prems"(1) obtain t len vo pe where lt: "offset < bound"
    and r: "read_attribute data bound offset = Inr (t, len, vo, pe)"
    by (subst (asm) find_message_integrity_loop.simps) (auto simp: bindE_Inr_iff make_error_def split: if_splits)
  have r': "read_attribute (append_use_candidate data) (bound + 4) offset = Inr (t, len, vo, pe)"
    using read_attribute_appended [of offset data] r "1.prems"(2,3) by simp
  have "20 \<le> pe" using read_attribute_next [OF r] "1.prems"(3) by simp
  then show ?case
    using "1.prems"(1,2) "1.IH" [OF lt r refl refl refl] lt r r'
    by (subst find_message_integrity_loop.simps)
      (subst (asm) find_message_integrity_loop.simps, auto split: if_splits)
qed

lemma header_appended:
  assumes "validate_stun_header data = Inr ()" and "length data \<le> 65551"
  shows "read_u16 (append_use_candidate data) 2 = Inr (of_nat (length data - 20 + 4))"
    and "unat (of_nat (length data - 20 + 4) :: u16) = length data - 20 + 4"
    and "read_u16 (append_use_candidate data) 0 = read_u16 data 0"
    and "validate_stun_header (append_use_candidate data) = Inr ()"
    and "is_stun_packet (append_use_candidate data) = Inr True"
proof -
  let ?d = "append_use_candidate data"
  have len: "20 \<le> length data" using assms(1) by (auto elim: validate_stun_headerD)
  obtain n where n: "read_u16 data 2 = Inr n" "length data = 20 + unat n"
    using assms(1) by (auto elim: validate_stun_headerD)
  show r2: "read_u16 ?d 2 = Inr (of_nat (length data - 20 + 4))"
    unfolding append_use_candidate_def using len by (intro u16f.rd_at) simp_all
  show u: "unat (of_nat (length data - 20 + 4) :: u16) = length data - 20 + 4"
    using assms(2) by (intro unat_of_nat_u16) simp
  have low: "read_u8 ?d i = read_u8 data i" if "i < 2" for i
    using that len by (simp add: append_use_candidate_def read_u8_def nth_append)
  show "read_u16 ?d 0 = read_u16 data 0" by (simp add: read_u16_def low del: access)
  have r4: "read_u32 ?d 4 = read_u32 data 4" using len by (simp add: read_u32_def read_u8_appended del: access)
  have first: "\<exists>b. read_u8 data 0 = Inr b \<and> b AND 0xC0 = 0" and cookie: "read_u32 data 4 = Inr kStunMagicCookie"
    and aligned: "unat n mod 4 = 0"
    using assms(1) n(1)
    by (auto simp: validate_stun_header_def bindE_Inr_iff make_error_def Let_def simp del: access split: if_splits)
  have "(length data - 20 + 4) mod 4 = 0" using aligned n(2) by simp
  then show "validate_stun_header ?d = Inr ()" "is_stun_packet ?d = Inr True"
    using first cookie len r2 u r4 low [of 0]
    by (auto simp: validate_stun_header_def is_stun_packet_def Let_def simp del: access of_nat_add)
qed

lemma parse_appended:
  assumes "parse_stun_message data = Inr m" and "length data \<le> 65551"
  shows "parse_stun_message (append_use_candidate data) = Inr (m\<lparr>has_use_candidate := True\<rparr>)"
proof -
  let ?d = "append_use_candidate data"
  have v: "validate_stun_header data = Inr ()"
    using assms(1) by (auto simp: parse_stun_message_def bindE_Inr_iff)
  obtain n where n: "20 \<le> length data" "read_u16 data 2 = Inr n" "length data = 20 + unat n"
    using v by (auto elim: validate_stun_headerD)
  note h = header_appended [OF v assms(2)]
  obtain t tid where t: "read_u16 data 0 = Inr t" "subspan data 8 12 = Inr tid"
    and p: "parse_attributes data (length data) 20
      (empty_stun_message\<lparr>stun_method_of := make_stun_method (decode_method t),
        message_class := decode_message_class t, transaction_id := tid\<rparr>) = Inr m"
    using assms(1) v n by (auto simp: parse_stun_message_def bindE_Inr_iff simp del: access)
  have "subspan ?d 8 12 = Inr tid" using subspan_appended [of 8 12 data] n(1) t(2) by simp
  moreover have "20 + (length data - 20 + 4) = length data + 4" using n(1) by simp
  ultimately show ?thesis
    using h t(1) parse_attributes_appended [OF p refl _ n(1)] unfolding parse_stun_message_def
    by (simp add: add.commute del: access of_nat_add)
qed

lemma integrity_appended:
  assumes "verify_stun_message_integrity hmac data key = Inr ()" and "length data \<le> 65551"
  shows "verify_stun_message_integrity hmac (append_use_candidate data) key = Inr ()"
proof -
  let ?d = "append_use_candidate data"
  obtain a where v: "validate_stun_header data = Inr ()" and f: "find_message_integrity_attribute data = Inr (a, a + 4)"
    and a: "20 \<le> a" "a + 24 \<le> length data" and key: "key \<noteq> []" "length key \<le> 2147483647"
    and mac: "hmac key (signed_part data a) = Some (take 20 (drop (a + 4) data))"
    by (rule verify_integrityD [OF assms(1)])
  obtain n where n: "read_u16 data 2 = Inr n" "length data = 20 + unat n"
    using v by (auto elim: validate_stun_headerD)
  note h = header_appended [OF v assms(2)]
  have "20 + (length data - 20 + 4) = length data + 4" using a by simp
  then have f': "find_message_integrity_attribute ?d = Inr (a, a + 4)"
    using f n h(1,2) find_integrity_appended [of data "length data" 20]
    by (simp add: find_message_integrity_attribute_def del: of_nat_add access)
  have signed: "signed_part ?d a = signed_part data a"
    using a by (simp add: signed_part_def append_use_candidate_def take_append drop_take del: of_nat_add)
  have "take 20 (drop (a + 4) ?d) = take 20 (drop (a + 4) data)"
    using subspan_appended [of "a + 4" 20 data] a by (simp add: subspan_def)
  then show ?thesis
    using verify_integrity_iff [OF h(4) key f'] signed mac by simp
qed

section \<open>The properties\<close>

text \<open>A check that a session answers: user name, priority, controlling role and message integrity.\<close>

definition sample_check :: bytes where
  "sample_check =
     (let body = attribute_bytes kStunAttributeUsername (map (\<lambda>c. of_char c) ''abcd:wxyz'')
            @ attribute_bytes kStunAttributePriority (enc_u32 1)
            @ attribute_bytes kStunAttributeIceControlling (replicate 8 0);
          signed = stun_header_bytes 1 (length body + 24) (replicate 12 7) @ body in
      signed @ attribute_bytes kStunAttributeMessageIntegrity (the (sample_hmac ''secret'' signed)))"

definition sample_context :: session_stun_binding_context where
  "sample_context = \<lparr>local_ice_ufrag = ''abcd'', local_ice_pwd = ''secret'', remote_ice_ufrag = ''wxyz''\<rparr>"

definition sample_remote :: udp_endpoint where
  "sample_remote = \<lparr>endpoint_ip = ''10.0.0.7'', endpoint_port = 5000\<rparr>"

abbreviation (input) sample_result :: session_stun_binding_result where
  "sample_result \<equiv> handle_session_stun_binding sample_hmac sample_pton4 (\<lambda>_. None) sample_check sample_remote sample_context"

definition sample_message :: stun_message where
  "sample_message = empty_stun_message\<lparr>stun_method_of := binding, message_class := request,
     transaction_id := replicate 12 7, username := Some ''abcd:wxyz'', priority := Some 1,
     has_ice_controlling := True, has_message_integrity := True\<rparr>"

lemma sample_check_parsed: "parse_stun_message sample_check = Inr sample_message"
  by code_simp

lemma sample_check_small: "is_stun_packet sample_check = Inr True" "length sample_check \<le> 200"
  by code_simp+

lemma sample_check_authentic: "verify_stun_message_integrity sample_hmac sample_check ''secret'' = Inr ()"
proof -
  have header: "validate_stun_header sample_check = Inr ()"
    using sample_check_parsed by (auto simp: parse_stun_message_def bindE_Inr_iff)
  have "find_message_integrity_attribute sample_check = Inr (56, 60)" by code_simp
  moreover have "sample_hmac ''secret'' (signed_part sample_check 56) = Some (take 20 (drop (56 + 4) sample_check))"
    by code_simp
  ultimately show ?thesis using verify_integrity_iff [OF header, of "''secret''" 56 60 sample_hmac] by simp
qed

lemma sample_check_accepted:
  "\<exists>packet. sample_result = \<lparr>handled = True, nominated = False, binding_response = Some packet\<rparr>"
proof -
  have "ok (write_stun_binding_success_response sample_hmac sample_pton4 (\<lambda>_. None) sample_message
      ''10.0.0.7'' 5000 ''secret'')"
    by (simp add: write_stun_binding_success_response_def validate_binding_request_def sample_message_def
        validate_binding_success_response_def make_xor_mapped_address_value_def parse_ip_address_def c_str_def
        sample_pton4_def append_attribute_def make_stun_header_def set_stun_message_length_def padding_size_def
        append_message_integrity_def append_fingerprint_def calculate_hmac_sha1_def sample_hmac_def Let_def
        u16f.wr_bytes u32f.wr_bytes write_bytes_def)
  then obtain packet where "make_stun_binding_response sample_hmac sample_pton4 (\<lambda>_. None) sample_message
      sample_remote sample_context = Some packet"
    by (auto simp: make_stun_binding_response_def sample_remote_def sample_context_def ok_iff)
  moreover have "parse_ice_username ''abcd:wxyz'' = Inr \<lparr>recipient_ufrag = ''abcd'', sender_ufrag = ''wxyz''\<rparr>"
    unfolding parse_ice_username_iff by code_simp
  moreover have "ok (validate_ice_connectivity_check sample_message)" by code_simp
  ultimately show ?thesis
    using sample_check_small(1) sample_check_parsed sample_check_authentic
    by (simp add: handle_session_stun_binding_def ice_username_matches_session_def sample_context_def
        sample_message_def empty_stun_message_def Let_def)
qed

text \<open>
  C38. No binding response without the password: when a session answers a datagram, the datagram is
  a binding request whose user name is the session's two fragments joined by a colon, its priority
  is not zero, it comes from a controlling agent, and the bytes before its MESSAGE-INTEGRITY
  authenticate under the session's ICE password; the answer goes to the sender, carries the
  request's transaction id, and verifies under the same password.
\<close>

theorem stun_binding_authenticated:
  assumes "binding_response (handle_session_stun_binding hmac pton4 pton6 data remote context) = Some packet"
    and "inet_pton_sizes pton4 pton6"
  shows "\<exists>m a. parse_stun_message data = Inr m \<and> stun_method_of m = binding \<and> message_class m = request
    \<and> username m = Some (local_ice_ufrag context @ '':'' @ remote_ice_ufrag context)
    \<and> priority m \<noteq> None \<and> priority m \<noteq> Some 0 \<and> has_ice_controlling m \<and> \<not> has_ice_controlled m
    \<and> a + 24 \<le> length data
    \<and> hmac (local_ice_pwd context) (signed_part data a) = Some (take 20 (drop (a + 4) data))
    \<and> outbound_remote packet = remote
    \<and> verify_stun_message_integrity hmac (outbound_data packet) (local_ice_pwd context) = Inr ()
    \<and> (\<exists>reply. parse_stun_message (outbound_data packet) = Inr reply
        \<and> message_class reply = success_response \<and> transaction_id reply = transaction_id m)"
proof -
  obtain m where m: "parse_stun_message data = Inr m" "stun_method_of m = binding" "message_class m = request"
      "username m = Some (local_ice_ufrag context @ '':'' @ remote_ice_ufrag context)"
    and check: "ok (validate_ice_connectivity_check m)"
    and mac: "verify_stun_message_integrity hmac data (local_ice_pwd context) = Inr ()"
    and made: "make_stun_binding_response hmac pton4 pton6 m remote context = Some packet"
    by (rule handle_accepts [OF assms(1)])
  have fields: "priority m \<noteq> None" "priority m \<noteq> Some 0" "has_ice_controlling m" "\<not> has_ice_controlled m"
    using check by (auto simp: validate_ice_connectivity_check_def make_error_def split: option.splits if_splits)
  obtain a where a: "a + 24 \<le> length data"
      "hmac (local_ice_pwd context) (signed_part data a) = Some (take 20 (drop (a + 4) data))"
    using mac by (auto elim: verify_integrityD)
  have written: "write_stun_binding_success_response hmac pton4 pton6 m (endpoint_ip remote) (endpoint_port remote)
      (local_ice_pwd context) = Inr (outbound_data packet)" and to: "outbound_remote packet = remote"
    using made by (auto simp: make_stun_binding_response_def Let_def split: if_splits sum.splits)
  have tid: "length (transaction_id m) = 12" by (rule parse_transaction_id [OF m(1)])
  show ?thesis using m fields a to response_checks [OF written tid assms(2)] by blast
qed

theorem stun_binding_authenticated_witness:
  "\<exists>packet. binding_response sample_result = Some packet \<and> outbound_remote packet = sample_remote
    \<and> verify_stun_message_integrity sample_hmac (outbound_data packet) ''secret'' = Inr ()"
proof -
  obtain packet where p: "binding_response sample_result = Some packet" using sample_check_accepted by auto
  have "inet_pton_sizes sample_pton4 (\<lambda>_. None)"
    by (auto simp: inet_pton_sizes_def sample_pton4_def split: if_splits)
  from stun_binding_authenticated [OF p this] p show ?thesis by (auto simp: sample_context_def)
qed

text \<open>
  A nomination is not authenticated: take any datagram without FINGERPRINT that a session
  answers. The same datagram with USE-CANDIDATE appended behind its MESSAGE-INTEGRITY and the
  length field adjusted, which takes no password, is answered too, and it nominates the sender.
\<close>

theorem nomination_can_be_appended:
  assumes "handle_session_stun_binding hmac pton4 pton6 data remote context = result"
    and "binding_response result = Some packet" and "parse_stun_message data = Inr m" and "\<not> has_fingerprint m"
    and "length data \<le> 65551"
  shows "handle_session_stun_binding hmac pton4 pton6 (append_use_candidate data) remote context =
    result\<lparr>nominated := True\<rparr>"
proof -
  let ?d = "append_use_candidate data" and ?m = "m\<lparr>has_use_candidate := True\<rparr>"
  have acc: "binding_response (handle_session_stun_binding hmac pton4 pton6 data remote context) = Some packet"
    using assms(1,2) by simp
  obtain m0 where m0: "parse_stun_message data = Inr m0" "stun_method_of m0 = binding" "message_class m0 = request"
      "username m0 = Some (local_ice_ufrag context @ '':'' @ remote_ice_ufrag context)"
      "ok (validate_ice_connectivity_check m0)"
      "verify_stun_message_integrity hmac data (local_ice_pwd context) = Inr ()" "has_message_integrity m0"
      "make_stun_binding_response hmac pton4 pton6 m0 remote context = Some packet"
      "handle_session_stun_binding hmac pton4 pton6 data remote context =
        \<lparr>handled = True, nominated = has_use_candidate m0, binding_response = Some packet\<rparr>"
    by (rule handle_accepts [OF acc])
  have mm: "m0 = m" using m0(1) assms(3) by simp
  have v: "validate_stun_header data = Inr ()" and pw: "local_ice_pwd context \<noteq> []"
    using m0(6) by (auto elim: verify_integrityD)
  have name: "parse_ice_username (local_ice_ufrag context @ '':'' @ remote_ice_ufrag context) =
      Inr \<lparr>recipient_ufrag = local_ice_ufrag context, sender_ufrag = remote_ice_ufrag context\<rparr>"
    using handle_username [OF acc] .
  have "write_stun_binding_success_response hmac pton4 pton6 ?m ip port key =
      write_stun_binding_success_response hmac pton4 pton6 m ip port key" for ip port key
    by (simp add: write_stun_binding_success_response_def validate_binding_request_def)
  then have "make_stun_binding_response hmac pton4 pton6 ?m remote context = Some packet"
    using m0(8) by (simp only: mm make_stun_binding_response_def)
  moreover have "validate_ice_connectivity_check ?m = validate_ice_connectivity_check m"
    by (simp add: validate_ice_connectivity_check_def split: option.split)
  then have "ok (validate_ice_connectivity_check ?m)" using m0(5) by (simp only: mm)
  moreover have "result = \<lparr>handled = True, nominated = has_use_candidate m, binding_response = Some packet\<rparr>"
    using m0(9) assms(1) mm by simp
  ultimately show ?thesis
    using m0(2-4,7) assms(4) header_appended(5) [OF v assms(5)] parse_appended [OF assms(3,5)]
      integrity_appended [OF m0(6) assms(5)] pw name
    unfolding handle_session_stun_binding_def [of hmac pton4 pton6 ?d remote "context"] Let_def
    by (simp add: mm ice_username_matches_session_def)
qed

theorem nomination_can_be_appended_witness:
  "\<not> nominated sample_result
   \<and> nominated (handle_session_stun_binding sample_hmac sample_pton4 (\<lambda>_. None)
       (append_use_candidate sample_check) sample_remote sample_context)"
proof -
  obtain packet where p: "sample_result = \<lparr>handled = True, nominated = False, binding_response = Some packet\<rparr>"
    using sample_check_accepted by auto
  have "length sample_check \<le> 65551" using sample_check_small(2) by simp
  moreover have "\<not> has_fingerprint sample_message" by (simp add: sample_message_def empty_stun_message_def)
  ultimately show ?thesis
    using nomination_can_be_appended [OF p _ sample_check_parsed, of packet] p by simp
qed

end
