(* ===== verification/Dtls_Packet.thy ===== *)
theory Dtls_Packet
  imports Rtp_Packet Stun_Message
begin

unbundle bit_operations_syntax

text \<open>
  Recognition of DTLS records (\<^verbatim>\<open>src/dtls/dtls_packet.cpp\<close>), and what tells STUN, DTLS, RTP and RTCP
  apart: all four arrive at one UDP port, and a session transport asks \<open>is_stun_packet\<close> first.
\<close>

section \<open>Data\<close>

datatype dtls_record_content_type =
  change_cipher_spec | alert | handshake | application_data | unknown_content

datatype dtls_handshake_type =
  hello_request | client_hello | server_hello | hello_verify_request | certificate | server_key_exchange
  | certificate_request | server_hello_done | certificate_verify | client_key_exchange | finished | unknown_handshake

record dtls_record_header =
  content_type :: dtls_record_content_type
  dtls_version :: u16
  epoch :: u16
  dtls_length :: u16
  record_size :: nat

abbreviation (input) k_dtls_record_header_size :: nat where "k_dtls_record_header_size \<equiv> 13"

section \<open>Operations\<close>

definition is_dtls_content_type_byte :: "u8 \<Rightarrow> bool" where
  "is_dtls_content_type_byte v \<longleftrightarrow> v \<ge> 20 \<and> v \<le> 63"

definition is_known_dtls_content_type :: "u8 \<Rightarrow> bool" where
  "is_known_dtls_content_type v \<longleftrightarrow> v = 20 \<or> v = 21 \<or> v = 22 \<or> v = 23"

definition is_dtls_version :: "u16 \<Rightarrow> bool" where
  "is_dtls_version version \<longleftrightarrow> version AND 0xFF00 = 0xFE00"

definition make_content_type :: "u8 \<Rightarrow> dtls_record_content_type" where
  "make_content_type v =
     (if v = 20 then change_cipher_spec else if v = 21 then alert else if v = 22 then handshake
      else if v = 23 then application_data else unknown_content)"

definition make_handshake_type :: "u8 \<Rightarrow> dtls_handshake_type" where
  "make_handshake_type v =
     (if v = 0 then hello_request else if v = 1 then client_hello else if v = 2 then server_hello
      else if v = 3 then hello_verify_request else if v = 11 then certificate
      else if v = 12 then server_key_exchange else if v = 13 then certificate_request
      else if v = 14 then server_hello_done else if v = 15 then certificate_verify
      else if v = 16 then client_key_exchange else if v = 20 then finished else unknown_handshake)"

definition is_dtls_packet :: "bytes \<Rightarrow> bool result" where
  "is_dtls_packet data =
     (if length data < k_dtls_record_header_size then Inr False
      else bindE (read_u8 data 0) (\<lambda>first.
        if \<not> is_dtls_content_type_byte first then Inr False
        else bindE (read_u16 data 1) (\<lambda>version.
          if \<not> is_dtls_version version then Inr False
          else bindE (read_u16 data 11) (\<lambda>len.
            Inr (\<not> k_dtls_record_header_size + unat len > length data)))))"

definition parse_dtls_record_header :: "bytes \<Rightarrow> dtls_record_header result" where
  "parse_dtls_record_header data =
     (if length data < k_dtls_record_header_size then make_error ''dtls packet is shorter than record header''
      else bindE (read_u8 data 0) (\<lambda>first.
        if \<not> is_dtls_content_type_byte first then make_error ''dtls content type byte is invalid''
        else if \<not> is_known_dtls_content_type first then make_error ''dtls content type is unsupported''
        else bindE (read_u16 data 1) (\<lambda>version.
          if \<not> is_dtls_version version then make_error ''dtls version is invalid''
          else bindE (read_u16 data 11) (\<lambda>len.
            let size = k_dtls_record_header_size + unat len in
            if size > length data then make_error ''dtls record is truncated''
            else bindE (read_u16 data 3) (\<lambda>ep.
              Inr \<lparr>content_type = make_content_type first, dtls_version = version, epoch = ep,
                   dtls_length = len, record_size = size\<rparr>)))))"

definition get_dtls_handshake_type :: "bytes \<Rightarrow> dtls_record_header \<Rightarrow> dtls_handshake_type result" where
  "get_dtls_handshake_type data header =
     (if content_type header \<noteq> handshake \<or> dtls_length header = 0 \<or> length data \<le> k_dtls_record_header_size
      then Inr unknown_handshake
      else bindE (read_u8 data k_dtls_record_header_size) (\<lambda>b. Inr (make_handshake_type b)))"

definition dtls_record_content_type_to_string :: "dtls_record_content_type \<Rightarrow> string" where
  "dtls_record_content_type_to_string v =
     (case v of change_cipher_spec \<Rightarrow> ''change_cipher_spec'' | alert \<Rightarrow> ''alert'' | handshake \<Rightarrow> ''handshake''
      | application_data \<Rightarrow> ''application_data'' | unknown_content \<Rightarrow> ''unknown'')"

definition dtls_handshake_type_to_string :: "dtls_handshake_type \<Rightarrow> string" where
  "dtls_handshake_type_to_string v =
     (case v of hello_request \<Rightarrow> ''hello_request'' | client_hello \<Rightarrow> ''client_hello''
      | server_hello \<Rightarrow> ''server_hello'' | hello_verify_request \<Rightarrow> ''hello_verify_request''
      | certificate \<Rightarrow> ''certificate'' | server_key_exchange \<Rightarrow> ''server_key_exchange''
      | certificate_request \<Rightarrow> ''certificate_request'' | server_hello_done \<Rightarrow> ''server_hello_done''
      | certificate_verify \<Rightarrow> ''certificate_verify'' | client_key_exchange \<Rightarrow> ''client_key_exchange''
      | finished \<Rightarrow> ''finished'' | unknown_handshake \<Rightarrow> ''unknown'')"

definition dtls_version_to_string :: "u16 \<Rightarrow> string" where
  "dtls_version_to_string version =
     (if version = 0xFEFF then ''dtls1.0'' else if version = 0xFEFD then ''dtls1.2''
      else if version = 0xFEFC then ''dtls1.3'' else ''unknown'')"

section \<open>Memory safety\<close>

lemma is_dtls_packet_safe [safe]: "fault_free (is_dtls_packet data)"
  unfolding is_dtls_packet_def by (intro safe) auto

lemma parse_dtls_record_header_safe [safe]: "fault_free (parse_dtls_record_header data)"
  unfolding parse_dtls_record_header_def Let_def by (intro safe) auto

lemma get_dtls_handshake_type_safe [safe]: "fault_free (get_dtls_handshake_type data header)"
  unfolding get_dtls_handshake_type_def by (intro safe) auto

section \<open>Demultiplexing\<close>

lemma first_byte_read: "data \<noteq> [] \<Longrightarrow> read_u8 data 0 = Inr (data ! 0)"
  by (simp add: read_u8_def)

lemma dtls_first_byte:
  assumes "is_dtls_packet data = Inr True"
  shows "data \<noteq> [] \<and> data ! 0 \<le> 63"
proof -
  have "data \<noteq> []" using assms by (auto simp: is_dtls_packet_def)
  then show ?thesis
    using assms by (auto simp: is_dtls_packet_def is_dtls_content_type_byte_def bindE_Inr_iff first_byte_read split: if_splits)
qed

lemma stun_first_byte:
  assumes "is_stun_packet data = Inr True"
  shows "20 \<le> length data \<and> data ! 0 AND 0xC0 = 0 \<and> read_u32 data 4 = Inr kStunMagicCookie"
proof -
  have len: "20 \<le> length data" using assms by (auto simp: is_stun_packet_def split: if_splits)
  then have "data \<noteq> []" by auto
  then show ?thesis
    using assms len by (auto simp: is_stun_packet_def bindE_Inr_iff first_byte_read split: if_splits)
qed

lemma version_bits:
  assumes "data \<noteq> []" and "has_rtp_version data"
  shows "\<not> data ! 0 \<le> 63" and "data ! 0 AND 0xC0 \<noteq> 0"
proof -
  obtain b rest where data: "data = b # rest" using assms(1) by (cases data) auto
  then have b: "drop_bit 6 b = 2" using assms(2) by (simp add: has_rtp_version_def)
  have "unat (drop_bit 6 b) = 2" unfolding b by simp
  then have "unat b div 64 = 2" unfolding unat_drop_bit_eq by (simp add: drop_bit_eq_div)
  then have "128 \<le> unat b" by linarith
  then show "\<not> data ! 0 \<le> 63" by (simp add: data word_le_nat_alt)
  have "bit b 7"
    using arg_cong [OF b, of "\<lambda>w. bit w 1"] by (simp add: bit_simps)
  then have "bit (b AND 0xC0) 7" by (simp add: bit_simps)
  then show "data ! 0 AND 0xC0 \<noteq> 0" unfolding data by auto
qed

lemma be32_first: "(ucast (drop_bit 24 (be32 a b c d)) :: u8) = a"
  by (rule bit_word_eqI) (auto simp: be32_def bit_simps less_diff_conv2 dest: bit_imp_le_length)

lemma be16_second: "(ucast (be16 a b) :: u8) = b"
  by (rule bit_word_eqI) (auto simp: be16_def bit_simps)

lemma rtp_version_parsed:
  "ok (parse_rtp_packet_header data) \<Longrightarrow> data \<noteq> [] \<and> has_rtp_version data"
  "ok (parse_rtcp_packet_header data) \<Longrightarrow> data \<noteq> [] \<and> has_rtp_version data"
  by (auto simp: ok_iff parse_rtp_packet_header_def inspect_rtp_packet_layout_def
      parse_rtcp_packet_header_def bindE_Inr_iff make_error_def split: if_splits dest: has_rtp_version_nonempty)

section \<open>The properties\<close>

text \<open>
  The four protocols on the media port are told apart: no datagram is accepted by two of the
  RTP and RTCP parsers, neither of them accepts what the STUN or the DTLS test accepts, and a DTLS
  record passes the STUN test, which comes first, only if the low byte of its epoch is 0x21, an
  epoch that takes 33 handshakes to reach.
\<close>

theorem datagram_kinds_exclusive:
  "\<not> (ok (parse_rtp_packet_header data) \<and> ok (parse_rtcp_packet_header data))
   \<and> \<not> ((ok (parse_rtp_packet_header data) \<or> ok (parse_rtcp_packet_header data))
        \<and> (is_stun_packet data = Inr True \<or> is_dtls_packet data = Inr True))
   \<and> (is_stun_packet data = Inr True \<and> parse_dtls_record_header data = Inr h \<longrightarrow> (ucast (epoch h) :: u8) = 0x21)"
proof (intro conjI)
  show "\<not> (ok (parse_rtp_packet_header data) \<and> ok (parse_rtcp_packet_header data))"
    by (auto simp: ok_iff parse_rtp_packet_header_def inspect_rtp_packet_layout_def
        parse_rtcp_packet_header_def bindE_Inr_iff make_error_def split: if_splits)
  show "\<not> ((ok (parse_rtp_packet_header data) \<or> ok (parse_rtcp_packet_header data))
        \<and> (is_stun_packet data = Inr True \<or> is_dtls_packet data = Inr True))"
    using rtp_version_parsed [of data] version_bits [of data] dtls_first_byte [of data] stun_first_byte [of data]
    by blast
  show "is_stun_packet data = Inr True \<and> parse_dtls_record_header data = Inr h \<longrightarrow> (ucast (epoch h) :: u8) = 0x21"
  proof (intro impI, elim conjE)
    assume stun: "is_stun_packet data = Inr True" and dtls: "parse_dtls_record_header data = Inr h"
    have len: "20 \<le> length data" and cookie: "be32 (data ! 4) (data ! 5) (data ! 6) (data ! 7) = kStunMagicCookie"
      using stun_first_byte [OF stun] by (auto simp: numeral_eq_Suc)
    have "data ! 4 = 0x21" using arg_cong [OF cookie, of "\<lambda>w. (ucast (drop_bit 24 w) :: u8)"]
      unfolding be32_first by simp
    moreover have "epoch h = be16 (data ! 3) (data ! 4)"
      using dtls len by (auto simp: parse_dtls_record_header_def bindE_Inr_iff make_error_def Let_def numeral_eq_Suc split: if_splits)
    ultimately show "(ucast (epoch h) :: u8) = 0x21" by (simp add: be16_second)
  qed
qed

definition dtls_epoch_33 :: bytes where
  "dtls_epoch_33 = [22, 0xFE, 0xFD, 0, 0x21, 0x12, 0xA4, 0x42, 0, 0, 1, 0, 7, 0, 0, 0, 0, 0, 0, 0]"

theorem datagram_kinds_exclusive_witness:
  "parse_dtls_record_header dtls_epoch_33
     = Inr \<lparr>content_type = handshake, dtls_version = 0xFEFD, epoch = 0x21, dtls_length = 7, record_size = 20\<rparr>
   \<and> \<not> ok (parse_rtp_packet_header dtls_epoch_33)"
proof -
  have dtls: "parse_dtls_record_header dtls_epoch_33
     = Inr \<lparr>content_type = handshake, dtls_version = 0xFEFD, epoch = 0x21, dtls_length = 7, record_size = 20\<rparr>"
    by code_simp
  moreover have "is_dtls_packet dtls_epoch_33 = Inr True" by code_simp
  ultimately show ?thesis using datagram_kinds_exclusive [of dtls_epoch_33] by blast
qed

end
