(* ===== verification/Udp_Port_Allocator.thy ===== *)
theory Udp_Port_Allocator
  imports Prelude
begin

text \<open>
  The allocator of session UDP ports (\<^verbatim>\<open>src/net/udp_port_allocator.cpp\<close>). Every WHIP and WHEP session
  reserves one port of the configured range; the allocator hands ports out in cyclic order, and a
  reservation gives its port back when the last shared pointer to it goes away.

  The set \<^verbatim>\<open>used_ports_\<close> is a \<open>u16 set\<close>. The server has one allocator, shared by pointer: a pointer to
  it that may be null is an \<open>option\<close>, and a reservation records whether its pointer is set. The
  relation \<open>pool_step\<close> interleaves reservations and destructions in any order.
\<close>

section \<open>Data\<close>

record udp_port_range =
  min_port :: u16
  max_port :: u16

record udp_port_allocator =
  port_range :: udp_port_range
  next_port :: u16
  used_ports :: "u16 set"

record udp_port_reservation =
  has_allocator :: bool
  port :: u16

section \<open>Operations\<close>

definition udp_port_range_is_valid :: "udp_port_range \<Rightarrow> bool" where
  "udp_port_range_is_valid r =
     (if min_port r = 0 \<or> max_port r = 0 then False else min_port r \<le> max_port r)"

definition make_udp_port_allocator :: "udp_port_range \<Rightarrow> udp_port_allocator" where
  "make_udp_port_allocator r = \<lparr>port_range = r, next_port = min_port r, used_ports = {}\<rparr>"

definition port_capacity :: "udp_port_range \<Rightarrow> nat" where
  "port_capacity r = unat (max_port r) - unat (min_port r) + 1"

definition next_candidate :: "udp_port_range \<Rightarrow> u16 \<Rightarrow> u16" where
  "next_candidate r candidate = (if candidate = max_port r then min_port r else candidate + 1)"

fun acquire_loop :: "nat \<Rightarrow> udp_port_allocator \<Rightarrow> u16 \<Rightarrow> u16 option \<times> udp_port_allocator" where
  "acquire_loop 0 a candidate = (None, a)"
| "acquire_loop (Suc attempts) a candidate =
     (if candidate \<notin> used_ports a
      then (Some candidate, a\<lparr>used_ports := insert candidate (used_ports a),
                              next_port := next_candidate (port_range a) candidate\<rparr>)
      else acquire_loop attempts a (next_candidate (port_range a) candidate))"

definition acquire :: "udp_port_allocator \<Rightarrow> u16 option \<times> udp_port_allocator" where
  "acquire a =
     (if \<not> udp_port_range_is_valid (port_range a) then (None, a)
      else let capacity = port_capacity (port_range a) in
        if card (used_ports a) \<ge> capacity then (None, a)
        else acquire_loop capacity a (next_port a))"

definition release :: "udp_port_allocator \<Rightarrow> u16 \<Rightarrow> udp_port_allocator" where
  "release a p = a\<lparr>used_ports := used_ports a - {p}\<rparr>"

definition destroy_reservation :: "udp_port_allocator \<Rightarrow> udp_port_reservation \<Rightarrow> udp_port_allocator" where
  "destroy_reservation a r = (if \<not> has_allocator r \<or> port r = 0 then a else release a (port r))"

definition reserve_udp_port ::
  "udp_port_allocator option \<Rightarrow> udp_port_reservation option \<times> udp_port_allocator option" where
  "reserve_udp_port allocator =
     (case allocator of
        None \<Rightarrow> (None, None)
      | Some a \<Rightarrow> (case acquire a of
            (None, a) \<Rightarrow> (None, Some a)
          | (Some p, a) \<Rightarrow> (Some \<lparr>has_allocator = True, port = p\<rparr>, Some a)))"

section \<open>The pool contract\<close>

text \<open>
  What a session handler relies on. A pool offers a fixed set of items; \<open>take_item\<close> hands out an
  item nobody holds and fails only when everything is held; \<open>give_back\<close> returns one.
\<close>

locale item_pool =
  fixes inv :: "'s \<Rightarrow> bool" and offered :: "'s \<Rightarrow> 'p set" and taken :: "'s \<Rightarrow> 'p set"
    and take_item :: "'s \<Rightarrow> 'p option \<times> 's" and give_back :: "'s \<Rightarrow> 'p \<Rightarrow> 's"
  assumes taken_offered: "inv s \<Longrightarrow> taken s \<subseteq> offered s"
    and finite_offered: "inv s \<Longrightarrow> finite (offered s)"
    and take_some: "inv s \<Longrightarrow> take_item s = (Some p, s') \<Longrightarrow>
      inv s' \<and> offered s' = offered s \<and> p \<in> offered s - taken s \<and> taken s' = insert p (taken s)"
    and take_none: "inv s \<Longrightarrow> take_item s = (None, s') \<Longrightarrow> s' = s \<and> taken s = offered s"
    and give: "inv s \<Longrightarrow> p \<in> taken s \<Longrightarrow>
      inv (give_back s p) \<and> offered (give_back s p) = offered s \<and> taken (give_back s p) = taken s - {p}"
begin

definition holds :: "'s \<Rightarrow> 'p list \<Rightarrow> bool" where
  "holds s live \<longleftrightarrow> inv s \<and> distinct live \<and> set live = taken s"

lemma holds_take: "holds s live \<Longrightarrow> take_item s = (Some p, s') \<Longrightarrow> holds s' (p # live) \<and> offered s' = offered s"
  using take_some unfolding holds_def by fastforce

lemma holds_none: "holds s live \<Longrightarrow> take_item s = (None, s') \<Longrightarrow> s' = s \<and> length live = card (offered s)"
  using take_none unfolding holds_def by (metis distinct_card)

lemma holds_give:
  assumes "holds s (xs @ p # ys)"
  shows "holds (give_back s p) (xs @ ys) \<and> offered (give_back s p) = offered s"
proof -
  have "inv s" and "p \<in> taken s" using assms by (auto simp: holds_def)
  from give [OF this] show ?thesis using assms by (auto simp: holds_def)
qed

lemma holds_bounded: "holds s live \<Longrightarrow> length live \<le> card (offered s)"
  unfolding holds_def by (metis card_mono distinct_card finite_offered taken_offered)

lemma holds_exhausted_iff:
  assumes "holds s live"
  shows "fst (take_item s) = None \<longleftrightarrow> length live = card (offered s)"
proof (cases "fst (take_item s)")
  case None
  then show ?thesis using holds_none [OF assms] by (metis prod.collapse)
next
  case (Some p)
  then have "take_item s = (Some p, snd (take_item s))" by (metis prod.collapse)
  from holds_take [OF assms this] have "Suc (length live) \<le> card (offered s)"
    using holds_bounded by fastforce
  then show ?thesis using Some by simp
qed

end

section \<open>The allocator is a pool\<close>

definition ports :: "udp_port_range \<Rightarrow> u16 set" where
  "ports r = (if udp_port_range_is_valid r then {min_port r .. max_port r} else {})"

definition allocator_wf :: "udp_port_allocator \<Rightarrow> bool" where
  "allocator_wf a \<longleftrightarrow> used_ports a \<subseteq> ports (port_range a)
     \<and> (udp_port_range_is_valid (port_range a) \<longrightarrow> next_port a \<in> ports (port_range a))"

text \<open>The \<open>k\<close>-th port of the range, cyclically: the order in which the allocator tries candidates.\<close>

definition port_at :: "udp_port_range \<Rightarrow> nat \<Rightarrow> u16" where
  "port_at r k = of_nat (unat (min_port r) + k mod port_capacity r)"

lemma capacity_pos [simp]: "0 < port_capacity r"
  by (simp add: port_capacity_def)

lemma unat_port_at:
  assumes "udp_port_range_is_valid r"
  shows "unat (port_at r k) = unat (min_port r) + k mod port_capacity r"
proof -
  have "unat (min_port r) \<le> unat (max_port r)"
    using assms by (simp add: udp_port_range_is_valid_def word_le_nat_alt split: if_splits)
  moreover have "k mod port_capacity r < port_capacity r" by simp
  moreover have "unat (max_port r) < 2 ^ 16" using unsigned_less [of "max_port r"] by simp
  ultimately have "unat (min_port r) + k mod port_capacity r < 2 ^ 16"
    unfolding port_capacity_def by linarith
  then show ?thesis unfolding port_at_def by (subst unat_of_nat) (simp add: take_bit_nat_eq_self)
qed

lemma in_ports_iff:
  assumes "udp_port_range_is_valid r"
  shows "p \<in> ports r \<longleftrightarrow> unat (min_port r) \<le> unat p \<and> unat p < unat (min_port r) + port_capacity r"
  using assms by (auto simp: ports_def port_capacity_def udp_port_range_is_valid_def word_le_nat_alt split: if_splits)

lemma ports_port_at:
  assumes valid: "udp_port_range_is_valid r"
  shows "ports r = port_at r ` {k ..< k + port_capacity r}"
proof (rule set_eqI)
  fix p
  let ?m = "unat (min_port r)" and ?c = "port_capacity r"
  show "p \<in> ports r \<longleftrightarrow> p \<in> port_at r ` {k ..< k + ?c}"
  proof
    assume "p \<in> ports r"
    then have p: "?m \<le> unat p" "unat p < ?m + ?c" using in_ports_iff [OF valid] by auto
    define d where "d = unat p - ?m"
    have d: "d < ?c" using p by (simp add: d_def)
    obtain i where i: "i < ?c" "(k + i) mod ?c = d"
    proof
      let ?i = "(d + ?c - k mod ?c) mod ?c"
      show "?i < ?c" by simp
      have "k mod ?c < ?c" by simp
      then have le: "k mod ?c \<le> d + ?c" by linarith
      have "(k + ?i) mod ?c = (k mod ?c + (d + ?c - k mod ?c)) mod ?c" by (simp add: mod_simps)
      also have "\<dots> = (d + ?c) mod ?c" using le by simp
      also have "\<dots> = d" using d by simp
      finally show "(k + ?i) mod ?c = d" .
    qed
    then have "unat p = unat (port_at r (k + i))" using p by (simp add: unat_port_at [OF valid] d_def)
    then have "p = port_at r (k + i)" by (simp add: word_unat_eq_iff)
    then show "p \<in> port_at r ` {k ..< k + ?c}" using i by auto
  qed (auto simp: in_ports_iff [OF valid] unat_port_at [OF valid])
qed

lemma next_candidate_port_at:
  assumes valid: "udp_port_range_is_valid r"
  shows "next_candidate r (port_at r k) = port_at r (Suc k)"
proof -
  let ?m = "unat (min_port r)" and ?c = "port_capacity r" and ?x = "unat (max_port r)"
  have le: "?m \<le> ?x" using valid by (simp add: udp_port_range_is_valid_def word_le_nat_alt split: if_splits)
  have lt: "k mod ?c < ?c" by simp
  have last: "port_at r k = max_port r \<longleftrightarrow> k mod ?c = ?c - 1"
    unfolding word_unat_eq_iff unat_port_at [OF valid] using le by (auto simp: port_capacity_def)
  show ?thesis
  proof (cases "k mod ?c = ?c - 1")
    case True
    then have "Suc k mod ?c = 0" by (simp add: mod_Suc)
    then have "unat (port_at r (Suc k)) = ?m" by (simp add: unat_port_at [OF valid])
    then show ?thesis using True last by (simp add: next_candidate_def word_unat_eq_iff)
  next
    case False
    then have "Suc k mod ?c = Suc (k mod ?c)" using lt by (simp add: mod_Suc)
    then show ?thesis using False last by (simp add: next_candidate_def port_at_def)
  qed
qed

lemma acquire_loop_none:
  assumes "udp_port_range_is_valid (port_range a)"
  shows "acquire_loop n a (port_at (port_range a) k) = (None, a') \<Longrightarrow>
         a' = a \<and> port_at (port_range a) ` {k ..< k + n} \<subseteq> used_ports a"
proof (induction n arbitrary: k)
  case (Suc n)
  have step: "{k ..< k + Suc n} = insert k {Suc k ..< Suc k + n}" by auto
  from Suc.prems show ?case
    using Suc.IH [of "Suc k"] unfolding step by (simp add: next_candidate_port_at [OF assms] split: if_splits)
qed simp

lemma acquire_loop_some:
  assumes "udp_port_range_is_valid (port_range a)"
  shows "acquire_loop n a (port_at (port_range a) k) = (Some p, a') \<Longrightarrow>
         \<exists>i<n. p = port_at (port_range a) (k + i) \<and> p \<notin> used_ports a
              \<and> port_at (port_range a) ` {k ..< k + i} \<subseteq> used_ports a
              \<and> a' = a\<lparr>used_ports := insert p (used_ports a), next_port := port_at (port_range a) (k + Suc i)\<rparr>"
proof (induction n arbitrary: k)
  case (Suc n)
  show ?case
  proof (cases "port_at (port_range a) k \<in> used_ports a")
    case True
    then have "acquire_loop n a (port_at (port_range a) (Suc k)) = (Some p, a')"
      using Suc.prems by (simp add: next_candidate_port_at [OF assms])
    from Suc.IH [OF this] obtain i where i: "i < n" "p = port_at (port_range a) (Suc k + i)" "p \<notin> used_ports a"
      "port_at (port_range a) ` {Suc k ..< Suc k + i} \<subseteq> used_ports a"
      "a' = a\<lparr>used_ports := insert p (used_ports a), next_port := port_at (port_range a) (Suc k + Suc i)\<rparr>"
      by blast
    have "{k ..< k + Suc i} = insert k {Suc k ..< Suc k + i}" by auto
    then show ?thesis using i True by (intro exI [of _ "Suc i"]) auto
  next
    case False
    then show ?thesis using Suc.prems by (auto simp: next_candidate_port_at [OF assms])
  qed
qed simp

lemma next_port_is_port_at:
  assumes "allocator_wf a" and valid: "udp_port_range_is_valid (port_range a)"
  obtains k where "next_port a = port_at (port_range a) k"
  using assms ports_port_at [OF valid, of 0] by (auto simp: allocator_wf_def)

lemma port_at_in_ports: "udp_port_range_is_valid r \<Longrightarrow> port_at r k \<in> ports r"
  using ports_port_at [of r k] by auto

lemma acquire_cyclic:
  assumes wf: "allocator_wf a" and "acquire a = (Some p, a')"
  shows "\<exists>k i. next_port a = port_at (port_range a) k \<and> p = port_at (port_range a) (k + i) \<and> p \<notin> used_ports a
     \<and> port_at (port_range a) ` {k ..< k + i} \<subseteq> used_ports a \<and> udp_port_range_is_valid (port_range a)
     \<and> a' = a\<lparr>used_ports := insert p (used_ports a), next_port := port_at (port_range a) (k + Suc i)\<rparr>"
proof -
  have valid: "udp_port_range_is_valid (port_range a)"
    and loop: "acquire_loop (port_capacity (port_range a)) a (next_port a) = (Some p, a')"
    using assms(2) by (auto simp: acquire_def Let_def split: if_splits)
  obtain k where "next_port a = port_at (port_range a) k" using next_port_is_port_at [OF wf valid] .
  with acquire_loop_some [OF valid] loop valid show ?thesis by metis
qed

lemma acquire_some:
  assumes "allocator_wf a" and "acquire a = (Some p, a')"
  shows "allocator_wf a' \<and> ports (port_range a') = ports (port_range a) \<and> p \<in> ports (port_range a) - used_ports a
     \<and> used_ports a' = insert p (used_ports a)"
  using acquire_cyclic [OF assms] assms(1) port_at_in_ports by (auto simp: allocator_wf_def)

lemma card_ports: "udp_port_range_is_valid r \<Longrightarrow> card (ports r) \<le> port_capacity r"
  unfolding ports_port_at [of r 0] using card_image_le [of "{0 ..< 0 + port_capacity r}" "port_at r"] by simp

lemma acquire_none:
  assumes wf: "allocator_wf a" and "acquire a = (None, a')"
  shows "a' = a \<and> used_ports a = ports (port_range a)"
proof (cases "udp_port_range_is_valid (port_range a)")
  case False
  then show ?thesis using assms by (auto simp: acquire_def allocator_wf_def ports_def)
next
  case valid: True
  have sub: "used_ports a \<subseteq> ports (port_range a)" using wf by (simp add: allocator_wf_def)
  show ?thesis
  proof (cases "card (used_ports a) \<ge> port_capacity (port_range a)")
    case True
    then have "card (ports (port_range a)) \<le> card (used_ports a)" using card_ports [OF valid] by linarith
    then show ?thesis using sub assms(2) True valid card_seteq [OF _ sub] by (auto simp: acquire_def)
  next
    case False
    obtain k where k: "next_port a = port_at (port_range a) k" using next_port_is_port_at [OF wf valid] .
    then have "acquire_loop (port_capacity (port_range a)) a (port_at (port_range a) k) = (None, a')"
      using assms(2) False valid by (simp add: acquire_def)
    from acquire_loop_none [OF valid this] show ?thesis using sub ports_port_at [OF valid, of k] by auto
  qed
qed

interpretation udp_pool: item_pool allocator_wf "\<lambda>a. ports (port_range a)" used_ports acquire release
proof
  fix s :: udp_port_allocator and s' p
  show "allocator_wf s \<Longrightarrow> used_ports s \<subseteq> ports (port_range s)" by (simp add: allocator_wf_def)
  show "finite (ports (port_range s))" by simp
  show "allocator_wf s \<Longrightarrow> acquire s = (Some p, s') \<Longrightarrow>
    allocator_wf s' \<and> ports (port_range s') = ports (port_range s) \<and> p \<in> ports (port_range s) - used_ports s
    \<and> used_ports s' = insert p (used_ports s)" by (rule acquire_some)
  show "allocator_wf s \<Longrightarrow> acquire s = (None, s') \<Longrightarrow> s' = s \<and> used_ports s = ports (port_range s)"
    by (rule acquire_none)
  show "allocator_wf s \<Longrightarrow> p \<in> used_ports s \<Longrightarrow> allocator_wf (release s p)
    \<and> ports (port_range (release s p)) = ports (port_range s) \<and> used_ports (release s p) = used_ports s - {p}"
    by (auto simp: allocator_wf_def release_def)
qed

section \<open>Reservations\<close>

inductive pool_step :: "udp_port_allocator \<times> udp_port_reservation list \<Rightarrow> udp_port_allocator \<times> udp_port_reservation list \<Rightarrow> bool" where
  reserve: "reserve_udp_port (Some a) = (Some r, Some a') \<Longrightarrow> pool_step (a, live) (a', r # live)"
| refused: "reserve_udp_port (Some a) = (None, Some a') \<Longrightarrow> pool_step (a, live) (a', live)"
| destroy: "pool_step (a, xs @ r # ys) (destroy_reservation a r, xs @ ys)"

inductive_cases pool_stepE: "pool_step s s'"

inductive pool_reachable :: "udp_port_range \<Rightarrow> udp_port_allocator \<times> udp_port_reservation list \<Rightarrow> bool" for r where
  start: "pool_reachable r (make_udp_port_allocator r, [])"
| move: "pool_reachable r s \<Longrightarrow> pool_step s s' \<Longrightarrow> pool_reachable r s'"

lemma holds_ports: "udp_pool.holds a live \<Longrightarrow> p \<in> set live \<Longrightarrow> p \<in> ports (port_range a) \<and> p \<noteq> 0"
  by (auto simp: udp_pool.holds_def allocator_wf_def ports_def udp_port_range_is_valid_def split: if_splits)

definition pool_inv :: "udp_port_allocator \<times> udp_port_reservation list \<Rightarrow> bool" where
  "pool_inv s \<longleftrightarrow> udp_pool.holds (fst s) (map port (snd s)) \<and> list_all has_allocator (snd s)"

lemma pool_step_inv:
  assumes "pool_step s s'" and inv: "pool_inv s"
  shows "pool_inv s' \<and> ports (port_range (fst s')) = ports (port_range (fst s))"
  using assms
proof (cases rule: pool_step.cases)
  case (reserve a r a' live)
  then have "acquire a = (Some (port r), a')" "has_allocator r"
    by (auto simp: reserve_udp_port_def split: prod.splits option.splits)
  then show ?thesis using udp_pool.holds_take [of a "map port live"] inv reserve by (simp add: pool_inv_def)
next
  case (refused a a' live)
  then have "acquire a = (None, a')"
    by (auto simp: reserve_udp_port_def split: prod.splits option.splits)
  then show ?thesis using udp_pool.holds_none [of a "map port live"] inv refused by (simp add: pool_inv_def)
next
  case (destroy a xs r ys)
  then have h: "udp_pool.holds a (map port xs @ port r # map port ys)" and "has_allocator r"
    using inv by (simp_all add: pool_inv_def)
  moreover have "port r \<noteq> 0" using holds_ports [OF h] by auto
  ultimately show ?thesis
    using udp_pool.holds_give [OF h] destroy inv by (simp add: destroy_reservation_def pool_inv_def)
qed

lemma pool_reachable_inv:
  "pool_reachable r s \<Longrightarrow> pool_inv s \<and> ports (port_range (fst s)) = ports r"
proof (induction rule: pool_reachable.induct)
  case start
  show ?case unfolding pool_inv_def udp_pool.holds_def
    by (auto simp: make_udp_port_allocator_def allocator_wf_def ports_def udp_port_range_is_valid_def)
next
  case (move s s')
  then show ?case using pool_step_inv by metis
qed

lemma card_ports_valid:
  assumes "udp_port_range_is_valid r"
  shows "card (ports r) = port_capacity r"
proof -
  have "inj_on (port_at r) {0 ..< port_capacity r}"
    by (rule inj_onI) (drule arg_cong [of _ _ unat], simp add: unat_port_at [OF assms])
  then show ?thesis using ports_port_at [OF assms, of 0] by (simp add: card_image)
qed

section \<open>The properties\<close>

text \<open>
  C31. However reservations and destructions interleave, live reservations hold pairwise different
  ports of the configured range, never port 0; and a further reservation is refused exactly when
  every port of the range is held, so that no port is ever lost.
\<close>

theorem reservations_exclusive_and_complete:
  assumes "udp_port_range_is_valid r" and "pool_reachable r (a, live)"
  shows "distinct (map port live)
    \<and> port ` set live \<subseteq> {min_port r .. max_port r} - {0}
    \<and> (fst (reserve_udp_port (Some a)) = None \<longleftrightarrow> length live = port_capacity r)"
proof -
  have h: "udp_pool.holds a (map port live)" and p: "ports (port_range a) = ports r"
    using pool_reachable_inv [OF assms(2)] by (auto simp: pool_inv_def)
  have "fst (reserve_udp_port (Some a)) = None \<longleftrightarrow> fst (acquire a) = None"
    by (simp add: reserve_udp_port_def split: prod.splits option.splits)
  then show ?thesis
    using h p holds_ports [OF h] udp_pool.holds_exhausted_iff [OF h] assms(1) card_ports_valid
    by (auto simp: udp_pool.holds_def ports_def)
qed

theorem reservations_exclusive_and_complete_witness:
  "fst (reserve_udp_port (Some \<lparr>port_range = \<lparr>min_port = 5000, max_port = 5001\<rparr>, next_port = 5000, used_ports = {5000, 5001}\<rparr>)) = None
   \<and> length [\<lparr>has_allocator = True, port = 5001\<rparr>, \<lparr>has_allocator = True, port = 5000\<rparr>] = port_capacity \<lparr>min_port = 5000, max_port = 5001\<rparr>"
proof -
  let ?r = "\<lparr>min_port = 5000, max_port = 5001\<rparr> :: udp_port_range"
  let ?a0 = "make_udp_port_allocator ?r"
  let ?a1 = "\<lparr>port_range = ?r, next_port = 5001, used_ports = {5000}\<rparr>"
  let ?a2 = "\<lparr>port_range = ?r, next_port = 5000, used_ports = {5000, 5001}\<rparr>"
  have cap: "port_capacity ?r = Suc (Suc 0)" by (simp add: port_capacity_def)
  have "reserve_udp_port (Some ?a0) = (Some \<lparr>has_allocator = True, port = 5000\<rparr>, Some ?a1)"
    by (simp add: reserve_udp_port_def acquire_def cap udp_port_range_is_valid_def
        make_udp_port_allocator_def next_candidate_def)
  then have one: "pool_reachable ?r (?a1, [\<lparr>has_allocator = True, port = 5000\<rparr>])"
    by (meson pool_reachable.intros pool_step.reserve)
  have "reserve_udp_port (Some ?a1) = (Some \<lparr>has_allocator = True, port = 5001\<rparr>, Some ?a2)"
    by (simp add: reserve_udp_port_def acquire_def cap udp_port_range_is_valid_def
        next_candidate_def insert_commute)
  then have two: "pool_reachable ?r (?a2, [\<lparr>has_allocator = True, port = 5001\<rparr>, \<lparr>has_allocator = True, port = 5000\<rparr>])"
    using one by (meson pool_reachable.intros pool_step.reserve)
  have "udp_port_range_is_valid ?r" by (simp add: udp_port_range_is_valid_def)
  from reservations_exclusive_and_complete [OF this two] show ?thesis by (simp add: port_capacity_def)
qed

end
