(* ===== verification/Whep_Rtp_Extensions.thy ===== *)
theory Whep_Rtp_Extensions
  imports Rtp_Header_Extension
begin

unbundle bit_operations_syntax

text \<open>
  The header-extension side of the WHEP rewriter (the first part of
  \<^verbatim>\<open>src/media/whep_rtp_rewriter.cpp\<close>): parsing a publisher's packet into its header, extensions and
  payload, translating the extensions into the subscriber's numbering, and writing the new
  extension block.

  \<^verbatim>\<open>parsed_header_extension\<close> is the pair of its \<^verbatim>\<open>id\<close> and its \<^verbatim>\<open>value\<close>. The array \<^verbatim>\<open>used_target_ids\<close> of
  256 flags is the set of the ids whose flag is up. \<^verbatim>\<open>std::sort\<close> by id is \<open>sort_key fst\<close>: it is applied
  to extensions with pairwise different ids (\<open>rewrite_header_extensions_ids\<close>), where sorting
  has one result.
\<close>

section \<open>Data\<close>

type_synonym parsed_header_extension = "u8 \<times> bytes"

record parsed_rtp_packet =
  parsed_header :: rtp_packet_header
  parsed_padding :: bool
  base_header_size :: nat
  payload_offset :: nat
  payload_data_size :: nat
  header_extensions :: "parsed_header_extension list"

record whep_rtp_payload_type_mapping =
  source_payload_type :: u8
  target_payload_type :: u8
  clock_rate :: u32
  codec_name :: string
  is_rtx :: bool
  nack :: bool
  source_associated_payload_type :: u8
  target_associated_payload_type :: u8

record whep_rtp_header_extension_mapping =
  source_id :: u8
  target_id :: u8
  uri :: string

record whep_rtp_media_mapping =
  kind :: string
  source_mid :: string
  target_mid :: string
  target_ssrc :: u32
  target_rtx_ssrc :: u32
  target_extmap_allow_mixed :: bool
  target_transport_cc_extension_id :: u8
  payload_types :: "whep_rtp_payload_type_mapping list"
  extension_mappings :: "whep_rtp_header_extension_mapping list"

definition k_mid_extension_uri :: string where
  "k_mid_extension_uri = ''urn:ietf:params:rtp-hdrext:sdes:mid''"

definition k_transport_wide_cc_extension_uri :: string where
  "k_transport_wide_cc_extension_uri = ''http://www.ietf.org/id/draft-holmer-rmcat-transport-wide-cc-extensions-01''"

definition k_absolute_send_time_extension_uri :: string where
  "k_absolute_send_time_extension_uri = ''http://www.webrtc.org/experiments/rtp-hdrext/abs-send-time''"

definition k_rid_extension_uri :: string where
  "k_rid_extension_uri = ''urn:ietf:params:rtp-hdrext:sdes:rtp-stream-id''"

definition k_repaired_rid_extension_uri :: string where
  "k_repaired_rid_extension_uri = ''urn:ietf:params:rtp-hdrext:sdes:repaired-rtp-stream-id''"

text \<open>The bytes of a text, and the text of bytes.\<close>

definition text_bytes :: "string \<Rightarrow> bytes" where
  "text_bytes s = map of_char s"

section \<open>Parsing\<close>

definition header_extension_requires_regeneration :: "string \<Rightarrow> bool" where
  "header_extension_requires_regeneration u \<longleftrightarrow>
     u = k_transport_wide_cc_extension_uri \<or> u = k_absolute_send_time_extension_uri \<or>
     u = k_rid_extension_uri \<or> u = k_repaired_rid_extension_uri"

function parse_one_byte_loop ::
  "bytes \<Rightarrow> nat \<Rightarrow> nat \<Rightarrow> parsed_header_extension list \<Rightarrow> parsed_header_extension list result" where
  "parse_one_byte_loop packet e offset extensions =
     (if offset < e then
        bindE (read_u8 packet offset) (\<lambda>header.
        let offset = offset + 1 in
        if header = 0 then parse_one_byte_loop packet e offset extensions
        else let id = drop_bit 4 header in
          if id = k_one_byte_extension_reserved_id
          then make_error ''rtp one-byte extension id 15 is reserved''
          else let value_size = unat (header AND 0x0F) + 1 in
            if offset + value_size > e
            then make_error ''rtp one-byte extension element is truncated''
            else bindE (subspan packet offset value_size) (\<lambda>v.
              parse_one_byte_loop packet e (offset + value_size) (extensions @ [(id, v)])))
      else Inr extensions)"
  by pat_completeness auto
termination
  by (relation "measure (\<lambda>(packet, e, offset, extensions). e - offset)") auto

definition parse_one_byte_header_extensions :: "bytes \<Rightarrow> nat \<Rightarrow> nat \<Rightarrow> parsed_header_extension list result" where
  "parse_one_byte_header_extensions packet offset count = parse_one_byte_loop packet (offset + count) offset []"

function parse_two_byte_loop ::
  "bytes \<Rightarrow> nat \<Rightarrow> nat \<Rightarrow> parsed_header_extension list \<Rightarrow> parsed_header_extension list result" where
  "parse_two_byte_loop packet e offset extensions =
     (if offset < e then
        bindE (read_u8 packet offset) (\<lambda>id.
        let offset = offset + 1 in
        if id = 0 then parse_two_byte_loop packet e offset extensions
        else if offset \<ge> e then make_error ''rtp two-byte extension length is truncated''
        else bindE (read_u8 packet offset) (\<lambda>size_byte.
          let value_size = unat size_byte; offset = offset + 1 in
          if offset + value_size > e
          then make_error ''rtp two-byte extension element is truncated''
          else bindE (subspan packet offset value_size) (\<lambda>v.
            parse_two_byte_loop packet e (offset + value_size) (extensions @ [(id, v)]))))
      else Inr extensions)"
  by pat_completeness auto
termination
  by (relation "measure (\<lambda>(packet, e, offset, extensions). e - offset)") auto

definition parse_two_byte_header_extensions :: "bytes \<Rightarrow> nat \<Rightarrow> nat \<Rightarrow> parsed_header_extension list result" where
  "parse_two_byte_header_extensions packet offset count = parse_two_byte_loop packet (offset + count) offset []"

definition parse_rewriteable_extension :: "bytes \<Rightarrow> nat \<Rightarrow> (parsed_header_extension list \<times> nat) result" where
  "parse_rewriteable_extension packet offset =
     (if offset + k_rtp_extension_header_size > length packet then make_error ''rtp extension header is truncated''
      else
        bindE (read_u16 packet offset) (\<lambda>profile.
        bindE (read_u16 packet (offset + 2)) (\<lambda>length_words.
        let extension_payload_offset = offset + k_rtp_extension_header_size;
            extension_payload_size = unat length_words * 4 in
        if extension_payload_offset + extension_payload_size > length packet
        then make_error ''rtp extension payload is truncated''
        else
          bindE (if is_one_byte_extension_profile profile
                 then parse_one_byte_header_extensions packet extension_payload_offset extension_payload_size
                 else if is_two_byte_extension_profile profile
                 then parse_two_byte_header_extensions packet extension_payload_offset extension_payload_size
                 else make_error ''rtp header extension profile is unsupported for rewrite'') (\<lambda>extensions.
          Inr (extensions, extension_payload_offset + extension_payload_size)))))"

definition rewriteable_payload_size :: "bytes \<Rightarrow> bool \<Rightarrow> nat \<Rightarrow> nat result" where
  "rewriteable_payload_size packet padding offset =
     (if offset > length packet then make_error ''rtp payload offset exceeds packet size''
      else let size = length packet - offset in
        if padding then
          if size = 0 then make_error ''rtp padding is set without payload bytes''
          else bindE (read_u8 packet (length packet - 1)) (\<lambda>pad.
            if unat pad = 0 \<or> unat pad > size then make_error ''rtp padding size is invalid''
            else Inr (size - unat pad))
        else Inr size)"

definition parse_rewriteable_rtp_packet :: "bytes \<Rightarrow> parsed_rtp_packet result" where
  "parse_rewriteable_rtp_packet packet =
     bindE (parse_rtp_packet_header packet) (\<lambda>header.
     bindE (read_u8 packet 0) (\<lambda>first.
     let padding = (first AND 0x20 \<noteq> 0);
         extension = (first AND 0x10 \<noteq> 0);
         csrc_count = first AND 0x0F;
         base = k_rtp_fixed_header_size + unat csrc_count * k_rtp_csrc_size in
     bindE (if extension then parse_rewriteable_extension packet base else Inr ([], base)) (\<lambda>(extensions, offset).
     bindE (rewriteable_payload_size packet padding offset) (\<lambda>size.
     Inr \<lparr>parsed_header = header, parsed_padding = padding, base_header_size = base,
          payload_offset = offset, payload_data_size = size, header_extensions = extensions\<rparr>))))"

section \<open>Lookups\<close>

definition find_parsed_header_extension :: "parsed_rtp_packet \<Rightarrow> u8 \<Rightarrow> parsed_header_extension option" where
  "find_parsed_header_extension packet i = find (\<lambda>extension. fst extension = i) (header_extensions packet)"

definition find_mid_extension_mapping :: "whep_rtp_media_mapping \<Rightarrow> whep_rtp_header_extension_mapping option" where
  "find_mid_extension_mapping mapping = find (\<lambda>extension. uri extension = k_mid_extension_uri) (extension_mappings mapping)"

definition find_payload_type_mapping :: "whep_rtp_media_mapping \<Rightarrow> u8 \<Rightarrow> whep_rtp_payload_type_mapping option" where
  "find_payload_type_mapping mapping pt = find (\<lambda>p. source_payload_type p = pt) (payload_types mapping)"

definition find_header_extension_mapping ::
  "whep_rtp_media_mapping \<Rightarrow> u8 \<Rightarrow> whep_rtp_header_extension_mapping option" where
  "find_header_extension_mapping mapping i = find (\<lambda>extension. source_id extension = i) (extension_mappings mapping)"

section \<open>Rewriting\<close>

definition make_media_error :: "string \<Rightarrow> string \<Rightarrow> 'a result" where
  "make_media_error mid message = make_error (''whep rtp media mid '' @ mid @ '' '' @ message)"

fun rewrite_source_extensions ::
  "whep_rtp_media_mapping \<Rightarrow> parsed_header_extension list \<Rightarrow> u8 set \<Rightarrow> parsed_header_extension list \<Rightarrow>
   (parsed_header_extension list \<times> u8 set) result" where
  "rewrite_source_extensions mapping [] used rewritten = Inr (rewritten, used)"
| "rewrite_source_extensions mapping ((i, v) # sources) used rewritten =
     (case find_header_extension_mapping mapping i of
        None \<Rightarrow> rewrite_source_extensions mapping sources used rewritten
      | Some m \<Rightarrow>
          if target_id m = 0 then rewrite_source_extensions mapping sources used rewritten
          else if header_extension_requires_regeneration (uri m)
          then rewrite_source_extensions mapping sources used rewritten
          else if target_id m \<in> used then rewrite_source_extensions mapping sources used rewritten
          else
            let target = (if uri m = k_mid_extension_uri then text_bytes (target_mid mapping) else v) in
            if length target > 255
            then make_media_error (target_mid mapping) ''header extension value is too large''
            else rewrite_source_extensions mapping sources (insert (target_id m) used)
                   (rewritten @ [(target_id m, target)]))"

definition add_mid_extension ::
  "whep_rtp_media_mapping \<Rightarrow> parsed_header_extension list \<times> u8 set \<Rightarrow> parsed_header_extension list \<times> u8 set" where
  "add_mid_extension mapping state =
     (case find_mid_extension_mapping mapping of
        None \<Rightarrow> state
      | Some m \<Rightarrow>
          if target_id m \<notin> snd state
          then (fst state @ [(target_id m, text_bytes (target_mid mapping))], insert (target_id m) (snd state))
          else state)"

definition add_transport_cc_extension ::
  "whep_rtp_media_mapping \<Rightarrow> u16 \<Rightarrow> parsed_header_extension list \<times> u8 set \<Rightarrow> parsed_header_extension list" where
  "add_transport_cc_extension mapping transport_sequence_number state =
     (if target_transport_cc_extension_id mapping \<noteq> 0 \<and> target_transport_cc_extension_id mapping \<notin> snd state
      then fst state @ [(target_transport_cc_extension_id mapping,
             [ucast (drop_bit 8 transport_sequence_number), ucast (transport_sequence_number AND 0xFF)])]
      else fst state)"

definition rewrite_header_extensions ::
  "parsed_rtp_packet \<Rightarrow> whep_rtp_media_mapping \<Rightarrow> u16 \<Rightarrow> parsed_header_extension list result" where
  "rewrite_header_extensions packet mapping transport_sequence_number =
     bindE (rewrite_source_extensions mapping (header_extensions packet) {} []) (\<lambda>state.
     Inr (sort_key fst (add_transport_cc_extension mapping transport_sequence_number
            (add_mid_extension mapping state))))"

section \<open>The extension block\<close>

definition extensions_fit_one_byte_format :: "parsed_header_extension list \<Rightarrow> bool" where
  "extensions_fit_one_byte_format extensions \<longleftrightarrow>
     list_all (\<lambda>(i, v). \<not> (i = 0 \<or> i \<ge> k_one_byte_extension_reserved_id) \<and> \<not> (v = [] \<or> length v > 16)) extensions"

definition one_byte_payload :: "parsed_header_extension list \<Rightarrow> bytes" where
  "one_byte_payload extensions =
     concat (map (\<lambda>(i, v). (push_bit 4 i OR of_nat (length v - 1)) # v) extensions)"

definition two_byte_payload :: "parsed_header_extension list \<Rightarrow> bytes" where
  "two_byte_payload extensions = concat (map (\<lambda>(i, v). i # of_nat (length v) # v) extensions)"

text \<open>The loop \<^verbatim>\<open>while ((payload.size() % 4U) != 0U) payload.push_back(0)\<close>.\<close>

function pad_to_words :: "bytes \<Rightarrow> bytes" where
  "pad_to_words payload = (if length payload mod 4 \<noteq> 0 then pad_to_words (payload @ [0]) else payload)"
  by pat_completeness auto
termination
  by (relation "measure (\<lambda>payload. (4 - length payload mod 4) mod 4)") (auto simp: mod_Suc)

definition build_header_extension_block :: "parsed_header_extension list \<Rightarrow> bool \<Rightarrow> bytes result" where
  "build_header_extension_block extensions allow_mixed =
     (if extensions = [] then Inr []
      else let use_one_byte_format = extensions_fit_one_byte_format extensions in
        if \<not> use_one_byte_format \<and> \<not> allow_mixed
        then make_error ''whep rtp target header extensions require two-byte format without extmap-allow-mixed''
        else let payload = pad_to_words (if use_one_byte_format then one_byte_payload extensions
                                         else two_byte_payload extensions);
                 length_words = length payload div 4 in
          if int length_words > 0xFFFF then make_error ''whep rtp header extension block is too large''
          else
            bindE (write_u16 (replicate 4 0) 0 (if use_one_byte_format then k_one_byte_extension_profile
                                                else k_two_byte_extension_profile_value)) (\<lambda>block.
            bindE (write_u16 block 2 (of_nat length_words)) (\<lambda>block.
            Inr (block @ payload))))"

declare parse_one_byte_loop.simps [simp del] parse_two_byte_loop.simps [simp del] pad_to_words.simps [simp del]

section \<open>Parsed extensions are the elements of the grammar\<close>

lemma parse_one_byte_loop_elements:
  assumes "one_byte_elements es (window packet offset e)" and "e \<le> length packet"
  shows "parse_one_byte_loop packet e offset acc = Inr (acc @ es)"
  using assms
proof (induction es "window packet offset e" arbitrary: offset acc rule: one_byte_elements.induct)
  case one_end
  then have "\<not> offset < e" by (metis window_Cons list.distinct(1))
  then show ?case by (subst parse_one_byte_loop.simps) simp
next
  case (one_pad es xs)
  note d = window_eq_ConsD [OF one_pad.hyps(3) [symmetric] one_pad.prems]
  then show ?case
    using one_pad by (subst parse_one_byte_loop.simps) (simp add: Let_def)
next
  case (one_elem b v es xs)
  note d = window_eq_ConsD [OF one_elem.hyps(6) [symmetric] one_elem.prems]
  note a = window_eq_appendD [OF d(3) one_elem.prems]
  from d(1) a have rest: "parse_one_byte_loop packet e (Suc offset + length v) acc' = Inr (acc' @ es)" for acc'
    using one_elem.hyps(5) one_elem.prems by simp
  have "take (length v) (drop (Suc offset) packet) = v"
    using a(3) d(1) by (simp add: window_def)
  then show ?case
    using one_elem.hyps rest d(1,2) a(1) one_elem.prems
    by (subst parse_one_byte_loop.simps) (simp add: Let_def)
qed

lemma parse_two_byte_loop_elements:
  assumes "two_byte_elements es (window packet offset e)" and "e \<le> length packet"
  shows "parse_two_byte_loop packet e offset acc = Inr (acc @ es)"
  using assms
proof (induction es "window packet offset e" arbitrary: offset acc rule: two_byte_elements.induct)
  case two_end
  then have "\<not> offset < e" by (metis window_Cons list.distinct(1))
  then show ?case by (subst parse_two_byte_loop.simps) simp
next
  case (two_pad es xs)
  note d = window_eq_ConsD [OF two_pad.hyps(3) [symmetric] two_pad.prems]
  then show ?case
    using two_pad by (subst parse_two_byte_loop.simps) (simp add: Let_def)
next
  case (two_elem k v n es xs)
  note d = window_eq_ConsD [OF two_elem.hyps(5) [symmetric] two_elem.prems]
  note d' = window_eq_ConsD [OF d(3) two_elem.prems]
  note a = window_eq_appendD [OF d'(3) two_elem.prems]
  from d'(1) a have rest:
    "parse_two_byte_loop packet e (Suc (Suc offset) + length v) acc' = Inr (acc' @ es)" for acc'
    using two_elem.hyps(4) two_elem.prems by simp
  have "take (length v) (drop (Suc (Suc offset)) packet) = v"
    using a(3) d'(1) by (simp add: window_def)
  then show ?case
    using two_elem.hyps rest d(1,2) d'(1,2) a(1) two_elem.prems
    by (subst parse_two_byte_loop.simps) (simp add: Let_def)
qed

section \<open>The block that is written\<close>

lemma pad_to_words_spec: "\<exists>k<4. pad_to_words payload = payload @ replicate k 0 \<and> (length payload + k) mod 4 = 0"
proof -
  have step: "length xs mod 4 \<noteq> 0 \<Longrightarrow> pad_to_words xs = pad_to_words (xs @ [0])"
    "length xs mod 4 = 0 \<Longrightarrow> pad_to_words xs = xs" for xs
    by (subst pad_to_words.simps; simp)+
  have "length payload mod 4 < 4" by simp
  then consider "length payload mod 4 = 0" | "length payload mod 4 = 1" | "length payload mod 4 = 2" | "length payload mod 4 = 3"
    by linarith
  then show ?thesis
  proof cases
    case 1
    then show ?thesis by (intro exI [of _ 0]) (simp add: step)
  next
    case 2
    then have "pad_to_words payload = payload @ [0, 0, 0]"
      using step(1) [of payload] step(1) [of "payload @ [0]"] step(1) [of "payload @ [0, 0]"] step(2) [of "payload @ [0, 0, 0]"]
      by (simp add: mod_Suc)
    then show ?thesis using 2 by (intro exI [of _ 3]) (simp add: numeral_3_eq_3 mod_Suc)
  next
    case 3
    then have "pad_to_words payload = payload @ [0, 0]"
      using step(1) [of payload] step(1) [of "payload @ [0]"] step(2) [of "payload @ [0, 0]"]
      by (simp add: mod_Suc)
    then show ?thesis using 3 by (intro exI [of _ 2]) (simp add: numeral_2_eq_2 mod_Suc)
  next
    case 4
    then have "pad_to_words payload = payload @ [0]"
      using step(1) [of payload] step(2) [of "payload @ [0]"] by (simp add: mod_Suc)
    then show ?thesis using 4 by (intro exI [of _ 1]) (simp add: mod_Suc)
  qed
qed

lemma one_byte_zeros: "one_byte_elements [] (replicate k 0)"
  by (induction k) (auto intro: one_byte_elements.intros)

lemma two_byte_zeros: "two_byte_elements [] (replicate k 0)"
  by (induction k) (auto intro: two_byte_elements.intros)

lemma one_byte_header:
  assumes "i \<noteq> 0" and "i < 15" and "0 < n" and "n \<le> 16"
  shows "drop_bit 4 (push_bit 4 i OR of_nat (n - 1) :: u8) = i"
    and "unat ((push_bit 4 i OR of_nat (n - 1) :: u8) AND 0x0F) + 1 = n"
    and "(push_bit 4 i OR of_nat (n - 1) :: u8) \<noteq> 0"
proof -
  have "\<forall>k < 16. \<forall>m < 16. drop_bit 4 (push_bit 4 (of_nat k) OR of_nat m :: u8) = of_nat k
      \<and> unat ((push_bit 4 (of_nat k) OR of_nat m :: u8) AND 0x0F) = m"
    by code_simp
  moreover have "unat i < 16" using assms(2) by (simp add: word_less_nat_alt)
  moreover have "n - 1 < 16" using assms(4) by simp
  ultimately have "drop_bit 4 (push_bit 4 (of_nat (unat i)) OR of_nat (n - 1) :: u8) = of_nat (unat i)"
    and size: "unat ((push_bit 4 (of_nat (unat i)) OR of_nat (n - 1) :: u8) AND 0x0F) = n - 1"
    by blast+
  then show id: "drop_bit 4 (push_bit 4 i OR of_nat (n - 1) :: u8) = i" by simp
  then show "(push_bit 4 i OR of_nat (n - 1) :: u8) \<noteq> 0" using assms(1) by (metis drop_bit_of_0)
  show "unat ((push_bit 4 i OR of_nat (n - 1) :: u8) AND 0x0F) + 1 = n" using size assms(3) by simp
qed

lemma one_byte_payload_elements:
  "extensions_fit_one_byte_format es \<Longrightarrow> one_byte_elements es (one_byte_payload es @ replicate k 0)"
proof (induction es)
  case Nil
  then show ?case by (simp add: one_byte_payload_def one_byte_zeros)
next
  case (Cons e es)
  obtain i v where e: "e = (i, v)" by (cases e)
  with Cons have fit: "i \<noteq> 0" "i < 15" "0 < length v" "length v \<le> 16"
    and rest: "one_byte_elements es (one_byte_payload es @ replicate k 0)"
    by (auto simp: extensions_fit_one_byte_format_def not_le)
  define b where "b = (push_bit 4 i OR of_nat (length v - 1) :: u8)"
  note h = one_byte_header [OF fit, folded b_def]
  have "drop_bit 4 b \<noteq> 15" using h(1) fit(2) by auto
  moreover have "one_byte_payload (e # es) = b # v @ one_byte_payload es"
    by (simp add: one_byte_payload_def e b_def)
  ultimately show ?case using one_elem [OF h(3) _ h(2) [symmetric] rest] h(1) e by simp
qed

lemma two_byte_payload_elements:
  "(\<And>i v. (i, v) \<in> set es \<Longrightarrow> i \<noteq> 0 \<and> length v \<le> 255) \<Longrightarrow>
   two_byte_elements es (two_byte_payload es @ replicate k 0)"
proof (induction es)
  case Nil
  then show ?case by (simp add: two_byte_payload_def two_byte_zeros)
next
  case (Cons e es)
  obtain i v where e: "e = (i, v)" by (cases e)
  have "i \<noteq> 0" "length v \<le> 255" using Cons.prems [of i v] e by auto
  moreover have "two_byte_elements es (two_byte_payload es @ replicate k 0)"
    using Cons by (metis list.set_intros(2))
  ultimately show ?case
    using two_elem [of i v "of_nat (length v)"] by (simp add: two_byte_payload_def e unat_of_nat take_bit_nat_eq_self)
qed

text \<open>
  \<open>extension_block\<close> relates a header-extension block of a packet, as bytes, to the elements it
  carries; a packet without the extension bit has no block and no elements.
\<close>

definition extension_block :: "bool \<Rightarrow> parsed_header_extension list \<Rightarrow> bytes \<Rightarrow> bool" where
  "extension_block present es block \<longleftrightarrow>
     (if present
      then \<exists>profile words payload. block = enc_u16 profile @ enc_u16 words @ payload \<and> length payload = unat words * 4
        \<and> (profile = 0xBEDE \<and> one_byte_elements es payload
           \<or> profile \<noteq> 0xBEDE \<and> is_two_byte_extension_profile profile \<and> two_byte_elements es payload)
      else block = [] \<and> es = [])"

lemma extension_blockI:
  assumes "block = enc_u16 profile @ enc_u16 words @ payload" and "length payload = unat words * 4"
    and "profile = 0xBEDE \<and> one_byte_elements es payload
      \<or> profile \<noteq> 0xBEDE \<and> is_two_byte_extension_profile profile \<and> two_byte_elements es payload"
  shows "extension_block True es block"
  using assms unfolding extension_block_def by auto

lemma block_header:
  "bindE (write_u16 (replicate 4 0) 0 a) (\<lambda>block. bindE (write_u16 block 2 w) (\<lambda>block. Inr (block @ payload)))
   = Inr (enc_u16 a @ enc_u16 w @ payload)"
  by (simp add: wire enc_u16_def numeral_eq_Suc del: access replicate.simps)

lemma build_header_extension_block_ok:
  assumes "build_header_extension_block es mixed = Inr block"
    and wf: "\<And>i v. (i, v) \<in> set es \<Longrightarrow> i \<noteq> 0 \<and> length v \<le> 255"
  shows "extension_block (es \<noteq> []) es block \<and> (block = [] \<longleftrightarrow> es = [])"
proof (cases "es = []")
  case True
  then show ?thesis using assms(1) by (simp add: build_header_extension_block_def extension_block_def)
next
  case False
  let ?one = "extensions_fit_one_byte_format es"
  let ?raw = "if ?one then one_byte_payload es else two_byte_payload es"
  obtain k where k: "k < 4" "pad_to_words ?raw = ?raw @ replicate k 0" "(length ?raw + k) mod 4 = 0"
    using pad_to_words_spec [of ?raw] by (elim exE conjE) (rule that)
  define payload where "payload = ?raw @ replicate k 0"
  have len: "length payload mod 4 = 0" using k(3) by (simp add: payload_def)
  from assms(1) False have block: "block = enc_u16 (if ?one then 0xBEDE else 0x1000) @ enc_u16 (of_nat (length payload div 4)) @ payload"
    and fits: "length payload div 4 < 2 ^ 16"
    unfolding build_header_extension_block_def Let_def k(2) block_header payload_def [symmetric]
    by (auto simp del: bindE.simps split: if_splits)
  have "length payload = length payload div 4 * 4" using len by presburger
  then have words: "length payload = unat (of_nat (length payload div 4) :: u16) * 4"
    using fits by (simp add: unat_of_nat_u16)
  have "?one \<Longrightarrow> one_byte_elements es payload" "\<not> ?one \<Longrightarrow> two_byte_elements es payload"
    using one_byte_payload_elements two_byte_payload_elements [OF wf] by (auto simp: payload_def)
  moreover have "is_two_byte_extension_profile 0x1000" by (simp add: is_two_byte_extension_profile_def)
  ultimately have "extension_block True es block" by (intro extension_blockI [OF block words]) auto
  then show ?thesis using False block by (simp add: enc_u16_def)
qed

section \<open>The anatomy of a packet that can be rewritten\<close>

text \<open>
  The bytes of an RTP packet, cut where the rewriter cuts it: two bytes of flags, the fields it
  replaces, the CSRC list, the extension block, and the payload with its padding.
\<close>

definition rtp_bytes :: "u8 \<Rightarrow> u8 \<Rightarrow> u16 \<Rightarrow> u32 \<Rightarrow> u32 \<Rightarrow> bytes \<Rightarrow> bytes \<Rightarrow> bytes \<Rightarrow> bytes" where
  "rtp_bytes b0 b1 seq ts source csrc block tail =
     b0 # b1 # enc_u16 seq @ enc_u32 ts @ enc_u32 source @ csrc @ block @ tail"

text \<open>What makes such a packet acceptable, given the extension elements \<open>es\<close> of its block.\<close>

definition rtp_bytes_ok :: "u8 \<Rightarrow> u8 \<Rightarrow> bytes \<Rightarrow> bytes \<Rightarrow> bytes \<Rightarrow> parsed_header_extension list \<Rightarrow> bool" where
  "rtp_bytes_ok b0 b1 csrc block tail es \<longleftrightarrow>
     drop_bit 6 b0 = 2 \<and> \<not> (192 \<le> b1 \<and> b1 \<le> 223) \<and> length csrc = unat (b0 AND 0x0F) * 4
     \<and> extension_block (b0 AND 0x10 \<noteq> 0) es block
     \<and> (b0 AND 0x20 \<noteq> 0 \<longrightarrow> tail \<noteq> [] \<and> 0 < unat (last tail) \<and> unat (last tail) \<le> length tail)"

lemma rtp_version_byte: "drop_bit 6 b = 2 \<longleftrightarrow> 128 \<le> b \<and> b \<le> (191 :: u8)"
proof -
  have "drop_bit 6 b = 2 \<longleftrightarrow> unat b div 64 = 2"
    unfolding word_unat_eq_iff unat_drop_bit_eq by (simp add: drop_bit_eq_div)
  also have "\<dots> \<longleftrightarrow> 128 \<le> unat b \<and> unat b \<le> 191" by auto
  finally show ?thesis by (simp add: word_le_nat_alt)
qed

lemma window_middle: "length xs = a \<Longrightarrow> window (xs @ ys @ zs) a (a + length ys) = ys"
  by (simp add: window_def)

lemma extension_blockE:
  assumes "extension_block True es block" and len: "length xs = offset"
  obtains profile words where "read_u16 (xs @ block @ ys) offset = Inr profile"
    and "read_u16 (xs @ block @ ys) (offset + 2) = Inr words"
    and "length block = 4 + unat words * 4" and "offset + 4 + unat words * 4 \<le> length (xs @ block @ ys)"
    and "let payload = window (xs @ block @ ys) (offset + 4) (offset + 4 + unat words * 4) in
      profile = 0xBEDE \<and> one_byte_elements es payload
      \<or> profile \<noteq> 0xBEDE \<and> is_two_byte_extension_profile profile \<and> two_byte_elements es payload"
proof -
  obtain profile words payload where b: "block = enc_u16 profile @ enc_u16 words @ payload"
    and l: "length payload = unat words * 4"
    and e: "profile = 0xBEDE \<and> one_byte_elements es payload
      \<or> profile \<noteq> 0xBEDE \<and> is_two_byte_extension_profile profile \<and> two_byte_elements es payload"
    using assms(1) unfolding extension_block_def by auto
  have w: "window (xs @ block @ ys) (offset + 4) (offset + 4 + unat words * 4) = payload"
    using window_middle [of "xs @ enc_u16 profile @ enc_u16 words" "offset + 4" payload ys] len l by (simp add: b)
  show thesis
  proof (rule that)
    show "read_u16 (xs @ block @ ys) offset = Inr profile" "read_u16 (xs @ block @ ys) (offset + 2) = Inr words"
      by (simp_all add: b wire len del: access)
  qed (use e w len l in \<open>simp_all add: b\<close>)
qed

lemma validate_extension_block:
  assumes "extension_block True es block" and "length xs = offset"
  shows "validate_header_extensions (xs @ block @ ys) offset = Inr (length block)"
proof (rule extension_blockE [OF assms, of ys], goal_cases)
  case (1 profile words)
  let ?d = "xs @ block @ ys"
  have "profile = 0xBEDE \<Longrightarrow> validate_one_byte_header_extensions ?d (offset + 4) (unat words * 4) = Inr ()"
    and "profile \<noteq> 0xBEDE \<Longrightarrow> validate_two_byte_header_extensions ?d (offset + 4) (unat words * 4) = Inr ()"
    using 1(4,5) validate_one_byte_loop_complete [of es ?d "offset + 4"]
      validate_two_byte_loop_complete [of es ?d "offset + 4"]
    by (auto simp: validate_one_byte_header_extensions_def validate_two_byte_header_extensions_def Let_def)
  then show ?case
    using 1 by (auto simp: validate_header_extensions_def Let_def is_one_byte_extension_profile_def simp del: access)
qed

lemma parse_extension_block:
  assumes "extension_block True es block" and "length xs = offset"
  shows "parse_rewriteable_extension (xs @ block @ ys) offset = Inr (es, offset + length block)"
proof (rule extension_blockE [OF assms, of ys], goal_cases)
  case (1 profile words)
  let ?d = "xs @ block @ ys"
  have "profile = 0xBEDE \<Longrightarrow> parse_one_byte_header_extensions ?d (offset + 4) (unat words * 4) = Inr es"
    and "profile \<noteq> 0xBEDE \<Longrightarrow> parse_two_byte_header_extensions ?d (offset + 4) (unat words * 4) = Inr es"
    using 1(4,5) parse_one_byte_loop_elements [of es ?d "offset + 4"]
      parse_two_byte_loop_elements [of es ?d "offset + 4"]
    by (auto simp: parse_one_byte_header_extensions_def parse_two_byte_header_extensions_def Let_def)
  then show ?case
    using 1 by (auto simp: parse_rewriteable_extension_def Let_def is_one_byte_extension_profile_def simp del: access)
qed

lemma parse_rtp_bytes:
  assumes "rtp_bytes_ok b0 b1 csrc block tail es"
  shows "parse_rewriteable_rtp_packet (rtp_bytes b0 b1 seq ts source csrc block tail) =
    Inr \<lparr>parsed_header = \<lparr>marker = (b1 AND 0x80 \<noteq> 0), payload_type = b1 AND 0x7F, sequence_number = seq,
           timestamp = ts, rtp_ssrc = source\<rparr>,
         parsed_padding = (b0 AND 0x20 \<noteq> 0), base_header_size = 12 + length csrc,
         payload_offset = 12 + length csrc + length block,
         payload_data_size = length tail - (if b0 AND 0x20 \<noteq> 0 then unat (last tail) else 0),
         header_extensions = es\<rparr>"
proof -
  let ?d = "rtp_bytes b0 b1 seq ts source csrc block tail"
  let ?head = "b0 # b1 # enc_u16 seq @ enc_u32 ts @ enc_u32 source @ csrc"
  have split: "?d = ?head @ block @ tail" by (simp add: rtp_bytes_def)
  have hl: "length ?head = 12 + unat (b0 AND 0x0F) * 4" and csrc: "length csrc = unat (b0 AND 0x0F) * 4"
    using assms by (simp_all add: rtp_bytes_ok_def)
  have len: "length ?d = 12 + unat (b0 AND 0x0F) * 4 + length block + length tail" by (simp add: split csrc)
  have first: "?d ! 0 = b0" "?d ! 1 = b1" "?d \<noteq> []" by (simp_all add: rtp_bytes_def)
  have fields: "read_u16 ?d 2 = Inr seq" "read_u32 ?d 4 = Inr ts" "read_u32 ?d 8 = Inr source"
    by (simp_all add: rtp_bytes_def wire del: access)
  have version: "has_rtp_version ?d" and rtp: "\<not> is_rtcp_packet ?d"
    using assms by (auto simp: rtp_bytes_ok_def rtp_bytes_def has_rtp_version_def is_rtcp_packet_def)
  have valid: "validate_header_extensions ?d (12 + unat (b0 AND 0x0F) * 4) = Inr (length block)"
    and ext: "parse_rewriteable_extension ?d (12 + unat (b0 AND 0x0F) * 4) = Inr (es, 12 + length csrc + length block)"
    if "b0 AND 0x10 \<noteq> 0"
    using that assms validate_extension_block [OF _ hl, of es block tail] parse_extension_block [OF _ hl, of es block tail]
    unfolding split by (simp_all add: rtp_bytes_ok_def)
  have none: "block = [] \<and> es = []" if "b0 AND 0x10 = 0"
    using that assms by (simp add: rtp_bytes_ok_def extension_block_def)
  have end_byte: "?d ! (length ?d - 1) = last ?d" using first(3) by (rule last_conv_nth [symmetric])
  have pad: "tail \<noteq> [] \<and> ?d ! (length ?d - 1) = last tail \<and> 0 < unat (last tail) \<and> unat (last tail) \<le> length tail"
    if "b0 AND 0x20 \<noteq> 0"
    using that assms unfolding end_byte by (simp add: rtp_bytes_ok_def split)
  have layout: "ok (inspect_rtp_packet_layout ?d)"
    unfolding inspect_rtp_packet_layout_def Let_def validate_rtp_padding_def
    using len version rtp first valid none pad
    by (cases "b0 AND 0x10 = 0"; cases "b0 AND 0x20 = 0") auto
  then have "parse_rtp_packet_header ?d = Inr \<lparr>marker = (b1 AND 0x80 \<noteq> 0), payload_type = b1 AND 0x7F,
      sequence_number = seq, timestamp = ts, rtp_ssrc = source\<rparr>"
    using fields first len by (auto simp: parse_rtp_packet_header_def ok_iff)
  then show ?thesis
    unfolding parse_rewriteable_rtp_packet_def rewriteable_payload_size_def Let_def
    using len first ext none pad csrc
    by (cases "b0 AND 0x10 = 0"; cases "b0 AND 0x20 = 0") auto
qed

text \<open>Every packet the rewriter accepts has this anatomy.\<close>

lemma block_of_validated:
  assumes "validate_header_extensions data offset = Inr n" and "parse_rewriteable_extension data offset = Inr (es, e)"
  shows "e = offset + n \<and> e \<le> length data \<and> extension_block True es (window data offset e)"
proof -
  from assms(1) obtain words where len: "offset + 4 \<le> length data"
    and words: "words = unat (be16 (data ! (offset + 2)) (data ! (offset + 3)))"
    and n: "n = 4 + words * 4" and fit: "offset + n \<le> length data"
    and one: "be16 (data ! offset) (data ! (offset + 1)) = 0xBEDE \<Longrightarrow>
      validate_one_byte_header_extensions data (offset + 4) (words * 4) = Inr ()"
    and two: "be16 (data ! offset) (data ! (offset + 1)) \<noteq> 0xBEDE \<Longrightarrow>
      is_two_byte_extension_profile (be16 (data ! offset) (data ! (offset + 1))) \<Longrightarrow>
      validate_two_byte_header_extensions data (offset + 4) (words * 4) = Inr ()"
    by (rule validate_header_extensionsE) (rule that)
  let ?profile = "be16 (data ! offset) (data ! (offset + 1))"
  let ?w = "be16 (data ! (offset + 2)) (data ! (offset + 3))"
  let ?p = "window data (offset + 4) (offset + 4 + words * 4)"
  have rd: "read_u16 data offset = Inr ?profile" "read_u16 data (offset + 2) = Inr ?w"
    using len by (simp_all add: numeral_3_eq_3)
  have e: "e = offset + n" and elems: "?profile = 0xBEDE \<and> one_byte_elements es ?p
      \<or> ?profile \<noteq> 0xBEDE \<and> is_two_byte_extension_profile ?profile \<and> two_byte_elements es ?p"
  proof -
    show "e = offset + n" using assms(2) rd words n
      by (auto simp: parse_rewriteable_extension_def Let_def bindE_Inr_iff simp del: access split: if_splits)
    have "\<exists>fs. one_byte_elements fs ?p" if "?profile = 0xBEDE"
      using one_byte.validate_sound [OF one [OF that]] by simp
    moreover have "\<exists>fs. two_byte_elements fs ?p" if "?profile \<noteq> 0xBEDE" "is_two_byte_extension_profile ?profile"
      using two_byte.validate_sound [OF two [OF that]] by simp
    moreover have "parse_one_byte_header_extensions data (offset + 4) (words * 4) = Inr fs" if "one_byte_elements fs ?p" for fs
      using parse_one_byte_loop_elements [OF that] fit n by (simp add: parse_one_byte_header_extensions_def)
    moreover have "parse_two_byte_header_extensions data (offset + 4) (words * 4) = Inr fs" if "two_byte_elements fs ?p" for fs
      using parse_two_byte_loop_elements [OF that] fit n by (simp add: parse_two_byte_header_extensions_def)
    ultimately show "?profile = 0xBEDE \<and> one_byte_elements es ?p
      \<or> ?profile \<noteq> 0xBEDE \<and> is_two_byte_extension_profile ?profile \<and> two_byte_elements es ?p"
      using assms(2) rd words
      by (fastforce simp: parse_rewriteable_extension_def Let_def bindE_Inr_iff is_one_byte_extension_profile_def
          simp del: access split: if_splits)
  qed
  have "window data offset e = window data offset (offset + 4) @ window data (offset + 4) e"
    using e n by (intro window_split) auto
  moreover have "e = offset + 4 + words * 4" using e n by simp
  moreover have "window data offset (offset + 4) = enc_u16 ?profile @ enc_u16 ?w"
    using len by (simp add: window_Cons enc_be numeral_eq_Suc)
  ultimately have "window data offset e = enc_u16 ?profile @ enc_u16 ?w @ ?p" by simp
  then show ?thesis using e fit n elems words extension_blockI [of _ ?profile ?w ?p es] by simp
qed

lemma parse_rewriteableE:
  assumes "parse_rewriteable_rtp_packet data = Inr p"
  obtains h l where "parse_rtp_packet_header data = Inr h" and "inspect_rtp_packet_layout data = Inr l"
    and "parsed_header p = h" and "12 \<le> length data"
    and "read_u16 data 2 = Inr (sequence_number h)" and "read_u32 data 4 = Inr (timestamp h)"
    and "read_u32 data 8 = Inr (rtp_ssrc h)"
    and "data ! 0 AND 0x10 \<noteq> 0 \<Longrightarrow> parse_rewriteable_extension data (12 + unat (data ! 0 AND 0x0F) * 4) =
      Inr (header_extensions p, payload_offset p)"
    and "data ! 0 AND 0x10 = 0 \<Longrightarrow> header_extensions p = [] \<and> payload_offset p = 12 + unat (data ! 0 AND 0x0F) * 4"
proof -
  from assms obtain h where h: "parse_rtp_packet_header data = Inr h" by (auto simp: parse_rewriteable_rtp_packet_def bindE_Inr_iff)
  then obtain l where l: "inspect_rtp_packet_layout data = Inr l" by (auto simp: parse_rtp_packet_header_def bindE_Inr_iff)
  then have len: "12 \<le> length data" by (rule inspect_rtp_packet_layoutE)
  then have "data \<noteq> []" by auto
  from h have fields: "read_u16 data 2 = Inr (sequence_number h)" "read_u32 data 4 = Inr (timestamp h)"
    "read_u32 data 8 = Inr (rtp_ssrc h)"
    by (auto simp: parse_rtp_packet_header_def bindE_Inr_iff simp del: access)
  show thesis
  proof (rule that [OF h l _ len fields])
    show "parsed_header p = h" using assms h
      by (auto simp: parse_rewriteable_rtp_packet_def bindE_Inr_iff Let_def split: prod.splits if_splits)
    show "data ! 0 AND 0x10 \<noteq> 0 \<Longrightarrow> parse_rewriteable_extension data (12 + unat (data ! 0 AND 0x0F) * 4) =
      Inr (header_extensions p, payload_offset p)"
      using assms \<open>data \<noteq> []\<close>
      by (auto simp: parse_rewriteable_rtp_packet_def bindE_Inr_iff Let_def split: if_splits)
    show "data ! 0 AND 0x10 = 0 \<Longrightarrow> header_extensions p = [] \<and> payload_offset p = 12 + unat (data ! 0 AND 0x0F) * 4"
      using assms \<open>data \<noteq> []\<close>
      by (auto simp: parse_rewriteable_rtp_packet_def bindE_Inr_iff Let_def split: if_splits)
  qed
qed

lemma first_twelve:
  assumes "12 \<le> length data"
  shows "data = data ! 0 # data ! 1 # enc_u16 (be16 (data ! 2) (data ! 3))
    @ enc_u32 (be32 (data ! 4) (data ! 5) (data ! 6) (data ! 7))
    @ enc_u32 (be32 (data ! 8) (data ! 9) (data ! 10) (data ! 11)) @ drop 12 data"
proof -
  have "data = window data 0 12 @ drop 12 data" by (simp add: window_def)
  also have "window data 0 12 = [data ! 0, data ! 1, data ! 2, data ! 3, data ! 4, data ! 5, data ! 6, data ! 7,
      data ! 8, data ! 9, data ! 10, data ! 11]"
    using assms by (simp add: window_Cons numeral_eq_Suc)
  finally show ?thesis by (simp add: enc_be)
qed

lemma drop_window:
  assumes "a \<le> b"
  shows "drop a data = window data a b @ drop b data"
proof -
  have "drop b data = drop (b - a) (drop a data)" using assms by simp
  then show ?thesis unfolding window_def by (simp only: append_take_drop_id)
qed

lemma rewriteable_anatomy:
  assumes "parse_rewriteable_rtp_packet data = Inr p"
  obtains b0 b1 csrc block tail where
    "data = rtp_bytes b0 b1 (sequence_number (parsed_header p)) (timestamp (parsed_header p))
      (rtp_ssrc (parsed_header p)) csrc block tail"
    and "rtp_bytes_ok b0 b1 csrc block tail (header_extensions p)"
proof (rule parse_rewriteableE [OF assms], goal_cases)
  case (1 h l)
  let ?base = "12 + unat (data ! 0 AND 0x0F) * 4" and ?off = "payload_offset p"
  from 1(3) have rtp: "has_rtp_version data" "\<not> is_rtcp_packet data"
    and size: "?base \<le> header_size l" "header_size l + media_payload_size l + padding_size l = length data"
    and ext: "data ! 0 AND 0x10 \<noteq> 0 \<Longrightarrow> validate_header_extensions data ?base = Inr (header_size l - ?base)"
    and noext: "data ! 0 AND 0x10 = 0 \<Longrightarrow> header_size l = ?base"
    and pad: "data ! 0 AND 0x20 \<noteq> 0 \<Longrightarrow> 0 < padding_size l \<and> padding_size l = unat (last data)"
    by (auto elim: inspect_rtp_packet_layoutE)
  have off: "?off = header_size l \<and> extension_block (data ! 0 AND 0x10 \<noteq> 0) (header_extensions p) (window data ?base ?off)"
  proof (cases "data ! 0 AND 0x10 = 0")
    case True
    then show ?thesis using 1(10) noext by (simp add: extension_block_def)
  next
    case False
    then show ?thesis using block_of_validated [OF ext 1(9)] size(1) by auto
  qed
  have version: "drop_bit 6 (data ! 0) = 2" using rtp(1) by (auto simp: has_rtp_version_def split: list.splits)
  then have "\<not> (192 \<le> data ! 1 \<and> data ! 1 \<le> 223)"
    using rtp(2) 1(5) by (cases data) (auto simp: is_rtcp_packet_def is_rtp_or_rtcp_packet_def rtp_version_byte split: if_splits)
  moreover have "drop ?off data \<noteq> [] \<and> last (drop ?off data) = last data" if "data ! 0 AND 0x20 \<noteq> 0"
    using pad [OF that] off size(2) by (simp add: last_drop)
  ultimately have ok: "rtp_bytes_ok (data ! 0) (data ! 1) (window data 12 ?base) (window data ?base ?off) (drop ?off data)
      (header_extensions p)"
    using version off pad size by (auto simp: rtp_bytes_ok_def)
  have "drop 12 data = window data 12 ?base @ window data ?base ?off @ drop ?off data"
    using off size(1) drop_window [of 12 ?base data] drop_window [of ?base ?off data] by simp
  then have "data = rtp_bytes (data ! 0) (data ! 1) (sequence_number h) (timestamp h) (rtp_ssrc h)
      (window data 12 ?base) (window data ?base ?off) (drop ?off data)"
    using first_twelve [OF 1(5)] 1(5-8) unfolding rtp_bytes_def by (simp add: numeral_eq_Suc)
  then show ?case using that ok 1(4) by blast
qed

section \<open>What the translated extensions are\<close>

text \<open>
  A negotiated mapping: the target ids are pairwise different, none is zero, the transport-wide
  sequence number has an id of its own, and the target mid fits an extension element.
\<close>

definition mapping_wf :: "whep_rtp_media_mapping \<Rightarrow> bool" where
  "mapping_wf m \<longleftrightarrow> distinct (map target_id (extension_mappings m)) \<and> 0 \<notin> target_id ` set (extension_mappings m)
     \<and> target_transport_cc_extension_id m \<notin> target_id ` set (extension_mappings m) \<and> length (target_mid m) \<le> 255"

text \<open>The element \<open>(i, v)\<close> translates one of the source's elements.\<close>

definition translated :: "whep_rtp_media_mapping \<Rightarrow> parsed_header_extension list \<Rightarrow> u8 \<Rightarrow> bytes \<Rightarrow> bool" where
  "translated m sources i v \<longleftrightarrow> (\<exists>j w x. (j, w) \<in> set sources \<and> find_header_extension_mapping m j = Some x
     \<and> target_id x = i \<and> i \<noteq> 0 \<and> \<not> header_extension_requires_regeneration (uri x)
     \<and> v = (if uri x = k_mid_extension_uri then text_bytes (target_mid m) else w) \<and> length v \<le> 255)"

lemma rewrite_source_extensions_spec:
  assumes "rewrite_source_extensions m sources used acc = Inr (es, used')"
    and "set (map fst acc) = used" and "distinct (map fst acc)"
    and "\<And>i v. (i, v) \<in> set acc \<Longrightarrow> translated m all i v" and "set sources \<subseteq> set all"
  shows "set (map fst es) = used' \<and> distinct (map fst es) \<and> (\<forall>(i, v) \<in> set es. translated m all i v)"
  using assms
proof (induction sources arbitrary: used acc)
  case (Cons s sources)
  obtain j w where s: "s = (j, w)" by fastforce
  have sub: "set sources \<subseteq> set all" using Cons.prems(5) by simp
  note skip = Cons.IH [OF _ Cons.prems(2-4) sub]
  show ?case
  proof (cases "find_header_extension_mapping m j")
    case None
    then show ?thesis using skip Cons.prems(1) s by simp
  next
    case (Some x)
    let ?v = "if uri x = k_mid_extension_uri then text_bytes (target_mid m) else w"
    show ?thesis
    proof (cases "target_id x = 0 \<or> header_extension_requires_regeneration (uri x) \<or> target_id x \<in> used")
      case True
      then have "rewrite_source_extensions m sources used acc = Inr (es, used')"
        using Cons.prems(1) Some s by (auto split: if_splits)
      then show ?thesis by (rule skip)
    next
      case False
      then have rest: "rewrite_source_extensions m sources (insert (target_id x) used) (acc @ [(target_id x, ?v)]) = Inr (es, used')"
        and small: "length ?v \<le> 255"
        using Cons.prems(1) Some s by (auto simp: Let_def make_media_error_def split: if_splits)
      have tr: "translated m all (target_id x) ?v"
        unfolding translated_def using False Some small Cons.prems(5) s
        by (intro exI [of _ j] exI [of _ w] exI [of _ x]) auto
      show ?thesis using False Cons.prems(2-4) tr by (intro Cons.IH [OF rest _ _ _ sub]) auto
    qed
  qed
qed auto

lemma find_header_extension_mapping_in: "find_header_extension_mapping m j = Some x \<Longrightarrow> x \<in> set (extension_mappings m)"
  by (auto simp: find_header_extension_mapping_def find_Some_iff)

lemma find_mid_extension_mapping_in:
  "find_mid_extension_mapping m = Some x \<Longrightarrow> x \<in> set (extension_mappings m) \<and> uri x = k_mid_extension_uri"
  by (auto simp: find_mid_extension_mapping_def find_Some_iff)

lemma translated_facts:
  "translated m sources i v \<Longrightarrow> i \<noteq> 0 \<and> length v \<le> 255 \<and> i \<in> target_id ` set (extension_mappings m)"
  by (auto simp: translated_def dest: find_header_extension_mapping_in)

text \<open>The element \<open>(i, v)\<close> names the subscriber's mid.\<close>

definition names_mid :: "whep_rtp_media_mapping \<Rightarrow> u8 \<Rightarrow> bytes \<Rightarrow> bool" where
  "names_mid m i v \<longleftrightarrow> (\<exists>x. find_mid_extension_mapping m = Some x \<and> i = target_id x \<and> v = text_bytes (target_mid m))"

lemma names_mid_facts:
  "names_mid m i v \<Longrightarrow> mapping_wf m \<Longrightarrow> i \<noteq> 0 \<and> length v \<le> 255 \<and> i \<in> target_id ` set (extension_mappings m)"
  by (auto simp: names_mid_def mapping_wf_def text_bytes_def dest: find_mid_extension_mapping_in)

lemma translated_mid:
  assumes "translated m sources (target_id x) v" and x: "find_mid_extension_mapping m = Some x" and "mapping_wf m"
  shows "v = text_bytes (target_mid m)"
proof -
  obtain j w y where y: "find_header_extension_mapping m j = Some y" "target_id y = target_id x"
    "v = (if uri y = k_mid_extension_uri then text_bytes (target_mid m) else w)"
    using assms(1) by (fastforce simp: translated_def)
  have "y = x"
    using y(1,2) find_header_extension_mapping_in find_mid_extension_mapping_in [OF x] assms(3)
    by (auto simp: mapping_wf_def distinct_map inj_on_def)
  then show ?thesis using y(3) find_mid_extension_mapping_in [OF x] by simp
qed

lemma add_mid_extension_spec:
  assumes "add_mid_extension m (es, used) = (es', used')" and wf: "mapping_wf m"
    and "set (map fst es) = used" and "distinct (map fst es)" and tr: "\<forall>(i, v) \<in> set es. translated m sources i v"
  shows "set (map fst es') = used'" and "distinct (map fst es')"
    and "\<forall>(i, v) \<in> set es'. translated m sources i v \<or> names_mid m i v"
    and "find_mid_extension_mapping m = Some x \<Longrightarrow> (target_id x, text_bytes (target_mid m)) \<in> set es'"
proof -
  show "set (map fst es') = used'" "distinct (map fst es')"
    "\<forall>(i, v) \<in> set es'. translated m sources i v \<or> names_mid m i v"
    using assms by (auto simp: add_mid_extension_def names_mid_def split: option.splits if_splits)
  assume x: "find_mid_extension_mapping m = Some x"
  show "(target_id x, text_bytes (target_mid m)) \<in> set es'"
  proof (cases "target_id x \<in> used")
    case False
    then show ?thesis using assms(1) x by (auto simp: add_mid_extension_def)
  next
    case True
    then obtain v where v: "(target_id x, v) \<in> set es" using assms(3) by force
    then have "v = text_bytes (target_mid m)" using tr translated_mid [OF _ x wf] by fastforce
    then show ?thesis using v assms(1) True x by (auto simp: add_mid_extension_def)
  qed
qed

text \<open>
  The translated block: pairwise different non-zero ids, the subscriber's mid under the mid id, the
  new transport-wide number under its id, and nothing else but copies of source elements whose
  extension is not bound to the source's own transport.
\<close>

lemma rewrite_header_extensions_spec:
  assumes "rewrite_header_extensions p m tsn = Inr es" and wf: "mapping_wf m"
  shows "distinct (map fst es)"
    and "(i, v) \<in> set es \<Longrightarrow> i \<noteq> 0 \<and> length v \<le> 255"
    and "find_mid_extension_mapping m = Some x \<Longrightarrow> (target_id x, text_bytes (target_mid m)) \<in> set es"
    and "target_transport_cc_extension_id m \<noteq> 0 \<Longrightarrow> (target_transport_cc_extension_id m, enc_u16 tsn) \<in> set es"
    and "(i, v) \<in> set es \<Longrightarrow> translated m (header_extensions p) i v \<or> names_mid m i v
      \<or> i = target_transport_cc_extension_id m \<and> v = enc_u16 tsn"
proof -
  let ?tcc = "target_transport_cc_extension_id m"
  obtain es0 used where loop: "rewrite_source_extensions m (header_extensions p) {} [] = Inr (es0, used)"
    and es: "es = sort_key fst (add_transport_cc_extension m tsn (add_mid_extension m (es0, used)))"
    using assms(1) by (auto simp: rewrite_header_extensions_def bindE_Inr_iff)
  have base: "set (map fst es0) = used" "distinct (map fst es0)" "\<forall>(i, v) \<in> set es0. translated m (header_extensions p) i v"
    using rewrite_source_extensions_spec [OF loop, of "header_extensions p"] by auto
  obtain es1 used1 where mid: "add_mid_extension m (es0, used) = (es1, used1)" by fastforce
  note one = add_mid_extension_spec [OF mid wf base]
  have tcc: "?tcc \<notin> used1"
    using one(1,3) wf translated_facts names_mid_facts [OF _ wf] by (fastforce simp: mapping_wf_def)
  have enc: "[ucast (drop_bit 8 tsn), ucast (tsn AND 0xFF)] = enc_u16 tsn"
    by (simp add: enc_u16_def ucast_byte16)
  have out: "set es = set es1 \<union> (if ?tcc \<noteq> 0 then {(?tcc, enc_u16 tsn)} else {})"
    using tcc by (auto simp: es mid add_transport_cc_extension_def enc)
  have "distinct (map fst (add_transport_cc_extension m tsn (es1, used1)))"
    using one(1,2) tcc by (auto simp: add_transport_cc_extension_def)
  then show "distinct (map fst es)" unfolding es mid by (simp add: distinct_map)
  show "(i, v) \<in> set es \<Longrightarrow> i \<noteq> 0 \<and> length v \<le> 255"
    using out one(3) translated_facts names_mid_facts [OF _ wf] by (fastforce split: if_splits)
  show "find_mid_extension_mapping m = Some x \<Longrightarrow> (target_id x, text_bytes (target_mid m)) \<in> set es"
    and "?tcc \<noteq> 0 \<Longrightarrow> (?tcc, enc_u16 tsn) \<in> set es"
    using out one(4) by auto
  show "(i, v) \<in> set es \<Longrightarrow> translated m (header_extensions p) i v \<or> names_mid m i v \<or> i = ?tcc \<and> v = enc_u16 tsn"
    using out one(3) by (fastforce split: if_splits)
qed

section \<open>Lookups in a packet of known anatomy\<close>

lemma find_in_rtp_bytes:
  assumes ok: "rtp_bytes_ok b0 b1 csrc block tail es" and "i \<noteq> 0"
  shows "find_rtp_header_extension (rtp_bytes b0 b1 seq ts source csrc block tail) i = Inr (map_of es i)"
proof (cases "b0 AND 0x10 = 0")
  case True
  then show ?thesis using assms by (simp add: find_rtp_header_extension_eq rtp_bytes_def rtp_bytes_ok_def extension_block_def)
next
  case False
  let ?head = "b0 # b1 # enc_u16 seq @ enc_u32 ts @ enc_u32 source @ csrc"
  have split: "rtp_bytes b0 b1 seq ts source csrc block tail = ?head @ block @ tail" by (simp add: rtp_bytes_def)
  have hl: "length ?head = 12 + unat (b0 AND 0x0F) * 4" and block: "extension_block True es block"
    using ok False by (simp_all add: rtp_bytes_ok_def)
  show ?thesis
  proof (rule extension_blockE [OF block hl, of tail], goal_cases)
    case (1 profile words)
    let ?d = "?head @ block @ tail" and ?o = "12 + unat (b0 AND 0x0F) * 4"
    define payload where "payload = window ?d (?o + 4) (?o + 4 + unat words * 4)"
    have sub: "subspan ?d (?o + 4) (unat words * 4) = Inr payload" using 1(4) by (simp add: payload_def window_def del: append.simps)
    have first: "?d ! 0 = b0" "12 \<le> length ?d" "drop_bit 6 b0 = 2" "?d \<noteq> []" using ok by (simp_all add: rtp_bytes_ok_def)
    have find: "find_rtp_header_extension ?d i =
      (if profile = 0xBEDE then if 15 \<le> i then Inr None else find_one_byte_extension payload i
       else if profile AND 0xFFF0 = 0x1000 then find_two_byte_extension payload i else Inr None)"
      unfolding find_rtp_header_extension_eq Let_def
      using 1(1-4) first False assms(2) sub by (simp del: access append.simps add: read_u8_first)
    have e: "profile = 0xBEDE \<and> one_byte_elements es payload
      \<or> profile \<noteq> 0xBEDE \<and> is_two_byte_extension_profile profile \<and> two_byte_elements es payload"
      using 1(5) unfolding payload_def Let_def .
    have "map_of es i = None" if "15 \<le> i" "one_byte_elements es payload"
      using one_byte_ids [OF that(2)] that(1) by (fastforce simp: map_of_eq_None_iff)
    then show ?case
      using e find one_byte.find_elements [of es payload i] two_byte.find_elements [of es payload i]
      unfolding split is_two_byte_extension_profile_def by auto
  qed
qed

section \<open>Memory safety\<close>

lemma parse_one_byte_loop_safe: "e \<le> length packet \<Longrightarrow> fault_free (parse_one_byte_loop packet e offset acc)"
proof (induction packet e offset acc rule: parse_one_byte_loop.induct)
  case (1 packet e offset acc)
  then show ?case by (subst parse_one_byte_loop.simps) (auto simp: Let_def)
qed

lemma parse_two_byte_loop_safe: "e \<le> length packet \<Longrightarrow> fault_free (parse_two_byte_loop packet e offset acc)"
proof (induction packet e offset acc rule: parse_two_byte_loop.induct)
  case (1 packet e offset acc)
  then show ?case by (subst parse_two_byte_loop.simps) (auto simp: Let_def)
qed

lemma parse_rewriteable_extension_safe [safe]: "fault_free (parse_rewriteable_extension packet offset)"
  unfolding parse_rewriteable_extension_def Let_def parse_one_byte_header_extensions_def parse_two_byte_header_extensions_def
  by (intro safe parse_one_byte_loop_safe parse_two_byte_loop_safe) auto

lemma parse_rewriteable_rtp_packet_safe [safe]: "fault_free (parse_rewriteable_rtp_packet packet)"
proof (cases "parse_rtp_packet_header packet")
  case (Inl e)
  then show ?thesis using parse_rtp_packet_header_safe [of packet] by (simp add: parse_rewriteable_rtp_packet_def fault_free_def)
next
  case (Inr h)
  then have "packet \<noteq> []"
    by (auto simp: parse_rtp_packet_header_def bindE_Inr_iff elim!: inspect_rtp_packet_layoutE)
  then show ?thesis using Inr
    unfolding parse_rewriteable_rtp_packet_def rewriteable_payload_size_def Let_def
    by (auto intro!: fault_free_bindE parse_rewriteable_extension_safe split: prod.splits)
qed

lemma build_header_extension_block_safe [safe]: "fault_free (build_header_extension_block es mixed)"
  unfolding build_header_extension_block_def Let_def block_header by (auto split: if_splits)

lemma rewrite_source_extensions_safe: "fault_free (rewrite_source_extensions m sources used acc)"
  by (induction m sources used acc rule: rewrite_source_extensions.induct)
    (auto simp: Let_def make_media_error_def split: option.splits)

lemma rewrite_header_extensions_safe [safe]: "fault_free (rewrite_header_extensions p m tsn)"
  unfolding rewrite_header_extensions_def by (intro safe rewrite_source_extensions_safe)

end
