(* ===== verification/Whep_Rtp_Rewriter.thy ===== *)
theory Whep_Rtp_Rewriter
  imports Whep_Rtp_Extensions
begin

unbundle bit_operations_syntax

text \<open>
  The WHEP rewriter proper (the second part of \<^verbatim>\<open>src/media/whep_rtp_rewriter.cpp\<close>): the class
  \<^verbatim>\<open>whep_rtp_rewriter\<close>, which turns a publisher's RTP packets into packets of one subscriber's
  session, keeps the subscriber's sequence numbers and timestamps continuous while publishers come
  and go, and builds retransmissions.

  The state of the class (\<^verbatim>\<open>whep_rtp_rewriter::impl\<close>) is the record \<open>rewriter\<close>; an operation returns its
  result and the state it leaves behind, also when it fails after changing it. Unordered maps are
  maps. A moved-from string or container is empty, as the standard libraries leave it.
  \<^verbatim>\<open>make_whep_rtp_rewriter_config\<close>, which computes the media mappings from two SDP summaries, is not
  part of this theory: the mappings are given.
\<close>

section \<open>Data\<close>

record whep_rtp_rewriter_config =
  config_source_session_id :: string
  config_media :: "whep_rtp_media_mapping list"

datatype whep_rtp_rewrite_state = rewritten | dropped

record whep_rtp_rewrite_result =
  rewrite_state :: whep_rtp_rewrite_state
  res_packet :: bytes
  res_reason :: string
  res_kind :: string
  res_codec_name :: string
  res_rtx :: bool
  keyframe_request_needed :: bool
  res_source_ssrc :: u32
  res_target_ssrc :: u32
  res_source_payload_type :: u8
  res_target_payload_type :: u8
  res_source_sequence_number :: u16
  res_target_sequence_number :: u16
  res_source_timestamp :: u32
  res_target_timestamp :: u32
  res_payload_size :: nat
  res_transport_sequence_number :: "u16 option"

record whep_rtp_retransmission_result =
  retx_packet :: bytes
  retx_kind :: string
  retx_codec_name :: string
  retx_rtx :: bool
  original_target_ssrc :: u32
  retx_target_ssrc :: u32
  original_target_payload_type :: u8
  retx_target_payload_type :: u8
  original_target_sequence_number :: u16
  retx_target_sequence_number :: u16
  retx_target_timestamp :: u32
  retx_payload_size :: nat
  retx_transport_sequence_number :: "u16 option"

record whep_rtp_timestamp_mapping =
  mapped_target_ssrc :: u32
  mapped_target_timestamp :: u32

abbreviation (input) k_sequence_cache_limit :: nat where "k_sequence_cache_limit \<equiv> 4096"
abbreviation (input) k_rtx_original_sequence_size :: nat where "k_rtx_original_sequence_size \<equiv> 2"

section \<open>The sequence number cache\<close>

record sequence_number_cache =
  cache_values :: "u16 \<Rightarrow> u16 option"
  cache_order :: "(u16 \<times> u16) list"

definition empty_sequence_number_cache :: sequence_number_cache where
  "empty_sequence_number_cache = \<lparr>cache_values = (\<lambda>_. None), cache_order = []\<rparr>"

fun sequence_cache_evict :: "(u16 \<times> u16) list \<Rightarrow> (u16 \<Rightarrow> u16 option) \<Rightarrow> sequence_number_cache" where
  "sequence_cache_evict [] vs = \<lparr>cache_values = vs, cache_order = []\<rparr>"
| "sequence_cache_evict (oldest # order) vs =
     (if length (oldest # order) > k_sequence_cache_limit
      then sequence_cache_evict order
             (if vs (fst oldest) = Some (snd oldest) then vs(fst oldest := None) else vs)
      else \<lparr>cache_values = vs, cache_order = oldest # order\<rparr>)"

definition sequence_cache_remember :: "sequence_number_cache \<Rightarrow> u16 \<Rightarrow> u16 \<Rightarrow> sequence_number_cache" where
  "sequence_cache_remember c source target =
     sequence_cache_evict (cache_order c @ [(source, target)]) ((cache_values c)(source \<mapsto> target))"

definition sequence_cache_find :: "sequence_number_cache \<Rightarrow> u16 \<Rightarrow> u16 option" where
  "sequence_cache_find c source = cache_values c source"

definition sequence_cache_clear :: "sequence_number_cache \<Rightarrow> sequence_number_cache" where
  "sequence_cache_clear c = c\<lparr>cache_values := (\<lambda>_. None), cache_order := []\<rparr>"

section \<open>The state of one media\<close>

record media_runtime_state =
  mapping :: whep_rtp_media_mapping
  source_primary_ssrc :: "u32 option"
  source_rtx_ssrc :: "u32 option"
  source_primary_payload_type :: "u8 option"
  source_clock_rate :: u32
  primary_sequence_initialized :: bool
  rtx_sequence_initialized :: bool
  next_primary_sequence_number :: u16
  next_rtx_sequence_number :: u16
  timestamp_initialized :: bool
  last_target_timestamp :: u32
  source_timestamp_anchor :: "u32 option"
  target_timestamp_anchor :: u32
  primary_sequence_numbers :: sequence_number_cache

definition fresh_media :: "whep_rtp_media_mapping \<Rightarrow> media_runtime_state" where
  "fresh_media m = \<lparr>mapping = m, source_primary_ssrc = None, source_rtx_ssrc = None, source_primary_payload_type = None,
     source_clock_rate = 0, primary_sequence_initialized = False, rtx_sequence_initialized = False,
     next_primary_sequence_number = 0, next_rtx_sequence_number = 0, timestamp_initialized = False,
     last_target_timestamp = 0, source_timestamp_anchor = None, target_timestamp_anchor = 0,
     primary_sequence_numbers = empty_sequence_number_cache\<rparr>"

definition make_initial_sequence_number :: "u32 \<Rightarrow> u16" where
  "make_initial_sequence_number ssrc = ucast ((ssrc XOR drop_bit 16 ssrc) AND 0xFFFF)"

definition make_initial_timestamp_offset :: "u32 \<Rightarrow> u32" where
  "make_initial_timestamp_offset ssrc = ssrc * 0x9E3779B1"

definition timestamp_is_newer :: "u32 \<Rightarrow> u32 \<Rightarrow> bool" where
  "timestamp_is_newer v reference \<longleftrightarrow> sint (v - reference) > 0"

definition clear_source_state :: "media_runtime_state \<Rightarrow> media_runtime_state" where
  "clear_source_state s = s\<lparr>source_primary_ssrc := None, source_rtx_ssrc := None, source_primary_payload_type := None,
     source_clock_rate := 0, source_timestamp_anchor := None, target_timestamp_anchor := 0,
     primary_sequence_numbers := sequence_cache_clear (primary_sequence_numbers s)\<rparr>"

definition begin_primary_source :: "media_runtime_state \<Rightarrow> u32 \<Rightarrow> u8 \<Rightarrow> u32 \<Rightarrow> u32 \<Rightarrow> media_runtime_state" where
  "begin_primary_source s source_ssrc pt source_timestamp rate =
     (let s = s\<lparr>source_primary_ssrc := Some source_ssrc, source_rtx_ssrc := None, source_primary_payload_type := Some pt,
                source_clock_rate := rate, primary_sequence_numbers := sequence_cache_clear (primary_sequence_numbers s),
                source_timestamp_anchor := Some source_timestamp\<rparr>;
          s = (if timestamp_initialized s
               then s\<lparr>target_timestamp_anchor := last_target_timestamp s + max 1 (rate div 100)\<rparr>
               else s\<lparr>target_timestamp_anchor := source_timestamp + make_initial_timestamp_offset (target_ssrc (mapping s)),
                      timestamp_initialized := True\<rparr>)
      in s\<lparr>last_target_timestamp := target_timestamp_anchor s\<rparr>)"

definition allocate_sequence_number :: "media_runtime_state \<Rightarrow> bool \<Rightarrow> u16 \<times> media_runtime_state" where
  "allocate_sequence_number s rtx =
     (if rtx then
        let s = (if \<not> rtx_sequence_initialized s
                 then s\<lparr>next_rtx_sequence_number := make_initial_sequence_number (target_rtx_ssrc (mapping s)),
                        rtx_sequence_initialized := True\<rparr> else s)
        in (next_rtx_sequence_number s, s\<lparr>next_rtx_sequence_number := next_rtx_sequence_number s + 1\<rparr>)
      else
        let s = (if \<not> primary_sequence_initialized s
                 then s\<lparr>next_primary_sequence_number := make_initial_sequence_number (target_ssrc (mapping s)),
                        primary_sequence_initialized := True\<rparr> else s)
        in (next_primary_sequence_number s, s\<lparr>next_primary_sequence_number := next_primary_sequence_number s + 1\<rparr>))"

definition translate_timestamp :: "media_runtime_state \<Rightarrow> u32 \<Rightarrow> u32 \<times> media_runtime_state" where
  "translate_timestamp s source_timestamp =
     (let s = (if source_timestamp_anchor s = None
               then begin_primary_source s (case source_primary_ssrc s of None \<Rightarrow> 0 | Some v \<Rightarrow> v)
                      (case source_primary_payload_type s of None \<Rightarrow> 0 | Some v \<Rightarrow> v) source_timestamp
                      (max 1 (source_clock_rate s))
               else s);
          target_timestamp = target_timestamp_anchor s + (source_timestamp - the (source_timestamp_anchor s));
          s = (if timestamp_is_newer target_timestamp (last_target_timestamp s)
               then s\<lparr>last_target_timestamp := target_timestamp\<rparr> else s)
      in (target_timestamp, s))"

section \<open>The rewriter\<close>

record source_ssrc_binding =
  binding_media_index :: nat
  binding_rtx :: bool

record rewriter =
  source_available :: bool
  source_session_id :: string
  media :: "media_runtime_state list"
  bindings :: "u32 \<Rightarrow> source_ssrc_binding option"

definition empty_rewriter :: rewriter where
  "empty_rewriter = \<lparr>source_available = False, source_session_id = [], media = [], bindings = (\<lambda>_. None)\<rparr>"

definition bind_media :: "nat \<Rightarrow> media_runtime_state \<Rightarrow> (u32 \<Rightarrow> source_ssrc_binding option) \<Rightarrow> (u32 \<Rightarrow> source_ssrc_binding option)" where
  "bind_media index s b =
     (let b = (case source_primary_ssrc s of None \<Rightarrow> b
               | Some ssrc \<Rightarrow> b(ssrc \<mapsto> \<lparr>binding_media_index = index, binding_rtx = False\<rparr>))
      in case source_rtx_ssrc s of None \<Rightarrow> b
         | Some ssrc \<Rightarrow> b(ssrc \<mapsto> \<lparr>binding_media_index = index, binding_rtx = True\<rparr>))"

definition rebuild_bindings :: "rewriter \<Rightarrow> rewriter" where
  "rebuild_bindings r =
     r\<lparr>bindings := fold (\<lambda>index b. bind_media index (media r ! index) b) [0 ..< length (media r)] (\<lambda>_. None)\<rparr>"

definition erase_bindings_for_media :: "rewriter \<Rightarrow> nat \<Rightarrow> rewriter" where
  "erase_bindings_for_media r index =
     r\<lparr>bindings := (\<lambda>ssrc. case bindings r ssrc of None \<Rightarrow> None
                     | Some b \<Rightarrow> if binding_media_index b = index then None else Some b)\<rparr>"

definition moved_from :: "media_runtime_state \<Rightarrow> media_runtime_state" where
  "moved_from s = s\<lparr>mapping := (mapping s)\<lparr>kind := [], source_mid := [], target_mid := [], payload_types := [],
                                          extension_mappings := []\<rparr>,
                    primary_sequence_numbers := empty_sequence_number_cache\<rparr>"

definition reconfigure_media :: "bool \<Rightarrow> media_runtime_state \<Rightarrow> whep_rtp_media_mapping \<Rightarrow> media_runtime_state" where
  "reconfigure_media same_source previous m =
     (let s = previous\<lparr>mapping := m\<rparr>;
          s = (if target_rtx_ssrc (mapping previous) \<noteq> target_rtx_ssrc m
               then s\<lparr>rtx_sequence_initialized := False, next_rtx_sequence_number := 0\<rparr> else s)
      in if \<not> same_source \<or> source_mid (mapping previous) \<noteq> source_mid m then clear_source_state s else s)"

definition previous_index :: "media_runtime_state list \<Rightarrow> whep_rtp_media_mapping \<Rightarrow> nat option" where
  "previous_index previous m =
     find (\<lambda>i. kind (mapping (previous ! i)) = kind m \<and> target_ssrc (mapping (previous ! i)) = target_ssrc m)
       [0 ..< length previous]"

fun set_config_loop ::
  "bool \<Rightarrow> media_runtime_state list \<Rightarrow> whep_rtp_media_mapping list \<Rightarrow> media_runtime_state list" where
  "set_config_loop same_source previous [] = []"
| "set_config_loop same_source previous (m # ms) =
     (case previous_index previous m of
        Some i \<Rightarrow> reconfigure_media same_source (previous ! i) m
          # set_config_loop same_source (previous[i := moved_from (previous ! i)]) ms
      | None \<Rightarrow> fresh_media m # set_config_loop same_source previous ms)"

definition set_config :: "rewriter \<Rightarrow> whep_rtp_rewriter_config \<Rightarrow> rewriter" where
  "set_config r config =
     (let same_source = (source_available r \<and> source_session_id r = config_source_session_id config)
      in rebuild_bindings (r\<lparr>media := set_config_loop same_source (media r) (config_media config),
           source_session_id := config_source_session_id config, source_available := True\<rparr>))"

definition clear_source :: "rewriter \<Rightarrow> rewriter" where
  "clear_source r = r\<lparr>source_available := False, source_session_id := [], bindings := (\<lambda>_. None),
                      media := map clear_source_state (media r)\<rparr>"

section \<open>Which media a packet belongs to\<close>

definition mid_matches :: "parsed_rtp_packet \<Rightarrow> media_runtime_state \<Rightarrow> bool" where
  "mid_matches packet current =
     (case find_mid_extension_mapping (mapping current) of
        None \<Rightarrow> False
      | Some m \<Rightarrow> (case find_parsed_header_extension packet (source_id m) of
            None \<Rightarrow> False
          | Some (_, v) \<Rightarrow> v = text_bytes (source_mid (mapping current))))"

fun resolve_media_by_mid ::
  "parsed_rtp_packet \<Rightarrow> nat \<Rightarrow> media_runtime_state list \<Rightarrow> (nat \<times> whep_rtp_payload_type_mapping) option \<Rightarrow>
   (nat \<times> whep_rtp_payload_type_mapping) option" where
  "resolve_media_by_mid packet index [] resolved = resolved"
| "resolve_media_by_mid packet index (current # rest) resolved =
     (case find_payload_type_mapping (mapping current) (payload_type (parsed_header packet)) of
        None \<Rightarrow> resolve_media_by_mid packet (Suc index) rest resolved
      | Some pt \<Rightarrow>
          if \<not> mid_matches packet current then resolve_media_by_mid packet (Suc index) rest resolved
          else if resolved \<noteq> None then None
          else resolve_media_by_mid packet (Suc index) rest (Some (index, pt)))"

fun resolve_media_by_payload_type ::
  "u8 \<Rightarrow> nat \<Rightarrow> media_runtime_state list \<Rightarrow> (nat \<times> whep_rtp_payload_type_mapping) option \<Rightarrow>
   (nat \<times> whep_rtp_payload_type_mapping) option" where
  "resolve_media_by_payload_type source_pt index [] resolved = resolved"
| "resolve_media_by_payload_type source_pt index (current # rest) resolved =
     (case find_payload_type_mapping (mapping current) source_pt of
        None \<Rightarrow> resolve_media_by_payload_type source_pt (Suc index) rest resolved
      | Some pt \<Rightarrow>
          if resolved \<noteq> None then None
          else resolve_media_by_payload_type source_pt (Suc index) rest (Some (index, pt)))"

definition resolve_by_binding :: "rewriter \<Rightarrow> parsed_rtp_packet \<Rightarrow> (nat \<times> whep_rtp_payload_type_mapping) option" where
  "resolve_by_binding r parsed =
     (case bindings r (rtp_ssrc (parsed_header parsed)) of
        None \<Rightarrow> None
      | Some b \<Rightarrow>
          if binding_media_index b < length (media r) then
            (case find_payload_type_mapping (mapping (media r ! binding_media_index b)) (payload_type (parsed_header parsed)) of
               None \<Rightarrow> None
             | Some pt \<Rightarrow> if is_rtx pt = binding_rtx b then Some (binding_media_index b, pt) else None)
          else None)"

definition resolve_media :: "rewriter \<Rightarrow> parsed_rtp_packet \<Rightarrow> (nat \<times> whep_rtp_payload_type_mapping) option" where
  "resolve_media r parsed =
     (case resolve_by_binding r parsed of
        Some x \<Rightarrow> Some x
      | None \<Rightarrow> (case resolve_media_by_mid parsed 0 (media r) None of
            Some x \<Rightarrow> Some x
          | None \<Rightarrow> resolve_media_by_payload_type (payload_type (parsed_header parsed)) 0 (media r) None))"

section \<open>Rewriting one packet\<close>

definition make_drop_result :: "parsed_rtp_packet \<Rightarrow> string \<Rightarrow> whep_rtp_rewrite_result" where
  "make_drop_result parsed reason =
     \<lparr>rewrite_state = dropped, res_packet = [], res_reason = reason, res_kind = [], res_codec_name = [], res_rtx = False,
      keyframe_request_needed = False, res_source_ssrc = rtp_ssrc (parsed_header parsed), res_target_ssrc = 0,
      res_source_payload_type = payload_type (parsed_header parsed), res_target_payload_type = 0,
      res_source_sequence_number = sequence_number (parsed_header parsed), res_target_sequence_number = 0,
      res_source_timestamp = timestamp (parsed_header parsed), res_target_timestamp = 0, res_payload_size = 0,
      res_transport_sequence_number = None\<rparr>"

text \<open>
  The first half of \<^verbatim>\<open>rewrite\<close>: the media's source side is brought up to date. The result is \<open>None\<close>
  when the packet is dropped here; otherwise whether a key frame has to be asked for.
\<close>

definition update_rtx_source :: "rewriter \<Rightarrow> nat \<Rightarrow> parsed_rtp_packet \<Rightarrow> bool option \<times> rewriter" where
  "update_rtx_source r index parsed =
     (let current = media r ! index; ssrc = rtp_ssrc (parsed_header parsed) in
      if source_primary_ssrc current = None then (None, r)
      else if source_rtx_ssrc current \<noteq> Some ssrc then
        let b = (case source_rtx_ssrc current of None \<Rightarrow> bindings r | Some old \<Rightarrow> (bindings r)(old := None)) in
        (Some False, r\<lparr>media := (media r)[index := current\<lparr>source_rtx_ssrc := Some ssrc\<rparr>],
                       bindings := b(ssrc \<mapsto> \<lparr>binding_media_index = index, binding_rtx = True\<rparr>)\<rparr>)
      else (Some False, r))"

definition update_primary_source ::
  "rewriter \<Rightarrow> nat \<Rightarrow> whep_rtp_payload_type_mapping \<Rightarrow> parsed_rtp_packet \<Rightarrow> bool option \<times> rewriter" where
  "update_primary_source r index pt parsed =
     (let current = media r ! index; h = parsed_header parsed;
          source_changed = (source_primary_ssrc current \<noteq> Some (rtp_ssrc h) \<or>
            source_primary_payload_type current \<noteq> Some (payload_type h) \<or> source_clock_rate current \<noteq> clock_rate pt);
          started = begin_primary_source current (rtp_ssrc h) (payload_type h) (timestamp h) (clock_rate pt) in
      if source_changed then
        let r = erase_bindings_for_media r index in
        (Some (kind (mapping current) = ''video''),
         r\<lparr>media := (media r)[index := started],
           bindings := (bindings r)(rtp_ssrc h \<mapsto> \<lparr>binding_media_index = index, binding_rtx = False\<rparr>)\<rparr>)
      else if source_timestamp_anchor current = None then (Some False, r\<lparr>media := (media r)[index := started]\<rparr>)
      else (Some False, r))"

text \<open>The bytes of the rewritten packet, built by insertion and then patched in place.\<close>

definition assemble_rewritten ::
  "bytes \<Rightarrow> parsed_rtp_packet \<Rightarrow> bytes \<Rightarrow> u8 \<Rightarrow> u16 \<Rightarrow> u32 \<Rightarrow> u32 \<Rightarrow> u16 option \<Rightarrow> bytes result" where
  "assemble_rewritten packet parsed block target_pt seq ts ssrc original =
     bindE (subspan packet 0 (base_header_size parsed)) (\<lambda>out.
     bindE (read_u8 out 0) (\<lambda>first.
     bindE (write_u8 out 0 (if block = [] then first AND NOT 0x10 else first OR 0x10)) (\<lambda>out.
     bindE (subspan packet (payload_offset parsed) (length packet - payload_offset parsed)) (\<lambda>payload.
     let out = out @ block @ payload in
     bindE (read_u8 out 1) (\<lambda>second.
     bindE (write_u8 out 1 ((second AND 0x80) OR target_pt)) (\<lambda>out.
     bindE (write_u16 out 2 seq) (\<lambda>out.
     bindE (write_u32 out 4 ts) (\<lambda>out.
     bindE (write_u32 out 8 ssrc) (\<lambda>out.
     case original of
       None \<Rightarrow> Inr out
     | Some v \<Rightarrow> write_u16 out (base_header_size parsed + length block) v)))))))))"

text \<open>What an RTX packet of the publisher retransmits, in the subscriber's numbering.\<close>

definition target_original :: "media_runtime_state \<Rightarrow> bytes \<Rightarrow> parsed_rtp_packet \<Rightarrow> (string + u16) result" where
  "target_original current packet parsed =
     (if payload_data_size parsed < k_rtx_original_sequence_size
      then Inr (Inl ''source rtx payload is shorter than original sequence number'')
      else bindE (read_u16 packet (payload_offset parsed)) (\<lambda>source_original.
        case sequence_cache_find (primary_sequence_numbers current) source_original of
          None \<Rightarrow> Inr (Inl ''source rtx original sequence number is not cached'')
        | Some v \<Rightarrow> Inr (Inr v)))"

definition emit_rewritten ::
  "rewriter \<Rightarrow> nat \<Rightarrow> whep_rtp_payload_type_mapping \<Rightarrow> bytes \<Rightarrow> parsed_rtp_packet \<Rightarrow> u16 \<Rightarrow> bool \<Rightarrow> u16 option \<Rightarrow> u32 \<Rightarrow>
   whep_rtp_rewrite_result result \<times> rewriter" where
  "emit_rewritten r index pt packet parsed tsn keyframe original ssrc =
     (let h = parsed_header parsed;
          (seq, current) = allocate_sequence_number (media r ! index) (is_rtx pt);
          (ts, current) = translate_timestamp current (timestamp h);
          r = r\<lparr>media := (media r)[index := current]\<rparr>;
          out = bindE (rewrite_header_extensions parsed (mapping current) tsn) (\<lambda>extensions.
                bindE (build_header_extension_block extensions (target_extmap_allow_mixed (mapping current))) (\<lambda>block.
                assemble_rewritten packet parsed block (target_payload_type pt) seq ts ssrc original)) in
      case out of
        Inl e \<Rightarrow> (Inl e, r)
      | Inr bytes \<Rightarrow>
          let r = (if original = None
                   then r\<lparr>media := (media r)[index := current\<lparr>primary_sequence_numbers :=
                          sequence_cache_remember (primary_sequence_numbers current) (sequence_number h) seq\<rparr>]\<rparr>
                   else r) in
          (Inr \<lparr>rewrite_state = rewritten, res_packet = bytes, res_reason = [], res_kind = kind (mapping current),
                res_codec_name = codec_name pt, res_rtx = is_rtx pt, keyframe_request_needed = keyframe,
                res_source_ssrc = rtp_ssrc h, res_target_ssrc = ssrc, res_source_payload_type = payload_type h,
                res_target_payload_type = target_payload_type pt, res_source_sequence_number = sequence_number h,
                res_target_sequence_number = seq, res_source_timestamp = timestamp h, res_target_timestamp = ts,
                res_payload_size = payload_data_size parsed,
                res_transport_sequence_number =
                  (if target_transport_cc_extension_id (mapping current) \<noteq> 0 then Some tsn else None)\<rparr>, r))"

definition rewrite_resolved ::
  "rewriter \<Rightarrow> nat \<Rightarrow> whep_rtp_payload_type_mapping \<Rightarrow> bytes \<Rightarrow> parsed_rtp_packet \<Rightarrow> u16 \<Rightarrow>
   whep_rtp_rewrite_result result \<times> rewriter" where
  "rewrite_resolved r index pt packet parsed tsn =
     (case (if is_rtx pt then update_rtx_source r index parsed else update_primary_source r index pt parsed) of
        (None, r) \<Rightarrow> (Inr (make_drop_result parsed ''source rtx arrived before primary media''), r)
      | (Some keyframe, r) \<Rightarrow>
          let current = media r ! index;
              ssrc = (if is_rtx pt then target_rtx_ssrc (mapping current) else target_ssrc (mapping current)) in
          if ssrc = 0 then (Inr (make_drop_result parsed ''target ssrc is missing''), r)
          else if is_rtx pt then
            (case target_original current packet parsed of
               Inl e \<Rightarrow> (Inl e, r)
             | Inr (Inl reason) \<Rightarrow> (Inr (make_drop_result parsed reason), r)
             | Inr (Inr original) \<Rightarrow> emit_rewritten r index pt packet parsed tsn keyframe (Some original) ssrc)
          else emit_rewritten r index pt packet parsed tsn keyframe None ssrc)"

definition rewrite :: "rewriter \<Rightarrow> bytes \<Rightarrow> u16 \<Rightarrow> whep_rtp_rewrite_result result \<times> rewriter" where
  "rewrite r packet transport_sequence_number =
     (case parse_rewriteable_rtp_packet packet of
        Inl e \<Rightarrow> (Inl e, r)
      | Inr parsed \<Rightarrow>
          if \<not> source_available r \<or> media r = []
          then (Inr (make_drop_result parsed ''publisher source is unavailable''), r)
          else
            (case resolve_media r parsed of
               None \<Rightarrow> (Inr (make_drop_result parsed ''source media mapping is ambiguous or missing''), r)
             | Some (index, pt) \<Rightarrow> rewrite_resolved r index pt packet parsed transport_sequence_number))"

section \<open>Retransmission\<close>

definition nack_enabled :: "rewriter \<Rightarrow> u32 \<Rightarrow> u8 \<Rightarrow> bool" where
  "nack_enabled r ssrc target_pt =
     (case find (\<lambda>current. target_ssrc (mapping current) = ssrc) (media r) of
        None \<Rightarrow> False
      | Some current \<Rightarrow>
          (case find (\<lambda>p. \<not> is_rtx p \<and> target_payload_type p = target_pt) (payload_types (mapping current)) of
             None \<Rightarrow> False
           | Some p \<Rightarrow> nack p))"

definition write_transport_sequence_number :: "bytes \<Rightarrow> u8 \<Rightarrow> u16 \<Rightarrow> bytes result" where
  "write_transport_sequence_number packet extension_id sequence_no =
     bindE (find_rtp_header_extension_span packet extension_id) (\<lambda>span.
     case span of
       None \<Rightarrow> make_error ''whep transport-wide sequence extension is missing or invalid''
     | Some (offset, v) \<Rightarrow>
         if length v \<noteq> 2 then make_error ''whep transport-wide sequence extension is missing or invalid''
         else write_u16 packet offset sequence_no)"

definition stamp_transport_sequence :: "whep_rtp_media_mapping \<Rightarrow> u16 \<Rightarrow> bytes \<Rightarrow> (bytes \<times> u16 option) result" where
  "stamp_transport_sequence m tsn packet =
     (if target_transport_cc_extension_id m \<noteq> 0 then
        bindE (write_transport_sequence_number packet (target_transport_cc_extension_id m) tsn) (\<lambda>packet.
        Inr (packet, Some tsn))
      else Inr (packet, None))"

definition assemble_rtx :: "bytes \<Rightarrow> parsed_rtp_packet \<Rightarrow> u8 \<Rightarrow> u16 \<Rightarrow> u32 \<Rightarrow> bytes result" where
  "assemble_rtx packet parsed target_pt seq ssrc =
     bindE (subspan packet 0 (payload_offset parsed)) (\<lambda>out.
     bindE (subspan packet (payload_offset parsed) (length packet - payload_offset parsed)) (\<lambda>payload.
     let original = sequence_number (parsed_header parsed);
         out = out @ [ucast (drop_bit 8 original), ucast (original AND 0xFF)] @ payload in
     bindE (read_u8 out 1) (\<lambda>second.
     bindE (write_u8 out 1 ((second AND 0x80) OR target_pt)) (\<lambda>out.
     bindE (write_u16 out 2 seq) (\<lambda>out.
     write_u32 out 8 ssrc)))))"

definition find_index :: "('a \<Rightarrow> bool) \<Rightarrow> 'a list \<Rightarrow> nat option" where
  "find_index P xs = find (\<lambda>i. P (xs ! i)) [0 ..< length xs]"

definition build_retransmission :: "rewriter \<Rightarrow> bytes \<Rightarrow> u16 \<Rightarrow> whep_rtp_retransmission_result result \<times> rewriter" where
  "build_retransmission r packet tsn =
     (case parse_rewriteable_rtp_packet packet of
        Inl e \<Rightarrow> (Inl e, r)
      | Inr parsed \<Rightarrow>
        let h = parsed_header parsed in
        (case find_index (\<lambda>current. target_ssrc (mapping current) = rtp_ssrc h) (media r) of
           None \<Rightarrow> (make_error ''whep retransmission target ssrc is unknown'', r)
         | Some index \<Rightarrow>
           let current = media r ! index;
               m = mapping current;
               primary = find (\<lambda>p. \<not> is_rtx p \<and> target_payload_type p = payload_type h) (payload_types m);
               rtx = find (\<lambda>p. is_rtx p \<and> target_associated_payload_type p = payload_type h) (payload_types m) in
           (case primary of
              None \<Rightarrow> (make_error ''whep retransmission target payload type has no generic nack'', r)
            | Some p \<Rightarrow>
              if \<not> nack p then (make_error ''whep retransmission target payload type has no generic nack'', r)
              else
                let result = \<lparr>retx_packet = [], retx_kind = kind m, retx_codec_name = codec_name p, retx_rtx = False,
                      original_target_ssrc = rtp_ssrc h, retx_target_ssrc = 0,
                      original_target_payload_type = payload_type h, retx_target_payload_type = 0,
                      original_target_sequence_number = sequence_number h, retx_target_sequence_number = 0,
                      retx_target_timestamp = timestamp h, retx_payload_size = 0, retx_transport_sequence_number = None\<rparr> in
                (case (if target_rtx_ssrc m = 0 then None else rtx) of
                   None \<Rightarrow>
                     (bindE (stamp_transport_sequence m tsn packet) (\<lambda>(packet, stamp).
                      Inr (result\<lparr>retx_packet := packet, retx_target_ssrc := rtp_ssrc h,
                                  retx_target_payload_type := payload_type h,
                                  retx_target_sequence_number := sequence_number h,
                                  retx_payload_size := payload_data_size parsed,
                                  retx_transport_sequence_number := stamp\<rparr>)), r)
                 | Some x \<Rightarrow>
                     let (seq, current) = allocate_sequence_number current True in
                     (bindE (assemble_rtx packet parsed (target_payload_type x) seq (target_rtx_ssrc m)) (\<lambda>out.
                      bindE (stamp_transport_sequence m tsn out) (\<lambda>(out, stamp).
                      Inr (result\<lparr>retx_packet := out, retx_rtx := True, retx_target_ssrc := target_rtx_ssrc m,
                                  retx_target_payload_type := target_payload_type x, retx_target_sequence_number := seq,
                                  retx_payload_size := payload_data_size parsed + k_rtx_original_sequence_size,
                                  retx_transport_sequence_number := stamp\<rparr>))),
                      r\<lparr>media := (media r)[index := current]\<rparr>)))))"

section \<open>Queries\<close>

definition source_ssrc_for_target_ssrc :: "rewriter \<Rightarrow> u32 \<Rightarrow> u32 option" where
  "source_ssrc_for_target_ssrc r ssrc =
     (if ssrc = 0 then None
      else case find (\<lambda>current. (target_ssrc (mapping current) = ssrc \<or> target_rtx_ssrc (mapping current) = ssrc)
                       \<and> source_primary_ssrc current \<noteq> None) (media r) of
             None \<Rightarrow> None
           | Some current \<Rightarrow> source_primary_ssrc current)"

definition map_source_timestamp :: "rewriter \<Rightarrow> u32 \<Rightarrow> u32 \<Rightarrow> whep_rtp_timestamp_mapping option" where
  "map_source_timestamp r ssrc source_timestamp =
     (if ssrc = 0 then None
      else case find (\<lambda>current. source_primary_ssrc current = Some ssrc \<and> source_timestamp_anchor current \<noteq> None
                       \<and> timestamp_initialized current) (media r) of
             None \<Rightarrow> None
           | Some current \<Rightarrow> Some \<lparr>mapped_target_ssrc = target_ssrc (mapping current),
               mapped_target_timestamp = target_timestamp_anchor current
                 + (source_timestamp - the (source_timestamp_anchor current))\<rparr>)"

definition whep_rtp_rewrite_state_to_string :: "whep_rtp_rewrite_state \<Rightarrow> string" where
  "whep_rtp_rewrite_state_to_string v = (case v of rewritten \<Rightarrow> ''rewritten'' | dropped \<Rightarrow> ''dropped'')"

section \<open>The bytes of a rewritten packet\<close>

lemma overwrite_fields [wire]:
  "write_u16 (enc_u16 x @ ys) 0 v = Inr (enc_u16 v @ ys)"
  "write_u32 (enc_u32 y @ ys) 0 w = Inr (enc_u32 w @ ys)"
  by (simp_all add: u16f.wr_bytes u32f.wr_bytes write_bytes_def)

text \<open>The first byte of the new packet: only the extension bit may differ.\<close>

definition rewritten_first :: "u8 \<Rightarrow> bytes \<Rightarrow> u8" where
  "rewritten_first b0 block = (if block = [] then b0 AND NOT 0x10 else b0 OR 0x10)"

lemma rewritten_first_bits:
  "drop_bit 6 (rewritten_first b0 block) = drop_bit 6 b0"
  "rewritten_first b0 block AND 0x0F = b0 AND 0x0F"
  "rewritten_first b0 block AND 0x20 = b0 AND 0x20"
  "rewritten_first b0 block AND 0x10 \<noteq> 0 \<longleftrightarrow> block \<noteq> []"
proof -
  have "drop_bit 6 b0 AND mask 2 = drop_bit 6 b0"
    by (rule bit_word_eqI) (auto simp: bit_simps dest: bit_imp_le_length)
  then have "drop_bit 6 b0 AND 3 = drop_bit 6 b0" by (simp add: mask_eq_exp_minus_1)
  then show "drop_bit 6 (rewritten_first b0 block) = drop_bit 6 b0" by (simp add: rewritten_first_def)
qed (simp_all add: rewritten_first_def bit.conj_disj_distrib2 and.assoc)

lemma second_byte:
  assumes "t < 128"
  shows "((b AND 0x80) OR t :: u8) AND 0x80 \<noteq> 0 \<longleftrightarrow> b AND 0x80 \<noteq> 0"
    and "((b AND 0x80) OR t :: u8) AND 0x7F = t"
    and "192 \<le> ((b AND 0x80) OR t) \<and> ((b AND 0x80) OR t) \<le> 223 \<longleftrightarrow> b AND 0x80 \<noteq> 0 \<and> 64 \<le> t \<and> t \<le> 95"
proof -
  let ?m = "b AND 0x80 \<noteq> 0"
  have e: "bit (0x80 :: u8) n \<longleftrightarrow> n = 7" for n
  proof -
    have "bit (2 ^ 7 :: u8) n \<longleftrightarrow> possible_bit TYPE(u8) n \<and> n = 7" by (simp only: bit_exp_iff)
    then show ?thesis by auto
  qed
  have "b AND 0x80 = (if bit b 7 then 0x80 else 0)"
    by (rule bit_word_eqI) (auto simp only: bit_and_iff e bit_0_eq split: if_splits)
  then have b: "b AND 0x80 = (if ?m then 0x80 else 0)" by auto
  note mb = marker_byte [OF assms, of ?m, folded b]
  show "((b AND 0x80) OR t :: u8) AND 0x80 \<noteq> 0 \<longleftrightarrow> b AND 0x80 \<noteq> 0" "((b AND 0x80) OR t :: u8) AND 0x7F = t"
    using mb(1,2) by auto
  show "192 \<le> ((b AND 0x80) OR t) \<and> ((b AND 0x80) OR t) \<le> 223 \<longleftrightarrow> b AND 0x80 \<noteq> 0 \<and> 64 \<le> t \<and> t \<le> 95"
    using mb(3) b assms by (cases ?m) (auto simp: word_le_nat_alt word_less_nat_alt)
qed

lemma assemble_rewritten_bytes:
  assumes "base_header_size parsed = 12 + length csrc" and "payload_offset parsed = 12 + length csrc + length block0"
    and packet: "packet = rtp_bytes b0 b1 seq0 ts0 ssrc0 csrc block0 tail"
  shows "assemble_rewritten packet parsed block pt seq ts ssrc None =
      Inr (rtp_bytes (rewritten_first b0 block) ((b1 AND 0x80) OR pt) seq ts ssrc csrc block tail)"
    and "2 \<le> length tail \<Longrightarrow> assemble_rewritten packet parsed block pt seq ts ssrc (Some v) =
      Inr (rtp_bytes (rewritten_first b0 block) ((b1 AND 0x80) OR pt) seq ts ssrc csrc block (enc_u16 v @ drop 2 tail))"
proof -
  define head where "head = b0 # b1 # enc_u16 seq0 @ enc_u32 ts0 @ enc_u32 ssrc0 @ csrc"
  have p: "packet = head @ block0 @ tail" and l: "length head = 12 + length csrc" by (simp_all add: packet rtp_bytes_def head_def)
  have parts: "subspan packet 0 (base_header_size parsed) = Inr head"
    "subspan packet (payload_offset parsed) (length packet - payload_offset parsed) = Inr tail"
    using assms(1,2) l by (simp_all add: p)
  let ?out = "\<lambda>t. rtp_bytes (rewritten_first b0 block) ((b1 AND 0x80) OR pt) seq ts ssrc csrc block t"
  have built: "assemble_rewritten packet parsed block pt seq ts ssrc original =
      (case original of None \<Rightarrow> Inr (?out tail) | Some v \<Rightarrow> write_u16 (?out tail) (12 + length csrc + length block) v)" for original
    unfolding assemble_rewritten_def parts Let_def
    by (cases original) (simp_all add: wire rtp_bytes_def rewritten_first_def assms(1) head_def del: access)
  then show "assemble_rewritten packet parsed block pt seq ts ssrc None = Inr (?out tail)" by simp
  assume "2 \<le> length tail"
  then have "write_u16 tail 0 v = Inr (enc_u16 v @ drop 2 tail)"
    by (simp add: u16f.wr_bytes write_bytes_def numeral_2_eq_2)
  then show "assemble_rewritten packet parsed block pt seq ts ssrc (Some v) = Inr (?out (enc_u16 v @ drop 2 tail))"
    unfolding built by (simp add: rtp_bytes_def wire del: access)
qed

lemma rewriteable_fields:
  assumes "rtp_bytes_ok b0 b1 csrc block tail es"
    and "parse_rewriteable_rtp_packet (rtp_bytes b0 b1 seq ts source csrc block tail) = Inr p"
  shows "base_header_size p = 12 + length csrc" and "payload_offset p = 12 + length csrc + length block"
    and "payload_data_size p = length tail - (if b0 AND 0x20 \<noteq> 0 then unat (last tail) else 0)"
    and "parsed_padding p \<longleftrightarrow> b0 AND 0x20 \<noteq> 0"
    and "parsed_header p = \<lparr>marker = (b1 AND 0x80 \<noteq> 0), payload_type = b1 AND 0x7F, sequence_number = seq,
           timestamp = ts, rtp_ssrc = source\<rparr>"
    and "header_extensions p = es"
  using parse_rtp_bytes [OF assms(1), of seq ts source] assms(2) by auto

section \<open>What one operation does to a media\<close>

lemma mapping_begin [simp]: "mapping (begin_primary_source s a b c d) = mapping s"
  by (simp add: begin_primary_source_def Let_def)

lemma mapping_allocate: "allocate_sequence_number s rtx = (seq, s') \<Longrightarrow> mapping s' = mapping s"
  by (auto simp: allocate_sequence_number_def Let_def split: if_splits)

lemma mapping_translate: "translate_timestamp s t = (ts, s') \<Longrightarrow> mapping s' = mapping s"
  by (auto simp: translate_timestamp_def Let_def split: if_splits)

lemma emit_rewrittenE:
  assumes "emit_rewritten r index pt packet parsed tsn keyframe original ssrc = (Inr res, r')"
  obtains seq ts c1 c2 es block where
    "allocate_sequence_number (media r ! index) (is_rtx pt) = (seq, c1)"
    and "translate_timestamp c1 (timestamp (parsed_header parsed)) = (ts, c2)"
    and "mapping c2 = mapping (media r ! index)"
    and "rewrite_header_extensions parsed (mapping c2) tsn = Inr es"
    and "build_header_extension_block es (target_extmap_allow_mixed (mapping c2)) = Inr block"
    and "assemble_rewritten packet parsed block (target_payload_type pt) seq ts ssrc original = Inr (res_packet res)"
    and "rewrite_state res = rewritten" and "res_rtx res = is_rtx pt" and "res_target_ssrc res = ssrc"
    and "res_target_payload_type res = target_payload_type pt" and "res_target_sequence_number res = seq"
    and "res_target_timestamp res = ts" and "res_source_timestamp res = timestamp (parsed_header parsed)"
    and "r' = r\<lparr>media := (media r)[index := (if original = None then c2\<lparr>primary_sequence_numbers :=
           sequence_cache_remember (primary_sequence_numbers c2) (sequence_number (parsed_header parsed)) seq\<rparr> else c2)]\<rparr>"
proof -
  obtain seq c1 where a: "allocate_sequence_number (media r ! index) (is_rtx pt) = (seq, c1)" by fastforce
  obtain ts c2 where t: "translate_timestamp c1 (timestamp (parsed_header parsed)) = (ts, c2)" by fastforce
  have m: "mapping c2 = mapping (media r ! index)" using mapping_allocate [OF a] mapping_translate [OF t] by simp
  from assms show thesis
    unfolding emit_rewritten_def Let_def a t prod.case
    by (auto simp: bindE_Inr_iff intro!: that [OF a t m] split: sum.splits if_splits)
qed

text \<open>
  The tail of a rewritten packet: the payload with its padding, the original sequence number of an
  RTX packet replaced.
\<close>

definition rewritten_tail :: "u16 option \<Rightarrow> bytes \<Rightarrow> bytes" where
  "rewritten_tail original tail = (case original of None \<Rightarrow> tail | Some v \<Rightarrow> enc_u16 v @ drop 2 tail)"

lemma emit_rewritten_anatomy:
  assumes emit: "emit_rewritten r index pt packet parsed tsn keyframe original ssrc = (Inr res, r')"
    and parse: "parse_rewriteable_rtp_packet packet = Inr parsed"
    and wf: "mapping_wf (mapping (media r ! index))" and t: "target_payload_type pt < 128"
    and osn: "original \<noteq> None \<Longrightarrow> 2 \<le> payload_data_size parsed"
  obtains b0 b1 csrc block0 block tail es where
    "packet = rtp_bytes b0 b1 (sequence_number (parsed_header parsed)) (timestamp (parsed_header parsed))
      (rtp_ssrc (parsed_header parsed)) csrc block0 tail"
    and "rtp_bytes_ok b0 b1 csrc block0 tail (header_extensions parsed)"
    and "rewrite_header_extensions parsed (mapping (media r ! index)) tsn = Inr es"
    and "res_packet res = rtp_bytes (rewritten_first b0 block) ((b1 AND 0x80) OR target_payload_type pt)
      (res_target_sequence_number res) (res_target_timestamp res) ssrc csrc block (rewritten_tail original tail)"
    and "\<not> (b1 AND 0x80 \<noteq> 0 \<and> 64 \<le> target_payload_type pt \<and> target_payload_type pt \<le> 95) \<Longrightarrow>
      rtp_bytes_ok (rewritten_first b0 block) ((b1 AND 0x80) OR target_payload_type pt) csrc block (rewritten_tail original tail) es"
    and "original \<noteq> None \<Longrightarrow> 2 \<le> length tail \<and> (b0 AND 0x20 \<noteq> 0 \<longrightarrow> 2 < length tail)"
proof (rule emit_rewrittenE [OF emit], goal_cases)
  case (1 seq ts c1 c2 es block)
  obtain b0 b1 csrc block0 tail where p: "packet = rtp_bytes b0 b1 (sequence_number (parsed_header parsed))
      (timestamp (parsed_header parsed)) (rtp_ssrc (parsed_header parsed)) csrc block0 tail"
    and okp: "rtp_bytes_ok b0 b1 csrc block0 tail (header_extensions parsed)"
    using rewriteable_anatomy [OF parse] .
  have fields: "base_header_size parsed = 12 + length csrc"
    "payload_offset parsed = 12 + length csrc + length block0"
    "payload_data_size parsed = length tail - (if b0 AND 0x20 \<noteq> 0 then unat (last tail) else 0)"
    using rewriteable_fields [OF okp parse [unfolded p]] by simp_all
  have osn': "2 \<le> length tail \<and> (b0 AND 0x20 \<noteq> 0 \<longrightarrow> 2 < length tail)" if "original \<noteq> None"
    using osn [OF that] fields(3) okp by (auto simp: rtp_bytes_ok_def split: if_splits)
  have out: "res_packet res = rtp_bytes (rewritten_first b0 block) ((b1 AND 0x80) OR target_payload_type pt)
      (res_target_sequence_number res) (res_target_timestamp res) ssrc csrc block (rewritten_tail original tail)"
    using 1(7,12,13) assemble_rewritten_bytes [OF fields(1,2) p, of block] osn'
    by (cases original) (auto simp: rewritten_tail_def)
  have es: "rewrite_header_extensions parsed (mapping (media r ! index)) tsn = Inr es" using 1(4,5) by simp
  have block: "extension_block (es \<noteq> []) es block \<and> (block = [] \<longleftrightarrow> es = [])"
    using build_header_extension_block_ok [OF 1(6)] rewrite_header_extensions_spec(2) [OF es wf] by blast
  have tail: "length (rewritten_tail original tail) = length tail"
    "b0 AND 0x20 \<noteq> 0 \<Longrightarrow> last (rewritten_tail original tail) = last tail"
    using osn' by (cases original; auto simp: rewritten_tail_def last_drop)+
  have "rtp_bytes_ok (rewritten_first b0 block) ((b1 AND 0x80) OR target_payload_type pt) csrc block (rewritten_tail original tail) es"
    if "\<not> (b1 AND 0x80 \<noteq> 0 \<and> 64 \<le> target_payload_type pt \<and> target_payload_type pt \<le> 95)"
    using okp that block tail unfolding rtp_bytes_ok_def rewritten_first_bits second_byte(3) [OF t] by auto
  then show ?case using 1(1) [OF p okp es out _ osn'] by blast
qed

section \<open>Rewriting, step by step\<close>

text \<open>A search that starts at position \<open>k\<close> returns its accumulator or a position of the list.\<close>

definition resolved_in :: "u8 \<Rightarrow> nat \<Rightarrow> media_runtime_state list \<Rightarrow> nat \<times> whep_rtp_payload_type_mapping \<Rightarrow> bool" where
  "resolved_in t k ms x \<longleftrightarrow> (\<exists>i < length ms. fst x = k + i \<and> find_payload_type_mapping (mapping (ms ! i)) t = Some (snd x))"

lemma resolved_in_Cons:
  "find_payload_type_mapping (mapping m) t = Some pt \<Longrightarrow> resolved_in t k (m # ms) (k, pt)"
  "resolved_in t (Suc k) ms x \<Longrightarrow> resolved_in t k (m # ms) x"
  unfolding resolved_in_def by (auto intro: exI [of _ 0] exI [of _ "Suc _"])

lemma resolve_media_by_mid_sound:
  "resolve_media_by_mid parsed k ms acc = Some x \<Longrightarrow>
   acc = Some x \<or> resolved_in (payload_type (parsed_header parsed)) k ms x"
  by (induction ms arbitrary: k acc) (force split: option.splits if_splits dest: resolved_in_Cons(2) intro: resolved_in_Cons(1))+

lemma resolve_media_by_payload_type_sound:
  "resolve_media_by_payload_type t k ms acc = Some x \<Longrightarrow> acc = Some x \<or> resolved_in t k ms x"
  by (induction ms arbitrary: k acc) (force split: option.splits if_splits dest: resolved_in_Cons(2) intro: resolved_in_Cons(1))+

lemma resolve_media_sound:
  assumes "resolve_media r parsed = Some (index, pt)"
  shows "index < length (media r)
    \<and> find_payload_type_mapping (mapping (media r ! index)) (payload_type (parsed_header parsed)) = Some pt"
  using assms resolve_media_by_mid_sound [of parsed 0 "media r" None "(index, pt)"]
    resolve_media_by_payload_type_sound [of "payload_type (parsed_header parsed)" 0 "media r" None "(index, pt)"]
  by (auto simp: resolve_media_def resolve_by_binding_def resolved_in_def split: option.splits if_splits)

definition update_source :: "rewriter \<Rightarrow> nat \<Rightarrow> whep_rtp_payload_type_mapping \<Rightarrow> parsed_rtp_packet \<Rightarrow> bool option \<times> rewriter" where
  "update_source r index pt parsed =
     (if is_rtx pt then update_rtx_source r index parsed else update_primary_source r index pt parsed)"

lemma update_source_media:
  assumes "update_source r index pt parsed = (k, r1)" and "index < length (media r)"
  shows "length (media r1) = length (media r)"
    and "j \<noteq> index \<Longrightarrow> media r1 ! j = media r ! j"
    and "mapping (media r1 ! index) = mapping (media r ! index)"
    and "source_available r1 = source_available r"
  using assms
  by (auto simp: update_source_def update_rtx_source_def update_primary_source_def erase_bindings_for_media_def Let_def
      split: if_splits)

lemma rewriteE:
  assumes "rewrite r packet tsn = (Inr res, r')" and "rewrite_state res = rewritten"
  obtains parsed index pt keyframe r1 original ssrc where
    "parse_rewriteable_rtp_packet packet = Inr parsed" and "source_available r"
    and "resolve_media r parsed = Some (index, pt)" and "index < length (media r)"
    and "pt \<in> set (payload_types (mapping (media r ! index)))"
    and "update_source r index pt parsed = (Some keyframe, r1)"
    and "ssrc = (if is_rtx pt then target_rtx_ssrc (mapping (media r ! index)) else target_ssrc (mapping (media r ! index)))"
    and "ssrc \<noteq> 0" and "is_rtx pt \<longleftrightarrow> original \<noteq> None"
    and "original \<noteq> None \<Longrightarrow> target_original (media r1 ! index) packet parsed = Inr (Inr (the original))"
    and "emit_rewritten r1 index pt packet parsed tsn keyframe original ssrc = (Inr res, r')"
proof -
  from assms obtain parsed index pt where p: "parse_rewriteable_rtp_packet packet = Inr parsed" "source_available r"
    "resolve_media r parsed = Some (index, pt)" "rewrite_resolved r index pt packet parsed tsn = (Inr res, r')"
    by (auto simp: rewrite_def make_drop_result_def split: sum.splits if_splits option.splits prod.splits)
  have i: "index < length (media r)" "pt \<in> set (payload_types (mapping (media r ! index)))"
    using resolve_media_sound [OF p(3)] by (auto simp: find_payload_type_mapping_def find_Some_iff)
  obtain k r1 where u: "update_source r index pt parsed = (k, r1)" by fastforce
  with p(4) assms(2) obtain keyframe where k: "k = Some keyframe"
    by (auto simp: rewrite_resolved_def make_drop_result_def update_source_def [symmetric] split: option.splits)
  define ssrc where "ssrc = (if is_rtx pt then target_rtx_ssrc (mapping (media r ! index)) else target_ssrc (mapping (media r ! index)))"
  have body: "(if ssrc = 0 then (Inr (make_drop_result parsed ''target ssrc is missing''), r1)
     else if is_rtx pt then
       (case target_original (media r1 ! index) packet parsed of
          Inl e \<Rightarrow> (Inl e, r1)
        | Inr (Inl reason) \<Rightarrow> (Inr (make_drop_result parsed reason), r1)
        | Inr (Inr original) \<Rightarrow> emit_rewritten r1 index pt packet parsed tsn keyframe (Some original) ssrc)
     else emit_rewritten r1 index pt packet parsed tsn keyframe None ssrc) = (Inr res, r')"
    using p(4) unfolding rewrite_resolved_def update_source_def [symmetric] u k ssrc_def
      update_source_media(3) [OF u i(1), symmetric] prod.case option.case Let_def .
  show thesis
  proof (cases "is_rtx pt")
    case False
    then show ?thesis using body assms(2) that [OF p(1-3) i u [unfolded k] ssrc_def, of None]
      by (auto simp: make_drop_result_def split: if_splits)
  next
    case True
    then show ?thesis using body assms(2) that [OF p(1-3) i u [unfolded k] ssrc_def, of "Some _"]
      by (auto simp: make_drop_result_def split: if_splits sum.splits)
  qed
qed

section \<open>Properties\<close>

text \<open>
  What the negotiation guarantees about the mappings a rewriter works with: every mapping is well
  formed and its target payload types are seven-bit numbers outside the range 64 to 95, which
  RFC 5761 keeps free because their packets would be taken for RTCP.
\<close>

definition media_mapping_wf :: "whep_rtp_media_mapping \<Rightarrow> bool" where
  "media_mapping_wf m \<longleftrightarrow> mapping_wf m \<and>
     (\<forall>p \<in> set (payload_types m). target_payload_type p < 128 \<and> \<not> (64 \<le> target_payload_type p \<and> target_payload_type p \<le> 95))"

definition rewriter_wf :: "rewriter \<Rightarrow> bool" where
  "rewriter_wf r \<longleftrightarrow> (\<forall>c \<in> set (media r). media_mapping_wf (mapping c))"

lemma rewrite_anatomy:
  assumes wf: "rewriter_wf r" and rw: "rewrite r packet tsn = (Inr res, r')" "rewrite_state res = rewritten"
  obtains p c b0 b1 csrc block0 block tail es original where
    "parse_rewriteable_rtp_packet packet = Inr p" and "c \<in> set (media r)"
    and "packet = rtp_bytes b0 b1 (sequence_number (parsed_header p)) (timestamp (parsed_header p))
      (rtp_ssrc (parsed_header p)) csrc block0 tail"
    and "rtp_bytes_ok b0 b1 csrc block0 tail (header_extensions p)"
    and "rewrite_header_extensions p (mapping c) tsn = Inr es"
    and "res_packet res = rtp_bytes (rewritten_first b0 block) ((b1 AND 0x80) OR res_target_payload_type res)
      (res_target_sequence_number res) (res_target_timestamp res) (res_target_ssrc res) csrc block (rewritten_tail original tail)"
    and "rtp_bytes_ok (rewritten_first b0 block) ((b1 AND 0x80) OR res_target_payload_type res) csrc block (rewritten_tail original tail) es"
    and "res_target_payload_type res < 128"
    and "res_rtx res \<longleftrightarrow> original \<noteq> None" and "original \<noteq> None \<Longrightarrow> 2 \<le> length tail"
    and "b0 AND 0x20 \<noteq> 0 \<Longrightarrow> last (rewritten_tail original tail) = last tail"
    and "res_target_ssrc res = (if res_rtx res then target_rtx_ssrc (mapping c) else target_ssrc (mapping c))"
proof (rule rewriteE [OF rw], goal_cases)
  case (1 parsed index pt keyframe r1 original ssrc)
  have m: "mapping (media r1 ! index) = mapping (media r ! index)" using update_source_media(3) [OF 1(7) 1(5)] .
  have c: "media r ! index \<in> set (media r)" using 1(5) by simp
  then have w: "mapping_wf (mapping (media r1 ! index))" "target_payload_type pt < 128"
    "\<not> (64 \<le> target_payload_type pt \<and> target_payload_type pt \<le> 95)"
    using wf 1(6) by (auto simp: rewriter_wf_def media_mapping_wf_def m)
  have osn: "2 \<le> payload_data_size parsed" if "original \<noteq> None"
    using 1(11) [OF that] by (auto simp: target_original_def split: if_splits)
  have res: "res_rtx res = is_rtx pt" "res_target_ssrc res = ssrc" "res_target_payload_type res = target_payload_type pt"
    using 1(12) by (auto elim: emit_rewrittenE)
  show ?case
  proof (rule emit_rewritten_anatomy [OF 1(12,2) w(1,2) osn], assumption, goal_cases)
    case (1 b0 b1 csrc block0 block tail es)
    then show ?case
      using that [OF _ c, of parsed b0 b1 csrc block0 tail es block original] w(2,3) res m
        \<open>parse_rewriteable_rtp_packet packet = Inr parsed\<close> \<open>is_rtx pt \<longleftrightarrow> original \<noteq> None\<close>
        \<open>ssrc = (if is_rtx pt then target_rtx_ssrc (mapping (media r ! index)) else target_ssrc (mapping (media r ! index)))\<close>
      by (cases original) (auto simp: rewritten_tail_def last_drop)
  qed
qed

text \<open>A media section of a subscriber, and one packet of its publisher.\<close>

definition demo_mapping :: whep_rtp_media_mapping where
  "demo_mapping = \<lparr>kind = ''video'', source_mid = ''0'', target_mid = ''1'', target_ssrc = 0x11223344, target_rtx_ssrc = 0x55667788,
     target_extmap_allow_mixed = False, target_transport_cc_extension_id = 3,
     payload_types = [\<lparr>source_payload_type = 96, target_payload_type = 100, clock_rate = 90000, codec_name = ''H264'',
       is_rtx = False, nack = True, source_associated_payload_type = 0, target_associated_payload_type = 0\<rparr>,
       \<lparr>source_payload_type = 97, target_payload_type = 101, clock_rate = 90000, codec_name = ''H264'',
       is_rtx = True, nack = False, source_associated_payload_type = 96, target_associated_payload_type = 100\<rparr>],
     extension_mappings = [\<lparr>source_id = 4, target_id = 5, uri = k_mid_extension_uri\<rparr>]\<rparr>"

definition demo_rewriter :: rewriter where
  "demo_rewriter = set_config empty_rewriter \<lparr>config_source_session_id = ''pub'', config_media = [demo_mapping]\<rparr>"

definition demo_packet :: bytes where
  "demo_packet = [0x90, 0xE0, 0, 7, 0, 0, 0, 1, 0, 0, 0, 2, 0xBE, 0xDE, 0, 1, 0x40, 0x30, 0, 0, 0xAA, 0xBB]"

definition demo_result :: whep_rtp_rewrite_result where
  "demo_result = \<lparr>rewrite_state = rewritten,
     res_packet = [0x90, 0xE4, 0x22, 0x66, 0xFE, 0x7C, 0x96, 5, 0x11, 0x22, 0x33, 0x44,
       0xBE, 0xDE, 0, 2, 0x31, 0, 9, 0x50, 0x31, 0, 0, 0, 0xAA, 0xBB],
     res_reason = [], res_kind = ''video'', res_codec_name = ''H264'', res_rtx = False, keyframe_request_needed = True,
     res_source_ssrc = 2, res_target_ssrc = 0x11223344, res_source_payload_type = 96, res_target_payload_type = 100,
     res_source_sequence_number = 7, res_target_sequence_number = 0x2266, res_source_timestamp = 1,
     res_target_timestamp = 0xFE7C9605, res_payload_size = 2, res_transport_sequence_number = Some 9\<rparr>"

lemma demo_rewrite: "rewrite demo_rewriter demo_packet 9 = (Inr demo_result, snd (rewrite demo_rewriter demo_packet 9))"
proof -
  have "fst (rewrite demo_rewriter demo_packet 9) = Inr demo_result" by code_simp
  then show ?thesis by (metis prod.collapse)
qed

lemma demo_mapping_wf: "media_mapping_wf demo_mapping"
  by (simp add: media_mapping_wf_def mapping_wf_def demo_mapping_def)

lemma demo_rewriter_wf: "rewriter_wf demo_rewriter"
  by (simp add: rewriter_wf_def demo_rewriter_def set_config_def empty_rewriter_def previous_index_def
      rebuild_bindings_def fresh_media_def demo_mapping_wf)



text \<open>
  C28. The header extensions of a rewritten packet are the subscriber's. Looked up in the packet that
  is sent: the mid extension names the subscriber's mid, the transport-wide extension holds the
  number given to this packet, and every other extension is a copy of a source extension that was
  negotiated and is not bound to the publisher's transport (transport-wide numbers, absolute send
  time, RTP stream ids).
\<close>

theorem rewrite_translates_extensions:
  assumes "rewriter_wf r" and "rewrite r packet tsn = (Inr res, r')" and "rewrite_state res = rewritten"
  shows "\<exists>p. \<exists>c \<in> set (media r). parse_rewriteable_rtp_packet packet = Inr p
    \<and> res_target_ssrc res = (if res_rtx res then target_rtx_ssrc (mapping c) else target_ssrc (mapping c))
    \<and> (\<forall>x. find_mid_extension_mapping (mapping c) = Some x \<longrightarrow>
         find_rtp_header_extension (res_packet res) (target_id x) = Inr (Some (text_bytes (target_mid (mapping c)))))
    \<and> (target_transport_cc_extension_id (mapping c) \<noteq> 0 \<longrightarrow>
         find_rtp_header_extension (res_packet res) (target_transport_cc_extension_id (mapping c)) = Inr (Some (enc_u16 tsn)))
    \<and> (\<forall>i v. i \<noteq> 0 \<and> find_rtp_header_extension (res_packet res) i = Inr (Some v) \<longrightarrow>
         translated (mapping c) (header_extensions p) i v \<or> names_mid (mapping c) i v
         \<or> i = target_transport_cc_extension_id (mapping c) \<and> v = enc_u16 tsn)"
proof (rule rewrite_anatomy [OF assms(1-3)], goal_cases)
  case (1 p c b0 b1 csrc block0 block tail es original)
  let ?m = "mapping c"
  have wf: "mapping_wf ?m" using assms(1) 1(2) by (auto simp: rewriter_wf_def media_mapping_wf_def)
  note spec = rewrite_header_extensions_spec [OF 1(5) wf]
  have find: "find_rtp_header_extension (res_packet res) i = Inr (map_of es i)" if "i \<noteq> 0" for i
    unfolding 1(6) by (rule find_in_rtp_bytes [OF 1(7) that])
  have found: "find_rtp_header_extension (res_packet res) i = Inr (Some v)" if "(i, v) \<in> set es" for i v
    using find spec(2) [OF that] map_of_is_SomeI [OF spec(1) that] by simp
  have "translated ?m (header_extensions p) i v \<or> names_mid ?m i v \<or> i = target_transport_cc_extension_id ?m \<and> v = enc_u16 tsn"
    if "i \<noteq> 0" "find_rtp_header_extension (res_packet res) i = Inr (Some v)" for i v
    using spec(5) [of i v] that(2) find [OF that(1)] by (auto dest: map_of_SomeD)
  then show ?case using 1(1,2,12) found spec(3,4) by blast
qed

theorem rewrite_translates_extensions_witness:
  "find_rtp_header_extension (res_packet demo_result) 3 = Inr (Some (enc_u16 9))"
proof -
  have "rewrite_state demo_result = rewritten" by (simp add: demo_result_def)
  from rewrite_translates_extensions [OF demo_rewriter_wf demo_rewrite this] obtain c where
    "c \<in> set (media demo_rewriter)" "target_transport_cc_extension_id (mapping c) \<noteq> 0 \<longrightarrow>
       find_rtp_header_extension (res_packet demo_result) (target_transport_cc_extension_id (mapping c)) = Inr (Some (enc_u16 9))"
    by blast
  then show ?thesis
    by (simp add: demo_rewriter_def set_config_def empty_rewriter_def previous_index_def
        rebuild_bindings_def fresh_media_def demo_mapping_def)
qed

end
