(* ===== verification/Whep_Retransmission.thy ===== *)
theory Whep_Retransmission
  imports Whep_Rtp_Rewriter
begin

unbundle bit_operations_syntax

text \<open>
  Retransmissions to a subscriber (\<^verbatim>\<open>build_retransmission\<close> and \<^verbatim>\<open>write_transport_sequence_number\<close> of
  \<^verbatim>\<open>src/media/whep_rtp_rewriter.cpp\<close>): the bytes of the retransmitted packet, with and without an RTX
  stream (RFC 4588), and the cache that translates the original sequence number of a publisher's
  RTX packets.
\<close>

section \<open>Stamping a transport-wide number in place\<close>

text \<open>The extension elements after the first element with the id \<open>i\<close> got the value \<open>v\<close>.\<close>

definition stamped :: "u8 \<Rightarrow> bytes \<Rightarrow> parsed_header_extension list \<Rightarrow> parsed_header_extension list \<Rightarrow> bool" where
  "stamped i v es es' \<longleftrightarrow> (\<exists>es1 w es2. es = es1 @ (i, w) # es2 \<and> i \<notin> fst ` set es1 \<and> es' = es1 @ (i, v) # es2)"

lemma stamped_map_of: "stamped i v es es' \<Longrightarrow> map_of es' j = (if j = i then Some v else map_of es j)"
proof -
  assume "stamped i v es es'"
  then obtain es1 w es2 where e: "es = es1 @ (i, w) # es2" "i \<notin> fst ` set es1" "es' = es1 @ (i, v) # es2"
    unfolding stamped_def by blast
  then have "map_of es1 i = None" by (simp add: map_of_eq_None_iff)
  then show ?thesis using e by (auto simp: map_add_def split: option.splits)
qed

lemma replace_two_bytes: "length v = 2 \<Longrightarrow> write_u16 (xs @ v @ ys) (length xs) n = Inr (xs @ enc_u16 n @ ys)"
  by (simp add: u16f.wr_bytes write_bytes_def)

lemma stamp_block:
  assumes "replaceable elements es payload i start v" and "length v = 2"
  obtains payload' es' where "stamped i (enc_u16 n) es es'" and "elements es' payload'" and "length payload' = length payload"
    and "\<And>xs ys. write_u16 (xs @ payload @ ys) (length xs + start) n = Inr (xs @ payload' @ ys)"
proof -
  from assms(1) obtain es1 es2 xs1 xs2 where r: "es = es1 @ (i, v) # es2" "i \<notin> fst ` set es1" "payload = xs1 @ v @ xs2"
    "start = length xs1" "\<forall>v'. length v' = length v \<longrightarrow> elements (es1 @ (i, v') # es2) (xs1 @ v' @ xs2)"
    unfolding replaceable_def by blast
  show thesis
  proof (rule that)
    show "stamped i (enc_u16 n) es (es1 @ (i, enc_u16 n) # es2)" using r unfolding stamped_def by blast
    show "elements (es1 @ (i, enc_u16 n) # es2) (xs1 @ enc_u16 n @ xs2)" using r(5) assms(2) by simp
    show "length (xs1 @ enc_u16 n @ xs2) = length payload" using r(3) assms(2) by simp
    show "write_u16 (xs @ payload @ ys) (length xs + start) n = Inr (xs @ (xs1 @ enc_u16 n @ xs2) @ ys)" for xs ys
      using replace_two_bytes [OF assms(2), of "xs @ xs1" "xs2 @ ys" n] r(3,4) by simp
  qed
qed

lemma find_span_in_rtp_bytes:
  assumes ok: "rtp_bytes_ok b0 b1 csrc block tail es" and "i \<noteq> 0"
    and found: "find_rtp_header_extension_span (rtp_bytes b0 b1 seq ts source csrc block tail) i = Inr (Some (offset, v))"
  obtains profile words payload start where "b0 AND 0x10 \<noteq> 0" and "block = enc_u16 profile @ enc_u16 words @ payload"
    and "length payload = unat words * 4" and "offset = 16 + length csrc + start"
    and "profile = 0xBEDE \<and> replaceable one_byte_elements es payload i start v
      \<or> profile \<noteq> 0xBEDE \<and> is_two_byte_extension_profile profile \<and> replaceable two_byte_elements es payload i start v"
proof -
  let ?d = "rtp_bytes b0 b1 seq ts source csrc block tail" and ?o = "12 + unat (b0 AND 0x0F) * 4"
  have b0: "b0 AND 0x10 \<noteq> 0" using assms by (auto simp: find_rtp_header_extension_span_def rtp_bytes_def rtp_bytes_ok_def)
  then obtain profile words payload where b: "block = enc_u16 profile @ enc_u16 words @ payload"
    "length payload = unat words * 4" "profile = 0xBEDE \<and> one_byte_elements es payload
      \<or> profile \<noteq> 0xBEDE \<and> is_two_byte_extension_profile profile \<and> two_byte_elements es payload"
    using ok by (auto simp: rtp_bytes_ok_def extension_block_def)
  define head where "head = b0 # b1 # enc_u16 seq @ enc_u32 ts @ enc_u32 source @ csrc"
  have d: "?d = head @ enc_u16 profile @ enc_u16 words @ payload @ tail" and hl: "length head = ?o" and csrc: "length csrc = unat (b0 AND 0x0F) * 4"
    using ok by (simp_all add: rtp_bytes_def head_def b(1) rtp_bytes_ok_def)
  have first: "read_u8 ?d 0 = Inr b0" "drop_bit 6 b0 = 2" "\<not> length ?d < 12"
    using ok hl by (simp_all add: rtp_bytes_ok_def rtp_bytes_def)
  have reads: "read_u16 ?d ?o = Inr profile" "read_u16 ?d (?o + 2) = Inr words"
    "subspan ?d (?o + 4) (unat words * 4) = Inr payload" "\<not> ?o + 4 > length ?d" "\<not> ?o + 4 + unat words * 4 > length ?d"
    unfolding d using hl b(2) by (simp_all add: wire del: access)
  have "(if profile = 0xBEDE then if 15 \<le> i then Inr None else bindE (find_one_byte_loop payload i 0) (shift_span (?o + 4))
      else if profile AND 0xFFF0 = 0x1000 then bindE (find_two_byte_loop payload i 0) (shift_span (?o + 4)) else Inr None)
      = Inr (Some (offset, v))"
    using found unfolding find_rtp_header_extension_span_def Let_def
    using first reads b0 assms(2) by (simp del: access)
  then obtain start where start: "offset = ?o + 4 + start"
    and loop: "profile = 0xBEDE \<Longrightarrow> find_one_byte_loop payload i 0 = Inr (Some (start, v))"
      "profile \<noteq> 0xBEDE \<Longrightarrow> find_two_byte_loop payload i 0 = Inr (Some (start, v))"
    by (auto simp: bindE_Inr_iff shift_span_def split: if_splits)
  show thesis
  proof (rule that [OF b0 b(1,2)])
    show "offset = 16 + length csrc + start" using start csrc by simp
    show "profile = 0xBEDE \<and> replaceable one_byte_elements es payload i start v
      \<or> profile \<noteq> 0xBEDE \<and> is_two_byte_extension_profile profile \<and> replaceable two_byte_elements es payload i start v"
      using b(3) loop find_one_byte_loop_replaceable [of es payload "[]" i start v] find_two_byte_loop_replaceable [of es payload "[]" i start v]
      by auto
  qed
qed

lemma write_transport_sequence_number_bytes:
  assumes ok: "rtp_bytes_ok b0 b1 csrc block tail es" and "i \<noteq> 0"
    and "write_transport_sequence_number (rtp_bytes b0 b1 seq ts source csrc block tail) i n = Inr out"
  obtains block' es' where "out = rtp_bytes b0 b1 seq ts source csrc block' tail" and "length block' = length block"
    and "rtp_bytes_ok b0 b1 csrc block' tail es'" and "stamped i (enc_u16 n) es es'"
proof -
  let ?d = "rtp_bytes b0 b1 seq ts source csrc block tail"
  obtain offset v where found: "find_rtp_header_extension_span ?d i = Inr (Some (offset, v))" and len: "length v = 2"
    and w: "write_u16 ?d offset n = Inr out"
    using assms(3) by (auto simp: write_transport_sequence_number_def bindE_Inr_iff split: option.splits if_splits)
  obtain profile words payload start where s: "b0 AND 0x10 \<noteq> 0" "block = enc_u16 profile @ enc_u16 words @ payload"
    "length payload = unat words * 4" "offset = 16 + length csrc + start"
    "profile = 0xBEDE \<and> replaceable one_byte_elements es payload i start v
      \<or> profile \<noteq> 0xBEDE \<and> is_two_byte_extension_profile profile \<and> replaceable two_byte_elements es payload i start v"
    by (rule find_span_in_rtp_bytes [OF ok assms(2) found])
  obtain payload' es' where p: "stamped i (enc_u16 n) es es'" "length payload' = length payload"
    "\<And>xs ys. write_u16 (xs @ payload @ ys) (length xs + start) n = Inr (xs @ payload' @ ys)"
    "profile = 0xBEDE \<and> one_byte_elements es' payload'
      \<or> profile \<noteq> 0xBEDE \<and> is_two_byte_extension_profile profile \<and> two_byte_elements es' payload'"
    using s(5)
  proof (elim disjE conjE)
    assume one: "profile = 0xBEDE" and r: "replaceable one_byte_elements es payload i start v"
    show thesis by (rule stamp_block [OF r len, of n]) (use that one in blast)
  next
    assume two: "profile \<noteq> 0xBEDE" "is_two_byte_extension_profile profile" and r: "replaceable two_byte_elements es payload i start v"
    show thesis by (rule stamp_block [OF r len, of n]) (use that two in blast)
  qed
  let ?block = "enc_u16 profile @ enc_u16 words @ payload'"
  have "out = rtp_bytes b0 b1 seq ts source csrc ?block tail"
    using w p(3) [of "b0 # b1 # enc_u16 seq @ enc_u32 ts @ enc_u32 source @ csrc @ enc_u16 profile @ enc_u16 words" tail] s(4)
    by (simp add: rtp_bytes_def s(2) add.assoc)
  moreover have "extension_block True es' ?block" using extension_blockI [OF refl _ p(4)] p(2) s(3) by simp
  then have "rtp_bytes_ok b0 b1 csrc ?block tail es'" using ok s(1) by (simp add: rtp_bytes_ok_def)
  ultimately show thesis using that [of ?block es'] p(1,2) s(2) by simp
qed

section \<open>The retransmitted packet\<close>

lemma assemble_rtx_bytes:
  assumes "payload_offset parsed = 12 + length csrc + length block"
    and packet: "packet = rtp_bytes b0 b1 seq0 ts ssrc0 csrc block tail"
  shows "assemble_rtx packet parsed pt seq ssrc =
    Inr (rtp_bytes b0 ((b1 AND 0x80) OR pt) seq ts ssrc csrc block (enc_u16 (sequence_number (parsed_header parsed)) @ tail))"
proof -
  define head where "head = b0 # b1 # enc_u16 seq0 @ enc_u32 ts @ enc_u32 ssrc0 @ csrc @ block"
  have p: "packet = head @ tail" and l: "length head = payload_offset parsed"
    using assms(1) by (simp_all add: packet rtp_bytes_def head_def)
  have parts: "subspan packet 0 (payload_offset parsed) = Inr head"
    "subspan packet (payload_offset parsed) (length packet - payload_offset parsed) = Inr tail"
    using l by (simp_all add: p)
  have enc: "[ucast (drop_bit 8 n), ucast (n AND 0xFF)] = enc_u16 n" for n :: u16
    by (simp add: enc_u16_def ucast_byte16)
  show ?thesis unfolding assemble_rtx_def parts Let_def enc
    by (simp add: wire rtp_bytes_def head_def del: access)
qed

lemma stamp_transport_sequence_bytes:
  assumes ok: "rtp_bytes_ok b0 b1 csrc block tail es"
    and "stamp_transport_sequence m n (rtp_bytes b0 b1 seq ts source csrc block tail) = Inr (out, stamp)"
  obtains block' es' where "out = rtp_bytes b0 b1 seq ts source csrc block' tail" and "length block' = length block"
    and "rtp_bytes_ok b0 b1 csrc block' tail es'"
    and "if target_transport_cc_extension_id m = 0 then es' = es else stamped (target_transport_cc_extension_id m) (enc_u16 n) es es'"
    and "stamp = (if target_transport_cc_extension_id m = 0 then None else Some n)"
proof (cases "target_transport_cc_extension_id m = 0")
  case True
  then show ?thesis using assms that [of block es] by (simp add: stamp_transport_sequence_def)
next
  case False
  then have w: "write_transport_sequence_number (rtp_bytes b0 b1 seq ts source csrc block tail) (target_transport_cc_extension_id m) n = Inr out"
    and stamp: "stamp = Some n"
    using assms(2) by (auto simp: stamp_transport_sequence_def bindE_Inr_iff)
  show ?thesis
  proof (rule write_transport_sequence_number_bytes [OF ok False w], goal_cases)
    case (1 block' es')
    then show ?case using that [of block' es'] False stamp by simp
  qed
qed

text \<open>
  The retransmission of a sent packet, in terms of what a receiver parses. With an RTX stream the
  payload is preceded by the original sequence number.
\<close>

definition retransmits :: "parsed_rtp_packet \<Rightarrow> bytes \<Rightarrow> whep_rtp_retransmission_result \<Rightarrow> parsed_rtp_packet \<Rightarrow> bool" where
  "retransmits p packet res q \<longleftrightarrow>
     parsed_header q = (parsed_header p)\<lparr>payload_type := retx_target_payload_type res,
       sequence_number := retx_target_sequence_number res, rtp_ssrc := retx_target_ssrc res\<rparr>
     \<and> payload_offset q = payload_offset p \<and> parsed_padding q = parsed_padding p
     \<and> payload_data_size q = retx_payload_size res
     \<and> drop (payload_offset q) (retx_packet res) =
         (if retx_rtx res then enc_u16 (sequence_number (parsed_header p)) else []) @ drop (payload_offset p) packet"

lemma build_retransmissionE:
  assumes "build_retransmission r packet n = (Inr res, r')"
  obtains p c x where "parse_rewriteable_rtp_packet packet = Inr p" and "c \<in> set (media r)"
    and "target_ssrc (mapping c) = rtp_ssrc (parsed_header p)" and "x \<in> set (payload_types (mapping c))"
    and "\<not> retx_rtx res \<Longrightarrow> stamp_transport_sequence (mapping c) n packet = Inr (retx_packet res, retx_transport_sequence_number res)
      \<and> retx_target_ssrc res = rtp_ssrc (parsed_header p) \<and> retx_target_payload_type res = payload_type (parsed_header p)
      \<and> retx_target_sequence_number res = sequence_number (parsed_header p) \<and> retx_payload_size res = payload_data_size p"
    and "retx_rtx res \<Longrightarrow> is_rtx x \<and> target_associated_payload_type x = payload_type (parsed_header p)
      \<and> target_rtx_ssrc (mapping c) \<noteq> 0
      \<and> (\<exists>out. assemble_rtx packet p (target_payload_type x) (retx_target_sequence_number res) (target_rtx_ssrc (mapping c)) = Inr out
          \<and> stamp_transport_sequence (mapping c) n out = Inr (retx_packet res, retx_transport_sequence_number res))
      \<and> retx_target_ssrc res = target_rtx_ssrc (mapping c) \<and> retx_target_payload_type res = target_payload_type x
      \<and> retx_payload_size res = payload_data_size p + 2"
proof -
  obtain p where p: "parse_rewriteable_rtp_packet packet = Inr p"
    using assms by (auto simp: build_retransmission_def split: sum.splits)
  let ?h = "parsed_header p"
  obtain i where i: "find_index (\<lambda>c. target_ssrc (mapping c) = rtp_ssrc ?h) (media r) = Some i"
    using assms p by (auto simp: build_retransmission_def Let_def split: option.splits)
  define c where "c = media r ! i"
  have c: "c \<in> set (media r)" "target_ssrc (mapping c) = rtp_ssrc ?h" using i by (auto simp: c_def find_index_def find_Some_iff)
  obtain y where y: "find (\<lambda>y. \<not> is_rtx y \<and> target_payload_type y = payload_type ?h) (payload_types (mapping c)) = Some y" "nack y"
    using assms p i by (auto simp: build_retransmission_def Let_def c_def split: option.splits if_splits)
  let ?rtx = "find (\<lambda>x. is_rtx x \<and> target_associated_payload_type x = payload_type ?h) (payload_types (mapping c))"
  let ?which = "if target_rtx_ssrc (mapping c) = 0 then None else ?rtx"
  have body: "(case ?which of None \<Rightarrow> \<not> retx_rtx res \<and> stamp_transport_sequence (mapping c) n packet = Inr (retx_packet res, retx_transport_sequence_number res)
      \<and> retx_target_ssrc res = rtp_ssrc ?h \<and> retx_target_payload_type res = payload_type ?h
      \<and> retx_target_sequence_number res = sequence_number ?h \<and> retx_payload_size res = payload_data_size p
    | Some x \<Rightarrow> retx_rtx res
      \<and> (\<exists>out. assemble_rtx packet p (target_payload_type x) (retx_target_sequence_number res) (target_rtx_ssrc (mapping c)) = Inr out
          \<and> stamp_transport_sequence (mapping c) n out = Inr (retx_packet res, retx_transport_sequence_number res))
      \<and> retx_target_ssrc res = target_rtx_ssrc (mapping c) \<and> retx_target_payload_type res = target_payload_type x
      \<and> retx_payload_size res = payload_data_size p + 2)"
    using assms unfolding build_retransmission_def Let_def p sum.case i option.case c_def [symmetric] y(1)
    using y(2) by (cases ?which) (auto simp: bindE_Inr_iff split: prod.splits)
  have yin: "y \<in> set (payload_types (mapping c))" using y(1) by (auto simp: find_Some_iff)
  show thesis
  proof (cases ?which)
    case None
    then show ?thesis using body that [OF p c yin] by simp
  next
    case (Some x)
    then have "x \<in> set (payload_types (mapping c))" "is_rtx x" "target_associated_payload_type x = payload_type ?h" "target_rtx_ssrc (mapping c) \<noteq> 0"
      by (auto simp: find_Some_iff split: if_splits)
    then show ?thesis using Some body that [OF p c, of x] by simp
  qed
qed

lemma tail_of_rtp_bytes: "drop (12 + length csrc + length block) (rtp_bytes b0 b1 seq ts source csrc block tail) = tail"
  using drop_append [of "12 + length csrc + length block" "b0 # b1 # enc_u16 seq @ enc_u32 ts @ enc_u32 source @ csrc @ block" tail]
  by (simp add: rtp_bytes_def)

text \<open>A stamped packet: what its receiver parses and looks up.\<close>

lemma stamped_packet:
  assumes ok: "rtp_bytes_ok b0 b1 csrc block tail es"
    and stamp: "stamp_transport_sequence m n (rtp_bytes b0 b1 seq ts source csrc block tail) = Inr (out, st)"
  obtains q where "parse_rewriteable_rtp_packet out = Inr q"
    and "parsed_header q = \<lparr>marker = (b1 AND 0x80 \<noteq> 0), payload_type = b1 AND 0x7F, sequence_number = seq, timestamp = ts, rtp_ssrc = source\<rparr>"
    and "payload_offset q = 12 + length csrc + length block" and "parsed_padding q \<longleftrightarrow> b0 AND 0x20 \<noteq> 0"
    and "payload_data_size q = length tail - (if b0 AND 0x20 \<noteq> 0 then unat (last tail) else 0)"
    and "drop (12 + length csrc + length block) out = tail"
    and "\<And>i. i \<noteq> 0 \<Longrightarrow> find_rtp_header_extension out i = Inr (if i = target_transport_cc_extension_id m then Some (enc_u16 n) else map_of es i)"
proof (rule stamp_transport_sequence_bytes [OF ok stamp], goal_cases)
  case (1 block' es')
  have "find_rtp_header_extension out i = Inr (if i = target_transport_cc_extension_id m then Some (enc_u16 n) else map_of es i)"
    if "i \<noteq> 0" for i
    using find_in_rtp_bytes [OF 1(4) that, of seq ts source] 1(2,5) stamped_map_of that
    by (auto split: if_splits)
  then show ?case
    using that [OF parse_rtp_bytes [OF 1(4), of seq ts source, folded 1(2)]] 1(2,3) tail_of_rtp_bytes [of csrc block'] by simp
qed



end
