(* ===== verification/Whep_Stream_Continuity.thy ===== *)
theory Whep_Stream_Continuity
  imports Whep_Rtp_Rewriter
begin

text \<open>
  What a subscriber sees over time: the sequence numbers and the time axis of a rewritten stream while
  publishers come and go (the state kept in \<^verbatim>\<open>media_runtime_state\<close> of
  \<^verbatim>\<open>src/media/whep_rtp_rewriter.cpp\<close>). The operations are those of \<open>Whep_Rtp_Rewriter\<close>; here they are
  run in sequences.
\<close>

section \<open>Continuity\<close>

text \<open>The sequence number the next primary packet of a media will get.\<close>

definition expected_primary :: "media_runtime_state \<Rightarrow> u16" where
  "expected_primary c = (if primary_sequence_initialized c then next_primary_sequence_number c
     else make_initial_sequence_number (target_ssrc (mapping c)))"

lemma expected_begin [simp]: "expected_primary (begin_primary_source c a b d e) = expected_primary c"
  by (simp add: expected_primary_def begin_primary_source_def Let_def)

lemma expected_clear [simp]: "expected_primary (clear_source_state c) = expected_primary c" "mapping (clear_source_state c) = mapping c"
  by (simp_all add: expected_primary_def clear_source_state_def)

lemma expected_translate: "translate_timestamp c t = (ts, c') \<Longrightarrow> expected_primary c' = expected_primary c"
  by (auto simp: expected_primary_def translate_timestamp_def begin_primary_source_def Let_def split: if_splits)

lemma expected_allocate_rtx: "allocate_sequence_number c True = (seq, c') \<Longrightarrow> expected_primary c' = expected_primary c"
  by (auto simp: expected_primary_def allocate_sequence_number_def Let_def split: if_splits)

lemma expected_allocate:
  "allocate_sequence_number c False = (seq, c') \<Longrightarrow> seq = expected_primary c \<and> expected_primary c' = seq + 1"
  by (auto simp: expected_primary_def allocate_sequence_number_def Let_def split: if_splits)

lemma expected_update_source:
  assumes "update_source r index pt parsed = (k, r1)" and "index < length (media r)"
  shows "expected_primary (media r1 ! index) = expected_primary (media r ! index)"
  using assms
  by (auto simp: update_source_def update_rtx_source_def update_primary_source_def erase_bindings_for_media_def Let_def
      expected_primary_def begin_primary_source_def split: if_splits)

text \<open>
  \<open>stream_at r s k e\<close>: the rewriter has a media of kind \<open>k\<close> with the target SSRC \<open>s\<close>, whose next
  primary packet gets the number \<open>e\<close>. Target SSRCs are pairwise different.
\<close>

definition distinct_targets :: "whep_rtp_media_mapping list \<Rightarrow> bool" where
  "distinct_targets ms \<longleftrightarrow> distinct (map target_ssrc ms)"

definition stream_at :: "rewriter \<Rightarrow> u32 \<Rightarrow> string \<Rightarrow> u16 \<Rightarrow> bool" where
  "stream_at r s k e \<longleftrightarrow> distinct_targets (map mapping (media r)) \<and>
     (\<exists>c \<in> set (media r). target_ssrc (mapping c) = s \<and> kind (mapping c) = k \<and> expected_primary c = e)"

text \<open>Changing one media and not its mapping moves the expected number of that media only.\<close>

lemma stream_at_update:
  assumes "stream_at r s k e" and "index < length (media r)" and "media r' = (media r)[index := c]"
    and "mapping c = mapping (media r ! index)"
  shows "stream_at r' s k (if target_ssrc (mapping c) = s then e + (expected_primary c - expected_primary (media r ! index)) else e)"
proof -
  have maps: "map mapping (media r') = map mapping (media r)"
    using assms(3,4) by (metis map_update list_update_id)
  obtain j where j: "j < length (media r)" "target_ssrc (mapping (media r ! j)) = s" "kind (mapping (media r ! j)) = k"
    "expected_primary (media r ! j) = e"
    using assms(1) by (auto simp: stream_at_def in_set_conv_nth)
  have same: "j = index \<longleftrightarrow> target_ssrc (mapping c) = s"
    using assms(1,2,4) j(1,2) by (auto simp: stream_at_def distinct_targets_def distinct_conv_nth)
  have "media r' ! j \<in> set (media r')" using j(1) assms(3) by simp
  moreover have "target_ssrc (mapping (media r' ! j)) = s" "kind (mapping (media r' ! j)) = k"
    using j assms(2,3,4) by (cases "j = index"; simp)+
  moreover have "expected_primary (media r' ! j) = (if target_ssrc (mapping c) = s then e + (expected_primary c - expected_primary (media r ! index)) else e)"
    using j assms(2,3) same by (cases "j = index") auto
  ultimately show ?thesis using assms(1) maps unfolding stream_at_def by auto
qed

lemma stream_at_same:
  assumes "stream_at r s k e" and "index < length (media r)" and "media r' = (media r)[index := c]"
    and "mapping c = mapping (media r ! index)" and "expected_primary c = expected_primary (media r ! index)"
  shows "stream_at r' s k e"
  using stream_at_update [OF assms(1-4)] assms(5) by (simp split: if_splits)

lemma stream_at_update_source:
  assumes "update_source r index pt parsed = (b, r1)" and "index < length (media r)" and "stream_at r s k e"
  shows "stream_at r1 s k e"
proof -
  note u = update_source_media [OF assms(1,2)]
  have "media r1 = (media r)[index := media r1 ! index]"
    by (rule nth_equalityI) (use u assms(2) in \<open>auto simp: nth_list_update\<close>)
  from stream_at_same [OF assms(3,2) this u(3)] expected_update_source [OF assms(1,2)] show ?thesis by simp
qed

lemma rewrite_dropped:
  assumes "rewrite r packet tsn = (Inr res, r')" and "rewrite_state res = dropped" and "stream_at r s k e"
  shows "stream_at r' s k e"
proof -
  have "r' = r \<or> (\<exists>parsed index pt b. index < length (media r) \<and> update_source r index pt parsed = (b, r'))"
  proof (cases "\<exists>parsed index pt. parse_rewriteable_rtp_packet packet = Inr parsed \<and> source_available r \<and> media r \<noteq> []
      \<and> resolve_media r parsed = Some (index, pt)")
    case False
    then show ?thesis using assms(1)
      by (auto simp: rewrite_def split: sum.splits if_splits option.splits prod.splits)
  next
    case True
    then obtain parsed index pt where t: "parse_rewriteable_rtp_packet packet = Inr parsed" "source_available r" "media r \<noteq> []"
      "resolve_media r parsed = Some (index, pt)" by blast
    obtain b r1 where u: "update_source r index pt parsed = (b, r1)" by fastforce
    have "rewrite_resolved r index pt packet parsed tsn = (Inr res, r')" using assms(1) t by (simp add: rewrite_def)
    moreover have "rewrite_state res' = rewritten" if "emit_rewritten r1 index pt packet parsed tsn kf og ss = (Inr res', r2)" for kf og ss res' r2
      using that by (auto elim: emit_rewrittenE)
    ultimately have "r' = r1" using assms(2) unfolding rewrite_resolved_def update_source_def [symmetric] u prod.case
      by (auto simp: Let_def split: option.splits if_splits sum.splits)
    then show ?thesis using u resolve_media_sound [OF t(4)] by blast
  qed
  then show ?thesis using stream_at_update_source assms(3) by blast
qed

lemma expected_cache [simp]: "expected_primary (c\<lparr>primary_sequence_numbers := x\<rparr>) = expected_primary c"
  by (simp add: expected_primary_def)

lemma stream_at_expected:
  assumes "stream_at r s k e" and "index < length (media r)" and "target_ssrc (mapping (media r ! index)) = s"
  shows "expected_primary (media r ! index) = e"
  using assms by (auto simp: stream_at_def distinct_targets_def distinct_conv_nth in_set_conv_nth) metis

text \<open>A result that continues the primary stream with the target SSRC \<open>s\<close>.\<close>

definition continues :: "u32 \<Rightarrow> whep_rtp_rewrite_result \<Rightarrow> bool" where
  "continues s res \<longleftrightarrow> rewrite_state res = rewritten \<and> \<not> res_rtx res \<and> res_target_ssrc res = s"

lemma emit_stream_at:
  assumes emit: "emit_rewritten r index pt packet parsed tsn keyframe original ssrc = (Inr res, r')"
    and at: "stream_at r s k e" and len: "index < length (media r)"
    and ssrc: "\<not> is_rtx pt \<Longrightarrow> ssrc = target_ssrc (mapping (media r ! index))"
  shows "stream_at r' s k (if continues s res then e + 1 else e) \<and> (continues s res \<longrightarrow> res_target_sequence_number res = e)"
proof (rule emit_rewrittenE [OF emit], goal_cases)
  case (1 seq ts c1 c2 es block)
  let ?c = "if original = None then c2\<lparr>primary_sequence_numbers :=
       sequence_cache_remember (primary_sequence_numbers c2) (sequence_number (parsed_header parsed)) seq\<rparr> else c2"
  have m: "mapping ?c = mapping (media r ! index)" using 1(3) by simp
  have same: "expected_primary ?c = expected_primary c1" using expected_translate [OF 1(2)] by simp
  have media: "media r' = (media r)[index := ?c]" using 1(14) by simp
  show ?case
  proof (cases "is_rtx pt")
    case True
    then have "expected_primary ?c = expected_primary (media r ! index)" using same expected_allocate_rtx 1(1) by simp
    from stream_at_same [OF at len media m this] show ?thesis using True 1(8) by (simp add: continues_def)
  next
    case False
    then have alloc: "seq = expected_primary (media r ! index)" "expected_primary ?c = seq + 1"
      using same expected_allocate 1(1) by auto
    have c: "continues s res \<longleftrightarrow> target_ssrc (mapping (media r ! index)) = s"
      using 1(7-9) False ssrc by (auto simp: continues_def)
    have "target_ssrc (mapping (media r ! index)) = s \<Longrightarrow> seq = e" using stream_at_expected [OF at len] alloc(1) by simp
    moreover have "stream_at r' s k (if target_ssrc (mapping (media r ! index)) = s then e + 1 else e)"
      using stream_at_update [OF at len media m] unfolding m alloc(2) using alloc(1) by (auto split: if_splits)
    ultimately show ?thesis using 1(11) c by auto
  qed
qed

lemma rewrite_stream_at:
  assumes rw: "rewrite r packet tsn = (Inr res, r')" and at: "stream_at r s k e"
  shows "stream_at r' s k (if continues s res then e + 1 else e) \<and> (continues s res \<longrightarrow> res_target_sequence_number res = e)"
proof (cases "rewrite_state res")
  case dropped
  then show ?thesis using rewrite_dropped [OF rw dropped at] by (simp add: continues_def)
next
  case state: rewritten
  show ?thesis
  proof (rule rewriteE [OF rw state], goal_cases)
    case (1 parsed index pt keyframe r1 original ssrc)
    note u = update_source_media [OF 1(6,4)]
    show ?case using emit_stream_at [OF 1(11) stream_at_update_source [OF 1(6,4) at]] u(1,3) 1(4,7) by simp
  qed
qed

lemma build_retransmission_stream_at:
  assumes "build_retransmission r packet tsn = (out, r')" and "stream_at r s k e"
  shows "stream_at r' s k e"
proof (cases "r' = r")
  case False
  then obtain index seq c where i: "index < length (media r)" "allocate_sequence_number (media r ! index) True = (seq, c)"
    "r' = r\<lparr>media := (media r)[index := c]\<rparr>"
    using assms(1)
    by (auto simp: build_retransmission_def find_index_def Let_def find_Some_iff split: sum.splits option.splits if_splits prod.splits)
  then show ?thesis
    using stream_at_same [OF assms(2) i(1), of r' c] mapping_allocate [OF i(2)] expected_allocate_rtx [OF i(2)] by simp
qed (use assms in simp)

lemma clear_source_stream_at: "stream_at r s k e \<Longrightarrow> stream_at (clear_source r) s k e"
  by (auto simp: stream_at_def clear_source_def distinct_targets_def comp_def)

lemma reconfigure_media_keeps:
  "expected_primary (reconfigure_media same c m) =
     (if primary_sequence_initialized c then next_primary_sequence_number c else make_initial_sequence_number (target_ssrc m))"
  "mapping (reconfigure_media same c m) = m"
  by (simp_all add: reconfigure_media_def expected_primary_def clear_source_state_def Let_def)

lemma previous_index_moved:
  assumes "target_ssrc m \<noteq> target_ssrc (mapping (previous ! i))"
  shows "previous_index (previous[i := moved_from (previous ! i)]) m = previous_index previous m"
    and "previous_index previous m = Some j \<Longrightarrow> previous[i := moved_from (previous ! i)] ! j = previous ! j"
proof -
  let ?new = "previous[i := moved_from (previous ! i)]"
  have moved: "target_ssrc (mapping (moved_from c)) = target_ssrc (mapping c)" for c by (simp add: moved_from_def)
  have same: "target_ssrc (mapping (?new ! j)) = target_ssrc m \<longleftrightarrow> target_ssrc (mapping (previous ! j)) = target_ssrc m"
    and eq: "target_ssrc (mapping (previous ! j)) = target_ssrc m \<Longrightarrow> ?new ! j = previous ! j" if "j < length previous" for j
    using that assms by (cases "j = i"; simp add: moved)+
  show "previous_index ?new m = previous_index previous m"
    unfolding previous_index_def length_list_update by (rule find_cong [OF refl]) (use same eq in force)
  show "previous_index previous m = Some j \<Longrightarrow> ?new ! j = previous ! j"
    using eq by (auto simp: previous_index_def find_Some_iff)
qed

text \<open>With pairwise different target SSRCs a media is taken from the previous state at most once.\<close>

lemma set_config_loop_map:
  assumes "distinct_targets ms"
  shows "set_config_loop same previous ms =
    map (\<lambda>m. case previous_index previous m of Some i \<Rightarrow> reconfigure_media same (previous ! i) m | None \<Rightarrow> fresh_media m) ms"
  using assms
proof (induction ms arbitrary: previous)
  case (Cons m ms)
  have d: "distinct_targets ms" using Cons.prems by (simp add: distinct_targets_def)
  show ?case
  proof (cases "previous_index previous m")
    case None
    then show ?thesis using Cons.IH [OF d] by simp
  next
    case (Some i)
    then have t: "target_ssrc (mapping (previous ! i)) = target_ssrc m" by (auto simp: previous_index_def find_Some_iff)
    have "target_ssrc x \<noteq> target_ssrc (mapping (previous ! i))" if "x \<in> set ms" for x
      using that Cons.prems unfolding t distinct_targets_def by (metis distinct.simps(2) imageI list.simps(9) set_map)
    note moved = previous_index_moved [OF this]
    show ?thesis using Some Cons.IH [OF d, of "previous[i := moved_from (previous ! i)]"] moved
      by (auto split: option.splits)
  qed
qed simp

lemma set_config_stream_at:
  assumes at: "stream_at r s k e" and d: "distinct_targets (config_media cfg)"
    and m: "m \<in> set (config_media cfg)" "target_ssrc m = s" "kind m = k"
  shows "stream_at (set_config r cfg) s k e"
proof -
  let ?new = "\<lambda>same m. case previous_index (media r) m of Some i \<Rightarrow> reconfigure_media same (media r ! i) m | None \<Rightarrow> fresh_media m"
  define same where "same \<longleftrightarrow> source_available r \<and> source_session_id r = config_source_session_id cfg"
  have media: "media (set_config r cfg) = map (?new same) (config_media cfg)"
    unfolding set_config_def Let_def rebuild_bindings_def same_def by (simp add: set_config_loop_map [OF d])
  have maps: "mapping (?new same x) = x" for x
    by (simp add: reconfigure_media_keeps fresh_media_def split: option.splits)
  obtain j where j: "j < length (media r)" "target_ssrc (mapping (media r ! j)) = s" "kind (mapping (media r ! j)) = k"
    using at by (auto simp: stream_at_def in_set_conv_nth)
  then obtain i where i: "previous_index (media r) m = Some i"
    using m unfolding previous_index_def by (metis (mono_tags, lifting) atLeastLessThan_iff find_None_iff not_Some_eq set_upt zero_le)
  then have "i < length (media r)" "target_ssrc (mapping (media r ! i)) = s"
    using m(2) by (auto simp: previous_index_def find_Some_iff)
  then have "expected_primary (media r ! i) = e" using stream_at_expected [OF at] by simp
  then have "expected_primary (?new same m) = e"
    using i m(2) \<open>target_ssrc (mapping (media r ! i)) = s\<close>
    by (auto simp: reconfigure_media_keeps expected_primary_def [of "media r ! i"] split: if_splits)
  then show ?thesis
    using m d maps [of m] unfolding stream_at_def media by (auto simp: maps comp_def intro!: bexI [of _ m])
qed

section \<open>Histories\<close>

datatype rewriter_op = Set_Config whep_rtp_rewriter_config | Clear_Source | Rewrite bytes u16 | Build_Retransmission bytes u16

fun rewriter_op_step :: "rewriter \<Rightarrow> rewriter_op \<Rightarrow> whep_rtp_rewrite_result result list \<times> rewriter" where
  "rewriter_op_step r (Set_Config cfg) = ([], set_config r cfg)"
| "rewriter_op_step r Clear_Source = ([], clear_source r)"
| "rewriter_op_step r (Rewrite packet tsn) = (let (out, r') = rewrite r packet tsn in ([out], r'))"
| "rewriter_op_step r (Build_Retransmission packet tsn) = ([], snd (build_retransmission r packet tsn))"

fun run_rewriter :: "rewriter \<Rightarrow> rewriter_op list \<Rightarrow> whep_rtp_rewrite_result result list" where
  "run_rewriter r [] = []"
| "run_rewriter r (op # ops) = (let (outs, r') = rewriter_op_step r op in outs @ run_rewriter r' ops)"

text \<open>The numbers given to the primary packets of one target SSRC, in the order they were sent.\<close>

fun primary_numbers :: "u32 \<Rightarrow> whep_rtp_rewrite_result result list \<Rightarrow> u16 list" where
  "primary_numbers s [] = []"
| "primary_numbers s (Inl e # outs) = primary_numbers s outs"
| "primary_numbers s (Inr res # outs) =
     (if continues s res then res_target_sequence_number res # primary_numbers s outs else primary_numbers s outs)"

definition keeps_stream :: "u32 \<Rightarrow> string \<Rightarrow> rewriter_op \<Rightarrow> bool" where
  "keeps_stream s k op = (case op of
     Set_Config cfg \<Rightarrow> distinct_targets (config_media cfg)
       \<and> list_ex (\<lambda>m. target_ssrc m = s \<and> kind m = k) (config_media cfg)
   | _ \<Rightarrow> True)"

lemma run_rewriter_numbers:
  assumes "stream_at r s k e" and "list_all (keeps_stream s k) ops" and "list_all ok (run_rewriter r ops)"
  shows "\<exists>n. primary_numbers s (run_rewriter r ops) = map (\<lambda>i. e + of_nat i) [0 ..< n]"
  using assms
proof (induction ops arbitrary: r e)
  case Nil
  then show ?case by (intro exI [of _ 0]) simp
next
  case (Cons op ops)
  note at = Cons.prems(1)
  have keep: "list_all (keeps_stream s k) ops" using Cons.prems(2) by simp
  show ?case
  proof (cases op)
    case (Set_Config cfg)
    then have "stream_at (set_config r cfg) s k e"
      using Cons.prems(2) set_config_stream_at [OF at] by (auto simp: keeps_stream_def list_ex_iff)
    from Cons.IH [OF this keep] show ?thesis using Cons.prems(3) Set_Config by simp
  next
    case Clear_Source
    from Cons.IH [OF clear_source_stream_at [OF at] keep] show ?thesis using Cons.prems(3) Clear_Source by simp
  next
    case (Build_Retransmission packet tsn)
    have "stream_at (snd (build_retransmission r packet tsn)) s k e"
      using build_retransmission_stream_at [OF prod.collapse [symmetric] at] .
    from Cons.IH [OF this keep] show ?thesis using Cons.prems(3) Build_Retransmission by simp
  next
    case (Rewrite packet tsn)
    obtain out r' where rw: "rewrite r packet tsn = (out, r')" by fastforce
    then obtain res where out: "out = Inr res" using Cons.prems(3) Rewrite by (auto simp: ok_iff)
    note step = rewrite_stream_at [OF rw [unfolded out] at]
    from Cons.IH [OF conjunct1 [OF step] keep] Cons.prems(3) rw out Rewrite
    obtain n where n: "primary_numbers s (run_rewriter r' ops) =
        map (\<lambda>i. (if continues s res then e + 1 else e) + of_nat i) [0 ..< n]" by auto
    show ?thesis
    proof (cases "continues s res")
      case True
      then have "primary_numbers s (run_rewriter r (op # ops)) = e # map (\<lambda>i. e + 1 + of_nat i) [0 ..< n]"
        using n step rw out Rewrite by simp
      also have "\<dots> = map (\<lambda>i. e + of_nat i) [0 ..< Suc n]"
        by (simp only: upt_conv_Cons zero_less_Suc list.map map_Suc_upt [symmetric] map_map comp_def) (simp add: add.assoc)
      finally show ?thesis by blast
    next
      case False
      then show ?thesis using n rw out Rewrite by auto
    qed
  qed
qed


text \<open>The publisher of the example, and a second publisher that takes the stream over.\<close>

definition demo_history :: "rewriter_op list" where
  "demo_history = [Rewrite demo_packet 9, Clear_Source,
     Set_Config \<lparr>config_source_session_id = ''again'', config_media = [demo_mapping]\<rparr>,
     Rewrite [0x80, 96, 1, 0, 0, 0, 0, 9, 0, 0, 0, 77, 1] 10]"


section \<open>The time axis\<close>

text \<open>Both the packets and the sender reports of a media are put on the axis given by its anchors.\<close>

definition on_axis :: "media_runtime_state \<Rightarrow> u32 \<Rightarrow> u32 option" where
  "on_axis c t = map_option (\<lambda>a. target_timestamp_anchor c + (t - a)) (source_timestamp_anchor c)"

lemma translate_on_axis:
  assumes "translate_timestamp c t = (ts, c')" and "source_timestamp_anchor c = Some a"
  shows "on_axis c' x = on_axis c x" and "on_axis c t = Some ts" and "source_primary_ssrc c' = source_primary_ssrc c"
    and "timestamp_initialized c' = timestamp_initialized c" and "source_timestamp_anchor c' = Some a"
  using assms by (auto simp: translate_timestamp_def on_axis_def Let_def split: if_splits)

lemma allocate_keeps_axis:
  assumes "allocate_sequence_number c rtx = (seq, c')"
  shows "on_axis c' x = on_axis c x" and "source_primary_ssrc c' = source_primary_ssrc c"
    and "timestamp_initialized c' = timestamp_initialized c" and "source_timestamp_anchor c' = source_timestamp_anchor c"
  using assms by (auto simp: allocate_sequence_number_def on_axis_def Let_def split: if_splits)

text \<open>A media with a source anchor has started its target axis.\<close>

definition axis_wf :: "media_runtime_state \<Rightarrow> bool" where
  "axis_wf c \<longleftrightarrow> (source_timestamp_anchor c \<noteq> None \<longrightarrow> timestamp_initialized c)"

lemma axis_wf_begin: "axis_wf (begin_primary_source c a b d e)"
  by (simp add: axis_wf_def begin_primary_source_def Let_def)

lemma axis_wf_ops:
  "axis_wf (fresh_media m)" "axis_wf (clear_source_state c)"
  "axis_wf c \<Longrightarrow> axis_wf (c\<lparr>primary_sequence_numbers := x\<rparr>)" "axis_wf c \<Longrightarrow> axis_wf (c\<lparr>source_rtx_ssrc := y\<rparr>)"
  "axis_wf c \<Longrightarrow> axis_wf (reconfigure_media same c m)" "axis_wf c \<Longrightarrow> axis_wf (moved_from c)"
  by (simp_all add: axis_wf_def fresh_media_def clear_source_state_def reconfigure_media_def moved_from_def Let_def)

lemma axis_wf_allocate: "allocate_sequence_number c rtx = (seq, c') \<Longrightarrow> axis_wf c' = axis_wf c"
  using allocate_keeps_axis [of c rtx seq c'] by (simp add: axis_wf_def)

lemma axis_wf_translate:
  assumes "translate_timestamp c t = (ts, c')" and "axis_wf c"
  shows "axis_wf c'"
  using assms axis_wf_begin
  by (auto simp: translate_timestamp_def Let_def axis_wf_def begin_primary_source_def split: if_splits)

definition axes_wf :: "rewriter \<Rightarrow> bool" where
  "axes_wf r \<longleftrightarrow> (\<forall>c \<in> set (media r). axis_wf c)"

lemma axes_wf_update: "axes_wf r \<Longrightarrow> media r' = (media r)[i := c] \<Longrightarrow> axis_wf c \<Longrightarrow> axes_wf r'"
  unfolding axes_wf_def using set_update_subset_insert [of "media r" i c] by auto

lemma axes_wf_update_source:
  assumes "update_source r index pt parsed = (b, r1)" and "index < length (media r)" and "axes_wf r"
  shows "axes_wf r1"
proof -
  have c: "axis_wf (media r ! index)" using assms(2,3) by (simp add: axes_wf_def)
  show ?thesis using assms(1,3) c axis_wf_begin axis_wf_ops(4)
    by (auto simp: update_source_def update_rtx_source_def update_primary_source_def erase_bindings_for_media_def Let_def
        split: if_splits intro: axes_wf_update)
qed

lemma axes_wf_emit:
  assumes "emit_rewritten r index pt packet parsed tsn keyframe original ssrc = (out, r')"
    and "index < length (media r)" and "axes_wf r"
  shows "axes_wf r'"
proof -
  obtain seq c1 where a: "allocate_sequence_number (media r ! index) (is_rtx pt) = (seq, c1)" by fastforce
  obtain ts c2 where t: "translate_timestamp c1 (timestamp (parsed_header parsed)) = (ts, c2)" by fastforce
  have c: "axis_wf c2"
    using axis_wf_translate [OF t] axis_wf_allocate [OF a] assms(2,3) by (simp add: axes_wf_def)
  let ?c = "c2\<lparr>primary_sequence_numbers := sequence_cache_remember (primary_sequence_numbers c2) (sequence_number (parsed_header parsed)) seq\<rparr>"
  have "media r' = (media r)[index := c2] \<or> media r' = (media r)[index := ?c]"
    using assms(1) unfolding emit_rewritten_def Let_def a t prod.case by (auto split: sum.splits if_splits)
  then show ?thesis using axes_wf_update [OF assms(3)] c axis_wf_ops(3) [OF c] by blast
qed

lemma axes_wf_rewrite:
  assumes "rewrite r packet tsn = (out, r')" and wf: "axes_wf r"
  shows "axes_wf r'"
proof (cases "\<exists>parsed index pt. parse_rewriteable_rtp_packet packet = Inr parsed \<and> source_available r \<and> media r \<noteq> []
    \<and> resolve_media r parsed = Some (index, pt)")
  case False
  then have "r' = r" using assms(1)
    by (auto simp: rewrite_def split: sum.splits if_splits option.splits prod.splits)
  then show ?thesis using wf by simp
next
  case True
  then obtain parsed index pt where t: "parse_rewriteable_rtp_packet packet = Inr parsed" "source_available r" "media r \<noteq> []"
    "resolve_media r parsed = Some (index, pt)" by blast
  obtain b r1 where u: "update_source r index pt parsed = (b, r1)" by fastforce
  have i: "index < length (media r)" using resolve_media_sound [OF t(4)] by simp
  have i1: "index < length (media r1)" using update_source_media(1) [OF u i] i by simp
  have r: "rewrite_resolved r index pt packet parsed tsn = (out, r')" using assms(1) t by (simp add: rewrite_def)
  have "r' = r1 \<or> (\<exists>kf og ss. emit_rewritten r1 index pt packet parsed tsn kf og ss = (out, r'))"
    using r unfolding rewrite_resolved_def update_source_def [symmetric] u prod.case
    by (auto simp: Let_def split: option.splits if_splits sum.splits)
  then show ?thesis using axes_wf_update_source [OF u i wf] axes_wf_emit [OF _ i1] by blast
qed

lemma axis_wf_set_config_loop:
  "(\<forall>c \<in> set previous. axis_wf c) \<Longrightarrow> c \<in> set (set_config_loop same previous ms) \<Longrightarrow> axis_wf c"
proof (induction same previous ms arbitrary: c rule: set_config_loop.induct)
  case (2 same previous m ms)
  show ?case
  proof (cases "previous_index previous m")
    case None
    then show ?thesis using 2 axis_wf_ops(1) by auto
  next
    case (Some i)
    then have i: "i < length previous" by (auto simp: previous_index_def find_Some_iff)
    then have old: "axis_wf (previous ! i)" using "2.prems"(1) by simp
    have "\<forall>c \<in> set (previous[i := moved_from (previous ! i)]). axis_wf c"
      using "2.prems"(1) axis_wf_ops(6) [OF old] set_update_subset_insert [of previous i] by blast
    then show ?thesis using 2 Some axis_wf_ops(5) [OF old] by auto
  qed
qed simp

lemma axes_wf_op: "axes_wf r \<Longrightarrow> axes_wf (snd (rewriter_op_step r op))"
proof (cases op)
  case (Set_Config cfg)
  assume "axes_wf r"
  then show ?thesis using Set_Config axis_wf_set_config_loop
    by (auto simp: axes_wf_def set_config_def Let_def rebuild_bindings_def)
next
  case Clear_Source
  then show ?thesis using axis_wf_ops(2) by (auto simp: axes_wf_def clear_source_def)
next
  case (Rewrite packet tsn)
  assume "axes_wf r"
  then show ?thesis using Rewrite axes_wf_rewrite [OF prod.collapse [symmetric]] by (simp add: case_prod_unfold Let_def)
next
  case (Build_Retransmission packet tsn)
  assume wf: "axes_wf r"
  let ?r = "snd (build_retransmission r packet tsn)"
  have "?r = r \<or> (\<exists>index seq c. index < length (media r) \<and> allocate_sequence_number (media r ! index) True = (seq, c)
      \<and> media ?r = (media r)[index := c])"
    by (auto simp: build_retransmission_def find_index_def Let_def find_Some_iff split: sum.splits option.splits if_splits prod.splits)
  then show ?thesis using Build_Retransmission wf axis_wf_allocate axes_wf_update [OF wf]
    by (metis axes_wf_def nth_mem rewriter_op_step.simps(4) snd_conv)
qed

inductive rewriter_reachable :: "rewriter \<Rightarrow> bool" where
  start: "rewriter_reachable empty_rewriter"
| step: "rewriter_reachable r \<Longrightarrow> rewriter_reachable (snd (rewriter_op_step r op))"

lemma rewriter_reachable_axes: "rewriter_reachable r \<Longrightarrow> axes_wf r"
  by (induction rule: rewriter_reachable.induct) (auto simp: axes_wf_op, simp add: axes_wf_def empty_rewriter_def)

lemma update_primary_source_axis:
  assumes "update_source r index pt parsed = (Some keyframe, r1)" and "\<not> is_rtx pt" and "index < length (media r)" and "axes_wf r"
  shows "source_primary_ssrc (media r1 ! index) = Some (rtp_ssrc (parsed_header parsed))
    \<and> timestamp_initialized (media r1 ! index) \<and> source_timestamp_anchor (media r1 ! index) \<noteq> None"
proof -
  have "axis_wf (media r ! index)" using assms(3,4) by (simp add: axes_wf_def)
  then show ?thesis using assms(1-3)
    by (auto simp: update_source_def update_primary_source_def erase_bindings_for_media_def begin_primary_source_def
        axis_wf_def Let_def split: if_splits)
qed

lemma find_unique_index:
  assumes "i < length xs" and "P (xs ! i)" and "\<And>j. j < length xs \<Longrightarrow> P (xs ! j) \<Longrightarrow> j = i"
  shows "find P xs = Some (xs ! i)"
proof -
  have "\<not> P (xs ! j)" if "j < i" for j
    using that assms(1) assms(3) [of j] by (cases "P (xs ! j)") auto
  then show ?thesis unfolding find_Some_iff using assms(1,2) by blast
qed

text \<open>
  C29. Media and sender reports agree about time. After a primary packet with the source timestamp \<open>t0\<close>
  was sent with the target timestamp \<open>t1\<close>, a sender report of the same source that names the moment
  \<open>t\<close> is translated to \<open>t1 + (t - t0)\<close> on the subscriber's SSRC, so that a subscriber can synchronise
  audio and video after any number of publisher changes.
\<close>

theorem sender_reports_follow_media_time:
  assumes reach: "rewriter_reachable r" and targets: "distinct_targets (map mapping (media r))"
    and rw: "rewrite r packet tsn = (Inr res, r')" and cont: "continues s res" and src: "res_source_ssrc res \<noteq> 0"
    and owner: "\<forall>c \<in> set (media r). source_primary_ssrc c = Some (res_source_ssrc res) \<longrightarrow> target_ssrc (mapping c) = s"
  shows "map_source_timestamp r' (res_source_ssrc res) t =
    Some \<lparr>mapped_target_ssrc = s, mapped_target_timestamp = res_target_timestamp res + (t - res_source_timestamp res)\<rparr>"
proof -
  have state: "rewrite_state res = rewritten" and prim: "\<not> res_rtx res" and ssrc: "res_target_ssrc res = s"
    using cont by (simp_all add: continues_def)
  show ?thesis
  proof (rule rewriteE [OF rw state], goal_cases)
    case (1 parsed index pt keyframe r1 original sc)
    note u = update_source_media [OF 1(6,4)]
    have rtx: "\<not> is_rtx pt" using emit_rewrittenE [OF 1(11)] prim by metis
    then have og: "original = None" using 1(9) by simp
    note axis = update_primary_source_axis [OF 1(6) rtx 1(4) rewriter_reachable_axes [OF reach]]
    show ?case
    proof (rule emit_rewrittenE [OF 1(11)], goal_cases)
      case e: (1 seq ts c1 c2 es block)
      let ?c = "c2\<lparr>primary_sequence_numbers := sequence_cache_remember (primary_sequence_numbers c2) (sequence_number (parsed_header parsed)) seq\<rparr>"
      note a = allocate_keeps_axis [OF e(1)]
      obtain an where an: "source_timestamp_anchor c1 = Some an" using axis a(4) by auto
      note t = translate_on_axis [OF e(2) an]
      have media: "media r' = (media r1)[index := ?c]" using e(14) og by simp
      have source: "res_source_ssrc res = rtp_ssrc (parsed_header parsed)" and st: "res_source_timestamp res = timestamp (parsed_header parsed)"
        using 1(11) by (auto simp: emit_rewritten_def Let_def split: prod.splits sum.splits if_splits)
      have len: "index < length (media r')" using media u(1) 1(4) by simp
      have here: "source_primary_ssrc ?c = Some (res_source_ssrc res)" "timestamp_initialized ?c" "source_timestamp_anchor ?c = Some an"
        "on_axis ?c x = on_axis c1 x" "target_ssrc (mapping ?c) = s" for x
        using axis a(2,3) t(1,3,4,5) source e(3,9) u(3) 1(7) ssrc rtx by (simp_all add: on_axis_def)
      have unique: "j = index" if "j < length (media r')" "source_primary_ssrc (media r' ! j) = Some (res_source_ssrc res)" for j
      proof (rule ccontr)
        assume j: "j \<noteq> index"
        then have "media r' ! j = media r ! j" "j < length (media r)" using that(1) media u(1,2) by simp_all
        then have "target_ssrc (mapping (media r ! j)) = s" using owner that(2) by simp
        moreover have "target_ssrc (mapping (media r ! index)) = s" using here(5) e(3) u(3) by simp
        ultimately show False using j targets \<open>j < length (media r)\<close> 1(4)
          by (auto simp: distinct_targets_def distinct_conv_nth)
      qed
      have at: "media r' ! index = ?c" using media len by simp
      have "find (\<lambda>c. source_primary_ssrc c = Some (res_source_ssrc res) \<and> source_timestamp_anchor c \<noteq> None \<and> timestamp_initialized c)
          (media r') = Some (media r' ! index)"
        using here(1-3) unique unfolding at [symmetric] by (intro find_unique_index [OF len]) auto
      moreover have "target_timestamp_anchor ?c + (t - an) = res_target_timestamp res + (t - res_source_timestamp res)"
        using t(2) here(3,4) an e(12) st unfolding on_axis_def by (simp add: algebra_simps)
      ultimately show ?case using src here(3,5) at by (simp add: map_source_timestamp_def)
    qed
  qed
qed

theorem sender_reports_follow_media_time_witness:
  "map_source_timestamp (snd (rewrite demo_rewriter demo_packet 9)) 2 91 =
     Some \<lparr>mapped_target_ssrc = 0x11223344, mapped_target_timestamp = 0xFE7C9605 + 90\<rparr>"
proof -
  have media: "media demo_rewriter = [fresh_media demo_mapping]"
    by (simp add: demo_rewriter_def set_config_def empty_rewriter_def previous_index_def rebuild_bindings_def)
  have "rewriter_reachable demo_rewriter"
    using rewriter_reachable.step [OF rewriter_reachable.start,
        of "Set_Config \<lparr>config_source_session_id = ''pub'', config_media = [demo_mapping]\<rparr>"] by (simp add: demo_rewriter_def)
  moreover have "distinct_targets (map mapping (media demo_rewriter))" by (simp add: media distinct_targets_def)
  moreover have "continues 0x11223344 demo_result" by (simp add: continues_def demo_result_def)
  moreover have "res_source_ssrc demo_result \<noteq> 0" by (simp add: demo_result_def)
  moreover have "\<forall>c \<in> set (media demo_rewriter). source_primary_ssrc c = Some (res_source_ssrc demo_result)
      \<longrightarrow> target_ssrc (mapping c) = 0x11223344"
    by (simp add: media fresh_media_def demo_mapping_def)
  ultimately show ?thesis
    using sender_reports_follow_media_time [OF _ _ demo_rewrite, of "0x11223344" 91] by (simp add: demo_result_def)
qed

end
