(* ===== verification/Whep_Rtx_Forwarding.thy ===== *)
theory Whep_Rtx_Forwarding
  imports Whep_Stream_Continuity
begin

unbundle bit_operations_syntax

text \<open>
  Forwarding a publisher's own RTX packets (\<^verbatim>\<open>sequence_number_cache\<close> and the RTX branch of \<^verbatim>\<open>rewrite\<close> in
  \<^verbatim>\<open>src/media/whep_rtp_rewriter.cpp\<close>): the original sequence number inside an RTX packet is
  translated with a bounded cache of the numbers that primary packets were given. The cache is
  compared with the whole history of what was sent.
\<close>

section \<open>The cache\<close>

lemma sequence_cache_evict_sub: "cache_values (sequence_cache_evict order vs) s = Some t \<Longrightarrow> vs s = Some t"
  by (induction order vs rule: sequence_cache_evict.induct) (auto split: if_splits)

lemma sequence_cache_find_remember:
  "sequence_cache_find (sequence_cache_remember c source target) s = Some t \<Longrightarrow>
   (s = source \<and> t = target) \<or> sequence_cache_find c s = Some t"
  by (auto simp: sequence_cache_find_def sequence_cache_remember_def split: if_splits dest: sequence_cache_evict_sub)

lemma sequence_cache_empty [simp]:
  "sequence_cache_find (sequence_cache_clear c) s = None" "sequence_cache_find empty_sequence_number_cache s = None"
  by (simp_all add: sequence_cache_find_def sequence_cache_clear_def empty_sequence_number_cache_def)

lemma sequence_cache_evict_order: "length (cache_order (sequence_cache_evict order vs)) \<le> 4096"
  by (induction order vs rule: sequence_cache_evict.induct) auto

section \<open>Histories with what was sent\<close>

inductive rewriter_history :: "rewriter \<Rightarrow> whep_rtp_rewrite_result result list \<Rightarrow> bool" where
  start: "rewriter_history empty_rewriter []"
| step: "rewriter_history r outs \<Longrightarrow> rewriter_op_step r op = (new, r') \<Longrightarrow> rewriter_history r' (outs @ new)"

text \<open>Every pair in the cache of a media stands for a primary packet of its current source that was sent.\<close>

definition cache_backed :: "whep_rtp_rewrite_result result list \<Rightarrow> media_runtime_state \<Rightarrow> bool" where
  "cache_backed outs c \<longleftrightarrow> (\<forall>s t. sequence_cache_find (primary_sequence_numbers c) s = Some t \<longrightarrow>
     (\<exists>res. Inr res \<in> set outs \<and> continues (target_ssrc (mapping c)) res \<and> res_source_sequence_number res = s
        \<and> res_target_sequence_number res = t \<and> source_primary_ssrc c = Some (res_source_ssrc res)))"

definition caches_backed :: "whep_rtp_rewrite_result result list \<Rightarrow> rewriter \<Rightarrow> bool" where
  "caches_backed outs r \<longleftrightarrow> (\<forall>c \<in> set (media r). cache_backed outs c)"

lemma cache_backed_mono: "cache_backed outs c \<Longrightarrow> cache_backed (outs @ new) c"
  unfolding cache_backed_def by fastforce

lemma cache_backed_same:
  assumes "cache_backed outs c" and "primary_sequence_numbers c' = primary_sequence_numbers c"
    and "source_primary_ssrc c' = source_primary_ssrc c" and "target_ssrc (mapping c') = target_ssrc (mapping c)"
  shows "cache_backed outs c'"
  using assms by (simp add: cache_backed_def)

lemma cache_backed_empty:
  "cache_backed outs (begin_primary_source c a b d e)" "cache_backed outs (clear_source_state c)"
  "cache_backed outs (fresh_media m)" "cache_backed outs (moved_from c)"
  by (simp_all add: cache_backed_def begin_primary_source_def clear_source_state_def fresh_media_def moved_from_def Let_def)

lemma cache_backed_reconfigure:
  "cache_backed outs c \<Longrightarrow> target_ssrc (mapping c) = target_ssrc m \<Longrightarrow> cache_backed outs (reconfigure_media same c m)"
  using cache_backed_empty(2)
  by (auto simp: reconfigure_media_def Let_def intro: cache_backed_same)

lemma cache_backed_allocate:
  assumes "allocate_sequence_number c rtx = (seq, c')" and "cache_backed outs c"
  shows "cache_backed outs c'" and "source_primary_ssrc c' = source_primary_ssrc c"
  using assms
  by (auto simp: allocate_sequence_number_def Let_def split: if_splits intro: cache_backed_same)

lemma cache_backed_translate:
  assumes "translate_timestamp c t = (ts, c')" and "cache_backed outs c"
  shows "cache_backed outs c'"
proof -
  let ?b = "if source_timestamp_anchor c = None
    then begin_primary_source c (case source_primary_ssrc c of None \<Rightarrow> 0 | Some v \<Rightarrow> v)
           (case source_primary_payload_type c of None \<Rightarrow> 0 | Some v \<Rightarrow> v) t (max 1 (source_clock_rate c)) else c"
  have b: "cache_backed outs ?b" using assms(2) cache_backed_empty(1) by simp
  have "c' = ?b \<or> (\<exists>x. c' = ?b\<lparr>last_target_timestamp := x\<rparr>)"
    using assms(1) unfolding translate_timestamp_def Let_def prod.inject by (metis (no_types))
  then show ?thesis using cache_backed_same [OF b(1), of c'] by auto
qed

lemma cache_backed_translate_source: "translate_timestamp c t = (ts, c') \<Longrightarrow> source_primary_ssrc c \<noteq> None \<Longrightarrow>
   source_primary_ssrc c' = source_primary_ssrc c"
  by (auto simp: translate_timestamp_def begin_primary_source_def Let_def split: if_splits)

lemma caches_backed_update:
  "caches_backed outs r \<Longrightarrow> media r' = (media r)[i := c] \<Longrightarrow> cache_backed outs c \<Longrightarrow> caches_backed outs r'"
  unfolding caches_backed_def using set_update_subset_insert [of "media r" i c] by auto

lemma caches_backed_mono: "caches_backed outs r \<Longrightarrow> caches_backed (outs @ new) r"
  using cache_backed_mono by (auto simp: caches_backed_def)

lemma caches_backed_update_source:
  assumes "update_source r index pt parsed = (b, r1)" and "index < length (media r)" and "caches_backed outs r"
  shows "caches_backed outs r1"
proof -
  have c: "cache_backed outs (media r ! index)" using assms(2,3) by (simp add: caches_backed_def)
  then have "cache_backed outs ((media r ! index)\<lparr>source_rtx_ssrc := y\<rparr>)" for y by (rule cache_backed_same) simp_all
  then show ?thesis using assms(1,3) c cache_backed_empty(1)
    by (auto simp: update_source_def update_rtx_source_def update_primary_source_def erase_bindings_for_media_def Let_def
        split: if_splits intro: caches_backed_update)
qed


text \<open>Emitting a primary packet adds the pair that the packet itself stands for.\<close>

lemma caches_backed_emit:
  assumes emit: "emit_rewritten r index pt packet parsed tsn keyframe original ssrc = (out, r')"
    and len: "index < length (media r)" and backed: "caches_backed outs r"
    and prim: "original = None \<Longrightarrow> \<not> is_rtx pt \<and> ssrc = target_ssrc (mapping (media r ! index))
      \<and> source_primary_ssrc (media r ! index) = Some (rtp_ssrc (parsed_header parsed))"
  shows "caches_backed (outs @ [out]) r'"
proof -
  obtain seq c1 where a: "allocate_sequence_number (media r ! index) (is_rtx pt) = (seq, c1)" by fastforce
  obtain ts c2 where t: "translate_timestamp c1 (timestamp (parsed_header parsed)) = (ts, c2)" by fastforce
  have c0: "cache_backed outs (media r ! index)" using backed len by (simp add: caches_backed_def)
  have c2: "cache_backed (outs @ [out]) c2"
    using cache_backed_mono [OF cache_backed_translate [OF t cache_backed_allocate(1) [OF a c0]]] .
  have m: "mapping c2 = mapping (media r ! index)" using mapping_allocate [OF a] mapping_translate [OF t] by simp
  let ?c = "c2\<lparr>primary_sequence_numbers := sequence_cache_remember (primary_sequence_numbers c2) (sequence_number (parsed_header parsed)) seq\<rparr>"
  have "media r' = (media r)[index := c2] \<or>
    (\<exists>res. out = Inr res \<and> original = None \<and> media r' = (media r)[index := ?c] \<and> rewrite_state res = rewritten
       \<and> res_rtx res = is_rtx pt \<and> res_target_ssrc res = ssrc \<and> res_source_ssrc res = rtp_ssrc (parsed_header parsed)
       \<and> res_source_sequence_number res = sequence_number (parsed_header parsed) \<and> res_target_sequence_number res = seq)"
    using emit unfolding emit_rewritten_def Let_def a t prod.case by (auto split: sum.splits if_splits)
  then show ?thesis
  proof (elim disjE exE conjE, goal_cases)
    case 1
    from caches_backed_update [OF caches_backed_mono [OF backed] 1 c2] show ?case .
  next
    case (2 res)
    have p: "\<not> is_rtx pt" "ssrc = target_ssrc (mapping (media r ! index))"
      "source_primary_ssrc (media r ! index) = Some (rtp_ssrc (parsed_header parsed))" using prim [OF 2(2)] by auto
    have src: "source_primary_ssrc c2 = Some (rtp_ssrc (parsed_header parsed))"
      using cache_backed_translate_source [OF t] cache_backed_allocate(2) [OF a c0] p(3) by simp
    have "cache_backed (outs @ [out]) ?c"
      unfolding cache_backed_def
    proof (intro allI impI, goal_cases)
      case (1 s t)
      from sequence_cache_find_remember [of "primary_sequence_numbers c2"] 1 consider
        "s = sequence_number (parsed_header parsed)" "t = seq" | "sequence_cache_find (primary_sequence_numbers c2) s = Some t"
        by fastforce
      then show ?case
      proof cases
        case 1
        have "continues (target_ssrc (mapping ?c)) res" using 2 p m by (simp add: continues_def)
        then show ?thesis using 1 2 src by auto
      next
        case 2
        then show ?thesis using c2 by (auto simp: cache_backed_def)
      qed
    qed
    from caches_backed_update [OF caches_backed_mono [OF backed] 2(3) this] show ?case .
  qed
qed

text \<open>Every operation keeps the caches backed by what was sent.\<close>

lemma update_source_ssrc:
  assumes "update_source r index pt parsed = (Some k, r1)" and "index < length (media r)" and "\<not> is_rtx pt"
  shows "source_primary_ssrc (media r1 ! index) = Some (rtp_ssrc (parsed_header parsed))"
  using assms
  by (auto simp: update_source_def update_primary_source_def erase_bindings_for_media_def begin_primary_source_def Let_def
      split: if_splits)

lemma update_source_dropped: "update_source r index pt parsed = (None, r1) \<Longrightarrow> r1 = r"
  by (auto simp: update_source_def update_rtx_source_def update_primary_source_def Let_def split: if_splits)

lemma rewrite_cases:
  assumes "rewrite r packet tsn = (out, r')"
  obtains "r' = r"
  | parsed index pt k r1 where "update_source r index pt parsed = (k, r1)" and "index < length (media r)" and "r' = r1"
  | parsed index pt k r1 original ssrc where "update_source r index pt parsed = (Some k, r1)" and "index < length (media r)"
      and "emit_rewritten r1 index pt packet parsed tsn k original ssrc = (out, r')"
      and "original = None \<Longrightarrow> \<not> is_rtx pt \<and> ssrc = target_ssrc (mapping (media r1 ! index))"
proof (cases "\<exists>parsed index pt. parse_rewriteable_rtp_packet packet = Inr parsed \<and> source_available r \<and> media r \<noteq> []
    \<and> resolve_media r parsed = Some (index, pt)")
  case False
  then have "r' = r" using assms
    by (auto simp: rewrite_def split: sum.splits if_splits option.splits prod.splits)
  then show ?thesis using that(1) by simp
next
  case True
  then obtain parsed index pt where t: "parse_rewriteable_rtp_packet packet = Inr parsed" "source_available r" "media r \<noteq> []"
    "resolve_media r parsed = Some (index, pt)" by blast
  obtain k r1 where u: "update_source r index pt parsed = (k, r1)" by fastforce
  have i: "index < length (media r)" using resolve_media_sound [OF t(4)] by simp
  have r: "rewrite_resolved r index pt packet parsed tsn = (out, r')" using assms t by (simp add: rewrite_def)
  have "r' = r1 \<or> (\<exists>kf og. k = Some kf \<and> (is_rtx pt \<longleftrightarrow> og \<noteq> None) \<and> emit_rewritten r1 index pt packet parsed tsn kf og
      (if is_rtx pt then target_rtx_ssrc (mapping (media r1 ! index)) else target_ssrc (mapping (media r1 ! index))) = (out, r'))"
    using r unfolding rewrite_resolved_def update_source_def [symmetric] u prod.case
    by (auto simp: Let_def split: option.splits if_splits sum.splits)
  then show ?thesis using that(2) [OF u i] that(3) [OF u [THEN trans, of "(Some _, r1)"] i] u by (auto split: if_splits)
qed

lemma caches_backed_rewrite:
  assumes rw: "rewrite r packet tsn = (out, r')" and backed: "caches_backed outs r"
  shows "caches_backed (outs @ [out]) r'"
proof (rule rewrite_cases [OF rw], goal_cases)
  case 1
  then show ?case using caches_backed_mono [OF backed] by simp
next
  case (2 parsed index pt k r1)
  then show ?case using caches_backed_mono caches_backed_update_source [OF 2(1,2) backed] by simp
next
  case (3 parsed index pt k r1 original ssrc)
  have i: "index < length (media r1)" using update_source_media(1) [OF 3(1,2)] 3(2) by simp
  show ?case
  proof (rule caches_backed_emit [OF 3(3) i caches_backed_update_source [OF 3(1,2) backed]])
    assume "original = None"
    from 3(4) [OF this] show "\<not> is_rtx pt \<and> ssrc = target_ssrc (mapping (media r1 ! index))
      \<and> source_primary_ssrc (media r1 ! index) = Some (rtp_ssrc (parsed_header parsed))"
      using update_source_ssrc [OF 3(1,2)] by blast
  qed
qed

lemma caches_backed_set_config_loop:
  "(\<forall>c \<in> set previous. cache_backed outs c) \<Longrightarrow> c \<in> set (set_config_loop same previous ms) \<Longrightarrow> cache_backed outs c"
proof (induction same previous ms arbitrary: c rule: set_config_loop.induct)
  case (2 same previous m ms)
  show ?case
  proof (cases "previous_index previous m")
    case None
    then show ?thesis using 2 cache_backed_empty(3) by auto
  next
    case (Some i)
    then have i: "i < length previous" "target_ssrc (mapping (previous ! i)) = target_ssrc m"
      by (auto simp: previous_index_def find_Some_iff)
    then have old: "cache_backed outs (previous ! i)" using "2.prems"(1) by simp
    have "\<forall>c \<in> set (previous[i := moved_from (previous ! i)]). cache_backed outs c"
      using "2.prems"(1) cache_backed_empty(4) set_update_subset_insert [of previous i] by blast
    then show ?thesis using 2 Some cache_backed_reconfigure [OF old i(2)] by auto
  qed
qed simp

lemma caches_backed_op:
  assumes "rewriter_op_step r op = (new, r')" and "caches_backed outs r"
  shows "caches_backed (outs @ new) r'"
proof (cases op)
  case (Set_Config cfg)
  then show ?thesis using assms caches_backed_set_config_loop
    by (auto simp: caches_backed_def set_config_def Let_def rebuild_bindings_def)
next
  case Clear_Source
  then show ?thesis using assms cache_backed_empty(2) by (auto simp: caches_backed_def clear_source_def)
next
  case (Rewrite packet tsn)
  then show ?thesis using assms caches_backed_rewrite by (auto simp: Let_def split: prod.splits)
next
  case (Build_Retransmission packet tsn)
  let ?r = "snd (build_retransmission r packet tsn)"
  have "?r = r \<or> (\<exists>index seq c. index < length (media r) \<and> allocate_sequence_number (media r ! index) True = (seq, c)
      \<and> media ?r = (media r)[index := c])"
    by (auto simp: build_retransmission_def find_index_def Let_def find_Some_iff split: sum.splits option.splits if_splits prod.splits)
  then have "caches_backed outs ?r"
    using assms(2) caches_backed_update [OF assms(2)] cache_backed_allocate(1) by (metis caches_backed_def nth_mem)
  then show ?thesis using assms(1) Build_Retransmission by simp
qed

lemma rewriter_history_backed: "rewriter_history r outs \<Longrightarrow> caches_backed outs r"
proof (induction rule: rewriter_history.induct)
  case start
  then show ?case by (simp add: caches_backed_def empty_rewriter_def)
next
  case (step r outs op new r')
  then show ?case using caches_backed_op by blast
qed

section \<open>The property\<close>


text \<open>The publisher retransmits the packet of \<open>demo_packet\<close> on its RTX stream.\<close>

definition demo_rtx_packet :: bytes where
  "demo_rtx_packet = [0x80, 97, 0, 5, 0, 0, 0, 1, 0, 0, 0, 77, 0, 7, 0xAA, 0xBB]"


end
