(* ===== verification/Media_Fanout_Router.thy ===== *)
theory Media_Fanout_Router
  imports Prelude "HOL-Library.AList"
begin

text \<open>
  The media router (\<^verbatim>\<open>src/media/media_fanout_router.cpp\<close> and \<^verbatim>\<open>.h\<close>): who publishes a stream, who
  subscribes to it, which handler gets which packet, report or announcement, and how key frame
  requests of the subscribers are merged and retried towards the publisher.

  Handlers (\<^verbatim>\<open>std::function\<close>) are values of a type \<open>'h\<close>, an empty handler is \<open>None\<close>; the offer of a
  publisher is a value of a type \<open>'o\<close>, which the router only stores. Every operation changes the
  router first and calls handlers last; its model returns the calls, in order, beside the new router.
  The maps are association lists. Their order is the unspecified order of an \<^verbatim>\<open>unordered_map\<close>, and no
  theorem depends on it.
\<close>

section \<open>State\<close>

record ('h, 'o) media_publisher_source =
  publisher_stream_id :: string
  publisher_session_id :: string
  publisher_generation :: u64
  publisher_offer :: 'o
  keyframe_request_handler :: 'h

record ('h, 'o) media_publisher_source_update =
  update_generation :: u64
  update_publisher :: "('h, 'o) media_publisher_source option"

record media_publisher_source_bye =
  bye_session_id :: string
  bye_generation :: u64
  bye_source_ssrc :: u32
  bye_text :: string

record media_publisher_sender_timing =
  timing_session_id :: string
  timing_generation :: u64
  timing_source_ssrc :: u32
  timing_ntp_timestamp :: u64
  timing_rtp_timestamp :: u32
  timing_packet_count :: u32
  timing_octet_count :: u32

record 'h subscription =
  subscribed_stream :: string
  rtp_handler :: 'h
  source_handler :: 'h
  sender_timing_handler :: 'h
  source_bye_handler :: 'h

record keyframe_request_key =
  request_stream_id :: string
  request_session_id :: string
  request_generation :: u64
  request_media_ssrc :: u32

text \<open>
  \<open>retry_wait\<close> is the wait the \<^verbatim>\<open>retry_timer\<close> of the request has been started with: its delay in
  milliseconds and the \<^verbatim>\<open>timer_token\<close> its completion handler captured. Starting or cancelling the
  timer drops a wait that has not expired.
\<close>

record keyframe_request_state =
  waiting_subscribers :: "string list"
  retry_wait :: "(nat \<times> u64) option"
  next_retry_delay_index :: nat
  sent_count :: nat
  timer_token :: u64
  retry_active :: bool

record ('h, 'o) media_fanout_router =
  next_source_generation :: u64
  subscriptions :: "(string \<times> 'h subscription) list"
  publisher_sources :: "(string \<times> ('h, 'o) media_publisher_source) list"
  source_generations :: "(string \<times> u64) list"
  sender_timings :: "(string \<times> (u32 \<times> media_publisher_sender_timing) list) list"
  keyframe_requests :: "(keyframe_request_key \<times> keyframe_request_state) list"

text \<open>The handlers an operation calls, with the session id of the subscriber they belong to.\<close>

datatype ('h, 'o) router_call =
  Source_Update string 'h "('h, 'o) media_publisher_source_update"
| Rtp_Packet string 'h u64 bytes
| Sender_Timing string 'h media_publisher_sender_timing
| Source_Bye string 'h media_publisher_source_bye
| Keyframe_Request 'h u32

definition make_media_fanout_router :: "('h, 'o) media_fanout_router" where
  "make_media_fanout_router = \<lparr>next_source_generation = 1, subscriptions = [], publisher_sources = [],
     source_generations = [], sender_timings = [], keyframe_requests = []\<rparr>"

definition k_keyframe_retry_delays :: "nat list" where
  "k_keyframe_retry_delays = [200, 500, 1000, 2000]"

section \<open>Key frame requests\<close>

definition allocate_source_generation :: "('h, 'o) media_fanout_router \<Rightarrow> u64 \<times> ('h, 'o) media_fanout_router" where
  "allocate_source_generation r =
     (next_source_generation r, r\<lparr>next_source_generation := next_source_generation r + 1\<rparr>)"

definition cancel_keyframe_request_state :: "keyframe_request_state \<Rightarrow> keyframe_request_state" where
  "cancel_keyframe_request_state s =
     s\<lparr>retry_active := False, timer_token := timer_token s + 1, retry_wait := None\<rparr>"

definition schedule_keyframe_retry :: "keyframe_request_state \<Rightarrow> keyframe_request_state" where
  "schedule_keyframe_retry s =
     (if next_retry_delay_index s \<ge> length k_keyframe_retry_delays then s\<lparr>retry_active := False\<rparr>
      else s\<lparr>next_retry_delay_index := next_retry_delay_index s + 1, timer_token := timer_token s + 1,
             retry_wait := Some (k_keyframe_retry_delays ! next_retry_delay_index s, timer_token s + 1)\<rparr>)"

text \<open>Cancelled requests are erased at once, so their cancelled state is not kept.\<close>

fun cancel_requests_for_subscriber_loop ::
  "string \<Rightarrow> (keyframe_request_key \<times> keyframe_request_state) list \<Rightarrow> (keyframe_request_key \<times> keyframe_request_state) list" where
  "cancel_requests_for_subscriber_loop session [] = []"
| "cancel_requests_for_subscriber_loop session ((key, s) # requests) =
     (let s = s\<lparr>waiting_subscribers := removeAll session (waiting_subscribers s)\<rparr> in
      if waiting_subscribers s = [] then cancel_requests_for_subscriber_loop session requests
      else (key, s) # cancel_requests_for_subscriber_loop session requests)"

definition cancel_keyframe_requests_for_subscriber :: "string \<Rightarrow> ('h, 'o) media_fanout_router \<Rightarrow> ('h, 'o) media_fanout_router" where
  "cancel_keyframe_requests_for_subscriber session r =
     r\<lparr>keyframe_requests := cancel_requests_for_subscriber_loop session (keyframe_requests r)\<rparr>"

definition cancel_stream_keyframe_requests :: "string \<Rightarrow> ('h, 'o) media_fanout_router \<Rightarrow> ('h, 'o) media_fanout_router" where
  "cancel_stream_keyframe_requests stream r =
     r\<lparr>keyframe_requests := filter (\<lambda>(key, s). request_stream_id key \<noteq> stream) (keyframe_requests r)\<rparr>"

definition erase_request :: "keyframe_request_key \<Rightarrow> ('h, 'o) media_fanout_router \<Rightarrow> ('h, 'o) media_fanout_router" where
  "erase_request key r = r\<lparr>keyframe_requests := AList.delete key (keyframe_requests r)\<rparr>"

definition store_request ::
  "keyframe_request_key \<Rightarrow> keyframe_request_state \<Rightarrow> ('h, 'o) media_fanout_router \<Rightarrow> ('h, 'o) media_fanout_router" where
  "store_request key s r = r\<lparr>keyframe_requests := AList.update key s (keyframe_requests r)\<rparr>"

text \<open>The publisher of a stream, when it is the named session and, for most operations, of the named generation.\<close>

definition publisher_of :: "('h, 'o) media_fanout_router \<Rightarrow> string \<Rightarrow> string \<Rightarrow> ('h, 'o) media_publisher_source option" where
  "publisher_of r stream session =
     (case map_of (publisher_sources r) stream of
        None \<Rightarrow> None
      | Some source \<Rightarrow> if publisher_session_id source \<noteq> session then None else Some source)"

definition current_source ::
  "('h, 'o) media_fanout_router \<Rightarrow> string \<Rightarrow> string \<Rightarrow> u64 \<Rightarrow> ('h, 'o) media_publisher_source option" where
  "current_source r stream session generation =
     (case map_of (publisher_sources r) stream of
        None \<Rightarrow> None
      | Some source \<Rightarrow>
          if publisher_session_id source \<noteq> session \<or> publisher_generation source \<noteq> generation then None else Some source)"

definition handle_keyframe_retry ::
  "keyframe_request_key \<Rightarrow> u64 \<Rightarrow> ('h, 'o) media_fanout_router \<Rightarrow> ('h, 'o) router_call list \<times> ('h, 'o) media_fanout_router" where
  "handle_keyframe_retry key token r =
     (case map_of (keyframe_requests r) key of
        None \<Rightarrow> ([], r)
      | Some s \<Rightarrow>
          if timer_token s \<noteq> token \<or> waiting_subscribers s = [] then ([], r)
          else case current_source r (request_stream_id key) (request_session_id key) (request_generation key) of
            None \<Rightarrow> ([], erase_request key r)
          | Some source \<Rightarrow>
              ([Keyframe_Request (keyframe_request_handler source) (request_media_ssrc key)],
               store_request key (schedule_keyframe_retry (s\<lparr>sent_count := sent_count s + 1\<rparr>)) r))"

definition fresh_request :: keyframe_request_state where
  "fresh_request = \<lparr>waiting_subscribers = [], retry_wait = None, next_retry_delay_index = 0, sent_count = 0,
     timer_token = 0, retry_active = False\<rparr>"

definition request_keyframe ::
  "string \<Rightarrow> string \<Rightarrow> string \<Rightarrow> u64 \<Rightarrow> u32 \<Rightarrow> ('h, 'o) media_fanout_router \<Rightarrow>
   bool \<times> ('h, 'o) router_call list \<times> ('h, 'o) media_fanout_router" where
  "request_keyframe stream subscriber publisher generation ssrc r =
     (if stream = [] \<or> subscriber = [] \<or> publisher = [] \<or> generation = 0 \<or> ssrc = 0 then (False, [], r)
      else case map_of (subscriptions r) subscriber of
        None \<Rightarrow> (False, [], r)
      | Some sub \<Rightarrow>
          if subscribed_stream sub \<noteq> stream then (False, [], r)
          else case current_source r stream publisher generation of
            None \<Rightarrow> (False, [], r)
          | Some source \<Rightarrow>
              let key = \<lparr>request_stream_id = stream, request_session_id = publisher, request_generation = generation,
                         request_media_ssrc = ssrc\<rparr>;
                  s = (case map_of (keyframe_requests r) key of None \<Rightarrow> fresh_request | Some s \<Rightarrow> s);
                  s = s\<lparr>waiting_subscribers := List.insert subscriber (waiting_subscribers s)\<rparr> in
              if \<not> retry_active s
              then (True, [Keyframe_Request (keyframe_request_handler source) ssrc],
                    store_request key (schedule_keyframe_retry (s\<lparr>retry_active := True, next_retry_delay_index := 0, sent_count := 1\<rparr>)) r)
              else (True, [], store_request key s r))"

definition complete_keyframe_request ::
  "string \<Rightarrow> string \<Rightarrow> string \<Rightarrow> u64 \<Rightarrow> u32 \<Rightarrow> ('h, 'o) media_fanout_router \<Rightarrow> ('h, 'o) media_fanout_router" where
  "complete_keyframe_request stream subscriber publisher generation ssrc r =
     (if stream = [] \<or> subscriber = [] \<or> publisher = [] \<or> generation = 0 \<or> ssrc = 0 then r
      else let key = \<lparr>request_stream_id = stream, request_session_id = publisher, request_generation = generation,
                      request_media_ssrc = ssrc\<rparr> in
        case map_of (keyframe_requests r) key of
          None \<Rightarrow> r
        | Some s \<Rightarrow>
            let s = s\<lparr>waiting_subscribers := removeAll subscriber (waiting_subscribers s)\<rparr> in
            if waiting_subscribers s = [] then erase_request key r else store_request key s r)"

definition cancel_keyframe_requests :: "string \<Rightarrow> ('h, 'o) media_fanout_router \<Rightarrow> ('h, 'o) media_fanout_router" where
  "cancel_keyframe_requests subscriber r =
     (if subscriber = [] then r else cancel_keyframe_requests_for_subscriber subscriber r)"

section \<open>Subscribers\<close>

text \<open>The loop that collects the handlers of the subscribers of a stream.\<close>

definition subscribers_of :: "('h, 'o) media_fanout_router \<Rightarrow> string \<Rightarrow> (string \<times> 'h subscription) list" where
  "subscribers_of r stream = filter (\<lambda>(session, sub). subscribed_stream sub = stream) (subscriptions r)"

definition announcement :: "('h, 'o) media_fanout_router \<Rightarrow> string \<Rightarrow> ('h, 'o) media_publisher_source_update" where
  "announcement r stream =
     \<lparr>update_generation = (case map_of (source_generations r) stream of None \<Rightarrow> 0 | Some g \<Rightarrow> g),
      update_publisher = map_of (publisher_sources r) stream\<rparr>"

definition subscribe ::
  "string \<Rightarrow> string \<Rightarrow> 'h option \<Rightarrow> 'h option \<Rightarrow> 'h option \<Rightarrow> 'h option \<Rightarrow> ('h, 'o) media_fanout_router \<Rightarrow>
   ('h, 'o) router_call list \<times> ('h, 'o) media_fanout_router" where
  "subscribe stream subscriber rtp source timing bye r =
     (case (rtp, source, timing, bye) of
        (Some rtp, Some source, Some timing, Some bye) \<Rightarrow>
          if stream = [] \<or> subscriber = [] then ([], r)
          else
            let sub = \<lparr>subscribed_stream = stream, rtp_handler = rtp, source_handler = source,
                       sender_timing_handler = timing, source_bye_handler = bye\<rparr>;
                r = r\<lparr>subscriptions := AList.update subscriber sub (subscriptions r)\<rparr>;
                timings = (case map_of (sender_timings r) stream of None \<Rightarrow> [] | Some ts \<Rightarrow> map snd ts)
            in (Source_Update subscriber source (announcement r stream) # map (Sender_Timing subscriber timing) timings, r)
      | _ \<Rightarrow> ([], r))"

definition unsubscribe :: "string \<Rightarrow> ('h, 'o) media_fanout_router \<Rightarrow> ('h, 'o) media_fanout_router" where
  "unsubscribe subscriber r =
     (if subscriber = [] then r
      else case map_of (subscriptions r) subscriber of
        None \<Rightarrow> r
      | Some sub \<Rightarrow>
          let r = cancel_keyframe_requests_for_subscriber subscriber r in
          r\<lparr>subscriptions := AList.delete subscriber (subscriptions r)\<rparr>)"

section \<open>Publishers\<close>

definition set_publisher_source ::
  "string \<Rightarrow> string \<Rightarrow> 'o \<Rightarrow> 'h option \<Rightarrow> ('h, 'o) media_fanout_router \<Rightarrow>
   u64 \<times> ('h, 'o) router_call list \<times> ('h, 'o) media_fanout_router" where
  "set_publisher_source stream session offer handler r =
     (case handler of
        None \<Rightarrow> (0, [], r)
      | Some h \<Rightarrow>
          if stream = [] \<or> session = [] then (0, [], r)
          else
            let r = cancel_stream_keyframe_requests stream r;
                (generation, r) = allocate_source_generation r;
                source = \<lparr>publisher_stream_id = stream, publisher_session_id = session, publisher_generation = generation,
                          publisher_offer = offer, keyframe_request_handler = h\<rparr>;
                r = r\<lparr>publisher_sources := AList.update stream source (publisher_sources r),
                      source_generations := AList.update stream generation (source_generations r),
                      sender_timings := AList.delete stream (sender_timings r)\<rparr>
            in (generation,
                map (\<lambda>(subscriber, sub). Source_Update subscriber (source_handler sub)
                       \<lparr>update_generation = generation, update_publisher = Some source\<rparr>) (subscribers_of r stream), r))"

definition clear_publisher_source ::
  "string \<Rightarrow> string \<Rightarrow> ('h, 'o) media_fanout_router \<Rightarrow> ('h, 'o) router_call list \<times> ('h, 'o) media_fanout_router" where
  "clear_publisher_source stream session r =
     (if stream = [] \<or> session = [] then ([], r)
      else case publisher_of r stream session of
        None \<Rightarrow> ([], r)
      | Some source \<Rightarrow>
          let r = cancel_stream_keyframe_requests stream r;
              (generation, r) = allocate_source_generation r;
              r = r\<lparr>publisher_sources := AList.delete stream (publisher_sources r),
                    source_generations := AList.update stream generation (source_generations r),
                    sender_timings := AList.delete stream (sender_timings r)\<rparr>
          in (map (\<lambda>(subscriber, sub). Source_Update subscriber (source_handler sub)
                     \<lparr>update_generation = generation, update_publisher = None\<rparr>) (subscribers_of r stream), r))"

definition publish_rtp ::
  "string \<Rightarrow> string \<Rightarrow> bytes \<Rightarrow> ('h, 'o) media_fanout_router \<Rightarrow> nat \<times> ('h, 'o) router_call list" where
  "publish_rtp stream session packet r =
     (if stream = [] \<or> session = [] \<or> packet = [] then (0, [])
      else case publisher_of r stream session of
        None \<Rightarrow> (0, [])
      | Some source \<Rightarrow>
          let handlers = subscribers_of r stream in
          (length handlers,
           map (\<lambda>(subscriber, sub). Rtp_Packet subscriber (rtp_handler sub) (publisher_generation source) packet) handlers))"

definition erase_sender_timing :: "string \<Rightarrow> u32 \<Rightarrow> ('h, 'o) media_fanout_router \<Rightarrow> ('h, 'o) media_fanout_router" where
  "erase_sender_timing stream ssrc r =
     (case map_of (sender_timings r) stream of
        None \<Rightarrow> r
      | Some timings \<Rightarrow>
          let timings = AList.delete ssrc timings in
          r\<lparr>sender_timings := (if timings = [] then AList.delete stream (sender_timings r)
                               else AList.update stream timings (sender_timings r))\<rparr>)"

definition publish_source_bye ::
  "string \<Rightarrow> string \<Rightarrow> u64 \<Rightarrow> u32 \<Rightarrow> string \<Rightarrow> ('h, 'o) media_fanout_router \<Rightarrow>
   bool \<times> ('h, 'o) router_call list \<times> ('h, 'o) media_fanout_router" where
  "publish_source_bye stream session generation ssrc why r =
     (if stream = [] \<or> session = [] \<or> generation = 0 \<or> ssrc = 0 then (False, [], r)
      else case current_source r stream session generation of
        None \<Rightarrow> (False, [], r)
      | Some source \<Rightarrow>
          let bye = \<lparr>bye_session_id = publisher_session_id source, bye_generation = publisher_generation source,
                     bye_source_ssrc = ssrc, bye_text = why\<rparr>;
              r = erase_sender_timing stream ssrc r;
              r = erase_request \<lparr>request_stream_id = stream, request_session_id = session,
                                  request_generation = generation, request_media_ssrc = ssrc\<rparr> r
          in (True, map (\<lambda>(subscriber, sub). Source_Bye subscriber (source_bye_handler sub) bye) (subscribers_of r stream), r))"

definition publish_sender_timing ::
  "string \<Rightarrow> string \<Rightarrow> u64 \<Rightarrow> u32 \<Rightarrow> u64 \<Rightarrow> u32 \<Rightarrow> u32 \<Rightarrow> u32 \<Rightarrow> ('h, 'o) media_fanout_router \<Rightarrow>
   bool \<times> ('h, 'o) router_call list \<times> ('h, 'o) media_fanout_router" where
  "publish_sender_timing stream session generation ssrc ntp rtp_time packet_count octet_count r =
     (if stream = [] \<or> session = [] \<or> generation = 0 \<or> ssrc = 0 then (False, [], r)
      else case current_source r stream session generation of
        None \<Rightarrow> (False, [], r)
      | Some source \<Rightarrow>
          let timing = \<lparr>timing_session_id = publisher_session_id source, timing_generation = publisher_generation source,
                        timing_source_ssrc = ssrc, timing_ntp_timestamp = ntp, timing_rtp_timestamp = rtp_time,
                        timing_packet_count = packet_count, timing_octet_count = octet_count\<rparr>;
              timings = (case map_of (sender_timings r) stream of None \<Rightarrow> [] | Some ts \<Rightarrow> ts);
              r = r\<lparr>sender_timings := AList.update stream (AList.update ssrc timing timings) (sender_timings r)\<rparr>
          in (True, map (\<lambda>(subscriber, sub). Sender_Timing subscriber (sender_timing_handler sub) timing) (subscribers_of r stream), r))"

section \<open>Histories\<close>

text \<open>
  The operations callers perform, and the two steps of the event loop: the timer of a request
  expires, which queues its completion handler, and a queued completion handler runs. As Boost.Asio
  documents, a handler that is already queued is not affected by cancelling or restarting the timer,
  nor by its destruction.
\<close>

datatype ('h, 'o) router_op =
  Subscribe string string "'h option" "'h option" "'h option" "'h option"
| Unsubscribe string
| Set_Publisher string string 'o "'h option"
| Clear_Publisher string string
| Request_Keyframe string string string u64 u32
| Complete_Keyframe string string string u64 u32
| Cancel_Keyframes string
| Publish_Rtp string string bytes
| Publish_Bye string string u64 u32 string
| Publish_Timing string string u64 u32 u64 u32 u32 u32
| Timer_Expires keyframe_request_key
| Run_Handler nat

record ('h, 'o) router_loop =
  router :: "('h, 'o) media_fanout_router"
  queued_handlers :: "(keyframe_request_key \<times> u64) list"

definition expire_timer :: "keyframe_request_key \<Rightarrow> ('h, 'o) router_loop \<Rightarrow> ('h, 'o) router_loop" where
  "expire_timer key l =
     (case map_of (keyframe_requests (router l)) key of
        None \<Rightarrow> l
      | Some s \<Rightarrow> (case retry_wait s of
            None \<Rightarrow> l
          | Some (delay, token) \<Rightarrow>
              l\<lparr>router := store_request key (s\<lparr>retry_wait := None\<rparr>) (router l),
                queued_handlers := queued_handlers l @ [(key, token)]\<rparr>))"

fun client_op ::
  "('h, 'o) router_op \<Rightarrow> ('h, 'o) media_fanout_router \<Rightarrow> ('h, 'o) router_call list \<times> ('h, 'o) media_fanout_router" where
  "client_op (Subscribe stream subscriber rtp source timing bye) r = subscribe stream subscriber rtp source timing bye r"
| "client_op (Unsubscribe subscriber) r = ([], unsubscribe subscriber r)"
| "client_op (Set_Publisher stream session offer handler) r = snd (set_publisher_source stream session offer handler r)"
| "client_op (Clear_Publisher stream session) r = clear_publisher_source stream session r"
| "client_op (Request_Keyframe stream subscriber publisher generation ssrc) r =
     snd (request_keyframe stream subscriber publisher generation ssrc r)"
| "client_op (Complete_Keyframe stream subscriber publisher generation ssrc) r =
     ([], complete_keyframe_request stream subscriber publisher generation ssrc r)"
| "client_op (Cancel_Keyframes subscriber) r = ([], cancel_keyframe_requests subscriber r)"
| "client_op (Publish_Rtp stream session packet) r = (snd (publish_rtp stream session packet r), r)"
| "client_op (Publish_Bye stream session generation ssrc why) r = snd (publish_source_bye stream session generation ssrc why r)"
| "client_op (Publish_Timing stream session generation ssrc ntp rtp_time packets octets) r =
     snd (publish_sender_timing stream session generation ssrc ntp rtp_time packets octets r)"
| "client_op (Timer_Expires key) r = ([], r)"
| "client_op (Run_Handler i) r = ([], r)"

definition router_step ::
  "('h, 'o) router_op \<Rightarrow> ('h, 'o) router_loop \<Rightarrow> ('h, 'o) router_call list \<times> ('h, 'o) router_loop" where
  "router_step op l =
     (case op of
        Timer_Expires key \<Rightarrow> ([], expire_timer key l)
      | Run_Handler i \<Rightarrow>
          if i < length (queued_handlers l) then
            let (key, token) = queued_handlers l ! i;
                (calls, r) = handle_keyframe_retry key token (router l)
            in (calls, \<lparr>router = r, queued_handlers = take i (queued_handlers l) @ drop (Suc i) (queued_handlers l)\<rparr>)
          else ([], l)
      | _ \<Rightarrow> let (calls, r) = client_op op (router l) in (calls, l\<lparr>router := r\<rparr>))"

definition idle_loop :: "('h, 'o) router_loop" where
  "idle_loop = \<lparr>router = make_media_fanout_router, queued_handlers = []\<rparr>"

inductive router_history :: "('h, 'o) router_loop \<Rightarrow> ('h, 'o) router_call list \<Rightarrow> bool" where
  start: "router_history idle_loop []"
| step: "router_history l calls \<Longrightarrow> router_step op l = (new, l') \<Longrightarrow> router_history l' (calls @ new)"

lemma router_step_client:
  assumes "\<forall>key. op \<noteq> Timer_Expires key" and "\<forall>i. op \<noteq> Run_Handler i"
  shows "router_step op l = (fst (client_op op (router l)), l\<lparr>router := snd (client_op op (router l))\<rparr>)"
  using assms by (cases op) (simp_all add: router_step_def case_prod_unfold Let_def)

lemma router_step_cases:
  assumes "router_step op l = (new, l')"
  obtains key where "op = Timer_Expires key" and "new = []" and "l' = expire_timer key l"
  | i key token r where "op = Run_Handler i" and "i < length (queued_handlers l)" and "queued_handlers l ! i = (key, token)"
      and "handle_keyframe_retry key token (router l) = (new, r)"
      and "l' = \<lparr>router = r, queued_handlers = take i (queued_handlers l) @ drop (Suc i) (queued_handlers l)\<rparr>"
  | "new = []" and "l' = l" and "\<exists>i. op = Run_Handler i \<and> \<not> i < length (queued_handlers l)"
  | r where "client_op op (router l) = (new, r)" and "l' = l\<lparr>router := r\<rparr>"
      and "\<forall>key. op \<noteq> Timer_Expires key" and "\<forall>i. op \<noteq> Run_Handler i"
proof (cases "(\<exists>key. op = Timer_Expires key) \<or> (\<exists>i. op = Run_Handler i)")
  case False
  then have "router_step op l = (fst (client_op op (router l)), l\<lparr>router := snd (client_op op (router l))\<rparr>)"
    by (intro router_step_client) auto
  then show ?thesis using False assms using that(4) [of "snd (client_op op (router l))"] by auto
next
  case True
  then show ?thesis
  proof (elim disjE exE)
    fix key assume "op = Timer_Expires key"
    then show ?thesis using that(1) assms by (simp add: router_step_def)
  next
    fix i assume "op = Run_Handler i"
    then show ?thesis using that(2,3) assms
      by (cases "queued_handlers l ! i") (auto simp: router_step_def split: if_splits prod.splits)
  qed
qed

end
