(* ===== verification/Media_Delivery.thy ===== *)
theory Media_Delivery
  imports Media_Fanout_Router
begin

text \<open>
  What the subscribers of a stream are handed (\<^verbatim>\<open>publish_rtp\<close>, \<^verbatim>\<open>publish_sender_timing\<close>,
  \<^verbatim>\<open>publish_source_bye\<close> and the announcements of \<^verbatim>\<open>src/media/media_fanout_router.cpp\<close>), over every
  history of the router.
\<close>

section \<open>Announcements\<close>

fun is_delivery :: "('h, 'o) router_call \<Rightarrow> bool" where
  "is_delivery (Source_Update _ _ _) = False"
| "is_delivery (Keyframe_Request _ _) = False"
| "is_delivery _ = True"

definition last_announcement ::
  "string \<Rightarrow> ('h, 'o) router_call list \<Rightarrow> ('h, 'o) media_publisher_source_update option" where
  "last_announcement session calls =
     fold (\<lambda>c a. case c of Source_Update s h u \<Rightarrow> if s = session then Some u else a | _ \<Rightarrow> a) calls None"

lemma last_announcement_simps [simp]:
  "last_announcement s [] = None"
  "last_announcement s (calls @ [Source_Update s' h u]) = (if s' = s then Some u else last_announcement s calls)"
  "last_announcement s (calls @ [Rtp_Packet s' h g p]) = last_announcement s calls"
  "last_announcement s (calls @ [Sender_Timing s' h t]) = last_announcement s calls"
  "last_announcement s (calls @ [Source_Bye s' h b]) = last_announcement s calls"
  "last_announcement s (calls @ [Keyframe_Request h ssrc]) = last_announcement s calls"
  by (simp_all add: last_announcement_def)

lemma last_announcement_other:
  "\<forall>c \<in> set new. \<forall>h u. c \<noteq> Source_Update s h u \<Longrightarrow> last_announcement s (calls @ new) = last_announcement s calls"
proof (induction new rule: rev_induct)
  case (snoc c new)
  then have "last_announcement s ((calls @ new) @ [c]) = last_announcement s (calls @ new)"
    by (cases c) (auto simp del: append_assoc)
  then show ?case using snoc by simp
qed simp

lemma last_announcement_deliveries:
  "\<forall>c \<in> set new. is_delivery c \<Longrightarrow> last_announcement s (calls @ new) = last_announcement s calls"
  by (rule last_announcement_other) auto

text \<open>Announcing to a group of subscribers reaches each of them and nobody else.\<close>

lemma last_announcement_group:
  assumes "distinct (map fst subs)"
  shows "last_announcement s (calls @ map (\<lambda>(session, sub). Source_Update session (source_handler sub) u) subs) =
     (if s \<in> fst ` set subs then Some u else last_announcement s calls)"
  using assms
proof (induction subs rule: rev_induct)
  case (snoc x subs)
  then show ?case by (cases x) (simp flip: append_assoc)
qed simp

section \<open>Deliveries\<close>

text \<open>
  A delivery is in order when the subscriber was last told of a publisher, and the delivery carries
  the generation (and session, where it has one) of that publisher.
\<close>

definition announced_to :: "string \<Rightarrow> ('h, 'o) router_call list \<Rightarrow> string option \<Rightarrow> u64 \<Rightarrow> bool" where
  "announced_to s calls session generation \<longleftrightarrow>
     (\<exists>src. last_announcement s calls = Some \<lparr>update_generation = generation, update_publisher = Some src\<rparr>
        \<and> publisher_generation src = generation \<and> (\<forall>x. session = Some x \<longrightarrow> publisher_session_id src = x))"

fun call_in_order :: "('h, 'o) router_call list \<Rightarrow> ('h, 'o) router_call \<Rightarrow> bool" where
  "call_in_order calls (Rtp_Packet s h g p) = announced_to s calls None g"
| "call_in_order calls (Sender_Timing s h t) = announced_to s calls (Some (timing_session_id t)) (timing_generation t)"
| "call_in_order calls (Source_Bye s h b) = announced_to s calls (Some (bye_session_id b)) (bye_generation b)"
| "call_in_order calls _ = True"

lemma call_in_order_not_delivery: "\<not> is_delivery c \<Longrightarrow> call_in_order calls c"
  by (cases c) auto

lemma call_in_order_cong:
  "(\<And>s. last_announcement s calls = last_announcement s calls') \<Longrightarrow> call_in_order calls c = call_in_order calls' c"
  by (cases c) (auto simp: announced_to_def)

definition in_order :: "('h, 'o) router_call list \<Rightarrow> bool" where
  "in_order calls \<longleftrightarrow> (\<forall>pre c post. calls = pre @ c # post \<longrightarrow> call_in_order pre c)"

lemma in_order_empty [simp]: "in_order []"
  by (simp add: in_order_def)

lemma in_order_snoc: "in_order (calls @ [c]) \<longleftrightarrow> in_order calls \<and> call_in_order calls c"
proof (intro iffI conjI)
  assume o: "in_order (calls @ [c])"
  then show "call_in_order calls c" by (simp add: in_order_def)
  have "calls = pre @ d # post \<Longrightarrow> calls @ [c] = pre @ d # (post @ [c])" for pre d post by simp
  with o show "in_order calls" unfolding in_order_def by blast
next
  assume o: "in_order calls \<and> call_in_order calls c"
  show "in_order (calls @ [c])"
    unfolding in_order_def
  proof (intro allI impI)
    fix pre d post
    assume "calls @ [c] = pre @ d # post"
    then show "call_in_order pre d" using o by (cases post rule: rev_cases) (auto simp: in_order_def)
  qed
qed

lemma in_order_deliveries:
  assumes "in_order calls" and "\<forall>c \<in> set new. is_delivery c \<and> call_in_order calls c"
  shows "in_order (calls @ new)"
  using assms(2)
proof (induction new rule: rev_induct)
  case (snoc c new)
  have "call_in_order (calls @ new) c = call_in_order calls c"
    using snoc.prems by (intro call_in_order_cong last_announcement_deliveries) simp
  then have "in_order ((calls @ new) @ [c])" using snoc by (simp add: in_order_snoc del: append_assoc)
  then show ?case by simp
qed (use assms(1) in simp)

lemma in_order_others: "in_order calls \<Longrightarrow> \<forall>c \<in> set new. \<not> is_delivery c \<Longrightarrow> in_order (calls @ new)"
proof (induction new rule: rev_induct)
  case (snoc c new)
  then have "in_order ((calls @ new) @ [c])" by (simp add: in_order_snoc call_in_order_not_delivery del: append_assoc)
  then show ?case by simp
qed simp

section \<open>The invariant\<close>

definition timing_current :: "('h, 'o) media_publisher_source option \<Rightarrow> media_publisher_sender_timing \<Rightarrow> bool" where
  "timing_current source t \<longleftrightarrow> (\<exists>src. source = Some src \<and> timing_session_id t = publisher_session_id src
     \<and> timing_generation t = publisher_generation src)"

definition sources_wf :: "('h, 'o) media_fanout_router \<Rightarrow> bool" where
  "sources_wf r \<longleftrightarrow> distinct (map fst (subscriptions r)) \<and>
     (\<forall>stream src. map_of (publisher_sources r) stream = Some src \<longrightarrow>
        map_of (source_generations r) stream = Some (publisher_generation src)) \<and>
     (\<forall>stream ts. map_of (sender_timings r) stream = Some ts \<longrightarrow>
        (\<forall>t \<in> snd ` set ts. timing_current (map_of (publisher_sources r) stream) t))"

definition informed :: "('h, 'o) router_call list \<Rightarrow> ('h, 'o) media_fanout_router \<Rightarrow> bool" where
  "informed calls r \<longleftrightarrow> (\<forall>session sub. map_of (subscriptions r) session = Some sub \<longrightarrow>
     last_announcement session calls = Some (announcement r (subscribed_stream sub)))"

definition delivery_inv :: "('h, 'o) router_call list \<Rightarrow> ('h, 'o) media_fanout_router \<Rightarrow> bool" where
  "delivery_inv calls r \<longleftrightarrow> sources_wf r \<and> informed calls r \<and> in_order calls"

lemma announcement_cong:
  "publisher_sources r' = publisher_sources r \<Longrightarrow> source_generations r' = source_generations r \<Longrightarrow>
   announcement r' = announcement r"
  by (simp add: announcement_def fun_eq_iff)

text \<open>Operations that leave sources, subscriptions and timings alone.\<close>

lemma delivery_inv_requests:
  assumes "delivery_inv calls r" and "publisher_sources r' = publisher_sources r"
    and "source_generations r' = source_generations r" and "sender_timings r' = sender_timings r"
    and "subscriptions r' = subscriptions r" and "\<forall>c \<in> set new. \<exists>h ssrc. c = Keyframe_Request h ssrc"
  shows "delivery_inv (calls @ new) r'"
proof -
  have "sources_wf r'" using assms(1-5) by (simp add: delivery_inv_def sources_wf_def)
  moreover have "last_announcement s (calls @ new) = last_announcement s calls" for s
    using assms(6) by (intro last_announcement_other) auto
  then have "informed (calls @ new) r'"
    using assms(1,5) announcement_cong [OF assms(2,3)] by (simp add: delivery_inv_def informed_def)
  moreover have "\<forall>c \<in> set new. \<not> is_delivery c" using assms(6) by auto
  then have "in_order (calls @ new)" using assms(1) in_order_others by (auto simp: delivery_inv_def)
  ultimately show ?thesis by (simp add: delivery_inv_def)
qed

lemma announced_to_subscriber:
  assumes "delivery_inv calls r" and "map_of (publisher_sources r) stream = Some src"
    and "(s, sub) \<in> set (subscribers_of r stream)"
  shows "announced_to s calls (Some (publisher_session_id src)) (publisher_generation src)"
    and "announced_to s calls None (publisher_generation src)"
proof -
  have "map_of (subscriptions r) s = Some sub" "subscribed_stream sub = stream"
    using assms(1,3) by (auto simp: delivery_inv_def sources_wf_def subscribers_of_def)
  then have "last_announcement s calls = Some (announcement r stream)"
    using assms(1) by (auto simp: delivery_inv_def informed_def)
  moreover have "announcement r stream = \<lparr>update_generation = publisher_generation src, update_publisher = Some src\<rparr>"
    using assms(1,2) by (simp add: delivery_inv_def sources_wf_def announcement_def)
  ultimately show "announced_to s calls (Some (publisher_session_id src)) (publisher_generation src)"
    "announced_to s calls None (publisher_generation src)"
    by (auto simp: announced_to_def)
qed

text \<open>Deliveries to the subscribers of a published stream.\<close>

lemma delivery_inv_deliver:
  assumes inv: "delivery_inv calls r" and src: "map_of (publisher_sources r) stream = Some src"
    and wf: "sources_wf r'" and same: "publisher_sources r' = publisher_sources r"
      "source_generations r' = source_generations r" "subscriptions r' = subscriptions r"
    and new: "new = map (\<lambda>(s, sub). f s sub) (subscribers_of r stream)"
    and f: "\<And>s sub. is_delivery (f s sub)"
      "\<And>s sub. announced_to s calls (Some (publisher_session_id src)) (publisher_generation src) \<Longrightarrow>
         announced_to s calls None (publisher_generation src) \<Longrightarrow> call_in_order calls (f s sub)"
  shows "delivery_inv (calls @ new) r'"
proof -
  have d: "\<forall>c \<in> set new. is_delivery c" using f(1) by (auto simp: new)
  moreover have "\<forall>c \<in> set new. call_in_order calls c"
    using announced_to_subscriber [OF inv src] f(2) by (auto simp: new)
  ultimately show ?thesis
    using inv wf announcement_cong [OF same(1,2)] same(3) last_announcement_deliveries [OF d]
    by (simp add: delivery_inv_def informed_def in_order_deliveries)
qed

lemma publisher_of_Some:
  "publisher_of r stream session = Some src \<Longrightarrow>
   map_of (publisher_sources r) stream = Some src \<and> publisher_session_id src = session"
  by (auto simp: publisher_of_def split: option.splits if_splits)

lemma current_source_Some:
  "current_source r stream session generation = Some src \<Longrightarrow> map_of (publisher_sources r) stream = Some src
     \<and> publisher_session_id src = session \<and> publisher_generation src = generation"
  by (auto simp: current_source_def split: option.splits if_splits)

lemma delivery_inv_publish_rtp:
  "delivery_inv calls r \<Longrightarrow> delivery_inv (calls @ snd (publish_rtp stream session packet r)) r"
proof (cases "publisher_of r stream session")
  case (Some src)
  assume inv: "delivery_inv calls r"
  then have "sources_wf r" by (simp add: delivery_inv_def)
  then show ?thesis
    using Some delivery_inv_deliver [OF inv publisher_of_Some [OF Some, THEN conjunct1], of r _
        "\<lambda>s sub. Rtp_Packet s (rtp_handler sub) (publisher_generation src) packet"] inv
    by (simp add: publish_rtp_def Let_def)
qed (simp add: publish_rtp_def)

lemma set_alist_update: "set (AList.update k v al) \<subseteq> insert (k, v) (set al)"
  by (induction al) auto

lemma set_alist_delete: "set (AList.delete k al) \<subseteq> set al"
  by (auto simp: AList.delete_eq)

lemma sources_wf_timings:
  assumes "sources_wf r" and "publisher_sources r' = publisher_sources r" "source_generations r' = source_generations r"
    "subscriptions r' = subscriptions r"
    and "\<And>st ts t. map_of (sender_timings r') st = Some ts \<Longrightarrow> t \<in> snd ` set ts \<Longrightarrow>
        (\<exists>us. map_of (sender_timings r) st = Some us \<and> t \<in> snd ` set us) \<or> timing_current (map_of (publisher_sources r) st) t"
  shows "sources_wf r'"
  using assms unfolding sources_wf_def by metis

lemma erase_sender_timing_keeps [simp]:
  "publisher_sources (erase_sender_timing stream ssrc r) = publisher_sources r"
  "source_generations (erase_sender_timing stream ssrc r) = source_generations r"
  "subscriptions (erase_sender_timing stream ssrc r) = subscriptions r"
  "keyframe_requests (erase_sender_timing stream ssrc r) = keyframe_requests r"
  "subscribers_of (erase_sender_timing stream ssrc r) = subscribers_of r"
  by (auto simp: erase_sender_timing_def subscribers_of_def Let_def split: option.splits)

lemma erase_request_keeps [simp]:
  "publisher_sources (erase_request key r) = publisher_sources r" "source_generations (erase_request key r) = source_generations r"
  "subscriptions (erase_request key r) = subscriptions r" "sender_timings (erase_request key r) = sender_timings r"
  "subscribers_of (erase_request key r) = subscribers_of r"
  by (simp_all add: erase_request_def subscribers_of_def fun_eq_iff)

lemma erase_sender_timing_sub:
  assumes "map_of (sender_timings (erase_sender_timing stream ssrc r)) st = Some ts" and "t \<in> snd ` set ts"
  shows "\<exists>us. map_of (sender_timings r) st = Some us \<and> t \<in> snd ` set us"
proof (cases "map_of (sender_timings r) stream")
  case (Some us)
  have "snd ` set (AList.delete ssrc us) \<subseteq> snd ` set us" using set_alist_delete by (rule image_mono)
  then show ?thesis using assms Some
    by (auto simp: erase_sender_timing_def Let_def AList.update_conv' AList.delete_conv' split: if_splits)
qed (use assms in \<open>auto simp: erase_sender_timing_def\<close>)

lemma delivery_inv_publish_bye:
  assumes inv: "delivery_inv calls r" and pub: "publish_source_bye stream session generation ssrc why r = (b, new, r')"
  shows "delivery_inv (calls @ new) r'"
proof (cases "b")
  case False
  then show ?thesis using assms by (auto simp: publish_source_bye_def Let_def split: if_splits option.splits)
next
  case True
  with pub obtain src where src: "current_source r stream session generation = Some src"
    and new: "new = map (\<lambda>(s, sub). Source_Bye s (source_bye_handler sub) \<lparr>bye_session_id = publisher_session_id src,
      bye_generation = publisher_generation src, bye_source_ssrc = ssrc, bye_text = why\<rparr>) (subscribers_of r stream)"
    by (auto simp: publish_source_bye_def Let_def split: if_splits option.splits)
  have same: "publisher_sources r' = publisher_sources r" "source_generations r' = source_generations r"
    "subscriptions r' = subscriptions r"
    using pub by (auto simp: publish_source_bye_def Let_def split: if_splits option.splits)
  have "sources_wf r'"
  proof (rule sources_wf_timings [OF _ same])
    show "sources_wf r" using inv by (simp add: delivery_inv_def)
    show "(\<exists>us. map_of (sender_timings r) st = Some us \<and> t \<in> snd ` set us) \<or> timing_current (map_of (publisher_sources r) st) t"
      if "map_of (sender_timings r') st = Some ts" "t \<in> snd ` set ts" for st ts t
      using that pub erase_sender_timing_sub by (fastforce simp: publish_source_bye_def Let_def split: if_splits option.splits)
  qed
  then show ?thesis
    using delivery_inv_deliver [OF inv current_source_Some [OF src, THEN conjunct1] _ same new] by simp
qed

lemma delivery_inv_publish_timing:
  fixes r :: "('h, 'o) media_fanout_router"
  assumes inv: "delivery_inv calls r"
    and pub: "publish_sender_timing stream session generation ssrc ntp rtp_time packets octets r = (b, new, r')"
  shows "delivery_inv (calls @ new) r'"
proof (cases "b")
  case False
  then show ?thesis using assms by (auto simp: publish_sender_timing_def Let_def split: if_splits option.splits)
next
  case True
  define timing where "timing src = \<lparr>timing_session_id = publisher_session_id src, timing_generation = publisher_generation src,
      timing_source_ssrc = ssrc, timing_ntp_timestamp = ntp, timing_rtp_timestamp = rtp_time,
      timing_packet_count = packets, timing_octet_count = octets\<rparr>" for src :: "('h, 'o) media_publisher_source"
  from True pub obtain src where src: "current_source r stream session generation = Some src"
    and new: "new = map (\<lambda>(s, sub). Sender_Timing s (sender_timing_handler sub) (timing src)) (subscribers_of r stream)"
    and r': "r' = r\<lparr>sender_timings := AList.update stream (AList.update ssrc (timing src)
      (case map_of (sender_timings r) stream of None \<Rightarrow> [] | Some ts \<Rightarrow> ts)) (sender_timings r)\<rparr>"
    by (auto simp: publish_sender_timing_def timing_def Let_def subscribers_of_def split: if_splits option.splits)
  note cur = current_source_Some [OF src]
  have same: "publisher_sources r' = publisher_sources r" "source_generations r' = source_generations r"
    "subscriptions r' = subscriptions r"
    using r' by simp_all
  have now: "timing_current (map_of (publisher_sources r) stream) (timing src)"
    using cur by (simp add: timing_current_def timing_def)
  have "sources_wf r'"
  proof (rule sources_wf_timings [OF _ same])
    show "sources_wf r" using inv by (simp add: delivery_inv_def)
    show "(\<exists>us. map_of (sender_timings r) st = Some us \<and> t \<in> snd ` set us) \<or> timing_current (map_of (publisher_sources r) st) t"
      if "map_of (sender_timings r') st = Some ts" "t \<in> snd ` set ts" for st ts t
      using that now unfolding r'
      by (auto simp: AList.update_conv' dest!: subsetD [OF set_alist_update] split: if_splits option.splits)
  qed
  then show ?thesis
    using delivery_inv_deliver [OF inv current_source_Some [OF src, THEN conjunct1] _ same new] by (simp add: timing_def)
qed

text \<open>Operations that announce.\<close>

lemma delivery_inv_subscribe:
  assumes inv: "delivery_inv calls r" and sub: "subscribe stream subscriber rtp source timing bye r = (new, r')"
  shows "delivery_inv (calls @ new) r'"
proof (cases "new = []")
  case True
  then have "r' = r" using sub by (auto simp: subscribe_def Let_def split: option.splits if_splits)
  then show ?thesis using inv True by simp
next
  case False
  then obtain a b c d where hs: "rtp = Some a" "source = Some b" "timing = Some c" "bye = Some d" "stream \<noteq> []" "subscriber \<noteq> []"
    using sub by (auto simp: subscribe_def split: option.splits if_splits)
  define s where "s = \<lparr>subscribed_stream = stream, rtp_handler = a, source_handler = b, sender_timing_handler = c, source_bye_handler = d\<rparr>"
  have s: "subscribed_stream s = stream"
    and r': "r' = r\<lparr>subscriptions := AList.update subscriber s (subscriptions r)\<rparr>"
    and new: "new = [Source_Update subscriber (source_handler s) (announcement r stream)]
      @ map (Sender_Timing subscriber (sender_timing_handler s))
          (case map_of (sender_timings r) stream of None \<Rightarrow> [] | Some ts \<Rightarrow> map snd ts)"
    using sub hs by (auto simp: subscribe_def Let_def announcement_def s_def split: option.splits)
  let ?timings = "map (Sender_Timing subscriber (sender_timing_handler s))
    (case map_of (sender_timings r) stream of None \<Rightarrow> [] | Some ts \<Rightarrow> map snd ts)"
  let ?calls = "calls @ [Source_Update subscriber (source_handler s) (announcement r stream)]"
  have d: "\<forall>c \<in> set ?timings. is_delivery c" by (auto split: option.splits)
  have an: "announcement r' = announcement r" using r' by (intro announcement_cong) simp_all
  have "sources_wf r'" using inv by (simp add: delivery_inv_def sources_wf_def r' distinct_update)
  moreover have "informed (?calls @ ?timings) r'"
    using inv s unfolding informed_def last_announcement_deliveries [OF d] an
    by (auto simp: r' delivery_inv_def informed_def AList.update_conv')
  moreover have "in_order (?calls @ ?timings)"
  proof (rule in_order_deliveries)
    show "in_order ?calls" using inv by (simp add: delivery_inv_def in_order_snoc)
    have timings: "announced_to subscriber ?calls (Some (timing_session_id t)) (timing_generation t)"
      if "map_of (sender_timings r) stream = Some ts" "t \<in> snd ` set ts" for t ts
    proof -
      have "timing_current (map_of (publisher_sources r) stream) t"
        using that inv by (fastforce simp: delivery_inv_def sources_wf_def)
      then show ?thesis using inv
        by (auto simp: timing_current_def announced_to_def announcement_def delivery_inv_def sources_wf_def)
    qed
    show "\<forall>c \<in> set ?timings. is_delivery c \<and> call_in_order ?calls c"
    proof (cases "map_of (sender_timings r) stream")
      case (Some ts)
      then have "\<forall>t \<in> snd ` set ts. announced_to subscriber ?calls (Some (timing_session_id t)) (timing_generation t)"
        using timings by blast
      with Some show ?thesis by simp
    qed simp
  qed
  ultimately show ?thesis by (simp add: delivery_inv_def new)
qed

lemma delivery_inv_announce:
  assumes inv: "delivery_inv calls r" and wf: "sources_wf r'" and subs: "subscriptions r' = subscriptions r"
    and other: "\<And>st. st \<noteq> stream \<Longrightarrow> announcement r' st = announcement r st" and an: "announcement r' stream = u"
    and new: "new = map (\<lambda>(s, sub). Source_Update s (source_handler sub) u) (subscribers_of r stream)"
  shows "delivery_inv (calls @ new) r'"
proof -
  have dist: "distinct (map fst (subscriptions r))" using inv by (simp add: delivery_inv_def sources_wf_def)
  then have "distinct (map fst (subscribers_of r stream))"
    by (simp add: subscribers_of_def distinct_map_filter)
  note group = last_announcement_group [OF this, of _ calls u, folded new]
  have "s \<in> fst ` set (subscribers_of r stream) \<longleftrightarrow> subscribed_stream sub = stream"
    if "map_of (subscriptions r) s = Some sub" for s sub
  proof -
    have "(s, sub') \<in> set (subscriptions r) \<longleftrightarrow> sub' = sub" for sub'
      using that map_of_eq_Some_iff [OF dist, of s sub'] by (metis option.inject)
    then show ?thesis by (force simp: subscribers_of_def)
  qed
  then have "informed (calls @ new) r'"
    using inv other an subs unfolding informed_def group by (auto simp: delivery_inv_def informed_def)
  moreover have "in_order (calls @ new)" using inv new by (intro in_order_others) (auto simp: delivery_inv_def)
  ultimately show ?thesis using wf by (simp add: delivery_inv_def)
qed

lemma sources_wf_publish:
  assumes "sources_wf r"
  shows "publisher_generation source = g \<Longrightarrow> sources_wf (r\<lparr>publisher_sources := AList.update stream source (publisher_sources r),
      source_generations := AList.update stream g (source_generations r),
      sender_timings := AList.delete stream (sender_timings r)\<rparr>)"
    and "sources_wf (r\<lparr>publisher_sources := AList.delete stream (publisher_sources r),
      source_generations := AList.update stream g (source_generations r),
      sender_timings := AList.delete stream (sender_timings r)\<rparr>)"
  using assms by (auto simp: sources_wf_def AList.update_conv' AList.delete_conv')

lemma delivery_inv_set_publisher:
  fixes r :: "('h, 'o) media_fanout_router"
  assumes inv: "delivery_inv calls r" and set: "set_publisher_source stream session offer handler r = (g, new, r')"
  shows "delivery_inv (calls @ new) r'"
proof (cases "handler = None \<or> stream = [] \<or> session = []")
  case True
  then have "r' = r" "new = []" using set by (auto simp: set_publisher_source_def split: option.splits)
  then show ?thesis using inv by simp
next
  case False
  then obtain h where h: "handler = Some h" "stream \<noteq> []" "session \<noteq> []" by auto
  define source :: "('h, 'o) media_publisher_source" where "source = \<lparr>publisher_stream_id = stream, publisher_session_id = session,
    publisher_generation = next_source_generation r, publisher_offer = offer, keyframe_request_handler = h\<rparr>"
  define r1 where "r1 = snd (allocate_source_generation (cancel_stream_keyframe_requests stream r))"
  have r1: "publisher_sources r1 = publisher_sources r" "source_generations r1 = source_generations r"
    "sender_timings r1 = sender_timings r" "subscriptions r1 = subscriptions r"
    by (simp_all add: r1_def allocate_source_generation_def cancel_stream_keyframe_requests_def)
  have r': "r' = r1\<lparr>publisher_sources := AList.update stream source (publisher_sources r1),
      source_generations := AList.update stream (next_source_generation r) (source_generations r1),
      sender_timings := AList.delete stream (sender_timings r1)\<rparr>"
    and new: "new = map (\<lambda>(s, sub). Source_Update s (source_handler sub)
      \<lparr>update_generation = next_source_generation r, update_publisher = Some source\<rparr>) (subscribers_of r stream)"
    using set h by (auto simp: set_publisher_source_def Let_def allocate_source_generation_def source_def r1_def
        cancel_stream_keyframe_requests_def subscribers_of_def)
  have "sources_wf r1" using inv by (simp add: delivery_inv_def sources_wf_def r1)
  then have "sources_wf r'" unfolding r' by (rule sources_wf_publish) (simp add: source_def)
  then show ?thesis
    by (rule delivery_inv_announce [OF inv _ _ _ _ new])
      (simp_all add: r' r1 announcement_def AList.update_conv')
qed

lemma delivery_inv_clear_publisher:
  assumes inv: "delivery_inv calls r" and clear: "clear_publisher_source stream session r = (new, r')"
  shows "delivery_inv (calls @ new) r'"
proof (cases "stream = [] \<or> session = [] \<or> publisher_of r stream session = None")
  case True
  then have "r' = r" "new = []" using clear by (auto simp: clear_publisher_source_def split: option.splits)
  then show ?thesis using inv by simp
next
  case False
  define r1 where "r1 = snd (allocate_source_generation (cancel_stream_keyframe_requests stream r))"
  have r1: "publisher_sources r1 = publisher_sources r" "source_generations r1 = source_generations r"
    "sender_timings r1 = sender_timings r" "subscriptions r1 = subscriptions r"
    by (simp_all add: r1_def allocate_source_generation_def cancel_stream_keyframe_requests_def)
  have r': "r' = r1\<lparr>publisher_sources := AList.delete stream (publisher_sources r1),
      source_generations := AList.update stream (next_source_generation r) (source_generations r1),
      sender_timings := AList.delete stream (sender_timings r1)\<rparr>"
    and new: "new = map (\<lambda>(s, sub). Source_Update s (source_handler sub)
      \<lparr>update_generation = next_source_generation r, update_publisher = None\<rparr>) (subscribers_of r stream)"
    using clear False by (auto simp: clear_publisher_source_def Let_def allocate_source_generation_def r1_def
        cancel_stream_keyframe_requests_def subscribers_of_def split: option.splits)
  have "sources_wf r1" using inv by (simp add: delivery_inv_def sources_wf_def r1)
  then have "sources_wf r'" unfolding r' by (rule sources_wf_publish)
  then show ?thesis
    by (rule delivery_inv_announce [OF inv _ _ _ _ new])
      (simp_all add: r' r1 announcement_def AList.update_conv' AList.delete_conv')
qed

text \<open>Operations on key frame requests announce nothing.\<close>

lemma request_ops_keep [simp]:
  "publisher_sources (store_request key s r) = publisher_sources r" "source_generations (store_request key s r) = source_generations r"
  "sender_timings (store_request key s r) = sender_timings r" "subscriptions (store_request key s r) = subscriptions r"
  "publisher_sources (cancel_keyframe_requests_for_subscriber u r) = publisher_sources r"
  "source_generations (cancel_keyframe_requests_for_subscriber u r) = source_generations r"
  "sender_timings (cancel_keyframe_requests_for_subscriber u r) = sender_timings r"
  "subscriptions (cancel_keyframe_requests_for_subscriber u r) = subscriptions r"
  by (simp_all add: store_request_def cancel_keyframe_requests_for_subscriber_def)

lemma delivery_inv_unsubscribe:
  assumes inv: "delivery_inv calls r"
  shows "delivery_inv calls (unsubscribe subscriber r)"
proof (cases "unsubscribe subscriber r = r")
  case False
  define r' where "r' = unsubscribe subscriber r"
  have r': "publisher_sources r' = publisher_sources r" "source_generations r' = source_generations r"
    "sender_timings r' = sender_timings r" "subscriptions r' = AList.delete subscriber (subscriptions r)"
    using False by (auto simp: r'_def unsubscribe_def Let_def split: option.splits if_splits)
  have "map_of (subscriptions r') s = Some sub \<Longrightarrow> map_of (subscriptions r) s = Some sub" for s sub
    unfolding r'(4) AList.delete_conv' by (simp add: restrict_map_def split: if_splits)
  then have "informed calls r'"
    using inv announcement_cong [OF r'(1,2)] unfolding delivery_inv_def informed_def by metis
  moreover have "sources_wf r'" using inv by (simp add: delivery_inv_def sources_wf_def r' distinct_delete)
  ultimately show ?thesis using inv by (simp add: delivery_inv_def r'_def)
qed (use inv in simp)

lemma request_keyframe_keeps:
  assumes "request_keyframe stream subscriber publisher generation ssrc r = (b, new, r')"
  shows "publisher_sources r' = publisher_sources r" "source_generations r' = source_generations r"
    "sender_timings r' = sender_timings r" "subscriptions r' = subscriptions r"
    "\<forall>c \<in> set new. \<exists>h ssrc. c = Keyframe_Request h ssrc"
  using assms by (auto simp: request_keyframe_def Let_def split: if_splits option.splits)

lemma complete_keyframe_request_keeps [simp]:
  fixes stream subscriber publisher generation ssrc r
  defines "r' \<equiv> complete_keyframe_request stream subscriber publisher generation ssrc r"
  shows "publisher_sources r' = publisher_sources r" "source_generations r' = source_generations r"
    "sender_timings r' = sender_timings r" "subscriptions r' = subscriptions r"
  by (auto simp: r'_def complete_keyframe_request_def Let_def split: if_splits option.splits)

lemma cancel_keyframe_requests_keeps [simp]:
  "publisher_sources (cancel_keyframe_requests u r) = publisher_sources r"
  "source_generations (cancel_keyframe_requests u r) = source_generations r"
  "sender_timings (cancel_keyframe_requests u r) = sender_timings r"
  "subscriptions (cancel_keyframe_requests u r) = subscriptions r"
  by (simp_all add: cancel_keyframe_requests_def)

lemma handle_keyframe_retry_keeps:
  assumes "handle_keyframe_retry key token r = (new, r')"
  shows "publisher_sources r' = publisher_sources r" "source_generations r' = source_generations r"
    "sender_timings r' = sender_timings r" "subscriptions r' = subscriptions r"
    "\<forall>c \<in> set new. \<exists>h ssrc. c = Keyframe_Request h ssrc"
  using assms by (auto simp: handle_keyframe_retry_def split: if_splits option.splits)

lemma expire_timer_keeps [simp]:
  "publisher_sources (router (expire_timer key l)) = publisher_sources (router l)"
  "source_generations (router (expire_timer key l)) = source_generations (router l)"
  "sender_timings (router (expire_timer key l)) = sender_timings (router l)"
  "subscriptions (router (expire_timer key l)) = subscriptions (router l)"
  by (auto simp: expire_timer_def split: option.splits)

lemma delivery_inv_op:
  assumes inv: "delivery_inv calls r" and "client_op op r = (new, r')"
  shows "delivery_inv (calls @ new) r'"
proof (cases op)
  case (Subscribe stream subscriber rtp source timing bye)
  then show ?thesis using assms delivery_inv_subscribe by auto
next
  case (Unsubscribe subscriber)
  then show ?thesis using assms delivery_inv_unsubscribe by auto
next
  case (Set_Publisher stream session offer handler)
  then show ?thesis using assms delivery_inv_set_publisher by (metis client_op.simps(3) prod.collapse)
next
  case (Clear_Publisher stream session)
  then show ?thesis using assms delivery_inv_clear_publisher by auto
next
  case (Request_Keyframe stream subscriber publisher generation ssrc)
  then obtain b where "request_keyframe stream subscriber publisher generation ssrc r = (b, new, r')"
    using assms(2) by (metis client_op.simps(5) prod.collapse)
  from delivery_inv_requests [OF inv request_keyframe_keeps [OF this]] show ?thesis .
next
  case (Complete_Keyframe stream subscriber publisher generation ssrc)
  then show ?thesis using assms(2) delivery_inv_requests [OF inv, of r' "[]"] by auto
next
  case (Cancel_Keyframes subscriber)
  then show ?thesis using assms(2) delivery_inv_requests [OF inv, of r' "[]"] by auto
next
  case (Publish_Rtp stream session packet)
  then show ?thesis using assms(2) delivery_inv_publish_rtp [OF inv] by auto
next
  case (Publish_Bye stream session generation ssrc why)
  then show ?thesis using assms delivery_inv_publish_bye by (metis client_op.simps(9) prod.collapse)
next
  case (Publish_Timing stream session generation ssrc ntp rtp_time packets octets)
  then show ?thesis using assms delivery_inv_publish_timing by (metis client_op.simps(10) prod.collapse)
qed (use assms in auto)

lemma delivery_inv_step:
  assumes "delivery_inv calls (router l)" and "router_step op l = (new, l')"
  shows "delivery_inv (calls @ new) (router l')"
  using assms(2)
proof (cases rule: router_step_cases)
  case (1 key)
  then show ?thesis using delivery_inv_requests [OF assms(1), of "router (expire_timer key l)" "[]"] by simp
next
  case (2 i key token r)
  then show ?thesis using delivery_inv_requests [OF assms(1) handle_keyframe_retry_keeps [OF 2(4)]] by simp
qed (use assms(1) delivery_inv_op [OF assms(1)] in auto)

lemma router_history_inv: "router_history l calls \<Longrightarrow> delivery_inv calls (router l)"
proof (induction rule: router_history.induct)
  case start
  then show ?case
    by (simp add: idle_loop_def make_media_fanout_router_def delivery_inv_def sources_wf_def informed_def)
next
  case (step l calls op new l')
  then show ?case using delivery_inv_step by blast
qed

section \<open>The properties\<close>

text \<open>A subscriber joins, a publisher arrives, sends a report and a packet, and is replaced.\<close>

definition demo_router_ops :: "(nat, unit) router_op list" where
  "demo_router_ops = [Subscribe ''live'' ''viewer'' (Some 1) (Some 2) (Some 3) (Some 4),
     Set_Publisher ''live'' ''camera'' () (Some 5), Publish_Timing ''live'' ''camera'' 1 7 0 0 0 0,
     Publish_Rtp ''live'' ''camera'' [1, 2], Set_Publisher ''live'' ''phone'' () (Some 6)]"

fun run_router :: "('h, 'o) router_op list \<Rightarrow> ('h, 'o) router_loop \<Rightarrow> ('h, 'o) router_call list \<times> ('h, 'o) router_loop" where
  "run_router [] l = ([], l)"
| "run_router (op # ops) l = (let (new, l) = router_step op l; (rest, l) = run_router ops l in (new @ rest, l))"

lemma run_router_history: "router_history l calls \<Longrightarrow> run_router ops l = (new, l') \<Longrightarrow> router_history l' (calls @ new)"
proof (induction ops arbitrary: l calls new)
  case (Cons op ops)
  obtain new1 l1 where s: "router_step op l = (new1, l1)" by fastforce
  obtain new2 where r: "run_router ops l1 = (new2, l')" "new = new1 @ new2"
    using Cons.prems(2) s by (auto split: prod.splits)
  show ?case using Cons.IH [OF router_history.step [OF Cons.prems(1) s] r(1)] r(2) by simp
qed simp

text \<open>
  C3. Whatever is handed to a subscriber - a packet, a sender report, the end of a source - carries
  the generation and the session of the publisher that the subscriber was told of last, and it is
  handed nothing while it was told that there is no publisher. So the switch from one publisher to
  the next is seen by every subscriber at one point of its own sequence of calls.
\<close>

theorem deliveries_follow_announcements:
  assumes "router_history l (before @ call # later)"
  shows "call_in_order before call"
  using router_history_inv [OF assms] by (auto simp: delivery_inv_def in_order_def)

theorem deliveries_follow_announcements_witness:
  "\<exists>before later. fst (run_router demo_router_ops idle_loop) = before @ Rtp_Packet ''viewer'' 1 1 [1, 2] # later
     \<and> announced_to ''viewer'' before None 1"
proof -
  let ?calls = "fst (run_router demo_router_ops idle_loop)"
  have "?calls = take 3 ?calls @ Rtp_Packet ''viewer'' 1 1 [1, 2] # drop 4 ?calls" by code_simp
  moreover have "router_history (snd (run_router demo_router_ops idle_loop)) ([] @ ?calls)"
    by (rule run_router_history [OF router_history.start]) simp
  ultimately show ?thesis
    using deliveries_follow_announcements [of _ "take 3 ?calls" "Rtp_Packet ''viewer'' 1 1 [1, 2]" "drop 4 ?calls"]
    by (metis append_Nil call_in_order.simps(1))
qed

text \<open>
  C32. A packet of the current publisher of a stream is handed once to every subscriber of that stream
  and to nobody else, and a packet of any other session is handed to nobody. The number returned is
  the number of subscribers reached.
\<close>

theorem publish_reaches_subscribers_once:
  assumes "router_history l calls" and "publish_rtp stream session packet (router l) = (n, new)"
    and "stream \<noteq> []" and "session \<noteq> []" and "packet \<noteq> []"
  shows "n = length new \<and> distinct new
    \<and> set new = {Rtp_Packet s (rtp_handler sub) (publisher_generation src) packet | s sub src.
        map_of (publisher_sources (router l)) stream = Some src \<and> publisher_session_id src = session
        \<and> map_of (subscriptions (router l)) s = Some sub \<and> subscribed_stream sub = stream}"
proof (cases "publisher_of (router l) stream session")
  case None
  then show ?thesis using assms(2-5) by (auto simp: publish_rtp_def publisher_of_def split: option.splits if_splits)
next
  case (Some src)
  let ?subs = "subscribers_of (router l) stream"
  let ?f = "\<lambda>(s, sub). Rtp_Packet s (rtp_handler sub) (publisher_generation src) packet"
  have dist: "distinct (map fst (subscriptions (router l)))"
    using router_history_inv [OF assms(1)] by (simp add: delivery_inv_def sources_wf_def)
  then have d: "distinct (map fst ?subs)" by (simp add: subscribers_of_def distinct_map_filter)
  have new: "new = map ?f ?subs" "n = length new" using assms(2-5) Some by (auto simp: publish_rtp_def Let_def)
  have "inj_on ?f (set ?subs)" using d by (fastforce simp: inj_on_def distinct_map)
  then have "distinct new" using d by (simp add: new(1) distinct_map)
  moreover have "set ?subs = {(s, sub). map_of (subscriptions (router l)) s = Some sub \<and> subscribed_stream sub = stream}"
    using map_of_eq_Some_iff [OF dist] by (auto simp: subscribers_of_def)
  then have "set new = {Rtp_Packet s (rtp_handler sub) (publisher_generation src) packet | s sub.
        map_of (subscriptions (router l)) s = Some sub \<and> subscribed_stream sub = stream}"
    unfolding new(1) set_map by auto
  ultimately show ?thesis using publisher_of_Some [OF Some] new(2) by simp
qed

theorem publish_reaches_subscribers_once_witness:
  "let r = router (snd (run_router demo_router_ops idle_loop)) in
     publish_rtp ''live'' ''phone'' [9] r = (1, [Rtp_Packet ''viewer'' 1 2 [9]])
     \<and> publish_rtp ''live'' ''camera'' [9] r = (0, []) \<and> distinct (snd (publish_rtp ''live'' ''phone'' [9] r))"
proof -
  let ?run = "run_router demo_router_ops (idle_loop :: (nat, unit) router_loop)"
  have h: "router_history (snd ?run) ([] @ fst ?run)" by (rule run_router_history [OF router_history.start]) simp
  have p: "publish_rtp ''live'' ''phone'' [9] (router (snd ?run)) = (1, [Rtp_Packet ''viewer'' 1 2 [9]])"
    "publish_rtp ''live'' ''camera'' [9] (router (snd ?run)) = (0, [])" by code_simp+
  from publish_reaches_subscribers_once [OF h p(1)] p show ?thesis by (simp add: Let_def)
qed

end
