(* ===== verification/Keyframe_Retry.thy ===== *)
theory Keyframe_Retry
  imports Media_Delivery
begin

text \<open>
  Key frame requests over time (\<^verbatim>\<open>request_keyframe\<close>, \<^verbatim>\<open>handle_keyframe_retry\<close> and
  \<^verbatim>\<open>schedule_keyframe_retry\<close> of \<^verbatim>\<open>src/media/media_fanout_router.cpp\<close>): an open request is retried
  until it is answered, its subscribers leave, its publisher goes, or four retries have been sent.
\<close>

section \<open>The invariant of open requests\<close>

definition request_ok ::
  "('h, 'o) media_fanout_router \<Rightarrow> (keyframe_request_key \<times> u64) list \<Rightarrow> keyframe_request_key \<Rightarrow> keyframe_request_state \<Rightarrow> bool" where
  "request_ok r queue key s \<longleftrightarrow>
     current_source r (request_stream_id key) (request_session_id key) (request_generation key) \<noteq> None
     \<and> waiting_subscribers s \<noteq> [] \<and> set (waiting_subscribers s) \<subseteq> dom (map_of (subscriptions r))
     \<and> (\<forall>d token. retry_wait s = Some (d, token) \<longrightarrow> token = timer_token s)
     \<and> (retry_active s \<longrightarrow> retry_wait s \<noteq> None \<or> (key, timer_token s) \<in> set queue)"

definition requests_inv :: "('h, 'o) router_loop \<Rightarrow> bool" where
  "requests_inv l \<longleftrightarrow> distinct (map fst (keyframe_requests (router l)))
     \<and> (\<forall>(key, s) \<in> set (keyframe_requests (router l)). request_ok (router l) (queued_handlers l) key s)"

lemma request_ok_keep:
  assumes "request_ok r queue key s" and "publisher_sources r' = publisher_sources r"
    and "dom (map_of (subscriptions r)) \<subseteq> dom (map_of (subscriptions r'))"
  shows "request_ok r' queue key s"
proof -
  have "current_source r' = current_source r" using assms(2) by (simp add: fun_eq_iff current_source_def)
  moreover have "set (waiting_subscribers s) \<subseteq> dom (map_of (subscriptions r'))"
    using assms(1) subset_trans [OF _ assms(3)] unfolding request_ok_def by blast
  ultimately show ?thesis using assms(1) unfolding request_ok_def by simp
qed

lemma requests_inv_same:
  assumes "requests_inv l" and "publisher_sources r' = publisher_sources (router l)"
    and "dom (map_of (subscriptions (router l))) \<subseteq> dom (map_of (subscriptions r'))"
    and "keyframe_requests r' = keyframe_requests (router l)"
  shows "requests_inv (l\<lparr>router := r'\<rparr>)"
  using assms request_ok_keep [OF _ assms(2,3)] by (auto simp: requests_inv_def)

lemma requests_inv_store:
  assumes "requests_inv l" and "request_ok (router l) (queued_handlers l) key s"
  shows "requests_inv (l\<lparr>router := store_request key s (router l)\<rparr>)"
proof -
  have "request_ok (store_request key s (router l)) (queued_handlers l) k u" if "request_ok (router l) (queued_handlers l) k u" for k u
    using that by (rule request_ok_keep) simp_all
  then show ?thesis
    using assms set_alist_update [of key s "keyframe_requests (router l)"]
    by (fastforce simp: requests_inv_def store_request_def distinct_update)
qed

lemma requests_inv_subset:
  assumes "requests_inv l" and "publisher_sources r' = publisher_sources (router l)"
    and "subscriptions r' = subscriptions (router l)" and "distinct (map fst (keyframe_requests r'))"
    and "set (keyframe_requests r') \<subseteq> set (keyframe_requests (router l))"
  shows "requests_inv (l\<lparr>router := r'\<rparr>)"
  using assms request_ok_keep [of "router l" _ _ _ r'] by (fastforce simp: requests_inv_def)

lemma requests_inv_lookup:
  "requests_inv l \<Longrightarrow> map_of (keyframe_requests (router l)) key = Some s \<Longrightarrow> request_ok (router l) (queued_handlers l) key s"
  by (auto simp: requests_inv_def dest: map_of_SomeD)

section \<open>Every operation keeps it\<close>

lemma schedule_keyframe_retry_ok:
  assumes "current_source r (request_stream_id key) (request_session_id key) (request_generation key) \<noteq> None"
    and "waiting_subscribers s \<noteq> []" and "set (waiting_subscribers s) \<subseteq> dom (map_of (subscriptions r))"
    and "\<forall>d token. retry_wait s = Some (d, token) \<longrightarrow> token = timer_token s"
  shows "request_ok r queue key (schedule_keyframe_retry s)"
  using assms by (auto simp: request_ok_def schedule_keyframe_retry_def)

lemma requests_inv_request:
  assumes inv: "requests_inv l" and req: "request_keyframe stream subscriber publisher generation ssrc (router l) = (b, new, r')"
  shows "requests_inv (l\<lparr>router := r'\<rparr>)"
proof (cases b)
  case False
  then have "r' = router l" using req by (auto simp: request_keyframe_def Let_def split: if_splits option.splits)
  then show ?thesis using inv by simp
next
  case True
  define key where "key = \<lparr>request_stream_id = stream, request_session_id = publisher,
    request_generation = generation, request_media_ssrc = ssrc\<rparr>"
  define s0 where "s0 = (case map_of (keyframe_requests (router l)) key of None \<Rightarrow> fresh_request | Some s \<Rightarrow> s)"
  define s where "s = s0\<lparr>waiting_subscribers := List.insert subscriber (waiting_subscribers s0)\<rparr>"
  obtain sub where sub: "map_of (subscriptions (router l)) subscriber = Some sub"
    and src: "current_source (router l) stream publisher generation \<noteq> None"
    and r': "r' = store_request key (if \<not> retry_active s
      then schedule_keyframe_retry (s\<lparr>retry_active := True, next_retry_delay_index := 0, sent_count := 1\<rparr>) else s) (router l)"
    using req True
    by (auto simp: request_keyframe_def Let_def key_def s_def s0_def split: if_splits option.splits)
  have s0: "set (waiting_subscribers s0) \<subseteq> dom (map_of (subscriptions (router l)))"
    "\<forall>d token. retry_wait s0 = Some (d, token) \<longrightarrow> token = timer_token s0"
    "retry_active s0 \<Longrightarrow> request_ok (router l) (queued_handlers l) key s0"
    using requests_inv_lookup [OF inv, of key] by (auto simp: s0_def request_ok_def fresh_request_def split: option.splits)
  have "List.insert subscriber xs \<noteq> []" for xs by (auto simp: List.insert_def)
  then have w: "waiting_subscribers s \<noteq> []" "set (waiting_subscribers s) \<subseteq> dom (map_of (subscriptions (router l)))"
    using s0(1) sub by (auto simp: s_def)
  have "request_ok (router l) (queued_handlers l) key (if \<not> retry_active s
      then schedule_keyframe_retry (s\<lparr>retry_active := True, next_retry_delay_index := 0, sent_count := 1\<rparr>) else s)"
  proof (cases "retry_active s")
    case True
    then show ?thesis using s0(3) w by (simp add: s_def request_ok_def)
  next
    case False
    then show ?thesis using schedule_keyframe_retry_ok [of "router l" key] src w s0(2) by (simp add: key_def s_def)
  qed
  from requests_inv_store [OF inv this] show ?thesis by (simp add: r')
qed

lemma requests_inv_complete:
  assumes inv: "requests_inv l"
  shows "requests_inv (l\<lparr>router := complete_keyframe_request stream subscriber publisher generation ssrc (router l)\<rparr>)"
proof -
  let ?key = "\<lparr>request_stream_id = stream, request_session_id = publisher, request_generation = generation,
    request_media_ssrc = ssrc\<rparr>"
  have "requests_inv (l\<lparr>router := erase_request ?key (router l)\<rparr>)"
    by (rule requests_inv_subset [OF inv]) (use inv in \<open>auto simp: erase_request_def requests_inv_def distinct_delete dest: subsetD [OF set_alist_delete]\<close>)
  moreover have "requests_inv (l\<lparr>router := store_request ?key (s\<lparr>waiting_subscribers := removeAll subscriber (waiting_subscribers s)\<rparr>) (router l)\<rparr>)"
    if "map_of (keyframe_requests (router l)) ?key = Some s" "removeAll subscriber (waiting_subscribers s) \<noteq> []" for s
    using requests_inv_lookup [OF inv that(1)] that(2) by (intro requests_inv_store [OF inv]) (auto simp: request_ok_def)
  ultimately show ?thesis using inv
    by (auto simp: complete_keyframe_request_def Let_def split: option.splits)
qed

lemma requests_inv_derive:
  assumes "requests_inv l" and "distinct (map fst (keyframe_requests r'))"
    and "\<And>key s'. (key, s') \<in> set (keyframe_requests r') \<Longrightarrow> \<exists>s. (key, s) \<in> set (keyframe_requests (router l))
      \<and> retry_wait s' = retry_wait s \<and> timer_token s' = timer_token s \<and> retry_active s' = retry_active s
      \<and> waiting_subscribers s' \<noteq> [] \<and> set (waiting_subscribers s') \<subseteq> dom (map_of (subscriptions r'))
      \<and> current_source r' (request_stream_id key) (request_session_id key) (request_generation key) \<noteq> None"
  shows "requests_inv (l\<lparr>router := r'\<rparr>)"
proof -
  have "request_ok r' (queued_handlers l) key s'" if "(key, s') \<in> set (keyframe_requests r')" for key s'
    using assms(1) assms(3) [OF that] by (fastforce simp: requests_inv_def request_ok_def)
  then show ?thesis using assms(2) by (auto simp: requests_inv_def)
qed

lemma cancel_loop_entry:
  "(key, s') \<in> set (cancel_requests_for_subscriber_loop u requests) \<Longrightarrow> \<exists>s. (key, s) \<in> set requests
     \<and> s' = s\<lparr>waiting_subscribers := removeAll u (waiting_subscribers s)\<rparr> \<and> waiting_subscribers s' \<noteq> []"
  by (induction u requests rule: cancel_requests_for_subscriber_loop.induct) (auto simp: Let_def split: if_splits)

lemma cancel_loop_distinct:
  "distinct (map fst requests) \<Longrightarrow> distinct (map fst (cancel_requests_for_subscriber_loop u requests))"
proof (induction u requests rule: cancel_requests_for_subscriber_loop.induct)
  case (2 u key s requests)
  have "key \<notin> fst ` set (cancel_requests_for_subscriber_loop u requests)" using 2(3) by (force dest: cancel_loop_entry)
  then show ?case using 2 by (simp add: Let_def)
qed simp

lemma requests_inv_cancel:
  assumes inv: "requests_inv l" and r': "keyframe_requests r' = cancel_requests_for_subscriber_loop u (keyframe_requests (router l))"
    and src: "publisher_sources r' = publisher_sources (router l)"
    and subs: "dom (map_of (subscriptions (router l))) - {u} \<subseteq> dom (map_of (subscriptions r'))"
  shows "requests_inv (l\<lparr>router := r'\<rparr>)"
proof (rule requests_inv_derive [OF inv])
  show "distinct (map fst (keyframe_requests r'))" using inv by (simp add: r' cancel_loop_distinct requests_inv_def)
  have cs: "current_source r' = current_source (router l)" using src by (simp add: fun_eq_iff current_source_def)
  fix key s'
  assume "(key, s') \<in> set (keyframe_requests r')"
  then obtain s where s: "(key, s) \<in> set (keyframe_requests (router l))"
    "s' = s\<lparr>waiting_subscribers := removeAll u (waiting_subscribers s)\<rparr>" "waiting_subscribers s' \<noteq> []"
    unfolding r' using cancel_loop_entry by fastforce
  then have ok: "request_ok (router l) (queued_handlers l) key s" using inv by (auto simp: requests_inv_def)
  then have "set (waiting_subscribers s') \<subseteq> dom (map_of (subscriptions (router l))) - {u}"
    using s(2) by (auto simp: request_ok_def)
  then have "set (waiting_subscribers s') \<subseteq> dom (map_of (subscriptions r'))" using subs by (rule subset_trans)
  then show "\<exists>s. (key, s) \<in> set (keyframe_requests (router l))
      \<and> retry_wait s' = retry_wait s \<and> timer_token s' = timer_token s \<and> retry_active s' = retry_active s
      \<and> waiting_subscribers s' \<noteq> [] \<and> set (waiting_subscribers s') \<subseteq> dom (map_of (subscriptions r'))
      \<and> current_source r' (request_stream_id key) (request_session_id key) (request_generation key) \<noteq> None"
    using s ok unfolding cs by (intro exI [of _ s]) (simp add: request_ok_def)
qed

lemma requests_inv_unsubscribe:
  assumes inv: "requests_inv l"
  shows "requests_inv (l\<lparr>router := unsubscribe u (router l)\<rparr>)"
proof (cases "u = [] \<or> map_of (subscriptions (router l)) u = None")
  case True
  then show ?thesis using inv by (auto simp: unsubscribe_def)
next
  case False
  then show ?thesis
    by (intro requests_inv_cancel [OF inv, of _ u])
      (auto simp: unsubscribe_def Let_def cancel_keyframe_requests_for_subscriber_def AList.delete_conv' split: option.splits)
qed

lemma requests_inv_new_source:
  assumes inv: "requests_inv l" and r': "keyframe_requests r' = filter (\<lambda>(key, s). request_stream_id key \<noteq> stream) (keyframe_requests (router l))"
    and src: "\<And>st. st \<noteq> stream \<Longrightarrow> map_of (publisher_sources r') st = map_of (publisher_sources (router l)) st"
    and subs: "subscriptions r' = subscriptions (router l)"
  shows "requests_inv (l\<lparr>router := r'\<rparr>)"
proof (rule requests_inv_derive [OF inv])
  show "distinct (map fst (keyframe_requests r'))" using inv by (simp add: r' distinct_map_filter requests_inv_def)
  fix key s'
  assume "(key, s') \<in> set (keyframe_requests r')"
  then have k: "(key, s') \<in> set (keyframe_requests (router l))" "request_stream_id key \<noteq> stream" by (auto simp: r')
  then have ok: "request_ok (router l) (queued_handlers l) key s'" using inv by (auto simp: requests_inv_def)
  have "current_source r' (request_stream_id key) = current_source (router l) (request_stream_id key)"
    using src [OF k(2)] by (simp add: fun_eq_iff current_source_def)
  then show "\<exists>s. (key, s) \<in> set (keyframe_requests (router l))
      \<and> retry_wait s' = retry_wait s \<and> timer_token s' = timer_token s \<and> retry_active s' = retry_active s
      \<and> waiting_subscribers s' \<noteq> [] \<and> set (waiting_subscribers s') \<subseteq> dom (map_of (subscriptions r'))
      \<and> current_source r' (request_stream_id key) (request_session_id key) (request_generation key) \<noteq> None"
    using k(1) ok by (intro exI [of _ s']) (simp add: request_ok_def subs)
qed

lemma requests_inv_client:
  assumes inv: "requests_inv l" and op: "client_op op (router l) = (new, r')"
  shows "requests_inv (l\<lparr>router := r'\<rparr>)"
proof (cases op)
  case (Subscribe stream subscriber rtp source timing bye)
  then show ?thesis using op
    by (intro requests_inv_same [OF inv]) (auto simp: subscribe_def Let_def AList.update_conv' split: option.splits if_splits)
next
  case (Unsubscribe u)
  then show ?thesis using op requests_inv_unsubscribe [OF inv] by auto
next
  case (Set_Publisher stream session offer handler)
  then show ?thesis
  proof (cases "handler = None \<or> stream = [] \<or> session = []")
    case True
    then have "r' = router l" using op Set_Publisher by (auto simp: set_publisher_source_def split: option.splits)
    then show ?thesis using inv by simp
  next
    case False
    then show ?thesis using op Set_Publisher
      by (intro requests_inv_new_source [OF inv, of _ stream])
        (auto simp: set_publisher_source_def Let_def allocate_source_generation_def cancel_stream_keyframe_requests_def
          AList.update_conv' split: option.splits)
  qed
next
  case (Clear_Publisher stream session)
  then show ?thesis
  proof (cases "stream = [] \<or> session = [] \<or> publisher_of (router l) stream session = None")
    case True
    then have "r' = router l" using op Clear_Publisher by (auto simp: clear_publisher_source_def split: option.splits)
    then show ?thesis using inv by simp
  next
    case False
    then show ?thesis using op Clear_Publisher
      by (intro requests_inv_new_source [OF inv, of _ stream])
        (auto simp: clear_publisher_source_def Let_def allocate_source_generation_def cancel_stream_keyframe_requests_def
          AList.delete_conv' split: option.splits)
  qed
next
  case (Request_Keyframe stream subscriber publisher generation ssrc)
  then show ?thesis using op requests_inv_request [OF inv] by (metis client_op.simps(5) prod.collapse)
next
  case (Complete_Keyframe stream subscriber publisher generation ssrc)
  then show ?thesis using op requests_inv_complete [OF inv] by auto
next
  case (Cancel_Keyframes u)
  then show ?thesis
  proof (cases "u = []")
    case True
    then show ?thesis using op inv Cancel_Keyframes by (auto simp: cancel_keyframe_requests_def)
  next
    case False
    then show ?thesis using op Cancel_Keyframes
      by (intro requests_inv_cancel [OF inv, of _ u])
        (auto simp: cancel_keyframe_requests_def cancel_keyframe_requests_for_subscriber_def)
  qed
next
  case (Publish_Bye stream session generation ssrc why)
  then have "r' = router l \<or> (\<exists>key. r' = erase_request key (erase_sender_timing stream ssrc (router l)))"
    using op by (auto simp: publish_source_bye_def Let_def split: if_splits option.splits)
  then show ?thesis using inv
    by (elim disjE exE) (simp, rule requests_inv_subset [OF inv],
      auto simp: erase_request_def requests_inv_def distinct_delete dest: subsetD [OF set_alist_delete])
next
  case (Publish_Timing stream session generation ssrc ntp rtp_time packets octets)
  then show ?thesis using op
    by (intro requests_inv_same [OF inv]) (auto simp: publish_sender_timing_def Let_def split: option.splits if_splits)
qed (use op inv in auto)

lemma requests_inv_expire:
  assumes inv: "requests_inv l"
  shows "requests_inv (expire_timer key l)"
proof (cases "expire_timer key l = l")
  case False
  then obtain s d token where s: "map_of (keyframe_requests (router l)) key = Some s" "retry_wait s = Some (d, token)"
    by (auto simp: expire_timer_def split: option.splits)
  let ?l = "l\<lparr>queued_handlers := queued_handlers l @ [(key, token)]\<rparr>"
  have "requests_inv ?l" using inv by (fastforce simp: requests_inv_def request_ok_def)
  moreover have "request_ok (router ?l) (queued_handlers ?l) key (s\<lparr>retry_wait := None\<rparr>)"
    using requests_inv_lookup [OF inv s(1)] s(2) by (simp add: request_ok_def)
  ultimately have "requests_inv (?l\<lparr>router := store_request key (s\<lparr>retry_wait := None\<rparr>) (router ?l)\<rparr>)"
    by (rule requests_inv_store)
  then show ?thesis using s by (cases l) (simp add: expire_timer_def)
qed (use inv in simp)

text \<open>Taking a handler out of the queue harms at most the request the handler was for.\<close>

lemma queue_rest: "i < length q \<Longrightarrow> x \<in> set q \<Longrightarrow> x \<noteq> q ! i \<Longrightarrow> x \<in> set (take i q @ drop (Suc i) q)"
  by (metis UnE id_take_nth_drop set_append set_ConsD in_set_conv_decomp Un_iff)

lemma set_update_entry:
  assumes "distinct (map fst xs)"
  shows "(k, u) \<in> set (AList.update key v xs) \<longleftrightarrow> (if k = key then u = v else (k, u) \<in> set xs)"
proof -
  have d: "distinct (map fst (AList.update key v xs))" using assms by (rule distinct_update)
  show ?thesis
    unfolding map_of_eq_Some_iff [OF d, symmetric] map_of_eq_Some_iff [OF assms, symmetric] AList.update_conv' by auto
qed

lemma requests_inv_handle:
  assumes inv: "requests_inv l" and i: "i < length (queued_handlers l)" "queued_handlers l ! i = (key, token)"
    and h: "handle_keyframe_retry key token (router l) = (new, r)"
  defines "q \<equiv> take i (queued_handlers l) @ drop (Suc i) (queued_handlers l)"
  shows "requests_inv \<lparr>router = r, queued_handlers = q\<rparr>"
proof -
  have dist: "distinct (map fst (keyframe_requests (router l)))" using inv by (simp add: requests_inv_def)
  have other: "request_ok (router l) q k s" if "(k, s) \<in> set (keyframe_requests (router l))" "(k, timer_token s) \<noteq> (key, token)" for k s
    using that inv queue_rest [OF i(1), of "(k, timer_token s)"] i(2)
    by (auto simp: requests_inv_def request_ok_def q_def)
  show ?thesis
  proof (cases "\<exists>s. map_of (keyframe_requests (router l)) key = Some s \<and> timer_token s = token")
    case False
    then have "r = router l" using h by (auto simp: handle_keyframe_retry_def split: option.splits)
    moreover have "request_ok (router l) q k s" if "(k, s) \<in> set (keyframe_requests (router l))" for k s
      using other [OF that] False map_of_is_SomeI [OF dist that] by fastforce
    ultimately show ?thesis using dist by (auto simp: requests_inv_def)
  next
    case True
    then obtain s where s: "map_of (keyframe_requests (router l)) key = Some s" "timer_token s = token" by blast
    have ok: "request_ok (router l) (queued_handlers l) key s" by (rule requests_inv_lookup [OF inv s(1)])
    let ?s = "schedule_keyframe_retry (s\<lparr>sent_count := sent_count s + 1\<rparr>)"
    have r: "r = store_request key ?s (router l)"
      using h s ok by (auto simp: handle_keyframe_retry_def request_ok_def split: option.splits)
    have "request_ok (router l) q key ?s"
      by (rule schedule_keyframe_retry_ok) (use ok in \<open>auto simp: request_ok_def\<close>)
    moreover have "request_ok (router l) q k u" if "(k, u) \<in> set (keyframe_requests (router l))" "k \<noteq> key" for k u
      using other [OF that(1)] that(2) by simp
    moreover have "(k, u) \<in> set (keyframe_requests r) \<longleftrightarrow> (if k = key then u = ?s else (k, u) \<in> set (keyframe_requests (router l)))" for k u
      unfolding r using set_update_entry [OF dist] by (simp add: store_request_def)
    ultimately have "request_ok (router l) q k u" if "(k, u) \<in> set (keyframe_requests r)" for k u
      using that by (cases "k = key") auto
    then have "request_ok r q k u" if "(k, u) \<in> set (keyframe_requests r)" for k u
      using that request_ok_keep [of "router l" q k u r] by (simp add: r)
    then show ?thesis using dist by (auto simp: requests_inv_def r store_request_def distinct_update)
  qed
qed

lemma requests_inv_step:
  assumes "requests_inv l" and "router_step op l = (new, l')"
  shows "requests_inv l'"
  using assms(2)
proof (cases rule: router_step_cases)
  case (2 i key token r)
  then show ?thesis using requests_inv_handle [OF assms(1) 2(2-4)] by simp
qed (use assms(1) requests_inv_expire requests_inv_client [OF assms(1)] in auto)

lemma router_history_requests: "router_history l calls \<Longrightarrow> requests_inv l"
proof (induction rule: router_history.induct)
  case start
  then show ?case by (simp add: idle_loop_def make_media_fanout_router_def requests_inv_def)
next
  case (step l calls op new l')
  then show ?case using requests_inv_step by blast
qed

section \<open>Open requests are retried\<close>

lemma handle_matching:
  assumes "map_of (keyframe_requests r) key = Some s" and "waiting_subscribers s \<noteq> []"
    and "current_source r (request_stream_id key) (request_session_id key) (request_generation key) = Some src"
  shows "fst (handle_keyframe_retry key (timer_token s) r) = [Keyframe_Request (keyframe_request_handler src) (request_media_ssrc key)]"
  using assms by (simp add: handle_keyframe_retry_def)

lemma run_expire: "fst (run_router (Timer_Expires key # ops) l) = fst (run_router ops (expire_timer key l))"
  by (simp add: router_step_def case_prod_unfold Let_def)

lemma run_queued:
  assumes "i < length (queued_handlers l)" and "queued_handlers l ! i = (key, timer_token s)"
    and "map_of (keyframe_requests (router l)) key = Some s" and "waiting_subscribers s \<noteq> []"
    and "current_source (router l) (request_stream_id key) (request_session_id key) (request_generation key) = Some src"
  shows "fst (run_router [Run_Handler i] l) = [Keyframe_Request (keyframe_request_handler src) (request_media_ssrc key)]"
  using assms(1,2) handle_matching [OF assms(3-5)] by (simp add: router_step_def case_prod_unfold Let_def)

text \<open>
  C4. Every open key frame request is for the publisher that the stream has now and is waited for by
  somebody; and while it is active its retry is in flight, so that one timer expiry and one run of
  the event loop are enough to ask that publisher again.
\<close>

theorem active_request_is_retried:
  assumes "router_history l calls" and "map_of (keyframe_requests (router l)) key = Some s" and "retry_active s"
  shows "waiting_subscribers s \<noteq> [] \<and> (\<exists>src steps. map_of (publisher_sources (router l)) (request_stream_id key) = Some src
    \<and> publisher_session_id src = request_session_id key \<and> publisher_generation src = request_generation key
    \<and> set steps \<subseteq> {Timer_Expires key} \<union> range Run_Handler \<and> length steps \<le> 2
    \<and> fst (run_router steps l) = [Keyframe_Request (keyframe_request_handler src) (request_media_ssrc key)])"
proof -
  note inv = router_history_requests [OF assms(1)]
  have ok: "request_ok (router l) (queued_handlers l) key s" by (rule requests_inv_lookup [OF inv assms(2)])
  then obtain src where src: "current_source (router l) (request_stream_id key) (request_session_id key) (request_generation key) = Some src"
    by (auto simp: request_ok_def)
  have w: "waiting_subscribers s \<noteq> []" using ok by (simp add: request_ok_def)
  have "\<exists>steps. set steps \<subseteq> {Timer_Expires key} \<union> range Run_Handler \<and> length steps \<le> 2
    \<and> fst (run_router steps l) = [Keyframe_Request (keyframe_request_handler src) (request_media_ssrc key)]"
  proof (cases "retry_wait s")
    case None
    then have "(key, timer_token s) \<in> set (queued_handlers l)" using ok assms(3) by (simp add: request_ok_def)
    then obtain i where "i < length (queued_handlers l)" "queued_handlers l ! i = (key, timer_token s)"
      by (auto simp: in_set_conv_nth)
    from run_queued [OF this assms(2) w src] show ?thesis by (intro exI [of _ "[Run_Handler i]"]) simp
  next
    case (Some p)
    then have p: "retry_wait s = Some (fst p, timer_token s)" using ok by (cases p) (simp add: request_ok_def)
    let ?l = "expire_timer key l" and ?n = "length (queued_handlers l)"
    have l: "queued_handlers ?l = queued_handlers l @ [(key, timer_token s)]"
      "map_of (keyframe_requests (router ?l)) key = Some (s\<lparr>retry_wait := None\<rparr>)"
      using assms(2) p by (simp_all add: expire_timer_def store_request_def AList.update_conv')
    have "current_source (router ?l) = current_source (router l)" by (simp add: fun_eq_iff current_source_def)
    then have "fst (run_router [Run_Handler ?n] ?l) = [Keyframe_Request (keyframe_request_handler src) (request_media_ssrc key)]"
      using run_queued [of ?n ?l key "s\<lparr>retry_wait := None\<rparr>" src] l w src by simp
    then have "fst (run_router [Timer_Expires key, Run_Handler ?n] l) = [Keyframe_Request (keyframe_request_handler src) (request_media_ssrc key)]"
      unfolding run_expire .
    then show ?thesis by (intro exI [of _ "[Timer_Expires key, Run_Handler ?n]"]) simp
  qed
  then show ?thesis using w current_source_Some [OF src] by blast
qed

text \<open>A viewer of a stream with a publisher asks for a key frame.\<close>

definition demo_request_ops :: "(nat, unit) router_op list" where
  "demo_request_ops = [Subscribe ''live'' ''viewer'' (Some 1) (Some 2) (Some 3) (Some 4),
     Set_Publisher ''live'' ''camera'' () (Some 5), Request_Keyframe ''live'' ''viewer'' ''camera'' 1 7]"

definition demo_request_key :: keyframe_request_key where
  "demo_request_key = \<lparr>request_stream_id = ''live'', request_session_id = ''camera'', request_generation = 1, request_media_ssrc = 7\<rparr>"

definition demo_request_loop :: "(nat, unit) router_loop" where
  "demo_request_loop = snd (run_router demo_request_ops idle_loop)"

theorem active_request_is_retried_witness:
  "\<exists>steps. length steps \<le> 2 \<and> fst (run_router steps demo_request_loop) = [Keyframe_Request 5 7]"
proof -
  let ?r = "router demo_request_loop"
  have h: "router_history demo_request_loop ([] @ fst (run_router demo_request_ops idle_loop))"
    by (rule run_router_history [OF router_history.start]) (simp add: demo_request_loop_def)
  have "map_of (keyframe_requests ?r) demo_request_key = Some \<lparr>waiting_subscribers = [''viewer''], retry_wait = Some (200, 1),
    next_retry_delay_index = 1, sent_count = 1, timer_token = 1, retry_active = True\<rparr>" by code_simp
  from active_request_is_retried [OF h this] obtain src steps where
    "map_of (publisher_sources ?r) (request_stream_id demo_request_key) = Some src" "length steps \<le> 2"
    "fst (run_router steps demo_request_loop) = [Keyframe_Request (keyframe_request_handler src) (request_media_ssrc demo_request_key)]"
    by auto
  moreover have "map_option keyframe_request_handler (map_of (publisher_sources ?r) (request_stream_id demo_request_key)) = Some 5
    \<and> request_media_ssrc demo_request_key = 7" by code_simp
  ultimately show ?thesis by auto
qed

section \<open>Retries end\<close>

text \<open>
  Steps of the event loop that do something: a timer that runs expires, or a queued handler runs. No
  client operation takes part.
\<close>

fun effective :: "('h, 'o) router_op \<Rightarrow> ('h, 'o) router_loop \<Rightarrow> bool" where
  "effective (Timer_Expires key) l = (case map_of (keyframe_requests (router l)) key of None \<Rightarrow> False | Some s \<Rightarrow> retry_wait s \<noteq> None)"
| "effective (Run_Handler i) l = (i < length (queued_handlers l))"
| "effective _ l = False"

fun effective_run :: "('h, 'o) router_op list \<Rightarrow> ('h, 'o) router_loop \<Rightarrow> bool" where
  "effective_run [] l = True"
| "effective_run (op # ops) l = (effective op l \<and> effective_run ops (snd (router_step op l)))"

text \<open>How often a request can still be sent, and how many steps that can take.\<close>

definition armed :: "keyframe_request_state \<Rightarrow> nat" where
  "armed s = (if retry_wait s = None then 0 else 1)"

definition retries_left :: "keyframe_request_state \<Rightarrow> nat" where
  "retries_left s = (4 - next_retry_delay_index s) + armed s"

definition sends_left :: "('h, 'o) router_loop \<Rightarrow> nat" where
  "sends_left l = (\<Sum>(key, s) \<leftarrow> keyframe_requests (router l). retries_left s) + length (queued_handlers l)"

definition steps_left :: "('h, 'o) router_loop \<Rightarrow> nat" where
  "steps_left l = sends_left l + (\<Sum>(key, s) \<leftarrow> keyframe_requests (router l). retries_left s)"

lemma retries_update:
  "map_of xs key = Some s \<Longrightarrow>
   (\<Sum>(k, u) \<leftarrow> AList.update key v xs. f u) + f s = (\<Sum>(k, u) \<leftarrow> xs. f u :: nat) + f v"
  by (induction xs) (auto split: if_splits)

lemma retries_delete: "(\<Sum>(k, u) \<leftarrow> AList.delete key xs. f u) \<le> (\<Sum>(k, u) \<leftarrow> xs. f u :: nat)"
  by (induction xs) (auto simp: AList.delete_eq)

lemma retries_left_schedule: "retries_left (schedule_keyframe_retry s) \<le> retries_left s"
  by (auto simp: retries_left_def schedule_keyframe_retry_def armed_def k_keyframe_retry_delays_def)

lemma handle_retries:
  assumes "handle_keyframe_retry key token r = (new, r')"
  shows "(\<Sum>(k, u) \<leftarrow> keyframe_requests r'. retries_left u) \<le> (\<Sum>(k, u) \<leftarrow> keyframe_requests r. retries_left u)"
    and "length new \<le> 1"
proof -
  have "retries_left (schedule_keyframe_retry (s\<lparr>sent_count := n\<rparr>)) \<le> retries_left s" for s n
    using retries_left_schedule [of "s\<lparr>sent_count := n\<rparr>"] by (simp add: retries_left_def armed_def)
  note sched = this
  consider "r' = r" | "r' = erase_request key r"
    | s where "map_of (keyframe_requests r) key = Some s"
        "r' = store_request key (schedule_keyframe_retry (s\<lparr>sent_count := sent_count s + 1\<rparr>)) r"
    using assms by (fastforce simp: handle_keyframe_retry_def split: option.splits if_splits)
  then show "(\<Sum>(k, u) \<leftarrow> keyframe_requests r'. retries_left u) \<le> (\<Sum>(k, u) \<leftarrow> keyframe_requests r. retries_left u)"
  proof cases
    case 2
    then show ?thesis using retries_delete by (simp add: erase_request_def)
  next
    case (3 s)
    then show ?thesis
      using retries_update [OF 3(1), where f = retries_left and v = "schedule_keyframe_retry (s\<lparr>sent_count := sent_count s + 1\<rparr>)"]
        sched [of "sent_count s + 1" s]
      by (simp add: store_request_def)
  qed simp
  show "length new \<le> 1" using assms by (auto simp: handle_keyframe_retry_def split: option.splits if_splits)
qed

lemma effective_step:
  assumes "effective op l" and "router_step op l = (new, l')"
  shows "steps_left l' < steps_left l \<and> sends_left l' + length new \<le> sends_left l"
  using assms(2)
proof (cases rule: router_step_cases)
  case (1 key)
  then obtain s d token where s: "map_of (keyframe_requests (router l)) key = Some s" "retry_wait s = Some (d, token)"
    using assms(1) by (auto split: option.splits)
  let ?s = "s\<lparr>retry_wait := None\<rparr>"
  have "retries_left s = retries_left ?s + 1" using s(2) by (simp add: retries_left_def armed_def)
  moreover have "(\<Sum>(k, u) \<leftarrow> keyframe_requests (router l'). retries_left u) + retries_left s =
    (\<Sum>(k, u) \<leftarrow> keyframe_requests (router l). retries_left u) + retries_left ?s"
    using retries_update [OF s(1), where f = retries_left and v = ?s] 1(3) s by (simp add: expire_timer_def store_request_def)
  moreover have "length (queued_handlers l') = length (queued_handlers l) + 1" using 1(3) s by (simp add: expire_timer_def)
  ultimately show ?thesis
    using 1(2) by (simp_all add: steps_left_def sends_left_def)
next
  case (2 i key token r)
  note h = handle_retries [OF 2(4)]
  have "length (take i (queued_handlers l) @ drop (Suc i) (queued_handlers l)) = length (queued_handlers l) - 1"
    using 2(2) by simp
  then show ?thesis
    using h 2(2) unfolding 2(5) steps_left_def sends_left_def router_loop.simps by linarith
qed (use assms(1) in \<open>auto elim: effective.elims\<close>)

text \<open>
  C5. Left to itself, the event loop comes to rest: between two operations of clients it takes at most
  \<open>steps_left\<close> steps and asks publishers for key frames at most \<open>sends_left\<close> times, a request just
  accepted counting for four.
\<close>

theorem retries_terminate:
  assumes "effective_run steps l"
  shows "length steps \<le> steps_left l \<and> length (fst (run_router steps l)) \<le> sends_left l"
  using assms
proof (induction steps arbitrary: l)
  case (Cons op steps)
  obtain new l' where s: "router_step op l = (new, l')" by fastforce
  have "length steps \<le> steps_left l' \<and> length (fst (run_router steps l')) \<le> sends_left l'"
    using Cons s by simp
  then show ?case using effective_step [OF _ s] Cons.prems s by (auto simp: case_prod_unfold Let_def)
qed simp

theorem retries_terminate_witness:
  "let steps = [Timer_Expires demo_request_key, Run_Handler 0, Timer_Expires demo_request_key, Run_Handler 0,
       Timer_Expires demo_request_key, Run_Handler 0, Timer_Expires demo_request_key, Run_Handler 0] in
     steps_left demo_request_loop = 8 \<and> sends_left demo_request_loop = 4
     \<and> length steps \<le> 8 \<and> fst (run_router steps demo_request_loop) = replicate 4 (Keyframe_Request 5 7)"
proof -
  let ?steps = "[Timer_Expires demo_request_key, Run_Handler 0, Timer_Expires demo_request_key, Run_Handler 0,
       Timer_Expires demo_request_key, Run_Handler 0, Timer_Expires demo_request_key, Run_Handler 0]"
  have "effective_run ?steps demo_request_loop" by code_simp
  moreover have "steps_left demo_request_loop = 8" "sends_left demo_request_loop = 4" by code_simp+
  moreover have "fst (run_router ?steps demo_request_loop) = replicate 4 (Keyframe_Request 5 7)" by code_simp
  ultimately show ?thesis using retries_terminate [of ?steps demo_request_loop] unfolding Let_def by metis
qed

section \<open>Stale completion handlers\<close>

text \<open>
  C40. The token that guards against late completion handlers is lost with the request: when a request
  is answered while its timer's handler is already queued, and the same subscriber asks again, the old
  handler is taken for the new request's and the publisher is asked a third time at once, without
  waiting the 200 milliseconds of the first retry.
\<close>

theorem stale_handler_is_accepted:
  fixes r :: "('h, 'o) media_fanout_router" and generation :: u64 and ssrc :: u32 and stream subscriber publisher :: string
  defines "key \<equiv> \<lparr>request_stream_id = stream, request_session_id = publisher, request_generation = generation, request_media_ssrc = ssrc\<rparr>"
  assumes "fst (request_keyframe stream subscriber publisher generation ssrc r)" and new: "map_of (keyframe_requests r) key = None"
  shows "\<exists>h. fst (run_router [Request_Keyframe stream subscriber publisher generation ssrc, Timer_Expires key,
      Complete_Keyframe stream subscriber publisher generation ssrc,
      Request_Keyframe stream subscriber publisher generation ssrc, Run_Handler 0]
      \<lparr>router = r, queued_handlers = []\<rparr>) = [Keyframe_Request h ssrc, Keyframe_Request h ssrc, Keyframe_Request h ssrc]"
proof -
  from assms(2) obtain src sub where src: "current_source r stream publisher generation = Some src"
    and sub: "map_of (subscriptions r) subscriber = Some sub" "subscribed_stream sub = stream"
    and args: "stream \<noteq> []" "subscriber \<noteq> []" "publisher \<noteq> []" "generation \<noteq> 0" "ssrc \<noteq> 0"
    by (auto simp: request_keyframe_def Let_def split: if_splits option.splits)
  define s1 where "s1 = \<lparr>waiting_subscribers = [subscriber], retry_wait = Some (200, 1), next_retry_delay_index = 1,
    sent_count = 1, timer_token = 1, retry_active = True\<rparr>"
  have req: "request_keyframe stream subscriber publisher generation ssrc q =
      (True, [Keyframe_Request (keyframe_request_handler src) ssrc], store_request key s1 q)"
    if "current_source q = current_source r" "subscriptions q = subscriptions r" "map_of (keyframe_requests q) key = None"
    for q :: "('h, 'o) media_fanout_router"
    using args sub src that
    by (simp add: request_keyframe_def key_def s1_def fresh_request_def schedule_keyframe_retry_def k_keyframe_retry_delays_def Let_def)
  have cs: "current_source (store_request k s q) = current_source q" "current_source (erase_request k q) = current_source q"
    for k s and q :: "('h, 'o) media_fanout_router"
    by (simp_all add: fun_eq_iff current_source_def)
  have found: "map_of (keyframe_requests (store_request key s q)) key = Some s"
    and gone: "map_of (keyframe_requests (erase_request key q)) key = None" for s and q :: "('h, 'o) media_fanout_router"
    by (simp_all add: store_request_def erase_request_def AList.update_conv' AList.delete_conv')
  define r2 where "r2 = store_request key (s1\<lparr>retry_wait := None\<rparr>) (store_request key s1 r)"
  have expire: "expire_timer key \<lparr>router = store_request key s1 r, queued_handlers = []\<rparr> = \<lparr>router = r2, queued_handlers = [(key, 1)]\<rparr>"
    by (simp add: expire_timer_def found r2_def) (simp add: s1_def)
  have complete: "complete_keyframe_request stream subscriber publisher generation ssrc r2 = erase_request key r2"
    using args found [of "s1\<lparr>retry_wait := None\<rparr>" "store_request key s1 r"]
    by (simp add: complete_keyframe_request_def r2_def key_def [symmetric]) (simp add: s1_def)
  have again: "request_keyframe stream subscriber publisher generation ssrc (erase_request key r2) =
      (True, [Keyframe_Request (keyframe_request_handler src) ssrc], store_request key s1 (erase_request key r2))"
    by (rule req) (simp_all add: cs gone r2_def)
  have "current_source (store_request key s1 (erase_request key r2)) stream publisher generation = Some src"
    using src by (simp add: cs r2_def)
  then have handled: "fst (handle_keyframe_retry key 1 (store_request key s1 (erase_request key r2))) =
      [Keyframe_Request (keyframe_request_handler src) ssrc]"
    using handle_matching [of "store_request key s1 (erase_request key r2)" key s1 src]
    by (simp add: found) (simp add: s1_def key_def)
  show ?thesis
    by (intro exI [of _ "keyframe_request_handler src"])
      (simp add: router_step_def expire complete again handled req [OF refl refl new] case_prod_unfold Let_def)
qed

theorem stale_handler_is_accepted_witness:
  "let r = router (snd (run_router (take 2 demo_request_ops) idle_loop)) in
     \<exists>h. fst (run_router [Request_Keyframe ''live'' ''viewer'' ''camera'' 1 7, Timer_Expires demo_request_key,
       Complete_Keyframe ''live'' ''viewer'' ''camera'' 1 7, Request_Keyframe ''live'' ''viewer'' ''camera'' 1 7, Run_Handler 0]
       \<lparr>router = r, queued_handlers = []\<rparr>) = [Keyframe_Request h 7, Keyframe_Request h 7, Keyframe_Request h 7]"
proof -
  let ?r = "router (snd (run_router (take 2 demo_request_ops) idle_loop))"
  have "fst (request_keyframe ''live'' ''viewer'' ''camera'' 1 7 ?r)"
    "map_of (keyframe_requests ?r) \<lparr>request_stream_id = ''live'', request_session_id = ''camera'',
       request_generation = 1, request_media_ssrc = 7\<rparr> = None" by code_simp+
  from stale_handler_is_accepted [OF this] show ?thesis by (simp only: Let_def demo_request_key_def)
qed

end
