(* ===== verification/Text_Scan.thy ===== *)
theory Text_Scan
  imports Text
begin

text \<open>
  More text helpers, shared by the candidate, SDP and configuration parsers: case-insensitive
  comparison and trimming (\<^verbatim>\<open>boost::algorithm::iequals\<close>, \<^verbatim>\<open>to_lower\<close>, \<^verbatim>\<open>trim_copy_if\<close> in the C locale),
  \<^verbatim>\<open>std::iscntrl\<close>, decimal numbers as \<^verbatim>\<open>std::from_chars\<close> reads them, and splitting at separators.
\<close>

section \<open>Case and control characters\<close>

definition to_lower_char :: "char \<Rightarrow> char" where
  "to_lower_char c = (if is_upper c then char_of (of_char c + 32 :: nat) else c)"

definition to_lower :: "string \<Rightarrow> string" where
  "to_lower s = map to_lower_char s"

definition iequals :: "string \<Rightarrow> string \<Rightarrow> bool" where
  "iequals a b \<longleftrightarrow> to_lower a = to_lower b"

definition is_cntrl :: "char \<Rightarrow> bool" where
  "is_cntrl c \<longleftrightarrow> (of_char c :: nat) < 32 \<or> (of_char c :: nat) = 127"

lemma length_to_lower [simp]: "length (to_lower s) = length s"
  by (simp add: to_lower_def)

lemma iequals_refl [simp]: "iequals a a"
  by (simp add: iequals_def)

definition trim_if :: "(char \<Rightarrow> bool) \<Rightarrow> string \<Rightarrow> string" where
  "trim_if P s = rev (dropWhile P (rev (dropWhile P s)))"

lemma trim_if_id: "s = [] \<or> \<not> P (hd s) \<and> \<not> P (last s) \<Longrightarrow> trim_if P s = s"
proof (cases "s = []")
  case False
  assume "s = [] \<or> \<not> P (hd s) \<and> \<not> P (last s)"
  then have "dropWhile P s = s" "dropWhile P (rev s) = rev s"
    using False by (cases s, auto simp: trim_if_def) (cases s rule: rev_cases, auto)
  then show ?thesis by (simp add: trim_if_def)
qed (simp add: trim_if_def)

definition starts_with :: "string \<Rightarrow> string \<Rightarrow> bool" where
  "starts_with s p \<longleftrightarrow> take (length p) s = p"

definition ends_with :: "string \<Rightarrow> string \<Rightarrow> bool" where
  "ends_with s p \<longleftrightarrow> length p \<le> length s \<and> drop (length s - length p) s = p"

lemma starts_with_iff: "starts_with s p \<longleftrightarrow> (\<exists>r. s = p @ r)"
proof
  assume "starts_with s p"
  then have "s = p @ drop (length p) s" unfolding starts_with_def by (metis append_take_drop_id)
  then show "\<exists>r. s = p @ r" ..
qed (auto simp: starts_with_def)

section \<open>Decimal numbers\<close>

definition digit_value :: "char \<Rightarrow> nat" where
  "digit_value c = of_char c - 48"

definition decimal_value :: "string \<Rightarrow> nat" where
  "decimal_value s = foldl (\<lambda>n c. 10 * n + digit_value c) 0 s"

text \<open>
  \<^verbatim>\<open>std::from_chars\<close> into an unsigned type of \<open>w\<close> bits, on a text that must be used up: \<open>None\<close> when
  the text is no number or the number does not fit.
\<close>

definition from_chars :: "nat \<Rightarrow> string \<Rightarrow> nat option" where
  "from_chars w s =
     (if s = [] \<or> \<not> list_all is_digit s then None
      else if decimal_value s \<ge> 2 ^ w then None else Some (decimal_value s))"

definition digit_char :: "nat \<Rightarrow> char" where
  "digit_char d = char_of (48 + d)"

fun decimal :: "nat \<Rightarrow> string" where
  "decimal n = (if n < 10 then [digit_char n] else decimal (n div 10) @ [digit_char (n mod 10)])"

declare decimal.simps [simp del]

lemma of_char_digit: "d < 10 \<Longrightarrow> (of_char (digit_char d) :: nat) = 48 + d"
  by (simp add: digit_char_def)

lemma decimal_digits: "list_all is_digit (decimal n)"
proof (induction n rule: decimal.induct)
  case (1 n)
  have "is_digit (digit_char d)" if "d < 10" for d using of_char_digit [OF that] that by (simp add: is_digit_def)
  then show ?case using 1 by (subst decimal.simps) simp
qed

lemma decimal_nonempty [simp]: "decimal n \<noteq> []"
  by (subst decimal.simps) simp

lemma decimal_value_snoc: "decimal_value (s @ [c]) = 10 * decimal_value s + digit_value c"
  by (simp add: decimal_value_def)

lemma decimal_value_decimal [simp]: "decimal_value (decimal n) = n"
proof (induction n rule: decimal.induct)
  case (1 n)
  have d: "digit_value (digit_char d) = d" if "d < 10" for d using of_char_digit [OF that] by (simp add: digit_value_def)
  show ?case
  proof (cases "n < 10")
    case True
    then have "decimal n = [] @ [digit_char n]" by (subst decimal.simps) simp
    then show ?thesis using d [OF True] decimal_value_snoc [of "[]"] by (simp add: decimal_value_def)
  next
    case False
    then have "decimal n = decimal (n div 10) @ [digit_char (n mod 10)]" by (subst decimal.simps) simp
    then show ?thesis using 1 False d [of "n mod 10"] by (simp add: decimal_value_snoc)
  qed
qed

lemma from_chars_decimal: "n < 2 ^ w \<Longrightarrow> from_chars w (decimal n) = Some n"
  by (simp add: from_chars_def decimal_digits)

lemma length_decimal: "n < 10 ^ Suc k \<Longrightarrow> length (decimal n) \<le> Suc k"
proof (induction k arbitrary: n)
  case 0
  then show ?case by (subst decimal.simps) simp
next
  case (Suc k)
  then have "n div 10 < 10 ^ Suc k" by simp
  from Suc.IH [OF this] show ?case by (subst decimal.simps) simp
qed

section \<open>Words\<close>

text \<open>The maximal runs of characters that are no separators.\<close>

function words_of :: "(char \<Rightarrow> bool) \<Rightarrow> string \<Rightarrow> string list" where
  "words_of P s =
     (case dropWhile P s of
        [] \<Rightarrow> []
      | c # cs \<Rightarrow> takeWhile (\<lambda>x. \<not> P x) (c # cs) # words_of P (dropWhile (\<lambda>x. \<not> P x) (c # cs)))"
  by auto
termination
proof (relation "measure (\<lambda>(P, s). length s)", simp)
  fix P :: "char \<Rightarrow> bool" and s c cs
  assume s: "dropWhile P s = c # cs"
  then have "\<not> P c" by (metis dropWhile_eq_Cons_conv)
  then have "length (dropWhile (\<lambda>x. \<not> P x) (c # cs)) \<le> length cs" by (simp add: length_dropWhile_le)
  also have "length cs < length s" using length_dropWhile_le [of P s] s by simp
  finally show "((P, dropWhile (\<lambda>x. \<not> P x) (c # cs)), P, s) \<in> measure (\<lambda>(P, s). length s)" by simp
qed

declare words_of.simps [simp del]

lemma words_of_empty [simp]: "words_of P [] = []"
  by (simp add: words_of.simps)

lemma words_of_skip: "P c \<Longrightarrow> words_of P (c # s) = words_of P s"
  by (subst (1 2) words_of.simps) simp

lemma words_of_word:
  assumes "w \<noteq> []" and "\<forall>x \<in> set w. \<not> P x" and "s = [] \<or> P (hd s)"
  shows "words_of P (w @ s) = w # words_of P s"
proof -
  obtain c cs where w: "w = c # cs" using assms(1) by (cases w) auto
  have t: "takeWhile (\<lambda>x. \<not> P x) (w @ s) = w" "dropWhile (\<lambda>x. \<not> P x) (w @ s) = s"
    using assms(2,3) by (cases s; auto simp: takeWhile_append dropWhile_append takeWhile_eq_all_conv)+
  have "dropWhile P (w @ s) = w @ s" using assms(2) w by simp
  then show ?thesis using t w by (subst words_of.simps) simp
qed

text \<open>Texts joined with one separator between them.\<close>

fun join_with :: "char \<Rightarrow> string list \<Rightarrow> string" where
  "join_with c [] = []"
| "join_with c [w] = w"
| "join_with c (w # v # ws) = w @ c # join_with c (v # ws)"

lemma join_with_last: "ws \<noteq> [] \<Longrightarrow> last ws \<noteq> [] \<Longrightarrow> last (join_with c ws) = last (last ws)"
proof (induction c ws rule: join_with.induct)
  case (3 c w v ws)
  moreover have "join_with c (v # ws) \<noteq> []" using 3(3) by (cases ws) auto
  ultimately show ?case by simp
qed auto

lemma set_join_with: "set (join_with c ws) \<subseteq> insert c (\<Union>w \<in> set ws. set w)"
  by (induction c ws rule: join_with.induct) auto

lemma length_join_with: "length (join_with c ws) \<le> (\<Sum>w \<leftarrow> ws. Suc (length w))"
  by (induction c ws rule: join_with.induct) auto

lemma words_of_join:
  "P c \<Longrightarrow> \<forall>w \<in> set ws. w \<noteq> [] \<and> (\<forall>x \<in> set w. \<not> P x) \<Longrightarrow> words_of P (join_with c ws) = ws"
proof (induction c ws rule: join_with.induct)
  case (2 c w)
  then show ?case using words_of_word [of w P "[]"] by simp
next
  case (3 c w v ws)
  have w: "w \<noteq> []" "\<forall>x \<in> set w. \<not> P x" using "3.prems"(2) by simp_all
  have rest: "\<forall>u \<in> set (v # ws). u \<noteq> [] \<and> (\<forall>x \<in> set u. \<not> P x)" using "3.prems"(2) by simp
  have "words_of P (w @ c # join_with c (v # ws)) = w # words_of P (c # join_with c (v # ws))"
    by (rule words_of_word [OF w]) (simp add: "3.prems"(1))
  also have "\<dots> = w # v # ws"
    unfolding words_of_skip [of P c, OF "3.prems"(1)] using "3.IH" [OF "3.prems"(1) rest] by simp
  finally show ?case by simp
qed simp

lemma words_of_sound: "w \<in> set (words_of P s) \<Longrightarrow> w \<noteq> [] \<and> (\<forall>x \<in> set w. \<not> P x)"
proof (induction P s rule: words_of.induct)
  case step: (1 P s)
  show ?case
  proof (cases "dropWhile P s")
    case Nil
    then have "words_of P s = []" unfolding words_of.simps [of P s] by (simp only: list.case)
    then show ?thesis using step(2) by simp
  next
    case (Cons c cs)
    then have c: "\<not> P c" by (metis dropWhile_eq_Cons_conv)
    have "words_of P s = takeWhile (\<lambda>x. \<not> P x) (c # cs) # words_of P (dropWhile (\<lambda>x. \<not> P x) (c # cs))"
      unfolding words_of.simps [of P s] Cons by (simp only: list.case)
    with step(2) consider "w = takeWhile (\<lambda>x. \<not> P x) (c # cs)" | "w \<in> set (words_of P (dropWhile (\<lambda>x. \<not> P x) (c # cs)))"
      by (metis set_ConsD)
    then show ?thesis
    proof cases
      case 1
      then show ?thesis using c by (auto dest: set_takeWhileD)
    next
      case 2
      then show ?thesis by (rule step(1) [OF Cons])
    qed
  qed
qed

end
