(* ===== verification/Ice_Candidate.thy ===== *)
theory Ice_Candidate
  imports Text_Scan
begin

text \<open>
  Remote ICE candidates (\<^verbatim>\<open>src/ice/ice_candidate.cpp\<close>): the text of a candidate attribute is
  normalised, split into tokens and every field is validated. Boost.Asio's \<^verbatim>\<open>make_address\<close> is the
  parameter \<open>is_ip\<close>: whether a text is an IP address literal.
\<close>

section \<open>Limits and errors\<close>

abbreviation (input) k_max_candidate_size :: nat where "k_max_candidate_size \<equiv> 4096"
abbreviation (input) k_max_candidate_token_count :: nat where "k_max_candidate_token_count \<equiv> 64"
abbreviation (input) k_max_foundation_size :: nat where "k_max_foundation_size \<equiv> 32"
abbreviation (input) k_max_sdp_mid_size :: nat where "k_max_sdp_mid_size \<equiv> 128"
abbreviation (input) k_max_candidate_address_size :: nat where "k_max_candidate_address_size \<equiv> 253"
abbreviation (input) k_max_extension_name_size :: nat where "k_max_extension_name_size \<equiv> 64"
abbreviation (input) k_max_extension_value_size :: nat where "k_max_extension_value_size \<equiv> 512"
abbreviation (input) k_max_sdp_mline_index :: int where "k_max_sdp_mline_index \<equiv> 1024"
abbreviation (input) uint16_max :: nat where "uint16_max \<equiv> 65535"
abbreviation (input) uint32_max :: nat where "uint32_max \<equiv> 4294967295"

definition k_candidate_prefix :: string where "k_candidate_prefix = ''candidate:''"

datatype ice_candidate_transport = udp | tcp

record remote_ice_candidate =
  candidate_text :: string
  candidate_sdp_mid :: string
  candidate_sdp_mline_index :: int
  candidate_address :: string
  candidate_port :: nat
  address_is_hostname :: bool
  address_is_mdns_hostname :: bool
  end_of_candidates :: bool

definition make_field_error :: "string \<Rightarrow> string \<Rightarrow> 'a result" where
  "make_field_error field message = make_error (field @ '' '' @ message)"

section \<open>Normalisation\<close>

definition is_line_break :: "char \<Rightarrow> bool" where
  "is_line_break c \<longleftrightarrow> c = CHR 0x0D \<or> c = CHR 0x0A"

definition is_blank :: "char \<Rightarrow> bool" where
  "is_blank c \<longleftrightarrow> c = CHR '' '' \<or> c = CHR 0x09"

definition contains_line_break :: "string \<Rightarrow> bool" where
  "contains_line_break s \<longleftrightarrow> list_ex is_line_break s"

definition contains_whitespace :: "string \<Rightarrow> bool" where
  "contains_whitespace s \<longleftrightarrow> list_ex (\<lambda>c. is_blank c \<or> is_line_break c) s"

definition contains_control_character :: "string \<Rightarrow> bool" where
  "contains_control_character s \<longleftrightarrow> list_ex is_cntrl s"

definition is_end_of_candidates_text :: "string \<Rightarrow> bool" where
  "is_end_of_candidates_text s \<longleftrightarrow> s = [] \<or> s = ''end-of-candidates'' \<or> s = ''a=end-of-candidates''"

definition normalize_candidate_text :: "string \<Rightarrow> string result" where
  "normalize_candidate_text candidate =
     (if length candidate > k_max_candidate_size then make_error ''ice candidate is too large''
      else if contains_line_break candidate then make_error ''ice candidate must not contain line breaks''
      else let candidate = trim_if is_blank candidate in
        if is_end_of_candidates_text candidate then Inr []
        else let candidate = (if starts_with candidate ''a=candidate:'' then drop 2 candidate else candidate) in
          if \<not> starts_with candidate k_candidate_prefix then make_error ''ice candidate must start with candidate:''
          else Inr candidate)"

definition normalize_sdp_mid :: "string \<Rightarrow> string result" where
  "normalize_sdp_mid sdp_mid =
     (if length sdp_mid > k_max_sdp_mid_size then make_error ''sdpMid is too large''
      else if contains_whitespace sdp_mid then make_error ''sdpMid must not contain whitespace''
      else if contains_control_character sdp_mid then make_error ''sdpMid contains control characters''
      else Inr sdp_mid)"

definition validate_sdp_mline_index :: "int \<Rightarrow> unit result" where
  "validate_sdp_mline_index i =
     (if i < -1 then make_error ''sdpMLineIndex is invalid''
      else if i > k_max_sdp_mline_index then make_error ''sdpMLineIndex is too large''
      else Inr ())"

section \<open>Tokens\<close>

text \<open>The loop scans the text behind \<^verbatim>\<open>position\<close>; the tokens found so far are \<open>tokens\<close>.\<close>

function split_tokens_loop :: "string list \<Rightarrow> string \<Rightarrow> string list result" where
  "split_tokens_loop tokens s =
     (case dropWhile is_blank s of
        [] \<Rightarrow> Inr tokens
      | c # cs \<Rightarrow>
          let token = takeWhile (\<lambda>x. \<not> is_blank x) (c # cs);
              rest = dropWhile (\<lambda>x. \<not> is_blank x) (c # cs);
              tokens = tokens @ [token] in
          if rest = [] then Inr tokens
          else if length tokens > k_max_candidate_token_count then make_error ''ice candidate has too many tokens''
          else split_tokens_loop tokens rest)"
  by auto
termination
proof (relation "measure (\<lambda>(tokens, s). length s)", simp, goal_cases)
  case (1 tokens s c cs x rest tokens')
  then have "\<not> is_blank c" by (metis dropWhile_eq_Cons_conv)
  then have "length rest \<le> length cs" using 1 by (simp add: length_dropWhile_le)
  also have "length cs < length s" using length_dropWhile_le [of is_blank s] 1(1) by simp
  finally show ?case by simp
qed

declare split_tokens_loop.simps [simp del]

definition split_candidate_tokens :: "string \<Rightarrow> string list result" where
  "split_candidate_tokens candidate =
     bindE (split_tokens_loop [] candidate) (\<lambda>tokens.
     if length tokens > k_max_candidate_token_count then make_error ''ice candidate has too many tokens''
     else Inr tokens)"

definition parse_unsigned_integer :: "string \<Rightarrow> nat \<Rightarrow> nat \<Rightarrow> string \<Rightarrow> nat result" where
  "parse_unsigned_integer s minimum maximum field_name =
     (if s = [] then make_field_error field_name ''is empty''
      else case from_chars 64 s of
        None \<Rightarrow> make_field_error field_name ''is invalid''
      | Some v \<Rightarrow>
          if v < minimum \<or> v > maximum then make_field_error field_name ''is out of range'' else Inr v)"

section \<open>Fields\<close>

definition is_valid_foundation_character :: "char \<Rightarrow> bool" where
  "is_valid_foundation_character c \<longleftrightarrow> is_alnum c \<or> c = CHR ''+'' \<or> c = CHR ''/''"

definition validate_foundation :: "string \<Rightarrow> unit result" where
  "validate_foundation first_token =
     (if \<not> starts_with first_token k_candidate_prefix then make_error ''ice candidate foundation prefix is invalid''
      else let foundation = drop (length k_candidate_prefix) first_token in
        if foundation = [] then make_error ''ice candidate foundation is empty''
        else if length foundation > k_max_foundation_size then make_error ''ice candidate foundation is too large''
        else if list_ex (\<lambda>c. \<not> is_valid_foundation_character c) foundation
        then make_error ''ice candidate foundation contains invalid characters''
        else Inr ())"

definition parse_transport :: "string \<Rightarrow> ice_candidate_transport result" where
  "parse_transport s =
     (if iequals s ''udp'' then Inr udp
      else if iequals s ''tcp'' then Inr tcp
      else make_error ''ice candidate transport is unsupported'')"

definition validate_candidate_type :: "string \<Rightarrow> unit result" where
  "validate_candidate_type s =
     (if iequals s ''host'' \<or> iequals s ''srflx'' \<or> iequals s ''prflx'' \<or> iequals s ''relay'' then Inr ()
      else make_error ''ice candidate type is unsupported'')"

definition validate_tcp_candidate_type :: "string \<Rightarrow> unit result" where
  "validate_tcp_candidate_type s =
     (if iequals s ''active'' \<or> iequals s ''passive'' \<or> iequals s ''so'' then Inr ()
      else make_error ''ice candidate tcp type is unsupported'')"

definition looks_like_ipv4_literal :: "string \<Rightarrow> bool" where
  "looks_like_ipv4_literal s \<longleftrightarrow> s \<noteq> [] \<and> list_all (\<lambda>c. c = CHR ''.'' \<or> is_digit c) s \<and> CHR ''.'' \<in> set s"

definition is_valid_hostname_label :: "string \<Rightarrow> bool" where
  "is_valid_hostname_label label \<longleftrightarrow> label \<noteq> [] \<and> length label \<le> 63 \<and> is_alnum (hd label) \<and> is_alnum (last label)
     \<and> list_all (\<lambda>c. is_alnum c \<or> c = CHR ''-'') label"

text \<open>The loop over the labels; it ends at the end of the text, which may follow a dot directly.\<close>

function hostname_labels_ok :: "string \<Rightarrow> bool" where
  "hostname_labels_ok s =
     (if s = [] then True
      else case split_first (CHR ''.'') s of
        None \<Rightarrow> is_valid_hostname_label s
      | Some (label, rest) \<Rightarrow> is_valid_hostname_label label \<and> hostname_labels_ok rest)"
  by auto
termination
  by (relation "measure length") (auto simp: split_first_Some)

declare hostname_labels_ok.simps [simp del]

definition is_valid_hostname :: "string \<Rightarrow> bool" where
  "is_valid_hostname s \<longleftrightarrow> s \<noteq> [] \<and> length s \<le> k_max_candidate_address_size \<and>
     (let s = (if last s = CHR ''.'' then butlast s else s) in s \<noteq> [] \<and> hostname_labels_ok s)"

definition is_valid_candidate_address :: "(string \<Rightarrow> bool) \<Rightarrow> string \<Rightarrow> bool" where
  "is_valid_candidate_address is_ip s \<longleftrightarrow>
     (if s = [] \<or> length s > k_max_candidate_address_size then False
      else if contains_whitespace s \<or> contains_control_character s then False
      else if is_ip s then True
      else if looks_like_ipv4_literal s then False
      else is_valid_hostname s)"

definition is_mdns_hostname :: "string \<Rightarrow> bool" where
  "is_mdns_hostname s \<longleftrightarrow> s \<noteq> [] \<and>
     (let lowered = to_lower s in ends_with lowered ''.local'' \<or> ends_with lowered ''.local.'')"

definition parse_candidate_address :: "(string \<Rightarrow> bool) \<Rightarrow> string \<Rightarrow> string \<Rightarrow> string result" where
  "parse_candidate_address is_ip s field_name =
     (if \<not> is_valid_candidate_address is_ip s then make_field_error field_name ''is invalid'' else Inr s)"

section \<open>Extensions\<close>

definition validate_extension_token :: "string \<Rightarrow> string \<Rightarrow> nat \<Rightarrow> unit result" where
  "validate_extension_token s field_name maximum_size =
     (if s = [] then make_field_error field_name ''is empty''
      else if length s > maximum_size then make_field_error field_name ''is too large''
      else if contains_whitespace s \<or> contains_control_character s
      then make_field_error field_name ''contains invalid characters''
      else Inr ())"

record extension_flags =
  has_related_address :: bool
  has_related_port :: bool
  has_tcp_type :: bool
  has_generation :: bool
  has_network_id :: bool
  has_network_cost :: bool

definition no_extensions :: extension_flags where
  "no_extensions = \<lparr>has_related_address = False, has_related_port = False, has_tcp_type = False, has_generation = False,
     has_network_id = False, has_network_cost = False\<rparr>"

definition parse_extension :: "(string \<Rightarrow> bool) \<Rightarrow> string \<Rightarrow> string \<Rightarrow> extension_flags \<Rightarrow> extension_flags result" where
  "parse_extension is_ip name val flags =
     (if name = ''raddr'' then
        if has_related_address flags then make_error ''ice candidate related address is duplicated''
        else bindE (parse_candidate_address is_ip val ''ice candidate related address'') (\<lambda>_.
          Inr (flags\<lparr>has_related_address := True\<rparr>))
      else if name = ''rport'' then
        if has_related_port flags then make_error ''ice candidate related port is duplicated''
        else bindE (parse_unsigned_integer val 1 uint16_max ''ice candidate related port'') (\<lambda>_.
          Inr (flags\<lparr>has_related_port := True\<rparr>))
      else if name = ''tcptype'' then
        if has_tcp_type flags then make_error ''ice candidate tcp type is duplicated''
        else bindE (validate_tcp_candidate_type val) (\<lambda>_. Inr (flags\<lparr>has_tcp_type := True\<rparr>))
      else if name = ''generation'' then
        if has_generation flags then make_error ''ice candidate generation is duplicated''
        else bindE (parse_unsigned_integer val 0 uint32_max ''ice candidate generation'') (\<lambda>_.
          Inr (flags\<lparr>has_generation := True\<rparr>))
      else if name = ''network-id'' then
        if has_network_id flags then make_error ''ice candidate network id is duplicated''
        else bindE (parse_unsigned_integer val 0 uint32_max ''ice candidate network id'') (\<lambda>_.
          Inr (flags\<lparr>has_network_id := True\<rparr>))
      else if name = ''network-cost'' then
        if has_network_cost flags then make_error ''ice candidate network cost is duplicated''
        else bindE (parse_unsigned_integer val 0 uint32_max ''ice candidate network cost'') (\<lambda>_.
          Inr (flags\<lparr>has_network_cost := True\<rparr>))
      else Inr flags)"

fun parse_extensions_loop :: "(string \<Rightarrow> bool) \<Rightarrow> string list \<Rightarrow> extension_flags \<Rightarrow> extension_flags result" where
  "parse_extensions_loop is_ip [] flags = Inr flags"
| "parse_extensions_loop is_ip [name] flags = Inl OutOfBounds"
| "parse_extensions_loop is_ip (name # val # tokens) flags =
     bindE (validate_extension_token name ''ice candidate extension name'' k_max_extension_name_size) (\<lambda>_.
     bindE (validate_extension_token val ''ice candidate extension value'' k_max_extension_value_size) (\<lambda>_.
     bindE (parse_extension is_ip (to_lower name) val flags) (\<lambda>flags.
     parse_extensions_loop is_ip tokens flags)))"

definition parse_candidate_extensions :: "(string \<Rightarrow> bool) \<Rightarrow> string list \<Rightarrow> ice_candidate_transport \<Rightarrow> unit result" where
  "parse_candidate_extensions is_ip tokens transport =
     (if (length tokens - 8) mod 2 \<noteq> 0 then make_error ''ice candidate extension is missing a value''
      else bindE (parse_extensions_loop is_ip (drop 8 tokens) no_extensions) (\<lambda>flags.
        if has_related_address flags \<noteq> has_related_port flags
        then make_error ''ice candidate related address and port must be provided together''
        else if transport = tcp \<and> \<not> has_tcp_type flags then make_error ''tcp ice candidate requires tcptype''
        else if transport = udp \<and> has_tcp_type flags then make_error ''udp ice candidate must not contain tcptype''
        else Inr ()))"

section \<open>Candidates\<close>

definition parse_candidate_fields ::
  "(string \<Rightarrow> bool) \<Rightarrow> string \<Rightarrow> remote_ice_candidate \<Rightarrow> remote_ice_candidate result" where
  "parse_candidate_fields is_ip s candidate =
     bindE (split_candidate_tokens s) (\<lambda>tokens.
     if length tokens < 8 then make_error ''ice candidate is missing mandatory fields''
     else
       bindE (validate_foundation (tokens ! 0)) (\<lambda>_.
       bindE (parse_unsigned_integer (tokens ! 1) 1 256 ''ice candidate component'') (\<lambda>_.
       bindE (parse_transport (tokens ! 2)) (\<lambda>transport.
       bindE (parse_unsigned_integer (tokens ! 3) 1 uint32_max ''ice candidate priority'') (\<lambda>_.
       bindE (parse_candidate_address is_ip (tokens ! 4) ''ice candidate address'') (\<lambda>addr.
       bindE (parse_unsigned_integer (tokens ! 5) 1 uint16_max ''ice candidate port'') (\<lambda>p.
       if \<not> iequals (tokens ! 6) ''typ'' then make_error ''ice candidate typ field is missing''
       else bindE (validate_candidate_type (tokens ! 7)) (\<lambda>_.
       let candidate = candidate\<lparr>candidate_address := addr, candidate_port := p, address_is_hostname := \<not> is_ip addr,
             address_is_mdns_hostname := is_mdns_hostname addr\<rparr> in
       bindE (parse_candidate_extensions is_ip tokens transport) (\<lambda>_. Inr candidate)))))))))"

definition make_remote_ice_candidate :: "(string \<Rightarrow> bool) \<Rightarrow> string \<Rightarrow> string \<Rightarrow> int \<Rightarrow> remote_ice_candidate result" where
  "make_remote_ice_candidate is_ip candidate sdp_mid sdp_mline_index =
     bindE (normalize_candidate_text candidate) (\<lambda>normalized_candidate.
     bindE (normalize_sdp_mid sdp_mid) (\<lambda>normalized_sdp_mid.
     bindE (validate_sdp_mline_index sdp_mline_index) (\<lambda>_.
     if normalized_sdp_mid = [] \<and> sdp_mline_index < 0 then make_error ''sdpMid or sdpMLineIndex is required''
     else
       let v = \<lparr>candidate_text = normalized_candidate, candidate_sdp_mid = normalized_sdp_mid,
                candidate_sdp_mline_index = sdp_mline_index, candidate_address = [], candidate_port = 0,
                address_is_hostname = False, address_is_mdns_hostname = False,
                end_of_candidates = (normalized_candidate = [])\<rparr> in
       if end_of_candidates v then Inr v
       else parse_candidate_fields is_ip (candidate_text v) v)))"

section \<open>The token loop is splitting into words\<close>

lemma words_of_Cons:
  "dropWhile P s = c # cs \<Longrightarrow>
   words_of P s = takeWhile (\<lambda>x. \<not> P x) (c # cs) # words_of P (dropWhile (\<lambda>x. \<not> P x) (c # cs))"
  by (simp only: words_of.simps [of P s] list.case)

lemma words_of_Nil: "dropWhile P s = [] \<Longrightarrow> words_of P s = []"
  by (simp only: words_of.simps [of P s] list.case)

definition check_token_count :: "string list \<Rightarrow> string list result" where
  "check_token_count tokens =
     (if length tokens > k_max_candidate_token_count then make_error ''ice candidate has too many tokens'' else Inr tokens)"

lemma split_tokens_loop_words:
  "length tokens \<le> k_max_candidate_token_count \<Longrightarrow>
   bindE (split_tokens_loop tokens s) check_token_count = check_token_count (tokens @ words_of is_blank s)"
proof (induction tokens s rule: split_tokens_loop.induct)
  case step: (1 tokens s)
  show ?case
  proof (cases "dropWhile is_blank s")
    case Nil
    then have "split_tokens_loop tokens s = Inr tokens" by (simp only: split_tokens_loop.simps [of tokens s] list.case)
    then show ?thesis using words_of_Nil [OF Nil] by simp
  next
    case (Cons c cs)
    let ?token = "takeWhile (\<lambda>x. \<not> is_blank x) (c # cs)" and ?rest = "dropWhile (\<lambda>x. \<not> is_blank x) (c # cs)"
    have loop: "split_tokens_loop tokens s = (if ?rest = [] then Inr (tokens @ [?token])
       else if length (tokens @ [?token]) > k_max_candidate_token_count then make_error ''ice candidate has too many tokens''
       else split_tokens_loop (tokens @ [?token]) ?rest)"
      by (simp only: split_tokens_loop.simps [of tokens s] Cons list.case Let_def)
    show ?thesis
    proof (cases "?rest = []")
      case True
      show ?thesis unfolding loop words_of_Cons [OF Cons] True by simp
    next
      case rest: False
      show ?thesis
      proof (cases "length (tokens @ [?token]) > k_max_candidate_token_count")
        case True
        then show ?thesis using rest unfolding loop words_of_Cons [OF Cons] by (simp add: check_token_count_def)
      next
        case False
        then have "length (tokens @ [?token]) \<le> k_max_candidate_token_count" by simp
        from step.IH [OF Cons refl refl refl rest False this] show ?thesis
          using rest False unfolding loop words_of_Cons [OF Cons] by simp
      qed
    qed
  qed
qed

lemma split_candidate_tokens_words: "split_candidate_tokens s = check_token_count (words_of is_blank s)"
proof -
  have "split_candidate_tokens s = bindE (split_tokens_loop [] s) check_token_count"
    by (simp only: split_candidate_tokens_def check_token_count_def [abs_def])
  then show ?thesis using split_tokens_loop_words [of "[]" s] by simp
qed

section \<open>No read is out of range\<close>

lemma fault_free_fields [safe]:
  "fault_free (make_field_error f m)" "fault_free (normalize_candidate_text s)" "fault_free (normalize_sdp_mid s)"
  "fault_free (validate_sdp_mline_index i)" "fault_free (parse_unsigned_integer s a b f)" "fault_free (validate_foundation s)"
  "fault_free (parse_transport s)" "fault_free (validate_candidate_type s)" "fault_free (validate_tcp_candidate_type s)"
  "fault_free (parse_candidate_address is_ip s f)" "fault_free (validate_extension_token s f n)"
  "fault_free (check_token_count tokens)" "fault_free (split_candidate_tokens s)"
  by (auto simp: make_field_error_def normalize_candidate_text_def normalize_sdp_mid_def validate_sdp_mline_index_def
      parse_unsigned_integer_def validate_foundation_def parse_transport_def validate_candidate_type_def
      validate_tcp_candidate_type_def parse_candidate_address_def validate_extension_token_def check_token_count_def
      split_candidate_tokens_words Let_def split: option.splits)

lemma fault_free_extension [safe]: "fault_free (parse_extension is_ip name val flags)"
  unfolding parse_extension_def by (intro safe)

lemma fault_free_extensions_loop:
  "even (length tokens) \<Longrightarrow> fault_free (parse_extensions_loop is_ip tokens flags)"
  by (induction is_ip tokens flags rule: parse_extensions_loop.induct) (auto intro!: safe)

lemma fault_free_extensions [safe]: "8 \<le> length tokens \<Longrightarrow> fault_free (parse_candidate_extensions is_ip tokens t)"
  unfolding parse_candidate_extensions_def
  by (auto intro!: safe fault_free_extensions_loop simp: even_iff_mod_2_eq_zero)

lemma make_remote_ice_candidate_safe: "fault_free (make_remote_ice_candidate is_ip s mid i)"
  unfolding make_remote_ice_candidate_def parse_candidate_fields_def Let_def
  by (auto intro!: safe simp: not_less)

section \<open>What is accepted\<close>

lemma accepted_candidate_fields:
  "case make_remote_ice_candidate is_ip s mid i of
      Inl _ \<Rightarrow> True
    | Inr v \<Rightarrow>
        candidate_sdp_mid v = mid \<and> candidate_sdp_mline_index v = i \<and> (mid \<noteq> [] \<or> 0 \<le> i) \<and> -1 \<le> i \<and> i \<le> 1024
        \<and> \<not> contains_whitespace mid \<and> length mid \<le> 128 \<and> length (candidate_text v) \<le> 4096
        \<and> (if end_of_candidates v then candidate_text v = [] \<and> candidate_address v = []
           else starts_with (candidate_text v) k_candidate_prefix \<and> is_valid_candidate_address is_ip (candidate_address v)
             \<and> 1 \<le> candidate_port v \<and> candidate_port v \<le> 65535
             \<and> (address_is_hostname v \<longleftrightarrow> \<not> is_ip (candidate_address v))
             \<and> (address_is_mdns_hostname v \<longleftrightarrow> is_mdns_hostname (candidate_address v)))"
proof (cases "make_remote_ice_candidate is_ip s mid i")
  case (Inr v)
  have trim: "length (trim_if P t) \<le> length t" for P t
    using length_dropWhile_le [of P "rev (dropWhile P t)"] length_dropWhile_le [of P t] by (simp add: trim_if_def)
  have norm: "length n \<le> 4096 \<and> (n = [] \<or> starts_with n k_candidate_prefix)" if "normalize_candidate_text s = Inr n" for n
    using that trim [of is_blank s] by (auto simp: normalize_candidate_text_def Let_def split: if_splits)
  have mid: "n = mid \<and> \<not> contains_whitespace mid \<and> length mid \<le> 128" if "normalize_sdp_mid mid = Inr n" for n
    using that by (auto simp: normalize_sdp_mid_def split: if_splits)
  have index: "-1 \<le> i \<and> i \<le> 1024" if "validate_sdp_mline_index i = Inr u" for u
    using that by (auto simp: validate_sdp_mline_index_def split: if_splits)
  have number: "Suc 0 \<le> n \<and> n \<le> m" if "parse_unsigned_integer t (Suc 0) m f = Inr n" for t f n m
    using that by (auto simp: parse_unsigned_integer_def make_field_error_def split: if_splits option.splits)
  have addr: "a = t \<and> is_valid_candidate_address is_ip a" if "parse_candidate_address is_ip t f = Inr a" for t f a
    using that by (auto simp: parse_candidate_address_def make_field_error_def split: if_splits)
  from Inr obtain n m u where n: "normalize_candidate_text s = Inr n" "normalize_sdp_mid mid = Inr m" "validate_sdp_mline_index i = Inr u"
    "m \<noteq> [] \<or> 0 \<le> i"
    and v: "if n = [] then v = \<lparr>candidate_text = n, candidate_sdp_mid = m, candidate_sdp_mline_index = i, candidate_address = [],
        candidate_port = 0, address_is_hostname = False, address_is_mdns_hostname = False, end_of_candidates = True\<rparr>
      else parse_candidate_fields is_ip n \<lparr>candidate_text = n, candidate_sdp_mid = m, candidate_sdp_mline_index = i,
        candidate_address = [], candidate_port = 0, address_is_hostname = False, address_is_mdns_hostname = False,
        end_of_candidates = False\<rparr> = Inr v"
    by (auto simp: make_remote_ice_candidate_def bindE_Inr_iff Let_def split: if_splits)
  show ?thesis
  proof (cases "n = []")
    case True
    then show ?thesis using v n Inr mid [OF n(2)] index [OF n(3)] by simp
  next
    case False
    with v obtain t5 a p where f: "parse_candidate_address is_ip t5 ''ice candidate address'' = Inr a"
      "v = \<lparr>candidate_text = n, candidate_sdp_mid = m, candidate_sdp_mline_index = i, candidate_address = a, candidate_port = p,
        address_is_hostname = \<not> is_ip a, address_is_mdns_hostname = is_mdns_hostname a, end_of_candidates = False\<rparr>"
      "Suc 0 \<le> p \<and> p \<le> 65535"
      by (auto simp: parse_candidate_fields_def bindE_Inr_iff Let_def dest: number split: if_splits)
    show ?thesis
      using Inr f(2,3) norm [OF n(1)] mid [OF n(2)] index [OF n(3)] n(4) False
        addr [OF f(1), THEN conjunct1] addr [OF f(1), THEN conjunct2] by simp
  qed
qed simp



section \<open>Candidates are read back\<close>

text \<open>The content of a candidate attribute, and its text.\<close>

record candidate_description =
  d_foundation :: string
  d_component :: nat
  d_transport :: ice_candidate_transport
  d_priority :: nat
  d_address :: string
  d_port :: nat
  d_type :: string
  d_related :: "(string \<times> nat) option"
  d_tcp_type :: "string option"

definition description_tokens :: "candidate_description \<Rightarrow> string list" where
  "description_tokens d =
     [k_candidate_prefix @ d_foundation d, decimal (d_component d),
      (case d_transport d of udp \<Rightarrow> ''udp'' | tcp \<Rightarrow> ''tcp''), decimal (d_priority d), d_address d, decimal (d_port d),
      ''typ'', d_type d]
     @ (case d_related d of None \<Rightarrow> [] | Some (a, p) \<Rightarrow> [''raddr'', a, ''rport'', decimal p])
     @ (case d_tcp_type d of None \<Rightarrow> [] | Some t \<Rightarrow> [''tcptype'', t])"

definition description_text :: "candidate_description \<Rightarrow> string" where
  "description_text d = join_with (CHR '' '') (description_tokens d)"

definition description_ok :: "(string \<Rightarrow> bool) \<Rightarrow> candidate_description \<Rightarrow> bool" where
  "description_ok is_ip d \<longleftrightarrow> d_foundation d \<noteq> [] \<and> length (d_foundation d) \<le> 32
     \<and> list_all is_valid_foundation_character (d_foundation d) \<and> 1 \<le> d_component d \<and> d_component d \<le> 256
     \<and> 1 \<le> d_priority d \<and> d_priority d < 2 ^ 32 \<and> is_valid_candidate_address is_ip (d_address d)
     \<and> 1 \<le> d_port d \<and> d_port d < 2 ^ 16 \<and> d_type d \<in> {''host'', ''srflx'', ''prflx'', ''relay''}
     \<and> (\<forall>a p. d_related d = Some (a, p) \<longrightarrow> is_valid_candidate_address is_ip a \<and> 1 \<le> p \<and> p < 2 ^ 16)
     \<and> (case d_tcp_type d of None \<Rightarrow> d_transport d = udp
        | Some t \<Rightarrow> d_transport d = tcp \<and> t \<in> {''active'', ''passive'', ''so''})"

lemma address_text:
  assumes "is_valid_candidate_address is_ip a"
  shows "a \<noteq> []" "length a \<le> 253" "\<not> contains_whitespace a" "\<not> contains_control_character a"
  using assms by (auto simp: is_valid_candidate_address_def split: if_splits)

lemma no_whitespace_iff: "\<not> contains_whitespace s \<longleftrightarrow> (\<forall>c \<in> set s. \<not> is_blank c \<and> \<not> is_line_break c)"
  by (auto simp: contains_whitespace_def list_ex_iff)

lemma alnum_no_whitespace: "is_alnum c \<Longrightarrow> \<not> is_blank c \<and> \<not> is_line_break c \<and> \<not> is_cntrl c"
  by (auto simp: is_alnum_def is_digit_def is_upper_def is_lower_def is_blank_def is_line_break_def is_cntrl_def)

lemma decimal_no_whitespace: "\<not> contains_whitespace (decimal n)" "\<not> contains_control_character (decimal n)"
  using decimal_digits [of n] alnum_no_whitespace
  by (auto simp: contains_whitespace_def contains_control_character_def list_all_iff list_ex_iff is_alnum_def)

lemma foundation_no_whitespace: "list_all is_valid_foundation_character s \<Longrightarrow> \<not> contains_whitespace s"
  using alnum_no_whitespace
  by (auto simp: contains_whitespace_def list_all_iff list_ex_iff is_valid_foundation_character_def is_blank_def is_line_break_def)

lemma contains_whitespace_append [simp]:
  "contains_whitespace (a @ b) \<longleftrightarrow> contains_whitespace a \<or> contains_whitespace b"
  by (simp add: contains_whitespace_def)

definition token_ok :: "string \<Rightarrow> bool" where
  "token_ok w \<longleftrightarrow> w \<noteq> [] \<and> \<not> contains_whitespace w \<and> length w \<le> 253"

lemma token_ok_words [simp]:
  "token_ok ''udp''" "token_ok ''tcp''" "token_ok ''typ''" "token_ok ''raddr''" "token_ok ''rport''" "token_ok ''tcptype''"
  "token_ok ''host''" "token_ok ''srflx''" "token_ok ''prflx''" "token_ok ''relay''" "token_ok ''active''"
  "token_ok ''passive''" "token_ok ''so''"
  by code_simp+

lemma token_ok_decimal [simp]: "n < 2 ^ 32 \<Longrightarrow> token_ok (decimal n)"
  using length_decimal [of n 9] decimal_no_whitespace by (simp add: token_ok_def)

lemma token_ok_address [simp]: "is_valid_candidate_address is_ip a \<Longrightarrow> token_ok a"
  using address_text by (simp add: token_ok_def)

lemma token_ok_foundation:
  assumes "list_all is_valid_foundation_character f" and "length f \<le> 32"
  shows "token_ok (k_candidate_prefix @ f)"
proof -
  have "\<not> contains_whitespace k_candidate_prefix" "k_candidate_prefix \<noteq> []" "length k_candidate_prefix = 10" by code_simp+
  then show ?thesis using foundation_no_whitespace [OF assms(1)] assms(2) by (simp add: token_ok_def)
qed

lemma description_tokens_ok:
  assumes ok: "description_ok is_ip d"
  shows "list_all token_ok (description_tokens d)"
proof -
  have fixed: "token_ok (k_candidate_prefix @ d_foundation d)" "token_ok (d_address d)" "token_ok (decimal (d_component d))"
    "token_ok (decimal (d_priority d))" "token_ok (decimal (d_port d))"
    using ok by (auto simp: description_ok_def intro: token_ok_foundation)
  have kinds: "token_ok (d_type d)" using ok by (auto simp: description_ok_def)
  have "list_all token_ok (case d_related d of None \<Rightarrow> [] | Some (a, p) \<Rightarrow> [''raddr'', a, ''rport'', decimal p])"
    using ok by (auto simp: description_ok_def split: option.splits)
  moreover have "list_all token_ok (case d_tcp_type d of None \<Rightarrow> [] | Some t \<Rightarrow> [''tcptype'', t])"
    using ok by (auto simp: description_ok_def split: option.splits)
  ultimately show ?thesis
    using fixed kinds by (simp add: description_tokens_def split: ice_candidate_transport.splits)
qed

lemma description_words:
  assumes "description_ok is_ip d"
  shows "words_of is_blank (description_text d) = description_tokens d"
  unfolding description_text_def
proof (rule words_of_join)
  show "is_blank (CHR '' '')" by (simp add: is_blank_def)
  show "\<forall>w \<in> set (description_tokens d). w \<noteq> [] \<and> (\<forall>x \<in> set w. \<not> is_blank x)"
    using description_tokens_ok [OF assms] by (auto simp: list_all_iff token_ok_def no_whitespace_iff)
qed

lemma description_tokens_length: "length (description_tokens d) \<le> 14"
  by (auto simp: description_tokens_def split: option.splits)

lemma description_text_length:
  assumes "description_ok is_ip d"
  shows "length (description_text d) \<le> 14 * 254"
proof -
  have "(\<Sum>w \<leftarrow> ws. Suc (length w)) \<le> length ws * 254" if "list_all token_ok ws" for ws
    using that by (induction ws) (auto simp: token_ok_def)
  from this [OF description_tokens_ok [OF assms]] have "length (description_text d) \<le> length (description_tokens d) * 254"
    unfolding description_text_def by (rule order_trans [OF length_join_with])
  also have "\<dots> \<le> 14 * 254" using description_tokens_length [of d] by simp
  finally show ?thesis .
qed

lemma description_text_chars:
  assumes "description_ok is_ip d"
  shows "\<not> contains_line_break (description_text d)" and "\<not> is_blank (last (description_text d))"
    and "\<exists>r. description_text d = k_candidate_prefix @ r"
proof -
  note ok = description_tokens_ok [OF assms]
  have "c \<in> set (description_text d) \<Longrightarrow> \<not> is_line_break c" for c
    using ok set_join_with [of "CHR '' ''" "description_tokens d"]
    by (fastforce simp: description_text_def list_all_iff token_ok_def no_whitespace_iff is_line_break_def)
  then show "\<not> contains_line_break (description_text d)" by (auto simp: contains_line_break_def list_ex_iff)
  have ne: "description_tokens d \<noteq> []" by (simp add: description_tokens_def)
  then have l: "token_ok (last (description_tokens d))" using ok by (simp add: list_all_iff)
  then have "last (description_text d) = last (last (description_tokens d))"
    unfolding description_text_def using ne by (intro join_with_last) (auto simp: token_ok_def)
  moreover have "last (last (description_tokens d)) \<in> set (last (description_tokens d))" using l by (simp add: token_ok_def)
  ultimately show "\<not> is_blank (last (description_text d))" using l by (auto simp: token_ok_def no_whitespace_iff)
  show "\<exists>r. description_text d = k_candidate_prefix @ r"
    by (simp add: description_text_def description_tokens_def)
qed

text \<open>The extensions of a description are accepted.\<close>

lemma extension_names:
  "to_lower ''raddr'' = ''raddr''" "to_lower ''rport'' = ''rport''" "to_lower ''tcptype'' = ''tcptype''"
  "validate_extension_token ''raddr'' f 64 = Inr ()" "validate_extension_token ''rport'' f 64 = Inr ()"
  "validate_extension_token ''tcptype'' f 64 = Inr ()"
  by (simp_all add: validate_extension_token_def) (code_simp+)

lemma extension_values:
  "is_valid_candidate_address is_ip a \<Longrightarrow> validate_extension_token a f 512 = Inr ()"
  "n < 2 ^ 32 \<Longrightarrow> validate_extension_token (decimal n) f 512 = Inr ()"
  using address_text [of is_ip a] token_ok_decimal [of n] decimal_no_whitespace [of n]
  by (auto simp: validate_extension_token_def token_ok_def)

lemma extension_tcp_types:
  assumes "t \<in> {''active'', ''passive'', ''so''}"
  shows "validate_extension_token t f 512 = Inr ()" and "validate_tcp_candidate_type t = Inr ()"
proof -
  have "\<not> contains_control_character ''active''" "\<not> contains_control_character ''passive''" "\<not> contains_control_character ''so''"
    by code_simp+
  moreover have "token_ok t" using assms by auto
  ultimately show "validate_extension_token t f 512 = Inr ()"
    using assms by (auto simp: validate_extension_token_def token_ok_def)
  show "validate_tcp_candidate_type t = Inr ()" using assms by (auto simp: validate_tcp_candidate_type_def)
qed

lemma parse_number: "a \<le> n \<Longrightarrow> n \<le> b \<Longrightarrow> n < 2 ^ 64 \<Longrightarrow> parse_unsigned_integer (decimal n) a b f = Inr n"
  by (simp add: parse_unsigned_integer_def from_chars_decimal)

lemma description_extensions:
  assumes ok: "description_ok is_ip d"
  shows "parse_candidate_extensions is_ip (description_tokens d) (d_transport d) = Inr ()"
proof -
  define related where "related = (case d_related d of None \<Rightarrow> [] | Some (a, p) \<Rightarrow> [''raddr'', a, ''rport'', decimal p])"
  define tcps where "tcps = (case d_tcp_type d of None \<Rightarrow> [] | Some t \<Rightarrow> [''tcptype'', t])"
  have drop: "drop 8 (description_tokens d) = related @ tcps" "length (description_tokens d) - 8 = length (related @ tcps)"
    by (simp_all add: description_tokens_def related_def tcps_def)
  have even: "length (related @ tcps) mod 2 = 0"
    by (auto simp: related_def tcps_def split: option.splits)
  have rel: "parse_extensions_loop is_ip (related @ ts) no_extensions =
      parse_extensions_loop is_ip ts (no_extensions\<lparr>has_related_address := d_related d \<noteq> None, has_related_port := d_related d \<noteq> None\<rparr>)" for ts
  proof (cases "d_related d")
    case None
    then show ?thesis by (simp add: related_def no_extensions_def)
  next
    case (Some ap)
    obtain a p where ap: "ap = (a, p)" by fastforce
    have v: "is_valid_candidate_address is_ip a" "1 \<le> p" "p < 2 ^ 16" using ok Some ap by (auto simp: description_ok_def)
    show ?thesis
      using v extension_values(1) [OF v(1)] extension_values(2) [of p] parse_number [of 1 p 65535]
      by (simp add: related_def Some ap extension_names parse_extension_def parse_candidate_address_def no_extensions_def)
  qed
  have tcp: "parse_extensions_loop is_ip tcps flags = Inr (if d_tcp_type d = None then flags else flags\<lparr>has_tcp_type := True\<rparr>)"
    if "\<not> has_tcp_type flags" for flags
  proof (cases "d_tcp_type d")
    case None
    then show ?thesis by (simp add: tcps_def)
  next
    case (Some t)
    then have "t \<in> {''active'', ''passive'', ''so''}" using ok by (auto simp: description_ok_def)
    from extension_tcp_types [OF this] show ?thesis
      using that by (simp add: tcps_def Some extension_names parse_extension_def)
  qed
  have tr: "d_transport d = (if d_tcp_type d = None then udp else tcp)"
    using ok by (auto simp: description_ok_def split: option.splits)
  show ?thesis
    unfolding parse_candidate_extensions_def drop even rel using tr by (simp add: tcp no_extensions_def)
qed

text \<open>
  C33. Every well-formed candidate, written as a candidate attribute with or without the leading
  \<open>a=\<close>, is accepted and yields its address and port, for every foundation, priority, type,
  related address and TCP type that RFC 5245 knows.
\<close>

theorem candidate_round_trip:
  assumes ok: "description_ok is_ip d" and mid: "normalize_sdp_mid mid = Inr mid" and i: "-1 \<le> i" "i \<le> 1024"
    and "mid \<noteq> [] \<or> 0 \<le> i" and prefix: "prefix = [] \<or> prefix = ''a=''"
  shows "make_remote_ice_candidate is_ip (prefix @ description_text d) mid i =
    Inr \<lparr>candidate_text = description_text d, candidate_sdp_mid = mid, candidate_sdp_mline_index = i,
      candidate_address = d_address d, candidate_port = d_port d, address_is_hostname = \<not> is_ip (d_address d),
      address_is_mdns_hostname = is_mdns_hostname (d_address d), end_of_candidates = False\<rparr>"
proof -
  note chars = description_text_chars [OF ok]
  obtain r where r: "description_text d = k_candidate_prefix @ r" using chars(3) by blast
  have p: "k_candidate_prefix = ''candidate:''" by (rule k_candidate_prefix_def)
  have ne: "description_text d \<noteq> []" by (simp add: r p)
  have trim: "trim_if is_blank (prefix @ description_text d) = prefix @ description_text d"
    by (rule trim_if_id) (use chars(2) ne prefix in \<open>auto simp: r p is_blank_def\<close>)
  have norm: "normalize_candidate_text (prefix @ description_text d) = Inr (description_text d)"
  proof -
    have "length (prefix @ description_text d) \<le> 4096" using description_text_length [OF ok] prefix by auto
    moreover have "\<not> contains_line_break (prefix @ description_text d)"
      using chars(1) prefix by (auto simp: contains_line_break_def is_line_break_def)
    moreover have "\<not> is_end_of_candidates_text (prefix @ description_text d)"
      using prefix by (auto simp: is_end_of_candidates_text_def r p)
    ultimately show ?thesis
      using prefix unfolding normalize_candidate_text_def trim Let_def by (auto simp: r p starts_with_def)
  qed
  have fields: "validate_foundation (k_candidate_prefix @ d_foundation d) = Inr ()"
    "parse_unsigned_integer (decimal (d_component d)) 1 256 ''ice candidate component'' = Inr (d_component d)"
    "parse_unsigned_integer (decimal (d_priority d)) 1 uint32_max ''ice candidate priority'' = Inr (d_priority d)"
    "parse_unsigned_integer (decimal (d_port d)) 1 uint16_max ''ice candidate port'' = Inr (d_port d)"
    "parse_candidate_address is_ip (d_address d) ''ice candidate address'' = Inr (d_address d)"
    "validate_candidate_type (d_type d) = Inr ()"
    using ok by (auto simp: description_ok_def validate_foundation_def starts_with_def list_all_iff list_ex_iff
        parse_candidate_address_def validate_candidate_type_def intro!: parse_number)
  have transport: "parse_transport (case d_transport d of udp \<Rightarrow> ''udp'' | tcp \<Rightarrow> ''tcp'') = Inr (d_transport d)"
  proof (cases "d_transport d")
    case tcp
    moreover have "\<not> iequals ''tcp'' ''udp''" by code_simp
    ultimately show ?thesis by (simp add: parse_transport_def)
  qed (simp add: parse_transport_def)
  have tokens: "split_candidate_tokens (description_text d) = Inr (description_tokens d)"
    unfolding split_candidate_tokens_words description_words [OF ok]
    using description_tokens_length [of d] by (simp add: check_token_count_def)
  obtain exts where t: "description_tokens d =
     [k_candidate_prefix @ d_foundation d, decimal (d_component d),
      (case d_transport d of udp \<Rightarrow> ''udp'' | tcp \<Rightarrow> ''tcp''), decimal (d_priority d), d_address d, decimal (d_port d),
      ''typ'', d_type d] @ exts"
    unfolding description_tokens_def by blast
  have index: "validate_sdp_mline_index i = Inr ()" using i by (simp add: validate_sdp_mline_index_def)
  have nth: "length (description_tokens d) \<ge> 8" "description_tokens d ! 0 = k_candidate_prefix @ d_foundation d"
    "description_tokens d ! 1 = decimal (d_component d)" "description_tokens d ! 2 = (case d_transport d of udp \<Rightarrow> ''udp'' | tcp \<Rightarrow> ''tcp'')"
    "description_tokens d ! 3 = decimal (d_priority d)" "description_tokens d ! 4 = d_address d"
    "description_tokens d ! 5 = decimal (d_port d)" "description_tokens d ! 6 = ''typ''" "description_tokens d ! 7 = d_type d"
    by (simp_all add: t)
  show ?thesis
    using ne assms(5) nth(1) [folded not_less] description_extensions [OF ok]
    by (simp only: make_remote_ice_candidate_def norm mid index bindE.simps parse_candidate_fields_def tokens nth(2-) fields transport
        Let_def if_False if_True remote_ice_candidate.simps iequals_refl) auto
qed

definition demo_description :: candidate_description where
  "demo_description = \<lparr>d_foundation = ''842163049'', d_component = 1, d_transport = udp, d_priority = 1677729535,
     d_address = ''198.51.100.7'', d_port = 46154, d_type = ''srflx'', d_related = Some (''10.0.0.1'', 5000), d_tcp_type = None\<rparr>"

theorem candidate_round_trip_witness:
  "let is_ip = (\<lambda>s. list_all (\<lambda>c. is_digit c \<or> c = CHR ''.'') s) in
     ok (make_remote_ice_candidate is_ip
       ''candidate:842163049 1 udp 1677729535 198.51.100.7 46154 typ srflx raddr 10.0.0.1 rport 5000'' ''0'' 0)"
proof -
  let ?is_ip = "\<lambda>s. list_all (\<lambda>c. is_digit c \<or> c = CHR ''.'') s"
  have d: "decimal (Suc 0) = ''1''" by code_simp
  have e: "decimal 1677729535 = ''1677729535''" "decimal 46154 = ''46154''" "decimal 5000 = ''5000''"
    by (simp_all add: decimal.simps digit_char_def char_of_def bit_iff_odd)
  have printed: "description_text demo_description =
      ''candidate:842163049 1 udp 1677729535 198.51.100.7 46154 typ srflx raddr 10.0.0.1 rport 5000''"
    by (simp add: description_text_def description_tokens_def demo_description_def d e k_candidate_prefix_def)
  have "list_all is_valid_foundation_character ''842163049''" by code_simp
  moreover have "is_valid_candidate_address ?is_ip ''198.51.100.7''" "is_valid_candidate_address ?is_ip ''10.0.0.1''" by code_simp+
  ultimately have "description_ok ?is_ip demo_description"
    by (simp add: description_ok_def demo_description_def)
  moreover have "normalize_sdp_mid ''0'' = Inr ''0''" by code_simp
  ultimately show ?thesis
    using candidate_round_trip [of ?is_ip demo_description "''0''" 0 "[]"] by (simp add: Let_def printed)
qed

end
