(* ===== verification/Stream_Registry.thy ===== *)
theory Stream_Registry
  imports Ice_Candidate "HOL-Library.AList"
begin

text \<open>
  The stream registry (\<^verbatim>\<open>src/session/stream_registry.cpp\<close>) and the sessions it owns
  (\<^verbatim>\<open>publisher_session.cpp\<close>, \<^verbatim>\<open>subscriber_session.cpp\<close>): which session publishes a stream, which
  sessions exist, and the remote candidates a session has been given.

  Sessions are shared by pointer: the registry maps hold addresses into \<open>heap\<close>, so that a change of
  a session is seen through every map. The random generator of \<^verbatim>\<open>random_string\<close> is the parameter
  \<open>draw\<close>, a state transformer that yields an index into the alphabet. The clock is a parameter. The
  transport, port and credentials a session is given after its creation are not part of the model.
\<close>

section \<open>Sessions\<close>

record 'o media_session =
  session_id_of :: string
  stream_id_of :: string
  remote_offer_summary :: 'o
  remote_ice_candidates :: "remote_ice_candidate list"
  created_at_milliseconds :: u64
  updated_at_milliseconds :: u64

abbreviation (input) k_max_remote_ice_candidates :: nat where "k_max_remote_ice_candidates \<equiv> 256"

definition make_media_session :: "string \<Rightarrow> string \<Rightarrow> 'o \<Rightarrow> u64 \<Rightarrow> 'o media_session" where
  "make_media_session session stream offer created_at =
     \<lparr>session_id_of = session, stream_id_of = stream, remote_offer_summary = offer, remote_ice_candidates = [],
      created_at_milliseconds = created_at, updated_at_milliseconds = created_at\<rparr>"

definition remote_ice_completed :: "'o media_session \<Rightarrow> bool" where
  "remote_ice_completed s \<longleftrightarrow> remote_ice_candidates s \<noteq> [] \<and> end_of_candidates (last (remote_ice_candidates s))"

definition add_remote_ice_candidate :: "remote_ice_candidate \<Rightarrow> u64 \<Rightarrow> 'o media_session \<Rightarrow> unit result \<times> 'o media_session" where
  "add_remote_ice_candidate candidate now s =
     (let pushed = s\<lparr>remote_ice_candidates := remote_ice_candidates s @ [candidate], updated_at_milliseconds := now\<rparr> in
      if end_of_candidates candidate then (Inr (), pushed)
      else if remote_ice_completed s then (make_error ''remote ice candidates already completed'', s)
      else if length (remote_ice_candidates s) \<ge> k_max_remote_ice_candidates
      then (make_error ''too many remote ice candidates'', s)
      else (Inr (), pushed))"

section \<open>The registry\<close>

datatype stream_registry_error =
  stream_already_has_publisher | publisher_not_found | publisher_session_not_found | subscriber_session_not_found

datatype stream_session_kind = publisher | subscriber

record stream_session_lifecycle_snapshot =
  snapshot_kind :: stream_session_kind
  snapshot_stream_id :: string
  snapshot_session_id :: string
  snapshot_created_at :: u64
  snapshot_updated_at :: u64

definition stream_registry_error_to_string :: "stream_registry_error \<Rightarrow> string" where
  "stream_registry_error_to_string e =
     (case e of
        stream_already_has_publisher \<Rightarrow> ''stream_already_has_publisher''
      | publisher_not_found \<Rightarrow> ''publisher_not_found''
      | publisher_session_not_found \<Rightarrow> ''publisher_session_not_found''
      | subscriber_session_not_found \<Rightarrow> ''subscriber_session_not_found'')"

definition stream_session_kind_to_string :: "stream_session_kind \<Rightarrow> string" where
  "stream_session_kind_to_string k = (case k of publisher \<Rightarrow> ''publisher'' | subscriber \<Rightarrow> ''subscriber'')"

record 'o stream_registry =
  publishers_by_stream_id :: "(string \<times> nat) list"
  publishers_by_session_id :: "(string \<times> nat) list"
  subscribers_by_session_id :: "(string \<times> nat) list"
  heap :: "'o media_session list"

definition empty_registry :: "'o stream_registry" where
  "empty_registry = \<lparr>publishers_by_stream_id = [], publishers_by_session_id = [], subscribers_by_session_id = [], heap = []\<rparr>"

definition random_alphabet :: string where
  "random_alphabet = ''0123456789abcdefghijklmnopqrstuvwxyz''"

fun random_string :: "('s \<Rightarrow> nat \<times> 's) \<Rightarrow> nat \<Rightarrow> 's \<Rightarrow> string \<times> 's" where
  "random_string draw 0 s = ([], s)"
| "random_string draw (Suc n) s = (let (i, s) = draw s; (rest, s) = random_string draw n s in (random_alphabet ! i # rest, s))"

definition contains :: "(string \<times> nat) list \<Rightarrow> string \<Rightarrow> bool" where
  "contains m key \<longleftrightarrow> map_of m key \<noteq> None"

partial_function (option) make_unique_session_id ::
  "('s \<Rightarrow> nat \<times> 's) \<Rightarrow> 'o stream_registry \<Rightarrow> 's \<Rightarrow> (string \<times> 's) option" where
  "make_unique_session_id draw r s =
     (case random_string draw 24 s of (session, s) \<Rightarrow>
        if contains (publishers_by_session_id r) session then make_unique_session_id draw r s
        else if contains (subscribers_by_session_id r) session then make_unique_session_id draw r s
        else Some (session, s))"

text \<open>
  \<open>None\<close> stands for a call that does not return, because every session id that is drawn is in use.
  The address of a new session is the first free one.
\<close>

definition create_publisher_session ::
  "('s \<Rightarrow> nat \<times> 's) \<Rightarrow> string \<Rightarrow> 'o \<Rightarrow> u64 \<Rightarrow> 'o stream_registry \<Rightarrow> 's \<Rightarrow>
   ((stream_registry_error + nat) \<times> 'o stream_registry \<times> 's) option" where
  "create_publisher_session draw stream offer now r s =
     (if contains (publishers_by_stream_id r) stream then Some (Inl stream_already_has_publisher, r, s)
      else case make_unique_session_id draw r s of
        None \<Rightarrow> None
      | Some (session, s) \<Rightarrow>
          let a = length (heap r) in
          Some (Inr a, r\<lparr>heap := heap r @ [make_media_session session stream offer now],
                         publishers_by_session_id := AList.update session a (publishers_by_session_id r),
                         publishers_by_stream_id := AList.update stream a (publishers_by_stream_id r)\<rparr>, s))"

definition create_subscriber_session ::
  "('s \<Rightarrow> nat \<times> 's) \<Rightarrow> string \<Rightarrow> 'o \<Rightarrow> u64 \<Rightarrow> 'o stream_registry \<Rightarrow> 's \<Rightarrow>
   ((stream_registry_error + nat) \<times> 'o stream_registry \<times> 's) option" where
  "create_subscriber_session draw stream offer now r s =
     (if \<not> contains (publishers_by_stream_id r) stream then Some (Inl publisher_not_found, r, s)
      else case make_unique_session_id draw r s of
        None \<Rightarrow> None
      | Some (session, s) \<Rightarrow>
          let a = length (heap r) in
          Some (Inr a, r\<lparr>heap := heap r @ [make_media_session session stream offer now],
                         subscribers_by_session_id := AList.update session a (subscribers_by_session_id r)\<rparr>, s))"

definition find_publisher_by_stream_id :: "string \<Rightarrow> 'o stream_registry \<Rightarrow> nat option" where
  "find_publisher_by_stream_id stream r = map_of (publishers_by_stream_id r) stream"

definition find_publisher_by_session_id :: "string \<Rightarrow> 'o stream_registry \<Rightarrow> nat option" where
  "find_publisher_by_session_id session r = map_of (publishers_by_session_id r) session"

definition find_subscriber_by_session_id :: "string \<Rightarrow> 'o stream_registry \<Rightarrow> nat option" where
  "find_subscriber_by_session_id session r = map_of (subscribers_by_session_id r) session"

definition remove_publisher_session :: "string \<Rightarrow> 'o stream_registry \<Rightarrow> (stream_registry_error + unit) \<times> 'o stream_registry" where
  "remove_publisher_session session r =
     (case map_of (publishers_by_session_id r) session of
        None \<Rightarrow> (Inl publisher_session_not_found, r)
      | Some a \<Rightarrow>
          let stream = stream_id_of (heap r ! a) in
          (Inr (), r\<lparr>publishers_by_stream_id := AList.delete stream (publishers_by_stream_id r),
                     publishers_by_session_id := AList.delete session (publishers_by_session_id r)\<rparr>))"

definition remove_subscriber_session :: "string \<Rightarrow> 'o stream_registry \<Rightarrow> (stream_registry_error + unit) \<times> 'o stream_registry" where
  "remove_subscriber_session session r =
     (case map_of (subscribers_by_session_id r) session of
        None \<Rightarrow> (Inl subscriber_session_not_found, r)
      | Some a \<Rightarrow> (Inr (), r\<lparr>subscribers_by_session_id := AList.delete session (subscribers_by_session_id r)\<rparr>))"

definition remove_subscriber_sessions_by_stream_id :: "string \<Rightarrow> 'o stream_registry \<Rightarrow> nat list \<times> 'o stream_registry" where
  "remove_subscriber_sessions_by_stream_id stream r =
     (let of_stream = (\<lambda>(session, a). stream_id_of (heap r ! a) = stream) in
      (map snd (filter of_stream (subscribers_by_session_id r)),
       r\<lparr>subscribers_by_session_id := filter (\<lambda>x. \<not> of_stream x) (subscribers_by_session_id r)\<rparr>))"

definition session_snapshot :: "stream_session_kind \<Rightarrow> 'o media_session \<Rightarrow> stream_session_lifecycle_snapshot" where
  "session_snapshot k s = \<lparr>snapshot_kind = k, snapshot_stream_id = stream_id_of s, snapshot_session_id = session_id_of s,
     snapshot_created_at = created_at_milliseconds s, snapshot_updated_at = updated_at_milliseconds s\<rparr>"

definition session_lifecycle_snapshots :: "'o stream_registry \<Rightarrow> stream_session_lifecycle_snapshot list" where
  "session_lifecycle_snapshots r =
     map (\<lambda>(session, a). session_snapshot publisher (heap r ! a)) (publishers_by_session_id r)
     @ map (\<lambda>(session, a). session_snapshot subscriber (heap r ! a)) (subscribers_by_session_id r)"

text \<open>A session is changed through its pointer.\<close>

definition update_session :: "nat \<Rightarrow> ('o media_session \<Rightarrow> 'o media_session) \<Rightarrow> 'o stream_registry \<Rightarrow> 'o stream_registry" where
  "update_session a f r = r\<lparr>heap := (heap r)[a := f (heap r ! a)]\<rparr>"

section \<open>Unique session ids\<close>

fun drawn :: "('s \<Rightarrow> nat \<times> 's) \<Rightarrow> nat \<Rightarrow> 's \<Rightarrow> string \<times> 's" where
  "drawn draw 0 s = random_string draw 24 s"
| "drawn draw (Suc n) s = drawn draw n (snd (random_string draw 24 s))"

definition in_use :: "'o stream_registry \<Rightarrow> string \<Rightarrow> bool" where
  "in_use r session \<longleftrightarrow> contains (publishers_by_session_id r) session \<or> contains (subscribers_by_session_id r) session"

lemma make_unique_session_id_step:
  "make_unique_session_id draw r s =
     (if in_use r (fst (random_string draw 24 s)) then make_unique_session_id draw r (snd (random_string draw 24 s))
      else Some (random_string draw 24 s))"
  by (subst make_unique_session_id.simps) (simp add: in_use_def split: prod.splits)

lemma make_unique_session_id_first:
  "\<not> in_use r (fst (drawn draw n s)) \<Longrightarrow> \<forall>i < n. in_use r (fst (drawn draw i s)) \<Longrightarrow>
   make_unique_session_id draw r s = Some (drawn draw n s)"
proof (induction n arbitrary: s)
  case 0
  then show ?case by (simp add: make_unique_session_id_step [of draw r s])
next
  case (Suc n)
  have "in_use r (fst (random_string draw 24 s))" using Suc.prems(2) by force
  moreover have "\<forall>i < n. in_use r (fst (drawn draw i (snd (random_string draw 24 s))))" using Suc.prems(2) by force
  ultimately show ?case using Suc.IH [of "snd (random_string draw 24 s)"] Suc.prems(1)
    by (simp add: make_unique_session_id_step [of draw r s])
qed

lemma make_unique_session_id_result:
  assumes "make_unique_session_id draw r s = Some y"
  shows "\<exists>n. drawn draw n s = y \<and> \<not> in_use r (fst y)"
proof (rule make_unique_session_id.raw_induct [OF _ assms])
  fix f :: "('s \<Rightarrow> nat \<times> 's) \<Rightarrow> 'o stream_registry \<Rightarrow> 's \<Rightarrow> (string \<times> 's) option"
    and draw :: "'s \<Rightarrow> nat \<times> 's" and r :: "'o stream_registry" and s y
  assume IH: "\<And>draw r s y. f draw r s = Some y \<Longrightarrow> \<exists>n. drawn draw n s = y \<and> \<not> in_use r (fst y)"
    and body: "(case random_string draw 24 s of (session, s) \<Rightarrow>
        if contains (publishers_by_session_id r) session then f draw r s
        else if contains (subscribers_by_session_id r) session then f draw r s else Some (session, s)) = Some y"
  obtain t u where t: "random_string draw 24 s = (t, u)" by fastforce
  show "\<exists>n. drawn draw n s = y \<and> \<not> in_use r (fst y)"
  proof (cases "in_use r t")
    case True
    then have "f draw r u = Some y" using body t by (auto simp: in_use_def split: if_splits)
    from IH [OF this] obtain n where "drawn draw n u = y" "\<not> in_use r (fst y)" by blast
    then show ?thesis using t by (intro exI [of _ "Suc n"]) simp
  next
    case False
    then have "y = (t, u)" using body t by (auto simp: in_use_def)
    then show ?thesis using False t by (intro exI [of _ 0]) simp
  qed
qed

lemma random_string_wf:
  assumes "\<And>s. fst (draw s) < 36"
  shows "length (fst (random_string draw n s)) = n \<and> set (fst (random_string draw n s)) \<subseteq> set random_alphabet"
proof (induction n arbitrary: s)
  case (Suc n)
  have "length random_alphabet = 36" by code_simp
  then have "random_alphabet ! fst (draw s) \<in> set random_alphabet" using assms [of s] by (intro nth_mem) simp
  then show ?case using Suc [of "snd (draw s)"] by (simp add: case_prod_unfold Let_def)
qed simp

lemma drawn_wf:
  assumes "\<And>s. fst (draw s) < 36"
  shows "length (fst (drawn draw n s)) = 24 \<and> set (fst (drawn draw n s)) \<subseteq> set random_alphabet"
  using random_string_wf [OF assms] by (induction n arbitrary: s) simp_all

text \<open>
  Choosing a session id returns exactly when some id that the generator draws is not in use, and it
  returns the first such id: 24 characters of the alphabet, different from the id of every session
  in the registry.
\<close>

theorem session_id_choice_terminates:
  "make_unique_session_id draw r s =
     (if \<exists>n. \<not> in_use r (fst (drawn draw n s))
      then Some (drawn draw (LEAST n. \<not> in_use r (fst (drawn draw n s))) s) else None)
   \<and> ((\<forall>s. fst (draw s) < 36) \<longrightarrow> (\<forall>session s'. make_unique_session_id draw r s = Some (session, s') \<longrightarrow>
        length session = 24 \<and> set session \<subseteq> set random_alphabet \<and> \<not> in_use r session))"
proof (intro conjI impI allI)
  show "make_unique_session_id draw r s = (if \<exists>n. \<not> in_use r (fst (drawn draw n s))
      then Some (drawn draw (LEAST n. \<not> in_use r (fst (drawn draw n s))) s) else None)"
  proof (cases "\<exists>n. \<not> in_use r (fst (drawn draw n s))")
    case True
    then have "\<not> in_use r (fst (drawn draw (LEAST n. \<not> in_use r (fst (drawn draw n s))) s))" by (rule LeastI_ex)
    moreover have "\<forall>i < (LEAST n. \<not> in_use r (fst (drawn draw n s))). in_use r (fst (drawn draw i s))"
      using not_less_Least by blast
    ultimately show ?thesis using True make_unique_session_id_first by auto
  next
    case False
    have "make_unique_session_id draw r s = None"
    proof (rule ccontr)
      assume "make_unique_session_id draw r s \<noteq> None"
      then obtain y where "make_unique_session_id draw r s = Some y" by blast
      from make_unique_session_id_result [OF this] False show False by metis
    qed
    then show ?thesis using False by simp
  qed
next
  fix session s'
  assume draw: "\<forall>s. fst (draw s) < 36" and "make_unique_session_id draw r s = Some (session, s')"
  from make_unique_session_id_result [OF this(2)] obtain n where n: "drawn draw n s = (session, s')" "\<not> in_use r session" by auto
  have "length (fst (drawn draw n s)) = 24 \<and> set (fst (drawn draw n s)) \<subseteq> set random_alphabet"
    by (rule drawn_wf) (use draw in blast)
  then show "length session = 24" "set session \<subseteq> set random_alphabet" "\<not> in_use r session" using n by simp_all
qed

text \<open>A generator that counts: after the session \<open>000...\<close> it yields \<open>111...\<close>.\<close>

definition demo_draw :: "nat \<Rightarrow> nat \<times> nat" where
  "demo_draw s = (s div 24 mod 36, s + 1)"

definition demo_registry :: "unit stream_registry" where
  "demo_registry = empty_registry\<lparr>publishers_by_session_id := [(replicate 24 (CHR ''0''), 0)]\<rparr>"

theorem session_id_choice_terminates_witness:
  "\<exists>s'. make_unique_session_id demo_draw demo_registry 0 = Some (replicate 24 (CHR ''1''), s')"
proof -
  have used: "in_use demo_registry (fst (drawn demo_draw 0 0))" "\<not> in_use demo_registry (fst (drawn demo_draw 1 0))"
    "fst (drawn demo_draw 1 0) = replicate 24 (CHR ''1'')" by code_simp+
  have "(LEAST n. \<not> in_use demo_registry (fst (drawn demo_draw n 0))) = 1"
  proof (rule Least_equality)
    fix n assume "\<not> in_use demo_registry (fst (drawn demo_draw n 0))"
    then have "n \<noteq> 0" using used(1) by (metis)
    then show "1 \<le> n" by simp
  qed (rule used(2))
  with session_id_choice_terminates [of demo_draw demo_registry 0] used show ?thesis
    by (metis prod.collapse)
qed

section \<open>Operations on the registry\<close>

datatype 'o registry_op =
  Create_Publisher string 'o u64
| Create_Subscriber string 'o u64
| Remove_Publisher string
| Remove_Subscriber string
| Remove_Subscribers_Of string
| Add_Candidate nat remote_ice_candidate u64

text \<open>One operation; what it returns is given by session ids instead of pointers.\<close>

fun registry_step ::
  "('s \<Rightarrow> nat \<times> 's) \<Rightarrow> 'o registry_op \<Rightarrow> 'o stream_registry \<times> 's \<Rightarrow>
   ((stream_registry_error + string list) \<times> 'o stream_registry \<times> 's) option" where
  "registry_step draw (Create_Publisher stream offer now) (r, s) =
     map_option (\<lambda>(res, r', s'). (map_sum id (\<lambda>a. [session_id_of (heap r' ! a)]) res, r', s'))
       (create_publisher_session draw stream offer now r s)"
| "registry_step draw (Create_Subscriber stream offer now) (r, s) =
     map_option (\<lambda>(res, r', s'). (map_sum id (\<lambda>a. [session_id_of (heap r' ! a)]) res, r', s'))
       (create_subscriber_session draw stream offer now r s)"
| "registry_step draw (Remove_Publisher session) (r, s) =
     (let (res, r') = remove_publisher_session session r in Some (map_sum id (\<lambda>_. []) res, r', s))"
| "registry_step draw (Remove_Subscriber session) (r, s) =
     (let (res, r') = remove_subscriber_session session r in Some (map_sum id (\<lambda>_. []) res, r', s))"
| "registry_step draw (Remove_Subscribers_Of stream) (r, s) =
     (let (sessions, r') = remove_subscriber_sessions_by_stream_id stream r in
      Some (Inr (map (\<lambda>a. session_id_of (heap r ! a)) sessions), r', s))"
| "registry_step draw (Add_Candidate a candidate now) (r, s) =
     (if a < length (heap r)
      then Some (Inr [], update_session a (\<lambda>x. snd (add_remote_ice_candidate candidate now x)) r, s) else None)"

inductive registry_reachable :: "('s \<Rightarrow> nat \<times> 's) \<Rightarrow> 'o stream_registry \<times> 's \<Rightarrow> bool" for draw where
  start: "registry_reachable draw (empty_registry, s)"
| step: "registry_reachable draw (r, s) \<Longrightarrow> registry_step draw op (r, s) = Some (out, r', s') \<Longrightarrow>
     registry_reachable draw (r', s')"

definition maps_wf ::
  "(string \<Rightarrow> nat option) \<Rightarrow> (string \<Rightarrow> nat option) \<Rightarrow> (string \<Rightarrow> nat option) \<Rightarrow> 'o media_session list \<Rightarrow> bool" where
  "maps_wf streams pubs subs h \<longleftrightarrow>
     (\<forall>stream a. streams stream = Some a \<longrightarrow> stream_id_of (h ! a) = stream \<and> pubs (session_id_of (h ! a)) = Some a) \<and>
     (\<forall>session a. pubs session = Some a \<longrightarrow> a < length h \<and> session_id_of (h ! a) = session
        \<and> streams (stream_id_of (h ! a)) = Some a \<and> subs session = None) \<and>
     (\<forall>session a. subs session = Some a \<longrightarrow> a < length h \<and> session_id_of (h ! a) = session)"

definition registry_wf :: "'o stream_registry \<Rightarrow> bool" where
  "registry_wf r \<longleftrightarrow> distinct (map fst (publishers_by_session_id r)) \<and> distinct (map fst (subscribers_by_session_id r)) \<and>
     maps_wf (map_of (publishers_by_stream_id r)) (map_of (publishers_by_session_id r)) (map_of (subscribers_by_session_id r)) (heap r)"

lemma maps_wfD:
  assumes "maps_wf streams pubs subs h"
  shows "streams stream = Some a \<Longrightarrow> a < length h \<and> stream_id_of (h ! a) = stream \<and> pubs (session_id_of (h ! a)) = Some a"
    and "pubs session = Some a \<Longrightarrow> a < length h \<and> session_id_of (h ! a) = session
        \<and> streams (stream_id_of (h ! a)) = Some a \<and> subs session = None"
    and "subs session = Some a \<Longrightarrow> a < length h \<and> session_id_of (h ! a) = session \<and> pubs session = None"
proof -
  show p: "pubs session = Some a \<Longrightarrow> a < length h \<and> session_id_of (h ! a) = session
        \<and> streams (stream_id_of (h ! a)) = Some a \<and> subs session = None" for session a
    using assms unfolding maps_wf_def by blast
  show "streams stream = Some a \<Longrightarrow> a < length h \<and> stream_id_of (h ! a) = stream \<and> pubs (session_id_of (h ! a)) = Some a"
    using assms p unfolding maps_wf_def by blast
  show "subs session = Some a \<Longrightarrow> a < length h \<and> session_id_of (h ! a) = session \<and> pubs session = None"
    using assms p unfolding maps_wf_def by (metis not_None_eq option.distinct(1))
qed

lemma maps_wf_append:
  assumes wf: "maps_wf streams pubs subs h"
  shows "maps_wf streams pubs subs (h @ [x])"
  unfolding maps_wf_def
  by (auto simp: nth_append dest: maps_wfD(1) [OF wf] maps_wfD(2) [OF wf] maps_wfD(3) [OF wf])

lemma maps_wf_publisher:
  assumes wf: "maps_wf streams pubs subs h" and "streams (stream_id_of x) = None"
    and "pubs (session_id_of x) = None" "subs (session_id_of x) = None"
  shows "maps_wf (streams(stream_id_of x \<mapsto> length h)) (pubs(session_id_of x \<mapsto> length h)) subs (h @ [x])"
proof -
  have h: "streams st = Some a \<Longrightarrow> st \<noteq> stream_id_of x \<and> (h @ [x]) ! a = h ! a \<and> a < length h" "pubs se = Some a \<Longrightarrow> se \<noteq> session_id_of x \<and> (h @ [x]) ! a = h ! a \<and> a < length h"
    for st se a using maps_wfD [OF wf] assms(2,3) by (auto simp: nth_append)
  show ?thesis
    using maps_wf_append [OF wf, of x] h assms(2-4) maps_wfD [OF wf] unfolding maps_wf_def
    by (auto split: if_splits)
qed

lemma maps_wf_subscriber:
  assumes wf: "maps_wf streams pubs subs h" and "pubs (session_id_of x) = None"
  shows "maps_wf streams pubs (subs(session_id_of x \<mapsto> length h)) (h @ [x])"
  using maps_wf_append [OF wf, of x] assms(2) unfolding maps_wf_def by auto

lemma maps_wf_remove_publisher:
  assumes wf: "maps_wf streams pubs subs h" and "pubs session = Some a"
  shows "maps_wf (streams(stream_id_of (h ! a) := None)) (pubs(session := None)) subs h"
  using maps_wfD [OF wf] assms(2) unfolding maps_wf_def by (auto split: if_splits) metis+

lemma maps_wf_remove_subscribers:
  assumes "maps_wf streams pubs subs h" and "\<And>session a. subs' session = Some a \<Longrightarrow> subs session = Some a"
  shows "maps_wf streams pubs subs' h"
proof -
  have "subs' session = None" if "pubs session = Some a" for session a
    using maps_wfD(2) [OF assms(1) that] assms(2) [of session] by (cases "subs' session") auto
  then show ?thesis
    unfolding maps_wf_def
    by (auto dest: maps_wfD(1) [OF assms(1)] maps_wfD(2) [OF assms(1)] maps_wfD(3) [OF assms(1) assms(2)])
qed

lemma maps_wf_update:
  assumes "maps_wf streams pubs subs h" and "session_id_of x = session_id_of (h ! a)" and "stream_id_of x = stream_id_of (h ! a)"
  shows "maps_wf streams pubs subs (h[a := x])"
proof -
  have same: "session_id_of (h[a := x] ! b) = session_id_of (h ! b)" "stream_id_of (h[a := x] ! b) = stream_id_of (h ! b)" for b
    using assms(2,3) by (cases "b = a"; cases "a < length h"; simp add: list_update_beyond)+
  show ?thesis using assms(1) unfolding maps_wf_def same by simp
qed

section \<open>The contract of the registry\<close>

text \<open>
  What the registry is: the session that publishes each stream, and the stream of each subscriber.
  The specification of an operation relates this state before and after it and the result.
\<close>

type_synonym registry_spec = "(string \<Rightarrow> string option) \<times> (string \<Rightarrow> string option)"

definition abs_pubs :: "(string \<Rightarrow> nat option) \<Rightarrow> 'o media_session list \<Rightarrow> string \<Rightarrow> string option" where
  "abs_pubs streams h stream = map_option (\<lambda>a. session_id_of (h ! a)) (streams stream)"

definition abs_subs :: "(string \<Rightarrow> nat option) \<Rightarrow> 'o media_session list \<Rightarrow> string \<Rightarrow> string option" where
  "abs_subs subs h session = map_option (\<lambda>a. stream_id_of (h ! a)) (subs session)"

definition registry_abs :: "'o stream_registry \<Rightarrow> registry_spec" where
  "registry_abs r = (abs_pubs (map_of (publishers_by_stream_id r)) (heap r), abs_subs (map_of (subscribers_by_session_id r)) (heap r))"

fun spec_step :: "'o registry_op \<Rightarrow> registry_spec \<Rightarrow> stream_registry_error + string list \<Rightarrow> registry_spec \<Rightarrow> bool" where
  "spec_step (Create_Publisher stream offer now) (pubs, subs) out (pubs', subs') =
     (if stream \<in> dom pubs then out = Inl stream_already_has_publisher \<and> pubs' = pubs \<and> subs' = subs
      else \<exists>session. out = Inr [session] \<and> session \<notin> ran pubs \<union> dom subs \<and> pubs' = pubs(stream \<mapsto> session) \<and> subs' = subs)"
| "spec_step (Create_Subscriber stream offer now) (pubs, subs) out (pubs', subs') =
     (if stream \<notin> dom pubs then out = Inl publisher_not_found \<and> pubs' = pubs \<and> subs' = subs
      else \<exists>session. out = Inr [session] \<and> session \<notin> ran pubs \<union> dom subs \<and> pubs' = pubs \<and> subs' = subs(session \<mapsto> stream))"
| "spec_step (Remove_Publisher session) (pubs, subs) out (pubs', subs') =
     (subs' = subs \<and>
      (if session \<in> ran pubs then out = Inr [] \<and> pubs' = (\<lambda>stream. if pubs stream = Some session then None else pubs stream)
       else out = Inl publisher_session_not_found \<and> pubs' = pubs))"
| "spec_step (Remove_Subscriber session) (pubs, subs) out (pubs', subs') =
     (pubs' = pubs \<and>
      (if session \<in> dom subs then out = Inr [] \<and> subs' = subs(session := None)
       else out = Inl subscriber_session_not_found \<and> subs' = subs))"
| "spec_step (Remove_Subscribers_Of stream) (pubs, subs) out (pubs', subs') =
     (\<exists>sessions. out = Inr sessions \<and> distinct sessions \<and> set sessions = {session. subs session = Some stream}
        \<and> pubs' = pubs \<and> subs' = (\<lambda>session. if subs session = Some stream then None else subs session))"
| "spec_step (Add_Candidate a candidate now) (pubs, subs) out (pubs', subs') = (out = Inr [] \<and> pubs' = pubs \<and> subs' = subs)"

lemma abs_pubs_Some:
  assumes "maps_wf streams pubs subs h"
  shows "abs_pubs streams h stream = Some session \<longleftrightarrow> (\<exists>a. pubs session = Some a \<and> stream_id_of (h ! a) = stream)"
  using maps_wfD(1) [OF assms] maps_wfD(2) [OF assms] unfolding abs_pubs_def map_option_eq_Some by metis

lemma ran_abs_pubs:
  assumes "maps_wf streams pubs subs h"
  shows "ran (abs_pubs streams h) = dom pubs"
  unfolding ran_def using abs_pubs_Some [OF assms] by auto

lemma dom_abs [simp]: "dom (abs_pubs streams h) = dom streams" "dom (abs_subs subs h) = dom subs"
  by (auto simp: abs_pubs_def abs_subs_def)

lemma abs_append:
  assumes "maps_wf streams pubs subs h"
  shows "abs_pubs streams (h @ [x]) = abs_pubs streams h" and "abs_subs subs (h @ [x]) = abs_subs subs h"
proof -
  show "abs_pubs streams (h @ [x]) = abs_pubs streams h"
  proof
    fix st show "abs_pubs streams (h @ [x]) st = abs_pubs streams h st"
      using maps_wfD(1) [OF assms, of st] by (cases "streams st") (auto simp: abs_pubs_def nth_append)
  qed
  show "abs_subs subs (h @ [x]) = abs_subs subs h"
  proof
    fix se show "abs_subs subs (h @ [x]) se = abs_subs subs h se"
      using maps_wfD(3) [OF assms, of se] by (cases "subs se") (auto simp: abs_subs_def nth_append)
  qed
qed

lemma abs_new:
  assumes "maps_wf streams pubs subs h"
  shows "abs_pubs (streams(stream \<mapsto> length h)) (h @ [x]) = (abs_pubs streams h)(stream \<mapsto> session_id_of x)"
    and "abs_subs (subs(session \<mapsto> length h)) (h @ [x]) = (abs_subs subs h)(session \<mapsto> stream_id_of x)"
  using abs_append [OF assms, of x] by (auto simp: abs_pubs_def abs_subs_def fun_eq_iff)

lemma abs_remove_publisher:
  assumes wf: "maps_wf streams pubs subs h" and a: "pubs session = Some a"
  shows "abs_pubs (streams(stream_id_of (h ! a) := None)) h =
    (\<lambda>stream. if abs_pubs streams h stream = Some session then None else abs_pubs streams h stream)"
proof
  fix st
  have "abs_pubs streams h st = Some session \<longleftrightarrow> st = stream_id_of (h ! a)"
    unfolding abs_pubs_Some [OF wf] using a by auto
  then show "abs_pubs (streams(stream_id_of (h ! a) := None)) h st =
      (if abs_pubs streams h st = Some session then None else abs_pubs streams h st)"
    by (auto simp: abs_pubs_def)
qed

lemma abs_update:
  assumes "session_id_of x = session_id_of (h ! a)" and "stream_id_of x = stream_id_of (h ! a)"
  shows "abs_pubs streams (h[a := x]) = abs_pubs streams h" and "abs_subs subs (h[a := x]) = abs_subs subs h"
proof -
  have "session_id_of (h[a := x] ! b) = session_id_of (h ! b)" "stream_id_of (h[a := x] ! b) = stream_id_of (h ! b)" for b
    using assms by (cases "b = a"; cases "a < length h"; simp add: list_update_beyond)+
  then show "abs_pubs streams (h[a := x]) = abs_pubs streams h" "abs_subs subs (h[a := x]) = abs_subs subs h"
    by (simp_all add: abs_pubs_def abs_subs_def fun_eq_iff)
qed

lemma registry_wf_maps: "registry_wf r \<Longrightarrow>
  maps_wf (map_of (publishers_by_stream_id r)) (map_of (publishers_by_session_id r)) (map_of (subscribers_by_session_id r)) (heap r)"
  by (simp add: registry_wf_def)

lemma in_use_iff: "in_use r session \<longleftrightarrow> session \<in> dom (map_of (publishers_by_session_id r)) \<union> dom (map_of (subscribers_by_session_id r))"
  by (auto simp: in_use_def contains_def)

lemma contains_iff: "contains m key \<longleftrightarrow> key \<in> dom (map_of m)"
  by (auto simp: contains_def)

text \<open>Each operation keeps the registry well formed and does what its specification says.\<close>

definition refines_step ::
  "'o registry_op \<Rightarrow> 'o stream_registry \<Rightarrow> stream_registry_error + string list \<Rightarrow> 'o stream_registry \<Rightarrow> bool" where
  "refines_step op r out r' \<longleftrightarrow> registry_wf r' \<and> spec_step op (registry_abs r) out (registry_abs r')"

lemma refines_create_publisher:
  assumes wf: "registry_wf r" and step: "registry_step draw (Create_Publisher stream offer now) (r, s) = Some (out, r', s')"
  shows "refines_step (Create_Publisher stream offer now) r out r'"
proof (cases "contains (publishers_by_stream_id r) stream")
  case True
  then show ?thesis using wf step by (auto simp: refines_step_def registry_abs_def create_publisher_session_def contains_iff)
next
  case False
  obtain session where fresh: "\<not> in_use r session" and r': "r' = r\<lparr>heap := heap r @ [make_media_session session stream offer now],
      publishers_by_session_id := AList.update session (length (heap r)) (publishers_by_session_id r),
      publishers_by_stream_id := AList.update stream (length (heap r)) (publishers_by_stream_id r)\<rparr>" and out: "out = Inr [session]"
    using step False
    by (auto simp: create_publisher_session_def Let_def make_media_session_def split: option.splits
        dest!: make_unique_session_id_result)
  let ?x = "make_media_session session stream offer now"
  have x: "session_id_of ?x = session" "stream_id_of ?x = stream" by (simp_all add: make_media_session_def)
  note maps = registry_wf_maps [OF wf]
  have none: "map_of (publishers_by_stream_id r) stream = None" "map_of (publishers_by_session_id r) session = None"
    "map_of (subscribers_by_session_id r) session = None"
    using False fresh by (auto simp: contains_iff in_use_iff)
  have "registry_wf r'"
    using maps_wf_publisher [OF maps, of ?x] none wf unfolding x
    by (simp add: registry_wf_def r' distinct_update AList.update_conv')
  moreover have "registry_abs r' = ((fst (registry_abs r))(stream \<mapsto> session), snd (registry_abs r))"
    using abs_new(1) [OF maps, of stream ?x] abs_append(2) [OF maps, of ?x] x
    by (simp add: registry_abs_def r' AList.update_conv')
  ultimately show ?thesis
    using out none ran_abs_pubs [OF maps] unfolding refines_step_def registry_abs_def by (auto simp: domIff)
qed

lemma refines_create_subscriber:
  assumes wf: "registry_wf r" and step: "registry_step draw (Create_Subscriber stream offer now) (r, s) = Some (out, r', s')"
  shows "refines_step (Create_Subscriber stream offer now) r out r'"
proof (cases "contains (publishers_by_stream_id r) stream")
  case False
  then show ?thesis using wf step by (auto simp: refines_step_def registry_abs_def create_subscriber_session_def contains_iff)
next
  case True
  obtain session where fresh: "\<not> in_use r session" and r': "r' = r\<lparr>heap := heap r @ [make_media_session session stream offer now],
      subscribers_by_session_id := AList.update session (length (heap r)) (subscribers_by_session_id r)\<rparr>" and out: "out = Inr [session]"
    using step True
    by (auto simp: create_subscriber_session_def Let_def make_media_session_def split: option.splits
        dest!: make_unique_session_id_result)
  let ?x = "make_media_session session stream offer now"
  have x: "session_id_of ?x = session" "stream_id_of ?x = stream" by (simp_all add: make_media_session_def)
  note maps = registry_wf_maps [OF wf]
  have none: "map_of (publishers_by_session_id r) session = None" "map_of (subscribers_by_session_id r) session = None"
    using fresh by (auto simp: in_use_iff)
  have "registry_wf r'"
    using maps_wf_subscriber [OF maps, of ?x] none wf unfolding x
    by (simp add: registry_wf_def r' distinct_update AList.update_conv')
  moreover have "registry_abs r' = (fst (registry_abs r), (snd (registry_abs r))(session \<mapsto> stream))"
    using abs_new(2) [OF maps, of session ?x] abs_append(1) [OF maps, of ?x] x
    by (simp add: registry_abs_def r' AList.update_conv')
  ultimately show ?thesis
    using out none True ran_abs_pubs [OF maps] unfolding refines_step_def registry_abs_def contains_iff by (auto simp: domIff)
qed

lemma refines_remove_publisher:
  assumes wf: "registry_wf r" and step: "registry_step draw (Remove_Publisher session) (r, s) = Some (out, r', s')"
  shows "refines_step (Remove_Publisher session) r out r'"
proof (cases "map_of (publishers_by_session_id r) session")
  case None
  then show ?thesis using wf step ran_abs_pubs [OF registry_wf_maps [OF wf]]
    by (auto simp: refines_step_def registry_abs_def remove_publisher_session_def)
next
  case (Some a)
  note maps = registry_wf_maps [OF wf]
  have r': "r' = r\<lparr>publishers_by_stream_id := AList.delete (stream_id_of (heap r ! a)) (publishers_by_stream_id r),
      publishers_by_session_id := AList.delete session (publishers_by_session_id r)\<rparr>" and out: "out = Inr []"
    using step Some by (auto simp: remove_publisher_session_def Let_def)
  have "registry_wf r'"
    using maps_wf_remove_publisher [OF maps Some] wf
    by (simp add: registry_wf_def r' distinct_delete AList.delete_conv')
  moreover have "registry_abs r' = (\<lambda>stream. if fst (registry_abs r) stream = Some session then None else fst (registry_abs r) stream,
      snd (registry_abs r))"
    using abs_remove_publisher [OF maps Some] unfolding registry_abs_def r' fst_conv snd_conv by (simp add: AList.delete_conv')
  ultimately show ?thesis
    using out Some ran_abs_pubs [OF maps] unfolding refines_step_def registry_abs_def by (auto simp: domIff)
qed

lemma refines_remove_subscriber:
  assumes wf: "registry_wf r" and step: "registry_step draw (Remove_Subscriber session) (r, s) = Some (out, r', s')"
  shows "refines_step (Remove_Subscriber session) r out r'"
proof (cases "map_of (subscribers_by_session_id r) session")
  case None
  then show ?thesis using wf step by (auto simp: refines_step_def registry_abs_def remove_subscriber_session_def)
next
  case (Some a)
  note maps = registry_wf_maps [OF wf]
  have r': "r' = r\<lparr>subscribers_by_session_id := AList.delete session (subscribers_by_session_id r)\<rparr>" and out: "out = Inr []"
    using step Some by (auto simp: remove_subscriber_session_def)
  have sub: "((map_of (subscribers_by_session_id r))(session := None)) x = Some b \<Longrightarrow>
      map_of (subscribers_by_session_id r) x = Some b" for x b
    by (cases "x = session") simp_all
  have "maps_wf (map_of (publishers_by_stream_id r)) (map_of (publishers_by_session_id r))
      ((map_of (subscribers_by_session_id r))(session := None)) (heap r)"
    by (rule maps_wf_remove_subscribers [OF maps]) (rule sub)
  then have "registry_wf r'" using wf by (simp add: registry_wf_def r' distinct_delete AList.delete_conv')
  moreover have "registry_abs r' = (fst (registry_abs r), (snd (registry_abs r))(session := None))"
    by (auto simp: registry_abs_def r' AList.delete_conv' abs_subs_def fun_eq_iff)
  ultimately show ?thesis using out Some unfolding refines_step_def registry_abs_def by (auto simp: domIff)
qed

lemma map_of_filter_distinct:
  assumes "distinct (map fst xs)"
  shows "map_of (filter (\<lambda>(k, v). P v) xs) k = (case map_of xs k of None \<Rightarrow> None | Some v \<Rightarrow> if P v then Some v else None)"
  using assms by (induction xs) (auto simp: image_iff dest: map_of_SomeD split: option.splits)

lemma refines_remove_subscribers_of:
  assumes wf: "registry_wf r" and step: "registry_step draw (Remove_Subscribers_Of stream) (r, s) = Some (out, r', s')"
  shows "refines_step (Remove_Subscribers_Of stream) r out r'"
proof -
  note maps = registry_wf_maps [OF wf]
  let ?subs = "subscribers_by_session_id r" and ?h = "heap r"
  let ?gone = "filter (\<lambda>(session, a). stream_id_of (?h ! a) = stream) ?subs"
  have dist: "distinct (map fst ?subs)" using wf by (simp add: registry_wf_def)
  have r': "r' = r\<lparr>subscribers_by_session_id := filter (\<lambda>(session, a). stream_id_of (?h ! a) \<noteq> stream) ?subs\<rparr>"
    and out: "out = Inr (map (\<lambda>x. session_id_of (?h ! snd x)) ?gone)"
    using step by (auto simp: remove_subscriber_sessions_by_stream_id_def Let_def case_prod_unfold)
  have ids: "map (\<lambda>x. session_id_of (?h ! snd x)) ?gone = map fst ?gone"
    using maps_wfD(3) [OF maps] dist by (intro map_cong) auto
  have kept: "map_of (filter (\<lambda>(session, a). stream_id_of (?h ! a) \<noteq> stream) ?subs) session =
      (case map_of ?subs session of None \<Rightarrow> None | Some a \<Rightarrow> if stream_id_of (?h ! a) \<noteq> stream then Some a else None)" for session
    by (rule map_of_filter_distinct [OF dist])
  have sub: "map_of (filter (\<lambda>(session, a). stream_id_of (?h ! a) \<noteq> stream) ?subs) x = Some b \<Longrightarrow> map_of ?subs x = Some b" for x b
    unfolding kept by (cases "map_of ?subs x") (auto split: if_splits)
  have "maps_wf (map_of (publishers_by_stream_id r)) (map_of (publishers_by_session_id r))
      (map_of (filter (\<lambda>(session, a). stream_id_of (?h ! a) \<noteq> stream) ?subs)) ?h"
    by (rule maps_wf_remove_subscribers [OF maps]) (rule sub)
  then have "registry_wf r'" using wf by (simp add: registry_wf_def r' distinct_map_filter)
  moreover have "registry_abs r' = (fst (registry_abs r), \<lambda>session. if snd (registry_abs r) session = Some stream then None else snd (registry_abs r) session)"
    by (auto simp: registry_abs_def r' abs_subs_def kept fun_eq_iff split: option.splits)
  moreover have "set (map fst ?gone) = {session. snd (registry_abs r) session = Some stream}"
    using map_of_eq_Some_iff [OF dist] by (force simp: registry_abs_def abs_subs_def)
  moreover have "distinct (map fst ?gone)" using dist by (simp add: distinct_map_filter)
  ultimately show ?thesis unfolding refines_step_def out ids registry_abs_def fst_conv snd_conv by simp
qed

lemma refines_add_candidate:
  assumes wf: "registry_wf r" and step: "registry_step draw (Add_Candidate a candidate now) (r, s) = Some (out, r', s')"
  shows "refines_step (Add_Candidate a candidate now) r out r'"
proof -
  let ?x = "snd (add_remote_ice_candidate candidate now (heap r ! a))"
  have x: "session_id_of ?x = session_id_of (heap r ! a)" "stream_id_of ?x = stream_id_of (heap r ! a)"
    by (auto simp: add_remote_ice_candidate_def Let_def)
  have r': "r' = r\<lparr>heap := (heap r)[a := ?x]\<rparr>" "out = Inr []" using step by (auto simp: update_session_def split: if_splits)
  show ?thesis
    using maps_wf_update [OF registry_wf_maps [OF wf] x] abs_update [OF x] wf
    by (simp add: refines_step_def registry_wf_def registry_abs_def r')
qed

lemma registry_step_refines:
  assumes "registry_wf r" and "registry_step draw op (r, s) = Some (out, r', s')"
  shows "refines_step op r out r'"
proof (cases op)
  case (Create_Publisher stream offer now)
  from refines_create_publisher [OF assms(1) assms(2) [unfolded this]] show ?thesis unfolding Create_Publisher .
next
  case (Create_Subscriber stream offer now)
  from refines_create_subscriber [OF assms(1) assms(2) [unfolded this]] show ?thesis unfolding Create_Subscriber .
next
  case (Remove_Publisher session)
  from refines_remove_publisher [OF assms(1) assms(2) [unfolded this]] show ?thesis unfolding Remove_Publisher .
next
  case (Remove_Subscriber session)
  from refines_remove_subscriber [OF assms(1) assms(2) [unfolded this]] show ?thesis unfolding Remove_Subscriber .
next
  case (Remove_Subscribers_Of stream)
  from refines_remove_subscribers_of [OF assms(1) assms(2) [unfolded this]] show ?thesis unfolding Remove_Subscribers_Of .
next
  case (Add_Candidate a candidate now)
  from refines_add_candidate [OF assms(1) assms(2) [unfolded this]] show ?thesis unfolding Add_Candidate .
qed

lemma registry_reachable_wf: "registry_reachable draw (r, s) \<Longrightarrow> registry_wf r"
proof (induction "(r, s)" arbitrary: r s rule: registry_reachable.induct)
  case (start s)
  then show ?case by (simp add: registry_wf_def maps_wf_def empty_registry_def)
next
  case (step r s op out r' s')
  then show ?case using registry_step_refines [of r draw op s out r' s'] by (simp add: refines_step_def)
qed

section \<open>Properties\<close>

text \<open>
  C6. The registry keeps its contract: a stream has at most one publisher, which is created, found and
  removed under one session id; ids of sessions are never given twice; subscribers are admitted only
  to published streams and stay when the publisher goes; and each operation reports exactly the
  outcome and makes exactly the change that the specification \<open>spec_step\<close> states.
\<close>

theorem registry_refines_specification:
  assumes "registry_reachable draw (r, s)" and "registry_step draw op (r, s) = Some (out, r', s')"
  shows "spec_step op (registry_abs r) out (registry_abs r')"
  using registry_step_refines [OF registry_reachable_wf [OF assms(1)] assms(2)] by (simp add: refines_step_def)

theorem registry_refines_specification_witness:
  "\<exists>session r'. spec_step (Create_Publisher ''live'' () 0) (registry_abs (empty_registry :: unit stream_registry)) (Inr [session])
     (registry_abs (r' :: unit stream_registry))"
proof -
  have "\<not> in_use empty_registry (fst (drawn demo_draw 0 0))" by code_simp
  then have "make_unique_session_id demo_draw (empty_registry :: unit stream_registry) 0 = Some (drawn demo_draw 0 0)"
    by (intro make_unique_session_id_first) simp_all
  moreover obtain t u where "drawn demo_draw 0 0 = (t, u)" by fastforce
  ultimately obtain session r' s' where
    "registry_step demo_draw (Create_Publisher ''live'' () 0) (empty_registry, 0) = Some (Inr [session], r', s')"
    by (auto simp: create_publisher_session_def contains_def empty_registry_def Let_def make_media_session_def)
  from registry_refines_specification [OF registry_reachable.start this] show ?thesis by blast
qed

text \<open>
  A session that is found by its stream is found by its id, and the other way round, and it is the
  same object: what is changed through one pointer is seen through the other. No id belongs to a
  publisher and a subscriber.
\<close>

theorem publisher_indexes_agree:
  assumes "registry_reachable draw (r, s)"
  shows "(find_publisher_by_stream_id stream r = Some a \<longleftrightarrow>
            (\<exists>session. find_publisher_by_session_id session r = Some a \<and> stream_id_of (heap r ! a) = stream))
    \<and> (find_publisher_by_session_id session r = Some a \<longrightarrow> session_id_of (heap r ! a) = session \<and> a < length (heap r)
        \<and> find_subscriber_by_session_id session r = None)"
  using maps_wfD(1) [OF registry_wf_maps [OF registry_reachable_wf [OF assms]]]
    maps_wfD(2) [OF registry_wf_maps [OF registry_reachable_wf [OF assms]]]
  unfolding find_publisher_by_stream_id_def find_publisher_by_session_id_def find_subscriber_by_session_id_def by metis

definition demo_published :: "unit stream_registry" where
  "demo_published = fst (snd (the (registry_step demo_draw (Create_Publisher ''live'' () 0) (empty_registry, 0))))"

theorem publisher_indexes_agree_witness:
  "\<exists>session. find_publisher_by_stream_id ''live'' demo_published = Some 0
     \<and> find_publisher_by_session_id session demo_published = Some 0
     \<and> find_subscriber_by_session_id session demo_published = None"
proof -
  have "\<not> in_use (empty_registry :: unit stream_registry) (fst (drawn demo_draw 0 0))" by code_simp
  then have "make_unique_session_id demo_draw (empty_registry :: unit stream_registry) 0 = Some (drawn demo_draw 0 0)"
    by (intro make_unique_session_id_first) simp_all
  moreover obtain t u where "drawn demo_draw 0 0 = (t, u)" by fastforce
  ultimately obtain out s' where
    step: "registry_step demo_draw (Create_Publisher ''live'' () 0) (empty_registry, 0) = Some (out, demo_published, s')"
      "find_publisher_by_stream_id ''live'' demo_published = Some 0"
    unfolding demo_published_def find_publisher_by_stream_id_def
    by (auto simp: create_publisher_session_def contains_def empty_registry_def Let_def)
  show ?thesis
    using publisher_indexes_agree [OF registry_reachable.step [OF registry_reachable.start step(1)]] step(2) by blast
qed

fun add_all :: "(remote_ice_candidate \<times> u64) list \<Rightarrow> 'o media_session \<Rightarrow> 'o media_session" where
  "add_all [] s = s"
| "add_all ((c, now) # cs) s = add_all cs (snd (add_remote_ice_candidate c now s))"

definition candidate_list_ok :: "remote_ice_candidate list \<Rightarrow> bool" where
  "candidate_list_ok cs \<longleftrightarrow> (\<exists>reals ends. cs = reals @ ends \<and> length reals \<le> 256
     \<and> list_all (\<lambda>c. \<not> end_of_candidates c) reals \<and> list_all end_of_candidates ends)"

lemma candidate_list_add:
  assumes "candidate_list_ok (remote_ice_candidates s)"
  shows "candidate_list_ok (remote_ice_candidates (snd (add_remote_ice_candidate c now s)))"
proof -
  obtain reals ends where l: "remote_ice_candidates s = reals @ ends" "length reals \<le> 256"
    "list_all (\<lambda>c. \<not> end_of_candidates c) reals" "list_all end_of_candidates ends"
    using assms by (auto simp: candidate_list_ok_def)
  consider "end_of_candidates c" | "\<not> end_of_candidates c" "remote_ice_completed s \<or> length (remote_ice_candidates s) \<ge> 256"
    | "\<not> end_of_candidates c" "\<not> remote_ice_completed s" "length (remote_ice_candidates s) < 256"
    by linarith
  then show ?thesis
  proof cases
    case 1
    then have "remote_ice_candidates (snd (add_remote_ice_candidate c now s)) = reals @ (ends @ [c])"
      using l(1) by (simp add: add_remote_ice_candidate_def)
    then show ?thesis using l 1 unfolding candidate_list_ok_def by (intro exI [of _ reals] exI [of _ "ends @ [c]"]) simp
  next
    case 2
    then show ?thesis using assms by (auto simp: add_remote_ice_candidate_def)
  next
    case 3
    then have "ends = []" using l(1,4) by (cases ends rule: rev_cases) (auto simp: remote_ice_completed_def)
    then have "remote_ice_candidates (snd (add_remote_ice_candidate c now s)) = (reals @ [c]) @ []"
      using l(1) 3 by (simp add: add_remote_ice_candidate_def)
    then show ?thesis using l 3 \<open>ends = []\<close> unfolding candidate_list_ok_def
      by (intro exI [of _ "reals @ [c]"] exI [of _ "[]"]) simp
  qed
qed

text \<open>
  A session accepts at most 256 remote candidates and none after the end of candidates; but the end
  mark itself is accepted without limit: a session that has been sent \<open>n\<close> end marks stores \<open>n\<close> entries.
\<close>

theorem remote_candidates_bounded:
  "(\<exists>reals ends. remote_ice_candidates (add_all cs (make_media_session session stream offer now)) = reals @ ends
      \<and> length reals \<le> 256 \<and> list_all (\<lambda>c. \<not> end_of_candidates c) reals \<and> list_all end_of_candidates ends)
   \<and> (list_all (end_of_candidates \<circ> fst) cs \<longrightarrow>
        length (remote_ice_candidates (add_all cs (make_media_session session stream offer now))) = length cs)"
proof -
  let ?s = "make_media_session session stream offer now"
  have "candidate_list_ok (remote_ice_candidates s) \<Longrightarrow> candidate_list_ok (remote_ice_candidates (add_all cs s))" for s :: "'o media_session"
    by (induction cs s rule: add_all.induct) (auto intro: candidate_list_add)
  note shape = this [of ?s]
  have "candidate_list_ok (remote_ice_candidates (make_media_session session stream offer now))"
    by (simp add: make_media_session_def candidate_list_ok_def)
  moreover have count: "list_all (end_of_candidates \<circ> fst) cs \<Longrightarrow>
      length (remote_ice_candidates (add_all cs s)) = length (remote_ice_candidates s) + length cs" for s :: "'o media_session"
    by (induction cs s rule: add_all.induct) (auto simp: add_remote_ice_candidate_def)
  ultimately show ?thesis using shape count [of ?s]
    by (simp add: candidate_list_ok_def) (simp add: make_media_session_def)
qed

theorem remote_candidates_bounded_witness:
  "\<exists>c. length (remote_ice_candidates (add_all (replicate 1000 (c, 0)) (make_media_session [] [] () 0))) = 1000"
proof -
  define c where "c = \<lparr>candidate_text = [], candidate_sdp_mid = ''0'', candidate_sdp_mline_index = 0, candidate_address = [],
    candidate_port = 0, address_is_hostname = False, address_is_mdns_hostname = False, end_of_candidates = True\<rparr>"
  have "list_all (end_of_candidates \<circ> fst) (replicate 1000 (c, 0 :: u64))" by (simp add: list_all_iff c_def)
  with remote_candidates_bounded [of "replicate 1000 (c, 0)" "[]" "[]" "()" 0] show ?thesis by (intro exI [of _ c]) simp
qed

end
