(* ===== verification/Video_Keyframe.thy ===== *)
theory Video_Keyframe
  imports Text_Scan "HOL-Library.AList"
begin

unbundle bit_operations_syntax

text \<open>
  Watching for key frames (\<^verbatim>\<open>src/media/video_keyframe_detector.cpp\<close>): from the RTP packets of a VP8
  stream the tracker tells when a whole key frame has passed. Frames are followed per SSRC; the map of
  frames in progress is an association list.
\<close>

section \<open>The payload of an RTP packet\<close>

record rtp_payload_view =
  view_marker :: bool
  view_sequence_number :: u16
  view_timestamp :: u32
  view_ssrc :: u32
  view_payload :: bytes

abbreviation (input) k_rtp_fixed_header_size :: nat where "k_rtp_fixed_header_size \<equiv> 12"
abbreviation (input) k_rtp_csrc_size :: nat where "k_rtp_csrc_size \<equiv> 4"
abbreviation (input) k_rtp_extension_header_size :: nat where "k_rtp_extension_header_size \<equiv> 4"

definition skip_extension :: "bytes \<Rightarrow> bool \<Rightarrow> nat \<Rightarrow> nat result" where
  "skip_extension packet extension offset =
     (if extension then
        if offset + k_rtp_extension_header_size > length packet then make_error ''rtp extension header is truncated''
        else bindE (read_u16 packet (offset + 2)) (\<lambda>words.
          let extension_size = k_rtp_extension_header_size + unat words * 4 in
          if offset + extension_size > length packet then make_error ''rtp extension payload is truncated''
          else Inr (offset + extension_size))
      else Inr offset)"

definition strip_padding :: "bytes \<Rightarrow> bool \<Rightarrow> nat \<Rightarrow> nat result" where
  "strip_padding packet padding offset =
     (let payload_end = length packet in
      if padding then
        if payload_end \<le> offset then make_error ''rtp padding packet has no payload''
        else bindE (read_u8 packet (payload_end - 1)) (\<lambda>padding_size.
          if padding_size = 0 \<or> unat padding_size > payload_end - offset then make_error ''rtp padding size is invalid''
          else Inr (payload_end - unat padding_size))
      else Inr payload_end)"

definition parse_rtp_payload_view :: "bytes \<Rightarrow> rtp_payload_view result" where
  "parse_rtp_payload_view packet =
     (if length packet < k_rtp_fixed_header_size then make_error ''rtp packet is shorter than fixed header''
      else bindE (read_u8 packet 0) (\<lambda>first.
        if drop_bit 6 first \<noteq> 2 then make_error ''rtp version is invalid''
        else
          let padding = (first AND 0x20 \<noteq> 0); extension = (first AND 0x10 \<noteq> 0);
              payload_offset = k_rtp_fixed_header_size + unat (first AND 0x0F) * k_rtp_csrc_size in
          if payload_offset > length packet then make_error ''rtp csrc list is truncated''
          else
            bindE (skip_extension packet extension payload_offset) (\<lambda>payload_offset.
            bindE (strip_padding packet padding payload_offset) (\<lambda>payload_end.
            if payload_offset \<ge> payload_end then make_error ''rtp payload is empty''
            else
              bindE (read_u8 packet 1) (\<lambda>second.
              bindE (read_u16 packet 2) (\<lambda>seq.
              bindE (read_u32 packet 4) (\<lambda>ts.
              bindE (read_u32 packet 8) (\<lambda>src.
              bindE (subspan packet payload_offset (payload_end - payload_offset)) (\<lambda>payload.
              Inr \<lparr>view_marker = (second AND 0x80 \<noteq> 0), view_sequence_number = seq, view_timestamp = ts,
                   view_ssrc = src, view_payload = payload\<rparr>)))))))))"

section \<open>VP8 payload descriptors\<close>

definition skip_picture_id :: "bytes \<Rightarrow> bool \<Rightarrow> nat \<Rightarrow> nat result" where
  "skip_picture_id payload has_picture_id offset =
     (if has_picture_id then
        if offset \<ge> length payload then make_error ''vp8 picture id is truncated''
        else bindE (read_u8 payload offset) (\<lambda>b.
          let offset = offset + (if b AND 0x80 \<noteq> 0 then 2 else 1) in
          if offset > length payload then make_error ''vp8 extended picture id is truncated'' else Inr offset)
      else Inr offset)"

definition skip_vp8_extension :: "bytes \<Rightarrow> bool \<Rightarrow> nat \<Rightarrow> nat result" where
  "skip_vp8_extension payload extension offset =
     (if extension then
        if offset \<ge> length payload then make_error ''vp8 extension bits are truncated''
        else bindE (read_u8 payload offset) (\<lambda>bits.
          bindE (skip_picture_id payload (bits AND 0x80 \<noteq> 0) (offset + 1)) (\<lambda>offset.
          let offset = (if bits AND 0x40 \<noteq> 0 then offset + 1 else offset);
              offset = (if bits AND 0x20 \<noteq> 0 \<or> bits AND 0x10 \<noteq> 0 then offset + 1 else offset) in
          if offset > length payload then make_error ''vp8 payload descriptor extension is truncated'' else Inr offset))
      else Inr offset)"

definition is_vp8_keyframe_start :: "bytes \<Rightarrow> bool result" where
  "is_vp8_keyframe_start payload =
     (if payload = [] then make_error ''vp8 payload descriptor is empty''
      else bindE (read_u8 payload 0) (\<lambda>descriptor.
        bindE (skip_vp8_extension payload (descriptor AND 0x80 \<noteq> 0) 1) (\<lambda>offset.
        if offset \<ge> length payload then make_error ''vp8 frame payload is empty''
        else bindE (read_u8 payload offset) (\<lambda>b.
          Inr (descriptor AND 0x10 \<noteq> 0 \<and> descriptor AND 0x0F = 0 \<and> b AND 0x01 = 0)))))"

section \<open>The tracker\<close>

datatype video_keyframe_observation_state = no_keyframe | started | completed | aborted | unsupported_codec

record video_keyframe_observation =
  observation_state :: video_keyframe_observation_state
  observation_ssrc :: u32
  observation_timestamp :: u32
  observation_codec :: string

record frame_state =
  frame_timestamp :: u32
  next_sequence_number :: u16

type_synonym video_keyframe_tracker = "(u32 \<times> frame_state) list"

definition observe_vp8 ::
  "rtp_payload_view \<Rightarrow> bool \<Rightarrow> video_keyframe_tracker \<Rightarrow> video_keyframe_observation_state \<times> video_keyframe_tracker" where
  "observe_vp8 view keyframe_start t =
     (let ssrc = view_ssrc view;
          begin_frame = (\<lambda>state t.
            if \<not> keyframe_start then (state, t)
            else if view_marker view then (completed, t)
            else (started, AList.update ssrc \<lparr>frame_timestamp = view_timestamp view,
                     next_sequence_number = view_sequence_number view + 1\<rparr> t)) in
      case map_of t ssrc of
        Some active \<Rightarrow>
          if frame_timestamp active \<noteq> view_timestamp view \<or> next_sequence_number active \<noteq> view_sequence_number view
          then begin_frame aborted (AList.delete ssrc t)
          else if view_marker view then (completed, AList.delete ssrc t)
          else (no_keyframe, AList.update ssrc (active\<lparr>next_sequence_number := view_sequence_number view + 1\<rparr>) t)
      | None \<Rightarrow> begin_frame no_keyframe t)"

definition observe ::
  "string \<Rightarrow> bytes \<Rightarrow> video_keyframe_tracker \<Rightarrow> video_keyframe_observation result \<times> video_keyframe_tracker" where
  "observe codec rtp_packet t =
     (case parse_rtp_payload_view rtp_packet of
        Inl e \<Rightarrow> (Inl e, t)
      | Inr view \<Rightarrow>
          let observation = (\<lambda>state. \<lparr>observation_state = state, observation_ssrc = view_ssrc view,
                observation_timestamp = view_timestamp view, observation_codec = codec\<rparr>) in
          if \<not> iequals codec ''VP8''
          then (Inr (observation unsupported_codec), AList.delete (view_ssrc view) t)
          else case is_vp8_keyframe_start (view_payload view) of
            Inl e \<Rightarrow> (Inl e, t)
          | Inr keyframe_start \<Rightarrow>
              let (state, t) = observe_vp8 view keyframe_start t in (Inr (observation state), t))"

definition reset_tracker :: "video_keyframe_tracker \<Rightarrow> video_keyframe_tracker" where
  "reset_tracker t = []"

definition reset_ssrc :: "u32 \<Rightarrow> video_keyframe_tracker \<Rightarrow> video_keyframe_tracker" where
  "reset_ssrc ssrc t = AList.delete ssrc t"

definition video_keyframe_observation_state_to_string :: "video_keyframe_observation_state \<Rightarrow> string" where
  "video_keyframe_observation_state_to_string state =
     (case state of
        no_keyframe \<Rightarrow> ''none'' | started \<Rightarrow> ''started'' | completed \<Rightarrow> ''completed'' | aborted \<Rightarrow> ''aborted''
      | unsupported_codec \<Rightarrow> ''unsupported_codec'')"

section \<open>No read is out of range\<close>

lemma keyframe_parsers_safe [safe]:
  "fault_free (skip_extension packet extension offset)"
  "fault_free (strip_padding packet padding offset)"
  "fault_free (skip_picture_id payload has offset)"
  by (auto simp: skip_extension_def strip_padding_def skip_picture_id_def Let_def intro!: safe)

lemma skip_vp8_extension_safe [safe]: "fault_free (skip_vp8_extension payload extension offset)"
  by (auto simp: skip_vp8_extension_def Let_def intro!: safe)

lemma is_vp8_keyframe_start_safe [safe]: "fault_free (is_vp8_keyframe_start payload)"
  by (auto simp: is_vp8_keyframe_start_def intro!: safe)

lemma strip_padding_le: "strip_padding packet padding offset = Inr e \<Longrightarrow> e \<le> length packet"
  by (auto simp: strip_padding_def Let_def bindE_Inr_iff split: if_splits)

lemma parse_rtp_payload_view_safe [safe]: "fault_free (parse_rtp_payload_view packet)"
  by (auto simp: parse_rtp_payload_view_def Let_def intro!: safe strip_padding_le)

lemma observe_safe: "fault_free (fst (observe codec packet t))"
  using parse_rtp_payload_view_safe [of packet] is_vp8_keyframe_start_safe
  by (auto simp: observe_def fault_free_def Let_def split: sum.splits prod.splits)

section \<open>Whole key frames\<close>

text \<open>
  The packets that the tracker looks at: those that parse and have a VP8 payload descriptor. A whole
  key frame starts with the first packet of a key frame, its packets have one timestamp and
  consecutive sequence numbers, and the last one, and only that, has the marker.
\<close>

definition vp8_view :: "string \<Rightarrow> bytes \<Rightarrow> (rtp_payload_view \<times> bool) option" where
  "vp8_view codec packet =
     (case parse_rtp_payload_view packet of
        Inl e \<Rightarrow> None
      | Inr view \<Rightarrow>
          if \<not> iequals codec ''VP8'' then None
          else case is_vp8_keyframe_start (view_payload view) of Inl e \<Rightarrow> None | Inr start \<Rightarrow> Some (view, start))"

fun vp8_views :: "(string \<times> bytes) list \<Rightarrow> (rtp_payload_view \<times> bool) list" where
  "vp8_views [] = []"
| "vp8_views ((codec, packet) # ps) = (case vp8_view codec packet of None \<Rightarrow> [] | Some v \<Rightarrow> [v]) @ vp8_views ps"

definition of_ssrc :: "u32 \<Rightarrow> (rtp_payload_view \<times> bool) list \<Rightarrow> (rtp_payload_view \<times> bool) list" where
  "of_ssrc ssrc vs = filter (\<lambda>(v, start). view_ssrc v = ssrc) vs"

definition consecutive :: "(rtp_payload_view \<times> bool) list \<Rightarrow> bool" where
  "consecutive vs \<longleftrightarrow> vs \<noteq> [] \<and> snd (hd vs) \<and>
     (\<forall>i < length vs. view_timestamp (fst (vs ! i)) = view_timestamp (fst (hd vs))
        \<and> view_sequence_number (fst (vs ! i)) = view_sequence_number (fst (hd vs)) + of_nat i)"

definition whole_keyframe :: "(rtp_payload_view \<times> bool) list \<Rightarrow> bool" where
  "whole_keyframe vs \<longleftrightarrow> consecutive vs \<and> view_marker (fst (last vs)) \<and> (\<forall>v \<in> set (butlast vs). \<not> view_marker (fst v))"

definition in_progress :: "(rtp_payload_view \<times> bool) list \<Rightarrow> frame_state \<Rightarrow> bool" where
  "in_progress vs active \<longleftrightarrow> consecutive vs \<and> (\<forall>v \<in> set vs. \<not> view_marker (fst v))
     \<and> frame_timestamp active = view_timestamp (fst (hd vs))
     \<and> next_sequence_number active = view_sequence_number (fst (hd vs)) + of_nat (length vs)"

definition tracks :: "(rtp_payload_view \<times> bool) list \<Rightarrow> video_keyframe_tracker \<Rightarrow> bool" where
  "tracks seen t \<longleftrightarrow> (\<forall>ssrc active. map_of t ssrc = Some active \<longrightarrow> (\<exists>us vs. of_ssrc ssrc seen = us @ vs \<and> in_progress vs active))"

lemma consecutive_snoc:
  assumes "consecutive vs" and "view_timestamp (fst v) = view_timestamp (fst (hd vs))"
    and "view_sequence_number (fst v) = view_sequence_number (fst (hd vs)) + of_nat (length vs)"
  shows "consecutive (vs @ [v])"
  using assms by (auto simp: consecutive_def nth_append less_Suc_eq)

lemma consecutive_single: "start \<Longrightarrow> consecutive [(v, start)]"
  by (simp add: consecutive_def)

lemma of_ssrc_snoc: "of_ssrc ssrc (seen @ [(v, start)]) = of_ssrc ssrc seen @ (if view_ssrc v = ssrc then [(v, start)] else [])"
  by (simp add: of_ssrc_def)

lemma tracks_other:
  assumes "tracks seen t" and "\<And>s. s \<noteq> view_ssrc v \<Longrightarrow> map_of t' s = map_of t s"
    and "\<And>active. map_of t' (view_ssrc v) = Some active \<Longrightarrow>
      \<exists>us vs. of_ssrc (view_ssrc v) (seen @ [(v, start)]) = us @ vs \<and> in_progress vs active"
  shows "tracks (seen @ [(v, start)]) t'"
  unfolding tracks_def
proof (intro allI impI)
  fix s active
  assume a: "map_of t' s = Some active"
  show "\<exists>us vs. of_ssrc s (seen @ [(v, start)]) = us @ vs \<and> in_progress vs active"
  proof (cases "s = view_ssrc v")
    case True
    then show ?thesis using assms(3) a by simp
  next
    case False
    then show ?thesis using assms(1) assms(2) [OF False] a by (auto simp: tracks_def of_ssrc_snoc)
  qed
qed

lemma observe_vp8_tracks:
  assumes inv: "tracks seen t" and obs: "observe_vp8 v start t = (state, t')"
  shows "tracks (seen @ [(v, start)]) t'
    \<and> (state = completed \<longrightarrow> (\<exists>us vs. of_ssrc (view_ssrc v) (seen @ [(v, start)]) = us @ vs \<and> whole_keyframe vs))"
proof -
  let ?s = "view_ssrc v"
  let ?seen = "seen @ [(v, start)]"
  have own: "of_ssrc ?s ?seen = of_ssrc ?s seen @ [(v, start)]" by (simp add: of_ssrc_snoc)
  text \<open>A frame that begins with this packet.\<close>
  have first: "in_progress [(v, start)] \<lparr>frame_timestamp = view_timestamp v, next_sequence_number = view_sequence_number v + 1\<rparr>"
    if "start" "\<not> view_marker v"
    using that by (simp add: in_progress_def consecutive_single)
  have single: "whole_keyframe [(v, start)]" if "start" "view_marker v"
    using that by (simp add: whole_keyframe_def consecutive_single)
  have begun: "tracks ?seen t1 \<and> (st = completed \<longrightarrow> (\<exists>us vs. of_ssrc ?s ?seen = us @ vs \<and> whole_keyframe vs))"
    if upd: "(st, t1) = (if \<not> start then (st0, t0) else if view_marker v then (completed, t0)
          else (started, AList.update ?s \<lparr>frame_timestamp = view_timestamp v, next_sequence_number = view_sequence_number v + 1\<rparr> t0))"
      and t0: "\<And>s. s \<noteq> ?s \<Longrightarrow> map_of t0 s = map_of t s" "map_of t0 ?s = None" and ne: "st0 \<noteq> completed" for st st0 t0 t1
  proof -
    consider "t1 = t0" "st = completed \<longrightarrow> start \<and> view_marker v"
      | "start" "\<not> view_marker v" "st = started"
        "t1 = AList.update ?s \<lparr>frame_timestamp = view_timestamp v, next_sequence_number = view_sequence_number v + 1\<rparr> t0"
      using upd ne by (auto split: if_splits)
    then show ?thesis
    proof cases
      case 1
      have "tracks ?seen t1" by (rule tracks_other [OF inv]) (use 1 t0 in auto)
      moreover have "\<exists>us vs. of_ssrc ?s ?seen = us @ vs \<and> whole_keyframe vs" if "st = completed"
        using 1(2) that single own by blast
      ultimately show ?thesis by blast
    next
      case 2
      have "tracks ?seen t1"
        by (rule tracks_other [OF inv]) (use 2 t0 first own in \<open>auto simp: AList.update_conv'\<close>)
      then show ?thesis using 2 by simp
    qed
  qed
  show ?thesis
  proof (cases "map_of t ?s")
    case None
    show ?thesis by (rule begun [of _ _ no_keyframe t]) (use None obs in \<open>auto simp: observe_vp8_def Let_def\<close>)
  next
    case (Some active)
    obtain us vs where vs: "of_ssrc ?s seen = us @ vs" "in_progress vs active"
      using inv Some unfolding tracks_def by blast
    consider "frame_timestamp active \<noteq> view_timestamp v \<or> next_sequence_number active \<noteq> view_sequence_number v"
      | "frame_timestamp active = view_timestamp v" "next_sequence_number active = view_sequence_number v" by blast
    then show ?thesis
    proof cases
      case 1
      show ?thesis
        by (rule begun [of _ _ aborted "AList.delete ?s t"]) (use 1 Some obs in \<open>auto simp: observe_vp8_def Let_def AList.delete_conv'\<close>)
    next
      case 2
      have c: "consecutive (vs @ [(v, start)])" using vs(2) 2 by (intro consecutive_snoc) (auto simp: in_progress_def)
      have hd: "hd (vs @ [(v, start)]) = hd vs" using vs(2) by (auto simp: in_progress_def consecutive_def)
      have split: "of_ssrc ?s ?seen = us @ (vs @ [(v, start)])" using vs(1) own by simp
      show ?thesis
      proof (cases "view_marker v")
        case True
        then have t': "state = completed" "t' = AList.delete ?s t" using obs Some 2 by (auto simp: observe_vp8_def Let_def)
        have "tracks ?seen t'" by (rule tracks_other [OF inv]) (auto simp: t' AList.delete_conv')
        moreover have "whole_keyframe (vs @ [(v, start)])"
          using c True vs(2) by (auto simp: whole_keyframe_def in_progress_def)
        ultimately show ?thesis using split by blast
      next
        case False
        then have t': "state = no_keyframe" "t' = AList.update ?s (active\<lparr>next_sequence_number := view_sequence_number v + 1\<rparr>) t"
          using obs Some 2 by (auto simp: observe_vp8_def Let_def)
        have "in_progress (vs @ [(v, start)]) (active\<lparr>next_sequence_number := view_sequence_number v + 1\<rparr>)"
          using c False vs(2) 2 unfolding in_progress_def hd by (auto simp: ac_simps)
        then have "tracks ?seen t'"
          by (intro tracks_other [OF inv]) (use split in \<open>auto simp: t' AList.update_conv'\<close>)
        then show ?thesis by (simp add: t')
      qed
    qed
  qed
qed

fun run_tracker :: "(string \<times> bytes) list \<Rightarrow> video_keyframe_tracker \<Rightarrow> video_keyframe_tracker" where
  "run_tracker [] t = t"
| "run_tracker ((codec, packet) # ps) t = run_tracker ps (snd (observe codec packet t))"

lemma vp8_views_append: "vp8_views (ps @ qs) = vp8_views ps @ vp8_views qs"
  by (induction ps rule: vp8_views.induct) simp_all

lemma run_tracker_snoc: "run_tracker (ps @ [(codec, packet)]) t = snd (observe codec packet (run_tracker ps t))"
  by (induction ps t rule: run_tracker.induct) simp_all

lemma observe_tracks:
  assumes inv: "tracks (vp8_views ps) t" and obs: "observe codec packet t = (out, t')"
  shows "tracks (vp8_views (ps @ [(codec, packet)])) t'
    \<and> (\<forall>o'. out = Inr o' \<and> observation_state o' = completed \<longrightarrow>
         (\<exists>us vs. of_ssrc (observation_ssrc o') (vp8_views (ps @ [(codec, packet)])) = us @ vs \<and> whole_keyframe vs
            \<and> observation_timestamp o' = view_timestamp (fst (last vs))))"
proof (cases "vp8_view codec packet")
  case None
  have keep: "tracks (vp8_views ps) (AList.delete s t)" for s
    using inv by (auto simp: tracks_def AList.delete_conv')
  show ?thesis using None obs inv keep
    by (auto simp: vp8_view_def vp8_views_append observe_def Let_def split: sum.splits if_splits)
next
  case (Some vs)
  obtain v start where v: "vs = (v, start)" by fastforce
  obtain state t1 where o1: "observe_vp8 v start t = (state, t1)" by fastforce
  have views: "vp8_views (ps @ [(codec, packet)]) = vp8_views ps @ [(v, start)]" using Some v by (simp add: vp8_views_append)
  have out: "out = Inr \<lparr>observation_state = state, observation_ssrc = view_ssrc v, observation_timestamp = view_timestamp v,
      observation_codec = codec\<rparr>" "t' = t1"
    using Some v obs o1 by (auto simp: vp8_view_def observe_def Let_def split: sum.splits if_splits)
  have last: "fst (last vs) = v" if "of_ssrc (view_ssrc v) (vp8_views ps @ [(v, start)]) = us @ vs" "vs \<noteq> []" for us vs
  proof -
    have "of_ssrc (view_ssrc v) (vp8_views ps) @ [(v, start)] = us @ vs" using that(1) by (simp add: of_ssrc_snoc)
    then have "last (us @ vs) = (v, start)" by (metis last_snoc)
    then show ?thesis using that(2) by simp
  qed
  note step = observe_vp8_tracks [OF inv o1]
  have "\<exists>us vs. of_ssrc (view_ssrc v) (vp8_views ps @ [(v, start)]) = us @ vs \<and> whole_keyframe vs
      \<and> view_timestamp v = view_timestamp (fst (last vs))" if fin: "state = completed"
  proof -
    obtain us vs where w: "of_ssrc (view_ssrc v) (vp8_views ps @ [(v, start)]) = us @ vs" "whole_keyframe vs"
      using step [THEN conjunct2, rule_format, OF fin] by (elim exE conjE)
    then have "vs \<noteq> []" by (simp add: whole_keyframe_def consecutive_def)
    from last [OF w(1) this] w show ?thesis by blast
  qed
  note whole = this
  show ?thesis
    unfolding views out
  proof (intro conjI allI impI)
    show "tracks (vp8_views ps @ [(v, start)]) t1" using step by blast
    fix o' assume "Inr \<lparr>observation_state = state, observation_ssrc = view_ssrc v, observation_timestamp = view_timestamp v,
      observation_codec = codec\<rparr> = (Inr o' :: video_keyframe_observation result) \<and> observation_state o' = completed"
    then have "state = completed" "observation_ssrc o' = view_ssrc v" "observation_timestamp o' = view_timestamp v" by auto
    with whole show "\<exists>us vs. of_ssrc (observation_ssrc o') (vp8_views ps @ [(v, start)]) = us @ vs \<and> whole_keyframe vs
        \<and> observation_timestamp o' = view_timestamp (fst (last vs))" by simp
  qed
qed

lemma run_tracker_tracks: "tracks (vp8_views ps) (run_tracker ps [])"
proof (induction ps rule: rev_induct)
  case Nil
  then show ?case by (simp add: tracks_def)
next
  case (snoc p ps)
  obtain codec packet where "p = (codec, packet)" by fastforce
  then show ?case using observe_tracks [OF snoc prod.collapse [symmetric]] by (simp add: run_tracker_snoc)
qed

text \<open>
  C7. When the tracker reports a completed key frame, a whole key frame has passed: the last packets it
  looked at of that SSRC are the first packet of a VP8 key frame and all that follow it up to the
  marker, without a gap in the sequence numbers and with one timestamp. And no packet makes it read
  out of range.
\<close>

theorem completed_means_whole_keyframe:
  assumes "observe codec packet (run_tracker ps []) = (out, t)"
  shows "out \<noteq> Inl OutOfBounds
    \<and> (\<forall>o'. out = Inr o' \<and> observation_state o' = completed \<longrightarrow>
         (\<exists>us vs. of_ssrc (observation_ssrc o') (vp8_views (ps @ [(codec, packet)])) = us @ vs \<and> whole_keyframe vs
            \<and> observation_timestamp o' = view_timestamp (fst (last vs))))"
  using observe_safe [of codec packet "run_tracker ps []"] observe_tracks [OF run_tracker_tracks assms] assms
  by (simp add: fault_free_def)

text \<open>A key frame of two packets on SSRC 9.\<close>

definition demo_keyframe :: "(string \<times> bytes) list" where
  "demo_keyframe = [(''vp8'', [0x80, 96, 0, 1, 0, 0, 0, 5, 0, 0, 0, 9, 0x10, 0x00]),
     (''VP8'', [0x80, 0xE0, 0, 2, 0, 0, 0, 5, 0, 0, 0, 9, 0x00, 0x77])]"

theorem completed_means_whole_keyframe_witness:
  "\<exists>us vs. of_ssrc 9 (vp8_views demo_keyframe) = us @ vs \<and> whole_keyframe vs"
proof -
  let ?t = "run_tracker [hd demo_keyframe] []"
  have "map_sum id (\<lambda>o'. (observation_state o', observation_ssrc o')) (fst (observe ''VP8'' (snd (demo_keyframe ! 1)) ?t)) = Inr (completed, 9)"
    by code_simp
  then obtain o' where o': "fst (observe ''VP8'' (snd (demo_keyframe ! 1)) ?t) = Inr o'" "observation_state o' = completed" "observation_ssrc o' = 9"
    by (cases "fst (observe ''VP8'' (snd (demo_keyframe ! 1)) ?t)") auto
  have "[hd demo_keyframe] @ [(''VP8'', snd (demo_keyframe ! 1))] = demo_keyframe" by (simp add: demo_keyframe_def)
  with completed_means_whole_keyframe [OF prod.collapse [symmetric], of "''VP8''" "snd (demo_keyframe ! 1)" "[hd demo_keyframe]"] o'
  show ?thesis by metis
qed

end
