(* ===== verification/Text_Split.thy ===== *)
theory Text_Split
  imports Text_Scan
begin

text \<open>
  Helpers of the SDP code: signed decimal numbers as \<^verbatim>\<open>std::from_chars\<close> reads them, \<^verbatim>\<open>find_first_of\<close>,
  and \<^verbatim>\<open>boost::algorithm::split\<close> without token compression.
\<close>

section \<open>Signed numbers and separators\<close>

text \<open>
  \<^verbatim>\<open>std::from_chars\<close> into a signed type of \<open>w\<close> bits: the number at the front of a text and the text
  behind it. \<open>None\<close> when there is no number or it does not fit.
\<close>

definition from_chars_prefix :: "nat \<Rightarrow> string \<Rightarrow> (int \<times> string) option" where
  "from_chars_prefix w s =
     (let negative = (s \<noteq> [] \<and> hd s = CHR ''-'');
          body = (if negative then tl s else s);
          digits = takeWhile is_digit body;
          number = (if negative then - int (decimal_value digits) else int (decimal_value digits)) in
      if digits = [] then None
      else if number < - (2 ^ (w - 1)) \<or> number \<ge> 2 ^ (w - 1) then None
      else Some (number, drop (length digits) body))"

text \<open>The same for a text that must be used up (\<^verbatim>\<open>result.ptr == end\<close>).\<close>

definition from_chars_signed :: "nat \<Rightarrow> string \<Rightarrow> int option" where
  "from_chars_signed w s =
     (case from_chars_prefix w s of Some (number, []) \<Rightarrow> Some number | _ \<Rightarrow> None)"

lemma from_chars_prefix_decimal:
  assumes n: "int n < 2 ^ (w - 1)" and s: "s = [] \<or> \<not> is_digit (hd s)"
  shows "from_chars_prefix w (decimal n @ s) = Some (int n, s)"
proof -
  have d: "list_all is_digit (decimal n)" by (rule decimal_digits)
  then have "is_digit (hd (decimal n))" using decimal_nonempty [of n] by (cases "decimal n") auto
  then have neg: "hd (decimal n @ s) \<noteq> CHR ''-''"
    using decimal_nonempty [of n] by (auto simp: is_digit_def hd_append)
  have t: "takeWhile is_digit (decimal n @ s) = decimal n"
    using d s by (cases s) (auto simp: takeWhile_append list_all_iff)
  have "- (2 ^ (w - 1)) \<le> (0::int)" by simp
  then have "\<not> int n < - (2 ^ (w - 1))" by linarith
  then show ?thesis using n neg t by (simp add: from_chars_prefix_def Let_def)
qed

lemma from_chars_signed_decimal: "int n < 2 ^ (w - 1) \<Longrightarrow> from_chars_signed w (decimal n) = Some (int n)"
  using from_chars_prefix_decimal [of n w "[]"] by (simp add: from_chars_signed_def)

lemma from_chars_signed_bounds:
  "from_chars_signed w s = Some v \<Longrightarrow> - (2 ^ (w - 1)) \<le> v \<and> v < 2 ^ (w - 1)"
  by (auto simp: from_chars_signed_def from_chars_prefix_def Let_def split: option.splits list.splits if_splits)

text \<open>\<^verbatim>\<open>std::to_string\<close> of a signed number.\<close>

definition int_to_string :: "int \<Rightarrow> string" where
  "int_to_string i = (if i < 0 then CHR ''-'' # decimal (nat (- i)) else decimal (nat i))"

text \<open>\<^verbatim>\<open>std::isspace\<close> in the C locale (\<^verbatim>\<open>boost::algorithm::is_space\<close>).\<close>

definition is_space :: "char \<Rightarrow> bool" where
  "is_space c \<longleftrightarrow> c = CHR '' '' \<or> 9 \<le> (of_char c :: nat) \<and> (of_char c :: nat) \<le> 13"

text \<open>\<^verbatim>\<open>find_first_of\<close>: the text before the first character of a class and the text behind it.\<close>

definition find_first_of :: "(char \<Rightarrow> bool) \<Rightarrow> string \<Rightarrow> (string \<times> string) option" where
  "find_first_of P s =
     (case dropWhile (\<lambda>x. \<not> P x) s of [] \<Rightarrow> None | c # rest \<Rightarrow> Some (takeWhile (\<lambda>x. \<not> P x) s, rest))"

lemma find_first_of_append:
  "\<forall>x \<in> set a. \<not> P x \<Longrightarrow> P c \<Longrightarrow> find_first_of P (a @ c # s) = Some (a, s)"
  by (simp add: find_first_of_def dropWhile_append takeWhile_append)

lemma find_first_of_none: "\<forall>x \<in> set a. \<not> P x \<Longrightarrow> find_first_of P a = None"
  by (simp add: find_first_of_def dropWhile_eq_Nil_conv [THEN iffD2])

text \<open>\<^verbatim>\<open>boost::algorithm::split\<close> without compression: every separator ends a part, parts may be empty.\<close>

fun split_all :: "char \<Rightarrow> string \<Rightarrow> string list" where
  "split_all c [] = [[]]"
| "split_all c (x # xs) = (if x = c then [] # split_all c xs
     else case split_all c xs of [] \<Rightarrow> [[x]] | w # ws \<Rightarrow> (x # w) # ws)"

lemma split_all_nonempty [simp]: "split_all c s \<noteq> []"
  by (induction s) (auto split: list.splits)

lemma split_all_word: "c \<notin> set w \<Longrightarrow> split_all c w = [w]"
  by (induction w) auto

lemma split_all_append: "c \<notin> set w \<Longrightarrow> split_all c (w @ c # s) = w # split_all c s"
  by (induction w) auto

lemma split_all_join: "ws \<noteq> [] \<Longrightarrow> \<forall>w \<in> set ws. c \<notin> set w \<Longrightarrow> split_all c (join_with c ws) = ws"
  by (induction c ws rule: join_with.induct) (auto simp: split_all_word split_all_append)

lemma split_all_no_separator: "w \<in> set (split_all c s) \<Longrightarrow> c \<notin> set w"
  by (induction c s arbitrary: w rule: split_all.induct) (auto split: if_splits list.splits)

lemma join_split_all [simp]: "join_with c (split_all c s) = s"
proof (induction s)
  case (Cons x xs)
  obtain w ws where "split_all c xs = w # ws" by (cases "split_all c xs") auto
  then show ?case using Cons by (cases ws) auto
qed simp

end
