(* ===== verification/Sdp_Types.thy ===== *)
theory Sdp_Types
  imports Text_Split
begin

text \<open>
  The SDP document of the signaling layer (\<^verbatim>\<open>src/signaling/sdp/sdp_types.h\<close>, \<^verbatim>\<open>sdp_types.cpp\<close>):
  attributes, media sections, the session, and the enumerations with their texts.
\<close>

definition is_blank :: "char \<Rightarrow> bool" where
  "is_blank c \<longleftrightarrow> c = CHR '' '' \<or> c = CHR 0x09"

section \<open>Documents\<close>

record sdp_attribute =
  attribute_key :: string
  attribute_value :: string

definition make_property_attribute :: "string \<Rightarrow> sdp_attribute" where
  "make_property_attribute key = \<lparr>attribute_key = key, attribute_value = []\<rparr>"

definition make_attribute :: "string \<Rightarrow> string \<Rightarrow> sdp_attribute" where
  "make_attribute key v = \<lparr>attribute_key = key, attribute_value = v\<rparr>"

record media_name_line =
  media :: string
  port :: int
  formats :: "string list"

record media_description =
  media_name :: media_name_line
  connection_address :: string
  media_attributes :: "sdp_attribute list"

record session_description =
  session_id :: u64
  session_version :: u64
  session_attributes :: "sdp_attribute list"
  media_descriptions :: "media_description list"

definition empty_session_description :: session_description where
  "empty_session_description =
     \<lparr>session_id = 0, session_version = 0, session_attributes = [], media_descriptions = []\<rparr>"

text \<open>The look-ups of a session and of a media section are the same function of their attributes.\<close>

fun find_attribute_value :: "sdp_attribute list \<Rightarrow> string \<Rightarrow> string option" where
  "find_attribute_value [] key = None"
| "find_attribute_value (a # as) key =
     (if attribute_key a = key then Some (attribute_value a) else find_attribute_value as key)"

definition find_attributes :: "sdp_attribute list \<Rightarrow> string \<Rightarrow> sdp_attribute list" where
  "find_attributes as key = filter (\<lambda>a. attribute_key a = key) as"

lemma find_attribute_value_None:
  "find_attribute_value as key = None \<longleftrightarrow> (\<forall>a \<in> set as. attribute_key a \<noteq> key)"
  by (induction as key rule: find_attribute_value.induct) auto

lemma find_attribute_value_append:
  "find_attribute_value (as @ bs) key =
     (case find_attribute_value as key of Some v \<Rightarrow> Some v | None \<Rightarrow> find_attribute_value bs key)"
  by (induction as) (auto split: option.splits)

lemma find_attribute_value_first:
  "find_attribute_value as key = map_option attribute_value (find (\<lambda>a. attribute_key a = key) as)"
  by (induction as) auto

section \<open>Enumerations\<close>

datatype media_direction = direction_unknown | send_recv | send_only | recv_only | inactive

definition direction_to_string :: "media_direction \<Rightarrow> string" where
  "direction_to_string d = (case d of
     send_recv \<Rightarrow> ''sendrecv'' | send_only \<Rightarrow> ''sendonly'' | recv_only \<Rightarrow> ''recvonly''
   | inactive \<Rightarrow> ''inactive'' | direction_unknown \<Rightarrow> [])"

definition parse_media_direction :: "string \<Rightarrow> media_direction option" where
  "parse_media_direction s =
     (if s = ''sendrecv'' then Some send_recv
      else if s = ''sendonly'' then Some send_only
      else if s = ''recvonly'' then Some recv_only
      else if s = ''inactive'' then Some inactive
      else None)"

datatype dtls_connection_role = role_unknown | role_active | role_passive | role_actpass | role_holdconn

definition role_to_string :: "dtls_connection_role \<Rightarrow> string" where
  "role_to_string r = (case r of
     role_active \<Rightarrow> ''active'' | role_passive \<Rightarrow> ''passive'' | role_actpass \<Rightarrow> ''actpass''
   | role_holdconn \<Rightarrow> ''holdconn'' | role_unknown \<Rightarrow> [])"

definition parse_dtls_connection_role :: "string \<Rightarrow> dtls_connection_role option" where
  "parse_dtls_connection_role s =
     (if s = ''active'' then Some role_active
      else if s = ''passive'' then Some role_passive
      else if s = ''actpass'' then Some role_actpass
      else if s = ''holdconn'' then Some role_holdconn
      else None)"

lemma parse_media_direction_iff:
  "parse_media_direction s = Some d \<longleftrightarrow> d \<noteq> direction_unknown \<and> s = direction_to_string d"
  by (cases d) (auto simp: parse_media_direction_def direction_to_string_def)

lemma parse_dtls_connection_role_iff:
  "parse_dtls_connection_role s = Some r \<longleftrightarrow> r \<noteq> role_unknown \<and> s = role_to_string r"
  by (cases r) (auto simp: parse_dtls_connection_role_def role_to_string_def)

section \<open>Header extension attributes\<close>

record rtp_header_extension =
  extension_id :: int
  direction :: media_direction
  uri :: string
  extension_attributes :: "string option"

definition empty_header_extension :: rtp_header_extension where
  "empty_header_extension =
     \<lparr>extension_id = 0, direction = direction_unknown, uri = [], extension_attributes = None\<rparr>"

text \<open>
  \<^verbatim>\<open>parse_attribute_value\<close> of an \<^verbatim>\<open>extmap\<close> attribute writes the fields one by one: the object keeps the
  fields written before a failure.
\<close>

definition parse_extension_uri :: "string \<Rightarrow> rtp_header_extension \<Rightarrow> bool \<times> rtp_header_extension" where
  "parse_extension_uri rest e =
     (case find_first_of is_blank rest of
        None \<Rightarrow> let e = e\<lparr>uri := rest, extension_attributes := None\<rparr> in (uri e \<noteq> [], e)
      | Some (u, more_text) \<Rightarrow>
          let e = e\<lparr>uri := u\<rparr>;
              attributes_text = trim_if is_blank more_text;
              e = (if attributes_text \<noteq> [] then e\<lparr>extension_attributes := Some attributes_text\<rparr>
                   else e\<lparr>extension_attributes := None\<rparr>) in
          (uri e \<noteq> [], e))"

definition parse_attribute_value :: "string \<Rightarrow> rtp_header_extension \<Rightarrow> bool \<times> rtp_header_extension" where
  "parse_attribute_value v e =
     (let v = trim_if is_blank v in
      if v = [] then (False, e)
      else case find_first_of is_blank v of
        None \<Rightarrow> (False, e)
      | Some (id_and_direction, behind) \<Rightarrow>
          let rest = trim_if is_blank behind in
          if rest = [] then (False, e)
          else
            let id_text = (case split_first CHR ''/'' id_and_direction of None \<Rightarrow> id_and_direction | Some (a, _) \<Rightarrow> a) in
            case from_chars_prefix 32 id_text of
              None \<Rightarrow> (False, e)
            | Some (parsed_id, _) \<Rightarrow>
                if parsed_id < 1 \<or> parsed_id > 246 then (False, e)
                else
                  let e = e\<lparr>extension_id := parsed_id\<rparr> in
                  (case split_first CHR ''/'' id_and_direction of
                     Some (_, direction_text) \<Rightarrow>
                       (case parse_media_direction direction_text of
                          None \<Rightarrow> (False, e)
                        | Some d \<Rightarrow> parse_extension_uri rest (e\<lparr>direction := d\<rparr>))
                   | None \<Rightarrow> parse_extension_uri rest (e\<lparr>direction := direction_unknown\<rparr>)))"

text \<open>An extension as an \<^verbatim>\<open>extmap\<close> attribute value: the text the parser reads back.\<close>

definition extension_text :: "rtp_header_extension \<Rightarrow> string" where
  "extension_text e =
     decimal (nat (extension_id e))
     @ (if direction e = direction_unknown then [] else CHR ''/'' # direction_to_string (direction e))
     @ CHR '' '' # uri e
     @ (case extension_attributes e of None \<Rightarrow> [] | Some a \<Rightarrow> CHR '' '' # a)"

definition extension_wf :: "rtp_header_extension \<Rightarrow> bool" where
  "extension_wf e \<longleftrightarrow>
     1 \<le> extension_id e \<and> extension_id e \<le> 246 \<and> uri e \<noteq> [] \<and> list_all (\<lambda>c. \<not> is_blank c) (uri e)
     \<and> (case extension_attributes e of None \<Rightarrow> True
        | Some a \<Rightarrow> a \<noteq> [] \<and> \<not> is_blank (hd a) \<and> \<not> is_blank (last a))"

lemma trim_words: "a \<noteq> [] \<Longrightarrow> \<not> is_blank (hd a) \<Longrightarrow> \<not> is_blank (last b) \<Longrightarrow> b \<noteq> [] \<Longrightarrow> trim_if is_blank (a @ b) = a @ b"
  by (rule trim_if_id) simp

lemma decimal_no_slash: "c \<in> set (decimal n) \<Longrightarrow> \<not> is_blank c \<and> c \<noteq> CHR ''/''"
  using decimal_digits [of n] by (auto simp: list_all_iff is_digit_def is_blank_def)

lemma direction_text_plain: "c \<in> set (direction_to_string d) \<Longrightarrow> \<not> is_blank c \<and> c \<noteq> CHR ''/''"
  by (cases d) (auto simp: direction_to_string_def is_blank_def)

lemma parse_extension_uri_text:
  assumes "extension_wf e"
  shows "parse_extension_uri (uri e @ (case extension_attributes e of None \<Rightarrow> [] | Some a \<Rightarrow> CHR '' '' # a)) f =
    (True, f\<lparr>uri := uri e, extension_attributes := extension_attributes e\<rparr>)"
proof (cases "extension_attributes e")
  case None
  then show ?thesis using assms find_first_of_none [of "uri e" is_blank]
    by (simp add: parse_extension_uri_def extension_wf_def list_all_iff Let_def)
next
  case (Some a)
  have "find_first_of is_blank (uri e @ CHR '' '' # a) = Some (uri e, a)"
    by (rule find_first_of_append) (use assms in \<open>auto simp: extension_wf_def list_all_iff is_blank_def\<close>)
  moreover have "trim_if is_blank a = a" using assms Some by (intro trim_if_id) (simp add: extension_wf_def)
  ultimately show ?thesis using assms Some
    by (simp add: parse_extension_uri_def extension_wf_def Let_def)
qed

lemma extension_text_parsed:
  assumes wf: "extension_wf e"
  shows "parse_attribute_value (extension_text e) f = (True, e)"
proof -
  let ?dir = "if direction e = direction_unknown then [] else CHR ''/'' # direction_to_string (direction e)"
  let ?head = "decimal (nat (extension_id e)) @ ?dir"
  let ?rest = "uri e @ (case extension_attributes e of None \<Rightarrow> [] | Some a \<Rightarrow> CHR '' '' # a)"
  have t: "extension_text e = ?head @ CHR '' '' # ?rest" by (simp add: extension_text_def)
  have hd: "\<not> is_blank (hd ?head)" using decimal_no_slash [of "hd (decimal (nat (extension_id e)))" "nat (extension_id e)"] by (simp add: hd_append)
  have plain: "\<forall>c \<in> set ?head. \<not> is_blank c"
    using decimal_no_slash direction_text_plain by (auto simp: is_blank_def)
  have rest: "?rest \<noteq> []" "\<not> is_blank (hd ?rest)" "\<not> is_blank (last ?rest)"
    using wf by (auto simp: extension_wf_def list_all_iff hd_append split: option.splits)
  have "hd (extension_text e) = hd ?head" "last (extension_text e) = last ?rest"
    unfolding t using rest(1) by (simp_all only: hd_append last_appendR last_ConsR append_is_Nil_conv decimal_nonempty
        simp_thms if_False list.distinct not_Cons_self2)
  then have trims: "trim_if is_blank (extension_text e) = extension_text e" "trim_if is_blank ?rest = ?rest"
    using hd rest by (simp_all only: trim_if_id simp_thms)
  have ff: "find_first_of is_blank (extension_text e) = Some (?head, ?rest)"
    unfolding t by (rule find_first_of_append) (use plain in \<open>auto simp: is_blank_def\<close>)
  have sp: "split_first CHR ''/'' ?head =
      (if direction e = direction_unknown then None
       else Some (decimal (nat (extension_id e)), direction_to_string (direction e)))"
    using decimal_no_slash by (auto simp: split_first_None split_first_Some)
  have num: "from_chars_prefix 32 (decimal (nat (extension_id e))) = Some (extension_id e, [])"
    using from_chars_prefix_decimal [of "nat (extension_id e)" 32 "[]"] wf by (simp add: extension_wf_def)
  have ne: "extension_text e \<noteq> []" unfolding t by simp
  have dir: "direction e \<noteq> direction_unknown \<Longrightarrow> parse_media_direction (direction_to_string (direction e)) = Some (direction e)"
    by (simp add: parse_media_direction_iff)
  have bounds: "\<not> (extension_id e < 1 \<or> extension_id e > 246)" using wf by (simp add: extension_wf_def)
  show ?thesis
  proof (cases "direction e = direction_unknown")
    case True
    then show ?thesis unfolding parse_attribute_value_def Let_def trims(1) ff option.case prod.case trims(2) sp
      using ne rest(1) num bounds parse_extension_uri_text [OF wf] by simp
  next
    case False
    then show ?thesis unfolding parse_attribute_value_def Let_def trims(1) ff option.case prod.case trims(2) sp
      using ne rest(1) num bounds dir parse_extension_uri_text [OF wf] by simp
  qed
qed

text \<open>The identifier may be followed by any text up to the first blank or slash.\<close>

lemma extension_identifier_not_checked:
  "parse_attribute_value ''3x urn:a'' f = (True, f\<lparr>extension_id := 3, direction := direction_unknown, uri := ''urn:a'', extension_attributes := None\<rparr>)"
  by (simp add: parse_attribute_value_def parse_extension_uri_def trim_if_def is_blank_def find_first_of_def split_first_def
      from_chars_prefix_def is_digit_def decimal_value_def digit_value_def Let_def)

end
