(* ===== verification/Sdp_Lexer.thy ===== *)
theory Sdp_Lexer
  imports Sdp_Types
begin

text \<open>
  The lexer of SDP documents (\<^verbatim>\<open>src/signaling/sdp/sdp_lexer.cpp\<close>): a cursor over the text that reads the
  type character of a line and its value, with CR, LF and CRLF as line ends; and the number fields.
\<close>

section \<open>The cursor\<close>

record sdp_lexer =
  lexer_text :: string
  position :: nat

definition make_sdp_lexer :: "string \<Rightarrow> sdp_lexer" where
  "make_sdp_lexer s = \<lparr>lexer_text = s, position = 0\<rparr>"

definition is_line_break :: "char \<Rightarrow> bool" where
  "is_line_break c \<longleftrightarrow> c = CHR 0x0A \<or> c = CHR 0x0D"

definition eof :: "sdp_lexer \<Rightarrow> bool" where
  "eof l \<longleftrightarrow> position l \<ge> length (lexer_text l)"

definition advance :: "sdp_lexer \<Rightarrow> sdp_lexer" where
  "advance l = l\<lparr>position := position l + 1\<rparr>"

abbreviation char_at :: "sdp_lexer \<Rightarrow> char" where
  "char_at l \<equiv> lexer_text l ! position l"

function skip_line_breaks :: "sdp_lexer \<Rightarrow> sdp_lexer" where
  "skip_line_breaks l =
     (if eof l then l
      else if char_at l = CHR 0x0D then
        (let l = advance l in
         skip_line_breaks (if \<not> eof l \<and> char_at l = CHR 0x0A then advance l else l))
      else if char_at l = CHR 0x0A then skip_line_breaks (advance l)
      else l)"
  by auto
termination
  by (relation "measure (\<lambda>l. length (lexer_text l) - position l)") (auto simp: eof_def advance_def)

declare skip_line_breaks.simps [simp del]

function read_line_loop :: "nat \<Rightarrow> sdp_lexer \<Rightarrow> string \<times> sdp_lexer" where
  "read_line_loop start l =
     (if eof l then (drop start (take (position l) (lexer_text l)), l)
      else if char_at l = CHR 0x0A then
        (let line_end = position l;
             line_end = (if line_end > start \<and> lexer_text l ! (line_end - 1) = CHR 0x0D then line_end - 1 else line_end) in
         (drop start (take line_end (lexer_text l)), advance l))
      else if char_at l = CHR 0x0D then
        (let line_end = position l; l = advance l;
             l = (if \<not> eof l \<and> char_at l = CHR 0x0A then advance l else l) in
         (drop start (take line_end (lexer_text l)), l))
      else read_line_loop start (advance l))"
  by auto
termination
  by (relation "measure (\<lambda>(start, l). length (lexer_text l) - position l)") (auto simp: eof_def advance_def)

declare read_line_loop.simps [simp del]

definition read_line :: "sdp_lexer \<Rightarrow> string \<times> sdp_lexer" where
  "read_line l = read_line_loop (position l) l"

definition escape_char_for_error :: "char \<Rightarrow> string" where
  "escape_char_for_error c =
     (if c = CHR 0x0A then [CHR 0x5C, CHR ''n'']
      else if c = CHR 0x0D then [CHR 0x5C, CHR ''r'']
      else if c = CHR 0x09 then [CHR 0x5C, CHR ''t'']
      else if c = CHR 0x5C then [CHR 0x5C, CHR 0x5C]
      else if c = CHR 0x22 then [CHR 0x5C, CHR 0x22]
      else if c = CHR 0x00 then [CHR 0x5C, CHR ''0'']
      else [c])"

definition make_syntax_error :: "sdp_lexer \<Rightarrow> nat \<Rightarrow> string" where
  "make_syntax_error l pos =
     (if lexer_text l = [] then ''sdp syntax error at position 0: '' @ [CHR 0x22, CHR 0x22]
      else let pos = (if pos \<ge> length (lexer_text l) then length (lexer_text l) - 1 else pos) in
        ''sdp syntax error at position '' @ decimal pos @ '': '' @ [CHR 0x22]
        @ escape_char_for_error (lexer_text l ! pos) @ [CHR 0x22])"

lemma is_line_break_chars [simp]: "is_line_break CHR 0x0A" "is_line_break CHR 0x0D"
  by (simp_all add: is_line_break_def)

lemma advance_fields: "lexer_text (advance l) = lexer_text l" "position (advance l) = position l + 1"
  by (simp_all add: advance_def)

lemma skip_line_breaks_text [simp]: "lexer_text (skip_line_breaks l) = lexer_text l"
  by (induction l rule: skip_line_breaks.induct) (subst skip_line_breaks.simps, auto simp: Let_def advance_def)

lemma skip_line_breaks_position: "position l \<le> position (skip_line_breaks l)"
proof (induction l rule: skip_line_breaks.induct)
  case (1 l)
  then show ?case by (subst skip_line_breaks.simps) (auto simp: Let_def advance_def split: if_splits)
qed

lemma skip_line_breaks_progress:
  "\<not> eof l \<Longrightarrow> is_line_break (char_at l) \<Longrightarrow> position l < position (skip_line_breaks l)"
  using skip_line_breaks_position [of "advance l"] skip_line_breaks_position [of "advance (advance l)"]
  by (subst skip_line_breaks.simps) (auto simp: Let_def is_line_break_def advance_def split: if_splits)

function read_type :: "sdp_lexer \<Rightarrow> char result \<times> sdp_lexer" where
  "read_type l =
     (if eof l then (make_error ''unexpected end of sdp'', l)
      else if is_line_break (char_at l) then read_type (skip_line_breaks l)
      else
        let first = char_at l; l = advance l in
        if eof l then (make_error (make_syntax_error l (position l - 1)), l)
        else
          let second = char_at l; l = advance l in
          if second \<noteq> CHR ''='' then (make_error (make_syntax_error l (position l - 1)), l)
          else (Inr first, l))"
  by auto
termination
  by (relation "measure (\<lambda>l. length (lexer_text l) - position l)")
    (use skip_line_breaks_progress in \<open>auto simp: eof_def intro!: diff_less_mono2\<close>)

declare read_type.simps [simp del]

section \<open>Number fields\<close>

definition is_any_of :: "string \<Rightarrow> string list \<Rightarrow> bool" where
  "is_any_of v candidates \<longleftrightarrow> v \<in> set candidates"

text \<open>
  The product is the mathematical one; where it leaves the range of \<^verbatim>\<open>int64_t\<close> the C++ product has no
  defined value (see \<open>time_units_overflow\<close>).
\<close>

definition parse_time_units :: "string \<Rightarrow> int result" where
  "parse_time_units v =
     (if v = [] then make_error ''empty sdp time value''
      else
        let final = last v;
            (multiplier, number_text) =
              (if final = CHR ''d'' then (86400, butlast v)
               else if final = CHR ''h'' then (3600, butlast v)
               else if final = CHR ''m'' then (60, butlast v)
               else if final = CHR ''s'' then (1, butlast v)
               else (1, v)) in
        if number_text = [] then make_error ''invalid sdp time value''
        else case from_chars_signed 64 number_text of
          None \<Rightarrow> make_error ''invalid sdp time value''
        | Some number \<Rightarrow> Inr (number * multiplier))"

definition parse_port :: "string \<Rightarrow> int result" where
  "parse_port v =
     (case from_chars_signed 32 v of
        None \<Rightarrow> make_error ''invalid port''
      | Some p \<Rightarrow> if p < 0 \<or> p > 65535 then make_error ''port out of range'' else Inr p)"

section \<open>Lines\<close>

text \<open>The cursor advances over one line: what is behind it after the type and the value were read.\<close>

definition behind :: "sdp_lexer \<Rightarrow> string" where
  "behind l = drop (position l) (lexer_text l)"

lemma eof_behind: "eof l \<longleftrightarrow> behind l = []"
  by (simp add: eof_def behind_def)

lemma behind_advance [simp]: "behind (advance l) = tl (behind l)"
  by (simp add: behind_def advance_def drop_Suc tl_drop)

lemma char_at_behind: "behind l = c # cs \<Longrightarrow> char_at l = c"
  unfolding behind_def by (metis hd_drop_conv_nth drop_all list.sel(1) list.distinct(1) not_le)

lemma behind_skip: "behind (skip_line_breaks l) = dropWhile is_line_break (behind l)"
proof (induction l rule: skip_line_breaks.induct)
  case (1 l)
  show ?case
  proof (cases "behind l")
    case Nil
    then show ?thesis by (subst skip_line_breaks.simps) (simp add: eof_behind)
  next
    case (Cons c cs)
    note c = char_at_behind [OF Cons]
    have cs: "behind (advance l) = cs" using Cons by simp
    show ?thesis
    proof (cases "c = CHR 0x0D")
      case True
      show ?thesis
      proof (cases "cs \<noteq> [] \<and> hd cs = CHR 0x0A")
        case nl: True
        then obtain ds where ds: "cs = CHR 0x0A # ds" by (cases cs) auto
        have a: "char_at (advance l) = CHR 0x0A" using char_at_behind cs ds by simp
        have "behind (skip_line_breaks (advance (advance l))) = dropWhile is_line_break ds"
          using 1(1) [of "advance l"] True c Cons cs ds a by (simp add: eof_behind)
        then show ?thesis using True c Cons cs ds a
          by (subst skip_line_breaks.simps) (simp add: eof_behind Let_def is_line_break_def)
      next
        case False
        have a: "\<not> (\<not> eof (advance l) \<and> char_at (advance l) = CHR 0x0A)"
        proof (cases cs)
          case (Cons d ds)
          then show ?thesis using char_at_behind [of "advance l" d ds] cs False by (simp add: eof_behind)
        qed (use cs in \<open>simp add: eof_behind\<close>)
        have "behind (skip_line_breaks (advance l)) = dropWhile is_line_break cs"
          using 1(1) [of "advance l"] True c Cons cs a by (auto simp: eof_behind split: if_splits)
        then show ?thesis using True c Cons a
          by (subst skip_line_breaks.simps) (auto simp: eof_behind Let_def is_line_break_def)
      qed
    next
      case False
      then show ?thesis using 1(2) c Cons cs is_line_break_def [of c]
        by (subst skip_line_breaks.simps) (auto simp: eof_behind)
    qed
  qed
qed

text \<open>Behind a line only its line end is consumed: what matters is the text up to further line breaks.\<close>

lemma read_line_loop_spec:
  assumes "start \<le> position l" "\<forall>c \<in> set (drop start (take (position l) (lexer_text l))). \<not> is_line_break c"
    "read_line_loop start l = (v, l')"
  shows "v = drop start (take (position l) (lexer_text l)) @ takeWhile (\<lambda>c. \<not> is_line_break c) (behind l)
    \<and> dropWhile is_line_break (behind l') = dropWhile is_line_break (dropWhile (\<lambda>c. \<not> is_line_break c) (behind l))
    \<and> lexer_text l' = lexer_text l \<and> position l \<le> position l'"
  using assms
proof (induction start l rule: read_line_loop.induct)
  case (1 start l)
  show ?case
  proof (cases "behind l")
    case Nil
    then show ?thesis using 1(4) by (subst (asm) read_line_loop.simps) (auto simp: eof_behind)
  next
    case (Cons c cs)
    note c = char_at_behind [OF Cons]
    have cs: "behind (advance l) = cs" using Cons by simp
    have len: "position l < length (lexer_text l)" using Cons unfolding behind_def by (metis drop_all list.distinct(1) not_le)
    have prev: "lexer_text l ! (position l - 1) \<noteq> CHR 0x0D" if "start < position l"
    proof -
      have "lexer_text l ! (position l - 1) \<in> set (drop start (take (position l) (lexer_text l)))"
        using that len by (auto simp: in_set_conv_nth intro!: exI [of _ "position l - 1 - start"])
      then show ?thesis using 1(3) by (auto simp: is_line_break_def)
    qed
    consider (lf) "c = CHR 0x0A" | (cr) "c = CHR 0x0D" | (other) "\<not> is_line_break c"
      by (auto simp: is_line_break_def)
    then show ?thesis
    proof cases
      case lf
      have "\<not> (position l > start \<and> lexer_text l ! (position l - 1) = CHR 0x0D)" using prev by blast
      then have "read_line_loop start l = (drop start (take (position l) (lexer_text l)), advance l)"
        unfolding read_line_loop.simps [of start l] using lf c Cons by (auto simp: eof_behind Let_def)
      then have "v = drop start (take (position l) (lexer_text l))" "l' = advance l" using 1(4) by simp_all
      then show ?thesis using lf Cons cs by (simp add: advance_fields)
    next
      case cr
      let ?l = "if \<not> eof (advance l) \<and> char_at (advance l) = CHR 0x0A then advance (advance l) else advance l"
      have "read_line_loop start l = (drop start (take (position l) (lexer_text l)), ?l)"
        unfolding read_line_loop.simps [of start l] using cr c Cons by (simp add: eof_behind Let_def advance_fields)
      then have v: "v = drop start (take (position l) (lexer_text l))" "l' = ?l" using 1(4) by simp_all
      have "dropWhile is_line_break (behind ?l) = dropWhile is_line_break cs"
        using char_at_behind [of "advance l"] cs by (cases cs) (auto simp: eof_behind is_line_break_def)
      then show ?thesis unfolding v using cr Cons by (auto simp: advance_fields)
    next
      case other
      have t: "take (Suc (position l)) (lexer_text l) = take (position l) (lexer_text l) @ [c]"
        using len c by (simp add: take_Suc_conv_app_nth)
      have d: "drop start (take (Suc (position l)) (lexer_text l)) = drop start (take (position l) (lexer_text l)) @ [c]"
        unfolding t using 1(2) len by simp
      have l: "read_line_loop start (advance l) = (v, l')"
        using 1(4) other c Cons unfolding read_line_loop.simps [of start l]
        by (simp add: eof_behind is_line_break_def)
      have "v = drop start (take (position (advance l)) (lexer_text (advance l))) @ takeWhile (\<lambda>c. \<not> is_line_break c) (behind (advance l))
        \<and> dropWhile is_line_break (behind l') = dropWhile is_line_break (dropWhile (\<lambda>c. \<not> is_line_break c) (behind (advance l)))
        \<and> lexer_text l' = lexer_text (advance l) \<and> position (advance l) \<le> position l'"
        by (rule 1(1)) (use other c Cons 1(2,3) l d in \<open>auto simp: eof_behind is_line_break_def advance_def\<close>)
      then show ?thesis using other Cons cs d by (simp add: advance_def)
    qed
  qed
qed

lemma read_line_spec:
  assumes "read_line l = (v, l')"
  shows "v = takeWhile (\<lambda>c. \<not> is_line_break c) (behind l)"
    and "dropWhile is_line_break (behind l') = dropWhile is_line_break (dropWhile (\<lambda>c. \<not> is_line_break c) (behind l))"
    and "lexer_text l' = lexer_text l" and "position l \<le> position l'"
  using read_line_loop_spec [of "position l" l v l'] assms by (simp_all add: read_line_def)

lemma read_type_spec:
  assumes "behind l = c # cs" "\<not> is_line_break c"
  shows "read_type l =
    (case cs of
       [] \<Rightarrow> (make_error (make_syntax_error (advance l) (position l)), advance l)
     | d # ds \<Rightarrow>
         if d = CHR ''='' then (Inr c, advance (advance l))
         else (make_error (make_syntax_error (advance (advance l)) (position l + 1)), advance (advance l)))"
proof -
  have "behind (advance l) = cs" using assms(1) by simp
  then show ?thesis
    using assms char_at_behind [of l] char_at_behind [of "advance l"]
    by (subst read_type.simps) (auto simp: eof_behind Let_def advance_def split: list.splits)
qed

text \<open>A line that begins with a type character: what the parser's loop does with the cursor.\<close>

lemma read_type_behind:
  assumes "behind l = c # CHR ''='' # v" "\<not> is_line_break c"
  shows "read_type l = (Inr c, advance (advance l))" "behind (advance (advance l)) = v"
  using read_type_spec [OF assms] assms by simp_all

lemma read_type_after_skip:
  assumes "read_type (skip_line_breaks l) = (Inr c, l')"
  shows "\<exists>v. behind (skip_line_breaks l) = c # CHR ''='' # v \<and> behind l' = v \<and> \<not> is_line_break c
    \<and> l' = advance (advance (skip_line_breaks l))"
proof (cases "behind (skip_line_breaks l)")
  case Nil
  then show ?thesis using assms by (subst (asm) read_type.simps) (simp add: eof_behind make_error_def)
next
  case (Cons d ds)
  then have d: "\<not> is_line_break d" by (metis behind_skip dropWhile_eq_Cons_conv)
  show ?thesis using assms Cons d unfolding read_type_spec [OF Cons d]
    by (auto simp: make_error_def split: list.splits if_splits)
qed

lemma read_type_progress:
  assumes "read_type (skip_line_breaks l) = (Inr c, l')"
  shows "position l < position l'" "lexer_text l' = lexer_text l" "\<not> eof l"
proof -
  obtain v where v: "behind (skip_line_breaks l) = c # CHR ''='' # v" "l' = advance (advance (skip_line_breaks l))"
    using read_type_after_skip [OF assms] by blast
  then show "position l < position l'" "lexer_text l' = lexer_text l"
    using skip_line_breaks_position [of l] by (simp_all add: advance_fields)
  show "\<not> eof l" using v(1) by (auto simp: eof_behind behind_skip)
qed

section \<open>Overflow of the time units\<close>

text \<open>The only values for which the product stays within 64 bits are those the caller can divide back.\<close>

lemma time_units_overflow:
  "parse_time_units ''106751991167301d'' = Inr (2 ^ 63 + 30592)"
  by (simp add: parse_time_units_def from_chars_signed_def from_chars_prefix_def decimal_value_def digit_value_def
      is_digit_def Let_def make_error_def)

end
