(* ===== verification/Sdp_Parser.thy ===== *)
theory Sdp_Parser
  imports Sdp_Lexer
begin

text \<open>
  The parser of SDP documents (\<^verbatim>\<open>src/signaling/sdp/sdp_parser.cpp\<close>): every line is validated by its type,
  attributes and media sections are collected, and the required session lines are checked at the end.
\<close>

section \<open>Fields\<close>

definition parse_uint64_text :: "string \<Rightarrow> string \<Rightarrow> nat result" where
  "parse_uint64_text v field_name =
     (let v = trim_if is_blank v in
      if v = [] then make_error (field_name @ '' is empty'')
      else case from_chars 64 v of
        None \<Rightarrow> make_error (field_name @ '' is invalid'')
      | Some number \<Rightarrow> Inr number)"

definition parse_int32_text :: "string \<Rightarrow> string \<Rightarrow> int result" where
  "parse_int32_text v field_name =
     (let v = trim_if is_blank v in
      if v = [] then make_error (field_name @ '' is empty'')
      else case from_chars_signed 32 v of
        None \<Rightarrow> make_error (field_name @ '' is invalid'')
      | Some number \<Rightarrow> Inr number)"

definition parse_attribute_line :: "string \<Rightarrow> sdp_attribute result" where
  "parse_attribute_line v =
     (let v = trim_if is_blank v in
      if v = [] then make_error ''empty attribute''
      else case split_first CHR '':'' v of
        None \<Rightarrow> Inr (make_property_attribute v)
      | Some (key, attr_value) \<Rightarrow>
          if key = [] then Inr (make_property_attribute v) else Inr (make_attribute key attr_value))"

definition validate_connection_information_line :: "string \<Rightarrow> unit result" where
  "validate_connection_information_line v =
     (let fs = words_of is_blank v in
      if length fs < 2 then make_error ''invalid connection information''
      else if \<not> is_any_of (fs ! 0) [''IN''] then make_error ''invalid connection network type''
      else if \<not> is_any_of (fs ! 1) [''IP4'', ''IP6''] then make_error ''invalid connection address type''
      else Inr ())"

definition validate_bandwidth_line :: "string \<Rightarrow> unit result" where
  "validate_bandwidth_line v =
     (let v = trim_if is_blank v in
      case split_first CHR '':'' v of
        None \<Rightarrow> make_error ''invalid bandwidth line''
      | Some (bw_type, bandwidth_value) \<Rightarrow>
          if bw_type = [] \<or> bandwidth_value = [] then make_error ''invalid bandwidth line''
          else if \<not> starts_with bw_type ''X-'' \<and> \<not> is_any_of bw_type [''CT'', ''AS'', ''TIAS'', ''RS'', ''RR'']
          then make_error ''invalid bandwidth type''
          else bindE (parse_uint64_text bandwidth_value ''bandwidth value'') (\<lambda>_. Inr ()))"

definition validate_timing_line :: "string \<Rightarrow> unit result" where
  "validate_timing_line v =
     (let fs = words_of is_blank v in
      if length fs \<noteq> 2 then make_error ''invalid timing line''
      else
        bindE (parse_uint64_text (fs ! 0) ''timing start time'') (\<lambda>_.
        bindE (parse_uint64_text (fs ! 1) ''timing stop time'') (\<lambda>_. Inr ())))"

fun validate_offsets :: "string list \<Rightarrow> unit result" where
  "validate_offsets [] = Inr ()"
| "validate_offsets (f # fs) = bindE (parse_time_units f) (\<lambda>_. validate_offsets fs)"

definition validate_repeat_time_line :: "string \<Rightarrow> unit result" where
  "validate_repeat_time_line v =
     (let fs = words_of is_blank v in
      if length fs < 2 then make_error ''invalid repeat time line''
      else
        bindE (parse_time_units (fs ! 0)) (\<lambda>_.
        bindE (parse_time_units (fs ! 1)) (\<lambda>_.
        validate_offsets (drop 2 fs))))"

fun validate_adjustments :: "string list \<Rightarrow> unit result" where
  "validate_adjustments (adjustment # offset # fs) =
     bindE (parse_uint64_text adjustment ''time zone adjustment time'') (\<lambda>_.
     bindE (parse_time_units offset) (\<lambda>_. validate_adjustments fs))"
| "validate_adjustments [adjustment] =
     bindE (parse_uint64_text adjustment ''time zone adjustment time'') (\<lambda>_. Inl OutOfBounds)"
| "validate_adjustments [] = Inr ()"

definition validate_time_zone_line :: "string \<Rightarrow> unit result" where
  "validate_time_zone_line v =
     (let fs = words_of is_blank v in
      if fs = [] \<or> length fs mod 2 \<noteq> 0 then make_error ''invalid time zone line''
      else validate_adjustments fs)"

definition parse_ranged_port :: "string \<Rightarrow> int result" where
  "parse_ranged_port v =
     (let port_text = (case split_first CHR ''/'' v of None \<Rightarrow> v | Some (p, _) \<Rightarrow> p) in
      case parse_port port_text of
        Inl _ \<Rightarrow> make_error ''invalid media port''
      | Inr p \<Rightarrow>
          (case split_first CHR ''/'' v of
             None \<Rightarrow> Inr p
           | Some (_, range_text) \<Rightarrow>
               bindE (parse_int32_text range_text ''media port range'') (\<lambda>range.
               if range \<le> 0 then make_error ''invalid media port range'' else Inr p)))"

definition media_protocols :: "string list" where
  "media_protocols = [''UDP'', ''RTP'', ''AVP'', ''SAVP'', ''SAVPF'', ''TLS'', ''DTLS'', ''SCTP'', ''AVPF'', ''TCP'',
     ''MSRP'', ''BFCP'', ''UDT'', ''IX'', ''MRCPv2'', ''FEC'']"

fun check_protocols :: "string list \<Rightarrow> unit result" where
  "check_protocols [] = Inr ()"
| "check_protocols (p # ps) =
     (if p = [] then make_error ''invalid media protocol''
      else if \<not> is_any_of p media_protocols then make_error ''unsupported media protocol''
      else check_protocols ps)"

definition parse_media_name_line :: "string \<Rightarrow> media_name_line result" where
  "parse_media_name_line v =
     (let fs = words_of is_blank v in
      if length fs < 4 then make_error ''invalid media line''
      else if \<not> is_any_of (fs ! 0) [''audio'', ''video'', ''text'', ''application'', ''message'']
      then make_error ''invalid media type''
      else
        bindE (parse_ranged_port (fs ! 1)) (\<lambda>p.
        let protocols = split_all CHR ''/'' (fs ! 2) in
        if protocols = [] then make_error ''empty media protocol''
        else
          bindE (check_protocols protocols) (\<lambda>_.
          Inr \<lparr>media = fs ! 0, port = p, formats = drop 3 fs\<rparr>)))"

definition validate_origin_line :: "string \<Rightarrow> unit result" where
  "validate_origin_line v =
     (let fs = words_of is_blank v in
      if length fs \<noteq> 6 then make_error ''invalid origin line''
      else
        bindE (parse_uint64_text (fs ! 1) ''origin session id'') (\<lambda>_.
        bindE (parse_uint64_text (fs ! 2) ''origin session version'') (\<lambda>_.
        if \<not> is_any_of (fs ! 3) [''IN''] then make_error ''invalid origin network type''
        else if \<not> is_any_of (fs ! 4) [''IP4'', ''IP6''] then make_error ''invalid origin address type''
        else Inr ())))"

section \<open>Lines\<close>

text \<open>The local variables of \<^verbatim>\<open>parse_session_description\<close>; \<^verbatim>\<open>current_media\<close> points into the vector of sections.\<close>

record parser_state =
  description :: session_description
  has_version :: bool
  has_origin :: bool
  has_session_name :: bool
  has_timing :: bool
  current_media :: "nat option"

definition initial_parser_state :: parser_state where
  "initial_parser_state =
     \<lparr>description = empty_session_description, has_version = False, has_origin = False,
      has_session_name = False, has_timing = False, current_media = None\<rparr>"

definition parse_session_level_line :: "parser_state \<Rightarrow> char \<Rightarrow> string \<Rightarrow> parser_state result" where
  "parse_session_level_line st line_type v =
     (if line_type = CHR ''v'' then
        bindE (parse_uint64_text v ''sdp version'') (\<lambda>version.
        if version \<noteq> 0 then make_error ''unsupported sdp version'' else Inr (st\<lparr>has_version := True\<rparr>))
      else if line_type = CHR ''o'' then
        bindE (validate_origin_line v) (\<lambda>_. Inr (st\<lparr>has_origin := True\<rparr>))
      else if line_type = CHR ''s'' then Inr (st\<lparr>has_session_name := True\<rparr>)
      else if line_type = CHR ''i'' then Inr st
      else if line_type = CHR ''u'' then
        (if trim_if is_blank v = [] then make_error ''empty uri line'' else Inr st)
      else if line_type = CHR ''e'' \<or> line_type = CHR ''p'' then Inr st
      else if line_type = CHR ''c'' then bindE (validate_connection_information_line v) (\<lambda>_. Inr st)
      else if line_type = CHR ''b'' then bindE (validate_bandwidth_line v) (\<lambda>_. Inr st)
      else if line_type = CHR ''t'' then bindE (validate_timing_line v) (\<lambda>_. Inr (st\<lparr>has_timing := True\<rparr>))
      else if line_type = CHR ''r'' then
        (if \<not> has_timing st then make_error ''repeat time appears before timing''
         else bindE (validate_repeat_time_line v) (\<lambda>_. Inr st))
      else if line_type = CHR ''z'' then bindE (validate_time_zone_line v) (\<lambda>_. Inr st)
      else if line_type = CHR ''k'' then Inr st
      else if line_type = CHR ''a'' then
        bindE (parse_attribute_line v) (\<lambda>attribute.
        Inr (st\<lparr>description := (description st)\<lparr>session_attributes := session_attributes (description st) @ [attribute]\<rparr>\<rparr>))
      else make_error ''unsupported session-level sdp line'')"

definition parse_media_level_line :: "media_description \<Rightarrow> char \<Rightarrow> string \<Rightarrow> media_description result" where
  "parse_media_level_line m line_type v =
     (if line_type = CHR ''i'' then Inr m
      else if line_type = CHR ''c'' then bindE (validate_connection_information_line v) (\<lambda>_. Inr m)
      else if line_type = CHR ''b'' then bindE (validate_bandwidth_line v) (\<lambda>_. Inr m)
      else if line_type = CHR ''k'' then Inr m
      else if line_type = CHR ''a'' then
        bindE (parse_attribute_line v) (\<lambda>attribute.
        Inr (m\<lparr>media_attributes := media_attributes m @ [attribute]\<rparr>))
      else make_error ''unsupported media-level sdp line'')"

definition validate_required_session_lines :: "parser_state \<Rightarrow> unit result" where
  "validate_required_session_lines st =
     (if \<not> has_version st then make_error ''missing v= line''
      else if \<not> has_origin st then make_error ''missing o= line''
      else if \<not> has_session_name st then make_error ''missing s= line''
      else if \<not> has_timing st then make_error ''missing t= line''
      else Inr ())"

text \<open>The body of the loop of \<^verbatim>\<open>parse_session_description\<close> behind the lexer calls.\<close>

definition parse_line :: "parser_state \<Rightarrow> char \<Rightarrow> string \<Rightarrow> parser_state result" where
  "parse_line st line_type v =
     (if line_type = CHR ''m'' then
        bindE (parse_media_name_line v) (\<lambda>name.
        let m = \<lparr>media_name = name, connection_address = [], media_attributes = []\<rparr>;
            ms = media_descriptions (description st) @ [m] in
        Inr (st\<lparr>description := (description st)\<lparr>media_descriptions := ms\<rparr>, current_media := Some (length ms - 1)\<rparr>))
      else case current_media st of
        None \<Rightarrow> parse_session_level_line st line_type v
      | Some i \<Rightarrow>
          if line_type \<in> set ''vosueptrz'' then make_error ''session-level line appears after media section''
          else if i < length (media_descriptions (description st)) then
            bindE (parse_media_level_line (media_descriptions (description st) ! i) line_type v) (\<lambda>m.
            Inr (st\<lparr>description := (description st)\<lparr>media_descriptions := (media_descriptions (description st))[i := m]\<rparr>\<rparr>))
          else Inl OutOfBounds)"

function parse_loop :: "parser_state \<Rightarrow> sdp_lexer \<Rightarrow> parser_state result" where
  "parse_loop st lexer =
     (let lexer = skip_line_breaks lexer in
      if eof lexer then Inr st
      else case read_type lexer of
        (Inl e, _) \<Rightarrow> Inl e
      | (Inr line_type, lexer) \<Rightarrow>
          (case read_line lexer of
             (v, lexer) \<Rightarrow>
               (case parse_line st line_type v of
                  Inl e \<Rightarrow> Inl e
                | Inr st \<Rightarrow> parse_loop st lexer)))"
  by auto
termination
proof (relation "measure (\<lambda>(st, l). length (lexer_text l) - position l)", simp, goal_cases)
  case (1 st l l0 r l1 c v l2 st')
  have t: "read_type (skip_line_breaks l) = (Inr c, l1)" and r: "read_line l1 = (v, l2)"
    using 1 by (metis prod.collapse)+
  have "position l < length (lexer_text l)" using read_type_progress(3) [OF t] by (simp add: eof_def)
  then show ?case using read_type_progress(1,2) [OF t] read_line_spec(3,4) [OF r] by simp
qed

declare parse_loop.simps [simp del]

definition parse_session_description :: "string \<Rightarrow> session_description result" where
  "parse_session_description s =
     bindE (parse_loop initial_parser_state (make_sdp_lexer s)) (\<lambda>st.
     bindE (validate_required_session_lines st) (\<lambda>_. Inr (description st)))"

section \<open>The document as a list of lines\<close>

text \<open>
  The abstract parser: a document is the list of its non-empty lines, whatever their line ends, and
  every line is a type, an equals sign and a value.
\<close>

fun parse_lines :: "parser_state \<Rightarrow> string list \<Rightarrow> parser_state option" where
  "parse_lines st [] = Some st"
| "parse_lines st ((c # e # v) # lines) =
     (if e = CHR ''='' then
        (case parse_line st c v of Inl _ \<Rightarrow> None | Inr st \<Rightarrow> parse_lines st lines)
      else None)"
| "parse_lines st (l # lines) = None"

fun to_option :: "'a result \<Rightarrow> 'a option" where
  "to_option (Inl _) = None"
| "to_option (Inr v) = Some v"

lemma words_of_dropWhile: "words_of P (dropWhile P s) = words_of P s"
  by (induction s) (simp_all add: words_of_skip)

lemma words_of_cong: "dropWhile P s = dropWhile P t \<Longrightarrow> words_of P s = words_of P t"
  by (metis words_of_dropWhile)

lemma parse_loop_step:
  assumes b: "behind (skip_line_breaks l) = c # CHR ''='' # v"
  shows "\<exists>l'. parse_loop st l = (case parse_line st c (takeWhile (\<lambda>x. \<not> is_line_break x) v) of
           Inl e \<Rightarrow> Inl e | Inr st' \<Rightarrow> parse_loop st' l')
    \<and> words_of is_line_break (behind l) =
        (c # CHR ''='' # takeWhile (\<lambda>x. \<not> is_line_break x) v) # words_of is_line_break (behind l')
    \<and> lexer_text l' = lexer_text l \<and> position l < position l' \<and> \<not> eof l"
proof -
  have c: "\<not> is_line_break c" using b by (metis behind_skip dropWhile_eq_Cons_conv)
  define l1 where "l1 = advance (advance (skip_line_breaks l))"
  have t: "read_type (skip_line_breaks l) = (Inr c, l1)" "behind l1 = v"
    using read_type_behind [OF b c] by (simp_all add: l1_def)
  obtain w l2 where r: "read_line l1 = (w, l2)" by (cases "read_line l1")
  note rs = read_line_spec [OF r]
  have e: "\<not> eof (skip_line_breaks l)" using b by (simp add: eof_behind)
  have w: "w = takeWhile (\<lambda>x. \<not> is_line_break x) v" using rs(1) t(2) by simp
  have p: "parse_loop st l = (case parse_line st c w of Inl e \<Rightarrow> Inl e | Inr st' \<Rightarrow> parse_loop st' l2)"
    unfolding parse_loop.simps [of st l] using e t(1) r by (simp add: Let_def)
  have d: "dropWhile (\<lambda>x. \<not> is_line_break x) (c # CHR ''='' # v) = dropWhile (\<lambda>x. \<not> is_line_break x) v"
    "takeWhile (\<lambda>x. \<not> is_line_break x) (c # CHR ''='' # v) = c # CHR ''='' # takeWhile (\<lambda>x. \<not> is_line_break x) v"
    using c by (simp_all add: is_line_break_def)
  have "words_of is_line_break (behind l) = words_of is_line_break (c # CHR ''='' # v)"
    by (metis b behind_skip words_of_dropWhile)
  also have "\<dots> = (c # CHR ''='' # w) # words_of is_line_break (dropWhile (\<lambda>x. \<not> is_line_break x) v)"
    unfolding words_of.simps [of is_line_break "c # CHR ''='' # v"] using c d w by simp
  also have "words_of is_line_break (dropWhile (\<lambda>x. \<not> is_line_break x) v) = words_of is_line_break (behind l2)"
    by (rule words_of_cong) (use rs(2) t(2) in simp)
  finally show ?thesis using p w rs(3,4) read_type_progress [OF t(1)] by (intro exI [of _ l2]) simp
qed

lemma parse_loop_stuck:
  assumes b: "behind (skip_line_breaks l) = c # cs" and n: "\<nexists>v. cs = CHR ''='' # v"
  shows "\<exists>m. parse_loop st l = Inl (Msg m)"
    and "\<exists>w ws. words_of is_line_break (behind l) = w # ws \<and> (\<nexists>x v. w = x # CHR ''='' # v)"
proof -
  have c: "\<not> is_line_break c" using b by (metis behind_skip dropWhile_eq_Cons_conv)
  obtain m l' where r: "read_type (skip_line_breaks l) = (make_error m, l')"
    using read_type_spec [OF b c] n by (cases cs) auto
  show "\<exists>m. parse_loop st l = Inl (Msg m)"
    unfolding parse_loop.simps [of st l] using b r by (simp add: Let_def eof_behind make_error_def)
  have "words_of is_line_break (behind l) = words_of is_line_break (c # cs)"
    by (metis b behind_skip words_of_dropWhile)
  also have "\<dots> = (c # takeWhile (\<lambda>x. \<not> is_line_break x) cs) # words_of is_line_break (dropWhile (\<lambda>x. \<not> is_line_break x) cs)"
    unfolding words_of.simps [of is_line_break "c # cs"] using c by simp
  finally have w: "words_of is_line_break (behind l) = \<dots>" .
  have "\<nexists>v. takeWhile (\<lambda>x. \<not> is_line_break x) cs = CHR ''='' # v" using n by (cases cs) auto
  then show "\<exists>w ws. words_of is_line_break (behind l) = w # ws \<and> (\<nexists>x v. w = x # CHR ''='' # v)" using w by blast
qed

lemma parse_loop_end: "behind (skip_line_breaks l) = [] \<Longrightarrow> parse_loop st l = Inr st \<and> words_of is_line_break (behind l) = []"
  unfolding parse_loop.simps [of st l] using words_of_dropWhile [of is_line_break "behind l"]
  by (simp add: eof_behind Let_def flip: behind_skip)

lemma parse_lines_stuck: "(\<nexists>x v. w = x # CHR ''='' # v) \<Longrightarrow> parse_lines st (w # ws) = None"
  by (cases "(st, w # ws)" rule: parse_lines.cases) auto

lemma parse_loop_lines: "to_option (parse_loop st l) = parse_lines st (words_of is_line_break (behind l))"
proof (induction "length (lexer_text l) - position l" arbitrary: st l rule: less_induct)
  case less
  consider (fin) "behind (skip_line_breaks l) = []"
    | (line) c v where "behind (skip_line_breaks l) = c # CHR ''='' # v"
    | (stuck) c cs where "behind (skip_line_breaks l) = c # cs" "\<nexists>v. cs = CHR ''='' # v"
    by (metis list.exhaust)
  then show ?case
  proof cases
    case fin
    then show ?thesis using parse_loop_end [of l st] by simp
  next
    case (line c v)
    from parse_loop_step [OF line, of st] obtain l' where
      p: "parse_loop st l = (case parse_line st c (takeWhile (\<lambda>x. \<not> is_line_break x) v) of
           Inl e \<Rightarrow> Inl e | Inr st' \<Rightarrow> parse_loop st' l')" and
      w: "words_of is_line_break (behind l) =
        (c # CHR ''='' # takeWhile (\<lambda>x. \<not> is_line_break x) v) # words_of is_line_break (behind l')" and
      m: "lexer_text l' = lexer_text l" "position l < position l'" "\<not> eof l" by blast
    have "to_option (parse_loop st' l') = parse_lines st' (words_of is_line_break (behind l'))" for st'
      by (rule less) (use m in \<open>auto simp: eof_def\<close>)
    then show ?thesis unfolding p w by (auto split: sum.splits)
  next
    case (stuck c cs)
    then show ?thesis using parse_loop_stuck(1) [OF stuck, of st] parse_loop_stuck(2) [OF stuck] parse_lines_stuck by fastforce
  qed
qed

section \<open>What the parser accepts\<close>

text \<open>The sections of a document that is being parsed: the cursor points to the last of them.\<close>

definition media_name_ok :: "media_name_line \<Rightarrow> bool" where
  "media_name_ok n \<longleftrightarrow>
     media n \<in> {''audio'', ''video'', ''text'', ''application'', ''message''}
     \<and> 0 \<le> port n \<and> port n \<le> 65535 \<and> formats n \<noteq> []
     \<and> list_all (\<lambda>f. f \<noteq> [] \<and> list_all (\<lambda>c. \<not> is_blank c) f) (formats n)"

definition description_ok :: "session_description \<Rightarrow> bool" where
  "description_ok d \<longleftrightarrow>
     list_all (\<lambda>a. attribute_key a \<noteq> []) (session_attributes d)
     \<and> list_all (\<lambda>m. media_name_ok (media_name m) \<and> list_all (\<lambda>a. attribute_key a \<noteq> []) (media_attributes m)) (media_descriptions d)"

definition parser_inv :: "parser_state \<Rightarrow> bool" where
  "parser_inv st \<longleftrightarrow>
     description_ok (description st)
     \<and> (case current_media st of
          None \<Rightarrow> media_descriptions (description st) = []
        | Some i \<Rightarrow> media_descriptions (description st) \<noteq> [] \<and> i = length (media_descriptions (description st)) - 1)"

lemma bindE_Inr: "bindE x f = Inr v \<longleftrightarrow> (\<exists>y. x = Inr y \<and> f y = Inr v)"
  by (cases x) auto

lemma parse_attribute_line_key: "parse_attribute_line v = Inr a \<Longrightarrow> attribute_key a \<noteq> []"
  by (auto simp: parse_attribute_line_def make_property_attribute_def make_attribute_def make_error_def Let_def
      split: if_splits option.splits)

lemma parse_ranged_port_range: "parse_ranged_port v = Inr p \<Longrightarrow> 0 \<le> p \<and> p \<le> 65535"
  by (auto simp: parse_ranged_port_def parse_port_def bindE_Inr make_error_def Let_def
      split: sum.splits option.splits if_splits)

lemma parse_media_name_line_ok: "parse_media_name_line v = Inr n \<Longrightarrow> media_name_ok n"
  by (auto simp: parse_media_name_line_def media_name_ok_def bindE_Inr make_error_def Let_def is_any_of_def list_all_iff
      split: if_splits dest!: parse_ranged_port_range in_set_dropD words_of_sound)

lemma parse_session_level_line_inv:
  assumes "parse_session_level_line st c v = Inr st'" and "description_ok (description st)"
  shows "description_ok (description st')" and "media_descriptions (description st') = media_descriptions (description st)"
    and "current_media st' = current_media st"
  using assms parse_attribute_line_key
  by (auto simp: parse_session_level_line_def bindE_Inr make_error_def description_ok_def split: if_splits)

lemma parse_media_level_line_inv:
  assumes "parse_media_level_line m c v = Inr m'"
  shows "media_name m' = media_name m"
    and "list_all (\<lambda>a. attribute_key a \<noteq> []) (media_attributes m) \<Longrightarrow> list_all (\<lambda>a. attribute_key a \<noteq> []) (media_attributes m')"
  using assms parse_attribute_line_key
  by (auto simp: parse_media_level_line_def bindE_Inr make_error_def split: if_splits)

lemma list_all_update:
  assumes "list_all P xs" and "i < length xs \<Longrightarrow> P x"
  shows "list_all P (xs[i := x])"
proof (cases "i < length xs")
  case True
  then show ?thesis using assms by (auto simp: list_all_iff dest: set_update_subset_insert [THEN subsetD])
qed (use assms in \<open>simp add: not_less list_update_beyond\<close>)

lemma parse_line_inv:
  assumes inv: "parser_inv st" and p: "parse_line st c v = Inr st'"
  shows "parser_inv st'"
proof (cases "c = CHR ''m''")
  case True
  then obtain n where "parse_media_name_line v = Inr n"
    "st' = st\<lparr>description := (description st)\<lparr>media_descriptions := media_descriptions (description st) @
       [\<lparr>media_name = n, connection_address = [], media_attributes = []\<rparr>]\<rparr>,
       current_media := Some (length (media_descriptions (description st)))\<rparr>"
    using p by (auto simp: parse_line_def bindE_Inr Let_def)
  then show ?thesis using inv parse_media_name_line_ok by (auto simp: parser_inv_def description_ok_def)
next
  case other: False
  show ?thesis
  proof (cases "current_media st")
    case None
    then show ?thesis using p other inv parse_session_level_line_inv [of st c v st'] by (simp add: parse_line_def parser_inv_def)
  next
    case (Some i)
    then obtain m where m: "parse_media_level_line (media_descriptions (description st) ! i) c v = Inr m"
      "st' = st\<lparr>description := (description st)\<lparr>media_descriptions := (media_descriptions (description st))[i := m]\<rparr>\<rparr>"
      "i < length (media_descriptions (description st))"
      using p other by (auto simp: parse_line_def bindE_Inr make_error_def Let_def split: if_splits)
    have "list_all (\<lambda>m. media_name_ok (media_name m) \<and> list_all (\<lambda>a. attribute_key a \<noteq> []) (media_attributes m))
        ((media_descriptions (description st))[i := m])"
      using inv m(3) parse_media_level_line_inv [OF m(1)]
      by (intro list_all_update) (auto simp: parser_inv_def description_ok_def list_all_length)
    then show ?thesis using inv Some m(2) by (simp add: parser_inv_def description_ok_def)
  qed
qed

lemma validators_safe [safe]:
  "fault_free (parse_uint64_text v f)" "fault_free (parse_int32_text v f)" "fault_free (parse_attribute_line v)"
  "fault_free (parse_time_units v)" "fault_free (parse_port v)" "fault_free (validate_offsets fs)" 
  "fault_free (check_protocols ps)"
proof -
  show "fault_free (parse_time_units v)" for v by (auto simp: parse_time_units_def Let_def split: option.splits)
  note this [safe]
  show "fault_free (validate_offsets fs)" by (induction fs) (auto intro: safe)
  show "fault_free (check_protocols ps)" by (induction ps) auto
qed (auto simp: parse_uint64_text_def parse_int32_text_def parse_attribute_line_def parse_port_def Let_def
    split: option.splits)

lemma validate_adjustments_safe: "even (length fs) \<Longrightarrow> fault_free (validate_adjustments fs)"
  by (induction fs rule: validate_adjustments.induct) (auto intro!: safe)

lemma line_validators_safe [safe]:
  "fault_free (validate_connection_information_line v)" "fault_free (validate_bandwidth_line v)"
  "fault_free (validate_timing_line v)" "fault_free (validate_repeat_time_line v)"
  "fault_free (validate_time_zone_line v)" "fault_free (parse_ranged_port v)" "fault_free (validate_origin_line v)"
proof -
  show "fault_free (validate_time_zone_line v)"
    using validate_adjustments_safe by (auto simp: validate_time_zone_line_def Let_def even_iff_mod_2_eq_zero)
  show "fault_free (parse_ranged_port v)"
    by (auto simp: parse_ranged_port_def Let_def split: sum.splits option.splits intro!: safe)
qed (auto simp: validate_connection_information_line_def validate_bandwidth_line_def validate_timing_line_def
    validate_repeat_time_line_def validate_origin_line_def Let_def split: option.splits intro!: safe)

lemma parse_media_name_line_safe [safe]: "fault_free (parse_media_name_line v)"
  by (auto simp: parse_media_name_line_def Let_def intro!: safe)

lemma parse_line_safe: "parser_inv st \<Longrightarrow> fault_free (parse_line st c v)"
  by (auto simp: parse_line_def parse_session_level_line_def parse_media_level_line_def parser_inv_def Let_def
      split: option.splits intro!: safe)

lemma parse_loop_inv:
  "parser_inv st \<Longrightarrow> fault_free (parse_loop st l) \<and> (\<forall>st'. parse_loop st l = Inr st' \<longrightarrow> parser_inv st')"
proof (induction "length (lexer_text l) - position l" arbitrary: st l rule: less_induct)
  case less
  consider (fin) "behind (skip_line_breaks l) = []"
    | (line) c v where "behind (skip_line_breaks l) = c # CHR ''='' # v"
    | (stuck) c cs where "behind (skip_line_breaks l) = c # cs" "\<nexists>v. cs = CHR ''='' # v"
    by (metis list.exhaust)
  then show ?case
  proof cases
    case fin
    then show ?thesis using parse_loop_end [of l st] less.prems by simp
  next
    case (line c v)
    from parse_loop_step [OF line, of st] obtain l' where
      p: "parse_loop st l = (case parse_line st c (takeWhile (\<lambda>x. \<not> is_line_break x) v) of
           Inl e \<Rightarrow> Inl e | Inr st' \<Rightarrow> parse_loop st' l')" and
      m: "lexer_text l' = lexer_text l" "position l < position l'" "\<not> eof l" by blast
    have IH: "parser_inv st' \<Longrightarrow> fault_free (parse_loop st' l') \<and> (\<forall>st''. parse_loop st' l' = Inr st'' \<longrightarrow> parser_inv st'')" for st'
      by (rule less(1)) (use m in \<open>auto simp: eof_def\<close>)
    show ?thesis
    proof (cases "parse_line st c (takeWhile (\<lambda>x. \<not> is_line_break x) v)")
      case (Inl e)
      then show ?thesis unfolding p using parse_line_safe [OF less.prems] by (metis Inl_Inr_False old.sum.simps(5) fault_free_def)
    next
      case (Inr st')
      then show ?thesis unfolding p using IH [OF parse_line_inv [OF less.prems Inr]] by simp
    qed
  next
    case (stuck c cs)
    then show ?thesis using parse_loop_stuck(1) [OF stuck, of st] by auto
  qed
qed

lemma initial_parser_inv: "parser_inv initial_parser_state"
  by (simp add: parser_inv_def initial_parser_state_def description_ok_def empty_session_description_def)

text \<open>The abstract parser of a document: its lines, then the required session lines.\<close>

definition read_document :: "string list \<Rightarrow> session_description option" where
  "read_document lines =
     (case parse_lines initial_parser_state lines of
        None \<Rightarrow> None
      | Some st \<Rightarrow>
          if has_version st \<and> has_origin st \<and> has_session_name st \<and> has_timing st then Some (description st) else None)"

text \<open>
  C20. The cursor of the lexer implements a parser over the list of the non-empty lines of the document:
  carriage returns, line feeds, their pairs and blank lines between lines make no difference.
\<close>

theorem parser_reads_lines:
  "to_option (parse_session_description s) = read_document (words_of is_line_break s)"
proof -
  have "to_option (parse_loop initial_parser_state (make_sdp_lexer s)) =
      parse_lines initial_parser_state (words_of is_line_break s)"
    by (simp add: parse_loop_lines behind_def make_sdp_lexer_def)
  then show ?thesis
    by (cases "parse_loop initial_parser_state (make_sdp_lexer s)")
      (auto simp: parse_session_description_def read_document_def validate_required_session_lines_def make_error_def
        dest!: sym [of "Some _"] sym [of None])
qed

lemma parsed_description_ok:
  "fault_free (parse_session_description s)"
  "parse_session_description s = Inr d \<Longrightarrow> description_ok d"
proof -
  note inv = parse_loop_inv [OF initial_parser_inv, of "make_sdp_lexer s"]
  show "fault_free (parse_session_description s)"
    using inv by (auto simp: parse_session_description_def validate_required_session_lines_def intro!: safe)
  show "description_ok d" if "parse_session_description s = Inr d"
    using that inv by (auto simp: parse_session_description_def bindE_Inr parser_inv_def)
qed

end
