(* ===== verification/Sdp_Formatter.thy ===== *)
theory Sdp_Formatter
  imports Sdp_Parser
begin

text \<open>
  The formatter of SDP documents (\<^verbatim>\<open>src/signaling/sdp/sdp_formatter.cpp\<close>), which writes the answers, and
  the round trip through the parser.
\<close>

section \<open>The formatter\<close>

abbreviation crlf :: string where "crlf \<equiv> [CHR 0x0D, CHR 0x0A]"

definition append_raw_line :: "string \<Rightarrow> char \<Rightarrow> string \<Rightarrow> string" where
  "append_raw_line out line_type v = out @ [line_type, CHR ''=''] @ v @ crlf"

definition append_origin :: "string \<Rightarrow> u64 \<Rightarrow> u64 \<Rightarrow> string" where
  "append_origin out sid version =
     append_raw_line out CHR ''o''
       (''- '' @ decimal (unat sid) @ '' '' @ decimal (unat version) @ '' IN IP4 0.0.0.0'')"

definition append_connection :: "string \<Rightarrow> string \<Rightarrow> string" where
  "append_connection out address = append_raw_line out CHR ''c'' (''IN IP4 '' @ address)"

definition append_attribute :: "string \<Rightarrow> sdp_attribute \<Rightarrow> string" where
  "append_attribute out a =
     append_raw_line out CHR ''a''
       (attribute_key a @ (if attribute_value a \<noteq> [] then CHR '':'' # attribute_value a else []))"

fun append_attributes :: "string \<Rightarrow> sdp_attribute list \<Rightarrow> string" where
  "append_attributes out [] = out"
| "append_attributes out (a # as) = append_attributes (append_attribute out a) as"

definition append_media_name :: "string \<Rightarrow> media_name_line \<Rightarrow> string" where
  "append_media_name out n =
     append_raw_line out CHR ''m''
       (media n @ '' '' @ int_to_string (port n) @ '' UDP/TLS/RTP/SAVPF'' @ concat (map (\<lambda>f. CHR '' '' # f) (formats n)))"

definition append_media_description :: "string \<Rightarrow> media_description \<Rightarrow> string" where
  "append_media_description out m =
     append_attributes (append_connection (append_media_name out (media_name m)) (connection_address m))
       (media_attributes m)"

fun append_media_descriptions :: "string \<Rightarrow> media_description list \<Rightarrow> string" where
  "append_media_descriptions out [] = out"
| "append_media_descriptions out (m # ms) = append_media_descriptions (append_media_description out m) ms"

definition format_session_description :: "session_description \<Rightarrow> string" where
  "format_session_description d =
     append_media_descriptions
       (append_attributes
         (append_raw_line
           (append_raw_line
             (append_origin (append_raw_line [] CHR ''v'' ''0'') (session_id d) (session_version d))
             CHR ''s'' ''-'')
           CHR ''t'' ''0 0'')
         (session_attributes d))
       (media_descriptions d)"

section \<open>The lines of a document\<close>

definition attribute_line :: "sdp_attribute \<Rightarrow> string" where
  "attribute_line a = attribute_key a @ (if attribute_value a \<noteq> [] then CHR '':'' # attribute_value a else [])"

definition media_name_value :: "media_name_line \<Rightarrow> string" where
  "media_name_value n = join_with CHR '' '' (media n # int_to_string (port n) # ''UDP/TLS/RTP/SAVPF'' # formats n)"

definition media_lines :: "media_description \<Rightarrow> string list" where
  "media_lines m =
     (''m='' @ media_name_value (media_name m)) # (''c=IN IP4 '' @ connection_address m)
     # map (\<lambda>a. ''a='' @ attribute_line a) (media_attributes m)"

definition origin_value :: "session_description \<Rightarrow> string" where
  "origin_value d = join_with CHR '' ''
     [''-'', decimal (unat (session_id d)), decimal (unat (session_version d)), ''IN'', ''IP4'', ''0.0.0.0'']"

definition document_lines :: "session_description \<Rightarrow> string list" where
  "document_lines d =
     [''v=0'', ''o='' @ origin_value d, ''s=-'', ''t=0 0'']
     @ map (\<lambda>a. ''a='' @ attribute_line a) (session_attributes d)
     @ concat (map media_lines (media_descriptions d))"

definition with_breaks :: "string list \<Rightarrow> string" where
  "with_breaks lines = concat (map (\<lambda>l. l @ crlf) lines)"

lemma with_breaks_append [simp]: "with_breaks (ls @ ms) = with_breaks ls @ with_breaks ms"
  by (simp add: with_breaks_def)

lemma with_breaks_simps [simp]: "with_breaks [] = []" "with_breaks (l # ls) = l @ crlf @ with_breaks ls"
  by (simp_all add: with_breaks_def)

lemma join_spaces: "join_with CHR '' '' (w # ws) = w @ concat (map (\<lambda>f. CHR '' '' # f) ws)"
  by (induction ws arbitrary: w) auto

lemma append_attributes_lines:
  "append_attributes out as = out @ with_breaks (map (\<lambda>a. ''a='' @ attribute_line a) as)"
  by (induction as arbitrary: out) (simp_all add: append_attribute_def append_raw_line_def attribute_line_def)

lemma append_media_descriptions_lines:
  "append_media_descriptions out ms = out @ with_breaks (concat (map media_lines ms))"
  by (induction ms arbitrary: out)
    (simp_all add: append_media_description_def append_attributes_lines append_connection_def append_media_name_def
      append_raw_line_def media_lines_def media_name_value_def join_spaces)

lemma format_lines: "format_session_description d = with_breaks (document_lines d)"
  by (simp add: format_session_description_def append_attributes_lines append_media_descriptions_lines
      append_origin_def append_raw_line_def document_lines_def origin_value_def)

lemma words_of_with_breaks:
  "\<forall>l \<in> set ls. l \<noteq> [] \<and> (\<forall>c \<in> set l. \<not> is_line_break c) \<Longrightarrow> words_of is_line_break (with_breaks ls) = ls"
proof (induction ls)
  case (Cons l ls)
  have "words_of is_line_break (l @ crlf @ with_breaks ls) = l # words_of is_line_break (crlf @ with_breaks ls)"
    by (rule words_of_word) (use Cons.prems in auto)
  also have "words_of is_line_break (crlf @ with_breaks ls) = ls"
    using Cons by (simp add: words_of_skip)
  finally show ?case by simp
qed simp

section \<open>Reading a formatted document\<close>

definition line_text :: "string \<Rightarrow> bool" where
  "line_text s \<longleftrightarrow> list_all (\<lambda>c. \<not> is_line_break c) s"

definition attribute_wf :: "sdp_attribute \<Rightarrow> bool" where
  "attribute_wf a \<longleftrightarrow>
     attribute_key a \<noteq> [] \<and> CHR '':'' \<notin> set (attribute_key a) \<and> line_text (attribute_line a)
     \<and> \<not> is_blank (hd (attribute_key a)) \<and> \<not> is_blank (last (attribute_line a))"

definition media_wf :: "media_description \<Rightarrow> bool" where
  "media_wf m \<longleftrightarrow>
     media_name_ok (media_name m) \<and> list_all line_text (formats (media_name m))
     \<and> line_text (connection_address m) \<and> list_all attribute_wf (media_attributes m)"

definition document_wf :: "session_description \<Rightarrow> bool" where
  "document_wf d \<longleftrightarrow> list_all attribute_wf (session_attributes d) \<and> list_all media_wf (media_descriptions d)"

text \<open>What the parser does not keep: the identity of the session and the connection addresses.\<close>

definition parsed_media :: "media_description \<Rightarrow> media_description" where
  "parsed_media m = m\<lparr>connection_address := []\<rparr>"

definition parsed_form :: "session_description \<Rightarrow> session_description" where
  "parsed_form d = d\<lparr>session_id := 0, session_version := 0, media_descriptions := map parsed_media (media_descriptions d)\<rparr>"

lemma digit_chars: "is_digit c \<Longrightarrow> \<not> is_blank c \<and> \<not> is_line_break c \<and> c \<noteq> CHR ''/''"
  by (auto simp: is_digit_def is_blank_def is_line_break_def)

lemma decimal_chars: "c \<in> set (decimal n) \<Longrightarrow> \<not> is_blank c \<and> \<not> is_line_break c \<and> c \<noteq> CHR ''/''"
  using decimal_digits [of n] digit_chars by (auto simp: list_all_iff)

lemma parse_attribute_line_format: "attribute_wf a \<Longrightarrow> parse_attribute_line (attribute_line a) = Inr a"
proof -
  assume a: "attribute_wf a"
  then have ne: "attribute_line a \<noteq> []" "hd (attribute_line a) = hd (attribute_key a)"
    by (auto simp: attribute_wf_def attribute_line_def)
  then have t: "trim_if is_blank (attribute_line a) = attribute_line a"
    using a by (intro trim_if_id) (simp add: attribute_wf_def)
  show ?thesis
  proof (cases "attribute_value a = []")
    case True
    then have "split_first CHR '':'' (attribute_line a) = None"
      using a by (simp add: split_first_None attribute_wf_def attribute_line_def)
    then show ?thesis using ne t True
      by (simp add: parse_attribute_line_def Let_def make_property_attribute_def attribute_line_def)
  next
    case False
    then have "split_first CHR '':'' (attribute_line a) = Some (attribute_key a, attribute_value a)"
      using a by (simp add: split_first_Some attribute_wf_def attribute_line_def)
    then show ?thesis using ne t a
      by (simp add: parse_attribute_line_def Let_def make_attribute_def attribute_wf_def)
  qed
qed

lemma parse_ranged_port_decimal: "n < 65536 \<Longrightarrow> parse_ranged_port (decimal n) = Inr (int n)"
proof -
  assume n: "n < 65536"
  have "split_first CHR ''/'' (decimal n) = None" using decimal_chars by (auto simp: split_first_None)
  moreover have "from_chars_signed 32 (decimal n) = Some (int n)"
    by (rule from_chars_signed_decimal) (use n in simp)
  ultimately show ?thesis using n by (simp add: parse_ranged_port_def parse_port_def)
qed

lemma protocols_ok: "check_protocols (split_all CHR ''/'' ''UDP/TLS/RTP/SAVPF'') = Inr ()"
  by (simp add: is_any_of_def media_protocols_def)

lemma media_name_words:
  assumes "media_name_ok n"
  shows "words_of is_blank (media_name_value n) = media n # decimal (nat (port n)) # ''UDP/TLS/RTP/SAVPF'' # formats n"
proof -
  have p: "int_to_string (port n) = decimal (nat (port n))" using assms by (simp add: int_to_string_def media_name_ok_def)
  have m: "media n \<noteq> []" "\<forall>c \<in> set (media n). \<not> is_blank c" using assms by (auto simp: media_name_ok_def is_blank_def)
  have "\<forall>w \<in> set (media n # decimal (nat (port n)) # ''UDP/TLS/RTP/SAVPF'' # formats n). w \<noteq> [] \<and> (\<forall>c \<in> set w. \<not> is_blank c)"
    using assms m decimal_chars by (auto simp: media_name_ok_def list_all_iff is_blank_def)
  then show ?thesis unfolding media_name_value_def p by (intro words_of_join) (auto simp: is_blank_def)
qed

lemma parse_media_name_line_format: "media_name_ok n \<Longrightarrow> parse_media_name_line (media_name_value n) = Inr n"
  using parse_ranged_port_decimal [of "nat (port n)"] protocols_ok
  by (cases "formats n") (auto simp: parse_media_name_line_def media_name_words Let_def is_any_of_def media_name_ok_def)

lemma connection_ok: "validate_connection_information_line (''IN IP4 '' @ address) = Inr ()"
proof -
  have "words_of is_blank (''IN'' @ '' IP4 '' @ address) = ''IN'' # words_of is_blank ('' IP4 '' @ address)"
    by (rule words_of_word) (auto simp: is_blank_def)
  also have "words_of is_blank ('' IP4 '' @ address) = words_of is_blank (''IP4'' @ CHR '' '' # address)"
    by (simp add: words_of_skip is_blank_def)
  also have "\<dots> = ''IP4'' # words_of is_blank (CHR '' '' # address)"
    by (rule words_of_word) (auto simp: is_blank_def)
  finally show ?thesis by (simp add: validate_connection_information_line_def is_any_of_def)
qed

lemma origin_ok: "validate_origin_line (origin_value d) = Inr ()"
proof -
  have w: "words_of is_blank (origin_value d) =
    [''-'', decimal (unat (session_id d)), decimal (unat (session_version d)), ''IN'', ''IP4'', ''0.0.0.0'']"
    unfolding origin_value_def by (rule words_of_join) (use decimal_chars in \<open>auto simp: is_blank_def\<close>)
  have t: "trim_if is_blank (decimal n) = decimal n" for n
    by (rule trim_if_id) (use decimal_chars [of "hd (decimal n)" n] decimal_chars [of "last (decimal n)" n] in simp)
  have "from_chars 64 (decimal (unat v)) = Some (unat v)" for v :: u64
    by (rule from_chars_decimal) (use unsigned_less [of v] in simp)
  then show ?thesis by (simp add: validate_origin_line_def w parse_uint64_text_def t is_any_of_def)
qed

lemma parse_lines_append: "parse_lines st (xs @ ys) = Option.bind (parse_lines st xs) (\<lambda>st. parse_lines st ys)"
  by (induction st xs rule: parse_lines.induct) (auto split: sum.splits)

lemma parse_session_attributes:
  "list_all attribute_wf as \<Longrightarrow> current_media st = None \<Longrightarrow>
   parse_lines st (map (\<lambda>a. ''a='' @ attribute_line a) as) =
     Some (st\<lparr>description := (description st)\<lparr>session_attributes := session_attributes (description st) @ as\<rparr>\<rparr>)"
  by (induction as arbitrary: st) (simp_all add: parse_line_def parse_session_level_line_def parse_attribute_line_format)

lemma parse_media_attributes:
  "list_all attribute_wf as \<Longrightarrow> media_descriptions (description st) = ms @ [m] \<Longrightarrow> current_media st = Some (length ms) \<Longrightarrow>
   parse_lines st (map (\<lambda>a. ''a='' @ attribute_line a) as) =
     Some (st\<lparr>description := (description st)\<lparr>media_descriptions :=
       ms @ [m\<lparr>media_attributes := media_attributes m @ as\<rparr>]\<rparr>\<rparr>)"
  by (induction as arbitrary: st m)
    (simp_all add: parse_line_def parse_media_level_line_def parse_attribute_line_format nth_append)

definition at_section :: "parser_state \<Rightarrow> media_description list \<Rightarrow> parser_state" where
  "at_section st ms =
     (if ms = [] then st
      else st\<lparr>description := (description st)\<lparr>media_descriptions := media_descriptions (description st) @ ms\<rparr>,
              current_media := Some (length (media_descriptions (description st)) + length ms - 1)\<rparr>)"

lemma parse_media_lines:
  assumes "media_wf m"
  shows "parse_lines st (media_lines m) = Some (at_section st [parsed_media m])"
proof -
  let ?m = "\<lparr>media_name = media_name m, connection_address = [], media_attributes = []\<rparr>"
  let ?st = "st\<lparr>description := (description st)\<lparr>media_descriptions := media_descriptions (description st) @ [?m]\<rparr>,
      current_media := Some (length (media_descriptions (description st)))\<rparr>"
  have n: "media_name_ok (media_name m)" and as: "list_all attribute_wf (media_attributes m)"
    using assms by (simp_all add: media_wf_def)
  have c: "parse_line ?st CHR ''c'' (''IN IP4 '' @ connection_address m) = Inr ?st"
    using connection_ok [of "connection_address m"] by (simp add: parse_line_def parse_media_level_line_def nth_append)
  have "parse_lines st (media_lines m) = parse_lines ?st (map (\<lambda>a. ''a='' @ attribute_line a) (media_attributes m))"
    using c parse_media_name_line_format [OF n] by (simp add: media_lines_def parse_line_def)
  also have "\<dots> = Some (at_section st [parsed_media m])"
    by (subst parse_media_attributes [OF as, of _ "media_descriptions (description st)" ?m])
      (simp_all add: at_section_def parsed_media_def)
  finally show ?thesis .
qed

lemma parse_sections:
  "list_all media_wf ms \<Longrightarrow> parse_lines st (concat (map media_lines ms)) = Some (at_section st (map parsed_media ms))"
proof (induction ms arbitrary: st)
  case (Cons m ms)
  have "parse_lines st (concat (map media_lines (m # ms))) =
      Some (at_section (at_section st [parsed_media m]) (map parsed_media ms))"
    using Cons parse_media_lines [of m st] by (simp add: parse_lines_append)
  then show ?case by (cases ms) (simp_all add: at_section_def)
qed (simp add: at_section_def)

lemma line_text_simps [simp]:
  "line_text []" "line_text (c # s) \<longleftrightarrow> \<not> is_line_break c \<and> line_text s" "line_text (a @ b) \<longleftrightarrow> line_text a \<and> line_text b"
  by (auto simp: line_text_def)

lemma line_text_decimal [simp]: "line_text (decimal n)"
  using decimal_chars by (auto simp: line_text_def list_all_iff)

lemma line_text_spaces: "list_all line_text ws \<Longrightarrow> line_text (concat (map (\<lambda>f. CHR '' '' # f) ws))"
  by (induction ws) (auto simp: is_line_break_def)

lemma media_lines_text:
  assumes "media_wf m" "l \<in> set (media_lines m)"
  shows "l \<noteq> [] \<and> line_text l"
proof -
  have "line_text (media_name_value (media_name m))"
    using assms(1) unfolding media_name_value_def join_spaces
    by (auto simp: media_wf_def media_name_ok_def int_to_string_def is_line_break_def intro!: line_text_spaces)
  then show ?thesis using assms
    by (auto simp: media_lines_def media_wf_def is_line_break_def list_all_iff attribute_wf_def)
qed

lemma document_lines_text: "document_wf d \<Longrightarrow> l \<in> set (document_lines d) \<Longrightarrow> l \<noteq> [] \<and> line_text l"
  using media_lines_text
  by (auto simp: document_lines_def document_wf_def origin_value_def list_all_iff attribute_wf_def is_line_break_def)

lemma parse_document_lines:
  assumes "document_wf d"
  shows "\<exists>st. parse_lines initial_parser_state (document_lines d) = Some st
    \<and> description st = parsed_form d \<and> validate_required_session_lines st = Inr ()"
proof -
  let ?d = "empty_session_description\<lparr>session_attributes := session_attributes d\<rparr>"
  let ?st = "\<lambda>d. \<lparr>description = d, has_version = True, has_origin = True, has_session_name = True, has_timing = True,
      current_media = None\<rparr>"
  have wf: "list_all attribute_wf (session_attributes d)" "list_all media_wf (media_descriptions d)"
    using assms by (simp_all add: document_wf_def)
  have v: "parse_uint64_text ''0'' n = Inr 0" for n
    by (simp add: parse_uint64_text_def trim_if_def is_blank_def from_chars_def is_digit_def decimal_value_def digit_value_def)
  have "words_of is_blank (join_with CHR '' '' [''0'', ''0'']) = [''0'', ''0'']"
    by (rule words_of_join) (simp_all add: is_blank_def)
  then have t: "validate_timing_line ''0 0'' = Inr ()" by (simp add: validate_timing_line_def v)
  have head: "parse_lines initial_parser_state [''v=0'', ''o='' @ origin_value d, ''s=-'', ''t=0 0''] =
      Some (?st empty_session_description)"
    using origin_ok [of d] by (simp add: initial_parser_state_def parse_line_def parse_session_level_line_def v t)
  have "parse_lines initial_parser_state (document_lines d) =
      Some (at_section (?st ?d) (map parsed_media (media_descriptions d)))"
    unfolding document_lines_def parse_lines_append head
    using parse_session_attributes [OF wf(1), of "?st empty_session_description"] parse_sections [OF wf(2), of "?st ?d"]
    by (simp add: empty_session_description_def)
  then show ?thesis
    by (auto simp: at_section_def parsed_form_def empty_session_description_def validate_required_session_lines_def)
qed

lemma parse_formatted_document:
  assumes "document_wf d"
  shows "parse_session_description (format_session_description d) = Inr (parsed_form d)"
proof -
  have "words_of is_line_break (format_session_description d) = document_lines d"
    unfolding format_lines by (rule words_of_with_breaks)
      (use document_lines_text [OF assms] in \<open>auto simp: line_text_def list_all_iff\<close>)
  then have "to_option (parse_loop initial_parser_state (make_sdp_lexer (format_session_description d))) =
      parse_lines initial_parser_state (document_lines d)"
    by (simp add: parse_loop_lines behind_def make_sdp_lexer_def)
  with parse_document_lines [OF assms] obtain st where
    "parse_loop initial_parser_state (make_sdp_lexer (format_session_description d)) = Inr st"
    "description st = parsed_form d" "validate_required_session_lines st = Inr ()"
    by (metis to_option.elims option.distinct(1) option.inject)
  then show ?thesis by (simp add: parse_session_description_def)
qed


definition demo_document :: session_description where
  "demo_document =
     \<lparr>session_id = 7, session_version = 2, session_attributes = [make_attribute ''group'' ''BUNDLE 0''],
      media_descriptions = [\<lparr>media_name = \<lparr>media = ''audio'', port = 9, formats = [''111'']\<rparr>,
        connection_address = ''0.0.0.0'', media_attributes = [make_attribute ''mid'' ''0'', make_property_attribute ''rtcp-mux'']\<rparr>]\<rparr>"

lemma demo_document_wf: "document_wf demo_document"
  by (simp add: document_wf_def demo_document_def attribute_wf_def attribute_line_def media_wf_def media_name_ok_def
      make_attribute_def make_property_attribute_def is_blank_def is_line_break_def)


text \<open>
  The parser never follows a stale section pointer, whatever the text, and every document it accepts
  has named attributes and media sections of a known kind with a valid port and at least one format.
\<close>

theorem parsed_document_well_formed:
  "fault_free (parse_session_description s)
   \<and> (parse_session_description s = Inr d \<longrightarrow> description_ok d)"
  using parsed_description_ok by blast

theorem parsed_document_well_formed_witness: "description_ok (parsed_form demo_document)"
  using parsed_document_well_formed [of "format_session_description demo_document" "parsed_form demo_document"]
    parse_formatted_document [OF demo_document_wf] by simp

end
