(* ===== verification/Sdp_Summary.thy ===== *)
theory Sdp_Summary
  imports Sdp_Formatter
begin

text \<open>
  The summary of an offer (\<^verbatim>\<open>src/signaling/sdp/sdp_summary.cpp\<close>): the ICE credentials, the fingerprint and
  the DTLS role of the session, and of every audio or video section its codecs, header extensions,
  SSRC groups, restriction identifiers and media streams.
\<close>

section \<open>Data\<close>

record fingerprint_info =
  fingerprint_algorithm :: string
  fingerprint_value :: string

record codec_info =
  payload_type :: nat
  codec_name :: string
  clock_rate :: nat
  encoding_parameters :: string
  codec_fmtp :: string
  rtcp_feedback :: "string list"

record ssrc_group_summary =
  semantics :: string
  group_ssrcs :: "nat list"

record rid_summary =
  rid_id :: string
  rid_direction :: string

record simulcast_summary =
  send_rids :: "string list"
  recv_rids :: "string list"

record msid_summary =
  stream_id :: string
  track_id :: string

record media_summary =
  kind :: string
  mid :: string
  summary_direction :: media_direction
  rtcp_mux :: bool
  rtcp_rsize :: bool
  extmap_allow_mixed :: bool
  ptime :: "nat option"
  maxptime :: "nat option"
  payload_types :: "nat list"
  codecs :: "codec_info list"
  header_extensions :: "rtp_header_extension list"
  ssrc_groups :: "ssrc_group_summary list"
  rids :: "rid_summary list"
  simulcast :: "simulcast_summary option"
  msids :: "msid_summary list"

definition empty_media_summary :: media_summary where
  "empty_media_summary =
     \<lparr>kind = [], mid = [], summary_direction = direction_unknown, rtcp_mux = False, rtcp_rsize = False,
      extmap_allow_mixed = False, ptime = None, maxptime = None, payload_types = [], codecs = [],
      header_extensions = [], ssrc_groups = [], rids = [], simulcast = None, msids = []\<rparr>"

record webrtc_offer_summary =
  ice_ufrag :: string
  ice_pwd :: string
  fingerprint :: fingerprint_info
  setup_role :: dtls_connection_role
  bundle_mids :: "string list"
  offer_media :: "media_summary list"

section \<open>Number fields\<close>

definition parse_payload_type :: "string \<Rightarrow> nat result" where
  "parse_payload_type v =
     (let v = trim_if is_blank v in
      if v = [] then make_error ''empty payload type''
      else case from_chars 32 v of
        None \<Rightarrow> make_error ''invalid payload type''
      | Some p \<Rightarrow> if p > 127 then make_error ''payload type out of range'' else Inr p)"

definition parse_clock_rate :: "string \<Rightarrow> nat result" where
  "parse_clock_rate v =
     (let v = trim_if is_blank v in
      if v = [] then make_error ''empty codec clock rate''
      else case from_chars 32 v of
        None \<Rightarrow> make_error ''invalid codec clock rate''
      | Some rate \<Rightarrow> Inr rate)"

definition parse_u32_text :: "string \<Rightarrow> nat option" where
  "parse_u32_text v =
     (let v = trim_if is_blank v in if v = [] then None else from_chars 32 v)"

section \<open>Attributes of the session and of a section\<close>

definition media_has_attribute :: "media_description \<Rightarrow> string \<Rightarrow> bool" where
  "media_has_attribute m key \<longleftrightarrow>
     list_ex (\<lambda>a. attribute_key a = key \<and> attribute_value a = []) (media_attributes m)"

definition find_effective_attribute_value :: "session_description \<Rightarrow> media_description \<Rightarrow> string \<Rightarrow> string option" where
  "find_effective_attribute_value d m key =
     (case find_attribute_value (media_attributes m) key of
        Some v \<Rightarrow> if v \<noteq> [] then Some v else find_attribute_value (session_attributes d) key
      | None \<Rightarrow> find_attribute_value (session_attributes d) key)"

definition session_has_attribute :: "session_description \<Rightarrow> string \<Rightarrow> bool" where
  "session_has_attribute d key \<longleftrightarrow> find_attributes (session_attributes d) key \<noteq> []"

definition effective_property_attribute_exists :: "session_description \<Rightarrow> media_description \<Rightarrow> string \<Rightarrow> bool" where
  "effective_property_attribute_exists d m key =
     (if media_has_attribute m key then True else session_has_attribute d key)"

fun first_media_value :: "media_description list \<Rightarrow> string \<Rightarrow> string option" where
  "first_media_value [] key = None"
| "first_media_value (m # ms) key =
     (case find_attribute_value (media_attributes m) key of
        Some v \<Rightarrow> if v \<noteq> [] then Some v else first_media_value ms key
      | None \<Rightarrow> first_media_value ms key)"

definition find_first_attribute_value :: "session_description \<Rightarrow> string \<Rightarrow> string option" where
  "find_first_attribute_value d key =
     (case find_attribute_value (session_attributes d) key of
        Some v \<Rightarrow> if v \<noteq> [] then Some v else first_media_value (media_descriptions d) key
      | None \<Rightarrow> first_media_value (media_descriptions d) key)"

fun bundle_mids_of :: "sdp_attribute list \<Rightarrow> string list" where
  "bundle_mids_of [] = []"
| "bundle_mids_of (a # as) =
     (case words_of is_blank (attribute_value a) of
        [] \<Rightarrow> bundle_mids_of as
      | f # fs \<Rightarrow> if f \<noteq> ''BUNDLE'' then bundle_mids_of as else fs @ bundle_mids_of as)"

definition parse_bundle_mids :: "session_description \<Rightarrow> string list" where
  "parse_bundle_mids d = bundle_mids_of (find_attributes (session_attributes d) ''group'')"

definition parse_fingerprint :: "string \<Rightarrow> fingerprint_info result" where
  "parse_fingerprint v =
     (let fs = words_of is_blank v in
      if length fs \<noteq> 2 then make_error ''invalid fingerprint attribute''
      else Inr \<lparr>fingerprint_algorithm = fs ! 0, fingerprint_value = fs ! 1\<rparr>)"

definition parse_setup :: "string \<Rightarrow> dtls_connection_role result" where
  "parse_setup v =
     (case parse_dtls_connection_role (trim_if is_blank v) of
        None \<Rightarrow> make_error ''invalid setup attribute''
      | Some r \<Rightarrow> if r = role_unknown then make_error ''invalid setup attribute'' else Inr r)"

text \<open>\<^verbatim>\<open>check_direction\<close> is called for the four directions in turn; a later one overwrites an earlier one.\<close>

definition check_direction :: "media_description \<Rightarrow> media_direction \<Rightarrow> media_direction \<times> nat \<Rightarrow> media_direction \<times> nat" where
  "check_direction m d st = (if media_has_attribute m (direction_to_string d) then (d, snd st + 1) else st)"

definition parse_media_direction_from_attributes :: "media_description \<Rightarrow> media_direction result" where
  "parse_media_direction_from_attributes m =
     (let (d, count) = check_direction m inactive (check_direction m recv_only
            (check_direction m send_only (check_direction m send_recv (direction_unknown, 0)))) in
      if count > 1 then make_error ''media has multiple direction attributes''
      else if d = direction_unknown then Inr send_recv
      else Inr d)"

section \<open>Codecs\<close>

definition parse_rtp_map_attribute :: "string \<Rightarrow> codec_info result" where
  "parse_rtp_map_attribute v =
     (let fs = words_of is_blank v in
      if length fs \<noteq> 2 then make_error ''invalid rtpmap attribute''
      else
        bindE (parse_payload_type (fs ! 0)) (\<lambda>p.
        let parts = split_all CHR ''/'' (fs ! 1) in
        if length parts < 2 \<or> parts ! 0 = [] \<or> parts ! 1 = [] then make_error ''invalid rtpmap codec description''
        else
          bindE (parse_clock_rate (parts ! 1)) (\<lambda>rate.
          Inr \<lparr>payload_type = p, codec_name = parts ! 0, clock_rate = rate,
               encoding_parameters = (if length parts \<ge> 3 \<and> parts ! 2 \<noteq> [] then parts ! 2 else []),
               codec_fmtp = [], rtcp_feedback = []\<rparr>)))"

text \<open>\<^verbatim>\<open>find_codec_by_payload_type\<close> yields a pointer to the first codec, through which the caller updates it.\<close>

fun update_codec :: "nat \<Rightarrow> (codec_info \<Rightarrow> codec_info) \<Rightarrow> codec_info list \<Rightarrow> codec_info list" where
  "update_codec p f [] = []"
| "update_codec p f (c # cs) = (if payload_type c = p then f c # cs else c # update_codec p f cs)"

definition payload_type_exists :: "nat list \<Rightarrow> nat \<Rightarrow> bool" where
  "payload_type_exists ps p \<longleftrightarrow> list_ex (\<lambda>q. q = p) ps"

fun add_payload_types :: "string list \<Rightarrow> media_summary \<Rightarrow> media_summary result" where
  "add_payload_types [] s = Inr s"
| "add_payload_types (f # fs) s =
     bindE (parse_payload_type f) (\<lambda>p. add_payload_types fs (s\<lparr>payload_types := payload_types s @ [p]\<rparr>))"

definition parse_payload_types :: "media_summary \<Rightarrow> media_description \<Rightarrow> media_summary result" where
  "parse_payload_types s m =
     bindE (add_payload_types (formats (media_name m)) s) (\<lambda>s.
     if payload_types s = [] then make_error ''media has no payload types'' else Inr s)"

fun add_rtp_maps :: "sdp_attribute list \<Rightarrow> media_summary \<Rightarrow> media_summary result" where
  "add_rtp_maps [] s = Inr s"
| "add_rtp_maps (a # as) s =
     bindE (parse_rtp_map_attribute (attribute_value a)) (\<lambda>codec.
     if \<not> payload_type_exists (payload_types s) (payload_type codec) then add_rtp_maps as s
     else add_rtp_maps as (s\<lparr>codecs := codecs s @ [codec]\<rparr>))"

definition set_fmtp :: "string \<Rightarrow> codec_info \<Rightarrow> codec_info" where
  "set_fmtp v codec =
     (case find_first_of is_blank v of
        None \<Rightarrow> codec
      | Some (_, tail_text) \<Rightarrow> codec\<lparr>codec_fmtp := trim_if is_blank tail_text\<rparr>)"

fun add_fmtps :: "sdp_attribute list \<Rightarrow> media_summary \<Rightarrow> media_summary result" where
  "add_fmtps [] s = Inr s"
| "add_fmtps (a # as) s =
     (let fs = words_of is_blank (attribute_value a) in
      if length fs < 2 then make_error ''invalid fmtp attribute''
      else
        bindE (parse_payload_type (fs ! 0)) (\<lambda>p.
        add_fmtps as (s\<lparr>codecs := update_codec p (set_fmtp (attribute_value a)) (codecs s)\<rparr>)))"

definition add_feedback :: "string \<Rightarrow> codec_info \<Rightarrow> codec_info" where
  "add_feedback f codec = codec\<lparr>rtcp_feedback := rtcp_feedback codec @ [f]\<rparr>"

fun add_feedbacks :: "sdp_attribute list \<Rightarrow> media_summary \<Rightarrow> media_summary result" where
  "add_feedbacks [] s = Inr s"
| "add_feedbacks (a # as) s =
     (let fs = words_of is_blank (attribute_value a) in
      if length fs < 2 then make_error ''invalid rtcp-fb attribute''
      else case find_first_of is_blank (attribute_value a) of
        None \<Rightarrow> make_error ''invalid rtcp-fb attribute''
      | Some (_, tail_text) \<Rightarrow>
          let feedback = trim_if is_blank tail_text in
          if fs ! 0 = ''*'' then add_feedbacks as (s\<lparr>codecs := map (add_feedback feedback) (codecs s)\<rparr>)
          else
            bindE (parse_payload_type (fs ! 0)) (\<lambda>p.
            add_feedbacks as (s\<lparr>codecs := update_codec p (add_feedback feedback) (codecs s)\<rparr>)))"

definition parse_codecs :: "media_summary \<Rightarrow> media_description \<Rightarrow> media_summary result" where
  "parse_codecs s m =
     bindE (add_rtp_maps (find_attributes (media_attributes m) ''rtpmap'') s) (\<lambda>s.
     bindE (add_fmtps (find_attributes (media_attributes m) ''fmtp'') s) (\<lambda>s.
     bindE (add_feedbacks (find_attributes (media_attributes m) ''rtcp-fb'') s) (\<lambda>s.
     if codecs s = [] then make_error ''media has no rtpmap codecs'' else Inr s)))"

section \<open>SSRC groups, header extensions and packet times\<close>

fun parse_group_ssrcs :: "string list \<Rightarrow> nat list result" where
  "parse_group_ssrcs [] = Inr []"
| "parse_group_ssrcs (f # fs) =
     (case parse_u32_text f of
        None \<Rightarrow> make_error ''invalid ssrc-group ssrc''
      | Some ssrc \<Rightarrow>
          if ssrc = 0 then make_error ''invalid ssrc-group ssrc''
          else bindE (parse_group_ssrcs fs) (\<lambda>ssrcs. Inr (ssrc # ssrcs)))"

fun add_ssrc_groups :: "sdp_attribute list \<Rightarrow> media_summary \<Rightarrow> media_summary result" where
  "add_ssrc_groups [] s = Inr s"
| "add_ssrc_groups (a # as) s =
     (let fs = words_of is_blank (attribute_value a) in
      if length fs < 2 then add_ssrc_groups as s
      else
        bindE (parse_group_ssrcs (tl fs)) (\<lambda>ssrcs.
        if hd fs \<noteq> [] \<and> ssrcs \<noteq> []
        then add_ssrc_groups as (s\<lparr>ssrc_groups := ssrc_groups s @ [\<lparr>semantics = hd fs, group_ssrcs = ssrcs\<rparr>]\<rparr>)
        else add_ssrc_groups as s))"

definition parse_ssrc_groups :: "media_summary \<Rightarrow> media_description \<Rightarrow> media_summary result" where
  "parse_ssrc_groups s m = add_ssrc_groups (find_attributes (media_attributes m) ''ssrc-group'') s"

fun add_header_extensions :: "sdp_attribute list \<Rightarrow> media_summary \<Rightarrow> media_summary result" where
  "add_header_extensions [] s = Inr s"
| "add_header_extensions (a # as) s =
     (case parse_attribute_value (attribute_value a) empty_header_extension of
        (False, _) \<Rightarrow> make_error ''invalid extmap attribute''
      | (True, e) \<Rightarrow> add_header_extensions as (s\<lparr>header_extensions := header_extensions s @ [e]\<rparr>))"

definition parse_header_extensions :: "media_summary \<Rightarrow> media_description \<Rightarrow> media_summary result" where
  "parse_header_extensions s m = add_header_extensions (find_attributes (media_attributes m) ''extmap'') s"

definition parse_packet_time :: "sdp_attribute list \<Rightarrow> string \<Rightarrow> nat option result" where
  "parse_packet_time as name =
     (if length as > 1 then make_error (''media has multiple '' @ name @ '' attributes'')
      else if as \<noteq> [] then
        (case parse_u32_text (attribute_value (hd as)) of
           None \<Rightarrow> make_error (''media '' @ name @ '' is invalid'')
         | Some t \<Rightarrow> if t = 0 \<or> t > 1000 then make_error (''media '' @ name @ '' is invalid'') else Inr (Some t))
      else Inr None)"

definition parse_media_timing_attributes :: "media_summary \<Rightarrow> media_description \<Rightarrow> media_summary result" where
  "parse_media_timing_attributes s m =
     bindE (parse_packet_time (find_attributes (media_attributes m) ''ptime'') ''ptime'') (\<lambda>p.
     let s = (case p of None \<Rightarrow> s | Some t \<Rightarrow> s\<lparr>ptime := Some t\<rparr>) in
     bindE (parse_packet_time (find_attributes (media_attributes m) ''maxptime'') ''maxptime'') (\<lambda>p.
     let s = (case p of None \<Rightarrow> s | Some t \<Rightarrow> s\<lparr>maxptime := Some t\<rparr>) in
     case (ptime s, maxptime s) of
       (Some t, Some maximum) \<Rightarrow> if t > maximum then make_error ''media ptime is greater than maxptime'' else Inr s
     | _ \<Rightarrow> Inr s))"

section \<open>Restriction identifiers, simulcast and streams\<close>

definition parse_rid_summary :: "string \<Rightarrow> rid_summary result" where
  "parse_rid_summary v =
     (let tokens = words_of is_space v in
      if length tokens < 2 then make_error ''rid attribute is incomplete''
      else
        let rid = \<lparr>rid_id = tokens ! 0, rid_direction = to_lower (tokens ! 1)\<rparr> in
        if rid_id rid = [] then make_error ''rid id is empty''
        else if rid_direction rid \<noteq> ''send'' \<and> rid_direction rid \<noteq> ''recv'' then make_error ''rid direction is invalid''
        else Inr rid)"

fun collect_rids :: "sdp_attribute list \<Rightarrow> string set \<Rightarrow> rid_summary list result" where
  "collect_rids [] ids = Inr []"
| "collect_rids (a # as) ids =
     (if attribute_key a \<noteq> ''rid'' then collect_rids as ids
      else
        bindE (parse_rid_summary (attribute_value a)) (\<lambda>rid.
        if rid_id rid \<in> ids then make_error ''rid id is duplicated''
        else bindE (collect_rids as (insert (rid_id rid) ids)) (\<lambda>found. Inr (rid # found))))"

definition parse_rid_summaries :: "media_description \<Rightarrow> rid_summary list result" where
  "parse_rid_summaries m = collect_rids (media_attributes m) {}"

text \<open>The loop over the characters: separators end an identifier, a tilde is dropped.\<close>

fun simulcast_rid_loop :: "string \<Rightarrow> string \<Rightarrow> string list" where
  "simulcast_rid_loop [] current = (if current \<noteq> [] then [current] else [])"
| "simulcast_rid_loop (c # cs) current =
     (if c = CHR '';'' \<or> c = CHR '','' then
        (if current \<noteq> [] then current # simulcast_rid_loop cs [] else simulcast_rid_loop cs current)
      else if c = CHR ''~'' then simulcast_rid_loop cs current
      else simulcast_rid_loop cs (current @ [c]))"

definition parse_simulcast_rid_list :: "string \<Rightarrow> string list" where
  "parse_simulcast_rid_list v = simulcast_rid_loop v []"

fun parse_simulcast_tokens :: "string list \<Rightarrow> simulcast_summary \<Rightarrow> simulcast_summary result" where
  "parse_simulcast_tokens (d # list # tokens) s =
     (let found = parse_simulcast_rid_list list in
      if to_lower d = ''send'' then parse_simulcast_tokens tokens (s\<lparr>send_rids := send_rids s @ found\<rparr>)
      else if to_lower d = ''recv'' then parse_simulcast_tokens tokens (s\<lparr>recv_rids := recv_rids s @ found\<rparr>)
      else make_error ''simulcast direction is invalid'')"
| "parse_simulcast_tokens [d] s = Inl OutOfBounds"
| "parse_simulcast_tokens [] s = Inr s"

fun simulcast_of :: "sdp_attribute list \<Rightarrow> simulcast_summary option \<Rightarrow> simulcast_summary option result" where
  "simulcast_of [] found = Inr found"
| "simulcast_of (a # as) found =
     (if attribute_key a \<noteq> ''simulcast'' then simulcast_of as found
      else if found \<noteq> None then make_error ''simulcast attribute is duplicated''
      else
        let tokens = words_of is_space (attribute_value a) in
        if length tokens < 2 \<or> length tokens mod 2 \<noteq> 0 then make_error ''simulcast attribute is invalid''
        else bindE (parse_simulcast_tokens tokens \<lparr>send_rids = [], recv_rids = []\<rparr>) (\<lambda>s. simulcast_of as (Some s)))"

definition parse_simulcast_summary :: "media_description \<Rightarrow> simulcast_summary option result" where
  "parse_simulcast_summary m = simulcast_of (media_attributes m) None"

definition parse_msid_summary :: "string \<Rightarrow> msid_summary result" where
  "parse_msid_summary v =
     (let tokens = words_of is_space v in
      if tokens = [] then make_error ''msid attribute is empty''
      else if tokens ! 0 = ''-'' then make_error ''msid stream id is invalid''
      else Inr \<lparr>stream_id = tokens ! 0, track_id = (if length tokens \<ge> 2 then tokens ! 1 else [])\<rparr>)"

fun collect_msids :: "sdp_attribute list \<Rightarrow> string set \<Rightarrow> msid_summary list result" where
  "collect_msids [] seen = Inr []"
| "collect_msids (a # as) seen =
     (if attribute_key a \<noteq> ''msid'' then collect_msids as seen
      else if attribute_value a \<in> seen then make_error ''msid attribute is duplicated''
      else
        bindE (parse_msid_summary (attribute_value a)) (\<lambda>msid.
        bindE (collect_msids as (insert (attribute_value a) seen)) (\<lambda>found. Inr (msid # found))))"

definition parse_msid_summaries :: "media_description \<Rightarrow> msid_summary list result" where
  "parse_msid_summaries m = collect_msids (media_attributes m) {}"

section \<open>Consistency of a section\<close>

definition media_has_rtp_header_extension_uri :: "media_summary \<Rightarrow> string \<Rightarrow> bool" where
  "media_has_rtp_header_extension_uri s u = (if u = [] then False else list_ex (\<lambda>e. uri e = u) (header_extensions s))"

definition media_has_rtx_codec :: "media_summary \<Rightarrow> bool" where
  "media_has_rtx_codec s \<longleftrightarrow> list_ex (\<lambda>c. iequals (codec_name c) ''rtx'') (codecs s)"

definition media_has_rid :: "media_summary \<Rightarrow> string \<Rightarrow> bool" where
  "media_has_rid s rid = (if rid = [] then False else list_ex (\<lambda>r. rid_id r = rid) (rids s))"

fun check_extensions :: "rtp_header_extension list \<Rightarrow> int set \<Rightarrow> string set \<Rightarrow> unit result" where
  "check_extensions [] ids uris = Inr ()"
| "check_extensions (e # es) ids uris =
     (if extension_id e \<le> 0 \<or> extension_id e > 255 then make_error ''media summary extmap id is out of range''
      else if extension_id e \<in> ids then make_error ''media summary extmap id is duplicated''
      else if uri e \<in> uris then make_error ''media summary extmap uri is duplicated''
      else check_extensions es (insert (extension_id e) ids) (insert (uri e) uris))"

fun check_msids :: "msid_summary list \<Rightarrow> string set \<Rightarrow> unit result" where
  "check_msids [] seen = Inr ()"
| "check_msids (m # ms) seen =
     (if stream_id m = [] \<or> stream_id m = ''-'' then make_error ''media summary msid stream id is invalid''
      else
        let v = stream_id m @ [CHR 0x0A] @ track_id m in
        if v \<in> seen then make_error ''media summary msid is duplicated'' else check_msids ms (insert v seen))"

definition k_rid_extension_uri :: string where
  "k_rid_extension_uri = ''urn:ietf:params:rtp-hdrext:sdes:rtp-stream-id''"

definition k_repaired_rid_extension_uri :: string where
  "k_repaired_rid_extension_uri = ''urn:ietf:params:rtp-hdrext:sdes:repaired-rtp-stream-id''"

definition check_simulcast :: "media_summary \<Rightarrow> unit result" where
  "check_simulcast s =
     (case simulcast s of
        None \<Rightarrow> Inr ()
      | Some x \<Rightarrow>
          if list_ex (\<lambda>rid. \<not> media_has_rid s rid) (send_rids x)
          then make_error ''media summary simulcast send references unknown rid''
          else if list_ex (\<lambda>rid. \<not> media_has_rid s rid) (recv_rids x)
          then make_error ''media summary simulcast recv references unknown rid''
          else Inr ())"

definition validate_media_summary_identity :: "media_summary \<Rightarrow> unit result" where
  "validate_media_summary_identity s =
     (if mid s = [] then make_error ''media summary mid is empty''
      else
        bindE (check_extensions (header_extensions s) {} {}) (\<lambda>_.
        let has_rid_extension = media_has_rtp_header_extension_uri s k_rid_extension_uri;
            has_repaired_rid_extension = media_has_rtp_header_extension_uri s k_repaired_rid_extension_uri in
        if has_repaired_rid_extension \<and> \<not> has_rid_extension
        then make_error ''media summary repaired-rid extmap requires rid extmap''
        else if has_repaired_rid_extension \<and> \<not> media_has_rtx_codec s
        then make_error ''media summary repaired-rid extmap requires rtx codec''
        else
          bindE (check_simulcast s) (\<lambda>_. check_msids (msids s) {})))"

section \<open>Sections and offers\<close>

definition required_value :: "string option \<Rightarrow> string \<Rightarrow> string result" where
  "required_value v name = (case v of None \<Rightarrow> make_error name | Some t \<Rightarrow> if t = [] then make_error name else Inr t)"

definition parse_media_summary :: "session_description \<Rightarrow> media_description \<Rightarrow> media_summary result" where
  "parse_media_summary d m =
     (let s = empty_media_summary\<lparr>kind := media (media_name m)\<rparr> in
      if kind s \<noteq> ''audio'' \<and> kind s \<noteq> ''video'' then make_error ''unsupported media type''
      else
        bindE (required_value (find_attribute_value (media_attributes m) ''mid'') ''media missing mid'') (\<lambda>id_text.
        bindE (parse_media_direction_from_attributes m) (\<lambda>dir.
        let s = s\<lparr>mid := id_text, summary_direction := dir, rtcp_mux := media_has_attribute m ''rtcp-mux'',
                  rtcp_rsize := media_has_attribute m ''rtcp-rsize'',
                  extmap_allow_mixed := effective_property_attribute_exists d m ''extmap-allow-mixed''\<rparr> in
        if \<not> rtcp_mux s then make_error ''media missing rtcp-mux''
        else
          bindE (required_value (find_effective_attribute_value d m ''ice-ufrag'') ''media missing ice-ufrag'') (\<lambda>_.
          bindE (required_value (find_effective_attribute_value d m ''ice-pwd'') ''media missing ice-pwd'') (\<lambda>_.
          bindE (required_value (find_effective_attribute_value d m ''fingerprint'') ''media missing fingerprint'') (\<lambda>_.
          bindE (required_value (find_effective_attribute_value d m ''setup'') ''media missing setup'') (\<lambda>_.
          bindE (parse_payload_types s m) (\<lambda>s.
          bindE (parse_codecs s m) (\<lambda>s.
          bindE (parse_header_extensions s m) (\<lambda>s.
          bindE (parse_media_timing_attributes s m) (\<lambda>s.
          bindE (parse_ssrc_groups s m) (\<lambda>s.
          bindE (parse_rid_summaries m) (\<lambda>found.
          let s = s\<lparr>rids := found\<rparr> in
          bindE (parse_simulcast_summary m) (\<lambda>found.
          let s = s\<lparr>simulcast := found\<rparr> in
          bindE (parse_msid_summaries m) (\<lambda>found.
          let s = s\<lparr>msids := found\<rparr> in
          bindE (validate_media_summary_identity s) (\<lambda>_. Inr s))))))))))))))))"

definition validate_bundle_mids :: "webrtc_offer_summary \<Rightarrow> unit result" where
  "validate_bundle_mids s =
     (if bundle_mids s = [] then make_error ''missing BUNDLE group''
      else if list_ex (\<lambda>m. \<not> list_ex (\<lambda>b. b = mid m) (bundle_mids s)) (offer_media s)
      then make_error ''media mid not present in BUNDLE group''
      else Inr ())"

fun summarise_media :: "session_description \<Rightarrow> media_description list \<Rightarrow> media_summary list result" where
  "summarise_media d [] = Inr []"
| "summarise_media d (m # ms) =
     (if media (media_name m) \<noteq> ''audio'' \<and> media (media_name m) \<noteq> ''video'' then summarise_media d ms
      else
        bindE (parse_media_summary d m) (\<lambda>s.
        bindE (summarise_media d ms) (\<lambda>ss. Inr (s # ss))))"

definition extract_webrtc_offer_summary :: "session_description \<Rightarrow> webrtc_offer_summary result" where
  "extract_webrtc_offer_summary d =
     bindE (required_value (find_first_attribute_value d ''ice-ufrag'') ''missing ice-ufrag'') (\<lambda>ufrag.
     bindE (required_value (find_first_attribute_value d ''ice-pwd'') ''missing ice-pwd'') (\<lambda>pwd.
     bindE (required_value (find_first_attribute_value d ''fingerprint'') ''missing fingerprint'') (\<lambda>fp_text.
     bindE (parse_fingerprint fp_text) (\<lambda>fp.
     bindE (required_value (find_first_attribute_value d ''setup'') ''missing setup'') (\<lambda>setup_text.
     bindE (parse_setup setup_text) (\<lambda>role.
     bindE (summarise_media d (media_descriptions d)) (\<lambda>ms.
     if ms = [] then make_error ''missing audio or video media''
     else
       let s = \<lparr>ice_ufrag = ufrag, ice_pwd = pwd, fingerprint = fp, setup_role = role,
                bundle_mids = parse_bundle_mids d, offer_media = ms\<rparr> in
       bindE (validate_bundle_mids s) (\<lambda>_. Inr s))))))))"

section \<open>The accepted part of an offer\<close>

text \<open>\<^verbatim>\<open>original_offer.media[static_cast<std::size_t>(mline_index)]\<close>, without a check.\<close>

fun pick_media :: "media_summary list \<Rightarrow> int list \<Rightarrow> media_summary list result" where
  "pick_media ms [] = Inr []"
| "pick_media ms (i # is) =
     (if 0 \<le> i \<and> nat i < length ms then bindE (pick_media ms is) (\<lambda>picked. Inr (ms ! nat i # picked)) else Inl OutOfBounds)"

fun check_mid_order :: "string list \<Rightarrow> media_summary list \<Rightarrow> unit result" where
  "check_mid_order (b # bs) (m # ms) =
     (if b \<noteq> mid m then make_error (''runtime offer filter bundle mid order mismatch expected='' @ mid m @ '' actual='' @ b)
      else check_mid_order bs ms)"
| "check_mid_order _ _ = Inr ()"

definition make_offer_summary :: "webrtc_offer_summary \<Rightarrow> int list \<Rightarrow> webrtc_offer_summary result" where
  "make_offer_summary original accepted =
     bindE (pick_media (offer_media original) accepted) (\<lambda>ms.
     let mids = filter (\<lambda>b. list_ex (\<lambda>m. mid m = b) ms) (bundle_mids original) in
     if length mids \<noteq> length ms then make_error ''runtime offer filter bundle mids and accepted mids size mismatch''
     else bindE (check_mid_order mids ms) (\<lambda>_. Inr (original\<lparr>bundle_mids := mids, offer_media := ms\<rparr>)))"

end
