(* ===== verification/H264_Fmtp.thy ===== *)
theory H264_Fmtp
  imports Text_Split
begin

text \<open>
  The H.264 format parameters (\<^verbatim>\<open>src/signaling/sdp/h264_fmtp_compat.cpp\<close>): parsing, the answer to an
  offered configuration, and whether a subscriber can decode what a publisher sends.
\<close>

section \<open>Character classes and hexadecimal numbers\<close>

text \<open>\<^verbatim>\<open>std::isxdigit\<close> in the C locale, and the value of a digit.\<close>

definition is_hex_digit :: "char \<Rightarrow> bool" where
  "is_hex_digit c \<longleftrightarrow> is_digit c \<or> 97 \<le> (of_char c :: nat) \<and> (of_char c :: nat) \<le> 102
     \<or> 65 \<le> (of_char c :: nat) \<and> (of_char c :: nat) \<le> 70"

definition hex_value :: "char \<Rightarrow> nat" where
  "hex_value c = (if is_digit c then digit_value c
     else if (of_char c :: nat) \<ge> 97 then of_char c - 87 else of_char c - 55)"

definition k_hex :: string where
  "k_hex = ''0123456789abcdef''"

section \<open>Profiles and levels\<close>

datatype h264_profile_kind =
  profile_unknown | profile_constrained_baseline | profile_baseline | profile_main | profile_constrained_high | profile_high

record h264_profile_level_id =
  profile_idc :: u8
  profile_iop :: u8
  level_idc :: u8
  profile :: h264_profile_kind
  normalized_value :: string

record h264_fmtp_parameters =
  has_packetization_mode :: bool
  packetization_mode :: nat
  has_level_asymmetry_allowed :: bool
  level_asymmetry_allowed :: bool
  profile_level_id :: "h264_profile_level_id option"

definition empty_h264_parameters :: h264_fmtp_parameters where
  "empty_h264_parameters =
     \<lparr>has_packetization_mode = False, packetization_mode = 0, has_level_asymmetry_allowed = False,
      level_asymmetry_allowed = False, profile_level_id = None\<rparr>"

definition parse_u8_decimal :: "string \<Rightarrow> nat result" where
  "parse_u8_decimal v =
     (let normalized = trim_if is_space v in
      if normalized = [] then make_error ''h264 fmtp integer is empty''
      else case from_chars 32 normalized of
        None \<Rightarrow> make_error ''h264 fmtp integer is invalid''
      | Some parsed \<Rightarrow> if parsed > 255 then make_error ''h264 fmtp integer is invalid'' else Inr parsed)"

definition parse_boolean_01 :: "string \<Rightarrow> bool result" where
  "parse_boolean_01 v =
     (let normalized = to_lower (trim_if is_space v) in
      if normalized = ''1'' \<or> normalized = ''true'' \<or> normalized = ''yes'' then Inr True
      else if normalized = ''0'' \<or> normalized = ''false'' \<or> normalized = ''no'' then Inr False
      else make_error ''h264 fmtp boolean is invalid'')"

definition parse_hex_byte :: "string \<Rightarrow> u8 result" where
  "parse_hex_byte v =
     (case v of
        [h, l] \<Rightarrow>
          if is_hex_digit h \<and> is_hex_digit l then Inr (word_of_nat (16 * hex_value h + hex_value l))
          else make_error ''h264 profile-level-id byte is invalid''
      | _ \<Rightarrow> make_error ''h264 profile-level-id byte length is invalid'')"

definition classify_h264_profile :: "u8 \<Rightarrow> u8 \<Rightarrow> h264_profile_kind" where
  "classify_h264_profile idc iop =
     (if idc = 0x42 then (if iop AND 0x40 \<noteq> 0 then profile_constrained_baseline else profile_baseline)
      else if idc = 0x4d then (if iop AND 0x80 \<noteq> 0 then profile_constrained_baseline else profile_main)
      else if idc = 0x58 then (if iop AND 0xc0 = 0xc0 then profile_constrained_baseline else profile_unknown)
      else if idc = 0x64 then (if iop AND 0x0c = 0x0c then profile_constrained_high else profile_high)
      else profile_unknown)"

definition parse_profile_level_id :: "string \<Rightarrow> h264_profile_level_id result" where
  "parse_profile_level_id v =
     (let normalized = to_lower (trim_if is_space v) in
      if length normalized \<noteq> 6 then make_error ''h264 profile-level-id length is invalid''
      else if list_ex (\<lambda>c. \<not> is_hex_digit c) normalized then make_error ''h264 profile-level-id contains non hex digit''
      else
        bindE (parse_hex_byte (take 2 normalized)) (\<lambda>idc.
        bindE (parse_hex_byte (take 2 (drop 2 normalized))) (\<lambda>iop.
        bindE (parse_hex_byte (take 2 (drop 4 normalized))) (\<lambda>level.
        let kind = classify_h264_profile idc iop in
        if kind = profile_unknown then make_error ''h264 profile-level-id profile is unsupported''
        else Inr \<lparr>profile_idc = idc, profile_iop = iop, level_idc = level, profile = kind, normalized_value = normalized\<rparr>))))"

definition profile_is_baseline_family :: "h264_profile_kind \<Rightarrow> bool" where
  "profile_is_baseline_family p \<longleftrightarrow> p = profile_baseline \<or> p = profile_constrained_baseline"

definition profile_is_high_family :: "h264_profile_kind \<Rightarrow> bool" where
  "profile_is_high_family p \<longleftrightarrow> p = profile_high \<or> p = profile_constrained_high"

definition profiles_are_answer_compatible :: "h264_profile_kind \<Rightarrow> h264_profile_kind \<Rightarrow> bool" where
  "profiles_are_answer_compatible offer_profile local_profile =
     (if offer_profile = profile_unknown \<or> local_profile = profile_unknown then False
      else if offer_profile = local_profile then True
      else if profile_is_baseline_family offer_profile \<and> profile_is_baseline_family local_profile then True
      else if profile_is_high_family offer_profile \<and> profile_is_high_family local_profile then True
      else False)"

definition publisher_profile_is_decodable_by_subscriber :: "h264_profile_kind \<Rightarrow> h264_profile_kind \<Rightarrow> bool" where
  "publisher_profile_is_decodable_by_subscriber publisher_profile subscriber_profile =
     (if publisher_profile = profile_unknown \<or> subscriber_profile = profile_unknown then False
      else if publisher_profile = subscriber_profile then True
      else if publisher_profile = profile_constrained_baseline \<and> profile_is_baseline_family subscriber_profile then True
      else if publisher_profile = profile_constrained_high \<and> profile_is_high_family subscriber_profile then True
      else False)"

definition level_rank :: "h264_profile_level_id \<Rightarrow> nat" where
  "level_rank p =
     (if level_idc p = 0x0b \<and> profile_iop p AND 0x10 \<noteq> 0 then 9 else unat (level_idc p))"

text \<open>The six hexadecimal digits written into \<^verbatim>\<open>buffer\<close>.\<close>

definition hex_byte :: "u8 \<Rightarrow> string" where
  "hex_byte b = [k_hex ! unat (drop_bit 4 b AND 0x0f), k_hex ! unat (b AND 0x0f)]"

definition select_answer_profile_level_id ::
  "h264_profile_level_id \<Rightarrow> h264_profile_level_id \<Rightarrow> bool \<Rightarrow> h264_profile_level_id" where
  "select_answer_profile_level_id offer local_id asymmetry =
     (let selected = local_id;
          selected =
            (if profile_is_baseline_family (profile offer) \<and> profile_is_baseline_family (profile local_id)
                \<and> (profile offer = profile_constrained_baseline \<or> profile local_id = profile_constrained_baseline)
             then selected\<lparr>profile := profile_constrained_baseline, profile_idc := 0x42, profile_iop := 0xe0\<rparr> else selected);
          selected =
            (if profile_is_high_family (profile offer) \<and> profile_is_high_family (profile local_id)
                \<and> (profile offer = profile_constrained_high \<or> profile local_id = profile_constrained_high)
             then selected\<lparr>profile := profile_constrained_high, profile_idc := 0x64, profile_iop := 0x0c\<rparr> else selected);
          selected =
            (if \<not> asymmetry \<and> level_rank offer < level_rank local_id
             then selected\<lparr>level_idc := level_idc offer\<rparr> else selected) in
      selected\<lparr>normalized_value :=
        hex_byte (profile_idc selected) @ hex_byte (profile_iop selected) @ hex_byte (level_idc selected)\<rparr>)"

definition make_default_constrained_baseline_profile_level_id :: h264_profile_level_id where
  "make_default_constrained_baseline_profile_level_id =
     \<lparr>profile_idc = 0x42, profile_iop = 0xe0, level_idc = 0x1f, profile = profile_constrained_baseline,
      normalized_value = ''42e01f''\<rparr>"

definition effective_packetization_mode_for_answer :: "h264_fmtp_parameters \<Rightarrow> nat result" where
  "effective_packetization_mode_for_answer p =
     (if \<not> has_packetization_mode p then Inr 1
      else if packetization_mode p = 1 then Inr 1
      else make_error ''h264 packetization-mode is unsupported'')"

definition effective_packetization_mode_for_relay :: "h264_fmtp_parameters \<Rightarrow> nat result" where
  "effective_packetization_mode_for_relay p =
     (if \<not> has_packetization_mode p then Inr 1
      else if packetization_mode p = 1 then Inr 1
      else make_error ''h264 relay packetization-mode is unsupported'')"

definition make_answer_fmtp :: "h264_profile_level_id \<Rightarrow> nat \<Rightarrow> bool \<Rightarrow> string" where
  "make_answer_fmtp p mode asymmetry =
     ''level-asymmetry-allowed='' @ (if asymmetry then ''1'' else ''0'') @ '';packetization-mode='' @ decimal mode
     @ '';profile-level-id='' @ normalized_value p"

definition h264_level_asymmetry_allowed_effective_value :: "h264_fmtp_parameters \<Rightarrow> bool" where
  "h264_level_asymmetry_allowed_effective_value p \<longleftrightarrow> has_level_asymmetry_allowed p \<and> level_asymmetry_allowed p"

section \<open>Parameter lists\<close>

definition parse_h264_part :: "string \<Rightarrow> h264_fmtp_parameters \<Rightarrow> h264_fmtp_parameters result" where
  "parse_h264_part raw_part p =
     (let part = trim_if is_space raw_part in
      if part = [] then Inr p
      else case split_first CHR ''='' part of
        None \<Rightarrow> Inr p
      | Some (before, behind) \<Rightarrow>
          let key = to_lower (trim_if is_space before); v = trim_if is_space behind in
          if key = ''packetization-mode'' then
            bindE (parse_u8_decimal v) (\<lambda>parsed. Inr (p\<lparr>has_packetization_mode := True, packetization_mode := parsed\<rparr>))
          else if key = ''level-asymmetry-allowed'' then
            bindE (parse_boolean_01 v) (\<lambda>parsed. Inr (p\<lparr>has_level_asymmetry_allowed := True, level_asymmetry_allowed := parsed\<rparr>))
          else if key = ''profile-level-id'' then
            bindE (parse_profile_level_id v) (\<lambda>parsed. Inr (p\<lparr>profile_level_id := Some parsed\<rparr>))
          else Inr p)"

fun parse_h264_parts :: "string list \<Rightarrow> h264_fmtp_parameters \<Rightarrow> h264_fmtp_parameters result" where
  "parse_h264_parts [] p = Inr p"
| "parse_h264_parts (raw_part # parts) p = bindE (parse_h264_part raw_part p) (parse_h264_parts parts)"

definition parse_h264_fmtp :: "string \<Rightarrow> h264_fmtp_parameters result" where
  "parse_h264_fmtp fmtp = parse_h264_parts (split_all CHR '';'' fmtp) empty_h264_parameters"

section \<open>Negotiation\<close>

definition value_or_default :: "h264_profile_level_id option \<Rightarrow> h264_profile_level_id" where
  "value_or_default p = (case p of Some q \<Rightarrow> q | None \<Rightarrow> make_default_constrained_baseline_profile_level_id)"

definition negotiate_h264_fmtp_for_answer :: "string \<Rightarrow> string \<Rightarrow> string result" where
  "negotiate_h264_fmtp_for_answer offer_fmtp local_fmtp =
     bindE (parse_h264_fmtp offer_fmtp) (\<lambda>offer.
     bindE (parse_h264_fmtp local_fmtp) (\<lambda>local_parameters.
     bindE (effective_packetization_mode_for_answer offer) (\<lambda>offer_mode.
     bindE (effective_packetization_mode_for_answer local_parameters) (\<lambda>local_mode.
     if offer_mode \<noteq> local_mode then make_error ''h264 packetization-mode is not compatible''
     else
       let offer_id = value_or_default (profile_level_id offer);
           local_id = value_or_default (profile_level_id local_parameters) in
       if \<not> profiles_are_answer_compatible (profile offer_id) (profile local_id)
       then make_error ''h264 profile is not compatible''
       else
         let asymmetry = (h264_level_asymmetry_allowed_effective_value offer
                \<and> h264_level_asymmetry_allowed_effective_value local_parameters) in
         Inr (make_answer_fmtp (select_answer_profile_level_id offer_id local_id asymmetry) offer_mode asymmetry)))))"

definition check_h264_fmtp_relay_compatibility :: "string \<Rightarrow> string \<Rightarrow> bool result" where
  "check_h264_fmtp_relay_compatibility publisher_fmtp subscriber_fmtp =
     bindE (parse_h264_fmtp publisher_fmtp) (\<lambda>publisher.
     bindE (parse_h264_fmtp subscriber_fmtp) (\<lambda>subscriber.
     case effective_packetization_mode_for_relay publisher of
       Inl _ \<Rightarrow> Inr False
     | Inr publisher_mode \<Rightarrow>
         (case effective_packetization_mode_for_relay subscriber of
            Inl _ \<Rightarrow> Inr False
          | Inr subscriber_mode \<Rightarrow>
              if publisher_mode \<noteq> subscriber_mode then Inr False
              else
                (case (profile_level_id publisher, profile_level_id subscriber) of
                   (Some p, Some s) \<Rightarrow>
                     if \<not> publisher_profile_is_decodable_by_subscriber (profile p) (profile s) then Inr False
                     else if level_rank s < level_rank p then Inr False
                     else Inr True
                 | _ \<Rightarrow> Inr True))))"

section \<open>What the answers look like\<close>

lemma k_hex_digits:
  assumes "d < 16"
  shows "is_hex_digit (k_hex ! d)" "hex_value (k_hex ! d) = d" "to_lower_char (k_hex ! d) = k_hex ! d"
    "\<not> is_space (k_hex ! d)" "k_hex ! d \<noteq> CHR '';''" "k_hex ! d \<noteq> CHR ''=''"
proof -
  have all: "\<forall>d \<in> set [0..<16]. is_hex_digit (k_hex ! d) \<and> hex_value (k_hex ! d) = d \<and> to_lower_char (k_hex ! d) = k_hex ! d
     \<and> \<not> is_space (k_hex ! d) \<and> k_hex ! d \<noteq> CHR '';'' \<and> k_hex ! d \<noteq> CHR ''=''" by code_simp
  have "d \<in> set [0..<16]" using assms by simp
  then show "is_hex_digit (k_hex ! d)" "hex_value (k_hex ! d) = d" "to_lower_char (k_hex ! d) = k_hex ! d"
    "\<not> is_space (k_hex ! d)" "k_hex ! d \<noteq> CHR '';''" "k_hex ! d \<noteq> CHR ''=''" using all by blast+
qed

lemma low_digit: "unat (b AND 0x0f :: u8) = unat b mod 16"
proof -
  have "b AND 0x0f = take_bit 4 b" by (simp add: take_bit_eq_mask mask_numeral)
  then show ?thesis by (simp add: take_bit_eq_mod unat_mod_distrib)
qed

lemma high_digit: "unat (drop_bit 4 b AND 0x0f :: u8) = unat b div 16"
proof -
  have "unat b div 16 < 16" using unsigned_less [of b, where 'a = nat] by simp
  then show ?thesis unfolding low_digit by (simp add: drop_bit_eq_div unat_div_distrib)
qed

lemma hex_byte_digits:
  "\<exists>h l. h < 16 \<and> l < 16 \<and> hex_byte b = [k_hex ! h, k_hex ! l] \<and> 16 * h + l = unat b"
proof -
  have "unat b div 16 < 16" using unsigned_less [of b, where 'a = nat] by simp
  then show ?thesis
    by (rule_tac x = "unat b div 16" in exI, rule_tac x = "unat b mod 16" in exI) (simp only: hex_byte_def high_digit, simp add: low_digit)
qed

lemma parse_hex_byte_digits: "parse_hex_byte (hex_byte b) = Inr b"
proof -
  obtain h l where "h < 16" "l < 16" "hex_byte b = [k_hex ! h, k_hex ! l]" "16 * h + l = unat b"
    using hex_byte_digits by blast
  then show ?thesis using k_hex_digits [of h] k_hex_digits [of l] by (simp add: parse_hex_byte_def)
qed

lemma hex_byte_chars:
  "length (hex_byte b) = 2" "\<forall>c \<in> set (hex_byte b). is_hex_digit c \<and> to_lower_char c = c \<and> \<not> is_space c \<and> c \<noteq> CHR '';'' \<and> c \<noteq> CHR ''=''"
proof -
  obtain h l where "h < 16" "l < 16" "hex_byte b = [k_hex ! h, k_hex ! l]" using hex_byte_digits by blast
  then show "length (hex_byte b) = 2"
    "\<forall>c \<in> set (hex_byte b). is_hex_digit c \<and> to_lower_char c = c \<and> \<not> is_space c \<and> c \<noteq> CHR '';'' \<and> c \<noteq> CHR ''=''"
    using k_hex_digits by auto
qed

definition profile_text :: "u8 \<Rightarrow> u8 \<Rightarrow> u8 \<Rightarrow> string" where
  "profile_text idc iop level = hex_byte idc @ hex_byte iop @ hex_byte level"

lemma profile_text_chars:
  "length (profile_text a b c) = 6"
  "\<forall>x \<in> set (profile_text a b c). is_hex_digit x \<and> to_lower_char x = x \<and> \<not> is_space x \<and> x \<noteq> CHR '';'' \<and> x \<noteq> CHR ''=''"
  using hex_byte_chars by (auto simp: profile_text_def)

lemma to_lower_plain: "\<forall>x \<in> set s. to_lower_char x = x \<Longrightarrow> to_lower s = s"
  unfolding to_lower_def by (simp add: map_idI)

lemma trim_plain: "\<forall>x \<in> set s. \<not> P x \<Longrightarrow> trim_if P s = s"
  by (rule trim_if_id) (cases "s = []"; simp)

lemma parse_profile_text:
  assumes "classify_h264_profile idc iop \<noteq> profile_unknown"
  shows "parse_profile_level_id (profile_text idc iop level) =
    Inr \<lparr>profile_idc = idc, profile_iop = iop, level_idc = level, profile = classify_h264_profile idc iop,
        normalized_value = profile_text idc iop level\<rparr>"
proof -
  let ?s = "profile_text idc iop level"
  have n: "to_lower (trim_if is_space ?s) = ?s" using profile_text_chars(2) by (simp add: to_lower_plain trim_plain)
  have x: "\<not> list_ex (\<lambda>c. \<not> is_hex_digit c) ?s" using profile_text_chars(2) by (auto simp: list_ex_iff)
  have t: "take 2 ?s = hex_byte idc" "take 2 (drop 2 ?s) = hex_byte iop" "take 2 (drop 4 ?s) = hex_byte level"
    by (simp_all add: profile_text_def hex_byte_chars)
  show ?thesis unfolding parse_profile_level_id_def Let_def n
    using x assms by (simp add: t parse_hex_byte_digits profile_text_chars(1))
qed

text \<open>The answers of the server: constrained baseline, packetization mode 1.\<close>

definition answer_profile :: "u8 \<Rightarrow> h264_profile_level_id" where
  "answer_profile level =
     \<lparr>profile_idc = 0x42, profile_iop = 0xe0, level_idc = level, profile = profile_constrained_baseline,
      normalized_value = profile_text 0x42 0xe0 level\<rparr>"

definition answer_parameters :: "u8 \<Rightarrow> bool \<Rightarrow> h264_fmtp_parameters" where
  "answer_parameters level asymmetry =
     \<lparr>has_packetization_mode = True, packetization_mode = 1, has_level_asymmetry_allowed = True,
      level_asymmetry_allowed = asymmetry, profile_level_id = Some (answer_profile level)\<rparr>"

lemma parse_h264_part_plain:
  assumes "\<forall>x \<in> set key. \<not> is_space x \<and> x \<noteq> CHR ''=''" "\<forall>x \<in> set v. \<not> is_space x" "key \<noteq> []"
  shows "parse_h264_part (key @ CHR ''='' # v) p =
     (if to_lower key = ''packetization-mode'' then
        bindE (parse_u8_decimal v) (\<lambda>parsed. Inr (p\<lparr>has_packetization_mode := True, packetization_mode := parsed\<rparr>))
      else if to_lower key = ''level-asymmetry-allowed'' then
        bindE (parse_boolean_01 v) (\<lambda>parsed. Inr (p\<lparr>has_level_asymmetry_allowed := True, level_asymmetry_allowed := parsed\<rparr>))
      else if to_lower key = ''profile-level-id'' then
        bindE (parse_profile_level_id v) (\<lambda>parsed. Inr (p\<lparr>profile_level_id := Some parsed\<rparr>))
      else Inr p)"
proof -
  have "trim_if is_space (key @ CHR ''='' # v) = key @ CHR ''='' # v"
    by (rule trim_plain) (use assms in \<open>auto simp: is_space_def\<close>)
  moreover have "split_first CHR ''='' (key @ CHR ''='' # v) = Some (key, v)" using assms(1) by (auto simp: split_first_Some)
  ultimately show ?thesis using assms by (simp add: parse_h264_part_def Let_def trim_plain)
qed

definition made_profile :: "u8 \<Rightarrow> u8 \<Rightarrow> u8 \<Rightarrow> h264_profile_level_id" where
  "made_profile idc iop level =
     \<lparr>profile_idc = idc, profile_iop = iop, level_idc = level, profile = classify_h264_profile idc iop,
      normalized_value = profile_text idc iop level\<rparr>"

lemma parse_made_fmtp:
  assumes "classify_h264_profile idc iop \<noteq> profile_unknown"
  shows "parse_h264_fmtp (make_answer_fmtp (made_profile idc iop level) 1 asymmetry) =
    Inr \<lparr>has_packetization_mode = True, packetization_mode = 1, has_level_asymmetry_allowed = True,
      level_asymmetry_allowed = asymmetry, profile_level_id = Some (made_profile idc iop level)\<rparr>"
proof -
  let ?a = "''level-asymmetry-allowed'' @ CHR ''='' # (if asymmetry then ''1'' else ''0'')"
  let ?b = "''packetization-mode'' @ CHR ''='' # ''1''"
  let ?c = "''profile-level-id'' @ CHR ''='' # profile_text idc iop level"
  have d: "decimal 1 = ''1''" by code_simp
  have "make_answer_fmtp (made_profile idc iop level) 1 asymmetry = join_with CHR '';'' [?a, ?b, ?c]"
    unfolding make_answer_fmtp_def d by (simp add: made_profile_def)
  moreover have "split_all CHR '';'' (join_with CHR '';'' [?a, ?b, ?c]) = [?a, ?b, ?c]"
    by (rule split_all_join) (use profile_text_chars(2) in auto)
  ultimately have split: "split_all CHR '';'' (make_answer_fmtp (made_profile idc iop level) 1 asymmetry) = [?a, ?b, ?c]" by simp
  have a: "parse_h264_part ?a p = Inr (p\<lparr>has_level_asymmetry_allowed := True, level_asymmetry_allowed := asymmetry\<rparr>)" for p
    by (subst parse_h264_part_plain)
      (auto simp: is_space_def to_lower_def to_lower_char_def is_upper_def parse_boolean_01_def trim_if_def)
  have b: "parse_h264_part ?b p = Inr (p\<lparr>has_packetization_mode := True, packetization_mode := 1\<rparr>)" for p
    by (subst parse_h264_part_plain)
      (auto simp: is_space_def to_lower_def to_lower_char_def is_upper_def parse_u8_decimal_def trim_if_def from_chars_def
        is_digit_def decimal_value_def digit_value_def)
  have c: "parse_h264_part ?c p = Inr (p\<lparr>profile_level_id := Some (made_profile idc iop level)\<rparr>)" for p
    by (subst parse_h264_part_plain)
      (use profile_text_chars(2) assms in \<open>auto simp: is_space_def to_lower_def to_lower_char_def is_upper_def
        parse_profile_text made_profile_def\<close>)
  show ?thesis unfolding parse_h264_fmtp_def split parse_h264_parts.simps a b c bindE.simps
    by (simp add: empty_h264_parameters_def)
qed

lemma answer_profile_made: "answer_profile level = made_profile 0x42 0xe0 level"
  by (simp add: answer_profile_def made_profile_def classify_h264_profile_def)

lemma parse_answer_fmtp: "parse_h264_fmtp (make_answer_fmtp (answer_profile level) 1 asymmetry) = Inr (answer_parameters level asymmetry)"
  unfolding answer_profile_made by (subst parse_made_fmtp)
    (simp_all add: classify_h264_profile_def answer_parameters_def answer_profile_made)

lemma iop_level_bit: "(0xe0 :: u8) AND 0x10 = 0"
  by simp

lemma level_rank_answer [simp]: "level_rank (answer_profile level) = unat level"
  by (simp add: level_rank_def answer_profile_def)

text \<open>Answers to a peer that allows no asymmetry take over the level of the offer when it is the lower one.\<close>

definition answer_level :: "h264_profile_level_id \<Rightarrow> bool \<Rightarrow> u8" where
  "answer_level offer asymmetry = (if \<not> asymmetry \<and> level_rank offer < 31 then level_idc offer else 0x1f)"

lemma select_answer:
  assumes "profiles_are_answer_compatible (profile offer) profile_constrained_baseline"
  shows "select_answer_profile_level_id offer (answer_profile 0x1f) asymmetry = answer_profile (answer_level offer asymmetry)"
proof -
  have "profile_is_baseline_family (profile offer)"
    using assms by (auto simp: profiles_are_answer_compatible_def profile_is_baseline_family_def profile_is_high_family_def split: if_splits)
  moreover have "profile (answer_profile 0x1f) = profile_constrained_baseline" by (simp add: answer_profile_def)
  moreover have "level_rank (answer_profile 0x1f) = 31" by simp
  ultimately show ?thesis
    by (auto simp: select_answer_profile_level_id_def Let_def profile_is_baseline_family_def profile_is_high_family_def
        answer_level_def answer_profile_def profile_text_def)
qed

lemma negotiate_with_answer:
  assumes offer: "parse_h264_fmtp offer_fmtp = Inr offer"
  shows "negotiate_h264_fmtp_for_answer offer_fmtp (make_answer_fmtp (answer_profile 0x1f) 1 True) =
    bindE (effective_packetization_mode_for_answer offer) (\<lambda>mode.
    if \<not> profiles_are_answer_compatible (profile (value_or_default (profile_level_id offer))) profile_constrained_baseline
    then make_error ''h264 profile is not compatible''
    else let asymmetry = h264_level_asymmetry_allowed_effective_value offer in
      Inr (make_answer_fmtp (answer_profile (answer_level (value_or_default (profile_level_id offer)) asymmetry)) 1 asymmetry))"
proof -
  have p: "profile (answer_profile 0x1f) = profile_constrained_baseline" by (simp add: answer_profile_def)
  have v: "value_or_default (profile_level_id (answer_parameters 0x1f True)) = answer_profile 0x1f"
    by (simp add: value_or_default_def answer_parameters_def)
  have m: "effective_packetization_mode_for_answer (answer_parameters 0x1f True) = Inr 1"
    by (simp add: effective_packetization_mode_for_answer_def answer_parameters_def)
  have a: "h264_level_asymmetry_allowed_effective_value (answer_parameters 0x1f True)"
    by (simp add: h264_level_asymmetry_allowed_effective_value_def answer_parameters_def)
  show ?thesis
    unfolding negotiate_h264_fmtp_for_answer_def offer parse_answer_fmtp bindE.simps m Let_def v p
    using a select_answer
    by (cases "effective_packetization_mode_for_answer offer")
      (auto simp: effective_packetization_mode_for_answer_def make_error_def split: if_splits)
qed

definition k_local_h264_fmtp :: string where
  "k_local_h264_fmtp = ''level-asymmetry-allowed=1;packetization-mode=1;profile-level-id=42e01f''"

lemma k_local_h264_fmtp_answer: "k_local_h264_fmtp = make_answer_fmtp (answer_profile 0x1f) 1 True"
proof -
  have d: "decimal 1 = ''1''" by code_simp
  have p: "profile_text 0x42 0xe0 0x1f = ''42e01f''" by code_simp
  show ?thesis unfolding make_answer_fmtp_def d by (simp add: answer_profile_def p k_local_h264_fmtp_def)
qed

lemma answer_shape:
  assumes "negotiate_h264_fmtp_for_answer offer_fmtp k_local_h264_fmtp = Inr answer"
  obtains offer where "parse_h264_fmtp offer_fmtp = Inr offer"
    "answer = make_answer_fmtp (answer_profile (answer_level (value_or_default (profile_level_id offer))
        (h264_level_asymmetry_allowed_effective_value offer))) 1 (h264_level_asymmetry_allowed_effective_value offer)"
    "profiles_are_answer_compatible (profile (value_or_default (profile_level_id offer))) profile_constrained_baseline"
proof -
  obtain offer where o: "parse_h264_fmtp offer_fmtp = Inr offer"
    using assms by (cases "parse_h264_fmtp offer_fmtp") (auto simp: negotiate_h264_fmtp_for_answer_def)
  show ?thesis
    using assms o that unfolding k_local_h264_fmtp_answer negotiate_with_answer [OF o]
    by (cases "effective_packetization_mode_for_answer offer") (auto simp: make_error_def Let_def split: if_splits)
qed

lemma answer_negotiates_to_itself:
  assumes "negotiate_h264_fmtp_for_answer offer_fmtp k_local_h264_fmtp = Inr answer"
  shows "negotiate_h264_fmtp_for_answer answer k_local_h264_fmtp = Inr answer"
proof -
  obtain offer where a: "answer = make_answer_fmtp (answer_profile (answer_level (value_or_default (profile_level_id offer))
        (h264_level_asymmetry_allowed_effective_value offer))) 1 (h264_level_asymmetry_allowed_effective_value offer)"
    using answer_shape [OF assms] by blast
  let ?q = "value_or_default (profile_level_id offer)" and ?a = "h264_level_asymmetry_allowed_effective_value offer"
  let ?p = "answer_parameters (answer_level ?q ?a) ?a"
  have p: "parse_h264_fmtp answer = Inr ?p" unfolding a by (rule parse_answer_fmtp)
  have low: "unat (level_idc ?q) < 31" if "level_rank ?q < 31"
    using that by (auto simp: level_rank_def split: if_splits)
  have v: "value_or_default (profile_level_id ?p) = answer_profile (answer_level ?q ?a)"
    by (simp add: value_or_default_def answer_parameters_def)
  have l: "answer_level (answer_profile (answer_level ?q ?a)) ?a = answer_level ?q ?a"
    using low by (auto simp: answer_level_def answer_profile_def [THEN arg_cong, of level_idc])
  have c: "profiles_are_answer_compatible (profile (answer_profile x)) profile_constrained_baseline" for x
    by (simp add: profiles_are_answer_compatible_def answer_profile_def)
  have e: "h264_level_asymmetry_allowed_effective_value ?p = ?a" "effective_packetization_mode_for_answer ?p = Inr 1"
    by (simp_all add: h264_level_asymmetry_allowed_effective_value_def effective_packetization_mode_for_answer_def answer_parameters_def)
  show ?thesis unfolding k_local_h264_fmtp_answer negotiate_with_answer [OF p] v e Let_def l
    using c a by simp
qed


lemma made_fmtp_text:
  assumes "profile_text idc iop level = t"
  shows "make_answer_fmtp (made_profile idc iop level) 1 False = ''level-asymmetry-allowed=0;packetization-mode=1;profile-level-id='' @ t"
proof -
  have d: "decimal 1 = ''1''" by code_simp
  show ?thesis unfolding make_answer_fmtp_def d using assms by (simp add: made_profile_def)
qed

lemma made_texts:
  "''level-asymmetry-allowed=0;packetization-mode=1;profile-level-id=42e015'' = make_answer_fmtp (answer_profile 0x15) 1 False"
  "''level-asymmetry-allowed=0;packetization-mode=1;profile-level-id=42f00b'' = make_answer_fmtp (made_profile 0x42 0xf0 0x0b) 1 False"
  "''level-asymmetry-allowed=0;packetization-mode=1;profile-level-id=42e00b'' = make_answer_fmtp (answer_profile 0x0b) 1 False"
proof -
  have p: "profile_text 0x42 0xe0 0x15 = ''42e015''" "profile_text 0x42 0xf0 0x0b = ''42f00b''" "profile_text 0x42 0xe0 0x0b = ''42e00b''"
    by code_simp+
  show "''level-asymmetry-allowed=0;packetization-mode=1;profile-level-id=42e015'' = make_answer_fmtp (answer_profile 0x15) 1 False"
    "''level-asymmetry-allowed=0;packetization-mode=1;profile-level-id=42f00b'' = make_answer_fmtp (made_profile 0x42 0xf0 0x0b) 1 False"
    "''level-asymmetry-allowed=0;packetization-mode=1;profile-level-id=42e00b'' = make_answer_fmtp (answer_profile 0x0b) 1 False"
    unfolding answer_profile_made made_fmtp_text [OF p(1)] made_fmtp_text [OF p(2)] made_fmtp_text [OF p(3)] by simp_all
qed


text \<open>
  Level 1b is the exception: it is offered as level byte 0b with a constraint flag that the answer
  clears, so the answer promises level 1.1, which is above what the peer offered.
\<close>

theorem h264_level_1b_is_raised:
  "negotiate_h264_fmtp_for_answer ''level-asymmetry-allowed=0;packetization-mode=1;profile-level-id=42f00b'' k_local_h264_fmtp =
     Inr ''level-asymmetry-allowed=0;packetization-mode=1;profile-level-id=42e00b''
   \<and> map_sum id (map_option level_rank \<circ> profile_level_id)
       (parse_h264_fmtp ''level-asymmetry-allowed=0;packetization-mode=1;profile-level-id=42f00b'') = Inr (Some 9)
   \<and> map_sum id (map_option level_rank \<circ> profile_level_id)
       (parse_h264_fmtp ''level-asymmetry-allowed=0;packetization-mode=1;profile-level-id=42e00b'') = Inr (Some 11)"
proof -
  have c: "classify_h264_profile 0x42 0xf0 = profile_constrained_baseline" by (simp add: classify_h264_profile_def)
  then have p: "parse_h264_fmtp (make_answer_fmtp (made_profile 0x42 0xf0 0x0b) 1 False) =
    Inr \<lparr>has_packetization_mode = True, packetization_mode = 1, has_level_asymmetry_allowed = True,
      level_asymmetry_allowed = False, profile_level_id = Some (made_profile 0x42 0xf0 0x0b)\<rparr>"
    by (intro parse_made_fmtp) simp
  have r: "level_rank (made_profile 0x42 0xf0 0x0b) = 9" by (simp add: level_rank_def made_profile_def)
  have "negotiate_h264_fmtp_for_answer (make_answer_fmtp (made_profile 0x42 0xf0 0x0b) 1 False) k_local_h264_fmtp =
      Inr (make_answer_fmtp (answer_profile 0x0b) 1 False)"
    unfolding k_local_h264_fmtp_answer negotiate_with_answer [OF p]
    by (simp add: effective_packetization_mode_for_answer_def value_or_default_def answer_level_def r
        h264_level_asymmetry_allowed_effective_value_def profiles_are_answer_compatible_def made_profile_def [THEN arg_cong, of profile]
        made_profile_def [THEN arg_cong, of level_idc] c)
  then show ?thesis unfolding made_texts p parse_answer_fmtp by (simp add: r answer_parameters_def)
qed

end
