(* ===== verification/Sdp_Codec_Negotiator.thy ===== *)
theory Sdp_Codec_Negotiator
  imports Sdp_Summary H264_Fmtp
begin

text \<open>
  Codec negotiation (\<^verbatim>\<open>src/signaling/sdp/sdp_codec_negotiator.cpp\<close>): which offered codecs an answer keeps,
  with their parameters normalised, and which payload type of the publisher a subscriber's stands for.
\<close>

definition make_media_error :: "media_summary \<Rightarrow> string \<Rightarrow> 'a result" where
  "make_media_error m message = make_error (''media mid '' @ mid m @ '' '' @ message)"

section \<open>Codecs\<close>

definition is_opus_codec :: "codec_info \<Rightarrow> bool" where
  "is_opus_codec c =
     (if \<not> iequals (codec_name c) ''opus'' then False
      else if clock_rate c \<noteq> 48000 then False
      else if encoding_parameters c \<noteq> [] \<and> encoding_parameters c \<noteq> ''2'' then False
      else True)"

definition is_vp8_codec :: "codec_info \<Rightarrow> bool" where
  "is_vp8_codec c = (if \<not> iequals (codec_name c) ''VP8'' then False else clock_rate c = 90000)"

definition is_rtx_codec :: "codec_info \<Rightarrow> bool" where
  "is_rtx_codec c = (if \<not> iequals (codec_name c) ''rtx'' then False else clock_rate c = 90000)"

definition parse_payload_type_text :: "string \<Rightarrow> nat option" where
  "parse_payload_type_text v =
     (let v = trim_if is_blank v in
      if v = [] then None
      else case from_chars 32 v of None \<Rightarrow> None | Some p \<Rightarrow> if p > 127 then None else Some p)"

fun fmtp_parameter_in :: "string list \<Rightarrow> string \<Rightarrow> string option" where
  "fmtp_parameter_in [] key = None"
| "fmtp_parameter_in (part # parts) key =
     (case split_first CHR ''='' (trim_if is_blank part) of
        None \<Rightarrow> fmtp_parameter_in parts key
      | Some (item_key, item_value) \<Rightarrow>
          if iequals (trim_if is_blank item_key) key then Some (trim_if is_blank item_value)
          else fmtp_parameter_in parts key)"

definition find_fmtp_parameter :: "string \<Rightarrow> string \<Rightarrow> string option" where
  "find_fmtp_parameter fmtp key = fmtp_parameter_in (split_all CHR '';'' fmtp) key"

definition find_codec_apt_payload_type :: "codec_info \<Rightarrow> nat option" where
  "find_codec_apt_payload_type c =
     (case find_fmtp_parameter (codec_fmtp c) ''apt'' of None \<Rightarrow> None | Some apt \<Rightarrow> parse_payload_type_text apt)"

definition normalize_h264_answer_fmtp :: "string \<Rightarrow> string option" where
  "normalize_h264_answer_fmtp offer_fmtp =
     (case negotiate_h264_fmtp_for_answer offer_fmtp k_local_h264_fmtp of Inl _ \<Rightarrow> None | Inr f \<Rightarrow> Some f)"

definition is_h264_codec :: "codec_info \<Rightarrow> bool" where
  "is_h264_codec c =
     (if \<not> iequals (codec_name c) ''H264'' then False
      else if clock_rate c \<noteq> 90000 then False
      else normalize_h264_answer_fmtp (codec_fmtp c) \<noteq> None)"

definition is_supported_audio_codec :: "codec_info \<Rightarrow> bool" where
  "is_supported_audio_codec c = is_opus_codec c"

definition is_supported_video_codec :: "codec_info \<Rightarrow> bool" where
  "is_supported_video_codec c = (if is_vp8_codec c then True else if is_h264_codec c then True else False)"

definition is_supported_codec :: "media_summary \<Rightarrow> codec_info \<Rightarrow> bool" where
  "is_supported_codec m c =
     (if kind m = ''audio'' then is_supported_audio_codec c
      else if kind m = ''video'' then is_supported_video_codec c
      else False)"

section \<open>Opus parameters\<close>

definition parse_opus_fmtp_u32 :: "string \<Rightarrow> string \<Rightarrow> nat result" where
  "parse_opus_fmtp_u32 v key =
     (let v = trim_if is_blank v in
      if v = [] then make_error (''opus fmtp '' @ key @ '' is empty'')
      else case from_chars 32 v of
        None \<Rightarrow> make_error (''opus fmtp '' @ key @ '' is invalid'')
      | Some n \<Rightarrow> Inr n)"

fun opus_parameters_in :: "string list \<Rightarrow> (string \<times> string) list result" where
  "opus_parameters_in [] = Inr []"
| "opus_parameters_in (part # parts) =
     (let item = trim_if is_blank part in
      if item = [] then opus_parameters_in parts
      else case split_first CHR ''='' item of
        None \<Rightarrow> make_error ''opus fmtp parameter is missing value''
      | Some (before, tail_text) \<Rightarrow>
          let key = trim_if is_blank before; v = trim_if is_blank tail_text in
          if key = [] then make_error ''opus fmtp parameter key is empty''
          else if v = [] then make_error ''opus fmtp parameter value is empty''
          else bindE (opus_parameters_in parts) (\<lambda>ps. Inr ((to_lower key, v) # ps)))"

definition parse_opus_fmtp_parameters :: "string \<Rightarrow> (string \<times> string) list result" where
  "parse_opus_fmtp_parameters fmtp = opus_parameters_in (split_all CHR '';'' fmtp)"

fun unique_opus_parameter :: "(string \<times> string) list \<Rightarrow> string \<Rightarrow> string option \<Rightarrow> string option result" where
  "unique_opus_parameter [] key found = Inr found"
| "unique_opus_parameter (p # ps) key found =
     (if \<not> iequals (fst p) key then unique_opus_parameter ps key found
      else if found \<noteq> None then make_error (''opus fmtp parameter duplicated: '' @ key)
      else unique_opus_parameter ps key (Some (snd p)))"

definition find_unique_opus_fmtp_parameter :: "(string \<times> string) list \<Rightarrow> string \<Rightarrow> string option result" where
  "find_unique_opus_fmtp_parameter ps key = unique_opus_parameter ps key None"

definition append_normalized_opus_fmtp_parameter :: "string \<Rightarrow> string \<Rightarrow> string \<Rightarrow> string" where
  "append_normalized_opus_fmtp_parameter out key v = (if out \<noteq> [] then out @ '';'' else out) @ key @ ''='' @ v"

definition append_boolean_opus_fmtp_parameter :: "(string \<times> string) list \<Rightarrow> string \<Rightarrow> string \<Rightarrow> string result" where
  "append_boolean_opus_fmtp_parameter ps key out =
     bindE (find_unique_opus_fmtp_parameter ps key) (\<lambda>v.
     case v of
       None \<Rightarrow> Inr out
     | Some t \<Rightarrow>
         if t \<noteq> ''0'' \<and> t \<noteq> ''1'' then make_error (''opus fmtp '' @ key @ '' must be 0 or 1'')
         else Inr (append_normalized_opus_fmtp_parameter out key t))"

definition append_u32_opus_fmtp_parameter :: "(string \<times> string) list \<Rightarrow> string \<Rightarrow> nat \<Rightarrow> nat \<Rightarrow> string \<Rightarrow> string result" where
  "append_u32_opus_fmtp_parameter ps key minimum maximum out =
     bindE (find_unique_opus_fmtp_parameter ps key) (\<lambda>v.
     case v of
       None \<Rightarrow> Inr out
     | Some t \<Rightarrow>
         bindE (parse_opus_fmtp_u32 t key) (\<lambda>n.
         if n < minimum \<or> n > maximum then make_error (''opus fmtp '' @ key @ '' is out of range'')
         else Inr (append_normalized_opus_fmtp_parameter out key (decimal n))))"

definition normalize_opus_fmtp :: "string \<Rightarrow> string result" where
  "normalize_opus_fmtp fmtp =
     (if fmtp = [] then Inr []
      else
        bindE (parse_opus_fmtp_parameters fmtp) (\<lambda>ps.
        bindE (append_u32_opus_fmtp_parameter ps ''minptime'' 3 120 []) (\<lambda>out.
        bindE (append_boolean_opus_fmtp_parameter ps ''useinbandfec'' out) (\<lambda>out.
        bindE (append_boolean_opus_fmtp_parameter ps ''usedtx'' out) (\<lambda>out.
        bindE (append_boolean_opus_fmtp_parameter ps ''stereo'' out) (\<lambda>out.
        bindE (append_boolean_opus_fmtp_parameter ps ''sprop-stereo'' out) (\<lambda>out.
        bindE (append_u32_opus_fmtp_parameter ps ''maxplaybackrate'' 8000 48000 out) (\<lambda>out.
        bindE (append_u32_opus_fmtp_parameter ps ''sprop-maxcapturerate'' 8000 48000 out) (\<lambda>out.
        bindE (append_u32_opus_fmtp_parameter ps ''maxaveragebitrate'' 6000 510000 out) (\<lambda>out.
        append_boolean_opus_fmtp_parameter ps ''cbr'' out))))))))))"

section \<open>Normalised codecs and their order\<close>

definition normalize_supported_codec :: "media_summary \<Rightarrow> codec_info \<Rightarrow> codec_info option" where
  "normalize_supported_codec m c =
     (if \<not> is_supported_codec m c then None
      else
        let after_opus =
          (if kind m = ''audio'' \<and> is_opus_codec c
           then (case normalize_opus_fmtp (codec_fmtp c) of Inl _ \<Rightarrow> None | Inr f \<Rightarrow> Some (c\<lparr>codec_fmtp := f\<rparr>))
           else Some c) in
        case after_opus of
          None \<Rightarrow> None
        | Some n \<Rightarrow>
            if kind m = ''video'' \<and> is_h264_codec c
            then (case normalize_h264_answer_fmtp (codec_fmtp c) of None \<Rightarrow> None | Some f \<Rightarrow> Some (n\<lparr>codec_fmtp := f\<rparr>))
            else Some n)"

definition codec_answer_preference_rank :: "media_summary \<Rightarrow> codec_info \<Rightarrow> nat" where
  "codec_answer_preference_rank m c =
     (if kind m = ''audio'' then (if is_opus_codec c then 0 else 100)
      else if kind m = ''video'' then (if is_vp8_codec c then 0 else if is_h264_codec c then 10 else 100)
      else 100)"

definition sort_primary_codecs_by_answer_preference :: "media_summary \<Rightarrow> codec_info list \<Rightarrow> codec_info list" where
  "sort_primary_codecs_by_answer_preference m cs = sort_key (codec_answer_preference_rank m) cs"

section \<open>Compatibility with the publisher\<close>

definition media_can_send :: "media_summary \<Rightarrow> bool" where
  "media_can_send m \<longleftrightarrow> summary_direction m = send_only \<or> summary_direction m = send_recv"

definition codec_encoding_parameters_are_compatible :: "string \<Rightarrow> string \<Rightarrow> bool" where
  "codec_encoding_parameters_are_compatible publisher subscriber =
     (if publisher = [] \<or> subscriber = [] then True else publisher = subscriber)"

definition h264_codecs_are_compatible :: "codec_info \<Rightarrow> codec_info \<Rightarrow> bool" where
  "h264_codecs_are_compatible publisher subscriber =
     (case check_h264_fmtp_relay_compatibility (codec_fmtp publisher) (codec_fmtp subscriber) of
        Inl _ \<Rightarrow> False | Inr b \<Rightarrow> b)"

definition codecs_are_compatible :: "codec_info \<Rightarrow> codec_info \<Rightarrow> bool" where
  "codecs_are_compatible publisher subscriber =
     (if \<not> iequals (codec_name publisher) (codec_name subscriber) then False
      else if clock_rate publisher \<noteq> clock_rate subscriber then False
      else if \<not> codec_encoding_parameters_are_compatible (encoding_parameters publisher) (encoding_parameters subscriber)
      then False
      else if is_h264_codec publisher then h264_codecs_are_compatible publisher subscriber
      else True)"

definition publisher_codec_matches :: "media_summary \<Rightarrow> codec_info \<Rightarrow> codec_info \<Rightarrow> bool" where
  "publisher_codec_matches publisher subscriber_codec c =
     (case normalize_supported_codec publisher c of
        None \<Rightarrow> False | Some n \<Rightarrow> codecs_are_compatible n subscriber_codec)"

definition has_compatible_publisher_codec :: "media_summary \<Rightarrow> codec_info \<Rightarrow> bool" where
  "has_compatible_publisher_codec publisher subscriber_codec \<longleftrightarrow>
     list_ex (\<lambda>c. payload_type_exists (payload_types publisher) (payload_type c)
        \<and> publisher_codec_matches publisher subscriber_codec c) (codecs publisher)"

definition find_selected_codec_by_payload_type :: "codec_info list \<Rightarrow> nat \<Rightarrow> codec_info option" where
  "find_selected_codec_by_payload_type cs p = find (\<lambda>c. payload_type c = p) cs"

definition find_compatible_publisher_primary_codec :: "media_summary \<Rightarrow> codec_info \<Rightarrow> codec_info option" where
  "find_compatible_publisher_primary_codec publisher subscriber_codec =
     find (\<lambda>c. payload_type_exists (payload_types publisher) (payload_type c) \<and> \<not> is_rtx_codec c
        \<and> publisher_codec_matches publisher subscriber_codec c) (codecs publisher)"

definition find_rtx_codec_for_apt :: "media_summary \<Rightarrow> nat \<Rightarrow> codec_info option" where
  "find_rtx_codec_for_apt m apt =
     find (\<lambda>c. payload_type_exists (payload_types m) (payload_type c) \<and> is_rtx_codec c
        \<and> find_codec_apt_payload_type c = Some apt) (codecs m)"

definition media_has_rtx_codec_for_apt :: "media_summary \<Rightarrow> nat \<Rightarrow> bool" where
  "media_has_rtx_codec_for_apt m apt \<longleftrightarrow> find_rtx_codec_for_apt m apt \<noteq> None"

definition rtx_codec_is_answerable :: "media_summary \<Rightarrow> media_summary \<Rightarrow> codec_info \<Rightarrow> codec_info list \<Rightarrow> bool" where
  "rtx_codec_is_answerable subscriber publisher rtx selected =
     (if kind subscriber \<noteq> ''video'' \<or> kind publisher \<noteq> ''video'' then False
      else if \<not> is_rtx_codec rtx then False
      else if \<not> payload_type_exists (payload_types subscriber) (payload_type rtx) then False
      else case find_codec_apt_payload_type rtx of
        None \<Rightarrow> False
      | Some apt \<Rightarrow>
          (case find_selected_codec_by_payload_type selected apt of
             None \<Rightarrow> False
           | Some primary \<Rightarrow>
               (case find_compatible_publisher_primary_codec publisher primary of
                  None \<Rightarrow> False
                | Some p \<Rightarrow> media_has_rtx_codec_for_apt publisher (payload_type p))))"

fun append_answerable_rtx :: "(codec_info \<Rightarrow> codec_info list \<Rightarrow> bool) \<Rightarrow> codec_info list \<Rightarrow> codec_info list \<Rightarrow> codec_info list" where
  "append_answerable_rtx answerable [] selected = selected"
| "append_answerable_rtx answerable (c # cs) selected =
     (if \<not> answerable c selected then append_answerable_rtx answerable cs selected
      else append_answerable_rtx answerable cs (selected @ [c]))"

definition append_answerable_rtx_codecs :: "media_summary \<Rightarrow> media_summary \<Rightarrow> codec_info list \<Rightarrow> codec_info list" where
  "append_answerable_rtx_codecs subscriber publisher selected =
     append_answerable_rtx (rtx_codec_is_answerable subscriber publisher) (codecs subscriber) selected"

definition rtx_codec_is_answerable_for_offer :: "media_summary \<Rightarrow> codec_info \<Rightarrow> codec_info list \<Rightarrow> bool" where
  "rtx_codec_is_answerable_for_offer offer rtx selected =
     (if kind offer \<noteq> ''video'' then False
      else if \<not> is_rtx_codec rtx then False
      else if \<not> payload_type_exists (payload_types offer) (payload_type rtx) then False
      else case find_codec_apt_payload_type rtx of
        None \<Rightarrow> False
      | Some apt \<Rightarrow>
          (case find_selected_codec_by_payload_type selected apt of
             None \<Rightarrow> False | Some primary \<Rightarrow> \<not> is_rtx_codec primary))"

definition append_answerable_offer_rtx_codecs :: "media_summary \<Rightarrow> codec_info list \<Rightarrow> codec_info list" where
  "append_answerable_offer_rtx_codecs offer selected =
     append_answerable_rtx (rtx_codec_is_answerable_for_offer offer) (codecs offer) selected"

section \<open>Negotiation\<close>

definition validate_offer_media :: "media_summary \<Rightarrow> unit result" where
  "validate_offer_media m =
     (if kind m \<noteq> ''audio'' \<and> kind m \<noteq> ''video'' then make_media_error m ''has unsupported kind''
      else if mid m = [] then make_error ''media mid is empty''
      else if payload_types m = [] then make_media_error m ''has no payload types''
      else if codecs m = [] then make_media_error m ''has no codecs''
      else Inr ())"

text \<open>The loops that collect the normalised codecs an answer can keep.\<close>

fun select_codecs :: "media_summary \<Rightarrow> (codec_info \<Rightarrow> bool) \<Rightarrow> codec_info list \<Rightarrow> codec_info list" where
  "select_codecs m usable [] = []"
| "select_codecs m usable (c # cs) =
     (if \<not> payload_type_exists (payload_types m) (payload_type c) then select_codecs m usable cs
      else case normalize_supported_codec m c of
        None \<Rightarrow> select_codecs m usable cs
      | Some n \<Rightarrow> if \<not> usable n then select_codecs m usable cs else n # select_codecs m usable cs)"

definition negotiate_offer_codecs :: "media_summary \<Rightarrow> codec_info list result" where
  "negotiate_offer_codecs offer =
     bindE (validate_offer_media offer) (\<lambda>_.
     let selected = select_codecs offer (\<lambda>_. True) (codecs offer) in
     if selected = [] then make_media_error offer ''has no supported codecs''
     else Inr (append_answerable_offer_rtx_codecs offer (sort_primary_codecs_by_answer_preference offer selected)))"

definition negotiate_codecs :: "media_summary \<Rightarrow> media_summary \<Rightarrow> codec_info list result" where
  "negotiate_codecs subscriber publisher =
     bindE (validate_offer_media subscriber) (\<lambda>_.
     bindE (validate_offer_media publisher) (\<lambda>_.
     if kind subscriber \<noteq> kind publisher then make_media_error subscriber ''publisher media kind does not match''
     else if \<not> media_can_send publisher then make_media_error subscriber ''publisher media is not send-capable''
     else
       let selected = select_codecs subscriber (has_compatible_publisher_codec publisher) (codecs subscriber) in
       if selected = [] then make_media_error subscriber ''has no publisher-compatible codecs''
       else Inr (append_answerable_rtx_codecs subscriber publisher
              (sort_primary_codecs_by_answer_preference subscriber selected))))"

section \<open>Payload type mappings\<close>

record codec_payload_type_mapping =
  publisher_payload_type :: nat
  subscriber_payload_type :: nat
  publisher_associated_payload_type :: "nat option"
  subscriber_associated_payload_type :: "nat option"

fun map_primary_codecs ::
  "media_summary \<Rightarrow> media_summary \<Rightarrow> codec_info list \<Rightarrow> codec_payload_type_mapping list \<Rightarrow> codec_payload_type_mapping list result" where
  "map_primary_codecs subscriber publisher [] mappings = Inr mappings"
| "map_primary_codecs subscriber publisher (c # cs) mappings =
     (if is_rtx_codec c then map_primary_codecs subscriber publisher cs mappings
      else case find_compatible_publisher_primary_codec publisher c of
        None \<Rightarrow> make_media_error subscriber ''selected codec has no publisher payload type mapping''
      | Some p \<Rightarrow> map_primary_codecs subscriber publisher cs
          (mappings @ [\<lparr>publisher_payload_type = payload_type p, subscriber_payload_type = payload_type c,
             publisher_associated_payload_type = None, subscriber_associated_payload_type = None\<rparr>]))"

fun map_rtx_codecs ::
  "media_summary \<Rightarrow> media_summary \<Rightarrow> codec_info list \<Rightarrow> codec_payload_type_mapping list \<Rightarrow> codec_payload_type_mapping list result" where
  "map_rtx_codecs subscriber publisher [] mappings = Inr mappings"
| "map_rtx_codecs subscriber publisher (c # cs) mappings =
     (if \<not> is_rtx_codec c then map_rtx_codecs subscriber publisher cs mappings
      else case find_codec_apt_payload_type c of
        None \<Rightarrow> make_media_error subscriber ''selected rtx codec has no apt''
      | Some apt \<Rightarrow>
          (case find (\<lambda>m. subscriber_payload_type m = apt \<and> subscriber_associated_payload_type m = None) mappings of
             None \<Rightarrow> make_media_error subscriber ''selected rtx codec primary mapping is missing''
           | Some primary \<Rightarrow>
               (case find_rtx_codec_for_apt publisher (publisher_payload_type primary) of
                  None \<Rightarrow> make_media_error subscriber ''selected rtx codec has no publisher payload type mapping''
                | Some r \<Rightarrow> map_rtx_codecs subscriber publisher cs
                    (mappings @ [\<lparr>publisher_payload_type = payload_type r, subscriber_payload_type = payload_type c,
                       publisher_associated_payload_type = Some (publisher_payload_type primary),
                       subscriber_associated_payload_type = Some (subscriber_payload_type primary)\<rparr>]))))"

definition negotiate_codec_payload_type_mappings ::
  "media_summary \<Rightarrow> media_summary \<Rightarrow> codec_payload_type_mapping list result" where
  "negotiate_codec_payload_type_mappings subscriber publisher =
     bindE (negotiate_codecs subscriber publisher) (\<lambda>selected.
     bindE (map_primary_codecs subscriber publisher selected []) (\<lambda>mappings.
     map_rtx_codecs subscriber publisher selected mappings))"

section \<open>What negotiation selects\<close>

lemma names_distinct:
  "iequals n ''opus'' \<Longrightarrow> \<not> iequals n ''rtx''" "iequals n ''VP8'' \<Longrightarrow> \<not> iequals n ''rtx''"
  "iequals n ''H264'' \<Longrightarrow> \<not> iequals n ''rtx''"
proof -
  have "to_lower ''opus'' \<noteq> to_lower ''rtx''" "to_lower ''VP8'' \<noteq> to_lower ''rtx''" "to_lower ''H264'' \<noteq> to_lower ''rtx''"
    by code_simp+
  then show "iequals n ''opus'' \<Longrightarrow> \<not> iequals n ''rtx''" "iequals n ''VP8'' \<Longrightarrow> \<not> iequals n ''rtx''"
    "iequals n ''H264'' \<Longrightarrow> \<not> iequals n ''rtx''"
    by (auto simp: iequals_def)
qed

lemma normalized_fields:
  assumes "normalize_supported_codec m c = Some n"
  shows "payload_type n = payload_type c" "codec_name n = codec_name c" "clock_rate n = clock_rate c"
    "encoding_parameters n = encoding_parameters c" "rtcp_feedback n = rtcp_feedback c"
  using assms by (auto simp: normalize_supported_codec_def Let_def split: if_splits option.splits sum.splits)

lemma normalized_not_rtx:
  assumes "normalize_supported_codec m c = Some n"
  shows "\<not> iequals (codec_name n) ''rtx''" "\<not> is_rtx_codec n" "\<not> is_rtx_codec c"
proof -
  have "is_supported_codec m c" using assms by (auto simp: normalize_supported_codec_def split: if_splits)
  then show "\<not> iequals (codec_name n) ''rtx''"
    unfolding normalized_fields(2) [OF assms] using names_distinct
    by (auto simp: is_supported_codec_def is_supported_audio_codec_def is_supported_video_codec_def is_opus_codec_def
        is_vp8_codec_def is_h264_codec_def split: if_splits)
  then show "\<not> is_rtx_codec n" "\<not> is_rtx_codec c" using normalized_fields(2) [OF assms] by (auto simp: is_rtx_codec_def)
qed

lemma rtx_has_no_match: "iequals (codec_name r) ''rtx'' \<Longrightarrow> \<not> publisher_codec_matches publisher r c"
  using normalized_not_rtx(1) [of publisher c]
  by (auto simp: publisher_codec_matches_def codecs_are_compatible_def iequals_def split: option.splits)

lemma matches_not_rtx: "publisher_codec_matches publisher s c \<Longrightarrow> \<not> is_rtx_codec c"
  using normalized_not_rtx(3) [of publisher c] by (auto simp: publisher_codec_matches_def split: option.splits)

lemma has_compatible_primary:
  "has_compatible_publisher_codec publisher s \<longleftrightarrow> find_compatible_publisher_primary_codec publisher s \<noteq> None"
  by (auto simp: has_compatible_publisher_codec_def find_compatible_publisher_primary_codec_def find_None_iff list_ex_iff
      dest: matches_not_rtx)

lemma payload_type_exists_iff [simp]: "payload_type_exists ps p \<longleftrightarrow> p \<in> set ps"
  by (auto simp: payload_type_exists_def list_ex_iff)

lemma select_codecs_sound:
  "n \<in> set (select_codecs m usable cs) \<Longrightarrow>
   usable n \<and> (\<exists>c \<in> set cs. payload_type c \<in> set (payload_types m) \<and> normalize_supported_codec m c = Some n)"
  by (induction cs) (auto split: if_splits option.splits)

lemma append_answerable_rtx_spec:
  "\<exists>rs. append_answerable_rtx answerable cs selected = selected @ rs \<and> set rs \<subseteq> set cs
    \<and> (\<forall>us r vs. rs = us @ r # vs \<longrightarrow> answerable r (selected @ us))"
proof (induction cs arbitrary: selected)
  case (Cons c cs)
  show ?case
  proof (cases "answerable c selected")
    case True
    obtain rs where rs: "append_answerable_rtx answerable cs (selected @ [c]) = (selected @ [c]) @ rs" "set rs \<subseteq> set cs"
      "\<forall>us r vs. rs = us @ r # vs \<longrightarrow> answerable r ((selected @ [c]) @ us)"
      using Cons.IH [of "selected @ [c]"] by blast
    have "answerable r (selected @ us)" if "c # rs = us @ r # vs" for us r vs
      using that True rs(3) by (cases us) auto
    then show ?thesis using True rs(1,2) by (intro exI [of _ "c # rs"]) auto
  next
    case False
    obtain rs where "append_answerable_rtx answerable cs selected = selected @ rs" "set rs \<subseteq> set cs"
      "\<forall>us r vs. rs = us @ r # vs \<longrightarrow> answerable r (selected @ us)"
      using Cons.IH [of selected] by blast
    then show ?thesis using False by auto
  qed
qed simp

lemma find_in_append: "find P (xs @ ys) = (case find P xs of Some x \<Rightarrow> Some x | None \<Rightarrow> find P ys)"
  by (induction xs) auto

lemma find_SomeD: "find P xs = Some x \<Longrightarrow> x \<in> set xs \<and> P x"
  by (auto simp: find_Some_iff)

text \<open>The selection of a negotiation with a publisher: primary codecs, then repair codecs for them.\<close>

lemma negotiate_codecs_shape:
  assumes "negotiate_codecs subscriber publisher = Inr cs"
  obtains sel rs where "cs = sel @ rs" "sel \<noteq> []"
    "\<forall>c \<in> set sel. \<not> is_rtx_codec c \<and> find_compatible_publisher_primary_codec publisher c \<noteq> None"
    "\<forall>r \<in> set rs. is_rtx_codec r \<and> (\<exists>apt primary p. find_codec_apt_payload_type r = Some apt
        \<and> find_selected_codec_by_payload_type sel apt = Some primary
        \<and> find_compatible_publisher_primary_codec publisher primary = Some p
        \<and> media_has_rtx_codec_for_apt publisher (payload_type p))"
    "\<forall>c \<in> set cs. payload_type c \<in> set (payload_types subscriber)"
proof -
  define sel0 where "sel0 = select_codecs subscriber (has_compatible_publisher_codec publisher) (codecs subscriber)"
  define sel where "sel = sort_primary_codecs_by_answer_preference subscriber sel0"
  have set_sel: "set sel = set sel0" "sel = [] \<longleftrightarrow> sel0 = []"
    by (simp_all add: sel_def sort_primary_codecs_by_answer_preference_def) (metis set_empty set_sort)
  have ne: "sel0 \<noteq> []" and cs: "cs = append_answerable_rtx_codecs subscriber publisher sel"
    using assms by (auto simp: negotiate_codecs_def bindE_Inr make_media_error_def make_error_def Let_def sel0_def sel_def
        split: if_splits)
  have prim: "\<forall>c \<in> set sel. \<not> is_rtx_codec c \<and> find_compatible_publisher_primary_codec publisher c \<noteq> None
      \<and> payload_type c \<in> set (payload_types subscriber)"
    unfolding set_sel(1) sel0_def using select_codecs_sound normalized_not_rtx(2) normalized_fields(1)
    by (fastforce simp: has_compatible_primary)
  obtain rs where rs: "cs = sel @ rs" "set rs \<subseteq> set (codecs subscriber)"
    "\<forall>us r vs. rs = us @ r # vs \<longrightarrow> rtx_codec_is_answerable subscriber publisher r (sel @ us)"
    using append_answerable_rtx_spec [of "rtx_codec_is_answerable subscriber publisher" "codecs subscriber" sel] cs
    by (auto simp: append_answerable_rtx_codecs_def)
  have rtx: "is_rtx_codec r \<and> payload_type r \<in> set (payload_types subscriber)" if "r \<in> set rs" for r
    using rs(3) split_list [OF that] by (auto simp: rtx_codec_is_answerable_def split: if_splits)
  have link: "\<exists>apt primary p. find_codec_apt_payload_type r = Some apt
        \<and> find_selected_codec_by_payload_type sel apt = Some primary
        \<and> find_compatible_publisher_primary_codec publisher primary = Some p
        \<and> media_has_rtx_codec_for_apt publisher (payload_type p)" if r: "r \<in> set rs" for r
  proof -
    obtain us vs where us: "rs = us @ r # vs" using split_list [OF r] by blast
    then have "rtx_codec_is_answerable subscriber publisher r (sel @ us)" using rs(3) by blast
    then obtain apt primary p where a: "find_codec_apt_payload_type r = Some apt"
      "find (\<lambda>c. payload_type c = apt) (sel @ us) = Some primary"
      "find_compatible_publisher_primary_codec publisher primary = Some p"
      "media_has_rtx_codec_for_apt publisher (payload_type p)"
      by (auto simp: rtx_codec_is_answerable_def find_selected_codec_by_payload_type_def split: if_splits option.splits)
    have "\<not> iequals (codec_name primary) ''rtx''"
      using a(3) rtx_has_no_match [of primary publisher] by (auto simp: find_compatible_publisher_primary_codec_def find_Some_iff)
    then have "primary \<notin> set us" using rtx [of primary] us by (auto simp: is_rtx_codec_def)
    then have "find (\<lambda>c. payload_type c = apt) sel = Some primary"
      using a(2) find_SomeD [of _ us primary] by (auto simp: find_in_append split: option.splits)
    then show ?thesis using a by (auto simp: find_selected_codec_by_payload_type_def)
  qed
  show ?thesis
    by (rule that [OF rs(1)]) (use ne set_sel prim rtx link rs(1) in auto)
qed

section \<open>Every answered payload type has a source\<close>

definition primary_mapping :: "media_summary \<Rightarrow> codec_info \<Rightarrow> codec_payload_type_mapping" where
  "primary_mapping publisher c =
     \<lparr>publisher_payload_type = payload_type (the (find_compatible_publisher_primary_codec publisher c)),
      subscriber_payload_type = payload_type c,
      publisher_associated_payload_type = None, subscriber_associated_payload_type = None\<rparr>"

lemma map_primary_codecs_all:
  "\<forall>c \<in> set cs. \<not> is_rtx_codec c \<longrightarrow> find_compatible_publisher_primary_codec publisher c \<noteq> None \<Longrightarrow>
   map_primary_codecs subscriber publisher cs mappings =
     Inr (mappings @ map (primary_mapping publisher) (filter (\<lambda>c. \<not> is_rtx_codec c) cs))"
  by (induction cs arbitrary: mappings) (auto simp: primary_mapping_def)

lemma find_primary_mapping:
  assumes "find_selected_codec_by_payload_type sel apt = Some primary"
  shows "find (\<lambda>m. subscriber_payload_type m = apt \<and> subscriber_associated_payload_type m = None)
    (map (primary_mapping publisher) sel @ extra) = Some (primary_mapping publisher primary)"
  using assms unfolding find_selected_codec_by_payload_type_def
  by (induction sel) (auto simp: primary_mapping_def split: if_splits)

definition linked :: "media_summary \<Rightarrow> codec_payload_type_mapping list \<Rightarrow> codec_payload_type_mapping \<Rightarrow> bool" where
  "linked publisher mappings m \<longleftrightarrow>
     publisher_payload_type m \<in> set (payload_types publisher)
     \<and> (\<exists>primary \<in> set mappings. subscriber_associated_payload_type m = Some (subscriber_payload_type primary)
          \<and> publisher_associated_payload_type m = Some (publisher_payload_type primary)
          \<and> subscriber_associated_payload_type primary = None)"

lemma linked_mono: "linked publisher as m \<Longrightarrow> set as \<subseteq> set bs \<Longrightarrow> linked publisher bs m"
  by (auto simp: linked_def)

lemma map_rtx_codecs_all:
  assumes "\<forall>r \<in> set cs. is_rtx_codec r \<longrightarrow> (\<exists>apt primary. find_codec_apt_payload_type r = Some apt
        \<and> find_selected_codec_by_payload_type sel apt = Some primary
        \<and> media_has_rtx_codec_for_apt publisher (publisher_payload_type (primary_mapping publisher primary)))"
  shows "\<exists>ms. map_rtx_codecs subscriber publisher cs (map (primary_mapping publisher) sel @ extra) =
        Inr (map (primary_mapping publisher) sel @ extra @ ms)
      \<and> map subscriber_payload_type ms = map payload_type (filter is_rtx_codec cs)
      \<and> (\<forall>m \<in> set ms. linked publisher (map (primary_mapping publisher) sel) m)"
  using assms
proof (induction cs arbitrary: extra)
  case (Cons c cs)
  show ?case
  proof (cases "is_rtx_codec c")
    case True
    then obtain apt primary where a: "find_codec_apt_payload_type c = Some apt"
      "find_selected_codec_by_payload_type sel apt = Some primary"
      "media_has_rtx_codec_for_apt publisher (publisher_payload_type (primary_mapping publisher primary))"
      using Cons.prems by auto
    then obtain r where r: "find_rtx_codec_for_apt publisher (publisher_payload_type (primary_mapping publisher primary)) = Some r"
      by (auto simp: media_has_rtx_codec_for_apt_def)
    let ?m = "\<lparr>publisher_payload_type = payload_type r, subscriber_payload_type = payload_type c,
        publisher_associated_payload_type = Some (publisher_payload_type (primary_mapping publisher primary)),
        subscriber_associated_payload_type = Some (subscriber_payload_type (primary_mapping publisher primary))\<rparr>"
    have primary: "primary \<in> set sel" using a(2) by (auto simp: find_selected_codec_by_payload_type_def find_Some_iff)
    have pt: "payload_type r \<in> set (payload_types publisher)" using r by (auto simp: find_rtx_codec_for_apt_def find_Some_iff)
    have linked: "linked publisher (map (primary_mapping publisher) sel) ?m"
      using primary pt by (auto simp: linked_def intro!: bexI [of _ primary]) (simp add: primary_mapping_def)
    obtain ms where ms: "map_rtx_codecs subscriber publisher cs (map (primary_mapping publisher) sel @ (extra @ [?m])) =
        Inr (map (primary_mapping publisher) sel @ (extra @ [?m]) @ ms)"
      "map subscriber_payload_type ms = map payload_type (filter is_rtx_codec cs)"
      "\<forall>m \<in> set ms. linked publisher (map (primary_mapping publisher) sel) m"
      using Cons.IH [of "extra @ [?m]"] Cons.prems by auto
    show ?thesis
      using True a r ms linked find_primary_mapping [OF a(2), of publisher extra] by (intro exI [of _ "?m # ms"]) simp
  next
    case False
    then show ?thesis using Cons by simp
  qed
qed simp

lemma negotiated_mappings:
  assumes "negotiate_codecs subscriber publisher = Inr cs"
  shows "\<exists>ms. negotiate_codec_payload_type_mappings subscriber publisher = Inr ms
    \<and> map subscriber_payload_type ms = map payload_type cs
    \<and> (\<forall>m \<in> set ms. publisher_payload_type m \<in> set (payload_types publisher)
        \<and> (subscriber_associated_payload_type m = None \<or> linked publisher ms m))"
proof -
  obtain sel rs where s: "cs = sel @ rs"
    "\<forall>c \<in> set sel. \<not> is_rtx_codec c \<and> find_compatible_publisher_primary_codec publisher c \<noteq> None"
    "\<forall>r \<in> set rs. is_rtx_codec r \<and> (\<exists>apt primary p. find_codec_apt_payload_type r = Some apt
        \<and> find_selected_codec_by_payload_type sel apt = Some primary
        \<and> find_compatible_publisher_primary_codec publisher primary = Some p
        \<and> media_has_rtx_codec_for_apt publisher (payload_type p))"
    by (rule negotiate_codecs_shape [OF assms])
  have f: "filter (\<lambda>c. \<not> is_rtx_codec c) cs = sel" "filter is_rtx_codec cs = rs"
    using s by (auto simp: filter_id_conv)
  have p: "map_primary_codecs subscriber publisher cs [] = Inr (map (primary_mapping publisher) sel)"
    using s f by (subst map_primary_codecs_all) auto
  have "\<exists>ms. map_rtx_codecs subscriber publisher cs (map (primary_mapping publisher) sel @ []) =
        Inr (map (primary_mapping publisher) sel @ [] @ ms)
      \<and> map subscriber_payload_type ms = map payload_type (filter is_rtx_codec cs)
      \<and> (\<forall>m \<in> set ms. linked publisher (map (primary_mapping publisher) sel) m)"
  proof (rule map_rtx_codecs_all, intro ballI impI)
    fix r
    assume "r \<in> set cs" "is_rtx_codec r"
    then have "r \<in> set rs" using s(1,2) by auto
    with s(3) obtain apt primary p where "find_codec_apt_payload_type r = Some apt"
      "find_selected_codec_by_payload_type sel apt = Some primary"
      "find_compatible_publisher_primary_codec publisher primary = Some p"
      "media_has_rtx_codec_for_apt publisher (payload_type p)" by blast
    then show "\<exists>apt primary. find_codec_apt_payload_type r = Some apt
        \<and> find_selected_codec_by_payload_type sel apt = Some primary
        \<and> media_has_rtx_codec_for_apt publisher (publisher_payload_type (primary_mapping publisher primary))"
      by (intro exI [of _ apt] exI [of _ primary] conjI) (simp_all add: primary_mapping_def)
  qed
  then obtain ms where ms: "map_rtx_codecs subscriber publisher cs (map (primary_mapping publisher) sel) =
        Inr (map (primary_mapping publisher) sel @ ms)"
      "map subscriber_payload_type ms = map payload_type rs"
      "\<forall>m \<in> set ms. linked publisher (map (primary_mapping publisher) sel) m"
    using f by auto
  have prim: "publisher_payload_type (primary_mapping publisher c) \<in> set (payload_types publisher)" if c: "c \<in> set sel" for c
  proof -
    obtain p where p: "find_compatible_publisher_primary_codec publisher c = Some p" using s(2) c by blast
    then have "payload_type p \<in> set (payload_types publisher)"
      using find_SomeD [OF p [unfolded find_compatible_publisher_primary_codec_def]] by simp
    then show ?thesis by (simp add: primary_mapping_def p)
  qed
  have "negotiate_codec_payload_type_mappings subscriber publisher = Inr (map (primary_mapping publisher) sel @ ms)"
    by (simp add: negotiate_codec_payload_type_mappings_def assms p ms(1))
  moreover have "map subscriber_payload_type (map (primary_mapping publisher) sel @ ms) = map payload_type cs"
    using ms(2) s(1) by (simp add: primary_mapping_def)
  moreover have "publisher_payload_type m \<in> set (payload_types publisher)
      \<and> (subscriber_associated_payload_type m = None \<or> linked publisher (map (primary_mapping publisher) sel @ ms) m)"
    if mm: "m \<in> set (map (primary_mapping publisher) sel @ ms)" for m
  proof (cases "m \<in> set ms")
    case True
    then have l: "linked publisher (map (primary_mapping publisher) sel) m" using ms(3) by blast
    then have "linked publisher (map (primary_mapping publisher) sel @ ms) m" by (rule linked_mono) auto
    moreover have "publisher_payload_type m \<in> set (payload_types publisher)" using l by (simp add: linked_def)
    ultimately show ?thesis by blast
  next
    case False
    then obtain c where c: "c \<in> set sel" "m = primary_mapping publisher c" using mm by auto
    have "subscriber_associated_payload_type m = None" unfolding c(2) by (simp add: primary_mapping_def)
    then show ?thesis using prim [OF c(1)] c(2) by simp
  qed
  ultimately show ?thesis by blast
qed

text \<open>
  Whenever a subscriber's section is answered, every payload type of the answer has a payload type of
  the publisher to be fed from, in the same order, and a repair stream is mapped exactly next to the
  primary stream that it repairs.
\<close>

theorem negotiated_codecs_are_mapped:
  assumes "negotiate_codecs subscriber publisher = Inr cs"
  shows "\<exists>ms. negotiate_codec_payload_type_mappings subscriber publisher = Inr ms
    \<and> map subscriber_payload_type ms = map payload_type cs
    \<and> (\<forall>m \<in> set ms. publisher_payload_type m \<in> set (payload_types publisher)
        \<and> (subscriber_associated_payload_type m = None \<or> linked publisher ms m))"
  by (rule negotiated_mappings [OF assms])

definition demo_codec :: "nat \<Rightarrow> string \<Rightarrow> string \<Rightarrow> codec_info" where
  "demo_codec p name fmtp =
     \<lparr>payload_type = p, codec_name = name, clock_rate = 90000, encoding_parameters = [], codec_fmtp = fmtp, rtcp_feedback = [''nack'']\<rparr>"

definition demo_section :: "media_direction \<Rightarrow> nat \<Rightarrow> media_summary" where
  "demo_section d p =
     empty_media_summary\<lparr>kind := ''video'', mid := ''0'', summary_direction := d, payload_types := [p],
       codecs := [demo_codec p ''VP8'' []]\<rparr>"

lemma demo_negotiation:
  "negotiate_codecs (demo_section recv_only 96) (demo_section send_only 100) = Inr [demo_codec 96 ''VP8'' []]"
proof -
  let ?s = "demo_section recv_only 96" and ?p = "demo_section send_only 100"
  let ?c = "demo_codec 96 ''VP8'' []"
  have vp8: "is_vp8_codec (demo_codec n ''VP8'' [])" "\<not> is_rtx_codec (demo_codec n ''VP8'' [])"
    "\<not> is_h264_codec (demo_codec n ''VP8'' [])" for n
    by (simp_all add: is_vp8_codec_def is_rtx_codec_def is_h264_codec_def demo_codec_def iequals_def to_lower_def
        to_lower_char_def is_upper_def)
  have n: "normalize_supported_codec (demo_section d n) (demo_codec k ''VP8'' []) = Some (demo_codec k ''VP8'' [])" for d n k
    using vp8 by (simp add: normalize_supported_codec_def is_supported_codec_def is_supported_video_codec_def demo_section_def)
  have "codecs_are_compatible (demo_codec 100 ''VP8'' []) ?c"
    using vp8 by (simp add: codecs_are_compatible_def codec_encoding_parameters_are_compatible_def) (simp add: demo_codec_def)
  then have "has_compatible_publisher_codec ?p ?c"
    by (simp add: has_compatible_publisher_codec_def publisher_codec_matches_def n demo_section_def [THEN arg_cong, of codecs]
        demo_section_def [THEN arg_cong, of payload_types]) (simp add: demo_codec_def)
  then have "select_codecs ?s (has_compatible_publisher_codec ?p) (codecs ?s) = [?c]"
    by (simp add: n demo_section_def [THEN arg_cong, of codecs] demo_section_def [THEN arg_cong, of payload_types])
      (simp add: demo_codec_def)
  moreover have "append_answerable_rtx_codecs ?s ?p [?c] = [?c]"
    using vp8 by (simp add: append_answerable_rtx_codecs_def rtx_codec_is_answerable_def demo_section_def [THEN arg_cong, of codecs])
  moreover have "validate_offer_media (demo_section d n) = Inr ()" for d n
    by (simp add: validate_offer_media_def demo_section_def)
  moreover have "media_can_send ?p" "kind ?s = kind ?p" by (simp_all add: media_can_send_def demo_section_def)
  ultimately show ?thesis
    by (simp add: negotiate_codecs_def sort_primary_codecs_by_answer_preference_def)
qed

theorem negotiated_codecs_are_mapped_witness:
  "\<exists>ms. negotiate_codec_payload_type_mappings (demo_section recv_only 96) (demo_section send_only 100) = Inr ms
    \<and> map subscriber_payload_type ms = [96]"
  using negotiated_codecs_are_mapped [OF demo_negotiation] by (auto simp: demo_codec_def)

end
