(* ===== verification/Sdp_Answer_Builder.thy ===== *)
theory Sdp_Answer_Builder
  imports Sdp_Codec_Negotiator
begin

text \<open>
  The answers of the server (\<^verbatim>\<open>src/signaling/sdp/sdp_answer_builder.cpp\<close>): every section of an offer is
  accepted with a selection of its codecs and extensions, or rejected with port 0, in the order of the offer.
\<close>

section \<open>Options\<close>

record sdp_answer_media_source =
  source_mid :: string
  source_kind :: string
  source_ssrc :: nat
  rtx_repair_ssrc :: nat
  cname :: string

record sdp_answer_options =
  option_session_id :: u64
  option_session_version :: u64
  local_ice_ufrag :: string
  local_ice_pwd :: string
  local_fingerprint :: fingerprint_info
  local_candidate_addresses :: "string list"
  local_candidate_port :: nat
  local_stream_id :: string
  media_sources :: "sdp_answer_media_source list"

definition contains_whitespace :: "string \<Rightarrow> bool" where
  "contains_whitespace s \<longleftrightarrow> list_ex (\<lambda>c. c = CHR '' '' \<or> c = CHR 0x09 \<or> c = CHR 0x0D \<or> c = CHR 0x0A) s"

definition validate_token :: "string \<Rightarrow> string \<Rightarrow> unit result" where
  "validate_token v name =
     (if v = [] then make_error (name @ '' is empty'')
      else if contains_whitespace v then make_error (name @ '' contains whitespace'')
      else Inr ())"

definition make_candidate_field_name :: "string \<Rightarrow> string \<Rightarrow> string" where
  "make_candidate_field_name prefix field = prefix @ '' '' @ field"

fun validate_addresses :: "string list \<Rightarrow> nat \<Rightarrow> unit result" where
  "validate_addresses [] index = Inr ()"
| "validate_addresses (a # as) index =
     bindE (validate_token a (make_candidate_field_name (''local candidate '' @ decimal index) ''address'')) (\<lambda>_.
     validate_addresses as (index + 1))"

definition validate_candidate_options :: "sdp_answer_options \<Rightarrow> unit result" where
  "validate_candidate_options opt =
     (if local_candidate_addresses opt = [] then make_error ''local candidate address list is empty''
      else if local_candidate_port opt = 0 then make_error ''local candidate port is zero''
      else validate_addresses (local_candidate_addresses opt) 0)"

definition validate_options :: "sdp_answer_options \<Rightarrow> unit result" where
  "validate_options opt =
     bindE (validate_token (local_ice_ufrag opt) ''local ice-ufrag'') (\<lambda>_.
     bindE (validate_token (local_ice_pwd opt) ''local ice-pwd'') (\<lambda>_.
     bindE (validate_token (fingerprint_algorithm (local_fingerprint opt)) ''local fingerprint algorithm'') (\<lambda>_.
     bindE (validate_token (fingerprint_value (local_fingerprint opt)) ''local fingerprint value'') (\<lambda>_.
     bindE (validate_token (local_stream_id opt) ''local stream id'') (\<lambda>_.
     validate_candidate_options opt)))))"

section \<open>Sections of the offer and of the publisher\<close>

definition make_answer_direction :: "bool \<Rightarrow> media_summary \<Rightarrow> media_direction" where
  "make_answer_direction is_whep m =
     (if summary_direction m = inactive then inactive else if is_whep then send_only else recv_only)"

definition media_can_receive :: "media_summary \<Rightarrow> bool" where
  "media_can_receive m \<longleftrightarrow> summary_direction m = recv_only \<or> summary_direction m = send_recv"

definition count_send_capable_media_by_kind :: "webrtc_offer_summary \<Rightarrow> string \<Rightarrow> nat" where
  "count_send_capable_media_by_kind offer k = length (filter (\<lambda>m. kind m = k \<and> media_can_send m) (offer_media offer))"

definition count_receive_capable_media_by_kind :: "webrtc_offer_summary \<Rightarrow> string \<Rightarrow> nat" where
  "count_receive_capable_media_by_kind offer k = length (filter (\<lambda>m. kind m = k \<and> media_can_receive m) (offer_media offer))"

text \<open>
  The subscriber's section is passed by reference and found again by its address: here it is named by
  its index in the offer, and the loop counts the indices.
\<close>

fun receive_ordinal_loop :: "media_summary list \<Rightarrow> nat \<Rightarrow> nat \<Rightarrow> string \<Rightarrow> nat \<Rightarrow> nat option" where
  "receive_ordinal_loop [] index target k ordinal = None"
| "receive_ordinal_loop (m # ms) index target k ordinal =
     (if kind m \<noteq> k then receive_ordinal_loop ms (index + 1) target k ordinal
      else if \<not> media_can_receive m then receive_ordinal_loop ms (index + 1) target k ordinal
      else if index = target then Some ordinal
      else receive_ordinal_loop ms (index + 1) target k (ordinal + 1))"

definition find_receive_capable_media_ordinal_by_kind :: "webrtc_offer_summary \<Rightarrow> nat \<Rightarrow> nat option" where
  "find_receive_capable_media_ordinal_by_kind offer target =
     receive_ordinal_loop (offer_media offer) 0 target (kind (offer_media offer ! target)) 0"

fun send_ordinal_loop :: "media_summary list \<Rightarrow> string \<Rightarrow> nat \<Rightarrow> nat \<Rightarrow> media_summary option" where
  "send_ordinal_loop [] k target ordinal = None"
| "send_ordinal_loop (m # ms) k target ordinal =
     (if kind m \<noteq> k then send_ordinal_loop ms k target ordinal
      else if \<not> media_can_send m then send_ordinal_loop ms k target ordinal
      else if ordinal = target then Some m
      else send_ordinal_loop ms k target (ordinal + 1))"

definition find_send_capable_media_by_kind_ordinal :: "webrtc_offer_summary \<Rightarrow> string \<Rightarrow> nat \<Rightarrow> media_summary option" where
  "find_send_capable_media_by_kind_ordinal offer k target = send_ordinal_loop (offer_media offer) k target 0"

definition find_matching_publisher_media :: "nat \<Rightarrow> webrtc_offer_summary \<Rightarrow> webrtc_offer_summary \<Rightarrow> media_summary option" where
  "find_matching_publisher_media target subscriber publisher =
     (let m = offer_media subscriber ! target in
      if \<not> media_can_receive m then None
      else case find_receive_capable_media_ordinal_by_kind subscriber target of
        None \<Rightarrow> None
      | Some ordinal \<Rightarrow>
          let subscriber_count = count_receive_capable_media_by_kind subscriber (kind m);
              publisher_count = count_send_capable_media_by_kind publisher (kind m) in
          if subscriber_count = 0 \<or> subscriber_count \<noteq> publisher_count then None
          else find_send_capable_media_by_kind_ordinal publisher (kind m) ordinal)"

section \<open>Attribute values\<close>

definition k_rtp_mid_extension_uri :: string where "k_rtp_mid_extension_uri = ''urn:ietf:params:rtp-hdrext:sdes:mid''"
definition k_rtp_stream_id_extension_uri :: string where
  "k_rtp_stream_id_extension_uri = ''urn:ietf:params:rtp-hdrext:sdes:rtp-stream-id''"
definition k_transport_wide_cc_extension_uri :: string where
  "k_transport_wide_cc_extension_uri = ''http://www.ietf.org/id/draft-holmer-rmcat-transport-wide-cc-extensions-01''"
definition k_audio_level_extension_uri :: string where
  "k_audio_level_extension_uri = ''urn:ietf:params:rtp-hdrext:ssrc-audio-level''"

definition media_has_header_extension_uri :: "media_summary \<Rightarrow> string \<Rightarrow> bool" where
  "media_has_header_extension_uri m u \<longleftrightarrow> list_ex (\<lambda>e. uri e = u) (header_extensions m)"

definition media_has_answerable_rid :: "string \<Rightarrow> media_summary \<Rightarrow> string \<Rightarrow> bool" where
  "media_has_answerable_rid dir m rid =
     (if rid = [] then False
      else case find (\<lambda>r. rid_id r = rid) (rids m) of
        None \<Rightarrow> False
      | Some r \<Rightarrow> rid_direction r = dir \<or> rid_direction r = ''sendrecv'')"

definition media_has_answerable_send_rid :: "media_summary \<Rightarrow> string \<Rightarrow> bool" where
  "media_has_answerable_send_rid m rid = media_has_answerable_rid ''send'' m rid"

definition media_has_answerable_recv_rid :: "media_summary \<Rightarrow> string \<Rightarrow> bool" where
  "media_has_answerable_recv_rid m rid = media_has_answerable_rid ''recv'' m rid"

definition push_attribute :: "string \<Rightarrow> string \<Rightarrow> sdp_attribute list \<Rightarrow> sdp_attribute list" where
  "push_attribute key v as = as @ [make_attribute key v]"

definition push_property_attribute :: "string \<Rightarrow> sdp_attribute list \<Rightarrow> sdp_attribute list" where
  "push_property_attribute key as = as @ [make_property_attribute key]"

definition make_fingerprint_value :: "fingerprint_info \<Rightarrow> string" where
  "make_fingerprint_value f = fingerprint_algorithm f @ '' '' @ fingerprint_value f"

definition make_rtp_map_value :: "codec_info \<Rightarrow> string" where
  "make_rtp_map_value c =
     decimal (payload_type c) @ '' '' @ codec_name c @ ''/'' @ decimal (clock_rate c)
     @ (if encoding_parameters c \<noteq> [] then ''/'' @ encoding_parameters c else [])"

definition make_fmtp_value :: "codec_info \<Rightarrow> string" where
  "make_fmtp_value c = decimal (payload_type c) @ '' '' @ codec_fmtp c"

definition make_rtcp_feedback_value :: "codec_info \<Rightarrow> string \<Rightarrow> string" where
  "make_rtcp_feedback_value c feedback = decimal (payload_type c) @ '' '' @ feedback"

definition normalize_rtcp_feedback_value :: "string \<Rightarrow> string" where
  "normalize_rtcp_feedback_value feedback = join_with CHR '' '' (map to_lower (words_of is_space feedback))"

definition rtcp_feedback_is_supported_for_answer_media :: "string \<Rightarrow> string \<Rightarrow> bool \<Rightarrow> bool \<Rightarrow> bool" where
  "rtcp_feedback_is_supported_for_answer_media k feedback generic_nack transport_cc =
     (let normalized = normalize_rtcp_feedback_value feedback in
      if transport_cc \<and> normalized = ''transport-cc'' then k = ''audio'' \<or> k = ''video''
      else if k \<noteq> ''video'' then False
      else generic_nack \<and> normalized = ''nack'' \<or> normalized = ''nack pli'' \<or> normalized = ''ccm fir'')"

definition make_rtcp_feedback_deduplication_key :: "codec_info \<Rightarrow> string \<Rightarrow> string" where
  "make_rtcp_feedback_deduplication_key c normalized = decimal (payload_type c) @ ''|'' @ normalized"

definition is_supported_answer_header_extension_uri :: "string \<Rightarrow> string \<Rightarrow> bool \<Rightarrow> bool" where
  "is_supported_answer_header_extension_uri k u transport_cc =
     (if transport_cc \<and> u = k_transport_wide_cc_extension_uri then k = ''audio'' \<or> k = ''video''
      else if u = k_rtp_mid_extension_uri then k = ''audio'' \<or> k = ''video''
      else if u = k_rtp_stream_id_extension_uri then k = ''video''
      else if u = k_audio_level_extension_uri then k = ''audio''
      else False)"

definition make_extmap_value :: "rtp_header_extension \<Rightarrow> string" where
  "make_extmap_value e = int_to_string (extension_id e) @ '' '' @ uri e"

section \<open>Header extensions\<close>

definition rtp_header_extension_id_requires_two_byte :: "int \<Rightarrow> bool" where
  "rtp_header_extension_id_requires_two_byte i \<longleftrightarrow> i \<ge> 15 \<and> i \<le> 255"

definition extension_is_answered :: "media_summary \<Rightarrow> media_summary option \<Rightarrow> bool \<Rightarrow> rtp_header_extension \<Rightarrow> bool" where
  "extension_is_answered m forwarded transport_cc e =
     (if extension_id e \<le> 0 \<or> extension_id e > 255 then False
      else if uri e = [] then False
      else if \<not> is_supported_answer_header_extension_uri (kind m) (uri e) transport_cc then False
      else if forwarded \<noteq> None \<and> uri e \<noteq> k_transport_wide_cc_extension_uri
              \<and> \<not> media_has_header_extension_uri (the forwarded) (uri e) then False
      else if rtp_header_extension_id_requires_two_byte (extension_id e) \<and> \<not> extmap_allow_mixed m then False
      else True)"

definition select_answer_header_extensions :: "media_summary \<Rightarrow> media_summary option \<Rightarrow> bool \<Rightarrow> rtp_header_extension list" where
  "select_answer_header_extensions m forwarded transport_cc =
     filter (extension_is_answered m forwarded transport_cc) (header_extensions m)"

fun push_extensions :: "rtp_header_extension list \<Rightarrow> sdp_attribute list \<Rightarrow> sdp_attribute list" where
  "push_extensions [] as = as"
| "push_extensions (e # es) as = push_extensions es (push_attribute ''extmap'' (make_extmap_value e) as)"

definition append_header_extension_attributes ::
  "media_summary \<Rightarrow> media_summary option \<Rightarrow> bool \<Rightarrow> sdp_attribute list \<Rightarrow> sdp_attribute list" where
  "append_header_extension_attributes m forwarded transport_cc as =
     (let selected = select_answer_header_extensions m forwarded transport_cc;
          as = push_extensions selected as in
      if list_ex (\<lambda>e. rtp_header_extension_id_requires_two_byte (extension_id e)) selected
      then push_property_attribute ''extmap-allow-mixed'' as else as)"

section \<open>Simulcast\<close>

fun collect_unique :: "(string \<Rightarrow> bool) \<Rightarrow> string list \<Rightarrow> string list \<Rightarrow> string list" where
  "collect_unique P [] found = found"
| "collect_unique P (r # rs) found =
     (if \<not> P r then collect_unique P rs found
      else if r \<in> set found then collect_unique P rs found
      else collect_unique P rs (found @ [r]))"

definition collect_answerable_whep_simulcast_rids :: "media_summary \<Rightarrow> media_summary \<Rightarrow> string list" where
  "collect_answerable_whep_simulcast_rids subscriber publisher =
     (if kind subscriber \<noteq> ''video'' \<or> kind publisher \<noteq> ''video'' then []
      else case (simulcast subscriber, simulcast publisher) of
        (Some s, Some p) \<Rightarrow>
          if recv_rids s = [] \<or> send_rids p = [] then []
          else if \<not> media_has_header_extension_uri subscriber k_rtp_stream_id_extension_uri
                  \<or> \<not> media_has_header_extension_uri publisher k_rtp_stream_id_extension_uri then []
          else collect_unique (\<lambda>rid. media_has_answerable_recv_rid subscriber rid
                 \<and> media_has_answerable_send_rid publisher rid \<and> rid \<in> set (send_rids p)) (recv_rids s) []
      | _ \<Rightarrow> [])"

definition collect_answerable_whip_simulcast_rids :: "media_summary \<Rightarrow> string list" where
  "collect_answerable_whip_simulcast_rids m =
     (if kind m \<noteq> ''video'' then []
      else case simulcast m of
        None \<Rightarrow> []
      | Some s \<Rightarrow>
          if send_rids s = [] then []
          else if \<not> media_has_header_extension_uri m k_rtp_stream_id_extension_uri then []
          else collect_unique (media_has_answerable_send_rid m) (send_rids s) [])"

fun push_rids :: "string \<Rightarrow> string list \<Rightarrow> sdp_attribute list \<Rightarrow> sdp_attribute list" where
  "push_rids dir [] as = as"
| "push_rids dir (r # rs) as = push_rids dir rs (push_attribute ''rid'' (r @ '' '' @ dir) as)"

definition append_simulcast_attributes :: "string \<Rightarrow> string list \<Rightarrow> sdp_attribute list \<Rightarrow> sdp_attribute list" where
  "append_simulcast_attributes dir found as =
     (if found = [] then as
      else push_attribute ''simulcast'' (dir @ '' '' @ join_with CHR '';'' found) (push_rids dir found as))"

definition append_whep_simulcast_send_attributes ::
  "media_summary \<Rightarrow> media_summary option \<Rightarrow> sdp_attribute list \<Rightarrow> sdp_attribute list" where
  "append_whep_simulcast_send_attributes subscriber forwarded as =
     (case forwarded of
        None \<Rightarrow> as
      | Some p \<Rightarrow> append_simulcast_attributes ''send'' (collect_answerable_whep_simulcast_rids subscriber p) as)"

definition append_whip_simulcast_receive_attributes :: "media_summary \<Rightarrow> sdp_attribute list \<Rightarrow> sdp_attribute list" where
  "append_whip_simulcast_receive_attributes m as =
     append_simulcast_attributes ''recv'' (collect_answerable_whip_simulcast_rids m) as"

section \<open>Streams and sources\<close>

definition make_msid_value :: "sdp_answer_options \<Rightarrow> media_summary \<Rightarrow> string" where
  "make_msid_value opt m = local_stream_id opt @ '' '' @ kind m @ ''-'' @ mid m"

text \<open>For a subscriber the publisher's section is dereferenced: it is a fault when there is none.\<close>

definition make_answer_msid_value :: "bool \<Rightarrow> sdp_answer_options \<Rightarrow> media_summary \<Rightarrow> media_summary option \<Rightarrow> string result" where
  "make_answer_msid_value is_whep opt m forwarded =
     (if is_whep then (case forwarded of None \<Rightarrow> Inl OutOfBounds | Some p \<Rightarrow> Inr (make_msid_value opt p))
      else Inr (make_msid_value opt m))"

definition answer_media_source_matches_media :: "sdp_answer_media_source \<Rightarrow> media_summary \<Rightarrow> bool" where
  "answer_media_source_matches_media s m =
     (if source_ssrc s = 0 then False
      else if source_mid s \<noteq> mid m then False
      else if source_kind s \<noteq> kind m then False
      else True)"

fun unique_source_by_kind :: "sdp_answer_media_source list \<Rightarrow> string \<Rightarrow> sdp_answer_media_source option \<Rightarrow> sdp_answer_media_source option" where
  "unique_source_by_kind [] k matched = matched"
| "unique_source_by_kind (s # ss) k matched =
     (if source_ssrc s = 0 then unique_source_by_kind ss k matched
      else if source_kind s \<noteq> k then unique_source_by_kind ss k matched
      else if matched \<noteq> None then None
      else unique_source_by_kind ss k (Some s))"

definition find_unique_answer_media_source_by_kind :: "sdp_answer_options \<Rightarrow> string \<Rightarrow> sdp_answer_media_source option" where
  "find_unique_answer_media_source_by_kind opt k = unique_source_by_kind (media_sources opt) k None"

definition find_answer_media_source ::
  "sdp_answer_options \<Rightarrow> media_summary \<Rightarrow> media_summary option \<Rightarrow> sdp_answer_media_source option" where
  "find_answer_media_source opt m forwarded =
     (case find (\<lambda>s. answer_media_source_matches_media s m) (media_sources opt) of
        Some s \<Rightarrow> Some s
      | None \<Rightarrow>
          (case (case forwarded of
                   None \<Rightarrow> None
                 | Some p \<Rightarrow> find (\<lambda>s. answer_media_source_matches_media s p) (media_sources opt)) of
             Some s \<Rightarrow> Some s
           | None \<Rightarrow> find_unique_answer_media_source_by_kind opt (kind m)))"

definition append_media_source_attributes ::
  "sdp_answer_media_source \<Rightarrow> string \<Rightarrow> bool \<Rightarrow> sdp_attribute list \<Rightarrow> sdp_attribute list" where
  "append_media_source_attributes src msid_value include_rtx as =
     (let primary = decimal (source_ssrc src);
          as = push_attribute ''ssrc'' (primary @ '' cname:'' @ cname src) as;
          as = push_attribute ''ssrc'' (primary @ '' msid:'' @ msid_value) as in
      if \<not> include_rtx \<or> rtx_repair_ssrc src = 0 then as
      else
        let repair = decimal (rtx_repair_ssrc src);
            as = push_attribute ''ssrc-group'' (''FID '' @ primary @ '' '' @ repair) as;
            as = push_attribute ''ssrc'' (repair @ '' cname:'' @ cname src) as in
        push_attribute ''ssrc'' (repair @ '' msid:'' @ msid_value) as)"

section \<open>Codecs\<close>

definition is_rtx_name :: "codec_info \<Rightarrow> bool" where
  "is_rtx_name c \<longleftrightarrow> iequals (codec_name c) ''rtx''"

definition remove_unimplemented_answer_codecs :: "codec_info list \<Rightarrow> codec_info list" where
  "remove_unimplemented_answer_codecs cs = filter (\<lambda>c. \<not> is_rtx_name c) cs"

fun parse_fmtp_digits :: "string \<Rightarrow> nat \<Rightarrow> nat option" where
  "parse_fmtp_digits [] parsed = Some parsed"
| "parse_fmtp_digits (c # cs) parsed =
     (if \<not> is_digit c then None
      else let parsed = parsed * 10 + digit_value c in
        if parsed > 127 then None else parse_fmtp_digits cs parsed)"

definition parse_fmtp_payload_type :: "string \<Rightarrow> nat option" where
  "parse_fmtp_payload_type v =
     (let v = trim_if is_blank v in if v = [] then None else parse_fmtp_digits v 0)"

fun rtx_apt_in :: "string list \<Rightarrow> nat option" where
  "rtx_apt_in [] = None"
| "rtx_apt_in (part # parts) =
     (case split_first CHR ''='' (trim_if is_blank part) of
        None \<Rightarrow> rtx_apt_in parts
      | Some (key, v) \<Rightarrow>
          if iequals (trim_if is_blank key) ''apt'' then parse_fmtp_payload_type (trim_if is_blank v)
          else rtx_apt_in parts)"

definition find_rtx_apt_payload_type :: "codec_info \<Rightarrow> nat option" where
  "find_rtx_apt_payload_type c = rtx_apt_in (split_all CHR '';'' (codec_fmtp c))"

definition answer_primary_payload_type_exists :: "codec_info list \<Rightarrow> nat \<Rightarrow> bool" where
  "answer_primary_payload_type_exists cs p \<longleftrightarrow> list_ex (\<lambda>c. payload_type c = p \<and> \<not> is_rtx_name c) cs"

definition answer_codecs_include_usable_rtx :: "codec_info list \<Rightarrow> bool" where
  "answer_codecs_include_usable_rtx cs \<longleftrightarrow>
     list_ex (\<lambda>c. is_rtx_name c \<and> clock_rate c = 90000
       \<and> (case find_rtx_apt_payload_type c of None \<Rightarrow> False | Some apt \<Rightarrow> answer_primary_payload_type_exists cs apt)) cs"

text \<open>The priority is computed in \<^verbatim>\<open>uint32_t\<close>.\<close>

definition make_candidate_value :: "string \<Rightarrow> nat \<Rightarrow> nat \<Rightarrow> string" where
  "make_candidate_value address p index =
     decimal (index + 1) @ '' 1 udp '' @ decimal (unat (2130706431 - word_of_nat index :: u32)) @ '' '' @ address @ '' ''
     @ decimal p @ '' typ host''"

fun push_feedback :: "string \<Rightarrow> bool \<Rightarrow> bool \<Rightarrow> codec_info \<Rightarrow> string list \<Rightarrow> string set \<times> sdp_attribute list \<Rightarrow> string set \<times> sdp_attribute list" where
  "push_feedback k generic_nack transport_cc c [] st = st"
| "push_feedback k generic_nack transport_cc c (f # fs) (emitted, as) =
     (if \<not> rtcp_feedback_is_supported_for_answer_media k f generic_nack transport_cc
      then push_feedback k generic_nack transport_cc c fs (emitted, as)
      else
        let normalized = normalize_rtcp_feedback_value f;
            key = make_rtcp_feedback_deduplication_key c normalized in
        if key \<in> emitted then push_feedback k generic_nack transport_cc c fs (emitted, as)
        else push_feedback k generic_nack transport_cc c fs
          (insert key emitted, push_attribute ''rtcp-fb'' (make_rtcp_feedback_value c normalized) as))"

fun push_codecs :: "string \<Rightarrow> bool \<Rightarrow> bool \<Rightarrow> codec_info list \<Rightarrow> string set \<times> sdp_attribute list \<Rightarrow> string set \<times> sdp_attribute list" where
  "push_codecs k generic_nack transport_cc [] st = st"
| "push_codecs k generic_nack transport_cc (c # cs) (emitted, as) =
     (let as = push_attribute ''rtpmap'' (make_rtp_map_value c) as;
          as = (if codec_fmtp c \<noteq> [] then push_attribute ''fmtp'' (make_fmtp_value c) as else as) in
      push_codecs k generic_nack transport_cc cs (push_feedback k generic_nack transport_cc c (rtcp_feedback c) (emitted, as)))"

definition append_codec_attributes :: "string \<Rightarrow> codec_info list \<Rightarrow> bool \<Rightarrow> bool \<Rightarrow> sdp_attribute list \<Rightarrow> sdp_attribute list" where
  "append_codec_attributes k cs generic_nack transport_cc as = snd (push_codecs k generic_nack transport_cc cs ({}, as))"

definition append_media_timing_attributes :: "media_summary \<Rightarrow> sdp_attribute list \<Rightarrow> sdp_attribute list" where
  "append_media_timing_attributes m as =
     (if kind m \<noteq> ''audio'' then as
      else
        let as = (case ptime m of None \<Rightarrow> as | Some t \<Rightarrow> push_attribute ''ptime'' (decimal t) as) in
        case maxptime m of None \<Rightarrow> as | Some t \<Rightarrow> push_attribute ''maxptime'' (decimal t) as)"

fun push_candidates :: "string list \<Rightarrow> nat \<Rightarrow> nat \<Rightarrow> sdp_attribute list \<Rightarrow> sdp_attribute list" where
  "push_candidates [] p index as = as"
| "push_candidates (a # addresses) p index as =
     push_candidates addresses p (index + 1) (push_attribute ''candidate'' (make_candidate_value a p index) as)"

definition append_ice_candidate_attributes :: "sdp_answer_options \<Rightarrow> sdp_attribute list \<Rightarrow> sdp_attribute list" where
  "append_ice_candidate_attributes opt as =
     push_property_attribute ''end-of-candidates''
       (push_candidates (local_candidate_addresses opt) (local_candidate_port opt) 0 as)"

section \<open>Sections of the answer\<close>

definition is_answer_media_rejected :: "media_description \<Rightarrow> bool" where
  "is_answer_media_rejected m \<longleftrightarrow> port (media_name m) = 0"

definition make_rejected_answer_media :: "media_summary \<Rightarrow> media_description" where
  "make_rejected_answer_media m =
     (let fmts = map decimal (payload_types m);
          fmts = (if fmts = [] then [''0''] else fmts);
          as = push_property_attribute (direction_to_string inactive) (push_attribute ''mid'' (mid m) []);
          as = (if rtcp_mux m then push_property_attribute ''rtcp-mux'' as else as);
          as = (if rtcp_rsize m then push_property_attribute ''rtcp-rsize'' as else as) in
      \<lparr>media_name = \<lparr>media = kind m, port = 0, formats = fmts\<rparr>, connection_address = ''0.0.0.0'', media_attributes = as\<rparr>)"

definition media_offers_transport_cc :: "media_summary \<Rightarrow> codec_info list \<Rightarrow> bool \<Rightarrow> bool" where
  "media_offers_transport_cc m cs remote_sends_rtp =
     (let has_extension = list_ex (\<lambda>e.
            (direction e = direction_unknown \<or> direction e = send_recv
             \<or> direction e = (if remote_sends_rtp then send_only else recv_only))
            \<and> uri e = k_transport_wide_cc_extension_uri) (header_extensions m) in
      if \<not> has_extension then False
      else list_ex (\<lambda>c. list_ex (\<lambda>f. normalize_rtcp_feedback_value f = ''transport-cc'') (rtcp_feedback c)) cs)"

definition front :: "string list \<Rightarrow> string result" where
  "front xs = (case xs of [] \<Rightarrow> Inl OutOfBounds | x # _ \<Rightarrow> Inr x)"

text \<open>The codecs of an accepted section and the publisher's section they come from; none for a rejection.\<close>

definition answer_codecs ::
  "nat \<Rightarrow> webrtc_offer_summary \<Rightarrow> webrtc_offer_summary option \<Rightarrow> (codec_info list \<times> media_summary option) option" where
  "answer_codecs index offer publisher_offer =
     (let m = offer_media offer ! index in
      case publisher_offer of
        Some p \<Rightarrow>
          (case find_matching_publisher_media index offer p of
             None \<Rightarrow> None
           | Some publisher_media \<Rightarrow>
               (case negotiate_codecs m publisher_media of
                  Inl _ \<Rightarrow> None
                | Inr cs \<Rightarrow> if cs = [] then None else Some (cs, Some publisher_media)))
      | None \<Rightarrow>
          (case negotiate_offer_codecs m of
             Inl _ \<Rightarrow> None
           | Inr cs \<Rightarrow>
               let cs = remove_unimplemented_answer_codecs cs in
               if cs = [] then None else Some (cs, None)))"

definition make_accepted_answer_media ::
  "sdp_answer_options \<Rightarrow> media_summary \<Rightarrow> bool \<Rightarrow> codec_info list \<Rightarrow> media_summary option \<Rightarrow> media_description result" where
  "make_accepted_answer_media opt m is_whep cs forwarded =
     (let answer_direction = make_answer_direction is_whep m;
          transport_cc = media_offers_transport_cc m cs (\<not> is_whep);
          as = push_attribute ''mid'' (mid m) [];
          as = push_property_attribute (direction_to_string answer_direction) as;
          as = push_property_attribute ''rtcp-mux'' as;
          as = (if rtcp_rsize m then push_property_attribute ''rtcp-rsize'' as else as);
          as = append_header_extension_attributes m forwarded transport_cc as;
          as = (if \<not> is_whep \<and> answer_direction = recv_only then append_whip_simulcast_receive_attributes m as else as);
          as = (if is_whep \<and> answer_direction = send_only then append_whep_simulcast_send_attributes m forwarded as else as);
          as = append_codec_attributes (kind m) cs is_whep transport_cc as;
          as = append_media_timing_attributes m as;
          as = append_ice_candidate_attributes opt as in
      bindE (front (local_candidate_addresses opt)) (\<lambda>address.
      bindE (if answer_direction = send_only \<or> answer_direction = send_recv then
               bindE (make_answer_msid_value is_whep opt m forwarded) (\<lambda>msid_value.
               let as = push_attribute ''msid'' msid_value as in
               Inr (if is_whep then
                      (case find_answer_media_source opt m forwarded of
                         None \<Rightarrow> as
                       | Some src \<Rightarrow> append_media_source_attributes src msid_value (answer_codecs_include_usable_rtx cs) as)
                    else as))
             else Inr as) (\<lambda>as.
      Inr \<lparr>media_name = \<lparr>media = kind m, port = 9, formats = map (\<lambda>c. decimal (payload_type c)) cs\<rparr>,
           connection_address = address, media_attributes = as\<rparr>)))"

definition make_answer_media ::
  "sdp_answer_options \<Rightarrow> nat \<Rightarrow> webrtc_offer_summary \<Rightarrow> webrtc_offer_summary option \<Rightarrow> media_description result" where
  "make_answer_media opt index offer publisher_offer =
     (let m = offer_media offer ! index; is_whep = (publisher_offer \<noteq> None) in
      if make_answer_direction is_whep m = inactive then Inr (make_rejected_answer_media m)
      else case answer_codecs index offer publisher_offer of
        None \<Rightarrow> Inr (make_rejected_answer_media m)
      | Some (cs, forwarded) \<Rightarrow> make_accepted_answer_media opt m is_whep cs forwarded)"

text \<open>The loop over the sections: the answer's sections and the indices of the accepted ones.\<close>

function append_answer_media_loop ::
  "sdp_answer_options \<Rightarrow> webrtc_offer_summary \<Rightarrow> webrtc_offer_summary option \<Rightarrow> nat \<Rightarrow> media_description list \<times> int list
   \<Rightarrow> (media_description list \<times> int list) result" where
  "append_answer_media_loop opt offer publisher_offer index (sections, accepted) =
     (if index \<ge> length (offer_media offer) then Inr (sections, accepted)
      else
        bindE (make_answer_media opt index offer publisher_offer) (\<lambda>section.
        if \<not> is_answer_media_rejected section then
          (if index > 2147483647 then make_error ''accepted offer media mline index is too large''
           else append_answer_media_loop opt offer publisher_offer (index + 1) (sections @ [section], accepted @ [int index]))
        else append_answer_media_loop opt offer publisher_offer (index + 1) (sections @ [section], accepted)))"
  by auto
termination
  by (relation "measure (\<lambda>(opt, offer, p, index, st). length (offer_media offer) - index)") auto

declare append_answer_media_loop.simps [simp del]

definition append_answer_media_descriptions ::
  "sdp_answer_options \<Rightarrow> webrtc_offer_summary \<Rightarrow> webrtc_offer_summary option \<Rightarrow> (media_description list \<times> int list) result" where
  "append_answer_media_descriptions opt offer publisher_offer =
     bindE (append_answer_media_loop opt offer publisher_offer 0 ([], [])) (\<lambda>(sections, accepted).
     if accepted = [] then
       (if publisher_offer = None then make_error ''whip answer has no supported publisher media''
        else make_error ''whep answer has no compatible publisher media'')
     else Inr (sections, accepted))"

definition make_bundle_group_value :: "webrtc_offer_summary \<Rightarrow> int list \<Rightarrow> string" where
  "make_bundle_group_value offer accepted =
     ''BUNDLE'' @ concat (map (\<lambda>i. CHR '' '' # mid (offer_media offer ! nat i)) accepted)"

definition build_answer ::
  "webrtc_offer_summary \<Rightarrow> sdp_answer_options \<Rightarrow> webrtc_offer_summary option \<Rightarrow> (session_description \<times> int list) result" where
  "build_answer offer opt publisher_offer =
     bindE (validate_options opt) (\<lambda>_.
     let as = push_property_attribute ''ice-lite'' [];
         as = push_attribute ''ice-options'' ''trickle'' as;
         as = push_attribute ''ice-ufrag'' (local_ice_ufrag opt) as;
         as = push_attribute ''ice-pwd'' (local_ice_pwd opt) as;
         as = push_attribute ''fingerprint'' (make_fingerprint_value (local_fingerprint opt)) as;
         as = push_attribute ''setup'' ''passive'' as;
         as = push_attribute ''msid-semantic'' ''WMS *'' as in
     bindE (append_answer_media_descriptions opt offer publisher_offer) (\<lambda>(sections, accepted).
     Inr (\<lparr>session_id = option_session_id opt, session_version = option_session_version opt,
           session_attributes = make_attribute ''group'' (make_bundle_group_value offer accepted) # as,
           media_descriptions = sections\<rparr>, accepted)))"

definition build_answer_sdp ::
  "webrtc_offer_summary \<Rightarrow> sdp_answer_options \<Rightarrow> webrtc_offer_summary option \<Rightarrow> (string \<times> int list) result" where
  "build_answer_sdp offer opt publisher_offer =
     bindE (build_answer offer opt publisher_offer) (\<lambda>(answer, accepted).
     Inr (format_session_description answer, accepted))"

definition select_whep_answer_header_extensions :: "media_summary \<Rightarrow> media_summary \<Rightarrow> rtp_header_extension list" where
  "select_whep_answer_header_extensions subscriber publisher =
     (case negotiate_codecs subscriber publisher of
        Inl _ \<Rightarrow> []
      | Inr cs \<Rightarrow> select_answer_header_extensions subscriber (Some publisher) (media_offers_transport_cc subscriber cs False))"

definition build_whip_answer_sdp :: "webrtc_offer_summary \<Rightarrow> sdp_answer_options \<Rightarrow> (string \<times> int list) result" where
  "build_whip_answer_sdp offer opt = build_answer_sdp offer opt None"

definition build_whep_answer_sdp ::
  "webrtc_offer_summary \<Rightarrow> webrtc_offer_summary \<Rightarrow> sdp_answer_options \<Rightarrow> (string \<times> int list) result" where
  "build_whep_answer_sdp subscriber_offer publisher_offer opt = build_answer_sdp subscriber_offer opt (Some publisher_offer)"

end
