(* ===== verification/Sdp_Offer_Validator.thy ===== *)
theory Sdp_Offer_Validator
  imports Sdp_Summary H264_Fmtp
begin

text \<open>
  The checks on an offer (\<^verbatim>\<open>src/signaling/sdp/sdp_offer_validator.cpp\<close>): what a publisher (WHIP) and a
  subscriber (WHEP) may ask for.
\<close>

section \<open>Fingerprints\<close>

definition make_offer_error :: "string \<Rightarrow> media_summary \<Rightarrow> string \<Rightarrow> 'a result" where
  "make_offer_error prefix m suffix = make_error (prefix @ '' media mid '' @ mid m @ '' '' @ suffix)"

definition fingerprint_digest_size :: "string \<Rightarrow> nat result" where
  "fingerprint_digest_size algorithm =
     (let normalized = to_lower algorithm in
      if normalized = ''sha-256'' then Inr 32
      else if normalized = ''sha-384'' then Inr 48
      else if normalized = ''sha-512'' then Inr 64
      else make_error (''offer fingerprint algorithm is unsupported: '' @ algorithm))"

text \<open>\<^verbatim>\<open>fingerprint.value[i]\<close>: an access behind the end is a fault.\<close>

definition char_of_text :: "string \<Rightarrow> nat \<Rightarrow> char result" where
  "char_of_text s i = (if i < length s then Inr (s ! i) else Inl OutOfBounds)"

function check_fingerprint_bytes :: "string \<Rightarrow> nat \<Rightarrow> nat \<Rightarrow> unit result" where
  "check_fingerprint_bytes v digest_size byte_index =
     (if byte_index \<ge> digest_size then Inr ()
      else
        bindE (char_of_text v (byte_index * 3)) (\<lambda>h.
        bindE (if \<not> is_hex_digit h then Inr True
               else bindE (char_of_text v (byte_index * 3 + 1)) (\<lambda>l. Inr (\<not> is_hex_digit l))) (\<lambda>bad.
        if bad then make_error ''offer fingerprint value contains invalid hexadecimal byte''
        else if byte_index + 1 < digest_size then
          bindE (char_of_text v (byte_index * 3 + 2)) (\<lambda>c.
          if c \<noteq> CHR '':'' then make_error ''offer fingerprint value must use colon separators''
          else check_fingerprint_bytes v digest_size (byte_index + 1))
        else check_fingerprint_bytes v digest_size (byte_index + 1))))"
  by auto
termination
  by (relation "measure (\<lambda>(v, n, i). n - i)") auto

declare check_fingerprint_bytes.simps [simp del]

definition validate_fingerprint :: "fingerprint_info \<Rightarrow> unit result" where
  "validate_fingerprint f =
     (if fingerprint_algorithm f = [] then make_error ''offer fingerprint algorithm is empty''
      else if fingerprint_value f = [] then make_error ''offer fingerprint value is empty''
      else
        bindE (fingerprint_digest_size (fingerprint_algorithm f)) (\<lambda>digest_size.
        if length (fingerprint_value f) \<noteq> digest_size * 3 - 1
        then make_error (''offer fingerprint value length does not match algorithm '' @ fingerprint_algorithm f)
        else check_fingerprint_bytes (fingerprint_value f) digest_size 0))"

section \<open>Media sections\<close>

fun validate_unique_media_mids :: "media_summary list \<Rightarrow> unit result" where
  "validate_unique_media_mids [] = Inr ()"
| "validate_unique_media_mids (m # ms) =
     (if mid m = [] then make_error ''media mid is empty''
      else if list_ex (\<lambda>n. mid m = mid n) ms then make_error (''duplicate media mid: '' @ mid m)
      else validate_unique_media_mids ms)"

fun validate_unique_bundle_mids :: "string list \<Rightarrow> unit result" where
  "validate_unique_bundle_mids [] = Inr ()"
| "validate_unique_bundle_mids (b # bs) =
     (if b = [] then make_error ''bundle mid is empty''
      else if list_ex (\<lambda>c. b = c) bs then make_error (''duplicate bundle mid: '' @ b)
      else validate_unique_bundle_mids bs)"

fun validate_media_bundle_membership :: "string list \<Rightarrow> media_summary list \<Rightarrow> unit result" where
  "validate_media_bundle_membership bundle [] = Inr ()"
| "validate_media_bundle_membership bundle (m # ms) =
     (if \<not> list_ex (\<lambda>b. b = mid m) bundle then make_offer_error ''offer'' m ''is not present in bundle group''
      else validate_media_bundle_membership bundle ms)"

fun validate_common_media :: "media_summary list \<Rightarrow> unit result" where
  "validate_common_media [] = Inr ()"
| "validate_common_media (m # ms) =
     (if kind m \<noteq> ''audio'' \<and> kind m \<noteq> ''video'' then make_offer_error ''offer'' m ''has unsupported media kind''
      else if summary_direction m = direction_unknown then make_offer_error ''offer'' m ''has unknown direction''
      else if \<not> rtcp_mux m then make_offer_error ''offer'' m ''does not enable rtcp-mux''
      else if payload_types m = [] then make_offer_error ''offer'' m ''has no payload types''
      else if codecs m = [] then make_offer_error ''offer'' m ''has no codecs''
      else validate_common_media ms)"

definition validate_common_offer :: "webrtc_offer_summary \<Rightarrow> unit result" where
  "validate_common_offer offer =
     (if ice_ufrag offer = [] then make_error ''offer ice-ufrag is empty''
      else if ice_pwd offer = [] then make_error ''offer ice-pwd is empty''
      else
        bindE (validate_fingerprint (fingerprint offer)) (\<lambda>_.
        if setup_role offer \<noteq> role_actpass then make_error ''offer setup must be actpass''
        else if bundle_mids offer = [] then make_error ''offer bundle group is empty''
        else if offer_media offer = [] then make_error ''offer has no audio or video media''
        else
          bindE (validate_unique_media_mids (offer_media offer)) (\<lambda>_.
          bindE (validate_unique_bundle_mids (bundle_mids offer)) (\<lambda>_.
          bindE (validate_media_bundle_membership (bundle_mids offer) (offer_media offer)) (\<lambda>_.
          validate_common_media (offer_media offer))))))"

text \<open>The loops over the directions; the flag says whether a usable section was seen.\<close>

fun check_whip_directions :: "media_summary list \<Rightarrow> bool \<Rightarrow> bool result" where
  "check_whip_directions [] usable = Inr usable"
| "check_whip_directions (m # ms) usable =
     (case summary_direction m of
        send_only \<Rightarrow> check_whip_directions ms True
      | send_recv \<Rightarrow> check_whip_directions ms True
      | inactive \<Rightarrow> check_whip_directions ms usable
      | recv_only \<Rightarrow> make_offer_error ''whip'' m ''must not be recvonly''
      | direction_unknown \<Rightarrow> make_offer_error ''whip'' m ''has unknown direction'')"

fun check_whep_directions :: "media_summary list \<Rightarrow> bool \<Rightarrow> bool result" where
  "check_whep_directions [] usable = Inr usable"
| "check_whep_directions (m # ms) usable =
     (case summary_direction m of
        recv_only \<Rightarrow> check_whep_directions ms True
      | send_recv \<Rightarrow> check_whep_directions ms True
      | inactive \<Rightarrow> check_whep_directions ms usable
      | send_only \<Rightarrow> make_offer_error ''whep'' m ''must not be sendonly''
      | direction_unknown \<Rightarrow> make_offer_error ''whep'' m ''has unknown direction'')"

definition validate_whip_offer :: "webrtc_offer_summary \<Rightarrow> unit result" where
  "validate_whip_offer offer =
     bindE (validate_common_offer offer) (\<lambda>_.
     bindE (check_whip_directions (offer_media offer) False) (\<lambda>usable.
     if \<not> usable then make_error ''whip offer has no send-capable media'' else Inr ()))"

definition validate_whep_offer :: "webrtc_offer_summary \<Rightarrow> unit result" where
  "validate_whep_offer offer =
     bindE (validate_common_offer offer) (\<lambda>_.
     bindE (check_whep_directions (offer_media offer) False) (\<lambda>usable.
     if \<not> usable then make_error ''whep offer has no receive-capable media'' else Inr ()))"

section \<open>What the validator accepts\<close>

definition fingerprint_ok :: "fingerprint_info \<Rightarrow> bool" where
  "fingerprint_ok f \<longleftrightarrow>
     (case fingerprint_digest_size (fingerprint_algorithm f) of
        Inl _ \<Rightarrow> False
      | Inr n \<Rightarrow>
          length (fingerprint_value f) = n * 3 - 1
          \<and> (\<forall>i < length (fingerprint_value f).
                 if i mod 3 = 2 then fingerprint_value f ! i = CHR '':'' else is_hex_digit (fingerprint_value f ! i)))"

definition section_ok :: "media_summary \<Rightarrow> bool" where
  "section_ok m \<longleftrightarrow>
     (kind m = ''audio'' \<or> kind m = ''video'') \<and> summary_direction m \<noteq> direction_unknown \<and> rtcp_mux m
     \<and> payload_types m \<noteq> [] \<and> codecs m \<noteq> []"

definition offer_ok :: "webrtc_offer_summary \<Rightarrow> bool" where
  "offer_ok offer \<longleftrightarrow>
     ice_ufrag offer \<noteq> [] \<and> ice_pwd offer \<noteq> [] \<and> fingerprint_ok (fingerprint offer) \<and> setup_role offer = role_actpass
     \<and> bundle_mids offer \<noteq> [] \<and> distinct (bundle_mids offer) \<and> [] \<notin> set (bundle_mids offer)
     \<and> offer_media offer \<noteq> [] \<and> distinct (map mid (offer_media offer)) \<and> [] \<notin> set (map mid (offer_media offer))
     \<and> set (map mid (offer_media offer)) \<subseteq> set (bundle_mids offer) \<and> list_all section_ok (offer_media offer)"

definition whip_offer_ok :: "webrtc_offer_summary \<Rightarrow> bool" where
  "whip_offer_ok offer \<longleftrightarrow>
     offer_ok offer \<and> list_all (\<lambda>m. summary_direction m \<noteq> recv_only) (offer_media offer)
     \<and> list_ex (\<lambda>m. summary_direction m \<in> {send_only, send_recv}) (offer_media offer)"

definition whep_offer_ok :: "webrtc_offer_summary \<Rightarrow> bool" where
  "whep_offer_ok offer \<longleftrightarrow>
     offer_ok offer \<and> list_all (\<lambda>m. summary_direction m \<noteq> send_only) (offer_media offer)
     \<and> list_ex (\<lambda>m. summary_direction m \<in> {recv_only, send_recv}) (offer_media offer)"

lemma bindE_unit_iff: "bindE x f = Inr () \<longleftrightarrow> (\<exists>y. x = Inr y \<and> f y = Inr ())"
  by (cases x) auto

lemma check_fingerprint_bytes_iff:
  assumes "length v = n * 3 - 1" and "i \<le> n"
  shows "check_fingerprint_bytes v n i = Inr () \<longleftrightarrow>
      (\<forall>k < length v. i * 3 \<le> k \<longrightarrow> (if k mod 3 = 2 then v ! k = CHR '':'' else is_hex_digit (v ! k)))"
    and "fault_free (check_fingerprint_bytes v n i)"
  using assms
proof (induction "n - i" arbitrary: i)
  case 0
  { case 1 then show ?case using 0 by (subst check_fingerprint_bytes.simps) auto
  next case 2 then show ?case using 0 by (subst check_fingerprint_bytes.simps) auto }
next
  case (Suc d)
  { case 1
    have i: "i < n" "d = n - Suc i" using Suc(3) by simp_all
    have len: "i * 3 < length v" "i * 3 + 1 < length v" "Suc i < n \<Longrightarrow> i * 3 + 2 < length v"
      using 1 i by auto
    have next_iff: "check_fingerprint_bytes v n (Suc i) = Inr () \<longleftrightarrow>
        (\<forall>k < length v. Suc i * 3 \<le> k \<longrightarrow> (if k mod 3 = 2 then v ! k = CHR '':'' else is_hex_digit (v ! k)))"
      by (rule Suc.hyps(1) [OF i(2)]) (use 1 i in simp_all)
    let ?ok = "\<lambda>k. if k mod 3 = 2 then v ! k = CHR '':'' else is_hex_digit (v ! k)"
    have three: "(\<forall>k < length v. i * 3 \<le> k \<longrightarrow> ?ok k) \<longleftrightarrow>
        ?ok (i * 3) \<and> ?ok (i * 3 + 1) \<and> (Suc i < n \<longrightarrow> ?ok (i * 3 + 2)) \<and> (\<forall>k < length v. Suc i * 3 \<le> k \<longrightarrow> ?ok k)" (is "?A \<longleftrightarrow> ?B")
    proof
      assume ?A then show ?B using len by auto
    next
      assume B: ?B
      show ?A
      proof (intro allI impI)
        fix k assume k: "k < length v" "i * 3 \<le> k"
        then have "k = i * 3 \<or> k = i * 3 + 1 \<or> k = i * 3 + 2 \<or> Suc i * 3 \<le> k" by auto
        then consider "k = i * 3" | "k = i * 3 + 1" | "k = i * 3 + 2" | "Suc i * 3 \<le> k" by blast
        then show "?ok k"
        proof cases
          case 3
          then have "Suc i < n" using k 1 by auto
          then show ?thesis using B 3 by blast
        qed (use B k in blast)+
      qed
    qed
    have m: "i * 3 mod 3 = 0" "(i * 3 + 1) mod 3 = 1" "(i * 3 + 2) mod 3 = 2" by presburger+
    show ?case unfolding three using i len next_iff m
      by (subst check_fingerprint_bytes.simps)
        (auto simp: char_of_text_def make_error_def bindE_unit_iff)
  next case 2
    have i: "i < n" "d = n - Suc i" using Suc(3) by simp_all
    have len: "i * 3 < length v" "i * 3 + 1 < length v" "Suc i < n \<Longrightarrow> i * 3 + 2 < length v"
      using 2 i by auto
    have "fault_free (check_fingerprint_bytes v n (Suc i))"
      by (rule Suc.hyps(2) [OF i(2)]) (use 2 i in simp_all)
    then show ?case using i len
      by (subst check_fingerprint_bytes.simps) (auto simp: char_of_text_def intro!: safe) }
qed

lemma fingerprint_digest_size_values: "fingerprint_digest_size a = Inr n \<Longrightarrow> a \<noteq> [] \<and> 0 < n"
  by (auto simp: fingerprint_digest_size_def to_lower_def make_error_def Let_def split: if_splits)

lemma validate_fingerprint_iff: "validate_fingerprint f = Inr () \<longleftrightarrow> fingerprint_ok f"
proof (cases "fingerprint_digest_size (fingerprint_algorithm f)")
  case (Inl e)
  then show ?thesis by (auto simp: validate_fingerprint_def fingerprint_ok_def make_error_def)
next
  case (Inr n)
  note n = fingerprint_digest_size_values [OF Inr]
  show ?thesis
  proof (cases "length (fingerprint_value f) = n * 3 - 1")
    case True
    then have "fingerprint_value f \<noteq> []" using n by auto
    then show ?thesis using n Inr True check_fingerprint_bytes_iff(1) [OF True, of 0]
      by (simp add: validate_fingerprint_def fingerprint_ok_def)
  next
    case False
    then show ?thesis using Inr by (auto simp: validate_fingerprint_def fingerprint_ok_def make_error_def)
  qed
qed

lemma validate_fingerprint_safe [safe]: "fault_free (validate_fingerprint f)"
  using check_fingerprint_bytes_iff(2) [of "fingerprint_value f" _ 0]
  by (auto simp: validate_fingerprint_def fingerprint_digest_size_def Let_def intro!: safe)

lemma validate_unique_media_mids_iff:
  "validate_unique_media_mids ms = Inr () \<longleftrightarrow> distinct (map mid ms) \<and> [] \<notin> set (map mid ms)"
  by (induction ms) (auto simp: make_error_def list_ex_iff)

lemma validate_unique_bundle_mids_iff: "validate_unique_bundle_mids bs = Inr () \<longleftrightarrow> distinct bs \<and> [] \<notin> set bs"
  by (induction bs) (auto simp: make_error_def list_ex_iff)

lemma validate_media_bundle_membership_iff:
  "validate_media_bundle_membership bundle ms = Inr () \<longleftrightarrow> set (map mid ms) \<subseteq> set bundle"
  by (induction ms) (auto simp: make_offer_error_def make_error_def list_ex_iff)

lemma validate_common_media_iff: "validate_common_media ms = Inr () \<longleftrightarrow> list_all section_ok ms"
  by (induction ms) (auto simp: make_offer_error_def make_error_def section_ok_def)

lemma validators_fault_free [safe]:
  "fault_free (validate_unique_media_mids ms)" "fault_free (validate_unique_bundle_mids bs)"
  "fault_free (validate_media_bundle_membership bundle ms)" "fault_free (validate_common_media ms)"
  "fault_free (check_whip_directions ms b)" "fault_free (check_whep_directions ms b)"
proof -
  show "fault_free (validate_unique_media_mids ms)" by (induction ms) auto
  show "fault_free (validate_unique_bundle_mids bs)" by (induction bs) auto
  show "fault_free (validate_media_bundle_membership bundle ms)" by (induction ms) (auto simp: make_offer_error_def)
  show "fault_free (validate_common_media ms)" by (induction ms) (auto simp: make_offer_error_def)
  show "fault_free (check_whip_directions ms b)"
    by (induction ms arbitrary: b) (auto simp: make_offer_error_def split: media_direction.splits)
  show "fault_free (check_whep_directions ms b)"
    by (induction ms arbitrary: b) (auto simp: make_offer_error_def split: media_direction.splits)
qed

lemma validate_common_offer_iff: "validate_common_offer offer = Inr () \<longleftrightarrow> offer_ok offer"
  by (auto simp: validate_common_offer_def offer_ok_def bindE_unit_iff make_error_def validate_fingerprint_iff
      validate_unique_media_mids_iff validate_unique_bundle_mids_iff validate_media_bundle_membership_iff validate_common_media_iff)

lemma check_whip_directions_iff:
  "check_whip_directions ms b = Inr u \<longleftrightarrow>
     list_all (\<lambda>m. summary_direction m \<noteq> recv_only \<and> summary_direction m \<noteq> direction_unknown) ms
     \<and> u = (b \<or> list_ex (\<lambda>m. summary_direction m \<in> {send_only, send_recv}) ms)"
  by (induction ms arbitrary: b) (auto simp: make_offer_error_def make_error_def split: media_direction.splits)

lemma check_whep_directions_iff:
  "check_whep_directions ms b = Inr u \<longleftrightarrow>
     list_all (\<lambda>m. summary_direction m \<noteq> send_only \<and> summary_direction m \<noteq> direction_unknown) ms
     \<and> u = (b \<or> list_ex (\<lambda>m. summary_direction m \<in> {recv_only, send_recv}) ms)"
  by (induction ms arbitrary: b) (auto simp: make_offer_error_def make_error_def split: media_direction.splits)

text \<open>
  C21. The validator reads no character outside the fingerprint and accepts exactly the offers that the
  declarative description allows: a complete fingerprint of a supported digest, the role actpass, unique
  section names that all belong to the bundle, and directions that suit a publisher or a subscriber.
\<close>

theorem validators_accept_exactly:
  "fault_free (validate_whip_offer offer) \<and> fault_free (validate_whep_offer offer)
   \<and> (validate_whip_offer offer = Inr ()) = whip_offer_ok offer
   \<and> (validate_whep_offer offer = Inr ()) = whep_offer_ok offer"
proof -
  have common: "fault_free (validate_common_offer offer)"
    by (auto simp: validate_common_offer_def intro!: safe)
  have dirs: "list_all section_ok ms \<Longrightarrow> list_all (\<lambda>m. summary_direction m \<noteq> direction_unknown) ms" for ms
    by (auto simp: list_all_iff section_ok_def)
  show ?thesis using common dirs [of "offer_media offer"]
    by (auto simp: validate_whip_offer_def validate_whep_offer_def whip_offer_ok_def whep_offer_ok_def bindE_unit_iff
        validate_common_offer_iff check_whip_directions_iff check_whep_directions_iff make_error_def offer_ok_def
        list_all_iff intro!: safe)
qed

end
