(* ===== verification/Sdp_Answer.thy ===== *)
theory Sdp_Answer
  imports Sdp_Answer_Builder Sdp_Offer_Validator
begin

text \<open>
  What an answer of the server is: its sections stand for the sections of the offer in their order,
  what it accepts was offered, a subscriber's sections are matched one to one with the publisher's, and
  the text the formatter writes is read back by the parser.
\<close>

section \<open>Attributes are only appended\<close>

definition extends :: "'a list \<Rightarrow> 'a list \<Rightarrow> bool" where
  "extends as bs \<longleftrightarrow> (\<exists>more_attributes. bs = as @ more_attributes)"

named_theorems extending \<open>the attribute writers append to what was written before\<close>

lemma extends_refl [simp, extending]: "extends as as"
  by (simp add: extends_def)

lemma extends_trans: "extends as bs \<Longrightarrow> extends bs cs \<Longrightarrow> extends as cs"
  by (auto simp: extends_def)

lemma push_attribute_extends [extending]: "extends as bs \<Longrightarrow> extends as (push_attribute k v bs)"
  by (auto simp: extends_def push_attribute_def)

lemma push_property_attribute_extends [extending]: "extends as bs \<Longrightarrow> extends as (push_property_attribute k bs)"
  by (auto simp: extends_def push_property_attribute_def)

lemma push_extensions_extends [extending]: "extends as bs \<Longrightarrow> extends as (push_extensions es bs)"
  by (induction es arbitrary: bs) (auto intro: extending)

lemma append_header_extension_attributes_extends [extending]:
  "extends as bs \<Longrightarrow> extends as (append_header_extension_attributes m f t bs)"
  by (auto simp: append_header_extension_attributes_def Let_def intro: extending)

lemma push_rids_extends [extending]: "extends as bs \<Longrightarrow> extends as (push_rids d rs bs)"
  by (induction rs arbitrary: bs) (auto intro: extending)

lemma append_simulcast_attributes_extends [extending]: "extends as bs \<Longrightarrow> extends as (append_simulcast_attributes d rs bs)"
  by (auto simp: append_simulcast_attributes_def intro: extending)

lemma simulcast_extends [extending]:
  "extends as bs \<Longrightarrow> extends as (append_whep_simulcast_send_attributes m f bs)"
  "extends as bs \<Longrightarrow> extends as (append_whip_simulcast_receive_attributes m bs)"
  by (auto simp: append_whep_simulcast_send_attributes_def append_whip_simulcast_receive_attributes_def
      split: option.splits intro: extending)

lemma push_feedback_extends: "extends as (snd st) \<Longrightarrow> extends as (snd (push_feedback k g t c fs st))"
proof (induction fs arbitrary: st)
  case (Cons f fs)
  obtain emitted bs where st: "st = (emitted, bs)" by (cases st)
  then have "extends as bs" using Cons.prems by simp
  then show ?case unfolding st by (auto simp: Let_def intro!: Cons.IH extending)
qed simp

lemma push_codecs_extends: "extends as (snd st) \<Longrightarrow> extends as (snd (push_codecs k g t cs st))"
proof (induction cs arbitrary: st)
  case (Cons c cs)
  obtain emitted bs where st: "st = (emitted, bs)" by (cases st)
  then have "extends as bs" using Cons.prems by simp
  then show ?case unfolding st by (auto simp: Let_def intro!: Cons.IH extending push_feedback_extends)
qed simp

lemma append_codec_attributes_extends [extending]: "extends as bs \<Longrightarrow> extends as (append_codec_attributes k cs g t bs)"
  using push_codecs_extends [of as "({}, bs)" k g t cs] by (simp add: append_codec_attributes_def)

lemma append_media_timing_attributes_extends [extending]: "extends as bs \<Longrightarrow> extends as (append_media_timing_attributes m bs)"
  by (auto simp: append_media_timing_attributes_def Let_def split: option.splits intro!: extending)

lemma push_candidates_extends [extending]: "extends as bs \<Longrightarrow> extends as (push_candidates addresses p i bs)"
  by (induction addresses arbitrary: bs i) (auto intro: extending)

lemma append_ice_candidate_attributes_extends [extending]: "extends as bs \<Longrightarrow> extends as (append_ice_candidate_attributes opt bs)"
  by (auto simp: append_ice_candidate_attributes_def intro: extending)

lemma append_media_source_attributes_extends [extending]:
  "extends as bs \<Longrightarrow> extends as (append_media_source_attributes s v i bs)"
  by (auto simp: append_media_source_attributes_def Let_def intro!: extending)

section \<open>One section\<close>

definition section_head :: "media_summary \<Rightarrow> media_direction \<Rightarrow> sdp_attribute list" where
  "section_head m d = [make_attribute ''mid'' (mid m), make_property_attribute (direction_to_string d)]"

lemma section_head_pushed:
  "push_property_attribute (direction_to_string d) (push_attribute ''mid'' (mid m) []) = section_head m d"
  by (simp add: section_head_def push_property_attribute_def push_attribute_def)

lemma accepted_section:
  assumes "make_accepted_answer_media opt m w cs f = Inr s"
  shows "media_name s = \<lparr>media = kind m, port = 9, formats = map (\<lambda>c. decimal (payload_type c)) cs\<rparr>"
    and "extends (section_head m (make_answer_direction w m)) (media_attributes s)"
    and "connection_address s \<in> set (local_candidate_addresses opt)"
  using assms unfolding make_accepted_answer_media_def Let_def section_head_pushed
  by (auto simp: bindE_Inr front_def make_answer_msid_value_def split: list.splits if_splits option.splits intro!: extending)

lemma rejected_section:
  "media_name (make_rejected_answer_media m) =
     \<lparr>media = kind m, port = 0, formats = (if payload_types m = [] then [''0''] else map decimal (payload_types m))\<rparr>"
  "extends (section_head m inactive) (media_attributes (make_rejected_answer_media m))"
  "connection_address (make_rejected_answer_media m) = ''0.0.0.0''"
  unfolding make_rejected_answer_media_def Let_def section_head_pushed by (auto intro!: extending)

lemma make_answer_media_cases:
  assumes "make_answer_media opt i offer p = Inr s"
  obtains "s = make_rejected_answer_media (offer_media offer ! i)"
  | cs f where "answer_codecs i offer p = Some (cs, f)" "summary_direction (offer_media offer ! i) \<noteq> inactive"
      "make_accepted_answer_media opt (offer_media offer ! i) (p \<noteq> None) cs f = Inr s"
  using assms by (auto simp: make_answer_media_def Let_def make_answer_direction_def split: if_splits option.splits)

section \<open>The codecs of an answer\<close>

lemma negotiate_offer_codecs_offered:
  assumes "negotiate_offer_codecs m = Inr cs" "c \<in> set cs"
  shows "payload_type c \<in> set (payload_types m)"
proof -
  define sel where "sel = sort_primary_codecs_by_answer_preference m (select_codecs m (\<lambda>_. True) (codecs m))"
  have cs: "cs = append_answerable_offer_rtx_codecs m sel"
    using assms(1) by (auto simp: negotiate_offer_codecs_def bindE_Inr make_media_error_def make_error_def Let_def sel_def
        split: if_splits)
  obtain rs where rs: "cs = sel @ rs"
    "\<forall>us r vs. rs = us @ r # vs \<longrightarrow> rtx_codec_is_answerable_for_offer m r (sel @ us)"
    using append_answerable_rtx_spec [of "rtx_codec_is_answerable_for_offer m" "codecs m" sel] cs
    by (auto simp: append_answerable_offer_rtx_codecs_def)
  show ?thesis
  proof (cases "c \<in> set sel")
    case True
    then have "c \<in> set (select_codecs m (\<lambda>_. True) (codecs m))"
      by (simp add: sel_def sort_primary_codecs_by_answer_preference_def)
    then show ?thesis using select_codecs_sound [of c m "\<lambda>_. True" "codecs m"] normalized_fields(1) by fastforce
  next
    case False
    then have "c \<in> set rs" using assms(2) rs(1) by simp
    then obtain us vs where "rs = us @ c # vs" by (meson split_list)
    then have "rtx_codec_is_answerable_for_offer m c (sel @ us)" using rs(2) by blast
    then show ?thesis by (simp add: rtx_codec_is_answerable_for_offer_def split: if_splits)
  qed
qed

lemma negotiate_codecs_offered:
  "negotiate_codecs m publisher = Inr cs \<Longrightarrow> c \<in> set cs \<Longrightarrow> payload_type c \<in> set (payload_types m)"
  by (rule negotiate_codecs_shape [of m publisher cs]) blast+

lemma answer_codecs_offered:
  assumes "answer_codecs i offer p = Some (cs, f)"
  shows "cs \<noteq> []" "c \<in> set cs \<Longrightarrow> payload_type c \<in> set (payload_types (offer_media offer ! i))"
  using assms
  by (auto simp: answer_codecs_def Let_def remove_unimplemented_answer_codecs_def
      split: option.splits sum.splits if_splits intro: negotiate_codecs_offered negotiate_offer_codecs_offered)

section \<open>All sections\<close>

definition accepted_indices :: "media_description list \<Rightarrow> nat \<Rightarrow> nat list" where
  "accepted_indices sections n = filter (\<lambda>i. port (media_name (sections ! i)) \<noteq> 0) [0..<n]"

lemma append_loop:
  assumes "append_answer_media_loop opt offer p index (sections, accepted) = Inr (sections', accepted')"
    and "length sections = index" "index \<le> length (offer_media offer)"
    and "accepted = map int (accepted_indices sections index)"
    and "\<forall>k < index. make_answer_media opt k offer p = Inr (sections ! k)"
  shows "length sections' = length (offer_media offer)
    \<and> accepted' = map int (accepted_indices sections' (length (offer_media offer)))
    \<and> (\<forall>k < length (offer_media offer). make_answer_media opt k offer p = Inr (sections' ! k))"
  using assms
proof (induction "length (offer_media offer) - index" arbitrary: index sections accepted)
  case 0
  then show ?case by (subst (asm) append_answer_media_loop.simps) auto
next
  case (Suc d)
  then have i: "index < length (offer_media offer)" by simp
  obtain s where s: "make_answer_media opt index offer p = Inr s"
    using Suc.prems(1) i by (subst (asm) append_answer_media_loop.simps) (auto simp: bindE_Inr)
  let ?acc = "if is_answer_media_rejected s then accepted else accepted @ [int index]"
  have step: "append_answer_media_loop opt offer p (index + 1) (sections @ [s], ?acc) = Inr (sections', accepted')"
    using Suc.prems(1) i s by (subst (asm) append_answer_media_loop.simps) (auto simp: make_error_def split: if_splits)
  have "accepted_indices (sections @ [s]) (Suc index) =
      accepted_indices sections index @ (if port (media_name s) \<noteq> 0 then [index] else [])"
    using Suc.prems(2) by (auto simp: accepted_indices_def nth_append intro: filter_cong)
  then have acc: "?acc = map int (accepted_indices (sections @ [s]) (index + 1))"
    using Suc.prems(4) by (simp add: is_answer_media_rejected_def)
  have all: "\<forall>k < index + 1. make_answer_media opt k offer p = Inr ((sections @ [s]) ! k)"
    using Suc.prems(2,5) s by (auto simp: nth_append less_Suc_eq)
  show ?case
    by (rule Suc.hyps(1) [OF _ step _ _ acc all]) (use Suc.hyps(2) Suc.prems(2) i in simp_all)
qed

lemma build_answer_sections:
  assumes "build_answer offer opt p = Inr (d, accepted)"
  shows "length (media_descriptions d) = length (offer_media offer)"
    and "accepted = map int (accepted_indices (media_descriptions d) (length (offer_media offer)))" and "accepted \<noteq> []"
    and "k < length (offer_media offer) \<Longrightarrow> make_answer_media opt k offer p = Inr (media_descriptions d ! k)"
    and "session_attributes d =
      [make_attribute ''group'' (make_bundle_group_value offer accepted), make_property_attribute ''ice-lite'',
       make_attribute ''ice-options'' ''trickle'', make_attribute ''ice-ufrag'' (local_ice_ufrag opt),
       make_attribute ''ice-pwd'' (local_ice_pwd opt),
       make_attribute ''fingerprint'' (make_fingerprint_value (local_fingerprint opt)),
       make_attribute ''setup'' ''passive'', make_attribute ''msid-semantic'' ''WMS *'']"
    and "validate_options opt = Inr ()"
proof -
  obtain sections where l: "append_answer_media_loop opt offer p 0 ([], []) = Inr (sections, accepted)" "accepted \<noteq> []"
    and d: "d = \<lparr>session_id = option_session_id opt, session_version = option_session_version opt,
           session_attributes = session_attributes d, media_descriptions = sections\<rparr>"
    and a: "session_attributes d = [make_attribute ''group'' (make_bundle_group_value offer accepted), make_property_attribute ''ice-lite'',
       make_attribute ''ice-options'' ''trickle'', make_attribute ''ice-ufrag'' (local_ice_ufrag opt),
       make_attribute ''ice-pwd'' (local_ice_pwd opt),
       make_attribute ''fingerprint'' (make_fingerprint_value (local_fingerprint opt)),
       make_attribute ''setup'' ''passive'', make_attribute ''msid-semantic'' ''WMS *'']"
    and v: "validate_options opt = Inr ()"
    using assms
    by (auto simp: build_answer_def append_answer_media_descriptions_def bindE_Inr make_error_def Let_def
        push_attribute_def push_property_attribute_def split: if_splits)
  note loop = append_loop [OF l(1)]
  have ms: "media_descriptions d = sections" by (subst d) simp
  show "length (media_descriptions d) = length (offer_media offer)"
    "accepted = map int (accepted_indices (media_descriptions d) (length (offer_media offer)))" "accepted \<noteq> []"
    "k < length (offer_media offer) \<Longrightarrow> make_answer_media opt k offer p = Inr (media_descriptions d ! k)"
    unfolding ms using loop l(2) by (auto simp: accepted_indices_def)
  show "session_attributes d =
      [make_attribute ''group'' (make_bundle_group_value offer accepted), make_property_attribute ''ice-lite'',
       make_attribute ''ice-options'' ''trickle'', make_attribute ''ice-ufrag'' (local_ice_ufrag opt),
       make_attribute ''ice-pwd'' (local_ice_pwd opt),
       make_attribute ''fingerprint'' (make_fingerprint_value (local_fingerprint opt)),
       make_attribute ''setup'' ''passive'', make_attribute ''msid-semantic'' ''WMS *'']"
    by (rule a)
  show "validate_options opt = Inr ()" by (rule v)
qed

text \<open>What a section of an answer says of the section of the offer it stands for.\<close>

definition answers_section :: "bool \<Rightarrow> media_summary \<Rightarrow> media_description \<Rightarrow> bool" where
  "answers_section whep m s \<longleftrightarrow>
     media (media_name s) = kind m
     \<and> take 2 (media_attributes s) = section_head m (if port (media_name s) = 0 then inactive else if whep then send_only else recv_only)
     \<and> (port (media_name s) = 0
        \<or> port (media_name s) = 9 \<and> summary_direction m \<noteq> inactive \<and> formats (media_name s) \<noteq> []
          \<and> set (formats (media_name s)) \<subseteq> decimal ` set (payload_types m))"

lemma extends_head: "extends (section_head m d) as \<Longrightarrow> take 2 as = section_head m d"
  by (auto simp: extends_def section_head_def)

lemma make_answer_media_answers:
  assumes "make_answer_media opt i offer p = Inr s"
  shows "answers_section (p \<noteq> None) (offer_media offer ! i) s"
  using assms
proof (cases rule: make_answer_media_cases)
  case 1
  then show ?thesis using rejected_section extends_head [OF rejected_section(2)] by (simp add: answers_section_def)
next
  case (2 cs f)
  note a = accepted_section [OF 2(3)]
  have d: "make_answer_direction (p \<noteq> None) (offer_media offer ! i) = (if p \<noteq> None then send_only else recv_only)"
    using 2(2) by (simp add: make_answer_direction_def)
  have "take 2 (media_attributes s) = section_head (offer_media offer ! i) (if p \<noteq> None then send_only else recv_only)"
    using extends_head [OF a(2)] unfolding d .
  then show ?thesis using a(1) 2(2) answer_codecs_offered [OF 2(1)] by (auto simp: answers_section_def)
qed

lemma built_sections:
  assumes "build_answer offer opt p = Inr (d, accepted)" "i < length (offer_media offer)"
  shows "answers_section (p \<noteq> None) (offer_media offer ! i) (media_descriptions d ! i)"
  by (rule make_answer_media_answers [OF build_answer_sections(4) [OF assms]])

section \<open>The publisher's section behind a subscriber's section\<close>

lemma receive_ordinal_loop_Some:
  assumes "receive_ordinal_loop ms index target k ordinal = Some r" "index \<le> target"
  shows "target - index < length ms \<and> kind (ms ! (target - index)) = k \<and> media_can_receive (ms ! (target - index))
    \<and> r = ordinal + length (filter (\<lambda>m. kind m = k \<and> media_can_receive m) (take (target - index) ms))"
  using assms
proof (induction ms index target k ordinal rule: receive_ordinal_loop.induct)
  case (2 m ms index target k ordinal)
  show ?case
  proof (cases "index = target \<and> kind m = k \<and> media_can_receive m")
    case True
    then show ?thesis using "2.prems" by simp
  next
    case False
    have ne: "index \<noteq> target"
    proof
      assume e: "index = target"
      have past: "receive_ordinal_loop ns j target k ord = None" if "target < j" for ns j ord
        using that by (induction ns arbitrary: j ord) auto
      have "receive_ordinal_loop ms (index + 1) target k ord = None" for ord by (rule past) (use e in simp)
      then show False using "2.prems"(1) False e by (auto split: if_splits)
    qed
    then have le: "index + 1 \<le> target" "target - index = Suc (target - (index + 1))" using "2.prems"(2) by simp_all
    show ?thesis
      using 2 ne le by (auto split: if_splits)
  qed
qed simp

lemma send_ordinal_loop_Some:
  assumes "send_ordinal_loop ms k target ordinal = Some m" "ordinal \<le> target"
  shows "target - ordinal < length (filter (\<lambda>m. kind m = k \<and> media_can_send m) ms)
    \<and> m = filter (\<lambda>m. kind m = k \<and> media_can_send m) ms ! (target - ordinal)"
  using assms
proof (induction ms k target ordinal rule: send_ordinal_loop.induct)
  case (2 n ms k target ordinal)
  show ?case
  proof (cases "kind n = k \<and> media_can_send n \<and> ordinal \<noteq> target")
    case True
    then have d: "target - ordinal = Suc (target - (ordinal + 1))" using "2.prems"(2) by (simp add: Suc_diff_Suc le_neq_implies_less)
    show ?thesis using 2 True unfolding d by auto
  next
    case False
    then show ?thesis using 2 by (auto split: if_splits)
  qed
qed simp

lemma filter_by_positions: "filter Q xs = map (nth xs) (filter (\<lambda>i. Q (xs ! i)) [0..<length xs])"
  by (metis (no_types, lifting) comp_apply filter_cong filter_map map_nth)

definition send_positions :: "webrtc_offer_summary \<Rightarrow> string \<Rightarrow> nat list" where
  "send_positions offer k =
     filter (\<lambda>j. kind (offer_media offer ! j) = k \<and> media_can_send (offer_media offer ! j)) [0..<length (offer_media offer)]"

definition receive_ordinal :: "webrtc_offer_summary \<Rightarrow> nat \<Rightarrow> nat" where
  "receive_ordinal offer i =
     length (filter (\<lambda>m. kind m = kind (offer_media offer ! i) \<and> media_can_receive m) (take i (offer_media offer)))"

definition publisher_position :: "webrtc_offer_summary \<Rightarrow> webrtc_offer_summary \<Rightarrow> nat \<Rightarrow> nat" where
  "publisher_position subscriber publisher i =
     send_positions publisher (kind (offer_media subscriber ! i)) ! receive_ordinal subscriber i"

lemma matching_publisher_media:
  assumes "find_matching_publisher_media i subscriber publisher = Some pm"
  shows "i < length (offer_media subscriber)" "media_can_receive (offer_media subscriber ! i)"
    "receive_ordinal subscriber i < length (send_positions publisher (kind (offer_media subscriber ! i)))"
    "pm = offer_media publisher ! publisher_position subscriber publisher i"
proof -
  let ?m = "offer_media subscriber ! i"
  obtain r where r: "receive_ordinal_loop (offer_media subscriber) 0 i (kind ?m) 0 = Some r"
    and s: "send_ordinal_loop (offer_media publisher) (kind ?m) r 0 = Some pm"
    using assms by (auto simp: find_matching_publisher_media_def find_receive_capable_media_ordinal_by_kind_def
        find_send_capable_media_by_kind_ordinal_def Let_def split: if_splits option.splits)
  have r': "i < length (offer_media subscriber)" "media_can_receive ?m" "r = receive_ordinal subscriber i"
    using receive_ordinal_loop_Some [OF r] by (simp_all add: receive_ordinal_def)
  have f: "filter (\<lambda>m. kind m = kind ?m \<and> media_can_send m) (offer_media publisher) =
      map (nth (offer_media publisher)) (send_positions publisher (kind ?m))"
    unfolding send_positions_def by (rule filter_by_positions)
  have s': "r < length (send_positions publisher (kind ?m))"
    "pm = map (nth (offer_media publisher)) (send_positions publisher (kind ?m)) ! r"
    using send_ordinal_loop_Some [OF s] unfolding f by simp_all
  show "i < length (offer_media subscriber)" "media_can_receive ?m"
    "receive_ordinal subscriber i < length (send_positions publisher (kind ?m))"
    "pm = offer_media publisher ! publisher_position subscriber publisher i"
    using r' s' by (simp_all add: publisher_position_def)
qed

lemma send_position_props:
  assumes "j < length (send_positions offer k)"
  shows "send_positions offer k ! j < length (offer_media offer)"
    "kind (offer_media offer ! (send_positions offer k ! j)) = k"
    "media_can_send (offer_media offer ! (send_positions offer k ! j))"
  using nth_mem [OF assms] by (auto simp: send_positions_def)

lemma distinct_send_positions: "distinct (send_positions offer k)"
  by (simp add: send_positions_def)

lemma receive_ordinal_less:
  assumes "i < j" "j < length (offer_media offer)" "media_can_receive (offer_media offer ! i)"
    "kind (offer_media offer ! i) = kind (offer_media offer ! j)"
  shows "receive_ordinal offer i < receive_ordinal offer j"
proof -
  let ?P = "\<lambda>m. kind m = kind (offer_media offer ! i) \<and> media_can_receive m"
  have t: "take j (offer_media offer) = take i (offer_media offer) @ drop i (take j (offer_media offer))"
    using assms(1) by (metis append_take_drop_id less_imp_le_nat min.absorb1 take_take)
  have "offer_media offer ! i \<in> set (drop i (take j (offer_media offer)))"
    using assms(1,2) by (auto simp: in_set_conv_nth intro!: exI [of _ 0])
  then have "filter ?P (drop i (take j (offer_media offer))) \<noteq> []" using assms(3) by (auto simp: filter_empty_conv)
  then have "length (filter ?P (take i (offer_media offer))) <
      length (filter ?P (take i (offer_media offer) @ drop i (take j (offer_media offer))))"
    by (simp only: filter_append length_append) simp
  then have "length (filter ?P (take i (offer_media offer))) < length (filter ?P (take j (offer_media offer)))"
    by (simp only: t [symmetric])
  then show ?thesis using assms(4) by (simp add: receive_ordinal_def)
qed

lemma publisher_position_inj:
  assumes "find_matching_publisher_media i subscriber publisher = Some a"
    and "find_matching_publisher_media j subscriber publisher = Some b"
    and "publisher_position subscriber publisher i = publisher_position subscriber publisher j"
  shows "i = j"
proof (rule ccontr)
  assume ne: "i \<noteq> j"
  note A = matching_publisher_media [OF assms(1)] and B = matching_publisher_media [OF assms(2)]
  have k: "kind (offer_media subscriber ! i) = kind (offer_media subscriber ! j)"
    using send_position_props(2) [OF A(3)] send_position_props(2) [OF B(3)] assms(3) by (simp add: publisher_position_def)
  have "receive_ordinal subscriber i = receive_ordinal subscriber j"
    using assms(3) A(3) B(3) k distinct_send_positions by (auto simp: publisher_position_def nth_eq_iff_index_eq)
  then show False
    using ne receive_ordinal_less [of i j subscriber] receive_ordinal_less [of j i subscriber] A(1,2) B(1,2) k
    by (metis linorder_neqE_nat less_irrefl)
qed

section \<open>When there is an answer\<close>

definition section_answerable :: "webrtc_offer_summary \<Rightarrow> webrtc_offer_summary option \<Rightarrow> nat \<Rightarrow> bool" where
  "section_answerable offer p i \<longleftrightarrow> summary_direction (offer_media offer ! i) \<noteq> inactive \<and> answer_codecs i offer p \<noteq> None"

lemma answer_codecs_forwarded:
  assumes "answer_codecs i offer p = Some (cs, f)"
  shows "p = None \<Longrightarrow> f = None"
    "p = Some publisher \<Longrightarrow> \<exists>pm. f = Some pm \<and> find_matching_publisher_media i offer publisher = Some pm
       \<and> negotiate_codecs (offer_media offer ! i) pm = Inr cs"
  using assms by (auto simp: answer_codecs_def Let_def split: option.splits sum.splits if_splits)

lemma validate_options_addresses: "validate_options opt = Inr () \<Longrightarrow> local_candidate_addresses opt \<noteq> []"
  by (auto simp: validate_options_def validate_candidate_options_def bindE_Inr make_error_def)

lemma make_answer_media_total:
  assumes "local_candidate_addresses opt \<noteq> []"
  shows "\<exists>s. make_answer_media opt i offer p = Inr s \<and> (port (media_name s) \<noteq> 0 \<longleftrightarrow> section_answerable offer p i)"
proof (cases "section_answerable offer p i")
  case True
  then obtain cs f where a: "answer_codecs i offer p = Some (cs, f)" and d: "summary_direction (offer_media offer ! i) \<noteq> inactive"
    by (auto simp: section_answerable_def)
  obtain address rest where ad: "local_candidate_addresses opt = address # rest" using assms by (cases "local_candidate_addresses opt") auto
  have "\<exists>s. make_accepted_answer_media opt (offer_media offer ! i) (p \<noteq> None) cs f = Inr s"
  proof (cases p)
    case None
    then show ?thesis by (simp add: make_accepted_answer_media_def Let_def front_def ad make_answer_msid_value_def)
  next
    case (Some publisher)
    then obtain pm where "f = Some pm" using answer_codecs_forwarded(2) [OF a] by blast
    then show ?thesis using Some by (simp add: make_accepted_answer_media_def Let_def front_def ad make_answer_msid_value_def)
  qed
  then obtain s where s: "make_accepted_answer_media opt (offer_media offer ! i) (p \<noteq> None) cs f = Inr s" by blast
  then have "make_answer_media opt i offer p = Inr s" using a d by (simp add: make_answer_media_def Let_def make_answer_direction_def)
  then show ?thesis using True accepted_section(1) [OF s] by simp
next
  case False
  then have "make_answer_media opt i offer p = Inr (make_rejected_answer_media (offer_media offer ! i))"
    by (cases "answer_codecs i offer p")
      (auto simp: make_answer_media_def Let_def make_answer_direction_def section_answerable_def)
  then show ?thesis using False by (simp add: rejected_section)
qed

lemma append_loop_total:
  assumes "local_candidate_addresses opt \<noteq> []" "length (offer_media offer) \<le> 2 ^ 31"
  shows "\<exists>st'. append_answer_media_loop opt offer p index st = Inr st'"
proof (induction "length (offer_media offer) - index" arbitrary: index st)
  case 0
  obtain sections accepted where st: "st = (sections, accepted)" by (cases st)
  show ?case unfolding st append_answer_media_loop.simps [of opt offer p index] using 0 by simp
next
  case (Suc d)
  obtain s where s: "make_answer_media opt index offer p = Inr s" using make_answer_media_total [OF assms(1)] by blast
  have i: "index < length (offer_media offer)" "d = length (offer_media offer) - (index + 1)" using Suc(2) by simp_all
  then have small: "\<not> index > 2147483647" using assms(2) by simp
  obtain sections accepted where st: "st = (sections, accepted)" by (cases st)
  show ?case
    unfolding st using i small s Suc(1) [OF i(2), of "(sections @ [s], accepted @ [int index])"]
      Suc(1) [OF i(2), of "(sections @ [s], accepted)"]
    by (subst append_answer_media_loop.simps) auto
qed

lemma build_answer_succeeds:
  assumes v: "validate_options opt = Inr ()" and n: "length (offer_media offer) \<le> 2 ^ 31"
  shows "(\<exists>d accepted. build_answer offer opt p = Inr (d, accepted)) \<longleftrightarrow> (\<exists>i < length (offer_media offer). section_answerable offer p i)"
proof -
  have ad: "local_candidate_addresses opt \<noteq> []" by (rule validate_options_addresses [OF v])
  obtain sections accepted where l: "append_answer_media_loop opt offer p 0 ([], []) = Inr (sections, accepted)"
    using append_loop_total [OF ad n] by (metis surj_pair)
  note loop = append_loop [OF l]
  have port: "port (media_name (sections ! i)) \<noteq> 0 \<longleftrightarrow> section_answerable offer p i" if "i < length (offer_media offer)" for i
  proof -
    have "make_answer_media opt i offer p = Inr (sections ! i)" using loop that by (simp add: accepted_indices_def)
    then show ?thesis using make_answer_media_total [OF ad, of i offer p] by auto
  qed
  have "accepted \<noteq> [] \<longleftrightarrow> (\<exists>i < length (offer_media offer). section_answerable offer p i)"
    using loop port by (auto simp: accepted_indices_def filter_empty_conv)
  then show ?thesis
    using l v by (auto simp: build_answer_def append_answer_media_descriptions_def make_error_def Let_def)
qed

section \<open>The offer at run time\<close>

lemma pick_media_in_range:
  "\<forall>i \<in> set is. i < length ms \<Longrightarrow> pick_media ms (map int is) = Inr (map (nth ms) is)"
  by (induction "is") auto

lemma check_mid_order_iff: "length bs = length ms \<Longrightarrow> check_mid_order bs ms = Inr () \<longleftrightarrow> bs = map mid ms"
  by (induction bs ms rule: check_mid_order.induct) (auto simp: make_error_def)

lemma check_mid_order_safe [safe]: "fault_free (check_mid_order bs ms)"
  by (induction bs ms rule: check_mid_order.induct) auto

lemma make_offer_summary_iff:
  assumes "accepted = map int is" "\<forall>i \<in> set is. i < length (offer_media offer)"
  defines "picked \<equiv> map (nth (offer_media offer)) is"
  shows "fault_free (make_offer_summary offer accepted)"
    and "make_offer_summary offer accepted = Inr r \<longleftrightarrow>
      filter (\<lambda>b. b \<in> set (map mid picked)) (bundle_mids offer) = map mid picked
      \<and> r = offer\<lparr>bundle_mids := map mid picked, offer_media := picked\<rparr>"
proof -
  have p: "pick_media (offer_media offer) accepted = Inr picked"
    unfolding assms(1) picked_def by (rule pick_media_in_range [OF assms(2)])
  have f: "filter (\<lambda>b. list_ex (\<lambda>m. mid m = b) picked) (bundle_mids offer) =
      filter (\<lambda>b. b \<in> set (map mid picked)) (bundle_mids offer)"
    by (rule filter_cong) (auto simp: list_ex_iff)
  show "fault_free (make_offer_summary offer accepted)"
    unfolding make_offer_summary_def p Let_def by (auto intro!: safe)
  show "make_offer_summary offer accepted = Inr r \<longleftrightarrow>
      filter (\<lambda>b. b \<in> set (map mid picked)) (bundle_mids offer) = map mid picked
      \<and> r = offer\<lparr>bundle_mids := map mid picked, offer_media := picked\<rparr>"
    unfolding make_offer_summary_def p Let_def f bindE.simps
    using check_mid_order_iff [of "filter (\<lambda>b. b \<in> set (map mid picked)) (bundle_mids offer)" picked]
    by (auto simp: make_error_def bindE_Inr dest: arg_cong [of _ _ length])
qed

section \<open>A concrete answer\<close>

definition demo_options :: sdp_answer_options where
  "demo_options =
     \<lparr>option_session_id = 5, option_session_version = 1, local_ice_ufrag = ''u'', local_ice_pwd = ''p'',
      local_fingerprint = \<lparr>fingerprint_algorithm = ''sha-256'', fingerprint_value = ''AB:CD''\<rparr>,
      local_candidate_addresses = [''192.0.2.1''], local_candidate_port = 4000, local_stream_id = ''webrtc-s'',
      media_sources = [\<lparr>source_mid = ''0'', source_kind = ''video'', source_ssrc = 7, rtx_repair_ssrc = 0, cname = ''c''\<rparr>]\<rparr>"

definition demo_offer :: "media_direction \<Rightarrow> nat \<Rightarrow> webrtc_offer_summary" where
  "demo_offer d p =
     \<lparr>ice_ufrag = ''a'', ice_pwd = ''b'', fingerprint = \<lparr>fingerprint_algorithm = ''sha-256'', fingerprint_value = ''AB''\<rparr>,
      setup_role = role_actpass, bundle_mids = [''0''], offer_media = [demo_section d p]\<rparr>"

lemma demo_options_valid: "validate_options demo_options = Inr ()"
  by (simp add: validate_options_def validate_candidate_options_def validate_token_def contains_whitespace_def demo_options_def)

lemma demo_section_answerable:
  "section_answerable (demo_offer recv_only 96) (Some (demo_offer send_only 100)) 0"
proof -
  have d: "kind (demo_section d n) = ''video''" "summary_direction (demo_section d n) = d" for d n
    by (simp_all add: demo_section_def)
  have "find_matching_publisher_media 0 (demo_offer recv_only 96) (demo_offer send_only 100) = Some (demo_section send_only 100)"
    by (simp add: find_matching_publisher_media_def demo_offer_def d media_can_receive_def media_can_send_def
        find_receive_capable_media_ordinal_by_kind_def count_receive_capable_media_by_kind_def
        count_send_capable_media_by_kind_def find_send_capable_media_by_kind_ordinal_def)
  moreover have "offer_media (demo_offer recv_only 96) ! 0 = demo_section recv_only 96" by (simp add: demo_offer_def)
  ultimately show ?thesis using demo_negotiation by (simp add: section_answerable_def answer_codecs_def d)
qed

lemma demo_answer:
  obtains d accepted where "build_answer (demo_offer recv_only 96) demo_options (Some (demo_offer send_only 100)) = Inr (d, accepted)"
proof -
  have "length (offer_media (demo_offer recv_only 96)) = 1" by (simp add: demo_offer_def)
  then show ?thesis
    using that build_answer_succeeds [OF demo_options_valid, of "demo_offer recv_only 96" "Some (demo_offer send_only 100)"]
      demo_section_answerable by auto
qed

section \<open>The properties of the answers\<close>



text \<open>
  C16. An answer has one section for every section of the summarised offer, in the same order, of the same
  kind and with the same name; a section is rejected with port 0 and inactive, or accepted with some of
  the offered payload types and the direction the server has; the accepted indices are exactly those of
  the accepted sections.
\<close>

theorem answer_follows_offer:
  assumes "build_answer offer opt p = Inr (d, accepted)"
  shows "list_all2 (answers_section (p \<noteq> None)) (offer_media offer) (media_descriptions d)
    \<and> accepted = map int (accepted_indices (media_descriptions d) (length (offer_media offer))) \<and> accepted \<noteq> []
    \<and> find_attribute_value (session_attributes d) ''group'' = Some (make_bundle_group_value offer accepted)
    \<and> find_attribute_value (session_attributes d) ''setup'' = Some ''passive''"
  using build_answer_sections [OF assms] built_sections [OF assms]
  by (simp add: list_all2_conv_all_nth make_attribute_def make_property_attribute_def)

theorem answer_follows_offer_witness:
  "\<exists>d accepted. build_answer (demo_offer recv_only 96) demo_options (Some (demo_offer send_only 100)) = Inr (d, accepted)
    \<and> list_all2 (answers_section True) (offer_media (demo_offer recv_only 96)) (media_descriptions d)"
proof -
  obtain d accepted where b: "build_answer (demo_offer recv_only 96) demo_options (Some (demo_offer send_only 100)) = Inr (d, accepted)"
    by (rule demo_answer)
  show ?thesis using b answer_follows_offer [OF b] by simp
qed

text \<open>The section of the publisher that feeds a section of the answer, and the payload types it translates.\<close>

definition serves :: "media_summary \<Rightarrow> media_summary \<Rightarrow> media_description \<Rightarrow> bool" where
  "serves m pm s \<longleftrightarrow>
     media_can_receive m \<and> media_can_send pm \<and> kind pm = kind m
     \<and> (\<exists>ms. negotiate_codec_payload_type_mappings m pm = Inr ms
          \<and> formats (media_name s) = map (\<lambda>x. decimal (subscriber_payload_type x)) ms
          \<and> (\<forall>x \<in> set ms. publisher_payload_type x \<in> set (payload_types pm)))"

text \<open>
  C17. Every section a subscriber is promised is fed by a section of the publisher of the same kind that
  sends, no two sections by the same one, and every payload type in it stands for a payload type of the
  publisher: the answer never promises media that the media path cannot map.
\<close>

theorem whep_answer_is_served:
  assumes "build_answer subscriber opt (Some publisher) = Inr (d, accepted)"
  shows "\<exists>f. inj_on f (set accepted) \<and> (\<forall>i \<in> set accepted. f i < length (offer_media publisher)
      \<and> serves (offer_media subscriber ! nat i) (offer_media publisher ! f i) (media_descriptions d ! nat i))"
proof -
  let ?n = "length (offer_media subscriber)"
  note built = build_answer_sections [OF assms]
  have accepted: "\<exists>cs pm. find_matching_publisher_media i subscriber publisher = Some pm
      \<and> negotiate_codecs (offer_media subscriber ! i) pm = Inr cs
      \<and> formats (media_name (media_descriptions d ! i)) = map (\<lambda>c. decimal (payload_type c)) cs"
    if i: "i \<in> set (accepted_indices (media_descriptions d) ?n)" for i
  proof -
    have p: "i < ?n" "port (media_name (media_descriptions d ! i)) \<noteq> 0" using i by (auto simp: accepted_indices_def)
    show ?thesis using built(4) [OF p(1)]
    proof (cases rule: make_answer_media_cases)
      case 1
      then show ?thesis using p(2) by (simp add: rejected_section)
    next
      case (2 cs f)
      then show ?thesis using answer_codecs_forwarded(2) [OF 2(1)] accepted_section(1) [OF 2(3)] by auto
    qed
  qed
  let ?f = "\<lambda>i. publisher_position subscriber publisher (nat i)"
  have "inj_on ?f (set accepted)"
  proof (rule inj_onI)
    fix i j
    assume ij: "i \<in> set accepted" "j \<in> set accepted" "?f i = ?f j"
    then obtain a b where ab: "find_matching_publisher_media (nat i) subscriber publisher = Some a"
      "find_matching_publisher_media (nat j) subscriber publisher = Some b" "0 \<le> i" "0 \<le> j"
      using accepted built(2) by fastforce
    then show "i = j" using publisher_position_inj [OF ab(1,2) ij(3)] by simp
  qed
  moreover have "?f i < length (offer_media publisher)
      \<and> serves (offer_media subscriber ! nat i) (offer_media publisher ! ?f i) (media_descriptions d ! nat i)"
    if i: "i \<in> set accepted" for i
  proof -
    have n: "nat i \<in> set (accepted_indices (media_descriptions d) ?n)" using i built(2) by auto
    obtain cs pm where c: "find_matching_publisher_media (nat i) subscriber publisher = Some pm"
      "negotiate_codecs (offer_media subscriber ! nat i) pm = Inr cs"
      "formats (media_name (media_descriptions d ! nat i)) = map (\<lambda>c. decimal (payload_type c)) cs"
      using accepted [OF n] by blast
    note m = matching_publisher_media [OF c(1)]
    note s = send_position_props [OF m(3)]
    obtain ms where ms: "negotiate_codec_payload_type_mappings (offer_media subscriber ! nat i) pm = Inr ms"
      "map subscriber_payload_type ms = map payload_type cs" "\<forall>x \<in> set ms. publisher_payload_type x \<in> set (payload_types pm)"
      using negotiated_mappings [OF c(2)] by blast
    have "map (\<lambda>c. decimal (payload_type c)) cs = map (\<lambda>x. decimal (subscriber_payload_type x)) ms"
      using arg_cong [OF ms(2), of "map decimal"] by (simp add: comp_def)
    then have "serves (offer_media subscriber ! nat i) pm (media_descriptions d ! nat i)"
      using ms(1,3) c(3) m(2) s(2,3) m(4) by (auto simp: serves_def publisher_position_def)
    then show ?thesis using s(1) m(4) by (simp add: publisher_position_def)
  qed
  ultimately show ?thesis by blast
qed

theorem whep_answer_is_served_witness:
  "\<exists>d accepted. build_answer (demo_offer recv_only 96) demo_options (Some (demo_offer send_only 100)) = Inr (d, accepted)
    \<and> (\<exists>f. inj_on f (set accepted) \<and> (\<forall>i \<in> set accepted. f i < (1 :: nat)))"
proof -
  obtain d accepted where b: "build_answer (demo_offer recv_only 96) demo_options (Some (demo_offer send_only 100)) = Inr (d, accepted)"
    by (rule demo_answer)
  have n: "length (offer_media (demo_offer send_only 100)) = 1" by (simp add: demo_offer_def)
  show ?thesis using b whep_answer_is_served [OF b] unfolding n by blast
qed

text \<open>
  C23. Filtering the offer by the accepted indices never leaves the list of sections, and succeeds exactly
  when the bundle group names the accepted sections in the order of the sections; then the session keeps
  precisely the accepted sections. An offer whose bundle group has another order is turned down.
\<close>

theorem runtime_offer_keeps_accepted:
  assumes "build_answer offer opt p = Inr (d, accepted)"
  shows "fault_free (make_offer_summary offer accepted)
    \<and> (make_offer_summary offer accepted = Inr r) =
      (filter (\<lambda>b. b \<in> set (map (\<lambda>i. mid (offer_media offer ! nat i)) accepted)) (bundle_mids offer) =
         map (\<lambda>i. mid (offer_media offer ! nat i)) accepted
       \<and> r = offer\<lparr>bundle_mids := map (\<lambda>i. mid (offer_media offer ! nat i)) accepted,
                  offer_media := map (\<lambda>i. offer_media offer ! nat i) accepted\<rparr>)"
proof -
  let ?is = "accepted_indices (media_descriptions d) (length (offer_media offer))"
  have a: "accepted = map int ?is" by (rule build_answer_sections(2) [OF assms])
  have r: "\<forall>i \<in> set ?is. i < length (offer_media offer)" by (auto simp: accepted_indices_def)
  have m: "map (\<lambda>i. offer_media offer ! nat i) accepted = map (nth (offer_media offer)) ?is"
    "map (\<lambda>i. mid (offer_media offer ! nat i)) accepted = map mid (map (nth (offer_media offer)) ?is)"
    by (simp_all add: a comp_def)
  show ?thesis unfolding m
    using make_offer_summary_iff(1) [OF a r] make_offer_summary_iff(2) [OF a r] by (intro conjI) (assumption, simp)
qed

theorem runtime_offer_keeps_accepted_witness:
  "\<exists>d accepted. build_answer (demo_offer recv_only 96) demo_options (Some (demo_offer send_only 100)) = Inr (d, accepted)
    \<and> fault_free (make_offer_summary (demo_offer recv_only 96) accepted)"
proof -
  obtain d accepted where b: "build_answer (demo_offer recv_only 96) demo_options (Some (demo_offer send_only 100)) = Inr (d, accepted)"
    by (rule demo_answer)
  show ?thesis using b runtime_offer_keeps_accepted [OF b] by blast
qed

end
