(* ===== verification/Certificate_Fingerprint.thy ===== *)
theory Certificate_Fingerprint
  imports Sdp_Offer_Validator
begin

unbundle bit_operations_syntax

text \<open>
  The fingerprint of a peer's certificate (\<^verbatim>\<open>src/security/certificate_fingerprint.cpp\<close>). The digest of a
  certificate is OpenSSL's: \<open>x509_digest certificate algorithm\<close> is what \<^verbatim>\<open>X509_digest\<close> writes, or \<open>None\<close>
  when it fails, and \<open>error_text\<close> is what the error queue then holds.
\<close>

datatype evp_md = EVP_sha256 | EVP_sha384 | EVP_sha512

definition make_openssl_error :: "string option \<Rightarrow> string \<Rightarrow> string" where
  "make_openssl_error error_text prefix = (case error_text of None \<Rightarrow> prefix | Some e \<Rightarrow> prefix @ '': '' @ e)"

definition find_digest_algorithm :: "string \<Rightarrow> evp_md result" where
  "find_digest_algorithm algorithm =
     (let normalized = to_lower algorithm in
      if normalized = ''sha-256'' then Inr EVP_sha256
      else if normalized = ''sha-384'' then Inr EVP_sha384
      else if normalized = ''sha-512'' then Inr EVP_sha512
      else make_error (''certificate fingerprint algorithm is unsupported: '' @ algorithm))"

definition get_digest_size :: "string \<Rightarrow> nat result" where
  "get_digest_size algorithm =
     (let normalized = to_lower algorithm in
      if normalized = ''sha-256'' then Inr 32
      else if normalized = ''sha-384'' then Inr 48
      else if normalized = ''sha-512'' then Inr 64
      else make_error (''certificate fingerprint algorithm is unsupported: '' @ algorithm))"

definition k_hex_digits :: string where
  "k_hex_digits = ''0123456789ABCDEF''"

fun format_digest_bytes :: "bytes \<Rightarrow> nat \<Rightarrow> string" where
  "format_digest_bytes [] index = []"
| "format_digest_bytes (b # bs) index =
     (if index \<noteq> 0 then [CHR '':''] else [])
     @ [k_hex_digits ! unat (drop_bit 4 b AND 0x0F), k_hex_digits ! unat (b AND 0x0F)]
     @ format_digest_bytes bs (index + 1)"

definition format_fingerprint_value :: "bytes \<Rightarrow> string result" where
  "format_fingerprint_value digest =
     (if digest = [] then make_error ''certificate digest is empty'' else Inr (format_digest_bytes digest 0))"

definition hex_digit_value :: "char \<Rightarrow> int" where
  "hex_digit_value character =
     (let c = of_char character in
      if 48 \<le> c \<and> c \<le> 57 then c - 48
      else if 97 \<le> c \<and> c \<le> 102 then 10 + c - 97
      else if 65 \<le> c \<and> c \<le> 70 then 10 + c - 65
      else -1)"

function parse_fingerprint_bytes :: "string \<Rightarrow> nat \<Rightarrow> nat \<Rightarrow> bytes \<Rightarrow> bytes result" where
  "parse_fingerprint_bytes v digest_size byte_index digest =
     (if byte_index \<ge> digest_size then Inr digest
      else
        bindE (char_of_text v (byte_index * 3)) (\<lambda>h.
        bindE (char_of_text v (byte_index * 3 + 1)) (\<lambda>l.
        let high = hex_digit_value h; low = hex_digit_value l in
        if high < 0 \<or> low < 0 then make_error ''certificate fingerprint contains invalid hexadecimal byte''
        else
          let digest = digest @ [word_of_int (16 * high + low)] in
          if byte_index + 1 < digest_size then
            bindE (char_of_text v (byte_index * 3 + 2)) (\<lambda>c.
            if c \<noteq> CHR '':'' then make_error ''certificate fingerprint must use colon separators''
            else parse_fingerprint_bytes v digest_size (byte_index + 1) digest)
          else parse_fingerprint_bytes v digest_size (byte_index + 1) digest)))"
  by auto
termination
  by (relation "measure (\<lambda>(v, n, i, d). n - i)") auto

definition parse_fingerprint_value :: "string \<Rightarrow> nat \<Rightarrow> bytes result" where
  "parse_fingerprint_value v digest_size =
     (if digest_size = 0 then make_error ''certificate fingerprint digest size is zero''
      else if length v \<noteq> digest_size * 3 - 1 then make_error ''certificate fingerprint value length is invalid''
      else parse_fingerprint_bytes v digest_size 0 [])"

definition calculate_certificate_fingerprint ::
  "('c \<Rightarrow> evp_md \<Rightarrow> bytes option) \<Rightarrow> string option \<Rightarrow> 'c option \<Rightarrow> string \<Rightarrow> fingerprint_info result" where
  "calculate_certificate_fingerprint x509_digest error_text certificate algorithm =
     (case certificate of
        None \<Rightarrow> make_error ''certificate is null''
      | Some c \<Rightarrow>
          if algorithm = [] then make_error ''certificate fingerprint algorithm is empty''
          else
            bindE (find_digest_algorithm algorithm) (\<lambda>digest_algorithm.
            bindE (get_digest_size algorithm) (\<lambda>expected_digest_size.
            case x509_digest c digest_algorithm of
              None \<Rightarrow> make_error (make_openssl_error error_text ''calculate certificate fingerprint failed'')
            | Some digest \<Rightarrow>
                if length digest \<noteq> expected_digest_size then make_error ''certificate fingerprint digest size is invalid''
                else
                  bindE (format_fingerprint_value digest) (\<lambda>v.
                  Inr \<lparr>fingerprint_algorithm = to_lower algorithm, fingerprint_value = v\<rparr>))))"

definition verify_certificate_fingerprint ::
  "('c \<Rightarrow> evp_md \<Rightarrow> bytes option) \<Rightarrow> string option \<Rightarrow> 'c option \<Rightarrow> fingerprint_info \<Rightarrow> fingerprint_info result" where
  "verify_certificate_fingerprint x509_digest error_text certificate expected =
     (if certificate = None then make_error ''remote dtls certificate is null''
      else if fingerprint_algorithm expected = [] then make_error ''expected remote dtls fingerprint algorithm is empty''
      else if fingerprint_value expected = [] then make_error ''expected remote dtls fingerprint value is empty''
      else
        bindE (get_digest_size (fingerprint_algorithm expected)) (\<lambda>digest_size.
        bindE (calculate_certificate_fingerprint x509_digest error_text certificate (fingerprint_algorithm expected)) (\<lambda>actual.
        bindE (parse_fingerprint_value (fingerprint_value expected) digest_size) (\<lambda>expected_digest.
        bindE (parse_fingerprint_value (fingerprint_value actual) digest_size) (\<lambda>actual_digest.
        if length expected_digest \<noteq> length actual_digest then make_error ''remote dtls certificate fingerprint size mismatch''
        else if expected_digest \<noteq> actual_digest then
          make_error (''remote dtls certificate fingerprint mismatch expected='' @ fingerprint_value expected
            @ '' actual='' @ fingerprint_value actual)
        else Inr actual)))))"

declare parse_fingerprint_bytes.simps [simp del]

section \<open>Hexadecimal digests\<close>

lemma of_char_to_lower: "(of_char (to_lower_char c) :: nat) = (if is_upper c then of_char c + 32 else of_char c)"
  by (simp add: to_lower_char_def is_upper_def)

lemma of_char_int: "(of_char c :: int) = int (of_char c)"
  by (simp add: of_char_def)

lemma hex_digit_value_lower [simp]: "hex_digit_value (to_lower_char c) = hex_digit_value c"
  unfolding hex_digit_value_def of_char_int Let_def of_char_to_lower is_upper_def by auto

lemma lower_hex_digit:
  assumes "k < 16"
  shows "to_lower_char (k_hex_digits ! k) = char_of (if k < 10 then 48 + k else 87 + k)"
    and "hex_digit_value (k_hex_digits ! k) = int k"
proof -
  have "\<forall>k \<in> set [0..<16]. to_lower_char (k_hex_digits ! k) = char_of (if k < 10 then 48 + k else 87 + k)
     \<and> hex_digit_value (k_hex_digits ! k) = int k" by code_simp
  then show "to_lower_char (k_hex_digits ! k) = char_of (if k < 10 then 48 + k else 87 + k)"
    and "hex_digit_value (k_hex_digits ! k) = int k" using assms by auto
qed

lemma hex_digit_value_digit:
  assumes "0 \<le> hex_digit_value c"
  shows "hex_digit_value c < 16" and "to_lower_char c = to_lower_char (k_hex_digits ! nat (hex_digit_value c))"
proof -
  show k: "hex_digit_value c < 16" unfolding hex_digit_value_def Let_def by auto
  then have "to_lower_char (k_hex_digits ! nat (hex_digit_value c)) = char_of (if nat (hex_digit_value c) < 10 then 48 + nat (hex_digit_value c) else 87 + nat (hex_digit_value c))"
    using assms by (intro lower_hex_digit) auto
  moreover have "of_char (to_lower_char c) = (if nat (hex_digit_value c) < 10 then 48 + nat (hex_digit_value c) else 87 + nat (hex_digit_value c))"
    using assms unfolding hex_digit_value_def of_char_int Let_def of_char_to_lower is_upper_def by auto
  then have "to_lower_char c = char_of (if nat (hex_digit_value c) < 10 then 48 + nat (hex_digit_value c) else 87 + nat (hex_digit_value c))"
    by (metis char_of_char)
  ultimately show "to_lower_char c = to_lower_char (k_hex_digits ! nat (hex_digit_value c))" by simp
qed

lemma lower_colon: "to_lower_char c = CHR '':'' \<longleftrightarrow> c = CHR '':''"
proof -
  have "to_lower_char c = CHR '':'' \<longleftrightarrow> (of_char (to_lower_char c) :: nat) = of_char CHR '':''"
    by (simp only: of_char_eq_iff)
  then show ?thesis unfolding of_char_to_lower is_upper_def
    by (auto simp flip: of_char_eq_iff [where 'a = nat])
qed

lemma same_hex_digit:
  assumes "k < 16"
  shows "to_lower_char c = to_lower_char (k_hex_digits ! k) \<longleftrightarrow> hex_digit_value c = int k"
  using assms lower_hex_digit(2) [OF assms] hex_digit_value_lower hex_digit_value_digit [of c]
  by (metis nat_int of_nat_0_le_iff)

text \<open>A fingerprint text is the digest in hexadecimal bytes joined by colons, in either case.\<close>

definition same_digest :: "string \<Rightarrow> bytes \<Rightarrow> bool" where
  "same_digest v digest \<longleftrightarrow> iequals v (format_digest_bytes digest 0)"

lemma format_digest_index: "format_digest_bytes bs (Suc i) = format_digest_bytes bs (Suc 0)"
proof (induction bs arbitrary: i)
  case (Cons b bs)
  show ?case using Cons [of "Suc i"] Cons [of "Suc 0"] by simp
qed simp

lemma format_digest_rest:
  "format_digest_bytes bs (Suc i) = (if bs = [] then [] else CHR '':'' # format_digest_bytes bs 0)"
  by (cases bs) (auto simp: format_digest_index [of _ "Suc i"])

lemma format_digest_length: "length (format_digest_bytes bs 0) = 3 * length bs - 1"
  by (induction bs) (auto simp: format_digest_rest)

lemma nibbles:
  fixes b :: u8
  shows "unat (drop_bit 4 b AND 0x0F) < 16" "unat (b AND 0x0F) < 16"
    and "16 * unat (drop_bit 4 b AND 0x0F) + unat (b AND 0x0F) = unat b"
proof -
  have b: "unat b < 256" using unsigned_less [of b, where 'a = nat] by simp
  show "unat (drop_bit 4 b AND 0x0F) < 16" unfolding high_digit using b by (intro less_mult_imp_div_less) simp
  show "unat (b AND 0x0F) < 16" unfolding low_digit by (rule mod_less_divisor) simp
  show "16 * unat (drop_bit 4 b AND 0x0F) + unat (b AND 0x0F) = unat b"
    unfolding high_digit low_digit [of b] by (rule mult_div_mod_eq)
qed

lemma byte_of_nibbles:
  assumes "h < 16" "l < 16"
  shows "unat (drop_bit 4 (word_of_int (16 * int h + int l) :: u8) AND 0x0F) = h"
    and "unat ((word_of_int (16 * int h + int l) :: u8) AND 0x0F) = l"
proof -
  have u: "unat (word_of_int (16 * int h + int l) :: u8) = 16 * h + l"
    using assms by (simp only: unsigned_of_int) (simp add: take_bit_int_eq_self nat_plus_as_int)
  show "unat (drop_bit 4 (word_of_int (16 * int h + int l) :: u8) AND 0x0F) = h"
    unfolding high_digit u using assms by simp
  show "unat ((word_of_int (16 * int h + int l) :: u8) AND 0x0F) = l"
    unfolding low_digit u using assms by simp
qed

lemma two_digits:
  fixes b :: u8
  shows "to_lower_char x = to_lower_char (k_hex_digits ! unat (drop_bit 4 b AND 0x0F))
   \<and> to_lower_char y = to_lower_char (k_hex_digits ! unat (b AND 0x0F))
   \<longleftrightarrow> 0 \<le> hex_digit_value x \<and> 0 \<le> hex_digit_value y \<and> b = word_of_int (16 * hex_digit_value x + hex_digit_value y)"
proof
  assume "to_lower_char x = to_lower_char (k_hex_digits ! unat (drop_bit 4 b AND 0x0F))
   \<and> to_lower_char y = to_lower_char (k_hex_digits ! unat (b AND 0x0F))"
  then have v: "hex_digit_value x = int (unat (drop_bit 4 b AND 0x0F))" "hex_digit_value y = int (unat (b AND 0x0F))"
    using same_hex_digit [OF nibbles(1) [of b]] same_hex_digit [OF nibbles(2) [of b]] by blast+
  then have "16 * hex_digit_value x + hex_digit_value y = int (unat b)" using nibbles(3) [of b] by linarith
  then show "0 \<le> hex_digit_value x \<and> 0 \<le> hex_digit_value y \<and> b = word_of_int (16 * hex_digit_value x + hex_digit_value y)"
    using v by simp
next
  assume v: "0 \<le> hex_digit_value x \<and> 0 \<le> hex_digit_value y \<and> b = word_of_int (16 * hex_digit_value x + hex_digit_value y)"
  then have "unat (drop_bit 4 b AND 0x0F) = nat (hex_digit_value x)" "unat (b AND 0x0F) = nat (hex_digit_value y)"
    using byte_of_nibbles [of "nat (hex_digit_value x)" "nat (hex_digit_value y)"]
      hex_digit_value_digit(1) [of x] hex_digit_value_digit(1) [of y] by simp_all
  then show "to_lower_char x = to_lower_char (k_hex_digits ! unat (drop_bit 4 b AND 0x0F))
   \<and> to_lower_char y = to_lower_char (k_hex_digits ! unat (b AND 0x0F))"
    using v hex_digit_value_digit(2) by metis
qed

text \<open>The loop of the parser over the rest of the text, two digits and a separator at a time.\<close>

fun parse_digits :: "string \<Rightarrow> bytes result" where
  "parse_digits (x # y # rest) =
     (if hex_digit_value x < 0 \<or> hex_digit_value y < 0 then make_error ''certificate fingerprint contains invalid hexadecimal byte''
      else
        let b = word_of_int (16 * hex_digit_value x + hex_digit_value y) in
        case rest of
          [] \<Rightarrow> Inr [b]
        | c # rest' \<Rightarrow>
            if c \<noteq> CHR '':'' then make_error ''certificate fingerprint must use colon separators''
            else bindE (if rest' = [] then Inr [] else parse_digits rest') (\<lambda>d. Inr (b # d)))"
| "parse_digits v = Inr []"

lemma parse_fingerprint_bytes_loop:
  assumes "i < n" "length v = n * 3 - 1"
  shows "parse_fingerprint_bytes v n i acc = bindE (parse_digits (drop (i * 3) v)) (\<lambda>d. Inr (acc @ d))"
  using assms(1)
proof (induction "n - Suc i" arbitrary: i acc)
  case 0
  then have n: "n = Suc i" and len: "length v = i * 3 + 2" using assms(2) by simp_all
  have d: "drop (i * 3) v = [v ! (i * 3), v ! (i * 3 + 1)]"
    using len by (simp add: Cons_nth_drop_Suc [symmetric])
  show ?case unfolding d using n len
    by (subst parse_fingerprint_bytes.simps, subst (2) parse_fingerprint_bytes.simps) (simp add: char_of_text_def Let_def make_error_def)
next
  case (Suc k)
  then have i: "Suc i < n" "k = n - Suc (Suc i)" by simp_all
  have len: "i * 3 + 2 < length v" "Suc i * 3 < length v" using i assms(2) by simp_all
  have d: "drop (i * 3) v = v ! (i * 3) # v ! (i * 3 + 1) # v ! (i * 3 + 2) # drop (Suc i * 3) v"
  proof -
    have e: "i * 3 + 1 = Suc (i * 3)" "i * 3 + 2 = Suc (Suc (i * 3))" "Suc i * 3 = Suc (Suc (Suc (i * 3)))" by simp_all
    show ?thesis unfolding e using len by (simp add: Cons_nth_drop_Suc)
  qed
  have "drop (Suc i * 3) v \<noteq> []" using len by simp
  then show ?case unfolding d using i len Suc.hyps(1) [OF i(2,1)]
    by (subst parse_fingerprint_bytes.simps) (simp add: char_of_text_def Let_def make_error_def bindE_assoc)
qed

lemma parse_digits_iff:
  assumes "length v = 3 * m - 1" "0 < m"
  shows "(parse_digits v = Inr d) = (length d = m \<and> same_digest v d)" and "fault_free (parse_digits v)"
proof -
  show "(parse_digits v = Inr d) = (length d = m \<and> same_digest v d)"
    using assms
  proof (induction v arbitrary: d m rule: parse_digits.induct)
    case (1 x y rest)
    show ?case
    proof (cases rest)
      case Nil
      then have m: "m = 1" using 1(2,3) by simp
      show ?thesis
      proof (cases d)
        case (Cons b bs)
        then show ?thesis using Nil m two_digits [of x b y]
          by (auto simp: same_digest_def iequals_def to_lower_def make_error_def Let_def not_less)
      qed (use Nil m in \<open>auto simp: make_error_def Let_def\<close>)
    next
      case (Cons c rest')
      then have len: "length rest' = 3 * (m - 1) - 1" "0 < m - 1" using 1(2,3) by auto
      then have ne: "rest' \<noteq> []" by auto
      show ?thesis
      proof (cases d)
        case Nil
        then show ?thesis using len by (auto simp: make_error_def Let_def Cons split: if_splits simp: bindE_Inr_iff)
      next
        case (Cons b bs)
        have IH: "\<not> (hex_digit_value x < 0 \<or> hex_digit_value y < 0) \<Longrightarrow> c = CHR '':'' \<Longrightarrow>
            (parse_digits rest' = Inr bs) = (length bs = m - 1 \<and> same_digest rest' bs)"
          using 1(1) [OF _ refl \<open>rest = c # rest'\<close>] ne len by blast
        have ll: "length bs = m - 1 \<Longrightarrow> bs \<noteq> []" using len by auto
        show ?thesis unfolding \<open>rest = c # rest'\<close> Cons
          using IH ll ne len two_digits [of x b y] lower_colon [of c] lower_colon [of "CHR '':''"]
          by (auto simp: same_digest_def iequals_def to_lower_def make_error_def Let_def not_less format_digest_rest bindE_Inr_iff)
      qed
    qed
  qed auto
  show "fault_free (parse_digits v)"
    by (induction v rule: parse_digits.induct) (auto simp: Let_def intro!: safe split: list.splits)
qed

lemma parse_fingerprint_value_iff:
  assumes "length v = n * 3 - 1" "0 < n"
  shows "(parse_fingerprint_value v n = Inr d) = (length d = n \<and> same_digest v d)"
    and "fault_free (parse_fingerprint_value v n)"
proof -
  have "parse_fingerprint_value v n = bindE (parse_digits v) (\<lambda>d. Inr ([] @ d))"
    using parse_fingerprint_bytes_loop [OF assms(2,1), of "[]"] assms by (simp add: parse_fingerprint_value_def)
  then have p: "parse_fingerprint_value v n = parse_digits v" by (cases "parse_digits v") auto
  show "(parse_fingerprint_value v n = Inr d) = (length d = n \<and> same_digest v d)" "fault_free (parse_fingerprint_value v n)"
    unfolding p using parse_digits_iff [of v n] assms by (simp_all add: mult.commute)
qed

lemma parse_fingerprint_value_safe [safe]: "fault_free (parse_fingerprint_value v n)"
  using parse_fingerprint_value_iff(2) [of v n] by (cases "n = 0 \<or> length v \<noteq> n * 3 - 1") (auto simp: parse_fingerprint_value_def)

lemma same_digest_length: "same_digest v d \<Longrightarrow> length v = length d * 3 - 1"
  unfolding same_digest_def iequals_def to_lower_def
  by (drule map_eq_imp_length_eq) (simp add: format_digest_length mult.commute)

lemma same_digest_unique:
  assumes "same_digest v d" "same_digest v d'" "length d = length d'"
  shows "d = d'"
proof (cases "d = []")
  case False
  then have "length v = length d * 3 - 1"
    using assms(1) same_digest_length by blast
  then show ?thesis using parse_fingerprint_value_iff(1) [of v "length d"] assms False
    by (metis Inr_inject length_greater_0_conv)
qed (use assms in simp)

lemma own_digest: "same_digest (format_digest_bytes d 0) d"
  by (simp add: same_digest_def iequals_def)

fun md_of :: "nat \<Rightarrow> evp_md" where
  "md_of n = (if n = 32 then EVP_sha256 else if n = 48 then EVP_sha384 else EVP_sha512)"

lemma digest_tables:
  "get_digest_size a = Inr n \<Longrightarrow> find_digest_algorithm a = Inr (md_of n) \<and> n \<in> {32, 48, 64} \<and> a \<noteq> []"
  "fingerprint_digest_size a = Inr n \<longleftrightarrow> get_digest_size a = Inr n"
  "fault_free (get_digest_size a)" "fault_free (find_digest_algorithm a)"
  by (auto simp: get_digest_size_def find_digest_algorithm_def fingerprint_digest_size_def Let_def make_error_def
      to_lower_def fault_free_def split: if_splits)

text \<open>
  A certificate passes exactly when its digest, computed with the algorithm the offer names, is the
  digest written in the offer; the case of the digits does not matter. No character outside the text is
  read, whatever the offer says.
\<close>

definition certificate_matches :: "('c \<Rightarrow> evp_md \<Rightarrow> bytes option) \<Rightarrow> 'c option \<Rightarrow> fingerprint_info \<Rightarrow> bool" where
  "certificate_matches x509_digest certificate expected \<longleftrightarrow>
     (\<exists>c n digest. certificate = Some c \<and> get_digest_size (fingerprint_algorithm expected) = Inr n
        \<and> x509_digest c (md_of n) = Some digest \<and> length digest = n \<and> same_digest (fingerprint_value expected) digest)"

lemma calculate_certificate_fingerprint_iff:
  assumes "get_digest_size algorithm = Inr n"
  shows "calculate_certificate_fingerprint x509_digest error_text (Some c) algorithm = Inr r \<longleftrightarrow>
      (\<exists>digest. x509_digest c (md_of n) = Some digest \<and> length digest = n
        \<and> r = \<lparr>fingerprint_algorithm = to_lower algorithm, fingerprint_value = format_digest_bytes digest 0\<rparr>)"
    and "fault_free (calculate_certificate_fingerprint x509_digest error_text (Some c) algorithm)"
  using assms digest_tables(1) [OF assms]
  by (auto simp: calculate_certificate_fingerprint_def format_fingerprint_value_def make_error_def fault_free_def split: option.splits)

text \<open>
  C12. The check of a certificate never reads past the end of the fingerprint text, and accepts exactly the
  certificates whose digest under the named algorithm is spelled by that text, in either case of letters.
\<close>

theorem fingerprint_verified_iff:
  "fault_free (verify_certificate_fingerprint x509_digest error_text certificate expected)
   \<and> ok (verify_certificate_fingerprint x509_digest error_text certificate expected) = certificate_matches x509_digest certificate expected"
proof (cases "\<exists>c n. certificate = Some c \<and> get_digest_size (fingerprint_algorithm expected) = Inr n")
  case False
  then show ?thesis
    using digest_tables(3) [of "fingerprint_algorithm expected"]
    by (cases "get_digest_size (fingerprint_algorithm expected)")
      (auto simp: verify_certificate_fingerprint_def certificate_matches_def make_error_def fault_free_def)
next
  case True
  then obtain c n where c: "certificate = Some c" and n: "get_digest_size (fingerprint_algorithm expected) = Inr n" by blast
  note t = digest_tables(1) [OF n]
  then have n0: "0 < n" "fingerprint_algorithm expected \<noteq> []" by auto
  note calc = calculate_certificate_fingerprint_iff [OF n, of x509_digest error_text c]
  let ?p = "parse_fingerprint_value (fingerprint_value expected) n"
  have own: "parse_fingerprint_value (format_digest_bytes d 0) n = Inr d" if "length d = n" for d
    using that n0 own_digest [of d] format_digest_length [of d] parse_fingerprint_value_iff(1) [of "format_digest_bytes d 0" n d]
    by (simp add: mult.commute)
  have p: "?p = Inr d \<longleftrightarrow> length d = n \<and> same_digest (fingerprint_value expected) d" for d
  proof (cases "length (fingerprint_value expected) = n * 3 - 1")
    case True then show ?thesis using parse_fingerprint_value_iff(1) n0 by blast
  next
    case False
    have "\<not> (length d = n \<and> same_digest (fingerprint_value expected) d)"
      using False same_digest_length by blast
    then show ?thesis using False n0 by (simp add: parse_fingerprint_value_def make_error_def)
  qed
  have e: "fingerprint_value expected \<noteq> []" if "?p = Inr d" for d
    using that n0 by (auto simp: parse_fingerprint_value_def make_error_def split: if_splits)
  show ?thesis
  proof (cases "calculate_certificate_fingerprint x509_digest error_text (Some c) (fingerprint_algorithm expected)")
    case (Inl x)
    then have "\<nexists>digest. x509_digest c (md_of n) = Some digest \<and> length digest = n" using calc(1) by fastforce
    then show ?thesis using c n n0 calc(2) Inl
      by (auto simp del: md_of.simps simp: verify_certificate_fingerprint_def certificate_matches_def make_error_def fault_free_def)
  next
    case (Inr a)
    then obtain digest where d: "x509_digest c (md_of n) = Some digest" "length digest = n"
      "a = \<lparr>fingerprint_algorithm = to_lower (fingerprint_algorithm expected), fingerprint_value = format_digest_bytes digest 0\<rparr>"
      using calc(1) by blast
    have m: "certificate_matches x509_digest certificate expected \<longleftrightarrow> ?p = Inr digest"
      using c n d(1,2) p by (auto simp: certificate_matches_def)
    show ?thesis unfolding m
      using c n n0 Inr d own [OF d(2)] p e parse_fingerprint_value_safe [of "fingerprint_value expected" n]
      by (cases ?p) (auto simp: verify_certificate_fingerprint_def make_error_def fault_free_def)
  qed
qed

end
