(* ===== verification/Dtls_Keying_Material.thy ===== *)
theory Dtls_Keying_Material
  imports Certificate_Fingerprint
begin

text \<open>
  The SRTP keys of a finished DTLS handshake (\<^verbatim>\<open>src/dtls/dtls_srtp_keying_material.cpp\<close>), and the
  interface of OpenSSL that the DTLS transport is written against.

  A value of type \<open>'s\<close> is an \<^verbatim>\<open>SSL\<close> object together with the two datagram BIOs made for it; every call that
  may change it returns it anew. What OpenSSL takes from its surroundings (memory, randomness) is an
  argument of type \<open>'e\<close>. A certificate is a value of type \<open>'c\<close>. Nothing is assumed of these functions here.
\<close>

section \<open>OpenSSL\<close>

datatype ssl_status =
  ssl_error_none | ssl_error_want_read | ssl_error_want_write | ssl_error_zero_return | ssl_error_other int

record ('e, 's, 'c) openssl =
  has_context :: bool
  ssl_new :: "'e \<Rightarrow> 's option"
  read_bio_new :: "'e \<Rightarrow> bool"
  write_bio_new :: "'e \<Rightarrow> bool"
  ssl_attach :: "'s \<Rightarrow> 's"
  wbio_set_mtu :: "'s \<Rightarrow> nat \<Rightarrow> bool \<times> 's"
  wbio_get_mtu :: "'s \<Rightarrow> nat"
  ssl_set_mtu :: "'s \<Rightarrow> nat \<Rightarrow> bool \<times> 's"
  rbio_write :: "'s \<Rightarrow> bytes \<Rightarrow> nat option \<times> 's"
  wbio_pending :: "'s \<Rightarrow> nat"
  wbio_read :: "'s \<Rightarrow> nat \<Rightarrow> bytes option \<times> 's"
  ssl_do_handshake :: "'e \<Rightarrow> 's \<Rightarrow> ssl_status \<times> 's"
  ssl_is_init_finished :: "'s \<Rightarrow> bool"
  ssl_read :: "'s \<Rightarrow> ssl_status \<times> 's"
  ssl_received_shutdown :: "'s \<Rightarrow> bool"
  ssl_peer_certificate :: "'s \<Rightarrow> 'c option"
  x509_digest :: "'c \<Rightarrow> evp_md \<Rightarrow> bytes option"
  ssl_selected_srtp_profile :: "'s \<Rightarrow> string option"
  ssl_export_keying_material :: "'s \<Rightarrow> string \<Rightarrow> nat \<Rightarrow> bytes option"
  err_get_error :: "'s \<Rightarrow> string option"

section \<open>Keying material\<close>

abbreviation (input) k_srtp_aes128_master_key_size :: nat where "k_srtp_aes128_master_key_size \<equiv> 16"
abbreviation (input) k_srtp_aes128_master_salt_size :: nat where "k_srtp_aes128_master_salt_size \<equiv> 14"
abbreviation (input) k_srtp_aes128_exporter_size :: nat where "k_srtp_aes128_exporter_size \<equiv> 60"

datatype srtp_profile_id = unknown_profile | aes128_cm_sha1_80 | aes128_cm_sha1_32

record srtp_keying_material =
  srtp_profile :: srtp_profile_id
  client_write_master_key :: bytes
  server_write_master_key :: bytes
  client_write_master_salt :: bytes
  server_write_master_salt :: bytes

definition k_dtls_srtp_exporter_label :: string where
  "k_dtls_srtp_exporter_label = ''EXTRACTOR-dtls_srtp''"

definition profile_id_from_name :: "string \<Rightarrow> srtp_profile_id" where
  "profile_id_from_name name =
     (if name = ''SRTP_AES128_CM_SHA1_80'' then aes128_cm_sha1_80
      else if name = ''SRTP_AES128_CM_SHA1_32'' then aes128_cm_sha1_32
      else unknown_profile)"

definition srtp_profile_id_to_string :: "srtp_profile_id \<Rightarrow> string" where
  "srtp_profile_id_to_string p =
     (case p of aes128_cm_sha1_80 \<Rightarrow> ''SRTP_AES128_CM_SHA1_80'' | aes128_cm_sha1_32 \<Rightarrow> ''SRTP_AES128_CM_SHA1_32''
      | unknown_profile \<Rightarrow> ''unknown'')"

definition selected_srtp_profile_name :: "('e, 's, 'c) openssl \<Rightarrow> 's \<Rightarrow> string" where
  "selected_srtp_profile_name api s = (case ssl_selected_srtp_profile api s of None \<Rightarrow> [] | Some name \<Rightarrow> name)"

text \<open>The array the exporter writes into starts with zeros.\<close>

definition exporter_array :: "bytes \<Rightarrow> bytes" where
  "exporter_array exported = take k_srtp_aes128_exporter_size (exported @ replicate k_srtp_aes128_exporter_size 0)"

lemma exporter_array_length: "length (exporter_array x) = 60"
  by (simp add: exporter_array_def)

definition export_srtp_keying_material :: "('e, 's, 'c) openssl \<Rightarrow> 's \<Rightarrow> srtp_keying_material result" where
  "export_srtp_keying_material api s =
     (if \<not> ssl_is_init_finished api s then make_error ''dtls handshake is not complete''
      else
        let profile_name = selected_srtp_profile_name api s in
        if profile_name = [] then make_error ''dtls selected srtp profile is empty''
        else
          let profile = profile_id_from_name profile_name in
          if profile = unknown_profile then make_error (''dtls selected srtp profile is unsupported: '' @ profile_name)
          else
            case ssl_export_keying_material api s k_dtls_srtp_exporter_label k_srtp_aes128_exporter_size of
              None \<Rightarrow> make_error (make_openssl_error (err_get_error api s) ''dtls export srtp keying material failed'')
            | Some exported \<Rightarrow>
                let exporter = exporter_array exported in
                Inr \<lparr>srtp_profile = profile,
                     client_write_master_key = take 16 exporter,
                     server_write_master_key = take 16 (drop 16 exporter),
                     client_write_master_salt = take 14 (drop 32 exporter),
                     server_write_master_salt = take 14 (drop 46 exporter)\<rparr>)"

lemma export_srtp_keying_material_safe [safe]: "fault_free (export_srtp_keying_material api s)"
  by (auto simp: export_srtp_keying_material_def Let_def intro!: safe split: option.splits)

lemma four_pieces: "take 16 x @ take 16 (drop 16 x) @ take 14 (drop 32 x) @ take 14 (drop 46 x) = take 60 x"
proof -
  have "take 60 x = take (16 + (16 + (14 + 14))) x" by simp
  then show ?thesis by (simp only: take_add drop_drop) (simp add: add.commute)
qed

lemma array_pieces:
  "take 16 (exporter_array x) @ take 16 (drop 16 (exporter_array x)) @ take 14 (drop 32 (exporter_array x))
     @ drop 46 (exporter_array x) = exporter_array x"
  using four_pieces [of "exporter_array x"] exporter_array_length [of x] by simp

lemma exported_material:
  assumes "export_srtp_keying_material api s = Inr m"
  shows "ssl_is_init_finished api s" and "srtp_profile m \<noteq> unknown_profile"
    and "length (client_write_master_key m) = 16" "length (server_write_master_key m) = 16"
    and "length (client_write_master_salt m) = 14" "length (server_write_master_salt m) = 14"
    and "\<exists>x. ssl_export_keying_material api s k_dtls_srtp_exporter_label 60 = Some x
      \<and> client_write_master_key m @ server_write_master_key m @ client_write_master_salt m @ server_write_master_salt m
          = exporter_array x"
  using assms array_pieces exporter_array_length
  by (auto simp: export_srtp_keying_material_def Let_def make_error_def split: if_splits option.splits)

text \<open>
  Keys are verified against a fingerprint when they were exported from a finished handshake whose peer
  presented a certificate with that fingerprint.
\<close>

definition verified_keys :: "('e, 's, 'c) openssl \<Rightarrow> fingerprint_info \<Rightarrow> srtp_keying_material \<Rightarrow> bool" where
  "verified_keys api fp m \<longleftrightarrow>
     (\<exists>s. ssl_is_init_finished api s \<and> certificate_matches (x509_digest api) (ssl_peer_certificate api s) fp
        \<and> export_srtp_keying_material api s = Inr m)"

end
