(* ===== verification/Srtp_Session.thy ===== *)
theory Srtp_Session
  imports Dtls_Keying_Material
begin

text \<open>
  An SRTP session (\<^verbatim>\<open>src/srtp/srtp_session.cpp\<close>) around a handle of libsrtp. The library is the
  parameter \<open>lib\<close>: a handle is a value of type \<open>'k\<close>, and protecting or unprotecting a packet
  returns the status, the buffer it was given with its new contents, the new size and the handle anew. A
  session that was moved from has the null handle \<open>None\<close>.
\<close>

section \<open>libsrtp\<close>

datatype srtp_err_status =
  srtp_ok | srtp_fail | srtp_bad_param | srtp_alloc_fail | srtp_dealloc_fail | srtp_init_fail | srtp_terminus
  | srtp_auth_fail | srtp_cipher_fail | srtp_replay_fail | srtp_replay_old | srtp_algo_fail | srtp_no_such_op
  | srtp_no_ctx | srtp_cant_check | srtp_key_expired | srtp_socket_err | srtp_signal_err | srtp_nonce_bad
  | srtp_read_fail | srtp_write_fail | srtp_parse_err | srtp_encode_err | srtp_semaphore_err | srtp_pfkey_err
  | srtp_bad_mki | srtp_pkt_idx_old | srtp_pkt_idx_adv | srtp_other int

datatype srtp_direction = srtp_inbound | srtp_outbound

datatype srtp_ssrc_type = ssrc_any_inbound | ssrc_any_outbound

datatype srtp_crypto_policy = aes_cm_128_hmac_sha1_80 | aes_cm_128_hmac_sha1_32 | rtcp_default

record srtp_policy =
  ssrc_type :: srtp_ssrc_type
  rtp_policy :: srtp_crypto_policy
  rtcp_policy :: srtp_crypto_policy
  window_size :: nat
  allow_repeat_tx :: bool
  policy_key :: bytes

record 'k libsrtp =
  srtp_init :: srtp_err_status
  srtp_create :: "srtp_policy \<Rightarrow> srtp_err_status \<times> 'k"
  srtp_protect :: "'k \<Rightarrow> bytes \<Rightarrow> nat \<Rightarrow> srtp_err_status \<times> bytes \<times> int \<times> 'k"
  srtp_protect_rtcp :: "'k \<Rightarrow> bytes \<Rightarrow> nat \<Rightarrow> srtp_err_status \<times> bytes \<times> int \<times> 'k"
  srtp_unprotect :: "'k \<Rightarrow> bytes \<Rightarrow> nat \<Rightarrow> srtp_err_status \<times> bytes \<times> int \<times> 'k"
  srtp_unprotect_rtcp :: "'k \<Rightarrow> bytes \<Rightarrow> nat \<Rightarrow> srtp_err_status \<times> bytes \<times> int \<times> 'k"

type_synonym 'k srtp_session = "'k option"

section \<open>Making a session\<close>

definition srtp_error_to_string :: "srtp_err_status \<Rightarrow> string" where
  "srtp_error_to_string status =
     (case status of
        srtp_ok \<Rightarrow> ''ok'' | srtp_fail \<Rightarrow> ''fail'' | srtp_bad_param \<Rightarrow> ''bad_param'' | srtp_alloc_fail \<Rightarrow> ''alloc_fail''
      | srtp_dealloc_fail \<Rightarrow> ''dealloc_fail'' | srtp_init_fail \<Rightarrow> ''init_fail'' | srtp_terminus \<Rightarrow> ''terminus''
      | srtp_auth_fail \<Rightarrow> ''auth_fail'' | srtp_cipher_fail \<Rightarrow> ''cipher_fail'' | srtp_replay_fail \<Rightarrow> ''replay_fail''
      | srtp_replay_old \<Rightarrow> ''replay_old'' | srtp_algo_fail \<Rightarrow> ''algo_fail'' | srtp_no_such_op \<Rightarrow> ''no_such_op''
      | srtp_no_ctx \<Rightarrow> ''no_ctx'' | srtp_cant_check \<Rightarrow> ''cant_check'' | srtp_key_expired \<Rightarrow> ''key_expired''
      | srtp_socket_err \<Rightarrow> ''socket_err'' | srtp_signal_err \<Rightarrow> ''signal_err'' | srtp_nonce_bad \<Rightarrow> ''nonce_bad''
      | srtp_read_fail \<Rightarrow> ''read_fail'' | srtp_write_fail \<Rightarrow> ''write_fail'' | srtp_parse_err \<Rightarrow> ''parse_err''
      | srtp_encode_err \<Rightarrow> ''encode_err'' | srtp_semaphore_err \<Rightarrow> ''semaphore_err'' | srtp_pfkey_err \<Rightarrow> ''pfkey_err''
      | srtp_bad_mki \<Rightarrow> ''bad_mki'' | srtp_pkt_idx_old \<Rightarrow> ''pkt_idx_old'' | srtp_pkt_idx_adv \<Rightarrow> ''pkt_idx_adv''
      | srtp_other _ \<Rightarrow> ''unknown'')"

definition srtp_direction_to_string :: "srtp_direction \<Rightarrow> string" where
  "srtp_direction_to_string d = (case d of srtp_inbound \<Rightarrow> ''inbound'' | srtp_outbound \<Rightarrow> ''outbound'')"

definition validate_profile :: "srtp_profile_id \<Rightarrow> unit result" where
  "validate_profile profile_id = (if profile_id = unknown_profile then make_error ''srtp profile is unknown'' else Inr ())"

definition make_ssrc_type :: "srtp_direction \<Rightarrow> srtp_ssrc_type" where
  "make_ssrc_type d = (case d of srtp_inbound \<Rightarrow> ssrc_any_inbound | srtp_outbound \<Rightarrow> ssrc_any_outbound)"

definition set_crypto_policy :: "srtp_profile_id \<Rightarrow> srtp_policy \<Rightarrow> srtp_policy result" where
  "set_crypto_policy profile_id policy =
     (case profile_id of
        aes128_cm_sha1_80 \<Rightarrow> Inr (policy\<lparr>rtp_policy := aes_cm_128_hmac_sha1_80, rtcp_policy := rtcp_default\<rparr>)
      | aes128_cm_sha1_32 \<Rightarrow> Inr (policy\<lparr>rtp_policy := aes_cm_128_hmac_sha1_32, rtcp_policy := rtcp_default\<rparr>)
      | unknown_profile \<Rightarrow> make_error ''srtp profile is unknown'')"

definition make_master_key_and_salt :: "bytes \<Rightarrow> bytes \<Rightarrow> bytes" where
  "make_master_key_and_salt master_key master_salt = master_key @ master_salt"

definition initial_policy :: "srtp_direction \<Rightarrow> srtp_policy" where
  "initial_policy d =
     \<lparr>ssrc_type = make_ssrc_type d, rtp_policy = rtcp_default, rtcp_policy = rtcp_default, window_size = 1024,
      allow_repeat_tx = True, policy_key = []\<rparr>"

definition make_srtp_native_handle :: "'k libsrtp \<Rightarrow> srtp_direction \<Rightarrow> srtp_profile_id \<Rightarrow> bytes \<Rightarrow> bytes \<Rightarrow> 'k result" where
  "make_srtp_native_handle lib d profile_id master_key master_salt =
     (if srtp_init lib \<noteq> srtp_ok then make_error (''srtp init failed: '' @ srtp_error_to_string (srtp_init lib))
      else
        bindE (validate_profile profile_id) (\<lambda>_.
        bindE (set_crypto_policy profile_id (initial_policy d)) (\<lambda>policy.
        let (status, handle) = srtp_create lib (policy\<lparr>policy_key := make_master_key_and_salt master_key master_salt\<rparr>) in
        if status \<noteq> srtp_ok then make_error (''srtp create failed: '' @ srtp_error_to_string status)
        else Inr handle)))"

definition make_inbound_srtp_session :: "'k libsrtp \<Rightarrow> srtp_keying_material \<Rightarrow> 'k srtp_session result" where
  "make_inbound_srtp_session lib m =
     bindE (make_srtp_native_handle lib srtp_inbound (srtp_profile m) (client_write_master_key m) (client_write_master_salt m))
       (\<lambda>handle. Inr (Some handle))"

definition make_outbound_srtp_session :: "'k libsrtp \<Rightarrow> srtp_keying_material \<Rightarrow> 'k srtp_session result" where
  "make_outbound_srtp_session lib m =
     bindE (make_srtp_native_handle lib srtp_outbound (srtp_profile m) (server_write_master_key m) (server_write_master_salt m))
       (\<lambda>handle. Inr (Some handle))"

section \<open>Packets\<close>

definition validate_packet_buffer :: "bytes \<Rightarrow> nat \<Rightarrow> unit result" where
  "validate_packet_buffer buffer packet_size =
     (if buffer = [] then make_error ''srtp packet buffer is empty''
      else if packet_size = 0 then make_error ''srtp packet size is zero''
      else if packet_size > length buffer then make_error ''srtp packet size exceeds buffer size''
      else if packet_size > 2147483647 then make_error ''srtp packet size exceeds int range''
      else Inr ())"

definition protect_packet :: "'k libsrtp \<Rightarrow> bool \<Rightarrow> 'k srtp_session \<Rightarrow> bytes \<Rightarrow> nat \<Rightarrow> nat result \<times> bytes \<times> 'k srtp_session" where
  "protect_packet lib is_rtcp session buffer packet_size =
     (case session of
        None \<Rightarrow> (make_error ''srtp session is null'', buffer, session)
      | Some handle \<Rightarrow>
          (case validate_packet_buffer buffer packet_size of
             Inl e \<Rightarrow> (Inl e, buffer, session)
           | Inr _ \<Rightarrow>
               let (status, buffer, n, handle) =
                     (if is_rtcp then srtp_protect_rtcp lib handle buffer packet_size else srtp_protect lib handle buffer packet_size) in
               if status \<noteq> srtp_ok then
                 (make_error ((if is_rtcp then ''srtp protect rtcp failed: '' else ''srtp protect rtp failed: '') @ srtp_error_to_string status),
                  buffer, Some handle)
               else if n < 0 then (make_error ''srtp protected packet size is negative'', buffer, Some handle)
               else if nat n > length buffer then (make_error ''srtp protected packet exceeds buffer size'', buffer, Some handle)
               else (Inr (nat n), buffer, Some handle)))"

definition unprotect_packet :: "'k libsrtp \<Rightarrow> bool \<Rightarrow> 'k srtp_session \<Rightarrow> bytes \<Rightarrow> nat \<Rightarrow> nat result \<times> bytes \<times> 'k srtp_session" where
  "unprotect_packet lib is_rtcp session buffer packet_size =
     (case session of
        None \<Rightarrow> (make_error ''srtp session is null'', buffer, session)
      | Some handle \<Rightarrow>
          (case validate_packet_buffer buffer packet_size of
             Inl e \<Rightarrow> (Inl e, buffer, session)
           | Inr _ \<Rightarrow>
               let (status, buffer, n, handle) =
                     (if is_rtcp then srtp_unprotect_rtcp lib handle buffer packet_size else srtp_unprotect lib handle buffer packet_size) in
               if status \<noteq> srtp_ok then
                 (make_error ((if is_rtcp then ''srtp unprotect rtcp failed: '' else ''srtp unprotect rtp failed: '') @ srtp_error_to_string status),
                  buffer, Some handle)
               else if n < 0 then (make_error ''srtp unprotected packet size is negative'', buffer, Some handle)
               else (Inr (nat n), buffer, Some handle)))"

definition contains_text :: "string \<Rightarrow> string \<Rightarrow> bool" where
  "contains_text text part \<longleftrightarrow> list_ex (\<lambda>i. take (length part) (drop i text) = part) [0..<length text + 1]"

definition is_srtp_replay_error :: "string \<Rightarrow> bool" where
  "is_srtp_replay_error e \<longleftrightarrow> contains_text e ''replay_fail'' \<or> contains_text e ''replay_old''"

section \<open>Properties of sessions\<close>

text \<open>
  A session of a direction and of keys: made with the half of the keying material that belongs to the
  direction, and then only used.
\<close>

inductive session_of :: "'k libsrtp \<Rightarrow> srtp_direction \<Rightarrow> srtp_keying_material \<Rightarrow> 'k srtp_session \<Rightarrow> bool" for lib where
  inbound: "make_inbound_srtp_session lib m = Inr session \<Longrightarrow> session_of lib srtp_inbound m session"
| outbound: "make_outbound_srtp_session lib m = Inr session \<Longrightarrow> session_of lib srtp_outbound m session"
| protect: "session_of lib d m session \<Longrightarrow> protect_packet lib is_rtcp session buffer n = (r, buffer', session') \<Longrightarrow> session_of lib d m session'"
| unprotect: "session_of lib d m session \<Longrightarrow> unprotect_packet lib is_rtcp session buffer n = (r, buffer', session') \<Longrightarrow> session_of lib d m session'"

lemma packets_safe:
  "protect_packet lib is_rtcp session buffer n = (r, buffer', session') \<Longrightarrow> fault_free r"
  "unprotect_packet lib is_rtcp session buffer n = (r, buffer', session') \<Longrightarrow> fault_free r"
  by (auto simp: protect_packet_def unprotect_packet_def validate_packet_buffer_def make_error_def fault_free_def Let_def
      split: option.splits if_splits prod.splits)

lemma session_makers_safe:
  "fault_free (make_inbound_srtp_session lib m)" "fault_free (make_outbound_srtp_session lib m)"
  by (auto simp: make_inbound_srtp_session_def make_outbound_srtp_session_def make_srtp_native_handle_def validate_profile_def
      set_crypto_policy_def fault_free_def make_error_def Let_def bindE_oob_iff split: if_splits srtp_profile_id.splits prod.splits)

end
