(* ===== verification/Dtls_Transport.thy ===== *)
theory Dtls_Transport
  imports Dtls_Keying_Material Dtls_Packet
begin

text \<open>
  The DTLS transport of a session (\<^verbatim>\<open>src/dtls/dtls_transport.cpp\<close>): one association per remote endpoint,
  its handshake, the check of the peer's certificate and the SRTP keys. The transport never trusts an
  endpoint by itself; it is told which identity to expect there (\<open>remember_peer\<close>, \<open>rebind_peer\<close>).

  OpenSSL is the parameter \<open>api\<close>. Draining the outgoing BIO ends only if reading takes datagrams out of it, so
  the loop is partial and \<open>None\<close> means that it does not return. A null check on a handle that the caller has just
  tested is left out, and so is \<^verbatim>\<open>handshake_started_at\<close>, which is only logged.
\<close>

section \<open>State\<close>

datatype dtls_peer_role = peer_unknown | peer_publisher | peer_subscriber

record dtls_peer_identity =
  peer_role :: dtls_peer_role
  peer_session_id :: string
  peer_stream_id :: string
  peer_local_ufrag :: string
  peer_remote_ufrag :: string
  peer_fingerprint :: fingerprint_info

datatype dtls_network_family = family_unknown | family_ipv4 | family_ipv6

abbreviation (input) k_min_dtls_ip_mtu :: nat where "k_min_dtls_ip_mtu \<equiv> 576"
abbreviation (input) k_max_dtls_ip_mtu :: nat where "k_max_dtls_ip_mtu \<equiv> 9000"
abbreviation (input) k_default_dtls_ip_mtu :: nat where "k_default_dtls_ip_mtu \<equiv> 1200"
abbreviation (input) k_ipv4_udp_overhead :: nat where "k_ipv4_udp_overhead \<equiv> 28"
abbreviation (input) k_ipv6_udp_overhead :: nat where "k_ipv6_udp_overhead \<equiv> 48"

record 's dtls_peer_state =
  identity :: dtls_peer_identity
  packet_count :: u64
  byte_count :: u64
  network_family :: dtls_network_family
  udp_payload_mtu :: nat
  handshake_error :: string
  ssl :: "'s option"
  keying_material :: "srtp_keying_material option"

record 's dtls_transport =
  ip_mtu :: nat
  dtls_peers :: "string \<rightharpoonup> 's dtls_peer_state"

definition make_dtls_transport :: "u16 \<Rightarrow> 's dtls_transport" where
  "make_dtls_transport mtu =
     \<lparr>ip_mtu = (if unat mtu < k_min_dtls_ip_mtu \<or> unat mtu > k_max_dtls_ip_mtu then k_default_dtls_ip_mtu else unat mtu),
      dtls_peers = Map.empty\<rparr>"

definition new_dtls_peer :: "dtls_peer_identity \<Rightarrow> 's dtls_peer_state" where
  "new_dtls_peer i =
     \<lparr>identity = i, packet_count = 0, byte_count = 0, network_family = family_unknown, udp_payload_mtu = 0,
      handshake_error = [], ssl = None, keying_material = None\<rparr>"

definition fingerprints_equal :: "fingerprint_info \<Rightarrow> fingerprint_info \<Rightarrow> bool" where
  "fingerprints_equal a b \<longleftrightarrow> fingerprint_algorithm a = fingerprint_algorithm b \<and> fingerprint_value a = fingerprint_value b"

definition identities_equal :: "dtls_peer_identity \<Rightarrow> dtls_peer_identity \<Rightarrow> bool" where
  "identities_equal a b \<longleftrightarrow> peer_role a = peer_role b \<and> peer_session_id a = peer_session_id b
     \<and> peer_stream_id a = peer_stream_id b \<and> peer_local_ufrag a = peer_local_ufrag b
     \<and> peer_remote_ufrag a = peer_remote_ufrag b \<and> fingerprints_equal (peer_fingerprint a) (peer_fingerprint b)"

definition same_dtls_association :: "dtls_peer_identity \<Rightarrow> dtls_peer_identity \<Rightarrow> bool" where
  "same_dtls_association a b \<longleftrightarrow> peer_role a = peer_role b \<and> peer_session_id a = peer_session_id b
     \<and> peer_stream_id a = peer_stream_id b \<and> fingerprints_equal (peer_fingerprint a) (peer_fingerprint b)"

definition same_srtp_generation :: "dtls_peer_identity \<Rightarrow> dtls_peer_identity \<Rightarrow> bool" where
  "same_srtp_generation a b \<longleftrightarrow> peer_session_id a = peer_session_id b \<and> peer_stream_id a = peer_stream_id b
     \<and> peer_local_ufrag a = peer_local_ufrag b \<and> peer_remote_ufrag a = peer_remote_ufrag b"

definition validate_dtls_peer_identity :: "dtls_peer_identity \<Rightarrow> unit result" where
  "validate_dtls_peer_identity i =
     (if peer_role i = peer_unknown then make_error ''dtls peer role is unknown''
      else if peer_session_id i = [] then make_error ''dtls peer session id is empty''
      else if peer_stream_id i = [] then make_error ''dtls peer stream id is empty''
      else if peer_local_ufrag i = [] then make_error ''dtls peer local ice ufrag is empty''
      else if peer_remote_ufrag i = [] then make_error ''dtls peer remote ice ufrag is empty''
      else if fingerprint_algorithm (peer_fingerprint i) = [] then make_error ''remote dtls fingerprint algorithm is empty''
      else if fingerprint_value (peer_fingerprint i) = [] then make_error ''remote dtls fingerprint value is empty''
      else Inr ())"

definition dtls_network_family_to_string :: "dtls_network_family \<Rightarrow> string" where
  "dtls_network_family_to_string f =
     (case f of family_ipv4 \<Rightarrow> ''ipv4'' | family_ipv6 \<Rightarrow> ''ipv6'' | family_unknown \<Rightarrow> ''unknown'')"

definition make_dtls_udp_payload_mtu :: "nat \<Rightarrow> dtls_network_family \<Rightarrow> nat result" where
  "make_dtls_udp_payload_mtu mtu family =
     bindE (case family of
              family_ipv4 \<Rightarrow> Inr k_ipv4_udp_overhead
            | family_ipv6 \<Rightarrow> Inr k_ipv6_udp_overhead
            | family_unknown \<Rightarrow> make_error ''dtls network family is unknown'') (\<lambda>overhead.
     if mtu \<le> overhead then
       make_error (''dtls ip mtu is too small for network headers ip_mtu='' @ decimal mtu @ '' overhead='' @ decimal overhead)
     else Inr (mtu - overhead))"

section \<open>OpenSSL calls\<close>

definition ssl_error_text :: "('e, 's, 'c) openssl \<Rightarrow> 's \<Rightarrow> ssl_status \<Rightarrow> string \<Rightarrow> string" where
  "ssl_error_text api s status prefix =
     (case status of
        ssl_error_want_read \<Rightarrow> ''want_read''
      | ssl_error_want_write \<Rightarrow> ''want_write''
      | _ \<Rightarrow>
          (case err_get_error api s of
             None \<Rightarrow> prefix @ '': ssl_error='' @
               (case status of ssl_error_other n \<Rightarrow> int_to_string n | ssl_error_zero_return \<Rightarrow> ''6'' | _ \<Rightarrow> ''0'')
           | Some e \<Rightarrow> prefix @ '': '' @ e))"

definition configure_datagram_bio_mtu :: "('e, 's, 'c) openssl \<Rightarrow> 's \<Rightarrow> nat \<Rightarrow> string \<Rightarrow> unit result \<times> 's" where
  "configure_datagram_bio_mtu api s mtu bio_name =
     (let (set_ok, s) = wbio_set_mtu api s mtu in
      if \<not> set_ok then
        (make_error (make_openssl_error (err_get_error api s) (''dtls '' @ bio_name @ '' datagram bio set mtu failed'')), s)
      else if wbio_get_mtu api s \<noteq> mtu then
        (make_error (''dtls '' @ bio_name @ '' datagram bio mtu mismatch requested='' @ decimal mtu
           @ '' configured='' @ decimal (wbio_get_mtu api s)), s)
      else (Inr (), s))"

definition make_ssl :: "('e, 's, 'c) openssl \<Rightarrow> 'e \<Rightarrow> nat \<Rightarrow> 's result" where
  "make_ssl api env mtu =
     (if \<not> has_context api then make_error ''dtls context is null''
      else if mtu = 0 then make_error ''dtls udp payload mtu is zero''
      else case ssl_new api env of
        None \<Rightarrow> make_error ''dtls ssl create failed''
      | Some s \<Rightarrow>
          if \<not> read_bio_new api env then make_error ''dtls read datagram bio create failed''
          else if \<not> write_bio_new api env then make_error ''dtls write datagram bio create failed''
          else
            let (configured, s) = configure_datagram_bio_mtu api s mtu ''write'' in
            bindE configured (\<lambda>_.
            let s = ssl_attach api s; (set_ok, s) = ssl_set_mtu api s mtu in
            if \<not> set_ok then make_error (make_openssl_error (err_get_error api s) ''dtls set udp payload mtu failed'')
            else if wbio_get_mtu api s \<noteq> mtu then
              make_error (''dtls write datagram bio mtu changed after ssl ownership transfer requested='' @ decimal mtu
                @ '' configured='' @ decimal (wbio_get_mtu api s))
            else Inr s))"

definition write_packet_to_ssl :: "('e, 's, 'c) openssl \<Rightarrow> 's \<Rightarrow> bytes \<Rightarrow> unit result \<times> 's" where
  "write_packet_to_ssl api s data =
     (if data = [] then (Inr (), s)
      else case rbio_write api s data of
        (None, s) \<Rightarrow> (make_error ''dtls write datagram to read bio failed'', s)
      | (Some written, s) \<Rightarrow>
          if written \<noteq> length data then (make_error ''dtls write datagram to read bio incomplete'', s) else (Inr (), s))"

definition exceeds_error :: "string \<Rightarrow> nat \<Rightarrow> nat \<Rightarrow> nat \<Rightarrow> 'a result" where
  "exceeds_error prefix n payload_mtu mtu =
     make_error (prefix @ decimal n @ '' udp_payload_mtu='' @ decimal payload_mtu @ '' ip_mtu='' @ decimal mtu)"

partial_function (option) drain_ssl_write_bio ::
  "('e, 's, 'c) openssl \<Rightarrow> nat \<Rightarrow> nat \<Rightarrow> 's \<Rightarrow> bytes list \<Rightarrow> (bytes list result \<times> 's) option" where
  "drain_ssl_write_bio api mtu payload_mtu s packets =
     (let pending = wbio_pending api s in
      if pending = 0 then Some (Inr packets, s)
      else if pending > payload_mtu then
        Some (exceeds_error ''dtls output datagram exceeds configured ip mtu datagram_size='' pending payload_mtu mtu, s)
      else
        (let (r, s) = wbio_read api s pending in
         case r of
           None \<Rightarrow> Some (make_error ''dtls read datagram from write bio failed'', s)
         | Some packet \<Rightarrow>
             if length packet \<noteq> pending then Some (make_error ''dtls read datagram from write bio incomplete'', s)
             else if length packet > payload_mtu then
               Some (exceeds_error ''dtls output datagram exceeds configured ip mtu after read datagram_size='' (length packet) payload_mtu mtu, s)
             else drain_ssl_write_bio api mtu payload_mtu s (packets @ [packet])))"

definition run_dtls_handshake ::
  "('e, 's, 'c) openssl \<Rightarrow> 'e \<Rightarrow> nat \<Rightarrow> nat \<Rightarrow> 's \<Rightarrow> bytes list \<Rightarrow> (bytes list result \<times> 's) option" where
  "run_dtls_handshake api env mtu payload_mtu s packets =
     (if ssl_is_init_finished api s then Some (Inr packets, s)
      else
        let (status, s) = ssl_do_handshake api env s;
            progress = status = ssl_error_none \<or> status = ssl_error_want_read \<or> status = ssl_error_want_write;
            fatal_error = ssl_error_text api s status ''dtls handshake failed'' in
        case drain_ssl_write_bio api mtu payload_mtu s packets of
          None \<Rightarrow> None
        | Some (Inl e, s) \<Rightarrow> Some (Inl e, s)
        | Some (Inr packets, s) \<Rightarrow> if progress then Some (Inr packets, s) else Some (make_error fatal_error, s))"

fun consume_loop ::
  "('e, 's, 'c) openssl \<Rightarrow> nat \<Rightarrow> nat \<Rightarrow> nat \<Rightarrow> 's \<Rightarrow> bytes list \<Rightarrow> (bytes list result \<times> bool \<times> 's) option" where
  "consume_loop api mtu payload_mtu 0 s packets = Some (Inr packets, False, s)"
| "consume_loop api mtu payload_mtu (Suc loops) s packets =
     (let (status, s) = ssl_read api s;
          fatal_error = ssl_error_text api s status ''dtls read failed'' in
      case drain_ssl_write_bio api mtu payload_mtu s packets of
        None \<Rightarrow> None
      | Some (Inl e, s) \<Rightarrow> Some (Inl e, False, s)
      | Some (Inr packets, s) \<Rightarrow>
          if status = ssl_error_none then consume_loop api mtu payload_mtu loops s packets
          else if status = ssl_error_zero_return then Some (Inr packets, True, s)
          else if ssl_received_shutdown api s then Some (Inr packets, True, s)
          else if status = ssl_error_want_read \<or> status = ssl_error_want_write then Some (Inr packets, False, s)
          else Some (make_error fatal_error, False, s))"

definition consume_dtls_application_data_and_alerts ::
  "('e, 's, 'c) openssl \<Rightarrow> nat \<Rightarrow> nat \<Rightarrow> 's \<Rightarrow> bytes list \<Rightarrow> (bytes list result \<times> bool \<times> 's) option" where
  "consume_dtls_application_data_and_alerts api mtu payload_mtu s packets = consume_loop api mtu payload_mtu 8 s packets"

declare drain_ssl_write_bio.simps [code]

section \<open>Peers\<close>

definition remember_peer :: "string \<Rightarrow> dtls_peer_identity \<Rightarrow> 's dtls_transport \<Rightarrow> 's dtls_transport" where
  "remember_peer remote i t =
     (if remote = [] then t
      else case dtls_peers t remote of
        Some existing \<Rightarrow>
          if identities_equal (identity existing) i then t
          else if \<not> ok (validate_dtls_peer_identity i) then t\<lparr>dtls_peers := (dtls_peers t)(remote := None)\<rparr>
          else t\<lparr>dtls_peers := (dtls_peers t)(remote \<mapsto> new_dtls_peer i)\<rparr>
      | None \<Rightarrow>
          if \<not> ok (validate_dtls_peer_identity i) then t\<lparr>dtls_peers := (dtls_peers t)(remote := None)\<rparr>
          else t\<lparr>dtls_peers := (dtls_peers t)(remote \<mapsto> new_dtls_peer i)\<rparr>)"

definition forget_peer :: "string \<Rightarrow> 's dtls_transport \<Rightarrow> 's dtls_transport" where
  "forget_peer remote t = (if remote = [] then t else t\<lparr>dtls_peers := (dtls_peers t)(remote := None)\<rparr>)"

definition rebind_peer ::
  "('e, 's, 'c) openssl \<Rightarrow> string \<Rightarrow> string \<Rightarrow> dtls_peer_identity \<Rightarrow> dtls_network_family \<Rightarrow> 's dtls_transport \<Rightarrow> bool result \<times> 's dtls_transport" where
  "rebind_peer api previous_remote next_remote i family t =
     (if previous_remote = [] \<or> next_remote = [] then (make_error ''dtls peer rebind endpoint is empty'', t)
      else case validate_dtls_peer_identity i of
        Inl e \<Rightarrow> (Inl e, t)
      | Inr _ \<Rightarrow>
      case make_dtls_udp_payload_mtu (ip_mtu t) family of
        Inl e \<Rightarrow> (Inl e, t)
      | Inr mtu \<Rightarrow>
      case dtls_peers t previous_remote of
        None \<Rightarrow> (Inr False, t)
      | Some previous \<Rightarrow>
          if \<not> same_dtls_association (identity previous) i then (make_error ''dtls peer rebind identity changed outside ice credentials'', t)
          else case (ssl previous, keying_material previous) of
            (Some s, Some _) \<Rightarrow>
              if previous_remote \<noteq> next_remote \<and> dtls_peers t next_remote \<noteq> None
              then (make_error ''dtls peer rebind destination already exists'', t)
              else
                let (configured, s) = configure_datagram_bio_mtu api s mtu ''write'';
                    store = (\<lambda>s. t\<lparr>dtls_peers := (dtls_peers t)(previous_remote \<mapsto> previous\<lparr>ssl := Some s\<rparr>)\<rparr>) in
                (case configured of
                   Inl e \<Rightarrow> (Inl e, store s)
                 | Inr _ \<Rightarrow>
                     let (set_ok, s) = ssl_set_mtu api s mtu in
                     if \<not> set_ok then
                       let e = make_openssl_error (err_get_error api s) ''dtls peer rebind set udp payload mtu failed'';
                           s = snd (configure_datagram_bio_mtu api s (udp_payload_mtu previous) ''write'');
                           s = snd (ssl_set_mtu api s (udp_payload_mtu previous)) in
                       (make_error e, store s)
                     else
                       let moved = previous\<lparr>identity := i, network_family := family, udp_payload_mtu := mtu, ssl := Some s\<rparr> in
                       (Inr True, t\<lparr>dtls_peers := (dtls_peers t)(previous_remote := None, next_remote \<mapsto> moved)\<rparr>))
          | _ \<Rightarrow> (Inr False, t))"

definition mark_handshake_failed :: "string \<Rightarrow> 's dtls_peer_state \<Rightarrow> 's dtls_peer_state" where
  "mark_handshake_failed e p =
     p\<lparr>handshake_error := (if e = [] then ''dtls peer handshake previously failed'' else e),
       keying_material := None, ssl := None\<rparr>"

definition verify_remote_certificate :: "('e, 's, 'c) openssl \<Rightarrow> 's dtls_peer_state \<Rightarrow> unit result" where
  "verify_remote_certificate api p =
     (case ssl p of
        None \<Rightarrow> make_error ''dtls ssl is null''
      | Some s \<Rightarrow>
          (case ssl_peer_certificate api s of
             None \<Rightarrow> make_error ''remote dtls certificate is missing''
           | Some cert \<Rightarrow>
               bindE (verify_certificate_fingerprint (x509_digest api) (err_get_error api s) (Some cert) (peer_fingerprint (identity p)))
                 (\<lambda>_. Inr ())))"

text \<open>An error of a step that fails the handshake: the text is kept and given to every later packet.\<close>

definition fail_with :: "fault \<Rightarrow> 's dtls_peer_state \<Rightarrow> 'a result \<times> 's dtls_peer_state" where
  "fail_with e p = (Inl e, mark_handshake_failed (case e of Msg m \<Rightarrow> m | OutOfBounds \<Rightarrow> []) p)"

definition complete_handshake_if_ready :: "('e, 's, 'c) openssl \<Rightarrow> 's dtls_peer_state \<Rightarrow> unit result \<times> 's dtls_peer_state" where
  "complete_handshake_if_ready api p =
     (case ssl p of
        None \<Rightarrow> (Inr (), p)
      | Some s \<Rightarrow>
          if keying_material p \<noteq> None then (Inr (), p)
          else if \<not> ssl_is_init_finished api s then (Inr (), p)
          else case verify_remote_certificate api p of
            Inl e \<Rightarrow> fail_with e p
          | Inr _ \<Rightarrow>
              (case export_srtp_keying_material api s of
                 Inl e \<Rightarrow> fail_with e p
               | Inr material \<Rightarrow> (Inr (), p\<lparr>keying_material := Some material\<rparr>)))"


section \<open>Datagrams\<close>

definition start_association ::
  "('e, 's, 'c) openssl \<Rightarrow> 'e \<Rightarrow> nat \<Rightarrow> dtls_network_family \<Rightarrow> 's dtls_peer_state \<Rightarrow> unit result \<times> 's dtls_peer_state" where
  "start_association api env mtu family p =
     (if ssl p \<noteq> None then (Inr (), p)
      else case make_dtls_udp_payload_mtu mtu family of
        Inl e \<Rightarrow> fail_with e p
      | Inr payload_mtu \<Rightarrow>
          let p = p\<lparr>network_family := family, udp_payload_mtu := payload_mtu\<rparr> in
          (case make_ssl api env payload_mtu of
             Inl e \<Rightarrow> fail_with e p
           | Inr s \<Rightarrow> (Inr (), p\<lparr>ssl := Some s\<rparr>)))"

definition process_record ::
  "('e, 's, 'c) openssl \<Rightarrow> 'e \<Rightarrow> nat \<Rightarrow> bytes \<Rightarrow> 's \<Rightarrow> 's dtls_peer_state \<Rightarrow> (bytes list result \<times> 's dtls_peer_state) option" where
  "process_record api env mtu data s p =
     (case write_packet_to_ssl api s data of
        (Inl e, s) \<Rightarrow> Some (fail_with e p)
      | (Inr _, s) \<Rightarrow>
          (case run_dtls_handshake api env mtu (udp_payload_mtu p) s [] of
             None \<Rightarrow> None
           | Some (Inl e, s) \<Rightarrow> Some (fail_with e p)
           | Some (Inr packets, s) \<Rightarrow>
               let (completed, p) = complete_handshake_if_ready api (p\<lparr>ssl := Some s\<rparr>) in
               case completed of
                 Inl e \<Rightarrow> Some (Inl e, p)
               | Inr _ \<Rightarrow>
                   if keying_material p = None then Some (Inr packets, p)
                   else
                     (case consume_dtls_application_data_and_alerts api mtu (udp_payload_mtu p) s packets of
                        None \<Rightarrow> None
                      | Some (r, received_close_notify, s) \<Rightarrow> Some (r, p\<lparr>ssl := Some s\<rparr>))))"

definition handle_peer_packet ::
  "('e, 's, 'c) openssl \<Rightarrow> 'e \<Rightarrow> nat \<Rightarrow> bytes \<Rightarrow> dtls_network_family \<Rightarrow> 's dtls_peer_state \<Rightarrow> (bytes list result \<times> 's dtls_peer_state) option" where
  "handle_peer_packet api env mtu data family p =
     (if handshake_error p \<noteq> [] then Some (make_error (handshake_error p), p)
      else
        let p = p\<lparr>packet_count := packet_count p + 1, byte_count := byte_count p + of_nat (length data)\<rparr> in
        if network_family p \<noteq> family_unknown \<and> network_family p \<noteq> family then
          Some (fail_with (Msg (''dtls peer network family changed old='' @ dtls_network_family_to_string (network_family p)
                  @ '' new='' @ dtls_network_family_to_string family)) p)
        else
          case start_association api env mtu family p of
            (Inl e, p) \<Rightarrow> Some (Inl e, p)
          | (Inr _, p) \<Rightarrow>
              (case ssl p of
                 None \<Rightarrow> Some (make_error ''dtls ssl is null'', p)
               | Some s \<Rightarrow> process_record api env mtu data s p))"

definition dtls_handle_udp_packet ::
  "('e, 's, 'c) openssl \<Rightarrow> 'e \<Rightarrow> bytes \<Rightarrow> string \<Rightarrow> dtls_network_family \<Rightarrow> 's dtls_transport \<Rightarrow> (bytes list result \<times> 's dtls_transport) option" where
  "dtls_handle_udp_packet api env data remote family t =
     (case parse_dtls_record_header data of
        Inl _ \<Rightarrow> Some (Inr [], t)
      | Inr header \<Rightarrow>
          (case dtls_peers t remote of
             None \<Rightarrow> Some (Inr [], t)
           | Some p \<Rightarrow>
               (case handle_peer_packet api env (ip_mtu t) data family p of
                  None \<Rightarrow> None
                | Some (r, p) \<Rightarrow> Some (r, t\<lparr>dtls_peers := (dtls_peers t)(remote \<mapsto> p)\<rparr>))))"

definition get_srtp_keying_material :: "string \<Rightarrow> dtls_peer_identity \<Rightarrow> 's dtls_transport \<Rightarrow> srtp_keying_material option" where
  "get_srtp_keying_material remote expected t =
     (case dtls_peers t remote of
        None \<Rightarrow> None
      | Some p \<Rightarrow> if \<not> same_srtp_generation (identity p) expected then None else keying_material p)"

definition get_peer_identity :: "string \<Rightarrow> 's dtls_transport \<Rightarrow> dtls_peer_identity option" where
  "get_peer_identity remote t = map_option identity (dtls_peers t remote)"

section \<open>What every association satisfies\<close>

definition dtls_peer_ok :: "('e, 's, 'c) openssl \<Rightarrow> dtls_peer_identity set \<Rightarrow> nat \<Rightarrow> 's dtls_peer_state \<Rightarrow> bool" where
  "dtls_peer_ok api allowed mtu p \<longleftrightarrow>
     identity p \<in> allowed \<and> validate_dtls_peer_identity (identity p) = Inr ()
     \<and> (\<forall>m. keying_material p = Some m \<longrightarrow> ssl p \<noteq> None \<and> verified_keys api (peer_fingerprint (identity p)) m)
     \<and> (handshake_error p \<noteq> [] \<longrightarrow> ssl p = None)
     \<and> (ssl p \<noteq> None \<longrightarrow> make_dtls_udp_payload_mtu mtu (network_family p) = Inr (udp_payload_mtu p))"

definition dtls_inv :: "('e, 's, 'c) openssl \<Rightarrow> dtls_peer_identity set \<Rightarrow> 's dtls_transport \<Rightarrow> bool" where
  "dtls_inv api allowed t \<longleftrightarrow>
     k_min_dtls_ip_mtu \<le> ip_mtu t \<and> ip_mtu t \<le> k_max_dtls_ip_mtu
     \<and> (\<forall>remote p. dtls_peers t remote = Some p \<longrightarrow> dtls_peer_ok api allowed (ip_mtu t) p)"

inductive dtls_reachable :: "('e, 's, 'c) openssl \<Rightarrow> dtls_peer_identity set \<Rightarrow> 's dtls_transport \<Rightarrow> bool"
  for api allowed where
  start: "dtls_reachable api allowed (make_dtls_transport mtu)"
| remember: "dtls_reachable api allowed t \<Longrightarrow> i \<in> allowed \<Longrightarrow> dtls_reachable api allowed (remember_peer remote i t)"
| forget: "dtls_reachable api allowed t \<Longrightarrow> dtls_reachable api allowed (forget_peer remote t)"
| rebind: "dtls_reachable api allowed t \<Longrightarrow> i \<in> allowed \<Longrightarrow> rebind_peer api a b i family t = (r, t') \<Longrightarrow> dtls_reachable api allowed t'"
| datagram: "dtls_reachable api allowed t \<Longrightarrow> dtls_handle_udp_packet api env data remote family t = Some (r, t') \<Longrightarrow> dtls_reachable api allowed t'"

lemma make_dtls_transport_inv: "dtls_inv api allowed (make_dtls_transport mtu)"
  by (auto simp: dtls_inv_def make_dtls_transport_def)

lemma dtls_inv_update:
  "dtls_inv api allowed t \<Longrightarrow> (\<And>p. v = Some p \<Longrightarrow> dtls_peer_ok api allowed (ip_mtu t) p)
     \<Longrightarrow> dtls_inv api allowed (t\<lparr>dtls_peers := (dtls_peers t)(remote := v)\<rparr>)"
  by (auto simp: dtls_inv_def)

lemma new_dtls_peer_ok:
  "i \<in> allowed \<Longrightarrow> validate_dtls_peer_identity i = Inr () \<Longrightarrow> dtls_peer_ok api allowed mtu (new_dtls_peer i)"
  by (simp add: dtls_peer_ok_def new_dtls_peer_def)

lemma remember_peer_inv:
  assumes "dtls_inv api allowed t" "i \<in> allowed"
  shows "dtls_inv api allowed (remember_peer remote i t)"
  using assms
  by (auto simp: remember_peer_def ok_iff intro!: dtls_inv_update new_dtls_peer_ok split: option.split)

lemma forget_peer_inv: "dtls_inv api allowed t \<Longrightarrow> dtls_inv api allowed (forget_peer remote t)"
  by (auto simp: forget_peer_def intro!: dtls_inv_update)

lemma same_association_fingerprint: "same_dtls_association a b \<Longrightarrow> peer_fingerprint a = peer_fingerprint b"
  by (simp add: same_dtls_association_def fingerprints_equal_def)

lemma rebind_peer_cases:
  assumes "rebind_peer api a b i family t = (r, t')"
  obtains (same) "t' = t" "r \<noteq> Inr True"
  | (refused) p s s' where "dtls_peers t a = Some p" "ssl p = Some s" "r \<noteq> Inr True"
      "t' = t\<lparr>dtls_peers := (dtls_peers t)(a \<mapsto> p\<lparr>ssl := Some s'\<rparr>)\<rparr>"
  | (moved) p s m s' mtu where "dtls_peers t a = Some p" "ssl p = Some s" "keying_material p = Some m" "r = Inr True"
      "same_dtls_association (identity p) i" "validate_dtls_peer_identity i = Inr ()"
      "make_dtls_udp_payload_mtu (ip_mtu t) family = Inr mtu" "a = b \<or> dtls_peers t b = None"
      "t' = t\<lparr>dtls_peers := (dtls_peers t)(a := None, b \<mapsto> p\<lparr>identity := i, network_family := family, udp_payload_mtu := mtu, ssl := Some s'\<rparr>)\<rparr>"
proof -
  show thesis
  proof (cases "a = [] \<or> b = [] \<or> (\<forall>u. validate_dtls_peer_identity i \<noteq> Inr u) \<or> (\<forall>mtu. make_dtls_udp_payload_mtu (ip_mtu t) family \<noteq> Inr mtu)
      \<or> dtls_peers t a = None")
    case True
    then show thesis
      using assms by (intro same) (auto simp: rebind_peer_def make_error_def split: sum.splits option.splits if_splits)
  next
    case False
    then obtain p mtu where p: "dtls_peers t a = Some p" "make_dtls_udp_payload_mtu (ip_mtu t) family = Inr mtu"
      "validate_dtls_peer_identity i = Inr ()" "a \<noteq> []" "b \<noteq> []" by auto
    show thesis
    proof (cases "same_dtls_association (identity p) i \<and> ssl p \<noteq> None \<and> keying_material p \<noteq> None \<and> (a = b \<or> dtls_peers t b = None)")
      case False
      then show thesis
        using assms p by (intro same) (auto simp: rebind_peer_def make_error_def split: option.splits if_splits)
    next
      case True
      then obtain s m where s: "ssl p = Some s" "keying_material p = Some m" by blast
      obtain configured s1 where c: "configure_datagram_bio_mtu api s mtu ''write'' = (configured, s1)" by (meson surj_pair)
      obtain set_ok s2 where m: "ssl_set_mtu api s1 mtu = (set_ok, s2)" by (meson surj_pair)
      show thesis
      proof (cases "ok configured \<and> set_ok")
        case False
        then have "r \<noteq> Inr True \<and> (\<exists>s'. t' = t\<lparr>dtls_peers := (dtls_peers t)(a \<mapsto> p\<lparr>ssl := Some s'\<rparr>)\<rparr>)"
          using assms p s True c m
          by (cases configured) (auto simp: rebind_peer_def make_error_def Let_def split: if_splits)
        then show thesis using refused p(1) s(1) by blast
      next
        case ok: True
        then obtain u where u: "configured = Inr u" by (cases configured) auto
        have "r = Inr True \<and> t' = t\<lparr>dtls_peers := (dtls_peers t)(a := None, b \<mapsto> p\<lparr>identity := i, network_family := family, udp_payload_mtu := mtu, ssl := Some s2\<rparr>)\<rparr>"
          using assms p s True c m ok u by (auto simp: rebind_peer_def Let_def)
        then show thesis using moved [OF p(1) s] True p by blast
      qed
    qed
  qed
qed

lemma rebind_peer_inv:
  assumes "dtls_inv api allowed t" "i \<in> allowed" "rebind_peer api a b i family t = (r, t')"
  shows "dtls_inv api allowed t'"
  using assms(3)
proof (cases rule: rebind_peer_cases)
  case same
  then show ?thesis using assms(1) by simp
next
  case (refused p s s')
  then have "dtls_peer_ok api allowed (ip_mtu t) p" using assms(1) by (auto simp: dtls_inv_def)
  then show ?thesis using refused assms(1)
    by (auto simp: dtls_peer_ok_def intro!: dtls_inv_update)
next
  case (moved p s m s' mtu)
  then have "dtls_peer_ok api allowed (ip_mtu t) p" using assms(1) by (auto simp: dtls_inv_def)
  then have "dtls_peer_ok api allowed (ip_mtu t) (p\<lparr>identity := i, network_family := family, udp_payload_mtu := mtu, ssl := Some s'\<rparr>)"
    using moved assms(2) same_association_fingerprint [OF moved(5)] by (auto simp: dtls_peer_ok_def)
  then show ?thesis using moved assms(1)
    by (auto simp: dtls_inv_def)
qed

lemma dtls_peer_ok_failed: "dtls_peer_ok api allowed mtu p \<Longrightarrow> dtls_peer_ok api allowed mtu (mark_handshake_failed e p)"
  by (simp add: dtls_peer_ok_def mark_handshake_failed_def)

lemma fail_with_snd: "snd (fail_with e p) = mark_handshake_failed (case e of Msg m \<Rightarrow> m | OutOfBounds \<Rightarrow> []) p"
  "fst (fail_with e p) = Inl e"
  by (simp_all add: fail_with_def)

lemma start_association_ok:
  assumes "dtls_peer_ok api allowed mtu p" "handshake_error p = []" "start_association api env mtu family p = (r, p')"
  shows "dtls_peer_ok api allowed mtu p'" and "r = Inr u \<Longrightarrow> ssl p' \<noteq> None \<and> handshake_error p' = []"
  using assms
  by (auto simp: start_association_def dtls_peer_ok_def fail_with_def mark_handshake_failed_def Let_def split: if_splits sum.splits)

lemma complete_handshake_ok:
  assumes "dtls_peer_ok api allowed mtu p" "complete_handshake_if_ready api p = (r, p')"
  shows "dtls_peer_ok api allowed mtu p'" and "r = Inr u \<Longrightarrow> ssl p' = ssl p \<and> handshake_error p' = handshake_error p \<and> udp_payload_mtu p' = udp_payload_mtu p
      \<and> network_family p' = network_family p"
proof -
  have v: "verified_keys api (peer_fingerprint (identity p)) m"
    if known: "ssl p = Some s" "ssl_is_init_finished api s" "verify_remote_certificate api p = Inr w" "export_srtp_keying_material api s = Inr m" for s w m
  proof -
    obtain c where c: "ssl_peer_certificate api s = Some c"
      "ok (verify_certificate_fingerprint (x509_digest api) (err_get_error api s) (Some c) (peer_fingerprint (identity p)))"
      using known(1,3) by (auto simp: verify_remote_certificate_def make_error_def ok_iff bindE_Inr_iff split: option.splits)
    then show ?thesis using known fingerprint_verified_iff [of "x509_digest api" "err_get_error api s" "Some c"]
      by (auto simp: verified_keys_def)
  qed
  show "dtls_peer_ok api allowed mtu p'" and "r = Inr u \<Longrightarrow> ssl p' = ssl p \<and> handshake_error p' = handshake_error p \<and> udp_payload_mtu p' = udp_payload_mtu p
      \<and> network_family p' = network_family p"
    using assms v
    by (auto simp: complete_handshake_if_ready_def dtls_peer_ok_def fail_with_def mark_handshake_failed_def split: option.splits if_splits sum.splits)
qed

lemma dtls_peer_ok_ssl:
  "dtls_peer_ok api allowed mtu p \<Longrightarrow> ssl p \<noteq> None \<Longrightarrow> handshake_error p = [] \<Longrightarrow> dtls_peer_ok api allowed mtu (p\<lparr>ssl := Some s\<rparr>)"
  by (auto simp: dtls_peer_ok_def)

lemma process_record_ok:
  assumes "dtls_peer_ok api allowed mtu p" "ssl p = Some s" "handshake_error p = []" "process_record api env mtu data s p = Some (r, p')"
  shows "dtls_peer_ok api allowed mtu p'"
proof -
  obtain w s1 where w: "write_packet_to_ssl api s data = (w, s1)" by (meson surj_pair)
  show ?thesis
  proof (cases w)
    case (Inl e)
    then show ?thesis using assms(4) w dtls_peer_ok_failed [OF assms(1)] by (auto simp: process_record_def fail_with_def)
  next
    case (Inr u)
    show ?thesis
    proof (cases "run_dtls_handshake api env mtu (udp_payload_mtu p) s1 []")
      case None
      then show ?thesis using assms(4) w Inr by (simp add: process_record_def)
    next
      case (Some a)
      obtain h s2 where h: "a = (h, s2)" by (cases a)
      show ?thesis
      proof (cases h)
        case (Inl e)
        then show ?thesis using assms(4) w \<open>w = Inr u\<close> Some h dtls_peer_ok_failed [OF assms(1)]
          by (auto simp: process_record_def fail_with_def)
      next
        case packets: (Inr packets)
        obtain q p2 where q: "complete_handshake_if_ready api (p\<lparr>ssl := Some s2\<rparr>) = (q, p2)" by (meson surj_pair)
        have p1: "dtls_peer_ok api allowed mtu (p\<lparr>ssl := Some s2\<rparr>)" using assms(1-3) by (intro dtls_peer_ok_ssl) auto
        have p2: "dtls_peer_ok api allowed mtu p2" by (rule complete_handshake_ok(1) [OF p1 q])
        have p3: "dtls_peer_ok api allowed mtu (p2\<lparr>ssl := Some s'\<rparr>)" if "q = Inr v" for s' v
          using complete_handshake_ok(2) [OF p1 q that] p2 assms(3) by (intro dtls_peer_ok_ssl) auto
        show ?thesis using assms(4) w Inr Some h packets q p2 p3
          by (auto simp: process_record_def split: sum.splits option.splits if_splits)
      qed
    qed
  qed
qed

lemma dtls_peer_ok_counted: "dtls_peer_ok api allowed mtu (p\<lparr>packet_count := a, byte_count := b\<rparr>) = dtls_peer_ok api allowed mtu p"
  by (simp add: dtls_peer_ok_def)

lemma handle_peer_packet_ok:
  assumes "dtls_peer_ok api allowed mtu p" "handle_peer_packet api env mtu data family p = Some (r, p')"
  shows "dtls_peer_ok api allowed mtu p'"
proof -
  let ?p = "p\<lparr>packet_count := packet_count p + 1, byte_count := byte_count p + of_nat (length data)\<rparr>"
  have p: "dtls_peer_ok api allowed mtu ?p" using assms(1) by (simp only: dtls_peer_ok_counted)
  obtain q p2 where q: "start_association api env mtu family ?p = (q, p2)" by (meson surj_pair)
  show ?thesis
  proof (cases "handshake_error p \<noteq> [] \<or> network_family p \<noteq> family_unknown \<and> network_family p \<noteq> family")
    case True
    then show ?thesis using assms dtls_peer_ok_failed [OF p]
      by (auto simp: handle_peer_packet_def fail_with_def split: if_splits)
  next
    case False
    then have e: "handshake_error ?p = []" by simp
    note st = start_association_ok [OF p e q]
    show ?thesis
      using assms(2) False q st process_record_ok [OF st(1)]
      by (cases q) (auto simp: handle_peer_packet_def split: option.splits)
  qed
qed

lemma dtls_handle_udp_packet_inv:
  assumes "dtls_inv api allowed t" "dtls_handle_udp_packet api env data remote family t = Some (r, t')"
  shows "dtls_inv api allowed t'"
proof -
  have "dtls_peer_ok api allowed (ip_mtu t) p'"
    if "dtls_peers t remote = Some p" "handle_peer_packet api env (ip_mtu t) data family p = Some (x, p')" for p p' x
    using assms(1) that by (intro handle_peer_packet_ok [OF _ that(2)]) (auto simp: dtls_inv_def)
  then show ?thesis using assms
    by (auto simp: dtls_handle_udp_packet_def intro!: dtls_inv_update split: sum.splits option.splits prod.splits)
qed

lemma dtls_reachable_inv: "dtls_reachable api allowed t \<Longrightarrow> dtls_inv api allowed t"
  by (induction rule: dtls_reachable.induct)
    (auto intro: make_dtls_transport_inv remember_peer_inv forget_peer_inv rebind_peer_inv dtls_handle_udp_packet_inv)


section \<open>Outgoing datagrams\<close>

definition sendable :: "nat \<Rightarrow> bytes list \<Rightarrow> bool" where
  "sendable payload_mtu packets \<longleftrightarrow> list_all (\<lambda>x. x \<noteq> [] \<and> length x \<le> payload_mtu) packets"

definition drained_ok :: "nat \<Rightarrow> bytes list \<Rightarrow> bytes list result \<times> 's \<Rightarrow> bool" where
  "drained_ok payload_mtu packets x \<longleftrightarrow>
     fault_free (fst x) \<and> (sendable payload_mtu packets \<longrightarrow> (\<forall>ps. fst x = Inr ps \<longrightarrow> sendable payload_mtu ps))"

lemma drain_ok:
  assumes "drain_ssl_write_bio api mtu payload_mtu s packets = Some x"
  shows "drained_ok payload_mtu packets x"
proof (rule drain_ssl_write_bio.raw_induct [OF _ assms], goal_cases)
  case (1 drain api mtu payload_mtu s packets x)
  show ?case
  proof (cases "wbio_pending api s = 0 \<or> wbio_pending api s > payload_mtu")
    case True
    then show ?thesis using 1(2)
      by (auto simp: Let_def drained_ok_def exceeds_error_def make_error_def fault_free_def split: if_splits)
  next
    case False
    obtain q s1 where q: "wbio_read api s (wbio_pending api s) = (q, s1)" by (meson surj_pair)
    show ?thesis
    proof (cases "\<exists>p. q = Some p \<and> length p = wbio_pending api s")
      case True
      then obtain p where p: "q = Some p" "length p = wbio_pending api s" by blast
      then have "drain api mtu payload_mtu s1 (packets @ [p]) = Some x" using 1(2) False q by (simp add: Let_def)
      from 1(1) [OF this] show ?thesis using False p by (auto simp: drained_ok_def sendable_def)
    next
      case no: False
      then show ?thesis using 1(2) False q
        by (auto simp: Let_def drained_ok_def exceeds_error_def make_error_def fault_free_def split: option.splits if_splits)
    qed
  qed
qed

lemma run_dtls_handshake_ok:
  "run_dtls_handshake api env mtu payload_mtu s packets = Some x \<Longrightarrow> drained_ok payload_mtu packets x"
  by (auto simp: run_dtls_handshake_def Let_def drained_ok_def make_error_def fault_free_def
      split: if_splits prod.splits option.splits sum.splits dest!: drain_ok)

lemma consume_loop_ok:
  "consume_loop api mtu payload_mtu n s packets = Some (r, closed, s') \<Longrightarrow> drained_ok payload_mtu packets (r, s')"
proof (induction n arbitrary: s packets)
  case (Suc n)
  obtain status s1 where s1: "ssl_read api s = (status, s1)" by (meson surj_pair)
  show ?case
  proof (cases "drain_ssl_write_bio api mtu payload_mtu s1 packets")
    case (Some x)
    obtain q s2 where x: "x = (q, s2)" by (cases x)
    note d = drain_ok [OF Some]
    show ?thesis
    proof (cases "\<exists>ps. q = Inr ps \<and> status = ssl_error_none")
      case True
      then obtain ps where ps: "q = Inr ps" "status = ssl_error_none" by blast
      then have "drained_ok payload_mtu ps (r, s')" using Suc(2) s1 Some x by (intro Suc.IH) simp
      moreover have "sendable payload_mtu packets \<longrightarrow> sendable payload_mtu ps" using d ps x by (simp add: drained_ok_def)
      ultimately show ?thesis unfolding drained_ok_def by blast
    next
      case no: False
      show ?thesis
      proof (cases q)
        case (Inl e)
        then have "r = Inl e" using Suc(2) s1 Some x by simp
        then show ?thesis using d x Inl by (simp add: drained_ok_def)
      next
        case (Inr ps)
        then have "status \<noteq> ssl_error_none" using no by blast
        then have "consume_loop api mtu payload_mtu (Suc n) s packets =
            (if status = ssl_error_zero_return then Some (Inr ps, True, s2)
             else if ssl_received_shutdown api s2 then Some (Inr ps, True, s2)
             else if status = ssl_error_want_read \<or> status = ssl_error_want_write then Some (Inr ps, False, s2)
             else Some (make_error (ssl_error_text api s1 status ''dtls read failed''), False, s2))"
          using s1 Some x Inr by simp
        then have "r = Inr ps \<or> (\<exists>e. r = Inl (Msg e))" unfolding Suc(2) make_error_def by (auto split: if_split_asm)
        then show ?thesis using d x Inr by (auto simp: drained_ok_def fault_free_def)
      qed
    qed
  qed (use Suc(2) s1 in simp)
qed (auto simp: drained_ok_def)

lemma verify_remote_certificate_safe: "fault_free (verify_remote_certificate api p)"
  using fingerprint_verified_iff
  by (fastforce simp: verify_remote_certificate_def make_error_def fault_free_def split: option.splits dest: bindE_oob_iff [THEN iffD1])

lemma complete_handshake_safe: "fault_free (fst (complete_handshake_if_ready api p))"
  using verify_remote_certificate_safe [of api p] export_srtp_keying_material_safe [of api]
  by (auto simp: complete_handshake_if_ready_def fail_with_def fault_free_def split: option.splits sum.splits)

lemma process_record_sendable:
  assumes "process_record api env mtu data s p = Some (r, p')"
  shows "fault_free r \<and> (\<forall>ps. r = Inr ps \<longrightarrow> sendable (udp_payload_mtu p) ps)"
proof -
  obtain w s1 where w: "write_packet_to_ssl api s data = (w, s1)" by (meson surj_pair)
  have wf: "fault_free w"
    using w by (auto simp: write_packet_to_ssl_def make_error_def fault_free_def split: if_splits prod.splits option.splits)
  show ?thesis
  proof (cases w)
    case (Inl e)
    then show ?thesis using assms w wf by (auto simp: process_record_def fail_with_def fault_free_def)
  next
    case (Inr u)
    show ?thesis
    proof (cases "run_dtls_handshake api env mtu (udp_payload_mtu p) s1 []")
      case None
      then show ?thesis using assms w Inr by (simp add: process_record_def)
    next
      case (Some a)
      obtain h s2 where h: "a = (h, s2)" by (cases a)
      have d: "fault_free h" "\<forall>ps. h = Inr ps \<longrightarrow> sendable (udp_payload_mtu p) ps"
        using run_dtls_handshake_ok [OF Some] h by (auto simp: drained_ok_def sendable_def)
      show ?thesis
      proof (cases h)
        case (Inl e)
        then show ?thesis using assms w \<open>w = Inr u\<close> Some h d by (auto simp: process_record_def fail_with_def fault_free_def)
      next
        case packets: (Inr packets)
        obtain q p2 where q: "complete_handshake_if_ready api (p\<lparr>ssl := Some s2\<rparr>) = (q, p2)" by (meson surj_pair)
        have m: "udp_payload_mtu p2 = udp_payload_mtu p"
          using q by (auto simp: complete_handshake_if_ready_def fail_with_def mark_handshake_failed_def split: if_splits sum.splits)
        have "fault_free q" using complete_handshake_safe [of api "p\<lparr>ssl := Some s2\<rparr>"] q by simp
        moreover have "fault_free r \<and> (\<forall>ps. r = Inr ps \<longrightarrow> sendable (udp_payload_mtu p) ps)"
          if "consume_dtls_application_data_and_alerts api mtu (udp_payload_mtu p) s2 packets = Some (r, closed, s')" for closed s'
          using consume_loop_ok [OF that [unfolded consume_dtls_application_data_and_alerts_def]] d packets
          by (auto simp: drained_ok_def)
        ultimately show ?thesis using assms w Inr Some h packets q m d
          by (auto simp: process_record_def fault_free_def split: sum.splits option.splits if_splits)
      qed
    qed
  qed
qed

section \<open>Returning\<close>

text \<open>Reading a datagram takes something out of the BIO.\<close>

definition bio_is_queue :: "('e, 's, 'c) openssl \<Rightarrow> ('s \<Rightarrow> nat) \<Rightarrow> bool" where
  "bio_is_queue api queued \<longleftrightarrow> (\<forall>s n x s'. wbio_read api s n = (Some x, s') \<longrightarrow> queued s' < queued s)"

lemma drain_returns:
  assumes "bio_is_queue api queued"
  shows "drain_ssl_write_bio api mtu payload_mtu s packets \<noteq> None"
proof (induction "queued s" arbitrary: s packets rule: less_induct)
  case less
  obtain q s1 where q: "wbio_read api s (wbio_pending api s) = (q, s1)" by (meson surj_pair)
  have "drain_ssl_write_bio api mtu payload_mtu s1 (packets @ [p]) \<noteq> None" if "q = Some p" for p
    using assms q that less by (auto simp: bio_is_queue_def)
  then show ?case using q by (subst drain_ssl_write_bio.simps) (auto simp: Let_def split: option.splits)
qed

lemma consume_loop_returns:
  assumes "bio_is_queue api queued"
  shows "consume_loop api mtu payload_mtu n s packets \<noteq> None"
proof (induction n arbitrary: s packets)
  case (Suc n)
  then show ?case
    by (auto simp: Let_def drain_returns [OF assms] simp del: not_None_eq split: prod.splits option.splits sum.splits)
qed simp

lemma handle_peer_packet_returns:
  assumes "bio_is_queue api queued"
  shows "handle_peer_packet api env mtu data family p \<noteq> None"
proof -
  have r: "run_dtls_handshake api env mtu payload_mtu s packets \<noteq> None" for payload_mtu s packets
    by (auto simp: run_dtls_handshake_def Let_def drain_returns [OF assms] simp del: not_None_eq split: prod.splits option.splits sum.splits)
  have "process_record api env mtu data s p \<noteq> None" for s p
    by (auto simp: process_record_def consume_dtls_application_data_and_alerts_def Let_def r consume_loop_returns [OF assms]
        simp del: not_None_eq split: prod.splits option.splits sum.splits)
  then show ?thesis by (auto simp: handle_peer_packet_def Let_def simp del: not_None_eq split: prod.splits option.splits sum.splits)
qed

section \<open>A small OpenSSL\<close>

text \<open>It finishes a handshake with the first datagram and answers with one of three bytes.\<close>

type_synonym demo_ssl = "bool \<times> nat \<times> bytes list"

definition demo_openssl :: "(unit, demo_ssl, unit) openssl" where
  "demo_openssl =
     \<lparr>has_context = True, ssl_new = (\<lambda>_. Some (False, 0, [])), read_bio_new = (\<lambda>_. True), write_bio_new = (\<lambda>_. True),
      ssl_attach = (\<lambda>s. s), wbio_set_mtu = (\<lambda>(f, m, q) n. (True, (f, n, q))), wbio_get_mtu = (\<lambda>(f, m, q). m),
      ssl_set_mtu = (\<lambda>s n. (True, s)), rbio_write = (\<lambda>s data. (Some (length data), s)),
      wbio_pending = (\<lambda>(f, m, q). case q of [] \<Rightarrow> 0 | x # _ \<Rightarrow> length x),
      wbio_read = (\<lambda>(f, m, q) n. case q of [] \<Rightarrow> (None, (f, m, q)) | x # q \<Rightarrow> (Some x, (f, m, q))),
      ssl_do_handshake = (\<lambda>_ (f, m, q). (ssl_error_none, (True, m, q @ [[1, 2, 3]]))),
      ssl_is_init_finished = (\<lambda>(f, m, q). f), ssl_read = (\<lambda>s. (ssl_error_want_read, s)), ssl_received_shutdown = (\<lambda>_. False),
      ssl_peer_certificate = (\<lambda>_. Some ()), x509_digest = (\<lambda>_ md. if md = EVP_sha256 then Some (replicate 32 0) else None),
      ssl_selected_srtp_profile = (\<lambda>_. Some ''SRTP_AES128_CM_SHA1_80''),
      ssl_export_keying_material = (\<lambda>_ _ n. Some (replicate n 9)), err_get_error = (\<lambda>_. None)\<rparr>"

definition demo_identity :: dtls_peer_identity where
  "demo_identity =
     \<lparr>peer_role = peer_publisher, peer_session_id = ''s1'', peer_stream_id = ''cam'', peer_local_ufrag = ''abcd'', peer_remote_ufrag = ''wxyz'',
      peer_fingerprint = \<lparr>fingerprint_algorithm = ''sha-256'', fingerprint_value = format_digest_bytes (replicate 32 0) 0\<rparr>\<rparr>"

definition demo_hello :: bytes where
  "demo_hello = [22, 0xFE, 0xFD, 0, 0, 0, 0, 0, 0, 0, 0, 0, 1, 1]"

definition demo_waiting :: "demo_ssl dtls_transport" where
  "demo_waiting = remember_peer ''10.0.0.7:5000'' demo_identity (make_dtls_transport 1200)"

lemma demo_waiting_reachable: "dtls_reachable demo_openssl {demo_identity} demo_waiting"
  unfolding demo_waiting_def by (intro dtls_reachable.intros) simp

lemma demo_bio_is_queue: "bio_is_queue demo_openssl (\<lambda>(f, m, q). length q)"
  by (auto simp: bio_is_queue_def demo_openssl_def split: list.splits)

lemma demo_handshake:
  "map_option (\<lambda>(r, t). (r, get_srtp_keying_material ''10.0.0.7:5000'' demo_identity t \<noteq> None))
     (dtls_handle_udp_packet demo_openssl () demo_hello ''10.0.0.7:5000'' family_ipv4 demo_waiting) = Some (Inr [[1, 2, 3]], True)"
  by code_simp

section \<open>Properties\<close>

lemma dtls_keys_are_verified':
  assumes "dtls_reachable api allowed t" and "get_srtp_keying_material remote expected t = Some m"
  shows "\<exists>i \<in> allowed. get_peer_identity remote t = Some i \<and> same_srtp_generation i expected
    \<and> verified_keys api (peer_fingerprint i) m"
proof -
  obtain p where p: "dtls_peers t remote = Some p" "same_srtp_generation (identity p) expected" "keying_material p = Some m"
    using assms(2) by (auto simp: get_srtp_keying_material_def split: option.splits if_splits)
  then have "dtls_peer_ok api allowed (ip_mtu t) p" using dtls_reachable_inv [OF assms(1)] by (auto simp: dtls_inv_def)
  then show ?thesis using p by (auto simp: dtls_peer_ok_def get_peer_identity_def)
qed

text \<open>
  C8. The transport gives out SRTP keys only for an identity it was told to expect, and only keys exported
  from a finished handshake whose peer showed a certificate with the fingerprint of that identity. This
  holds after any sequence of remembered, rebound and forgotten peers and of datagrams, and whatever
  OpenSSL does.
\<close>

theorem dtls_keys_are_verified:
  assumes "dtls_reachable api allowed t" and "get_srtp_keying_material remote expected t = Some m"
  shows "\<exists>i \<in> allowed. get_peer_identity remote t = Some i \<and> same_srtp_generation i expected
    \<and> verified_keys api (peer_fingerprint i) m"
  by (rule dtls_keys_are_verified' [OF assms])

theorem dtls_keys_are_verified_witness:
  "\<exists>r t m. dtls_handle_udp_packet demo_openssl () demo_hello ''10.0.0.7:5000'' family_ipv4 demo_waiting = Some (r, t)
    \<and> get_srtp_keying_material ''10.0.0.7:5000'' demo_identity t = Some m
    \<and> verified_keys demo_openssl (peer_fingerprint demo_identity) m"
proof -
  obtain r t where d: "dtls_handle_udp_packet demo_openssl () demo_hello ''10.0.0.7:5000'' family_ipv4 demo_waiting = Some (r, t)"
    "get_srtp_keying_material ''10.0.0.7:5000'' demo_identity t \<noteq> None"
    using demo_handshake by auto
  then obtain m where m: "get_srtp_keying_material ''10.0.0.7:5000'' demo_identity t = Some m" by blast
  have "dtls_reachable demo_openssl {demo_identity} t" by (rule dtls_reachable.datagram [OF demo_waiting_reachable d(1)])
  from dtls_keys_are_verified [OF this m] show ?thesis using d(1) m by blast
qed

definition udp_overhead :: "dtls_network_family \<Rightarrow> nat" where
  "udp_overhead family = (if family = family_ipv6 then k_ipv6_udp_overhead else k_ipv4_udp_overhead)"

lemma payload_mtu_value:
  "make_dtls_udp_payload_mtu mtu family = Inr n \<Longrightarrow> family \<noteq> family_unknown \<and> n + udp_overhead family = mtu"
  by (auto simp: make_dtls_udp_payload_mtu_def udp_overhead_def make_error_def split: dtls_network_family.splits if_splits)

lemma handle_peer_packet_sendable:
  assumes "dtls_peer_ok api allowed mtu p" "handle_peer_packet api env mtu data family p = Some (r, p')"
  shows "fault_free r \<and> (\<forall>ps. r = Inr ps \<longrightarrow> (\<forall>x \<in> set ps. x \<noteq> [] \<and> length x + udp_overhead family \<le> mtu))"
proof -
  let ?p = "p\<lparr>packet_count := packet_count p + 1, byte_count := byte_count p + of_nat (length data)\<rparr>"
  have p: "dtls_peer_ok api allowed mtu ?p" using assms(1) by (simp only: dtls_peer_ok_counted)
  obtain q p2 where q: "start_association api env mtu family ?p = (q, p2)" by (meson surj_pair)
  have qf: "fault_free q"
    using q by (auto simp: start_association_def Let_def fail_with_def make_dtls_udp_payload_mtu_def make_ssl_def
        configure_datagram_bio_mtu_def make_error_def fault_free_def split: if_splits sum.splits option.splits prod.splits dtls_network_family.splits)
  show ?thesis
  proof (cases "handshake_error p \<noteq> [] \<or> network_family p \<noteq> family_unknown \<and> network_family p \<noteq> family")
    case True
    then show ?thesis using assms(2)
      by (auto simp: handle_peer_packet_def fail_with_def make_error_def fault_free_def split: if_splits)
  next
    case False
    show ?thesis
    proof (cases "\<exists>u s. q = Inr u \<and> ssl p2 = Some s")
      case True
      then obtain u s where u: "q = Inr u" "ssl p2 = Some s" by blast
      have "process_record api env mtu data s p2 = Some (r, p')"
        using assms(2) False q u by (auto simp: handle_peer_packet_def)
      note sendable = process_record_sendable [OF this]
      have f: "network_family p2 = family"
        using q u False p by (auto simp: start_association_def dtls_peer_ok_def Let_def fail_with_def dest!: payload_mtu_value split: if_splits sum.splits)
      have "dtls_peer_ok api allowed mtu p2" using start_association_ok(1) [OF p _ q] False by simp
      then have "udp_payload_mtu p2 + udp_overhead family = mtu" using u f by (auto simp: dtls_peer_ok_def dest!: payload_mtu_value)
      then show ?thesis using sendable by (auto simp: sendable_def list_all_iff)
    next
      case no: False
      then show ?thesis using assms(2) False q qf
        by (cases q) (auto simp: handle_peer_packet_def make_error_def fault_free_def split: option.splits)
    qed
  qed
qed

text \<open>
  C13. Every datagram the transport sends is non-empty and fits, with its IP and UDP headers, into the
  configured MTU of the path, for IPv4 and IPv6, whatever OpenSSL writes.
\<close>

theorem dtls_datagrams_fit_mtu:
  assumes "dtls_reachable api allowed t" and "dtls_handle_udp_packet api env data remote family t = Some (Inr packets, t')"
  shows "\<forall>x \<in> set packets. x \<noteq> [] \<and> length x + udp_overhead family \<le> ip_mtu t"
proof -
  have "\<forall>x \<in> set ps. x \<noteq> [] \<and> length x + udp_overhead family \<le> ip_mtu t"
    if peer: "dtls_peers t remote = Some p" "handle_peer_packet api env (ip_mtu t) data family p = Some (Inr ps, p')" for p p' ps
    using handle_peer_packet_sendable [OF _ peer(2)] dtls_reachable_inv [OF assms(1)] peer(1) by (auto simp: dtls_inv_def)
  then show ?thesis using assms(2)
    by (auto simp: dtls_handle_udp_packet_def split: sum.splits option.splits prod.splits)
qed

theorem dtls_datagrams_fit_mtu_witness:
  "\<exists>t. dtls_handle_udp_packet demo_openssl () demo_hello ''10.0.0.7:5000'' family_ipv4 demo_waiting = Some (Inr [[1, 2, 3]], t)
    \<and> (\<forall>x \<in> set [[1 :: u8, 2, 3]]. x \<noteq> [] \<and> length x + udp_overhead family_ipv4 \<le> ip_mtu demo_waiting)"
proof -
  obtain t where d: "dtls_handle_udp_packet demo_openssl () demo_hello ''10.0.0.7:5000'' family_ipv4 demo_waiting = Some (Inr [[1, 2, 3]], t)"
    using demo_handshake by auto
  show ?thesis using d dtls_datagrams_fit_mtu [OF demo_waiting_reachable d] by blast
qed

text \<open>
  C14. A datagram is always processed to the end, provided only that reading from OpenSSL's BIO takes
  something out of it; and nothing is read outside a buffer.
\<close>

theorem dtls_datagram_is_processed:
  assumes "bio_is_queue api queued" and "dtls_reachable api allowed t"
  shows "\<exists>r t'. dtls_handle_udp_packet api env data remote family t = Some (r, t') \<and> fault_free r"
proof (cases "ok (parse_dtls_record_header data) \<and> dtls_peers t remote \<noteq> None")
  case False
  then show ?thesis by (cases "parse_dtls_record_header data") (auto simp: dtls_handle_udp_packet_def fault_free_def)
next
  case True
  then obtain header p where p: "parse_dtls_record_header data = Inr header" "dtls_peers t remote = Some p" by (auto simp: ok_iff)
  obtain r p' where h: "handle_peer_packet api env (ip_mtu t) data family p = Some (r, p')"
    using handle_peer_packet_returns [OF assms(1)] by fastforce
  have "fault_free r" using handle_peer_packet_sendable [OF _ h] dtls_reachable_inv [OF assms(2)] p(2) by (auto simp: dtls_inv_def)
  then show ?thesis using p h by (simp add: dtls_handle_udp_packet_def)
qed

theorem dtls_datagram_is_processed_witness:
  "\<exists>r t'. dtls_handle_udp_packet demo_openssl () demo_hello ''10.0.0.7:5000'' family_ipv4 demo_waiting = Some (r, t') \<and> fault_free r"
  by (rule dtls_datagram_is_processed [OF demo_bio_is_queue demo_waiting_reachable])

text \<open>
  C15. A failed handshake is final: the endpoint keeps its error, gives no keys and answers every later
  record with the error, until another identity is expected there or it is forgotten or rebound.
\<close>

theorem failed_handshake_is_final:
  assumes "dtls_reachable api allowed t" and "dtls_peers t remote = Some p" and "handshake_error p \<noteq> []"
    and "parse_dtls_record_header data = Inr header"
  shows "get_srtp_keying_material remote expected t = None
    \<and> dtls_handle_udp_packet api env data remote family t = Some (make_error (handshake_error p), t)
    \<and> (identities_equal (identity p) i \<longrightarrow> remember_peer remote i t = t)
    \<and> fst (rebind_peer api remote other i family' t) \<noteq> Inr True"
proof -
  have p: "dtls_peer_ok api allowed (ip_mtu t) p" using dtls_reachable_inv [OF assms(1)] assms(2) by (auto simp: dtls_inv_def)
  then have none: "ssl p = None" "keying_material p = None" using assms(3) by (auto simp: dtls_peer_ok_def)
  have "(dtls_peers t)(remote \<mapsto> p) = dtls_peers t" using assms(2) by (simp add: map_upd_triv)
  then have h: "dtls_handle_udp_packet api env data remote family t = Some (make_error (handshake_error p), t)"
    using assms(2-4) by (simp add: dtls_handle_udp_packet_def handle_peer_packet_def)
  have "r \<noteq> Inr True" if r: "rebind_peer api remote other i family' t = (r, t')" for r t'
    using r assms(2) none by (cases rule: rebind_peer_cases) auto
  then have "fst (rebind_peer api remote other i family' t) \<noteq> Inr True" by (metis prod.collapse)
  moreover have "get_srtp_keying_material remote expected t = None"
    using none assms(2) by (simp add: get_srtp_keying_material_def)
  moreover have "identities_equal (identity p) i \<longrightarrow> remember_peer remote i t = t"
    using assms(2) by (simp add: remember_peer_def)
  ultimately show ?thesis using h by blast
qed

lemma demo_failure:
  "map_option (\<lambda>(r, t). map_option handshake_error (dtls_peers t ''10.0.0.7:5000''))
     (Option.bind (dtls_handle_udp_packet demo_openssl () demo_hello ''10.0.0.7:5000'' family_ipv4 demo_waiting)
       (\<lambda>(r, t). dtls_handle_udp_packet demo_openssl () demo_hello ''10.0.0.7:5000'' family_ipv6 t))
   = Some (Some ''dtls peer network family changed old=ipv4 new=ipv6'')"
  by code_simp

theorem failed_handshake_is_final_witness:
  "\<exists>t p. dtls_peers t ''10.0.0.7:5000'' = Some p \<and> handshake_error p \<noteq> []
    \<and> dtls_handle_udp_packet demo_openssl () demo_hello ''10.0.0.7:5000'' family_ipv4 t = Some (make_error (handshake_error p), t)"
proof -
  obtain r1 t1 r t where d: "dtls_handle_udp_packet demo_openssl () demo_hello ''10.0.0.7:5000'' family_ipv4 demo_waiting = Some (r1, t1)"
    "dtls_handle_udp_packet demo_openssl () demo_hello ''10.0.0.7:5000'' family_ipv6 t1 = Some (r, t)"
    "map_option handshake_error (dtls_peers t ''10.0.0.7:5000'') = Some ''dtls peer network family changed old=ipv4 new=ipv6''"
    using demo_failure by (fastforce simp: bind_eq_Some_conv)
  then obtain p where p: "dtls_peers t ''10.0.0.7:5000'' = Some p" "handshake_error p \<noteq> []" by auto
  have t: "dtls_reachable demo_openssl {demo_identity} t"
    by (rule dtls_reachable.datagram [OF dtls_reachable.datagram [OF demo_waiting_reachable d(1)] d(2)])
  have "ok (parse_dtls_record_header demo_hello)" by code_simp
  then obtain h where h: "parse_dtls_record_header demo_hello = Inr h" by (auto simp: ok_iff)
  show ?thesis using p failed_handshake_is_final [OF t p h] by blast
qed

end
