(* ===== verification/Srtp_Transport.thy ===== *)
theory Srtp_Transport
  imports Srtp_Session Dtls_Transport
begin

text \<open>
  The SRTP transport (\<^verbatim>\<open>src/srtp/srtp_transport.cpp\<close>): which datagrams are decrypted, and with which
  keys. It asks the DTLS transport, an argument that it only reads, for the identity and the keys of an
  endpoint, and makes the two SRTP sessions of the endpoint when they first exist. The pointer to the DTLS
  transport is set by the constructor of the session transports, so its null check is left out.
\<close>

section \<open>State\<close>

datatype srtp_packet_kind = kind_unknown | kind_rtp | kind_rtcp

datatype srtp_packet_process_state = state_ignored | state_unprotected | state_protected

record srtp_packet_process_result =
  process_state :: srtp_packet_process_state
  packet_kind :: srtp_packet_kind
  process_ssrc :: u32
  process_payload_type :: u8
  process_sequence_number :: u16
  process_timestamp :: u32
  plain_packet :: bytes
  protected_packet :: bytes
  process_reason :: string

record 'k srtp_peer_state =
  srtp_session_id :: string
  srtp_stream_id :: string
  srtp_local_ufrag :: string
  srtp_remote_ufrag :: string
  inbound_session :: "'k srtp_session option"
  outbound_session :: "'k srtp_session option"
  inbound_packet_count :: u64
  outbound_packet_count :: u64

type_synonym 'k srtp_transport = "string \<rightharpoonup> 'k srtp_peer_state"

abbreviation (input) k_srtp_protect_extra_capacity :: nat where "k_srtp_protect_extra_capacity \<equiv> 64"

definition empty_srtp_peer :: "'k srtp_peer_state" where
  "empty_srtp_peer =
     \<lparr>srtp_session_id = [], srtp_stream_id = [], srtp_local_ufrag = [], srtp_remote_ufrag = [], inbound_session = None,
      outbound_session = None, inbound_packet_count = 0, outbound_packet_count = 0\<rparr>"

definition srtp_packet_kind_to_string :: "srtp_packet_kind \<Rightarrow> string" where
  "srtp_packet_kind_to_string pk = (case pk of kind_rtp \<Rightarrow> ''rtp'' | kind_rtcp \<Rightarrow> ''rtcp'' | kind_unknown \<Rightarrow> ''unknown'')"

definition classify_packet :: "bytes \<Rightarrow> srtp_packet_kind" where
  "classify_packet data =
     (if \<not> is_rtp_or_rtcp_packet data then kind_unknown else if is_rtcp_packet data then kind_rtcp else kind_rtp)"

definition empty_process_result :: srtp_packet_process_result where
  "empty_process_result =
     \<lparr>process_state = state_ignored, packet_kind = kind_unknown, process_ssrc = 0, process_payload_type = 0,
      process_sequence_number = 0, process_timestamp = 0, plain_packet = [], protected_packet = [], process_reason = []\<rparr>"

definition make_ignored_result :: "srtp_packet_kind \<Rightarrow> string \<Rightarrow> srtp_packet_process_result" where
  "make_ignored_result pk reason = empty_process_result\<lparr>packet_kind := pk, process_reason := reason\<rparr>"

definition make_protected_result :: "srtp_packet_kind \<Rightarrow> bytes \<Rightarrow> srtp_packet_process_result" where
  "make_protected_result pk packet =
     empty_process_result\<lparr>process_state := state_protected, packet_kind := pk, protected_packet := packet\<rparr>"

section \<open>Peers\<close>

definition peer_identity_matches :: "'k srtp_peer_state \<Rightarrow> dtls_peer_identity \<Rightarrow> bool" where
  "peer_identity_matches p i \<longleftrightarrow> srtp_session_id p = peer_session_id i \<and> srtp_stream_id p = peer_stream_id i
     \<and> srtp_local_ufrag p = peer_local_ufrag i \<and> srtp_remote_ufrag p = peer_remote_ufrag i"

definition bind_peer_identity :: "dtls_peer_identity \<Rightarrow> 'k srtp_peer_state \<Rightarrow> 'k srtp_peer_state" where
  "bind_peer_identity i p =
     p\<lparr>srtp_session_id := peer_session_id i, srtp_stream_id := peer_stream_id i, srtp_local_ufrag := peer_local_ufrag i,
       srtp_remote_ufrag := peer_remote_ufrag i\<rparr>"

definition reset_peer_for_identity :: "dtls_peer_identity \<Rightarrow> 'k srtp_peer_state" where
  "reset_peer_for_identity i = bind_peer_identity i empty_srtp_peer"

definition ensure_sessions_ready ::
  "'k libsrtp \<Rightarrow> 's dtls_transport \<Rightarrow> string \<Rightarrow> dtls_peer_identity \<Rightarrow> 'k srtp_peer_state \<Rightarrow> bool result \<times> 'k srtp_peer_state" where
  "ensure_sessions_ready lib dtls remote i p =
     (let identity_matches = peer_identity_matches p i in
      if inbound_session p \<noteq> None \<and> outbound_session p \<noteq> None \<and> identity_matches then (Inr True, p)
      else
        let p = (if srtp_session_id p \<noteq> [] \<and> \<not> identity_matches then reset_peer_for_identity i
                 else if srtp_session_id p = [] then bind_peer_identity i p
                 else p) in
        case get_srtp_keying_material remote i dtls of
          None \<Rightarrow> (Inr False, p)
        | Some material \<Rightarrow>
            (case make_inbound_srtp_session lib material of
               Inl e \<Rightarrow> (Inl e, p)
             | Inr inbound \<Rightarrow>
                 (case make_outbound_srtp_session lib material of
                    Inl e \<Rightarrow> (Inl e, p)
                  | Inr outbound \<Rightarrow> (Inr True, p\<lparr>inbound_session := Some inbound, outbound_session := Some outbound\<rparr>))))"

text \<open>A ready peer, or the reason why there is none (\<open>Inr (Some p)\<close> and \<open>Inr None\<close> with the reason).\<close>

definition find_ready_peer ::
  "'k libsrtp \<Rightarrow> 's dtls_transport \<Rightarrow> string \<Rightarrow> 'k srtp_transport \<Rightarrow> ('k srtp_peer_state option \<times> string) result \<times> 'k srtp_transport" where
  "find_ready_peer lib dtls remote peers =
     (case get_peer_identity remote dtls of
        None \<Rightarrow>
          (case peers remote of
             None \<Rightarrow> (Inr (None, ''dtls identity is missing''), peers)
           | Some p \<Rightarrow> (Inr (None, ''dtls handshake is not complete''), peers(remote := None)))
      | Some i \<Rightarrow>
          let p = (case peers remote of None \<Rightarrow> bind_peer_identity i empty_srtp_peer | Some p \<Rightarrow> p);
              (ready, p) = ensure_sessions_ready lib dtls remote i p;
              peers = peers(remote \<mapsto> p) in
          (case ready of
             Inl e \<Rightarrow> (Inl e, peers)
           | Inr b \<Rightarrow> if \<not> b then (Inr (None, ''dtls handshake is not complete''), peers) else (Inr (Some p, []), peers)))"

definition srtp_forget_peer :: "string \<Rightarrow> 'k srtp_transport \<Rightarrow> 'k srtp_transport" where
  "srtp_forget_peer remote peers = (if remote = [] then peers else peers(remote := None))"

definition srtp_rebind_peer ::
  "string \<Rightarrow> string \<Rightarrow> dtls_peer_identity \<Rightarrow> 'k srtp_transport \<Rightarrow> bool result \<times> 'k srtp_transport" where
  "srtp_rebind_peer previous_remote next_remote i peers =
     (if previous_remote = [] \<or> next_remote = [] then (make_error ''srtp peer rebind endpoint is empty'', peers)
      else case peers previous_remote of
        None \<Rightarrow> (Inr False, peers)
      | Some previous \<Rightarrow>
          if srtp_session_id previous \<noteq> peer_session_id i \<or> srtp_stream_id previous \<noteq> peer_stream_id i
          then (make_error ''srtp peer rebind session identity changed'', peers)
          else if previous_remote \<noteq> next_remote \<and> peers next_remote \<noteq> None
          then (make_error ''srtp peer rebind destination already exists'', peers)
          else (Inr True, peers(previous_remote := None, next_remote \<mapsto> bind_peer_identity i previous)))"

definition peer_ready :: "'k libsrtp \<Rightarrow> 's dtls_transport \<Rightarrow> string \<Rightarrow> 'k srtp_transport \<Rightarrow> bool result \<times> 'k srtp_transport" where
  "peer_ready lib dtls remote peers =
     (if remote = [] then (Inr False, peers)
      else case find_ready_peer lib dtls remote peers of
        (Inl e, peers) \<Rightarrow> (Inl e, peers)
      | (Inr (found, reason), peers) \<Rightarrow> (Inr (found \<noteq> None), peers))"

section \<open>Packets\<close>

definition resize :: "nat \<Rightarrow> bytes \<Rightarrow> bytes" where
  "resize n packet = take n packet @ replicate (n - length packet) 0"

definition handle_inbound_packet ::
  "'k libsrtp \<Rightarrow> 's dtls_transport \<Rightarrow> bytes \<Rightarrow> string \<Rightarrow> 'k srtp_transport \<Rightarrow> srtp_packet_process_result result \<times> 'k srtp_transport" where
  "handle_inbound_packet lib dtls data remote peers =
     (let pk = classify_packet data in
      if pk = kind_unknown then (Inr (make_ignored_result pk ''packet is not rtp or rtcp''), peers)
      else case find_ready_peer lib dtls remote peers of
        (Inl e, peers) \<Rightarrow> (Inl e, peers)
      | (Inr (None, reason), peers) \<Rightarrow> (Inr (make_ignored_result pk reason), peers)
      | (Inr (Some p, _), peers) \<Rightarrow>
          let (r, packet, session) = unprotect_packet lib (pk = kind_rtcp) (the (inbound_session p)) data (length data);
              p = p\<lparr>inbound_session := Some session\<rparr> in
          (case r of
             Inl e \<Rightarrow>
               let message = (case e of Msg m \<Rightarrow> m | OutOfBounds \<Rightarrow> []);
                   reason = (if is_srtp_replay_error message then ''srtp replay ignored kind='' else ''srtp unprotect failed ignored kind='')
                      @ srtp_packet_kind_to_string pk @ '' error='' @ message in
               (Inr (make_ignored_result pk reason), peers(remote \<mapsto> p))
           | Inr n \<Rightarrow>
               let packet = resize n packet;
                   result = empty_process_result\<lparr>process_state := state_unprotected, packet_kind := pk\<rparr> in
               if pk = kind_rtp then
                 (case parse_rtp_packet_header packet of
                    Inl e \<Rightarrow> (prefix_error ''rtp header parse failed after srtp unprotect: '' (Inl e), peers(remote \<mapsto> p))
                  | Inr header \<Rightarrow>
                      (Inr (result\<lparr>process_ssrc := rtp_ssrc header, process_payload_type := rtp_packet_header.payload_type header,
                         process_sequence_number := rtp_packet_header.sequence_number header, process_timestamp := timestamp header,
                         plain_packet := packet\<rparr>),
                       peers(remote \<mapsto> p\<lparr>inbound_packet_count := inbound_packet_count p + 1\<rparr>)))
               else
                 (Inr (result\<lparr>plain_packet := packet\<rparr>), peers(remote \<mapsto> p\<lparr>inbound_packet_count := inbound_packet_count p + 1\<rparr>))))"

definition protect_outbound_packet ::
  "'k libsrtp \<Rightarrow> 's dtls_transport \<Rightarrow> bytes \<Rightarrow> string \<Rightarrow> srtp_packet_kind \<Rightarrow> 'k srtp_transport \<Rightarrow>
     srtp_packet_process_result result \<times> 'k srtp_transport" where
  "protect_outbound_packet lib dtls plain remote pk peers =
     (if pk = kind_unknown then (Inr (make_ignored_result pk ''packet kind is unknown''), peers)
      else if plain = [] then (Inr (make_ignored_result pk ''plain packet is empty''), peers)
      else case find_ready_peer lib dtls remote peers of
        (Inl e, peers) \<Rightarrow> (Inl e, peers)
      | (Inr (None, reason), peers) \<Rightarrow> (Inr (make_ignored_result pk reason), peers)
      | (Inr (Some p, _), peers) \<Rightarrow>
          let buffer = plain @ replicate k_srtp_protect_extra_capacity 0;
              (r, packet, session) = protect_packet lib (pk = kind_rtcp) (the (outbound_session p)) buffer (length plain);
              p = p\<lparr>outbound_session := Some session\<rparr> in
          (case r of
             Inl e \<Rightarrow>
               (prefix_error (''srtp outbound protect failed remote='' @ remote @ '' kind='' @ srtp_packet_kind_to_string pk @ '' error='') (Inl e),
                peers(remote \<mapsto> p))
           | Inr n \<Rightarrow>
               (Inr (make_protected_result pk (resize n packet)),
                peers(remote \<mapsto> p\<lparr>outbound_packet_count := outbound_packet_count p + 1\<rparr>))))"

definition srtp_packet_process_state_to_string :: "srtp_packet_process_state \<Rightarrow> string" where
  "srtp_packet_process_state_to_string state =
     (case state of state_ignored \<Rightarrow> ''ignored'' | state_unprotected \<Rightarrow> ''unprotected'' | state_protected \<Rightarrow> ''protected'')"

section \<open>Which keys are used\<close>

text \<open>The sessions of a peer come from one set of keys, verified for an identity of the same media session.\<close>

definition keyed :: "('e, 's, 'c) openssl \<Rightarrow> 'k libsrtp \<Rightarrow> dtls_peer_identity set \<Rightarrow> string \<Rightarrow> string \<Rightarrow> 'k srtp_session \<Rightarrow> 'k srtp_session \<Rightarrow> bool" where
  "keyed api lib allowed sid stream inbound outbound \<longleftrightarrow>
     (\<exists>i \<in> allowed. \<exists>m. peer_session_id i = sid \<and> peer_stream_id i = stream \<and> verified_keys api (peer_fingerprint i) m
        \<and> session_of lib srtp_inbound m inbound \<and> session_of lib srtp_outbound m outbound)"

definition srtp_peer_ok :: "('e, 's, 'c) openssl \<Rightarrow> 'k libsrtp \<Rightarrow> dtls_peer_identity set \<Rightarrow> 'k srtp_peer_state \<Rightarrow> bool" where
  "srtp_peer_ok api lib allowed p \<longleftrightarrow>
     (case (inbound_session p, outbound_session p) of
        (Some a, Some b) \<Rightarrow> keyed api lib allowed (srtp_session_id p) (srtp_stream_id p) a b
      | (None, None) \<Rightarrow> True
      | _ \<Rightarrow> False)"

definition srtp_inv :: "('e, 's, 'c) openssl \<Rightarrow> 'k libsrtp \<Rightarrow> dtls_peer_identity set \<Rightarrow> 'k srtp_transport \<Rightarrow> bool" where
  "srtp_inv api lib allowed peers \<longleftrightarrow> (\<forall>remote p. peers remote = Some p \<longrightarrow> srtp_peer_ok api lib allowed p)"

lemma srtp_inv_update:
  "srtp_inv api lib allowed peers \<Longrightarrow> (\<And>p. v = Some p \<Longrightarrow> srtp_peer_ok api lib allowed p) \<Longrightarrow> srtp_inv api lib allowed (peers(remote := v))"
  by (auto simp: srtp_inv_def)

lemma empty_srtp_peer_ok: "srtp_peer_ok api lib allowed (bind_peer_identity i empty_srtp_peer)"
  by (simp add: srtp_peer_ok_def bind_peer_identity_def empty_srtp_peer_def)

lemma bind_same_session:
  "srtp_session_id p = peer_session_id i \<Longrightarrow> srtp_stream_id p = peer_stream_id i \<Longrightarrow> srtp_peer_ok api lib allowed p
     \<Longrightarrow> srtp_peer_ok api lib allowed (bind_peer_identity i p)"
  by (simp add: srtp_peer_ok_def bind_peer_identity_def split: option.splits)

lemma bind_unnamed:
  assumes "srtp_peer_ok api lib allowed p" "srtp_session_id p = []" "\<forall>i \<in> allowed. peer_session_id i \<noteq> []"
  shows "inbound_session p = None \<and> outbound_session p = None"
  using assms by (auto simp: srtp_peer_ok_def keyed_def split: option.splits)

lemma ensure_sessions_ready_ok:
  assumes dtls: "dtls_reachable api allowed dtls" and named: "\<forall>i \<in> allowed. peer_session_id i \<noteq> []"
    and p: "srtp_peer_ok api lib allowed p" and i: "get_peer_identity remote dtls = Some i"
    and r: "ensure_sessions_ready lib dtls remote i p = (r, p')"
  shows "srtp_peer_ok api lib allowed p' \<and> fault_free r
    \<and> (r = Inr True \<longrightarrow> inbound_session p' \<noteq> None \<and> outbound_session p' \<noteq> None \<and> peer_identity_matches p' i)"
proof -
  let ?q = "if srtp_session_id p \<noteq> [] \<and> \<not> peer_identity_matches p i then reset_peer_for_identity i
                 else if srtp_session_id p = [] then bind_peer_identity i p else p"
  have q: "srtp_peer_ok api lib allowed ?q" "peer_identity_matches ?q i"
    using p bind_unnamed [OF p _ named]
    by (auto simp: reset_peer_for_identity_def peer_identity_matches_def bind_peer_identity_def empty_srtp_peer_def srtp_peer_ok_def)
  have made: "srtp_peer_ok api lib allowed (?q\<lparr>inbound_session := Some a, outbound_session := Some b\<rparr>)"
    if k: "get_srtp_keying_material remote i dtls = Some m" "make_inbound_srtp_session lib m = Inr a" "make_outbound_srtp_session lib m = Inr b" for m a b
  proof -
    obtain j where j: "j \<in> allowed" "get_peer_identity remote dtls = Some j" "verified_keys api (peer_fingerprint j) m"
      using dtls_keys_are_verified' [OF dtls k(1)] by blast
    then have "keyed api lib allowed (srtp_session_id ?q) (srtp_stream_id ?q) a b"
      using q(2) i k by (auto simp: keyed_def peer_identity_matches_def intro: session_of.intros)
    then show ?thesis by (simp add: srtp_peer_ok_def)
  qed
  show ?thesis
  proof (cases "inbound_session p \<noteq> None \<and> outbound_session p \<noteq> None \<and> peer_identity_matches p i")
    case True
    then show ?thesis using r p by (auto simp: ensure_sessions_ready_def fault_free_def)
  next
    case False
    then have "ensure_sessions_ready lib dtls remote i p =
        (case get_srtp_keying_material remote i dtls of
          None \<Rightarrow> (Inr False, ?q)
        | Some material \<Rightarrow>
            (case make_inbound_srtp_session lib material of
               Inl e \<Rightarrow> (Inl e, ?q)
             | Inr inbound \<Rightarrow>
                 (case make_outbound_srtp_session lib material of
                    Inl e \<Rightarrow> (Inl e, ?q)
                  | Inr outbound \<Rightarrow> (Inr True, ?q\<lparr>inbound_session := Some inbound, outbound_session := Some outbound\<rparr>))))"
      unfolding ensure_sessions_ready_def Let_def by (rule if_not_P)
    then show ?thesis using r q made session_makers_safe [of lib]
      by (auto simp: fault_free_def peer_identity_matches_def split: option.splits sum.splits simp del: if_split)
  qed
qed

lemma find_ready_peer_ok:
  assumes dtls: "dtls_reachable api allowed dtls" and named: "\<forall>i \<in> allowed. peer_session_id i \<noteq> []"
    and inv: "srtp_inv api lib allowed peers" and r: "find_ready_peer lib dtls remote peers = (r, peers')"
  shows "srtp_inv api lib allowed peers' \<and> fault_free r
    \<and> (\<forall>p reason. r = Inr (Some p, reason) \<longrightarrow> peers' remote = Some p \<and> inbound_session p \<noteq> None \<and> outbound_session p \<noteq> None
        \<and> (\<exists>i. get_peer_identity remote dtls = Some i \<and> peer_identity_matches p i))"
proof (cases "get_peer_identity remote dtls")
  case None
  then show ?thesis using r inv
    by (auto simp: find_ready_peer_def fault_free_def intro: srtp_inv_update split: option.splits)
next
  case (Some i)
  let ?p = "case peers remote of None \<Rightarrow> bind_peer_identity i empty_srtp_peer | Some p \<Rightarrow> p"
  obtain ready p where e: "ensure_sessions_ready lib dtls remote i ?p = (ready, p)" by (meson surj_pair)
  have "srtp_peer_ok api lib allowed ?p" using inv empty_srtp_peer_ok by (auto simp: srtp_inv_def split: option.splits)
  note ok = ensure_sessions_ready_ok [OF dtls named this Some e]
  have "find_ready_peer lib dtls remote peers =
     (case ready of
        Inl e \<Rightarrow> (Inl e, peers(remote \<mapsto> p))
      | Inr b \<Rightarrow> if \<not> b then (Inr (None, ''dtls handshake is not complete''), peers(remote \<mapsto> p)) else (Inr (Some p, []), peers(remote \<mapsto> p)))"
    using Some e by (simp add: find_ready_peer_def Let_def)
  then show ?thesis using r ok Some srtp_inv_update [OF inv, of "Some p" remote]
    by (auto simp: fault_free_def split: sum.splits if_splits)
qed

lemma srtp_forget_peer_inv: "srtp_inv api lib allowed peers \<Longrightarrow> srtp_inv api lib allowed (srtp_forget_peer remote peers)"
  by (auto simp: srtp_forget_peer_def intro: srtp_inv_update)

lemma srtp_rebind_peer_inv:
  assumes "srtp_inv api lib allowed peers" "srtp_rebind_peer a b i peers = (r, peers')"
  shows "srtp_inv api lib allowed peers'"
  using assms
  by (auto simp: srtp_rebind_peer_def srtp_inv_def intro!: bind_same_session split: if_splits option.splits)

lemma session_packet_ok:
  "srtp_peer_ok api lib allowed p \<Longrightarrow> inbound_session p = Some a \<Longrightarrow> unprotect_packet lib is_rtcp a buffer n = (r, buffer', a')
     \<Longrightarrow> srtp_peer_ok api lib allowed (p\<lparr>inbound_session := Some a'\<rparr>)"
  "srtp_peer_ok api lib allowed p \<Longrightarrow> outbound_session p = Some a \<Longrightarrow> protect_packet lib is_rtcp a buffer n = (r, buffer', a')
     \<Longrightarrow> srtp_peer_ok api lib allowed (p\<lparr>outbound_session := Some a'\<rparr>)"
  by (auto simp: srtp_peer_ok_def keyed_def split: option.splits) (blast intro: session_of.intros)+

lemma counted_ok:
  "srtp_peer_ok api lib allowed (p\<lparr>inbound_packet_count := n\<rparr>) = srtp_peer_ok api lib allowed p"
  "srtp_peer_ok api lib allowed (p\<lparr>outbound_packet_count := n\<rparr>) = srtp_peer_ok api lib allowed p"
  by (auto simp: srtp_peer_ok_def split: option.splits)

lemma handle_inbound_packet_ok:
  assumes dtls: "dtls_reachable api allowed dtls" and named: "\<forall>i \<in> allowed. peer_session_id i \<noteq> []"
    and inv: "srtp_inv api lib allowed peers" and r: "handle_inbound_packet lib dtls data remote peers = (r, peers')"
  shows "srtp_inv api lib allowed peers' \<and> fault_free r
    \<and> (\<forall>x. r = Inr x \<longrightarrow> process_state x = state_unprotected \<longrightarrow>
        (\<exists>i session n buffer session'. get_peer_identity remote dtls = Some i
          \<and> (\<exists>j \<in> allowed. \<exists>m. peer_session_id j = peer_session_id i \<and> peer_stream_id j = peer_stream_id i
              \<and> verified_keys api (peer_fingerprint j) m \<and> session_of lib srtp_inbound m session)
          \<and> unprotect_packet lib (packet_kind x = kind_rtcp) session data (length data) = (Inr n, buffer, session')
          \<and> plain_packet x = resize n buffer))"
proof (cases "classify_packet data = kind_unknown")
  case True
  then show ?thesis using r inv
    by (auto simp: handle_inbound_packet_def fault_free_def make_ignored_result_def empty_process_result_def)
next
  case False
  obtain f peers1 where f: "find_ready_peer lib dtls remote peers = (f, peers1)" by (meson surj_pair)
  note ready = find_ready_peer_ok [OF dtls named inv f]
  show ?thesis
  proof (cases "\<exists>p reason. f = Inr (Some p, reason)")
    case no: False
    then show ?thesis using r False f ready
      by (cases f) (auto simp: handle_inbound_packet_def fault_free_def make_ignored_result_def empty_process_result_def Let_def
          split: option.splits prod.splits)
  next
    case True
    then obtain p reason where p: "f = Inr (Some p, reason)" by blast
    then obtain a i where a: "inbound_session p = Some a" "peers1 remote = Some p" "get_peer_identity remote dtls = Some i" "peer_identity_matches p i"
      using ready by blast
    then have pok: "srtp_peer_ok api lib allowed p" using ready by (auto simp: srtp_inv_def)
    obtain u buffer a' where u: "unprotect_packet lib (classify_packet data = kind_rtcp) a data (length data) = (u, buffer, a')"
      by (metis surj_pair)
    have inv': "srtp_inv api lib allowed (peers1(remote \<mapsto> p\<lparr>inbound_session := Some a'\<rparr>))"
      "srtp_inv api lib allowed (peers1(remote \<mapsto> p\<lparr>inbound_session := Some a', inbound_packet_count := c\<rparr>))" for c
      using ready session_packet_ok(1) [OF pok a(1) u] by (auto intro!: srtp_inv_update simp: counted_ok)
    have key: "\<exists>j \<in> allowed. \<exists>m. peer_session_id j = peer_session_id i \<and> peer_stream_id j = peer_stream_id i
              \<and> verified_keys api (peer_fingerprint j) m \<and> session_of lib srtp_inbound m a"
      using pok a by (auto simp: srtp_peer_ok_def keyed_def peer_identity_matches_def split: option.splits)
    show ?thesis
    proof (cases u)
      case (Inl e)
      then show ?thesis using r False f p a u inv'
        by (auto simp: handle_inbound_packet_def Let_def make_ignored_result_def empty_process_result_def fault_free_def)
    next
      case (Inr n)
      have h: "fault_free (parse_rtp_packet_header (resize n buffer))" by (intro safe)
      define goal where "goal x \<longleftrightarrow> (\<exists>i session n buffer session'. get_peer_identity remote dtls = Some i
          \<and> (\<exists>j \<in> allowed. \<exists>m. peer_session_id j = peer_session_id i \<and> peer_stream_id j = peer_stream_id i
              \<and> verified_keys api (peer_fingerprint j) m \<and> session_of lib srtp_inbound m session)
          \<and> unprotect_packet lib (packet_kind x = kind_rtcp) session data (length data) = (Inr n, buffer, session')
          \<and> plain_packet x = resize n buffer)" for x :: srtp_packet_process_result
      have goal: "goal x" if "packet_kind x = classify_packet data" "plain_packet x = resize n buffer" for x
        unfolding goal_def that using key u a(3) Inr by blast
      have "srtp_inv api lib allowed peers' \<and> fault_free r \<and> (\<forall>x. r = Inr x \<longrightarrow> process_state x = state_unprotected \<longrightarrow> goal x)"
      proof (cases "classify_packet data = kind_rtp")
        case True
        then show ?thesis using r f p a(1) u inv' goal Inr h
          by (cases "parse_rtp_packet_header (resize n buffer)")
            (auto simp: handle_inbound_packet_def Let_def empty_process_result_def fault_free_def split: fault.splits)
      next
        case no: False
        then show ?thesis using r False f p a(1) u inv' goal Inr
          by (auto simp: handle_inbound_packet_def Let_def empty_process_result_def fault_free_def)
      qed
      then show ?thesis unfolding goal_def .
    qed
  qed
qed

lemma protect_outbound_packet_ok:
  assumes dtls: "dtls_reachable api allowed dtls" and named: "\<forall>i \<in> allowed. peer_session_id i \<noteq> []"
    and inv: "srtp_inv api lib allowed peers" and r: "protect_outbound_packet lib dtls plain remote pk peers = (r, peers')"
  shows "srtp_inv api lib allowed peers' \<and> fault_free r
    \<and> (\<forall>x. r = Inr x \<longrightarrow> process_state x = state_protected \<longrightarrow>
        (\<exists>i session n buffer session'. get_peer_identity remote dtls = Some i
          \<and> (\<exists>j \<in> allowed. \<exists>m. peer_session_id j = peer_session_id i \<and> peer_stream_id j = peer_stream_id i
              \<and> verified_keys api (peer_fingerprint j) m \<and> session_of lib srtp_outbound m session)
          \<and> protect_packet lib (pk = kind_rtcp) session (plain @ replicate 64 0) (length plain) = (Inr n, buffer, session')
          \<and> protected_packet x = resize n buffer))"
proof (cases "pk = kind_unknown \<or> plain = []")
  case True
  then show ?thesis using r inv
    by (auto simp: protect_outbound_packet_def fault_free_def make_ignored_result_def empty_process_result_def split: if_splits)
next
  case False
  obtain f peers1 where f: "find_ready_peer lib dtls remote peers = (f, peers1)" by (meson surj_pair)
  note ready = find_ready_peer_ok [OF dtls named inv f]
  show ?thesis
  proof (cases "\<exists>p reason. f = Inr (Some p, reason)")
    case no: False
    then show ?thesis using r False f ready
      by (cases f) (auto simp: protect_outbound_packet_def fault_free_def make_ignored_result_def empty_process_result_def Let_def
          split: option.splits prod.splits)
  next
    case True
    then obtain p reason where p: "f = Inr (Some p, reason)" by blast
    then obtain a i where a: "outbound_session p = Some a" "peers1 remote = Some p" "get_peer_identity remote dtls = Some i" "peer_identity_matches p i"
      using ready by blast
    then have pok: "srtp_peer_ok api lib allowed p" using ready by (auto simp: srtp_inv_def)
    obtain u buffer a' where u: "protect_packet lib (pk = kind_rtcp) a (plain @ replicate 64 0) (length plain) = (u, buffer, a')"
      by (metis surj_pair)
    have inv': "srtp_inv api lib allowed (peers1(remote \<mapsto> p\<lparr>outbound_session := Some a'\<rparr>))"
      "srtp_inv api lib allowed (peers1(remote \<mapsto> p\<lparr>outbound_session := Some a', outbound_packet_count := c\<rparr>))" for c
      using ready session_packet_ok(2) [OF pok a(1) u] by (auto intro!: srtp_inv_update simp: counted_ok)
    have key: "\<exists>j \<in> allowed. \<exists>m. peer_session_id j = peer_session_id i \<and> peer_stream_id j = peer_stream_id i
              \<and> verified_keys api (peer_fingerprint j) m \<and> session_of lib srtp_outbound m a"
      using pok a by (auto simp: srtp_peer_ok_def keyed_def peer_identity_matches_def split: option.splits)
    show ?thesis
    proof (cases u)
      case (Inl e)
      then have "e \<noteq> OutOfBounds" using packets_safe(1) [OF u] by (simp add: fault_free_def)
      then show ?thesis using r False f p a u inv' Inl
        by (auto simp: protect_outbound_packet_def Let_def fault_free_def split: fault.splits)
    next
      case (Inr n)
      have "\<exists>i session n buffer session'. get_peer_identity remote dtls = Some i
          \<and> (\<exists>j \<in> allowed. \<exists>m. peer_session_id j = peer_session_id i \<and> peer_stream_id j = peer_stream_id i
              \<and> verified_keys api (peer_fingerprint j) m \<and> session_of lib srtp_outbound m session)
          \<and> protect_packet lib (pk = kind_rtcp) session (plain @ replicate 64 0) (length plain) = (Inr n, buffer, session')
          \<and> protected_packet (make_protected_result pk (resize n' b)) = resize n buffer" if "n' = n" "b = buffer" for n' b
        using key u a(3) Inr that by (simp add: make_protected_result_def) blast
      then show ?thesis using r False f p a(1) u inv' Inr
        by (auto simp: protect_outbound_packet_def Let_def fault_free_def)
    qed
  qed
qed

lemma peer_ready_inv:
  assumes "dtls_reachable api allowed dtls" "\<forall>i \<in> allowed. peer_session_id i \<noteq> []"
    and "srtp_inv api lib allowed peers" "peer_ready lib dtls remote peers = (r, peers')"
  shows "srtp_inv api lib allowed peers' \<and> fault_free r"
  using assms(3,4) find_ready_peer_ok [OF assms(1-3)]
  by (fastforce simp: peer_ready_def fault_free_def split: if_splits prod.splits sum.splits)

inductive srtp_reachable :: "('e, 's, 'c) openssl \<Rightarrow> 'k libsrtp \<Rightarrow> dtls_peer_identity set \<Rightarrow> 'k srtp_transport \<Rightarrow> bool"
  for api lib allowed where
  start: "srtp_reachable api lib allowed Map.empty"
| forget: "srtp_reachable api lib allowed peers \<Longrightarrow> srtp_reachable api lib allowed (srtp_forget_peer remote peers)"
| rebind: "srtp_reachable api lib allowed peers \<Longrightarrow> i \<in> allowed \<Longrightarrow> srtp_rebind_peer a b i peers = (r, peers')
    \<Longrightarrow> srtp_reachable api lib allowed peers'"
| ready: "srtp_reachable api lib allowed peers \<Longrightarrow> dtls_reachable api allowed dtls \<Longrightarrow> peer_ready lib dtls remote peers = (r, peers')
    \<Longrightarrow> srtp_reachable api lib allowed peers'"
| inbound: "srtp_reachable api lib allowed peers \<Longrightarrow> dtls_reachable api allowed dtls
    \<Longrightarrow> handle_inbound_packet lib dtls data remote peers = (x, peers') \<Longrightarrow> srtp_reachable api lib allowed peers'"
| outbound: "srtp_reachable api lib allowed peers \<Longrightarrow> dtls_reachable api allowed dtls
    \<Longrightarrow> protect_outbound_packet lib dtls plain remote pk peers = (x, peers') \<Longrightarrow> srtp_reachable api lib allowed peers'"

lemma srtp_reachable_inv:
  assumes "srtp_reachable api lib allowed peers" "\<forall>i \<in> allowed. peer_session_id i \<noteq> []"
  shows "srtp_inv api lib allowed peers"
  using assms(1)
proof (induction rule: srtp_reachable.induct)
  case start
  then show ?case by (simp add: srtp_inv_def)
qed (use assms(2) in \<open>blast intro: srtp_forget_peer_inv srtp_rebind_peer_inv
    dest: peer_ready_inv handle_inbound_packet_ok protect_outbound_packet_ok\<close>)+

section \<open>Properties\<close>


text \<open>A small libsrtp: it takes every packet as it is.\<close>

definition demo_libsrtp :: "unit libsrtp" where
  "demo_libsrtp =
     \<lparr>srtp_init = srtp_ok, srtp_create = (\<lambda>_. (srtp_ok, ())), srtp_protect = (\<lambda>_ b n. (srtp_ok, b, int n, ())),
      srtp_protect_rtcp = (\<lambda>_ b n. (srtp_ok, b, int n, ())), srtp_unprotect = (\<lambda>_ b n. (srtp_ok, b, int n, ())),
      srtp_unprotect_rtcp = (\<lambda>_ b n. (srtp_ok, b, int n, ()))\<rparr>"

definition demo_rtp :: bytes where
  "demo_rtp = [0x80, 96, 0, 1, 0, 0, 0, 9, 0, 0, 0, 5, 1, 2, 3]"

lemma demo_sessions:
  assumes "srtp_profile m \<noteq> unknown_profile"
  shows "make_inbound_srtp_session demo_libsrtp m = Inr (Some ())" "make_outbound_srtp_session demo_libsrtp m = Inr (Some ())"
  using assms
  by (cases "srtp_profile m"; simp add: make_inbound_srtp_session_def make_outbound_srtp_session_def make_srtp_native_handle_def
      demo_libsrtp_def validate_profile_def set_crypto_policy_def)+

lemma demo_rtp_parsed: "ok (parse_rtp_packet_header demo_rtp)" "classify_packet demo_rtp = kind_rtp" "length demo_rtp = 15"
  by code_simp+

lemma demo_media_states:
  obtains dtls x peers y peers' where "dtls_reachable demo_openssl {demo_identity} dtls"
    "handle_inbound_packet demo_libsrtp dtls demo_rtp ''10.0.0.7:5000'' Map.empty = (Inr x, peers)" "process_state x = state_unprotected"
    "protect_outbound_packet demo_libsrtp dtls demo_rtp ''10.0.0.7:5000'' kind_rtp Map.empty = (Inr y, peers')" "process_state y = state_protected"
proof -
  obtain r dtls m where d: "dtls_handle_udp_packet demo_openssl () demo_hello ''10.0.0.7:5000'' family_ipv4 demo_waiting = Some (r, dtls)"
    and m: "get_srtp_keying_material ''10.0.0.7:5000'' demo_identity dtls = Some m"
    using demo_handshake by auto
  have t: "dtls_reachable demo_openssl {demo_identity} dtls" by (rule dtls_reachable.datagram [OF demo_waiting_reachable d])
  then have i: "get_peer_identity ''10.0.0.7:5000'' dtls = Some demo_identity" and k: "srtp_profile m \<noteq> unknown_profile"
    using dtls_keys_are_verified' [OF t m] by (auto simp: verified_keys_def dest: exported_material(2))
  obtain h where h: "parse_rtp_packet_header demo_rtp = Inr h" using demo_rtp_parsed(1) by (auto simp: ok_iff)
  have f: "find_ready_peer demo_libsrtp dtls ''10.0.0.7:5000'' Map.empty =
      (Inr (Some p, []), Map.empty(''10.0.0.7:5000'' \<mapsto> p))"
    if "p = (bind_peer_identity demo_identity empty_srtp_peer)\<lparr>inbound_session := Some (Some ()), outbound_session := Some (Some ())\<rparr>" for p
    using i m demo_sessions [OF k] that
    by (simp add: find_ready_peer_def ensure_sessions_ready_def Let_def bind_peer_identity_def empty_srtp_peer_def
        peer_identity_matches_def demo_identity_def)
  have ne: "demo_rtp \<noteq> []" using demo_rtp_parsed(3) by auto
  have u: "unprotect_packet demo_libsrtp False (Some ()) demo_rtp 15 = (Inr 15, demo_rtp, Some ())"
    using ne demo_rtp_parsed(3) by (simp add: unprotect_packet_def validate_packet_buffer_def demo_libsrtp_def)
  have v: "protect_packet demo_libsrtp False (Some ()) (demo_rtp @ replicate 64 0) 15 = (Inr 15, demo_rtp @ replicate 64 0, Some ())"
    using ne demo_rtp_parsed(3) by (simp add: protect_packet_def validate_packet_buffer_def demo_libsrtp_def)
  have rs: "resize 15 demo_rtp = demo_rtp" using demo_rtp_parsed(3) by (simp add: resize_def)
  obtain x peers where "handle_inbound_packet demo_libsrtp dtls demo_rtp ''10.0.0.7:5000'' Map.empty = (Inr x, peers)" "process_state x = state_unprotected"
    using f [OF refl] u h rs demo_rtp_parsed(2,3) by (auto simp: handle_inbound_packet_def empty_process_result_def)
  moreover obtain y peers' where "protect_outbound_packet demo_libsrtp dtls demo_rtp ''10.0.0.7:5000'' kind_rtp Map.empty = (Inr y, peers')"
    "process_state y = state_protected"
    using f [OF refl] v ne demo_rtp_parsed(3) by (auto simp: protect_outbound_packet_def make_protected_result_def empty_process_result_def)
  ultimately show thesis using t that by blast
qed




end
