(* ===== verification/Session_Peer_Rebind.thy ===== *)
theory Session_Peer_Rebind
  imports Srtp_Transport Session_Stun_Binding
begin

text \<open>
  Moving the DTLS association and the SRTP sessions of a peer to another endpoint, both or neither
  (\<^verbatim>\<open>src/session/session_transport_peer_rebind.cpp\<close>), and the identity a session expects
  (\<^verbatim>\<open>src/session/peer_transport.cpp\<close>). The pointers to the two transports are set by the constructors of the
  session transports, so their null checks are left out.

  An endpoint is the text of its address, which Asio makes of it (empty when it cannot), and its port. An
  address text with a colon is one of IPv6.
\<close>

definition format_udp_endpoint :: "udp_endpoint \<Rightarrow> string" where
  "format_udp_endpoint e =
     (if endpoint_ip e = [] then ''<unknown>'' else endpoint_ip e @ '':'' @ decimal (unat (endpoint_port e)))"

definition endpoint_is_v6 :: "udp_endpoint \<Rightarrow> bool" where
  "endpoint_is_v6 e \<longleftrightarrow> CHR '':'' \<in> set (endpoint_ip e)"

definition endpoint_family :: "udp_endpoint \<Rightarrow> dtls_network_family" where
  "endpoint_family e = (if endpoint_is_v6 e then family_ipv6 else family_ipv4)"

definition rollback_srtp :: "string \<Rightarrow> string \<Rightarrow> dtls_peer_identity \<Rightarrow> 'k srtp_transport \<Rightarrow> 'k srtp_transport" where
  "rollback_srtp previous_remote next_remote previous_identity srtp =
     (let (rollback, srtp) = srtp_rebind_peer next_remote previous_remote previous_identity srtp in
      if rollback \<noteq> Inr True then srtp_forget_peer previous_remote (srtp_forget_peer next_remote srtp) else srtp)"

definition rebind_session_transport_peer ::
  "('e, 's, 'c) openssl \<Rightarrow> udp_endpoint \<Rightarrow> udp_endpoint \<Rightarrow> dtls_peer_identity \<Rightarrow> dtls_peer_identity \<Rightarrow>
     's dtls_transport \<times> 'k srtp_transport \<Rightarrow> bool result \<times> 's dtls_transport \<times> 'k srtp_transport" where
  "rebind_session_transport_peer api previous_endpoint next_endpoint previous_identity next_identity transports =
     (let (dtls, srtp) = transports;
          previous_remote = format_udp_endpoint previous_endpoint;
          next_remote = format_udp_endpoint next_endpoint;
          (srtp_rebind, srtp) = srtp_rebind_peer previous_remote next_remote next_identity srtp in
      case srtp_rebind of
        Inl e \<Rightarrow> (Inl e, dtls, srtp)
      | Inr srtp_moved \<Rightarrow>
          let (dtls_rebind, dtls) = rebind_peer api previous_remote next_remote next_identity (endpoint_family next_endpoint) dtls in
          (case dtls_rebind of
             Inl e \<Rightarrow>
               (Inl e, dtls, if srtp_moved then rollback_srtp previous_remote next_remote previous_identity srtp else srtp)
           | Inr dtls_moved \<Rightarrow>
               if \<not> dtls_moved then
                 let srtp = (if srtp_moved then rollback_srtp previous_remote next_remote previous_identity srtp else srtp) in
                 (Inr False, forget_peer previous_remote dtls, srtp_forget_peer previous_remote srtp)
               else (Inr True, dtls, srtp)))"

section \<open>Both or neither\<close>

lemma format_udp_endpoint_nonempty: "format_udp_endpoint e \<noteq> []"
  by (simp add: format_udp_endpoint_def)

lemma srtp_rebind_peer_cases:
  assumes "srtp_rebind_peer a b i srtp = (r, srtp')" "a \<noteq> []" "b \<noteq> []"
  obtains (absent) "srtp a = None" "r = Inr False" "srtp' = srtp"
  | (refused) e where "r = Inl e" "srtp' = srtp"
  | (moved) p where "srtp a = Some p" "r = Inr True" "srtp_session_id p = peer_session_id i" "srtp_stream_id p = peer_stream_id i"
      "a = b \<or> srtp b = None" "srtp' = srtp(a := None, b \<mapsto> bind_peer_identity i p)"
  using assms by (auto simp: srtp_rebind_peer_def make_error_def split: option.splits if_splits)

text \<open>The peers of a transport without the names they are bound to.\<close>

definition same_sessions :: "'k srtp_peer_state option \<Rightarrow> 'k srtp_peer_state option \<Rightarrow> bool" where
  "same_sessions p q \<longleftrightarrow> rel_option (\<lambda>p q. inbound_session p = inbound_session q \<and> outbound_session p = outbound_session q
      \<and> srtp_session_id p = srtp_session_id q \<and> srtp_stream_id p = srtp_stream_id q) p q"

lemma rollback_srtp_restores:
  assumes "srtp a = Some p" "srtp_session_id p = peer_session_id i" "srtp_stream_id p = peer_stream_id i"
    and "a = b \<or> srtp b = None" "a \<noteq> []" "b \<noteq> []"
    and "peer_session_id j = peer_session_id i" "peer_stream_id j = peer_stream_id i"
  shows "rollback_srtp a b j (srtp(a := None, b \<mapsto> bind_peer_identity i p)) = srtp(a \<mapsto> bind_peer_identity j p)"
  using assms
  by (auto simp: rollback_srtp_def srtp_rebind_peer_def bind_peer_identity_def fun_eq_iff)

lemma same_sessions_refl: "same_sessions p p"
  by (cases p) (auto simp: same_sessions_def)

lemma same_sessions_bind:
  "srtp_session_id p = peer_session_id i \<Longrightarrow> srtp_stream_id p = peer_stream_id i \<Longrightarrow> same_sessions (Some (bind_peer_identity i p)) (Some p)"
  by (simp add: same_sessions_def bind_peer_identity_def)

definition moved :: "udp_endpoint \<Rightarrow> udp_endpoint \<Rightarrow> dtls_peer_identity \<Rightarrow> 's dtls_transport \<times> 'k srtp_transport \<Rightarrow> 's dtls_transport \<times> 'k srtp_transport \<Rightarrow> bool" where
  "moved a b i before after \<longleftrightarrow>
     (\<exists>p q. dtls_peers (fst before) (format_udp_endpoint a) = Some p \<and> dtls_peers (fst after) (format_udp_endpoint b) = Some q
        \<and> identity q = i \<and> keying_material q = keying_material p \<and> keying_material p \<noteq> None)
     \<and> same_sessions (snd after (format_udp_endpoint b)) (snd before (format_udp_endpoint a))
     \<and> (\<forall>x. x \<noteq> format_udp_endpoint b \<longrightarrow> dtls_peers (fst after) x = (if x = format_udp_endpoint a then None else dtls_peers (fst before) x)
          \<and> snd after x = (if x = format_udp_endpoint a then None else snd before x))"

definition kept :: "'s dtls_transport \<times> 'k srtp_transport \<Rightarrow> 's dtls_transport \<times> 'k srtp_transport \<Rightarrow> string \<Rightarrow> bool" where
  "kept before after x \<longleftrightarrow>
     map_option identity (dtls_peers (fst after) x) = map_option identity (dtls_peers (fst before) x)
     \<and> map_option keying_material (dtls_peers (fst after) x) = map_option keying_material (dtls_peers (fst before) x)
     \<and> same_sessions (snd after x) (snd before x)"

text \<open>
  C11. A peer moves with its keys and both SRTP sessions or not at all: on success everything is at the new
  endpoint and nothing is left at the old one, on an error every endpoint keeps what it had, and without
  an association to move only the old endpoint is forgotten.
\<close>

theorem rebind_is_atomic:
  assumes "peer_session_id i = peer_session_id j" and "peer_stream_id i = peer_stream_id j"
    and "format_udp_endpoint a = format_udp_endpoint b \<or> snd before (format_udp_endpoint b) = None"
    and "rebind_session_transport_peer api a b i j before = (r, after)"
  shows "(case r of
      Inl _ \<Rightarrow> \<forall>x. kept before after x
    | Inr True \<Rightarrow> moved a b j before after
    | Inr False \<Rightarrow> dtls_peers (fst after) (format_udp_endpoint a) = None \<and> snd after (format_udp_endpoint a) = None
        \<and> (\<forall>x. x \<noteq> format_udp_endpoint a \<longrightarrow> kept before after x))"
proof -
  let ?a = "format_udp_endpoint a" and ?b = "format_udp_endpoint b"
  note ne = format_udp_endpoint_nonempty [of a] format_udp_endpoint_nonempty [of b]
  obtain dtls srtp where before: "before = (dtls, srtp)" by (cases before)
  obtain sr srtp1 where s: "srtp_rebind_peer ?a ?b j srtp = (sr, srtp1)" by (meson surj_pair)
  obtain dr dtls1 where d: "rebind_peer api ?a ?b j (endpoint_family b) dtls = (dr, dtls1)" by (meson surj_pair)
  show ?thesis
  proof (cases sr)
    case (Inl e)
    then have "r = Inl e" "after = (dtls, srtp1)" using assms(4) before s by (auto simp: rebind_session_transport_peer_def)
    moreover have "srtp1 = srtp" using s ne Inl by (cases rule: srtp_rebind_peer_cases) auto
    ultimately show ?thesis using before by (auto simp: kept_def same_sessions_refl)
  next
    case (Inr sm)
    let ?undone = "if sm then rollback_srtp ?a ?b i srtp1 else srtp1"
    have restored: "same_sessions (?undone x) (srtp x)" for x
      using s ne
    proof (cases rule: srtp_rebind_peer_cases)
      case (moved p)
      have "rollback_srtp ?a ?b i srtp1 = srtp(?a \<mapsto> bind_peer_identity i p)"
        unfolding moved(6) by (rule rollback_srtp_restores) (use moved ne assms in simp_all)
      then show ?thesis using moved Inr assms same_sessions_bind [of p i] same_sessions_refl [of "srtp x"]
        by auto
    qed (use Inr in \<open>auto simp: same_sessions_refl\<close>)
    have e: "rebind_session_transport_peer api a b i j before =
        (case dr of
           Inl e \<Rightarrow> (Inl e, dtls1, ?undone)
         | Inr dtls_moved \<Rightarrow>
             if \<not> dtls_moved then (Inr False, forget_peer ?a dtls1, srtp_forget_peer ?a ?undone)
             else (Inr True, dtls1, srtp1))"
      using before s d Inr by (simp add: rebind_session_transport_peer_def Let_def split: sum.splits)
    show ?thesis
      using d
    proof (cases rule: rebind_peer_cases)
      case same
      then show ?thesis using assms(4) before e restored ne
        by (cases dr) (auto simp: kept_def forget_peer_def srtp_forget_peer_def split: if_splits)
    next
      case (refused p t t')
      then show ?thesis using assms(4) before e restored ne
        by (cases dr) (auto simp: kept_def forget_peer_def srtp_forget_peer_def split: if_splits)
    next
      case m: (moved p t k t' mtu)
      have "same_sessions (srtp1 ?b) (srtp ?a) \<and> (\<forall>x. x \<noteq> ?b \<longrightarrow> srtp1 x = (if x = ?a then None else srtp x))"
        using s ne
      proof (cases rule: srtp_rebind_peer_cases)
        case absent
        then show ?thesis using assms(3) before by (auto simp: same_sessions_def)
      next
        case (moved q)
        then show ?thesis using same_sessions_bind [of q j] by auto
      qed (use Inr in simp)
      then show ?thesis using m assms(4) before e by (auto simp: moved_def)
    qed
  qed
qed

definition demo_endpoint :: "string \<Rightarrow> udp_endpoint" where
  "demo_endpoint address = \<lparr>endpoint_ip = address, endpoint_port = 5000\<rparr>"

lemma dtls_handle_only_remote:
  "dtls_handle_udp_packet api env data remote family t = Some (r, t') \<Longrightarrow> x \<noteq> remote \<Longrightarrow> dtls_peers t' x = dtls_peers t x"
  by (auto simp: dtls_handle_udp_packet_def split: sum.splits option.splits)

lemma demo_port: "decimal 5000 = ''5000''"
  by (simp add: decimal.simps digit_char_def char_of_def bit_iff_odd)

lemma demo_rebind:
  obtains dtls after where "rebind_session_transport_peer demo_openssl (demo_endpoint ''10.0.0.7'') (demo_endpoint ''10.0.0.8'')
      demo_identity demo_identity (dtls, Map.empty :: unit srtp_transport) = (Inr True, after)"
proof -
  let ?a = "''10.0.0.7:5000''" and ?b = "''10.0.0.8:5000''"
  obtain r dtls m where d: "dtls_handle_udp_packet demo_openssl () demo_hello ?a family_ipv4 demo_waiting = Some (r, dtls)"
    and m: "get_srtp_keying_material ?a demo_identity dtls = Some m"
    using demo_handshake by auto
  have "dtls_reachable demo_openssl {demo_identity} dtls" by (rule dtls_reachable.datagram [OF demo_waiting_reachable d])
  note inv = dtls_reachable_inv [OF this]
  obtain p where p0: "dtls_peers dtls ?a = Some p" and pm: "keying_material p = Some m"
    using m by (auto simp: get_srtp_keying_material_def split: option.splits if_splits)
  with inv have p: "dtls_peers dtls ?a = Some p" "identity p = demo_identity" "keying_material p = Some m"
    by (auto simp: dtls_inv_def dtls_peer_ok_def)
  have ssl: "ssl p \<noteq> None" "ip_mtu dtls \<ge> 576"
    using inv p by (auto simp: dtls_inv_def dtls_peer_ok_def)
  have other: "dtls_peers dtls ?b = None"
    using dtls_handle_only_remote [OF d, of ?b] by (simp add: demo_waiting_def remember_peer_def make_dtls_transport_def)
  have same: "same_dtls_association demo_identity demo_identity"
    by (simp add: same_dtls_association_def fingerprints_equal_def)
  have "validate_dtls_peer_identity (identity p) = Inr ()"
    using inv p(1) unfolding dtls_inv_def dtls_peer_ok_def by blast
  with same have valid: "validate_dtls_peer_identity demo_identity = Inr ()" "same_dtls_association demo_identity demo_identity"
    using p(2) by simp_all
  have f: "format_udp_endpoint (demo_endpoint ''10.0.0.7'') = ?a" "format_udp_endpoint (demo_endpoint ''10.0.0.8'') = ?b"
    "endpoint_family (demo_endpoint ''10.0.0.8'') = family_ipv4"
    by (simp_all add: format_udp_endpoint_def endpoint_family_def endpoint_is_v6_def demo_endpoint_def demo_port)
  obtain h n q where s: "ssl p = Some (h, n, q)" using ssl(1) by (cases "ssl p") auto
  obtain mtu where mtu: "make_dtls_udp_payload_mtu (ip_mtu dtls) family_ipv4 = Inr mtu"
    using ssl(2) by (simp add: make_dtls_udp_payload_mtu_def)
  have api: "wbio_set_mtu demo_openssl (h, n, q) mtu = (True, (h, mtu, q))" "wbio_get_mtu demo_openssl (h, mtu, q) = mtu"
    "ssl_set_mtu demo_openssl (h, mtu, q) mtu = (True, (h, mtu, q))"
    by (simp_all add: demo_openssl_def)
  have "configure_datagram_bio_mtu demo_openssl (h, n, q) mtu ''write'' = (Inr (), (h, mtu, q))"
    by (simp add: configure_datagram_bio_mtu_def api)
  then have "\<exists>t. rebind_peer demo_openssl ?a ?b demo_identity family_ipv4 dtls = (Inr True, t)"
    using p(1) p(2) p(3) s other valid by (simp add: rebind_peer_def mtu api)
  then obtain t where "rebind_peer demo_openssl ?a ?b demo_identity family_ipv4 dtls = (Inr True, t)" by blast
  then have "rebind_session_transport_peer demo_openssl (demo_endpoint ''10.0.0.7'') (demo_endpoint ''10.0.0.8'')
      demo_identity demo_identity (dtls, Map.empty :: unit srtp_transport) = (Inr True, t, Map.empty)"
    by (simp add: rebind_session_transport_peer_def f srtp_rebind_peer_def)
  then show thesis by (rule that)
qed

theorem rebind_is_atomic_witness:
  "\<exists>before after. rebind_session_transport_peer demo_openssl (demo_endpoint ''10.0.0.7'') (demo_endpoint ''10.0.0.8'')
      demo_identity demo_identity (before :: demo_ssl dtls_transport \<times> unit srtp_transport) = (Inr True, after)
    \<and> moved (demo_endpoint ''10.0.0.7'') (demo_endpoint ''10.0.0.8'') demo_identity before after"
proof -
  obtain dtls after where r: "rebind_session_transport_peer demo_openssl (demo_endpoint ''10.0.0.7'') (demo_endpoint ''10.0.0.8'')
      demo_identity demo_identity (dtls, Map.empty :: unit srtp_transport) = (Inr True, after)"
    by (rule demo_rebind)
  have "moved (demo_endpoint ''10.0.0.7'') (demo_endpoint ''10.0.0.8'') demo_identity (dtls, Map.empty) after"
    using rebind_is_atomic [OF refl refl _ r] by simp
  with r show ?thesis by (intro exI [of _ "(dtls, Map.empty)"] exI [of _ after]) simp
qed

end
