(* ===== verification/Spec2Isabelle.thy ===== *)
theory Spec2Isabelle
  imports Rtp_Header_Extension Rtcp_Compound_Packet Transport_Feedback_Generator Retransmission_Cache
    Receive_Statistics Fir_Sequence_Tracker Session_Stun_Binding Dtls_Packet Udp_Port_Allocator
    Whep_Retransmission Whep_Stream_Continuity Whep_Rtx_Forwarding Keyframe_Retry Stream_Registry Video_Keyframe
    Sdp_Answer Session_Peer_Rebind
begin

text \<open>
  A verification of SimpleWebrtc.
\<close>

section \<open>Memory safety\<close>


end
